(* ===== verification/Prelude.thy ===== *)
theory Prelude
  imports Main "HOL-Library.Word" "HOL-Library.Sublist"
begin

text \<open>
  Shared vocabulary of the development.

  \<^item> JavaScript strings are sequences of UTF-16 code units: \<open>jstring\<close> is a list of 16-bit
    words, so that \<open>length\<close>, \<open>slice\<close>, \<open>trim\<close> and \<open>startsWith\<close> count and cut what the
    code counts and cuts. \<open>js\<close> embeds an ASCII literal of the source.
  \<^item> A transaction of the database client (\<open>$transaction\<close>) is a state-passing function
    that ends in an error or in a value and the new state; \<open>run_transaction\<close> keeps the
    old state when the body throws, as the rollback does.
  \<^item> A table is a list of rows; \<open>update_where\<close>, \<open>count_where\<close> and \<open>delete_where\<close> are
    the bulk operations the source writes as \<open>updateMany\<close> and \<open>deleteMany\<close>.
  \<^item> The generic lemmas about keyed rows are proved once in the locale \<open>keyed_update\<close>
    and interpreted where the tables are declared.
\<close>

named_theorems tx_intros
named_theorems tx_defs

subsection \<open>Strings of code units\<close>

type_synonym jchar = "16 word"
type_synonym jstring = "jchar list"

definition js :: "string \<Rightarrow> jstring" where
  "js s = map (\<lambda>c. word_of_nat (of_char c)) s"

lemma char_word_inj: "(word_of_nat (of_char c) :: jchar) = word_of_nat (of_char d) \<longleftrightarrow> c = d"
proof
  assume eq: "(word_of_nat (of_char c) :: jchar) = word_of_nat (of_char d)"
  have small: "(of_char b :: nat) < 65536" for b :: char
    using nat_of_char_less_256 [of b] by (rule less_trans) simp
  have "unat (word_of_nat (of_char c) :: jchar) = unat (word_of_nat (of_char d) :: jchar)"
    using eq by simp
  then have "(of_char c :: nat) = of_char d"
    by (simp add: unat_of_nat small)
  then show "c = d" by simp
qed simp

lemma js_inj [simp]: "js s = js t \<longleftrightarrow> s = t"
  by (simp add: js_def inj_map_eq_map inj_def char_word_inj)

lemma js_Nil [simp]: "js [] = []"
  by (simp add: js_def)

lemma js_eq_Nil [simp]: "js s = [] \<longleftrightarrow> s = []" "[] = js s \<longleftrightarrow> s = []"
  by (auto simp: js_def)

lemma length_js [simp]: "length (js s) = length s"
  by (simp add: js_def)

lemma js_append: "js s @ js t = js (s @ t)"
  by (simp add: js_def)

lemma prefix_js [simp]: "prefix (js s) (js t) \<longleftrightarrow> prefix s t"
proof
  assume "prefix (js s) (js t)"
  then show "prefix s t"
  proof (induction s arbitrary: t)
    case Nil
    then show ?case by simp
  next
    case (Cons c s)
    then show ?case by (cases t) (auto simp: js_def char_word_inj)
  qed
next
  assume "prefix s t"
  then show "prefix (js s) (js t)"
    by (auto simp: prefix_def js_def)
qed

text \<open>
  \<open>String.prototype.trim\<close> strips the white space and line terminators of the language
  specification, all of them single code units.
\<close>

definition is_ws :: "jchar \<Rightarrow> bool" where
  "is_ws c \<longleftrightarrow> c \<in> set [9, 10, 11, 12, 13, 32, 160, 0x1680, 0x2000, 0x2001, 0x2002, 0x2003,
     0x2004, 0x2005, 0x2006, 0x2007, 0x2008, 0x2009, 0x200A, 0x2028, 0x2029, 0x202F, 0x205F,
     0x3000, 0xFEFF]"

definition trim_start :: "jstring \<Rightarrow> jstring" where
  "trim_start s = dropWhile is_ws s"

definition trim_end :: "jstring \<Rightarrow> jstring" where
  "trim_end s = rev (dropWhile is_ws (rev s))"

definition trim :: "jstring \<Rightarrow> jstring" where
  "trim s = trim_end (trim_start s)"

text \<open>The horizontal ellipsis that the code appends to clamped texts is one code unit.\<close>

definition ellipsis :: jstring where
  "ellipsis = [0x2026]"

lemma length_dropWhile_le': "length (dropWhile P xs) \<le> length xs"
  by (rule length_dropWhile_le)

lemma length_trim_start: "length (trim_start s) \<le> length s"
  by (simp add: trim_start_def length_dropWhile_le)

lemma length_trim_end: "length (trim_end s) \<le> length s"
  using length_dropWhile_le [of is_ws "rev s"] by (simp add: trim_end_def)

lemma length_trim: "length (trim s) \<le> length s"
  using length_trim_end [of "trim_start s"] length_trim_start [of s] by (simp add: trim_def)

lemma trim_end_last: "trim_end s \<noteq> [] \<Longrightarrow> \<not> is_ws (last (trim_end s))"
proof -
  assume "trim_end s \<noteq> []"
  then have ne: "dropWhile is_ws (rev s) \<noteq> []" by (simp add: trim_end_def)
  then have "\<not> is_ws (hd (dropWhile is_ws (rev s)))" by (rule hd_dropWhile)
  then show ?thesis using ne by (simp add: trim_end_def last_rev)
qed

lemma trim_end_prefix: "prefix (trim_end s) s"
proof -
  have "suffix (dropWhile is_ws (rev s)) (rev s)" by (rule suffix_dropWhile)
  then show ?thesis by (simp add: trim_end_def suffix_to_prefix)
qed

lemma trim_idem_if: "s = [] \<or> (\<not> is_ws (hd s) \<and> \<not> is_ws (last s)) \<Longrightarrow> trim s = s"
proof (cases s)
  case (Cons c t)
  assume "s = [] \<or> (\<not> is_ws (hd s) \<and> \<not> is_ws (last s))"
  with Cons have h: "\<not> is_ws c" and l: "\<not> is_ws (last s)" by auto
  from h Cons have "trim_start s = s" by (simp add: trim_start_def)
  have "trim_end (ys @ [y]) = ys @ [y]" if "\<not> is_ws y" for ys y
    using that by (simp add: trim_end_def)
  then have "trim_end (butlast s @ [last s]) = butlast s @ [last s]" using l by blast
  moreover have "butlast s @ [last s] = s" using Cons by simp
  ultimately have "trim_end s = s" by simp
  with \<open>trim_start s = s\<close> show ?thesis by (simp add: trim_def)
qed (simp add: trim_def trim_start_def trim_end_def)

lemma trim_ends: "trim s = [] \<or> (\<not> is_ws (hd (trim s)) \<and> \<not> is_ws (last (trim s)))"
proof (cases "trim s = []")
  case False
  then have l: "\<not> is_ws (last (trim s))"
    by (simp add: trim_def trim_end_last)
  obtain r where r: "trim_start s = trim s @ r"
    using trim_end_prefix [of "trim_start s"] by (auto simp: trim_def prefix_def)
  then have "trim_start s \<noteq> []" using False by simp
  then have "\<not> is_ws (hd (trim_start s))"
    by (simp add: trim_start_def hd_dropWhile)
  with r False l show ?thesis by simp
qed simp

lemma trim_trim [simp]: "trim (trim s) = trim s"
  by (rule trim_idem_if) (rule trim_ends)

text \<open>
  \<open>includes\<close> of the language, the segments of \<open>split\<close> at one code unit, and the folding of
  ASCII letters that a case-insensitive expression without the unicode flag applies.
\<close>

fun contains_sub :: "'a list \<Rightarrow> 'a list \<Rightarrow> bool" where
  "contains_sub sub [] = (sub = [])"
| "contains_sub sub (c # s) = (prefix sub (c # s) \<or> contains_sub sub s)"

fun split_on :: "'a \<Rightarrow> 'a list \<Rightarrow> 'a list list" where
  "split_on c [] = [[]]"
| "split_on c (x # xs) =
     (if x = c then [] # split_on c xs
      else case split_on c xs of [] \<Rightarrow> [[x]] | y # ys \<Rightarrow> (x # y) # ys)"

text \<open>\<open>join\<close> of the language.\<close>

fun join_with :: "jstring \<Rightarrow> jstring list \<Rightarrow> jstring" where
  "join_with sep [] = []"
| "join_with sep [s] = s"
| "join_with sep (s # t # ss) = s @ sep @ join_with sep (t # ss)"

definition ascii_lower_char :: "jchar \<Rightarrow> jchar" where
  "ascii_lower_char c = (if 65 \<le> c \<and> c \<le> 90 then c + 32 else c)"

definition ascii_lower :: "jstring \<Rightarrow> jstring" where
  "ascii_lower s = map ascii_lower_char s"

text \<open>A string value in a condition: absent and empty are both false.\<close>

definition truthy :: "'a list option \<Rightarrow> bool" where
  "truthy v = (case v of None \<Rightarrow> False | Some s \<Rightarrow> s \<noteq> [])"

lemma truthy_simps [simp]: "\<not> truthy None" "truthy (Some s) \<longleftrightarrow> s \<noteq> []"
  by (simp_all add: truthy_def)

lemma truthy_SomeD: "truthy v \<Longrightarrow> \<exists>s. v = Some s \<and> s \<noteq> []"
  by (cases v) simp_all

lemma split_on_not_Nil [simp]: "split_on c s \<noteq> []"
  by (cases s) (simp_all split: list.splits)

lemma contains_sub_iff: "contains_sub sub s \<longleftrightarrow> (\<exists>pre post. s = pre @ sub @ post)"
proof (induction s)
  case Nil
  then show ?case by simp
next
  case (Cons c s)
  show ?case
  proof
    assume "contains_sub sub (c # s)"
    then consider "prefix sub (c # s)" | "contains_sub sub s" by auto
    then show "\<exists>pre post. c # s = pre @ sub @ post"
    proof cases
      case 1
      then obtain post where "c # s = [] @ sub @ post" by (auto simp: prefix_def)
      then show ?thesis by blast
    next
      case 2
      with Cons obtain pre post where "c # s = (c # pre) @ sub @ post" by auto
      then show ?thesis by blast
    qed
  next
    assume "\<exists>pre post. c # s = pre @ sub @ post"
    then obtain pre post where eq: "c # s = pre @ sub @ post" by blast
    show "contains_sub sub (c # s)"
    proof (cases pre)
      case Nil
      with eq have "prefix sub (c # s)" by simp
      then show ?thesis by simp
    next
      case (Cons a list)
      with eq have "s = list @ sub @ post" by simp
      with Cons.IH show ?thesis by auto
    qed
  qed
qed

subsection \<open>Transactions\<close>

type_synonym ('s, 'e, 'a) tx = "'s \<Rightarrow> 'e + ('a \<times> 's)"

definition tx_return :: "'a \<Rightarrow> ('s, 'e, 'a) tx" where
  "tx_return x = (\<lambda>s. Inr (x, s))"

definition tx_throw :: "'e \<Rightarrow> ('s, 'e, 'a) tx" where
  "tx_throw e = (\<lambda>s. Inl e)"

definition tx_bind :: "('s, 'e, 'a) tx \<Rightarrow> ('a \<Rightarrow> ('s, 'e, 'b) tx) \<Rightarrow> ('s, 'e, 'b) tx" where
  "tx_bind m f = (\<lambda>s. case m s of Inl e \<Rightarrow> Inl e | Inr (x, s') \<Rightarrow> f x s')"

definition tx_then :: "('s, 'e, 'a) tx \<Rightarrow> ('s, 'e, 'b) tx \<Rightarrow> ('s, 'e, 'b) tx" where
  "tx_then m k = tx_bind m (\<lambda>_. k)"

definition tx_get :: "('s \<Rightarrow> 'a) \<Rightarrow> ('s, 'e, 'a) tx" where
  "tx_get f = (\<lambda>s. Inr (f s, s))"

definition tx_modify :: "('s \<Rightarrow> 's) \<Rightarrow> ('s, 'e, unit) tx" where
  "tx_modify f = (\<lambda>s. Inr ((), f s))"

definition tx_skip :: "('s, 'e, unit) tx" where
  "tx_skip = tx_return ()"

fun run_transaction :: "('s, 'e, 'a) tx \<Rightarrow> 's \<Rightarrow> ('e + 'a) \<times> 's" where
  "run_transaction m s = (case m s of Inl e \<Rightarrow> (Inl e, s) | Inr (x, s') \<Rightarrow> (Inr x, s'))"

lemma tx_return_run [simp]: "tx_return x s = Inr r \<longleftrightarrow> r = (x, s)"
  by (auto simp: tx_return_def)

lemma tx_throw_run [simp]: "tx_throw e s = Inr r \<longleftrightarrow> False" "tx_throw e s = Inl e' \<longleftrightarrow> e' = e"
  by (auto simp: tx_throw_def)

lemma tx_get_run [simp]: "tx_get f s = Inr r \<longleftrightarrow> r = (f s, s)"
  by (auto simp: tx_get_def)

lemma tx_modify_run [simp]: "tx_modify f s = Inr r \<longleftrightarrow> r = ((), f s)"
  by (auto simp: tx_modify_def)

lemma tx_bind_run [simp]:
  "tx_bind m f s = Inr r \<longleftrightarrow> (\<exists>x s'. m s = Inr (x, s') \<and> f x s' = Inr r)"
  by (auto simp: tx_bind_def split: sum.splits)

lemma tx_then_run [simp]:
  "tx_then m k s = Inr r \<longleftrightarrow> (\<exists>x s'. m s = Inr (x, s') \<and> k s' = Inr r)"
  by (simp add: tx_then_def)

lemma tx_skip_run [simp]: "tx_skip s = Inr r \<longleftrightarrow> r = ((), s)"
  by (simp add: tx_skip_def)

lemmas tx_eval = tx_return_def tx_throw_def tx_bind_def tx_then_def tx_get_def tx_modify_def
  tx_skip_def

text \<open>A transaction preserves a state predicate when every commit does.\<close>

definition tx_pres :: "('s \<Rightarrow> bool) \<Rightarrow> ('s, 'e, 'a) tx \<Rightarrow> bool" where
  "tx_pres I m \<longleftrightarrow> (\<forall>s x s'. I s \<longrightarrow> m s = Inr (x, s') \<longrightarrow> I s')"

lemma tx_presI: "(\<And>s x s'. I s \<Longrightarrow> m s = Inr (x, s') \<Longrightarrow> I s') \<Longrightarrow> tx_pres I m"
  unfolding tx_pres_def by blast

lemma tx_presD: "tx_pres I m \<Longrightarrow> I s \<Longrightarrow> m s = Inr (x, s') \<Longrightarrow> I s'"
  unfolding tx_pres_def by blast

lemma tx_pres_return [tx_intros]: "tx_pres I (tx_return x)"
  by (simp add: tx_pres_def)

lemma tx_pres_throw [tx_intros]: "tx_pres I (tx_throw e)"
  by (simp add: tx_pres_def)

lemma tx_pres_get [tx_intros]: "tx_pres I (tx_get f)"
  by (simp add: tx_pres_def)

lemma tx_pres_skip [tx_intros]: "tx_pres I tx_skip"
  by (simp add: tx_pres_def)

lemma tx_pres_bind [tx_intros]:
  "tx_pres I m \<Longrightarrow> (\<And>x. tx_pres I (f x)) \<Longrightarrow> tx_pres I (tx_bind m f)"
  unfolding tx_pres_def tx_bind_run by blast

lemma tx_pres_then [tx_intros]:
  "tx_pres I m \<Longrightarrow> tx_pres I k \<Longrightarrow> tx_pres I (tx_then m k)"
  unfolding tx_then_def by (rule tx_pres_bind)

lemma tx_pres_modify: "(\<And>s. I s \<Longrightarrow> I (f s)) \<Longrightarrow> tx_pres I (tx_modify f)"
  by (simp add: tx_pres_def)

lemma tx_pres_if [tx_intros]:
  "(b \<Longrightarrow> tx_pres I m) \<Longrightarrow> (\<not> b \<Longrightarrow> tx_pres I k) \<Longrightarrow> tx_pres I (if b then m else k)"
  by simp

lemma tx_pres_option [tx_intros]:
  "tx_pres I m \<Longrightarrow> (\<And>x. tx_pres I (f x)) \<Longrightarrow>
   tx_pres I (case v of None \<Rightarrow> m | Some x \<Rightarrow> f x)"
  by (cases v) simp_all

lemma run_transaction_pres:
  "tx_pres I m \<Longrightarrow> I s \<Longrightarrow> I (snd (run_transaction m s))"
  by (auto simp: tx_pres_def split: sum.splits)

subsection \<open>Tables\<close>

definition update_where :: "('r \<Rightarrow> bool) \<Rightarrow> ('r \<Rightarrow> 'r) \<Rightarrow> 'r list \<Rightarrow> 'r list" where
  "update_where p f rows = map (\<lambda>r. if p r then f r else r) rows"

definition count_where :: "('r \<Rightarrow> bool) \<Rightarrow> 'r list \<Rightarrow> nat" where
  "count_where p rows = length (filter p rows)"

definition delete_where :: "('r \<Rightarrow> bool) \<Rightarrow> 'r list \<Rightarrow> 'r list" where
  "delete_where p rows = filter (\<lambda>r. \<not> p r) rows"

lemma update_where_Nil [simp]: "update_where p f [] = []"
  by (simp add: update_where_def)

lemma update_where_append [simp]:
  "update_where p f (xs @ ys) = update_where p f xs @ update_where p f ys"
  by (simp add: update_where_def)

lemma update_where_Cons [simp]:
  "update_where p f (x # xs) = (if p x then f x else x) # update_where p f xs"
  by (simp add: update_where_def)

lemma set_update_where:
  "x \<in> set (update_where p f rows) \<longleftrightarrow>
   (\<exists>r \<in> set rows. x = (if p r then f r else r))"
  by (auto simp: update_where_def)

lemma update_where_none: "count_where p rows = 0 \<Longrightarrow> update_where p f rows = rows"
  by (induction rows) (auto simp: count_where_def update_where_def split: if_splits)

lemma count_where_pos: "count_where p rows \<noteq> 0 \<longleftrightarrow> (\<exists>r \<in> set rows. p r)"
  by (auto simp: count_where_def filter_empty_conv)

lemma set_delete_where [simp]: "set (delete_where p rows) = {r \<in> set rows. \<not> p r}"
  by (auto simp: delete_where_def)

lemma distinct_delete_where: "distinct (map k rows) \<Longrightarrow> distinct (map k (delete_where p rows))"
  by (simp add: delete_where_def distinct_map_filter)

lemma find_SomeD: "List.find p rows = Some r \<Longrightarrow> r \<in> set rows \<and> p r"
  by (induction rows) (auto split: if_splits)

lemma find_NoneD: "List.find p rows = None \<longleftrightarrow> (\<forall>r \<in> set rows. \<not> p r)"
  by (induction rows) auto

text \<open>
  The interface of a keyed table: an update that never changes the key. What every table
  of the model needs is proved once: keys stay distinct, the row with a given key is the
  updated old row with that key, and a condition that fixes the key selects at most one row.
\<close>

locale keyed_update =
  fixes key :: "'r \<Rightarrow> 'k" and upd :: "'r \<Rightarrow> 'r"
  assumes key_upd: "key (upd r) = key r"
begin

lemma keys_update: "map key (update_where p upd rows) = map key rows"
  by (simp add: update_where_def key_upd)

lemma distinct_update: "distinct (map key rows) \<Longrightarrow> distinct (map key (update_where p upd rows))"
  by (simp add: keys_update)

lemma update_back:
  "r' \<in> set (update_where p upd rows) \<Longrightarrow>
   \<exists>r \<in> set rows. key r = key r' \<and> (r' = r \<or> (p r \<and> r' = upd r))"
  by (auto simp: set_update_where key_upd split: if_splits)

end

lemma distinct_key_eq:
  "distinct (map key rows) \<Longrightarrow> r \<in> set rows \<Longrightarrow> q \<in> set rows \<Longrightarrow> key r = key q \<Longrightarrow> r = q"
  by (auto simp: distinct_map inj_on_def)

lemma count_where_key_le1:
  assumes "distinct (map key rows)" and "\<And>r. p r \<Longrightarrow> key r = k"
  shows "count_where p rows \<le> 1"
  using assms(1)
proof (induction rows)
  case Nil
  then show ?case by (simp add: count_where_def)
next
  case (Cons r rows)
  show ?case
  proof (cases "p r")
    case True
    then have "\<forall>q \<in> set rows. \<not> p q"
      using Cons.prems assms(2) by (auto simp: image_iff)
    then have "filter p rows = []" by (simp add: filter_empty_conv)
    with True show ?thesis by (simp add: count_where_def)
  next
    case False
    with Cons show ?thesis by (simp add: count_where_def)
  qed
qed

end
