(* ===== verification/RunState.thy ===== *)
theory RunState
  imports Prelude
begin

text \<open>
  The run life cycle of \<open>packages/core/src/run-state.ts\<close>: the statuses of
  \<open>packages/contracts/src/ids.ts\<close>, the table of allowed transitions, the active and
  terminal statuses, the fence counter, and what the table allows a run to do over time.
\<close>

datatype run_status =
  Queued | Leased | Running | WaitingInput | WaitingTakeover | Completed | Failed | Cancelled

instantiation run_status :: enum
begin

definition enum_run_status :: "run_status list" where
  "enum_run_status =
     [Queued, Leased, Running, WaitingInput, WaitingTakeover, Completed, Failed, Cancelled]"

definition enum_all_run_status :: "(run_status \<Rightarrow> bool) \<Rightarrow> bool" where
  "enum_all_run_status P \<longleftrightarrow> P Queued \<and> P Leased \<and> P Running \<and> P WaitingInput \<and>
     P WaitingTakeover \<and> P Completed \<and> P Failed \<and> P Cancelled"

definition enum_ex_run_status :: "(run_status \<Rightarrow> bool) \<Rightarrow> bool" where
  "enum_ex_run_status P \<longleftrightarrow> P Queued \<or> P Leased \<or> P Running \<or> P WaitingInput \<or>
     P WaitingTakeover \<or> P Completed \<or> P Failed \<or> P Cancelled"

instance
proof
  show "(UNIV :: run_status set) = set enum_class.enum"
    by (auto simp: enum_run_status_def intro: run_status.exhaust)
  show "distinct (enum_class.enum :: run_status list)"
    by (simp add: enum_run_status_def)
  show "enum_class.enum_all P \<longleftrightarrow> Ball UNIV P" for P :: "run_status \<Rightarrow> bool"
    by (auto simp: enum_all_run_status_def) (metis run_status.exhaust)
  show "enum_class.enum_ex P \<longleftrightarrow> Bex UNIV P" for P :: "run_status \<Rightarrow> bool"
    by (auto simp: enum_ex_run_status_def) (metis run_status.exhaust)
qed

end

definition ACTIVE_RUN_STATUSES :: "run_status list" where
  "ACTIVE_RUN_STATUSES = [Queued, Leased, Running, WaitingInput, WaitingTakeover]"

definition TERMINAL :: "run_status list" where
  "TERMINAL = [Completed, Failed, Cancelled]"

fun allowed :: "run_status \<Rightarrow> run_status list" where
  "allowed Queued = [Leased, Cancelled]"
| "allowed Leased = [Running, Queued, Cancelled]"
| "allowed Running = [WaitingInput, WaitingTakeover, Completed, Failed, Cancelled, Leased]"
| "allowed WaitingInput = [Queued, Leased, Cancelled]"
| "allowed WaitingTakeover = [Queued, Leased, Cancelled]"
| "allowed Completed = []"
| "allowed Failed = [Queued]"
| "allowed Cancelled = []"

definition canTransition :: "run_status \<Rightarrow> run_status \<Rightarrow> bool" where
  "canTransition from to \<longleftrightarrow> to \<in> set (allowed from)"

datatype illegal_transition = IllegalTransition run_status run_status

definition assertTransition :: "run_status \<Rightarrow> run_status \<Rightarrow> illegal_transition + unit" where
  "assertTransition from to =
     (if \<not> canTransition from to then Inl (IllegalTransition from to) else Inr ())"

definition isActive :: "run_status \<Rightarrow> bool" where
  "isActive s \<longleftrightarrow> s \<in> set ACTIVE_RUN_STATUSES"

definition isTerminal :: "run_status \<Rightarrow> bool" where
  "isTerminal s \<longleftrightarrow> s \<in> set TERMINAL"

definition nextFence :: "int \<Rightarrow> int" where
  "nextFence current = current + 1"

lemmas run_state_defs = canTransition_def isActive_def isTerminal_def
  ACTIVE_RUN_STATUSES_def TERMINAL_def

lemma active_iff_not_terminal: "isActive s \<longleftrightarrow> \<not> isTerminal s"
  by (cases s) (simp_all add: run_state_defs)

lemma cancel_from_active: "isActive s \<Longrightarrow> canTransition s Cancelled"
  by (cases s) (simp_all add: run_state_defs)

subsection \<open>What a run can do over time\<close>

text \<open>A history is a list of statuses, each an allowed successor of the one before.\<close>

fun history :: "run_status list \<Rightarrow> bool" where
  "history [] = True"
| "history [s] = True"
| "history (s # t # rest) = (canTransition s t \<and> history (t # rest))"

fun_cases history_ConsE: "history (s # rest)"

lemma history_tl: "history (s # rest) \<Longrightarrow> history rest"
  by (cases rest) auto

lemma terminal_successor: "isTerminal s \<Longrightarrow> canTransition s t \<Longrightarrow> s = Failed \<and> t = Queued"
  by (cases s) (simp_all add: run_state_defs)

text \<open>
  How far a status is from the end: a run that is never re-leased, re-queued or retried
  can only move down this rank.
\<close>

fun rank :: "run_status \<Rightarrow> nat" where
  "rank Queued = 3"
| "rank Leased = 2"
| "rank Running = 1"
| "rank WaitingInput = 4"
| "rank WaitingTakeover = 4"
| "rank Completed = 0"
| "rank Failed = 0"
| "rank Cancelled = 0"

lemma completed_from_running: "canTransition s Completed \<Longrightarrow> s = Running"
  by (cases s) (simp_all add: run_state_defs)

lemma running_from_leased: "canTransition s Running \<Longrightarrow> s = Leased"
  by (cases s) (simp_all add: run_state_defs)

lemma running_in_history:
  "history (s # rest) \<Longrightarrow> s \<noteq> Running \<Longrightarrow> Running \<in> set rest \<Longrightarrow>
   \<exists>pre post. s # rest = pre @ Leased # Running # post"
proof (induction rest arbitrary: s)
  case Nil
  then show ?case by simp
next
  case (Cons t rest)
  show ?case
  proof (cases "t = Running")
    case True
    with Cons.prems have "s = Leased" by (auto dest: running_from_leased)
    with True have "s # t # rest = [] @ Leased # Running # rest" by simp
    then show ?thesis by blast
  next
    case False
    with Cons.prems have "history (t # rest)" and "Running \<in> set rest" by auto
    with False Cons.IH obtain pre post where "t # rest = pre @ Leased # Running # post"
      by blast
    then have "s # t # rest = (s # pre) @ Leased # Running # post" by simp
    then show ?thesis by blast
  qed
qed

lemma completed_last:
  "history (s # rest) \<Longrightarrow> s \<noteq> Completed \<Longrightarrow> Completed \<in> set rest \<Longrightarrow>
   \<exists>pre. s # rest = pre @ [Running, Completed]"
proof (induction rest arbitrary: s)
  case Nil
  then show ?case by simp
next
  case (Cons t rest)
  show ?case
  proof (cases "t = Completed")
    case True
    with Cons.prems have s: "s = Running" by (auto dest: completed_from_running)
    have "rest = []"
      using Cons.prems(1) True by (cases rest) (auto simp: run_state_defs)
    with True s have "s # t # rest = [] @ [Running, Completed]" by simp
    then show ?thesis by blast
  next
    case False
    with Cons.prems have "history (t # rest)" and "Completed \<in> set rest" by auto
    with False Cons.IH obtain pre where "t # rest = pre @ [Running, Completed]" by blast
    then have "s # t # rest = (s # pre) @ [Running, Completed]" by simp
    then show ?thesis by blast
  qed
qed

end
