(* ===== verification/Contracts.thy ===== *)
theory Contracts
  imports Prelude
begin

text \<open>
  The data the components exchange, from \<open>packages/contracts/src\<close>: JSON values, the
  message blocks of \<open>events.ts\<close> with the source's constructors and fields, the roles, and
  the product event types. Optional fields are \<open>option\<close> values.
\<close>

subsection \<open>JSON values\<close>

text \<open>
  The numbers of the stored values are integers here; objects keep the insertion order of
  their keys, as the language does.
\<close>

datatype json =
    JNull
  | JBool bool
  | JNum int
  | JStr jstring
  | JArr "json list"
  | JObj "(jstring \<times> json) list"

text \<open>\<open>payload.key\<close> on an object whose entries are listed in order.\<close>

definition field :: "jstring \<Rightarrow> (jstring \<times> json) list \<Rightarrow> json option" where
  "field k fs = map_of fs k"

subsection \<open>Message blocks\<close>

datatype ask_input = AskText | AskSecret

datatype ask_status = AskPending | AskAnswered

record ask_block =
  ask_text :: jstring
  ask_approvalEffectId :: "jstring option"
  ask_detail :: "jstring option"
  ask_input :: "ask_input option"
  ask_status :: "ask_status option"
  ask_answer :: "jstring option"
  ask_actions :: "(jstring \<times> jstring) list option"

datatype connect_status = ConnectPending | ConnectConnected

datatype agent_status = AgentRunning | AgentCompleted | AgentFailed

record subagent_block =
  sub_agentId :: jstring
  sub_name :: jstring
  sub_task :: jstring
  sub_status :: agent_status
  sub_progress :: "jstring option"
  sub_result :: "jstring option"

datatype child_status = ChildCreated | ChildArchived | ChildDeleted

datatype draft_status = SkillDraft | SkillSaved

record playbook =
  pb_whenToUse :: jstring
  pb_inputs :: "jstring list"
  pb_steps :: "jstring list"
  pb_howToCheck :: jstring
  pb_whatToReturn :: jstring
  pb_approvalBoundaries :: jstring
  pb_failureHandling :: jstring

datatype mcp_transport = StreamableHttp | Sse | Stdio

record tool_step =
  step_label :: jstring
  step_count :: nat

datatype message_block =
    BText jstring
  | BCard "(jstring \<times> jstring) list"
  | BAsk ask_block
  | BChoice jstring "jstring option" "(jstring \<times> jstring \<times> jstring) list" "jstring option"
  | BAppConnect jstring jstring jstring "jstring option" connect_status
  | BConnect jstring jstring jstring connect_status
  | BComputer jstring jstring
  | BMeta jstring
  | BProgress jstring "jstring list option"
  | BSteps "tool_step list"
  | BSubagent subagent_block
  | BChildBot jstring jstring "jstring option" child_status
  | BSkillDraft jstring jstring jstring playbook draft_status
  | BChart jstring "(jstring \<times> json) list" "json list"
  | BMcpApproval jstring jstring mcp_transport "jstring option" bool
  | BImage jstring jstring jstring
  | BFile jstring jstring jstring nat
  | BHandoff jstring jstring jstring
  | BBotMessageSent jstring jstring jstring
  | BBotMessageReceived jstring jstring jstring "nat option"

datatype role = RUser | RBot | RSystem

subsection \<open>Product events\<close>

datatype event_type =
    ThreadMessageCreated | ThreadCleared | ThreadMessageUpdated | ThreadProgress
  | ThreadArtifact | ThreadAsk | ThreadChoice | ThreadMeta | ThreadComputer | ThreadSubagent
  | RunStarted | RunCheckpointed | RunWaitingInput | RunCompleted | RunFailed | RunCancelled
  | ComputerStatus | ComputerTakeoverRequested | ComputerTakeoverGranted
  | ComputerTakeoverReleased | MemoryRevised | RoutineCreated | RoutineUpdated | RoutineFired
  | SkillTeachingStarted | SkillTeachingStopped | SkillDraftCreated | SkillSavedEvent
  | EffectRecorded | AgentToolCalled | EffectReconciled | UsageRecorded | BotSpawned
  | BotArchived | BotDeleted | GroupCreated | GroupUpdated | GroupHandoff

text \<open>
  A payload is a JSON object. The three fields that the code casts to typed values
  (\<open>messageId\<close>, \<open>role\<close>, \<open>blocks\<close>) are kept typed, the others as JSON.
\<close>

record event_payload =
  p_messageId :: "jstring option"
  p_role :: "role option"
  p_blocks :: "message_block list option"
  p_fields :: "(jstring \<times> json) list"

definition no_payload :: event_payload where
  "no_payload = \<lparr>p_messageId = None, p_role = None, p_blocks = None, p_fields = []\<rparr>"

definition fields_payload :: "(jstring \<times> json) list \<Rightarrow> event_payload" where
  "fields_payload fs = \<lparr>p_messageId = None, p_role = None, p_blocks = None, p_fields = fs\<rparr>"

definition message_payload :: "jstring \<Rightarrow> role \<Rightarrow> message_block list \<Rightarrow> event_payload" where
  "message_payload mid r bs =
     \<lparr>p_messageId = Some mid, p_role = Some r, p_blocks = Some bs, p_fields = []\<rparr>"

end
