(* ===== verification/Db.thy ===== *)
theory Db
  imports RunState Contracts
begin

text \<open>
  The relational state: one record per model of \<open>packages/db/prisma/schema.prisma\<close> with
  the columns the modelled operations read or write, the database as the record of its
  tables, the errors a transaction can end in, and the client operations the source uses on
  single rows (\<open>create\<close> with the schema's unique constraints, \<open>update\<close> on a unique key).
  Identifiers the client generates and the clock are arguments of the operations. The
  columns the client maintains by itself (\<open>@updatedAt\<close>) are not part of the rows of this
  theory unless an operation sets them.
\<close>

type_synonym id = jstring
type_synonym time = int

record thread_row =
  t_id :: id
  t_workspaceId :: id
  t_botId :: "id option"
  t_groupId :: "id option"
  t_userId :: id
  t_nextEventSeq :: int
  t_nextMessageSeq :: int
  t_historyCompactedUpToSeq :: "int option"
  t_historyCompactionSummary :: "jstring option"
  t_historyCompactionGeneration :: int
  t_unread :: bool

record message_row =
  m_id :: id
  m_threadId :: id
  m_seq :: int
  m_role :: role
  m_blocks :: "message_block list"
  m_botId :: "id option"
  m_replyToMessageId :: "id option"
  m_runId :: "id option"
  m_clientNonce :: "jstring option"
  m_createdAt :: time

record event_row =
  e_id :: id
  e_workspaceId :: id
  e_threadId :: id
  e_botId :: id
  e_seq :: int
  e_type :: event_type
  e_payload :: event_payload
  e_runId :: "id option"
  e_createdAt :: time

record task_row =
  k_id :: id
  k_workspaceId :: id
  k_botId :: id
  k_threadId :: id
  k_userId :: id
  k_prompt :: jstring
  k_status :: run_status

datatype checkpoint = CkTakeover | CkTakeoverSkipped | CkOther jstring

datatype run_trigger = TrigUser | TrigRoutine | TrigResume | TrigFollowUp | TrigSpawn
  | TrigSkill | TrigBotMessage | TrigWebhook

record run_row =
  r_id :: id
  r_workspaceId :: id
  r_botId :: id
  r_threadId :: id
  r_taskId :: id
  r_userId :: id
  r_status :: run_status
  r_trigger :: run_trigger
  r_error :: "jstring option"
  r_leaseOwner :: "jstring option"
  r_leaseFence :: int
  r_leaseExpiresAt :: "time option"
  r_checkpoint :: "checkpoint option"
  r_clientNonce :: "jstring option"
  r_sourceMessageId :: "id option"
  r_routineId :: "id option"
  r_startedAt :: "time option"
  r_completedAt :: "time option"
  r_createdAt :: time

datatype attempt_status = ARunning | AWaitingInput | AWaitingTakeover | ACompleted | AFailed
  | ACancelled | ASetupFailed | AInterrupted

record attempt_row =
  a_id :: id
  a_runId :: id
  a_fence :: int
  a_status :: attempt_status
  a_error :: "jstring option"
  a_finishedAt :: "time option"

text \<open>The status column of an effect is a string: the values the code names, and any other.\<close>

datatype effect_status = Intended | Approved | Denied | Executing | EffectCompleted | Uncertain
  | OtherStatus jstring

record effect_row =
  x_id :: id
  x_workspaceId :: id
  x_runId :: id
  x_kind :: jstring
  x_idempotencyKey :: jstring
  x_status :: effect_status
  x_request :: json
  x_result :: "json option"

datatype rule_effect = RequireApproval | AlwaysAllow

datatype match_kind = MatchTool | MatchConnector | MatchCategory | MatchOther

record rule_row =
  u_workspaceId :: id
  u_createdByUserId :: id
  u_effect :: rule_effect
  u_matchKind :: match_kind
  u_matchValue :: jstring

datatype computer_state = Stopped | Booting | PoweredOn | Suspending | Suspended | Errored

datatype control_holder = HolderUser | HolderBot | HolderNone

datatype computer_scope = ScopeTeam | ScopeDedicated

record computer_row =
  c_id :: id
  c_workspaceId :: id
  c_userId :: id
  c_scope :: computer_scope
  c_providerRef :: "jstring option"
  c_state :: computer_state
  c_homeRevision :: jstring
  c_kind :: jstring
  c_controlHolder :: control_holder
  c_controlLeaseId :: "id option"
  c_controlLeaseExpiresAt :: "time option"
  c_controlBotId :: "id option"
  c_controlRunId :: "id option"
  c_executionRunId :: "id option"
  c_executionBotId :: "id option"
  c_executionLeaseExpiresAt :: "time option"
  c_updatedAt :: time

record lease_row =
  l_computerId :: id
  l_botId :: id
  l_runId :: id
  l_fence :: int
  l_expiresAt :: time

record bot_row =
  b_id :: id
  b_workspaceId :: id
  b_userId :: id
  b_name :: jstring
  b_title :: jstring
  b_description :: jstring
  b_color :: jstring
  b_computerId :: "id option"
  b_computerSwitching :: bool
  b_archivedAt :: "time option"
  b_updatedAt :: time

record group_row =
  g_id :: id
  g_workspaceId :: id
  g_userId :: id
  g_name :: jstring
  g_pinned :: bool
  g_sectionId :: "id option"
  g_archivedAt :: "time option"
  g_createdAt :: time
  g_updatedAt :: time
  g_memberBotIds :: "id list"
  g_artifactKeys :: "jstring list"

record secret_row =
  s_id :: id
  s_userId :: id
  s_workspaceId :: id
  s_kind :: jstring
  s_ciphertext :: jstring

record routine_row =
  o_id :: id
  o_workspaceId :: id
  o_botId :: id
  o_userId :: id
  o_prompt :: jstring
  o_crons :: "jstring list"
  o_timezone :: jstring
  o_active :: bool
  o_lastRunAt :: "time option"
  o_nextRunAt :: "time option"

record db =
  db_threads :: "thread_row list"
  db_messages :: "message_row list"
  db_events :: "event_row list"
  db_tasks :: "task_row list"
  db_runs :: "run_row list"
  db_attempts :: "attempt_row list"
  db_effects :: "effect_row list"
  db_rules :: "rule_row list"
  db_computers :: "computer_row list"
  db_leases :: "lease_row list"
  db_bots :: "bot_row list"
  db_groups :: "group_row list"
  db_secrets :: "secret_row list"
  db_routines :: "routine_row list"

definition empty_db :: db where
  "empty_db = \<lparr>db_threads = [], db_messages = [], db_events = [], db_tasks = [], db_runs = [], db_attempts = [],
     db_effects = [], db_rules = [], db_computers = [], db_leases = [], db_bots = [], db_groups = [],
     db_secrets = [], db_routines = []\<rparr>"

datatype db_error =
    RecordNotFound
  | UniqueViolation
  | RunHistoryWriteError
  | AppError string
  | IllegalRunTransition run_status run_status

type_synonym 'a dbtx = "(db, db_error, 'a) tx"

subsection \<open>Lookups\<close>

definition find_thread :: "id \<Rightarrow> db \<Rightarrow> thread_row option" where
  "find_thread i d = List.find (\<lambda>t. t_id t = i) (db_threads d)"

definition find_run :: "id \<Rightarrow> db \<Rightarrow> run_row option" where
  "find_run i d = List.find (\<lambda>r. r_id r = i) (db_runs d)"

definition find_computer :: "id \<Rightarrow> db \<Rightarrow> computer_row option" where
  "find_computer i d = List.find (\<lambda>c. c_id c = i) (db_computers d)"

definition find_bot :: "id \<Rightarrow> db \<Rightarrow> bot_row option" where
  "find_bot i d = List.find (\<lambda>b. b_id b = i) (db_bots d)"

definition bot_thread :: "id \<Rightarrow> db \<Rightarrow> thread_row option" where
  "bot_thread i d = List.find (\<lambda>t. t_botId t = Some i) (db_threads d)"

lemma find_run_SomeD: "find_run i d = Some r \<Longrightarrow> r \<in> set (db_runs d) \<and> r_id r = i"
  by (auto simp: find_run_def dest: find_SomeD)

lemma find_thread_SomeD: "find_thread i d = Some t \<Longrightarrow> t \<in> set (db_threads d) \<and> t_id t = i"
  by (auto simp: find_thread_def dest: find_SomeD)

lemma find_computer_SomeD:
  "find_computer i d = Some c \<Longrightarrow> c \<in> set (db_computers d) \<and> c_id c = i"
  by (auto simp: find_computer_def dest: find_SomeD)

subsection \<open>Creating rows\<close>

text \<open>
  \<open>create\<close> fails when the new row breaks a unique constraint of its model: the primary key,
  \<open>[threadId, seq]\<close> and \<open>[threadId, clientNonce]\<close> of messages, \<open>[threadId, seq]\<close> of events,
  \<open>[workspaceId, clientNonce]\<close> of runs (a null never collides), \<open>idempotencyKey\<close> of effects,
  \<open>[computerId, botId]\<close> of execution leases.
\<close>

definition create_message :: "message_row \<Rightarrow> message_row dbtx" where
  "create_message m = (\<lambda>d.
     if \<exists>q \<in> set (db_messages d). m_id q = m_id m
          \<or> (m_threadId q = m_threadId m \<and> m_seq q = m_seq m)
          \<or> (m_threadId q = m_threadId m \<and> m_clientNonce q = m_clientNonce m
               \<and> m_clientNonce m \<noteq> None)
     then Inl UniqueViolation
     else Inr (m, d\<lparr>db_messages := db_messages d @ [m]\<rparr>))"

definition create_event :: "event_row \<Rightarrow> event_row dbtx" where
  "create_event e = (\<lambda>d.
     if \<exists>q \<in> set (db_events d). e_id q = e_id e
          \<or> (e_threadId q = e_threadId e \<and> e_seq q = e_seq e)
     then Inl UniqueViolation
     else Inr (e, d\<lparr>db_events := db_events d @ [e]\<rparr>))"

definition create_task :: "task_row \<Rightarrow> task_row dbtx" where
  "create_task k = (\<lambda>d.
     if \<exists>q \<in> set (db_tasks d). k_id q = k_id k then Inl UniqueViolation
     else Inr (k, d\<lparr>db_tasks := db_tasks d @ [k]\<rparr>))"

definition create_run :: "run_row \<Rightarrow> run_row dbtx" where
  "create_run r = (\<lambda>d.
     if \<exists>q \<in> set (db_runs d). r_id q = r_id r
          \<or> (r_workspaceId q = r_workspaceId r \<and> r_clientNonce q = r_clientNonce r
               \<and> r_clientNonce r \<noteq> None)
     then Inl UniqueViolation
     else Inr (r, d\<lparr>db_runs := db_runs d @ [r]\<rparr>))"

definition create_attempt :: "attempt_row \<Rightarrow> attempt_row dbtx" where
  "create_attempt a = (\<lambda>d.
     if \<exists>q \<in> set (db_attempts d). a_id q = a_id a then Inl UniqueViolation
     else Inr (a, d\<lparr>db_attempts := db_attempts d @ [a]\<rparr>))"

definition create_effect :: "effect_row \<Rightarrow> effect_row dbtx" where
  "create_effect x = (\<lambda>d.
     if \<exists>q \<in> set (db_effects d). x_id q = x_id x \<or> x_idempotencyKey q = x_idempotencyKey x
     then Inl UniqueViolation
     else Inr (x, d\<lparr>db_effects := db_effects d @ [x]\<rparr>))"

definition create_lease :: "lease_row \<Rightarrow> lease_row dbtx" where
  "create_lease l = (\<lambda>d.
     if \<exists>q \<in> set (db_leases d). l_computerId q = l_computerId l \<and> l_botId q = l_botId l
     then Inl UniqueViolation
     else Inr (l, d\<lparr>db_leases := db_leases d @ [l]\<rparr>))"

definition create_secret :: "secret_row \<Rightarrow> secret_row dbtx" where
  "create_secret s = (\<lambda>d.
     if \<exists>q \<in> set (db_secrets d). s_id q = s_id s then Inl UniqueViolation
     else Inr (s, d\<lparr>db_secrets := db_secrets d @ [s]\<rparr>))"

lemmas create_defs = create_message_def create_event_def create_task_def create_run_def
  create_attempt_def create_effect_def create_lease_def create_secret_def

subsection \<open>Updating rows\<close>

text \<open>\<open>updateMany\<close> on the runs answers the number of rows it changed.\<close>

definition update_runs :: "(run_row \<Rightarrow> bool) \<Rightarrow> (run_row \<Rightarrow> run_row) \<Rightarrow> nat dbtx" where
  "update_runs p f = (\<lambda>d. Inr (count_where p (db_runs d), d\<lparr>db_runs := update_where p f (db_runs d)\<rparr>))"

definition update_attempts :: "(attempt_row \<Rightarrow> bool) \<Rightarrow> (attempt_row \<Rightarrow> attempt_row) \<Rightarrow> nat dbtx" where
  "update_attempts p f =
     (\<lambda>d. Inr (count_where p (db_attempts d), d\<lparr>db_attempts := update_where p f (db_attempts d)\<rparr>))"

definition update_tasks :: "(task_row \<Rightarrow> bool) \<Rightarrow> (task_row \<Rightarrow> task_row) \<Rightarrow> nat dbtx" where
  "update_tasks p f =
     (\<lambda>d. Inr (count_where p (db_tasks d), d\<lparr>db_tasks := update_where p f (db_tasks d)\<rparr>))"

definition update_effects :: "(effect_row \<Rightarrow> bool) \<Rightarrow> (effect_row \<Rightarrow> effect_row) \<Rightarrow> nat dbtx" where
  "update_effects p f =
     (\<lambda>d. Inr (count_where p (db_effects d), d\<lparr>db_effects := update_where p f (db_effects d)\<rparr>))"

definition update_computers ::
  "(computer_row \<Rightarrow> bool) \<Rightarrow> (computer_row \<Rightarrow> computer_row) \<Rightarrow> nat dbtx" where
  "update_computers p f =
     (\<lambda>d. Inr (count_where p (db_computers d), d\<lparr>db_computers := update_where p f (db_computers d)\<rparr>))"

definition update_leases :: "(lease_row \<Rightarrow> bool) \<Rightarrow> (lease_row \<Rightarrow> lease_row) \<Rightarrow> nat dbtx" where
  "update_leases p f =
     (\<lambda>d. Inr (count_where p (db_leases d), d\<lparr>db_leases := update_where p f (db_leases d)\<rparr>))"

definition update_routines ::
  "(routine_row \<Rightarrow> bool) \<Rightarrow> (routine_row \<Rightarrow> routine_row) \<Rightarrow> nat dbtx" where
  "update_routines p f =
     (\<lambda>d. Inr (count_where p (db_routines d), d\<lparr>db_routines := update_where p f (db_routines d)\<rparr>))"

definition delete_leases :: "(lease_row \<Rightarrow> bool) \<Rightarrow> unit dbtx" where
  "delete_leases p = tx_modify (\<lambda>d. d\<lparr>db_leases := delete_where p (db_leases d)\<rparr>)"

definition delete_events :: "(event_row \<Rightarrow> bool) \<Rightarrow> unit dbtx" where
  "delete_events p = tx_modify (\<lambda>d. d\<lparr>db_events := delete_where p (db_events d)\<rparr>)"

text \<open>
  Deleting messages: the schema sets the referring \<open>replyToMessageId\<close> of other messages and
  \<open>sourceMessageId\<close> of runs to null (\<open>onDelete: SetNull\<close>).
\<close>

definition delete_messages :: "(message_row \<Rightarrow> bool) \<Rightarrow> unit dbtx" where
  "delete_messages p = tx_modify (\<lambda>d.
     let gone = (\<lambda>i. \<exists>m \<in> set (db_messages d). p m \<and> i = Some (m_id m)) in
     d\<lparr>db_messages := map (\<lambda>m. if gone (m_replyToMessageId m) then m\<lparr>m_replyToMessageId := None\<rparr> else m)
                     (delete_where p (db_messages d)),
       db_runs := map (\<lambda>r. if gone (r_sourceMessageId r) then r\<lparr>r_sourceMessageId := None\<rparr> else r)
                     (db_runs d)\<rparr>)"

text \<open>
  \<open>update\<close> on one row throws when no row matches. The key it is given is unique, so it
  changes at most one row.
\<close>

definition update_thread :: "(thread_row \<Rightarrow> bool) \<Rightarrow> (thread_row \<Rightarrow> thread_row) \<Rightarrow> thread_row dbtx" where
  "update_thread p f = (\<lambda>d.
     case List.find p (db_threads d) of
       None \<Rightarrow> Inl RecordNotFound
     | Some t \<Rightarrow> Inr (f t, d\<lparr>db_threads := update_where p f (db_threads d)\<rparr>))"

definition update_message :: "(message_row \<Rightarrow> bool) \<Rightarrow> (message_row \<Rightarrow> message_row) \<Rightarrow> unit dbtx" where
  "update_message p f = (\<lambda>d.
     if count_where p (db_messages d) = 0 then Inl RecordNotFound
     else Inr ((), d\<lparr>db_messages := update_where p f (db_messages d)\<rparr>))"

definition update_effect :: "(effect_row \<Rightarrow> bool) \<Rightarrow> (effect_row \<Rightarrow> effect_row) \<Rightarrow> unit dbtx" where
  "update_effect p f = (\<lambda>d.
     if count_where p (db_effects d) = 0 then Inl RecordNotFound
     else Inr ((), d\<lparr>db_effects := update_where p f (db_effects d)\<rparr>))"

definition update_computer ::
  "(computer_row \<Rightarrow> bool) \<Rightarrow> (computer_row \<Rightarrow> computer_row) \<Rightarrow> unit dbtx" where
  "update_computer p f = (\<lambda>d.
     if count_where p (db_computers d) = 0 then Inl RecordNotFound
     else Inr ((), d\<lparr>db_computers := update_where p f (db_computers d)\<rparr>))"

definition touch_bot :: "(bot_row \<Rightarrow> bool) \<Rightarrow> time \<Rightarrow> unit dbtx" where
  "touch_bot p now = (\<lambda>d.
     if count_where p (db_bots d) = 0 then Inl RecordNotFound
     else Inr ((), d\<lparr>db_bots := update_where p (\<lambda>b. b\<lparr>b_updatedAt := now\<rparr>) (db_bots d)\<rparr>))"

definition touch_group :: "id \<Rightarrow> time \<Rightarrow> unit dbtx" where
  "touch_group i now = (\<lambda>d.
     if count_where (\<lambda>g. g_id g = i) (db_groups d) = 0 then Inl RecordNotFound
     else Inr ((), d\<lparr>db_groups := update_where (\<lambda>g. g_id g = i) (\<lambda>g. g\<lparr>g_updatedAt := now\<rparr>)
                       (db_groups d)\<rparr>))"

lemmas bulk_defs = update_runs_def update_attempts_def update_tasks_def update_effects_def
  update_computers_def update_leases_def update_routines_def delete_leases_def delete_events_def
  delete_messages_def update_thread_def update_message_def update_effect_def
  update_computer_def touch_bot_def touch_group_def

end
