(* ===== verification/Messages.thy ===== *)
theory Messages
  imports Db
begin

text \<open>
  Appending to a thread: \<open>packages/db/src/messages.ts\<close> and \<open>appendEventInTransaction\<close>
  of \<open>packages/db/src/events.ts\<close>. A message or an event takes its sequence number from the
  counter of its thread row, which it increments first, and a run that is gone or cancelled
  writes no history. The theory also holds the well-formedness invariant \<open>db_ok\<close> of the
  tables that every transaction keeps, and its preservation by the client operations.
\<close>

subsection \<open>The operations\<close>

definition assertRunCanWriteHistory :: "id option \<Rightarrow> unit dbtx" where
  "assertRunCanWriteHistory runId = (\<lambda>d.
     if \<not> truthy runId then Inr ((), d)
     else case find_run (the runId) d of
            None \<Rightarrow> Inl RunHistoryWriteError
          | Some run \<Rightarrow>
              if r_status run = Cancelled then Inl RunHistoryWriteError else Inr ((), d))"

record create_message_input =
  cm_threadId :: id
  cm_role :: role
  cm_blocks :: "message_block list"
  cm_botId :: "id option"
  cm_replyToMessageId :: "id option"
  cm_runId :: "id option"
  cm_clientNonce :: "jstring option"

text \<open>\<open>mid\<close> is the identifier the client generates and \<open>now\<close> the time of the insert.\<close>

definition createThreadMessageInTransaction ::
  "id \<Rightarrow> time \<Rightarrow> create_message_input \<Rightarrow> message_row dbtx" where
  "createThreadMessageInTransaction mid now i =
     tx_bind (update_thread (\<lambda>t. t_id t = cm_threadId i)
               (\<lambda>t. t\<lparr>t_nextMessageSeq := t_nextMessageSeq t + 1,
                      t_unread := (if cm_role i = RBot then True else t_unread t)\<rparr>))
       (\<lambda>thread. tx_then (assertRunCanWriteHistory (cm_runId i))
          (create_message
             \<lparr>m_id = mid, m_threadId = cm_threadId i, m_seq = t_nextMessageSeq thread - 1,
              m_role = cm_role i, m_blocks = cm_blocks i, m_botId = cm_botId i,
              m_replyToMessageId = cm_replyToMessageId i, m_runId = cm_runId i,
              m_clientNonce = cm_clientNonce i, m_createdAt = now\<rparr>))"

definition createThreadMessage ::
  "id \<Rightarrow> time \<Rightarrow> create_message_input \<Rightarrow> db \<Rightarrow> (db_error + message_row) \<times> db" where
  "createThreadMessage mid now i = run_transaction (createThreadMessageInTransaction mid now i)"

record append_event_input =
  ae_workspaceId :: id
  ae_threadId :: id
  ae_botId :: id
  ae_type :: event_type
  ae_payload :: event_payload
  ae_runId :: "id option"

definition appendEventInTransaction :: "id \<Rightarrow> time \<Rightarrow> append_event_input \<Rightarrow> event_row dbtx" where
  "appendEventInTransaction eid now i =
     tx_bind (update_thread (\<lambda>t. t_id t = ae_threadId i)
               (\<lambda>t. t\<lparr>t_nextEventSeq := t_nextEventSeq t + 1\<rparr>))
       (\<lambda>thread. tx_then (assertRunCanWriteHistory (ae_runId i))
          (create_event
             \<lparr>e_id = eid, e_workspaceId = ae_workspaceId i, e_threadId = ae_threadId i,
              e_botId = ae_botId i, e_seq = t_nextEventSeq thread - 1, e_type = ae_type i,
              e_payload = ae_payload i, e_runId = ae_runId i, e_createdAt = now\<rparr>))"

definition appendEvent ::
  "id \<Rightarrow> time \<Rightarrow> append_event_input \<Rightarrow> db \<Rightarrow> (db_error + event_row) \<times> db" where
  "appendEvent eid now i = run_transaction (appendEventInTransaction eid now i)"

subsection \<open>The invariant of the tables\<close>

text \<open>
  Primary keys are distinct; every message and event belongs to a thread of the database,
  has a sequence number below the thread's counter, and those of a thread stand in the order
  of their sequence numbers, no two with the same; the compaction cursor of a thread stays
  below its message counter.
\<close>

definition threads_ok :: "thread_row list \<Rightarrow> bool" where
  "threads_ok ts \<longleftrightarrow> distinct (map t_id ts) \<and>
     (\<forall>t \<in> set ts. \<forall>n. t_historyCompactedUpToSeq t = Some n \<longrightarrow> n < t_nextMessageSeq t)"

definition messages_ok :: "thread_row list \<Rightarrow> message_row list \<Rightarrow> bool" where
  "messages_ok ts ms \<longleftrightarrow> distinct (map m_id ms) \<and>
     (\<forall>i. sorted_wrt (\<lambda>a b. m_seq a < m_seq b) (filter (\<lambda>m. m_threadId m = i) ms)) \<and>
     (\<forall>m \<in> set ms. \<exists>t \<in> set ts. t_id t = m_threadId m \<and> m_seq m < t_nextMessageSeq t)"

definition events_ok :: "thread_row list \<Rightarrow> event_row list \<Rightarrow> bool" where
  "events_ok ts es \<longleftrightarrow> distinct (map e_id es) \<and>
     (\<forall>i. sorted_wrt (\<lambda>a b. e_seq a < e_seq b) (filter (\<lambda>e. e_threadId e = i) es)) \<and>
     (\<forall>e \<in> set es. \<exists>t \<in> set ts. t_id t = e_threadId e \<and> e_seq e < t_nextEventSeq t)"

definition runs_ok :: "run_row list \<Rightarrow> bool" where
  "runs_ok rs \<longleftrightarrow> distinct (map r_id rs)"

definition db_ok :: "db \<Rightarrow> bool" where
  "db_ok d \<longleftrightarrow> threads_ok (db_threads d) \<and> messages_ok (db_threads d) (db_messages d) \<and>
     events_ok (db_threads d) (db_events d) \<and> runs_ok (db_runs d) \<and>
     distinct (map k_id (db_tasks d)) \<and> distinct (map a_id (db_attempts d)) \<and>
     distinct (map x_id (db_effects d)) \<and> distinct (map c_id (db_computers d))"

lemma db_ok_empty: "db_ok empty_db"
  by (simp add: db_ok_def empty_db_def threads_ok_def messages_ok_def events_ok_def runs_ok_def)

text \<open>
  An update of thread rows that keeps the key, moves the counters only upwards and keeps the
  cursor below the message counter: the contract of every thread update of the model.
\<close>

locale thread_update = keyed_update t_id upd for upd :: "thread_row \<Rightarrow> thread_row" +
  assumes message_counter: "t_nextMessageSeq t \<le> t_nextMessageSeq (upd t)"
    and event_counter: "t_nextEventSeq t \<le> t_nextEventSeq (upd t)"
    and cursor: "t_historyCompactedUpToSeq (upd t) = Some n \<Longrightarrow>
      (\<And>m. t_historyCompactedUpToSeq t = Some m \<Longrightarrow> m < t_nextMessageSeq t) \<Longrightarrow>
      n < t_nextMessageSeq (upd t)"
begin

lemma update_threads_ok: "threads_ok ts \<Longrightarrow> threads_ok (update_where p upd ts)"
  unfolding threads_ok_def
  by (auto simp: keys_update set_update_where) (blast intro: cursor)

lemma update_forward:
  "t \<in> set ts \<Longrightarrow> \<exists>t' \<in> set (update_where p upd ts). t_id t' = t_id t \<and>
     t_nextMessageSeq t \<le> t_nextMessageSeq t' \<and> t_nextEventSeq t \<le> t_nextEventSeq t'"
  by (rule bexI [where x = "if p t then upd t else t"])
    (auto simp: set_update_where key_upd message_counter event_counter)

lemma update_messages_ok: "messages_ok ts ms \<Longrightarrow> messages_ok (update_where p upd ts) ms"
  unfolding messages_ok_def
  by (metis order_less_le_trans update_forward)

lemma update_events_ok: "events_ok ts es \<Longrightarrow> events_ok (update_where p upd ts) es"
  unfolding events_ok_def
  by (metis order_less_le_trans update_forward)

lemma update_db_ok: "db_ok d \<Longrightarrow> db_ok (d\<lparr>db_threads := update_where p upd (db_threads d)\<rparr>)"
  by (simp add: db_ok_def update_threads_ok update_messages_ok update_events_ok)

lemma update_thread_pres: "tx_pres db_ok (update_thread p upd)"
  by (rule tx_presI) (auto simp: update_thread_def update_db_ok split: option.splits)

end

interpretation bump_event: thread_update "\<lambda>t. t\<lparr>t_nextEventSeq := t_nextEventSeq t + 1\<rparr>"
  by unfold_locales auto

interpretation bump_message: thread_update
  "\<lambda>t. t\<lparr>t_nextMessageSeq := t_nextMessageSeq t + 1, t_unread := (if b then True else t_unread t)\<rparr>"
  for b
  by unfold_locales fastforce+

text \<open>The bulk updates of the other tables: what they need is that the key is kept.\<close>

lemma update_runs_pres [tx_intros]:
  assumes "\<And>r. r_id (f r) = r_id r"
  shows "tx_pres db_ok (update_runs p f)"
proof -
  have k: "keyed_update r_id f" using assms by (simp add: keyed_update_def)
  show ?thesis
    by (rule tx_presI)
      (auto simp: update_runs_def db_ok_def runs_ok_def keyed_update.keys_update [OF k])
qed

lemma update_tasks_pres [tx_intros]:
  assumes "\<And>r. k_id (f r) = k_id r"
  shows "tx_pres db_ok (update_tasks p f)"
proof -
  have k: "keyed_update k_id f" using assms by (simp add: keyed_update_def)
  show ?thesis
    by (rule tx_presI) (auto simp: update_tasks_def db_ok_def keyed_update.keys_update [OF k])
qed

lemma update_attempts_pres [tx_intros]:
  assumes "\<And>r. a_id (f r) = a_id r"
  shows "tx_pres db_ok (update_attempts p f)"
proof -
  have k: "keyed_update a_id f" using assms by (simp add: keyed_update_def)
  show ?thesis
    by (rule tx_presI) (auto simp: update_attempts_def db_ok_def keyed_update.keys_update [OF k])
qed

lemma update_effects_pres [tx_intros]:
  assumes "\<And>r. x_id (f r) = x_id r"
  shows "tx_pres db_ok (update_effects p f)" and "tx_pres db_ok (update_effect p f)"
proof -
  have k: "keyed_update x_id f" using assms by (simp add: keyed_update_def)
  show "tx_pres db_ok (update_effects p f)"
    by (rule tx_presI) (auto simp: update_effects_def db_ok_def keyed_update.keys_update [OF k])
  show "tx_pres db_ok (update_effect p f)"
    by (rule tx_presI)
      (auto simp: update_effect_def db_ok_def keyed_update.keys_update [OF k] split: if_splits)
qed

lemma update_computers_pres [tx_intros]:
  assumes "\<And>r. c_id (f r) = c_id r"
  shows "tx_pres db_ok (update_computers p f)" and "tx_pres db_ok (update_computer p f)"
proof -
  have k: "keyed_update c_id f" using assms by (simp add: keyed_update_def)
  show "tx_pres db_ok (update_computers p f)"
    by (rule tx_presI) (auto simp: update_computers_def db_ok_def keyed_update.keys_update [OF k])
  show "tx_pres db_ok (update_computer p f)"
    by (rule tx_presI)
      (auto simp: update_computer_def db_ok_def keyed_update.keys_update [OF k] split: if_splits)
qed

text \<open>Updates and deletions in the tables that the invariant does not mention.\<close>

lemma other_tables_pres [tx_intros]:
  "tx_pres db_ok (update_leases pl fl)" "tx_pres db_ok (delete_leases pl)"
  "tx_pres db_ok (create_lease l)" "tx_pres db_ok (create_secret sec)"
  "tx_pres db_ok (touch_bot pb now)" "tx_pres db_ok (touch_group gid now)"
  "tx_pres db_ok (update_routines po fo)"
  by (auto intro!: tx_presI simp: bulk_defs create_defs db_ok_def split: if_splits)

lemma create_rows_pres [tx_intros]:
  "tx_pres db_ok (create_task k)" "tx_pres db_ok (create_run r)"
  "tx_pres db_ok (create_attempt a)" "tx_pres db_ok (create_effect x)"
  by (auto intro!: tx_presI simp: create_defs db_ok_def runs_ok_def split: if_splits) blast+

lemma sorted_wrt_delete:
  "sorted_wrt r (filter q xs) \<Longrightarrow> sorted_wrt r (filter q (delete_where p xs))"
  by (induction xs) (auto simp: delete_where_def)

lemma events_ok_delete: "events_ok ts es \<Longrightarrow> events_ok ts (delete_where p es)"
  by (auto simp: events_ok_def intro: distinct_delete_where sorted_wrt_delete)

lemma sorted_filter_map_same:
  assumes "\<And>m. g (f m) = (g m :: 'b)" and "\<And>m. h (f m) = (h m :: int)"
  shows "sorted_wrt (\<lambda>a b. h a < h b) (filter (\<lambda>m. g m = i) (map f ms)) \<longleftrightarrow>
         sorted_wrt (\<lambda>a b. h a < h b) (filter (\<lambda>m. g m = i) ms)"
  by (induction ms) (auto simp: assms)

lemma delete_events_pres [tx_intros]: "tx_pres db_ok (delete_events p)"
  by (rule tx_presI) (auto simp: delete_events_def db_ok_def intro: events_ok_delete)

lemma delete_messages_pres [tx_intros]: "tx_pres db_ok (delete_messages p)"
proof (rule tx_presI)
  fix d x d'
  assume ok: "db_ok d" and step: "delete_messages p d = Inr (x, d')"
  define clear where "clear = (\<lambda>m :: message_row. if \<exists>q \<in> set (db_messages d). p q \<and> m_replyToMessageId m = Some (m_id q)
     then m\<lparr>m_replyToMessageId := None\<rparr> else m)"
  have keep: "m_id (clear m) = m_id m" "m_threadId (clear m) = m_threadId m" "m_seq (clear m) = m_seq m"
    for m by (simp_all add: clear_def)
  have ms: "db_messages d' = map clear (delete_where p (db_messages d))"
    and rs: "map r_id (db_runs d') = map r_id (db_runs d)"
    and rest: "db_threads d' = db_threads d" "db_events d' = db_events d" "db_tasks d' = db_tasks d"
      "db_attempts d' = db_attempts d" "db_effects d' = db_effects d" "db_computers d' = db_computers d"
    using step by (auto simp: delete_messages_def Let_def clear_def)
  have "messages_ok (db_threads d) (db_messages d')"
    using ok sorted_filter_map_same [of m_threadId clear m_seq]
    by (auto simp: db_ok_def messages_ok_def ms keep o_def intro: distinct_delete_where sorted_wrt_delete)
  with ok rest rs show "db_ok d'"
    by (simp add: db_ok_def runs_ok_def)
qed

lemma update_message_pres [tx_intros]:
  assumes "\<And>m. m_id (f m) = m_id m" "\<And>m. m_threadId (f m) = m_threadId m" "\<And>m. m_seq (f m) = m_seq m"
  shows "tx_pres db_ok (update_message p f)"
proof (rule tx_presI)
  fix d x d'
  assume ok: "db_ok d" and step: "update_message p f d = Inr (x, d')"
  then have d': "d' = d\<lparr>db_messages := update_where p f (db_messages d)\<rparr>"
    by (auto simp: update_message_def split: if_splits)
  have "sorted_wrt (\<lambda>a b. m_seq a < m_seq b) (filter (\<lambda>m. m_threadId m = i) (update_where p f ms)) \<longleftrightarrow>
      sorted_wrt (\<lambda>a b. m_seq a < m_seq b) (filter (\<lambda>m. m_threadId m = i) ms)"
    and "map m_id (update_where p f ms) = map m_id ms" for ms i
    unfolding update_where_def by (rule sorted_filter_map_same) (simp_all add: assms)
  with ok have "messages_ok (db_threads d) (update_where p f (db_messages d))"
    by (auto simp: db_ok_def messages_ok_def set_update_where assms)
  with ok d' show "db_ok d'" by (simp add: db_ok_def)
qed

lemma assertRun_run [simp]:
  "assertRunCanWriteHistory runId d = Inr (u, d') \<longleftrightarrow>
   d' = d \<and> (truthy runId \<longrightarrow>
     (\<exists>run. find_run (the runId) d = Some run \<and> r_status run \<noteq> Cancelled))"
  by (auto simp: assertRunCanWriteHistory_def split: option.splits)

lemma assertRun_pres [tx_intros]: "tx_pres db_ok (assertRunCanWriteHistory runId)"
  by (rule tx_presI) simp

subsection \<open>What appending does\<close>

text \<open>
  An append that commits: the thread exists, its counter moved by one, the new row is last in
  its table, carries the old counter value and is the only one with its key.
\<close>

lemma appendEvent_run:
  assumes "appendEventInTransaction eid now i d = Inr (e, d')"
  obtains t where "find_thread (ae_threadId i) d = Some t"
    and "e = \<lparr>e_id = eid, e_workspaceId = ae_workspaceId i, e_threadId = ae_threadId i,
              e_botId = ae_botId i, e_seq = t_nextEventSeq t, e_type = ae_type i,
              e_payload = ae_payload i, e_runId = ae_runId i, e_createdAt = now\<rparr>"
    and "truthy (ae_runId i) \<Longrightarrow>
         \<exists>run. find_run (the (ae_runId i)) d = Some run \<and> r_status run \<noteq> Cancelled"
    and "\<forall>q \<in> set (db_events d). e_id q \<noteq> eid \<and> (e_threadId q, e_seq q) \<noteq> (e_threadId e, e_seq e)"
    and "d' = d\<lparr>db_threads := update_where (\<lambda>t. t_id t = ae_threadId i)
                  (\<lambda>t. t\<lparr>t_nextEventSeq := t_nextEventSeq t + 1\<rparr>) (db_threads d),
               db_events := db_events d @ [e]\<rparr>"
  using assms
  by (auto simp: appendEventInTransaction_def update_thread_def create_event_def find_thread_def
      find_run_def split: option.splits if_splits)

lemma createMessage_run:
  assumes "createThreadMessageInTransaction mid now i d = Inr (m, d')"
  obtains t where "find_thread (cm_threadId i) d = Some t"
    and "m = \<lparr>m_id = mid, m_threadId = cm_threadId i, m_seq = t_nextMessageSeq t,
              m_role = cm_role i, m_blocks = cm_blocks i, m_botId = cm_botId i,
              m_replyToMessageId = cm_replyToMessageId i, m_runId = cm_runId i,
              m_clientNonce = cm_clientNonce i, m_createdAt = now\<rparr>"
    and "truthy (cm_runId i) \<Longrightarrow>
         \<exists>run. find_run (the (cm_runId i)) d = Some run \<and> r_status run \<noteq> Cancelled"
    and "\<forall>q \<in> set (db_messages d). m_id q \<noteq> mid \<and>
           (m_threadId q, m_seq q) \<noteq> (m_threadId m, m_seq m) \<and>
           (m_clientNonce q = m_clientNonce m \<longrightarrow> m_threadId q = m_threadId m \<longrightarrow>
              m_clientNonce m = None)"
    and "d' = d\<lparr>db_threads := update_where (\<lambda>t. t_id t = cm_threadId i)
                  (\<lambda>t. t\<lparr>t_nextMessageSeq := t_nextMessageSeq t + 1,
                         t_unread := (if cm_role i = RBot then True else t_unread t)\<rparr>) (db_threads d),
               db_messages := db_messages d @ [m]\<rparr>"
  using assms
  by (auto simp: createThreadMessageInTransaction_def update_thread_def create_message_def
      find_thread_def find_run_def split: option.splits if_splits)

text \<open>The unique constraint on sequence numbers never fires: it could only hide a lost update.\<close>

lemma next_event_seq_fresh:
  assumes "db_ok d" and "find_thread i d = Some t" and "q \<in> set (db_events d)" and "e_threadId q = i"
  shows "e_seq q < t_nextEventSeq t"
proof -
  from assms obtain u where "u \<in> set (db_threads d)" "t_id u = i" "e_seq q < t_nextEventSeq u"
    by (auto simp: db_ok_def events_ok_def)
  moreover from assms have "t \<in> set (db_threads d)" "t_id t = i" by (auto dest: find_thread_SomeD)
  ultimately show ?thesis
    using assms(1) distinct_key_eq [of t_id "db_threads d" t u]
    by (auto simp: db_ok_def threads_ok_def)
qed

lemma next_message_seq_fresh:
  assumes "db_ok d" and "find_thread i d = Some t" and "q \<in> set (db_messages d)" and "m_threadId q = i"
  shows "m_seq q < t_nextMessageSeq t"
proof -
  from assms obtain u where "u \<in> set (db_threads d)" "t_id u = i" "m_seq q < t_nextMessageSeq u"
    by (auto simp: db_ok_def messages_ok_def)
  moreover from assms have "t \<in> set (db_threads d)" "t_id t = i" by (auto dest: find_thread_SomeD)
  ultimately show ?thesis
    using assms(1) distinct_key_eq [of t_id "db_threads d" t u]
    by (auto simp: db_ok_def threads_ok_def)
qed

lemma appendEvent_pres [tx_intros]: "tx_pres db_ok (appendEventInTransaction eid now i)"
proof (rule tx_presI)
  fix d e d'
  assume ok: "db_ok d" and step: "appendEventInTransaction eid now i d = Inr (e, d')"
  let ?up = "update_where (\<lambda>t. t_id t = ae_threadId i) (\<lambda>t. t\<lparr>t_nextEventSeq := t_nextEventSeq t + 1\<rparr>)
    (db_threads d)"
  from step obtain t where t: "t \<in> set (db_threads d)" "t_id t = ae_threadId i"
    and find: "find_thread (ae_threadId i) d = Some t"
    and e: "e_id e = eid" "e_threadId e = ae_threadId i" "e_seq e = t_nextEventSeq t"
    and new: "\<forall>q \<in> set (db_events d). e_id q \<noteq> eid \<and> (e_threadId q, e_seq q) \<noteq> (e_threadId e, e_seq e)"
    and d': "d' = d\<lparr>db_threads := ?up, db_events := db_events d @ [e]\<rparr>"
    by (elim appendEvent_run) (auto dest: find_thread_SomeD)
  have "db_ok (d\<lparr>db_threads := ?up\<rparr>)" by (rule bump_event.update_db_ok [OF ok])
  moreover have "\<exists>u \<in> set ?up. t_id u = ae_threadId i \<and> e_seq e < t_nextEventSeq u"
    using t e by (intro bexI [where x = "t\<lparr>t_nextEventSeq := t_nextEventSeq t + 1\<rparr>"])
      (auto simp: set_update_where)
  moreover have "e_seq q < e_seq e" if "q \<in> set (db_events d)" "e_threadId q = ae_threadId i" for q
    using next_event_seq_fresh [OF ok find that] e by simp
  ultimately show "db_ok d'"
    using new e d' by (auto simp: db_ok_def events_ok_def sorted_wrt_append)
qed

lemma createMessage_pres [tx_intros]: "tx_pres db_ok (createThreadMessageInTransaction mid now i)"
proof (rule tx_presI)
  fix d m d'
  assume ok: "db_ok d" and step: "createThreadMessageInTransaction mid now i d = Inr (m, d')"
  let ?f = "\<lambda>t. t\<lparr>t_nextMessageSeq := t_nextMessageSeq t + 1,
                 t_unread := (if cm_role i = RBot then True else t_unread t)\<rparr>"
  let ?up = "update_where (\<lambda>t. t_id t = cm_threadId i) ?f (db_threads d)"
  from step obtain t where t: "t \<in> set (db_threads d)" "t_id t = cm_threadId i"
    and find: "find_thread (cm_threadId i) d = Some t"
    and m: "m_id m = mid" "m_threadId m = cm_threadId i" "m_seq m = t_nextMessageSeq t"
    and new: "\<forall>q \<in> set (db_messages d). m_id q \<noteq> mid \<and> (m_threadId q, m_seq q) \<noteq> (m_threadId m, m_seq m)"
    and d': "d' = d\<lparr>db_threads := ?up, db_messages := db_messages d @ [m]\<rparr>"
    by (elim createMessage_run) (auto dest: find_thread_SomeD)
  have "db_ok (d\<lparr>db_threads := ?up\<rparr>)" by (rule bump_message.update_db_ok [OF ok])
  moreover have "\<exists>u \<in> set ?up. t_id u = cm_threadId i \<and> m_seq m < t_nextMessageSeq u"
    using t m by (intro bexI [where x = "?f t"]) (auto simp: set_update_where)
  moreover have "m_seq q < m_seq m" if "q \<in> set (db_messages d)" "m_threadId q = cm_threadId i" for q
    using next_message_seq_fresh [OF ok find that] m by simp
  ultimately show "db_ok d'"
    using new m d' by (auto simp: db_ok_def messages_ok_def sorted_wrt_append)
qed

end
