(* ===== verification/ActionApproval.thy ===== *)
theory ActionApproval
  imports Db
begin

text \<open>
  The approval policy of \<open>packages/core/src/action-approval.ts\<close>: which tools are exempt,
  which connector tools count as consequential, how approval rules are matched and the most
  specific one wins, when the automatic reviewer is asked, and which ask blocks are approval
  or secret prompts. \<open>lc\<close> is the language's \<open>toLowerCase\<close>, whose Unicode tables are not
  reproduced: every result holds for any such function. The case-insensitive expressions of
  the source have no unicode flag and fold ASCII letters, which is \<open>ascii_lower\<close>.
\<close>

definition APPROVAL_EXEMPT_TOOLS :: "jstring list" where
  "APPROVAL_EXEMPT_TOOLS = map js
     [''computer_observe'', ''computer_act'', ''list_files'', ''read_file'', ''write_file'',
      ''shell'', ''open_path'', ''launch_app'', ''remember'', ''request_takeover'',
      ''request_secret'', ''run_subagent'', ''spawn_bot'', ''schedule_create'',
      ''schedule_list'', ''schedule_cancel'']"

definition APPROVAL_REQUIRED_BUILTIN_TOOLS :: "jstring list" where
  "APPROVAL_REQUIRED_BUILTIN_TOOLS = map js [''destination.write'', ''delete_bot'', ''archive_bot'']"

definition read_only_verbs :: "jstring list" where
  "read_only_verbs = map js [''get'', ''list'', ''search'', ''find'', ''read'']"

definition mutating_verbs :: "jstring list" where
  "mutating_verbs = map js
     [''accept'', ''add'', ''approve'', ''archive'', ''assign'', ''buy'', ''cancel'', ''charge'',
      ''checkout'', ''close'', ''commit'', ''copy'', ''create'', ''delete'', ''deploy'',
      ''disable'', ''enable'', ''execute'', ''forward'', ''grant'', ''invite'', ''link'', ''mark'',
      ''merge'', ''modify'', ''move'', ''patch'', ''pay'', ''post'', ''publish'', ''purchase'',
      ''put'', ''register'', ''reject'', ''remove'', ''rename'', ''replace'', ''reply'', ''reset'',
      ''revoke'', ''run'', ''schedule'', ''send'', ''set'', ''share'', ''start'', ''stop'',
      ''submit'', ''subscribe'', ''trigger'', ''unassign'', ''unlink'', ''unsubscribe'',
      ''update'', ''upload'', ''upsert'', ''write'']"

text \<open>
  \<open>(^|_)(verbs)(_|$)\<close> matches when one of the pieces between underscores is a verb, since no
  verb contains an underscore; \<open>_(and|or|then)_\<close> when an inner piece is one of the words.
\<close>

definition segments :: "jstring \<Rightarrow> jstring list" where
  "segments name = split_on 95 (ascii_lower name)"

definition READ_ONLY_CONNECTOR_PATTERN :: "jstring \<Rightarrow> bool" where
  "READ_ONLY_CONNECTOR_PATTERN name \<longleftrightarrow> (\<exists>s \<in> set (segments name). s \<in> set read_only_verbs)"

definition MUTATING_CONNECTOR_PATTERN :: "jstring \<Rightarrow> bool" where
  "MUTATING_CONNECTOR_PATTERN name \<longleftrightarrow> (\<exists>s \<in> set (segments name). s \<in> set mutating_verbs)"

definition COMPOUND_CONNECTOR_ACTION_PATTERN :: "jstring \<Rightarrow> bool" where
  "COMPOUND_CONNECTOR_ACTION_PATTERN name \<longleftrightarrow>
     (\<exists>s \<in> set (butlast (tl (segments name))). s \<in> set (map js [''and'', ''or'', ''then'']))"

definition EMAIL_CONNECTOR_SLUGS :: "jstring list" where
  "EMAIL_CONNECTOR_SLUGS = map js [''gmail'', ''outlook'', ''microsoft_outlook'']"

definition PURCHASE_CONNECTOR_SLUGS :: "jstring list" where
  "PURCHASE_CONNECTOR_SLUGS = map js [''stripe'', ''shopify'', ''paypal'', ''square'']"

record approval_rule =
  rule_effect :: rule_effect
  rule_matchKind :: match_kind
  rule_matchValue :: jstring

text \<open>
  The kind of a tool: the longest connected connector that is the name or a prefix of it up
  to an underscore (the sort is stable and by descending length), otherwise the first piece.
\<close>

definition connectorKindFromToolName ::
  "(jstring \<Rightarrow> jstring) \<Rightarrow> jstring \<Rightarrow> jstring list \<Rightarrow> jstring" where
  "connectorKindFromToolName lc toolName connectorKinds =
     (let normalizedTool = lc toolName;
          matched = sort_key (\<lambda>k. - int (length k))
            (filter (\<lambda>kind. normalizedTool = kind \<or> prefix (kind @ js ''_'') normalizedTool)
              (map lc connectorKinds))
      in case matched of
           m # _ \<Rightarrow> if m \<noteq> [] then m else lc (hd (split_on 95 toolName))
         | [] \<Rightarrow> lc (hd (split_on 95 toolName)))"

definition connectorToolRequiresApproval :: "jstring \<Rightarrow> bool" where
  "connectorToolRequiresApproval toolName =
     (if MUTATING_CONNECTOR_PATTERN toolName then True
      else if COMPOUND_CONNECTOR_ACTION_PATTERN toolName then True
      else \<not> READ_ONLY_CONNECTOR_PATTERN toolName)"

definition toolRequiresApproval :: "jstring \<Rightarrow> bool \<Rightarrow> bool" where
  "toolRequiresApproval toolName viaConnector =
     (if toolName \<in> set APPROVAL_EXEMPT_TOOLS then False
      else if toolName \<in> set APPROVAL_REQUIRED_BUILTIN_TOOLS then True
      else if viaConnector then connectorToolRequiresApproval toolName
      else False)"

text \<open>\<open>send.*mail\<close>: the dot does not cross a line terminator.\<close>

definition line_terminator :: "jchar \<Rightarrow> bool" where
  "line_terminator c \<longleftrightarrow> c \<in> set [10, 13, 0x2028, 0x2029]"

fun mail_after :: "jstring \<Rightarrow> bool" where
  "mail_after [] = False"
| "mail_after (c # s) =
     (prefix (js ''mail'') (c # s) \<or> (\<not> line_terminator c \<and> mail_after s))"

fun send_mail :: "jstring \<Rightarrow> bool" where
  "send_mail [] = False"
| "send_mail (c # s) =
     ((prefix (js ''send'') (c # s) \<and> mail_after (drop 4 (c # s))) \<or> send_mail s)"

definition email_tool :: "jstring \<Rightarrow> bool" where
  "email_tool toolName \<longleftrightarrow>
     (let t = ascii_lower toolName
      in send_mail t \<or> contains_sub (js ''gmail_send'') t \<or> contains_sub (js ''outlook_send'') t)"

definition purchase_tool :: "jstring \<Rightarrow> bool" where
  "purchase_tool toolName \<longleftrightarrow>
     (let t = ascii_lower toolName
      in (\<exists>w \<in> set (map js [''purchase'', ''pay_'', ''charge'', ''checkout'', ''buy_'']). contains_sub w t))"

definition categoryMatches :: "(jstring \<Rightarrow> jstring) \<Rightarrow> jstring \<Rightarrow> jstring \<Rightarrow> jstring \<Rightarrow> bool" where
  "categoryMatches lc category toolName connectorKind =
     (let normalized = lc category;
          consequential = connectorToolRequiresApproval toolName
      in if normalized = js ''email'' then
           (if lc connectorKind \<in> set EMAIL_CONNECTOR_SLUGS then consequential
            else consequential \<and> email_tool toolName)
         else if normalized = js ''purchase'' then
           (if lc connectorKind \<in> set PURCHASE_CONNECTOR_SLUGS then consequential
            else consequential \<and> purchase_tool toolName)
         else False)"

definition ruleMatches :: "(jstring \<Rightarrow> jstring) \<Rightarrow> approval_rule \<Rightarrow> jstring \<Rightarrow> jstring \<Rightarrow> bool" where
  "ruleMatches lc rule toolName connectorKind =
     (let value = lc (rule_matchValue rule)
      in case rule_matchKind rule of
           MatchTool \<Rightarrow> lc toolName = value
         | MatchConnector \<Rightarrow> lc connectorKind = value
         | MatchCategory \<Rightarrow> categoryMatches lc (rule_matchValue rule) toolName connectorKind
         | MatchOther \<Rightarrow> False)"

definition ruleSpecificity :: "approval_rule \<Rightarrow> nat" where
  "ruleSpecificity rule =
     (case rule_matchKind rule of
        MatchTool \<Rightarrow> 3 | MatchConnector \<Rightarrow> 2 | MatchCategory \<Rightarrow> 1 | MatchOther \<Rightarrow> 0)"

datatype decision = Ask | Allow

datatype approval_source = SrcRequireApproval | SrcAlwaysAllow | SrcDefault

record approval_resolved =
  res_decision :: decision
  res_source :: approval_source
  res_matchingRules :: "approval_rule list"

definition resolveActionApprovalDetail ::
  "(jstring \<Rightarrow> jstring) \<Rightarrow> jstring \<Rightarrow> jstring option \<Rightarrow> approval_rule list \<Rightarrow> approval_resolved" where
  "resolveActionApprovalDetail lc toolName connectorKind rules =
     (let kind = (case connectorKind of Some k \<Rightarrow> k
                  | None \<Rightarrow> connectorKindFromToolName lc toolName []);
          matchingRules = filter (\<lambda>rule. ruleMatches lc rule toolName kind) rules
      in if matchingRules = []
         then \<lparr>res_decision = Allow, res_source = SrcDefault, res_matchingRules = matchingRules\<rparr>
         else
           let highestSpecificity = Max (set (map ruleSpecificity matchingRules));
               winners = filter (\<lambda>rule. ruleSpecificity rule = highestSpecificity) matchingRules
           in if \<exists>rule \<in> set winners. rule_effect rule = RequireApproval
              then \<lparr>res_decision = Ask, res_source = SrcRequireApproval,
                     res_matchingRules = matchingRules\<rparr>
              else \<lparr>res_decision = Allow, res_source = SrcAlwaysAllow,
                     res_matchingRules = matchingRules\<rparr>)"

definition resolveActionApproval ::
  "(jstring \<Rightarrow> jstring) \<Rightarrow> jstring \<Rightarrow> jstring option \<Rightarrow> approval_rule list \<Rightarrow> decision" where
  "resolveActionApproval lc toolName connectorKind rules =
     res_decision (resolveActionApprovalDetail lc toolName connectorKind rules)"

datatype gate = GateAsk | GateAllow | GateJudge

definition planActionGate :: "approval_resolved \<Rightarrow> bool \<Rightarrow> bool \<Rightarrow> bool \<Rightarrow> gate" where
  "planActionGate resolved consequential autoReviewEnabled checkerConfigured =
     (if res_decision resolved = Ask then GateAsk
      else if res_source resolved = SrcAlwaysAllow then GateAllow
      else if consequential \<and> autoReviewEnabled \<and> checkerConfigured \<and> res_source resolved = SrcDefault
      then GateJudge
      else GateAllow)"

datatype judge_decision = JudgePass | JudgeAsk | JudgeError

definition applyJudgeDecision :: "judge_decision \<Rightarrow> bool \<Rightarrow> decision" where
  "applyJudgeDecision decision consequential =
     (if decision = JudgePass then Allow
      else if decision = JudgeAsk then Ask
      else if consequential then Ask else Allow)"

subsection \<open>Ask blocks\<close>

definition isSecretAskBlock :: "message_block \<Rightarrow> bool" where
  "isSecretAskBlock block =
     (case block of
        BAsk a \<Rightarrow> ask_input a = Some AskSecret \<and> \<not> truthy (ask_approvalEffectId a)
      | _ \<Rightarrow> False)"

definition isApprovalAskBlock :: "message_block \<Rightarrow> bool" where
  "isApprovalAskBlock block =
     (case block of
        BAsk a \<Rightarrow>
          (if \<not> truthy (ask_approvalEffectId a) \<or> \<not> truthy (ask_actions a) then False
           else let actionIds = map fst (the (ask_actions a))
                in js ''allow'' \<in> set actionIds \<and> js ''deny'' \<in> set actionIds \<and>
                   (\<forall>i \<in> set actionIds. i = js ''allow'' \<or> i = js ''always'' \<or> i = js ''deny''))
      | _ \<Rightarrow> False)"

text \<open>The whole gate: rules first, then the judge's verdict where one is asked.\<close>

definition gateOutcome :: "approval_resolved \<Rightarrow> bool \<Rightarrow> bool \<Rightarrow> bool \<Rightarrow> judge_decision \<Rightarrow> decision" where
  "gateOutcome resolved consequential enabled configured verdict =
     (case planActionGate resolved consequential enabled configured of
        GateAsk \<Rightarrow> Ask
      | GateAllow \<Rightarrow> Allow
      | GateJudge \<Rightarrow> applyJudgeDecision verdict consequential)"

subsection \<open>Lemmas\<close>

lemma secret_not_approval: "isSecretAskBlock b \<Longrightarrow> \<not> isApprovalAskBlock b"
  by (auto simp: isSecretAskBlock_def isApprovalAskBlock_def split: message_block.splits)

lemma resolve_empty:
  "filter (\<lambda>r. ruleMatches lc r t (case k of Some k \<Rightarrow> k | None \<Rightarrow> connectorKindFromToolName lc t [])) rules = []
   \<Longrightarrow> res_source (resolveActionApprovalDetail lc t k rules) = SrcDefault"
  by (simp add: resolveActionApprovalDetail_def)

end
