(* ===== verification/ThreadEvents.thy ===== *)
theory ThreadEvents
  imports Messages ActionApproval
begin

text \<open>
  The transactions of \<open>packages/db/src/events.ts\<close>: clearing a thread, sending a user
  message, answering a waiting run, pausing a run for input or for a takeover, releasing
  control of a computer and finalizing a run. Each is the body of one \<open>$transaction\<close>,
  statement by statement and in the order of the source; \<open>return null\<close> inside a body commits
  and is the value \<open>None\<close>, a \<open>throw\<close> rolls back. Identifiers the client generates and the
  clock are arguments. The realtime notification after the commit carries only the new
  sequence number and is returned, not sent.
\<close>

lemmas tx_conv = tx_pres_if tx_pres_option

subsection \<open>clearThread\<close>

record clear_thread_input =
  ct_workspaceId :: id
  ct_threadId :: id
  ct_botId :: id
  ct_groupId :: "id option"

record clear_thread_result =
  cr_event :: event_row
  cr_cancelledRunIds :: "id list"
  cr_historyCompactionGeneration :: int

definition clear_target :: "clear_thread_input \<Rightarrow> thread_row \<Rightarrow> bool" where
  "clear_target i t \<longleftrightarrow> t_id t = ct_threadId i \<and> t_workspaceId t = ct_workspaceId i \<and>
     (if truthy (ct_groupId i) then t_groupId t = ct_groupId i else t_botId t = Some (ct_botId i))"

definition clear_active :: "clear_thread_input \<Rightarrow> run_row \<Rightarrow> bool" where
  "clear_active i r \<longleftrightarrow> r_workspaceId r = ct_workspaceId i \<and> r_threadId r = ct_threadId i \<and>
     (truthy (ct_groupId i) \<or> r_botId r = ct_botId i) \<and>
     r_status r \<in> set [Queued, Leased, Running, WaitingInput, WaitingTakeover]"

definition cancel_run :: "time \<Rightarrow> run_row \<Rightarrow> run_row" where
  "cancel_run now r = r\<lparr>r_status := Cancelled, r_completedAt := Some now,
     r_leaseOwner := None, r_leaseExpiresAt := None\<rparr>"

definition cancel_attempt :: "time \<Rightarrow> attempt_row \<Rightarrow> attempt_row" where
  "cancel_attempt now a = a\<lparr>a_status := ACancelled, a_finishedAt := Some now\<rparr>"

text \<open>The cancellation of the active runs with their attempts and tasks.\<close>

definition cancel_runs :: "id list \<Rightarrow> id list \<Rightarrow> time \<Rightarrow> unit dbtx" where
  "cancel_runs runIds taskIds now =
     (if runIds = [] then tx_skip
      else tx_then (update_runs (\<lambda>r. r_id r \<in> set runIds) (cancel_run now))
          (tx_then (update_attempts (\<lambda>a. a_runId a \<in> set runIds \<and> a_status a = ARunning)
                      (cancel_attempt now))
          (tx_then (update_tasks (\<lambda>k. k_id k \<in> set taskIds) (\<lambda>k. k\<lparr>k_status := Cancelled\<rparr>))
             tx_skip)))"

definition clear_computer :: "computer_row \<Rightarrow> computer_row" where
  "clear_computer c = c\<lparr>c_executionRunId := None, c_executionBotId := None,
     c_executionLeaseExpiresAt := None\<rparr>"

definition close_history :: "thread_row \<Rightarrow> thread_row \<Rightarrow> thread_row" where
  "close_history thread t =
     (if t_nextMessageSeq thread > 0
      then t\<lparr>t_historyCompactedUpToSeq := Some (t_nextMessageSeq thread - 1),
             t_historyCompactionSummary := None,
             t_historyCompactionGeneration := t_historyCompactionGeneration t + 1\<rparr>
      else t\<lparr>t_historyCompactionSummary := None,
             t_historyCompactionGeneration := t_historyCompactionGeneration t + 1\<rparr>)"

text \<open>The cancelled runs give up their computers, and the conversation is deleted.\<close>

definition clear_rows :: "id list \<Rightarrow> id list \<Rightarrow> time \<Rightarrow> id \<Rightarrow> unit dbtx" where
  "clear_rows runIds taskIds now threadId =
     tx_then (cancel_runs runIds taskIds now)
     (tx_then (delete_leases (\<lambda>l. l_runId l \<in> set runIds))
     (tx_then (update_computers (\<lambda>c. \<exists>r \<in> set runIds. c_executionRunId c = Some r) clear_computer)
     (tx_then (delete_messages (\<lambda>m. m_threadId m = threadId))
      (delete_events (\<lambda>e. e_threadId e = threadId)))))"

definition clearThread_tx :: "id \<Rightarrow> time \<Rightarrow> clear_thread_input \<Rightarrow> clear_thread_result dbtx" where
  "clearThread_tx eid now i =
     tx_bind (update_thread (clear_target i) (\<lambda>t. t\<lparr>t_unread := False\<rparr>)) (\<lambda>thread.
     tx_bind (tx_get (\<lambda>d. filter (clear_active i) (db_runs d))) (\<lambda>activeRuns.
     tx_then (clear_rows (map r_id activeRuns) (map r_taskId activeRuns) now (ct_threadId i))
     (tx_then (update_thread (\<lambda>t. t_id t = ct_threadId i) (close_history thread))
     (tx_then (if truthy (ct_groupId i) then touch_group (the (ct_groupId i)) now
               else touch_bot (\<lambda>b. b_id b = ct_botId i \<and> b_workspaceId b = ct_workspaceId i) now)
     (tx_bind (appendEventInTransaction eid now
                \<lparr>ae_workspaceId = ct_workspaceId i, ae_threadId = ct_threadId i,
                 ae_botId = ct_botId i, ae_type = ThreadCleared, ae_payload = no_payload,
                 ae_runId = None\<rparr>) (\<lambda>event.
      tx_return \<lparr>cr_event = event, cr_cancelledRunIds = map r_id activeRuns,
                 cr_historyCompactionGeneration = t_historyCompactionGeneration thread\<rparr>))))))"

subsection \<open>sendUserMessage\<close>

record send_user_message_input =
  su_workspaceId :: id
  su_threadId :: id
  su_botId :: id
  su_userId :: id
  su_blocks :: "message_block list"
  su_prompt :: jstring
  su_trigger :: run_trigger
  su_clientNonce :: "jstring option"
  su_onlyIfIdle :: bool
  su_linkMessageToRun :: bool

record send_result =
  sr_messageId :: id
  sr_seq :: int
  sr_taskId :: "id option"
  sr_runId :: "id option"

text \<open>The identifiers the client generates for one send.\<close>

record send_ids =
  new_messageId :: id
  new_taskId :: id
  new_runId :: id
  new_eventId :: id

text \<open>
  \<open>replay\<close>: a send with a nonce the thread already has is answered from the stored message
  and the earliest run it started.
\<close>

definition replay_send :: "send_user_message_input \<Rightarrow> db \<Rightarrow> send_result option" where
  "replay_send i d =
     (if \<not> truthy (su_clientNonce i) then None
      else case List.find (\<lambda>m. m_threadId m = su_threadId i \<and> m_clientNonce m = su_clientNonce i)
                  (db_messages d) of
             None \<Rightarrow> None
           | Some message \<Rightarrow>
               (case sort_key r_createdAt
                       (filter (\<lambda>r. r_sourceMessageId r = Some (m_id message)) (db_runs d)) of
                  [] \<Rightarrow> Some \<lparr>sr_messageId = m_id message, sr_seq = m_seq message,
                             sr_taskId = None, sr_runId = None\<rparr>
                | run # _ \<Rightarrow> Some \<lparr>sr_messageId = m_id message, sr_seq = m_seq message,
                             sr_taskId = Some (r_taskId run), sr_runId = Some (r_id run)\<rparr>))"

definition send_busy :: "send_user_message_input \<Rightarrow> db \<Rightarrow> bool" where
  "send_busy i d \<longleftrightarrow> su_onlyIfIdle i \<and>
     (\<exists>r \<in> set (db_runs d). r_botId r = su_botId i \<and> r_status r \<in> set [Running, Queued, Leased])"

definition new_task :: "id \<Rightarrow> id \<Rightarrow> id \<Rightarrow> id \<Rightarrow> id \<Rightarrow> jstring \<Rightarrow> task_row" where
  "new_task kid ws botId threadId userId prompt =
     \<lparr>k_id = kid, k_workspaceId = ws, k_botId = botId, k_threadId = threadId, k_userId = userId,
      k_prompt = prompt, k_status = Queued\<rparr>"

text \<open>A run as \<open>create\<close> makes it: queued, with the defaults of the schema.\<close>

definition new_run :: "id \<Rightarrow> time \<Rightarrow> id \<Rightarrow> id \<Rightarrow> id \<Rightarrow> id \<Rightarrow> id \<Rightarrow> run_trigger \<Rightarrow> run_row" where
  "new_run rid now ws botId threadId taskId userId trigger =
     \<lparr>r_id = rid, r_workspaceId = ws, r_botId = botId, r_threadId = threadId, r_taskId = taskId,
      r_userId = userId, r_status = Queued, r_trigger = trigger, r_error = None,
      r_leaseOwner = None, r_leaseFence = 0, r_leaseExpiresAt = None, r_checkpoint = None,
      r_clientNonce = None, r_sourceMessageId = None, r_routineId = None, r_startedAt = None,
      r_completedAt = None, r_createdAt = now\<rparr>"

text \<open>The task and run of a send, none when the bot is busy.\<close>

definition send_start_run ::
  "send_ids \<Rightarrow> time \<Rightarrow> send_user_message_input \<Rightarrow> id \<Rightarrow> (id \<times> id) option dbtx" where
  "send_start_run ids now i messageId =
     tx_bind (tx_get (send_busy i)) (\<lambda>busy.
     if busy then tx_return None
     else
       tx_bind (create_task (new_task (new_taskId ids) (su_workspaceId i) (su_botId i)
                  (su_threadId i) (su_userId i) (su_prompt i))) (\<lambda>task.
       tx_bind (create_run ((new_run (new_runId ids) now (su_workspaceId i) (su_botId i)
                  (su_threadId i) (k_id task) (su_userId i) (su_trigger i))
                  \<lparr>r_clientNonce := (if truthy (su_clientNonce i)
                                      then Some (js ''send:'' @ messageId) else None),
                   r_sourceMessageId := Some messageId\<rparr>)) (\<lambda>run.
       tx_then (if su_linkMessageToRun i
                then update_message (\<lambda>m. m_id m = messageId) (\<lambda>m. m\<lparr>m_runId := Some (r_id run)\<rparr>)
                else tx_skip)
       (tx_return (Some (k_id task, r_id run))))))"

definition sendUserMessage_tx ::
  "send_ids \<Rightarrow> time \<Rightarrow> send_user_message_input \<Rightarrow> (send_result \<times> event_row) dbtx" where
  "sendUserMessage_tx ids now i =
     tx_bind (createThreadMessageInTransaction (new_messageId ids) now
                \<lparr>cm_threadId = su_threadId i, cm_role = RUser, cm_blocks = su_blocks i,
                 cm_botId = None, cm_replyToMessageId = None, cm_runId = None,
                 cm_clientNonce = su_clientNonce i\<rparr>) (\<lambda>message.
     tx_bind (send_start_run ids now i (m_id message)) (\<lambda>started.
     tx_bind (appendEventInTransaction (new_eventId ids) now
                \<lparr>ae_workspaceId = su_workspaceId i, ae_threadId = su_threadId i,
                 ae_botId = su_botId i, ae_type = ThreadMessageCreated,
                 ae_payload = message_payload (m_id message) RUser (su_blocks i),
                 ae_runId = map_option snd started\<rparr>) (\<lambda>event.
     tx_return (\<lparr>sr_messageId = m_id message, sr_seq = m_seq message,
                 sr_taskId = map_option fst started, sr_runId = map_option snd started\<rparr>, event))))"

text \<open>
  The whole send. \<open>before\<close> is the database the first look-up sees and \<open>d\<close> the one the
  transaction runs on: another send with the same nonce may have committed in between, and
  the look-up after a failed commit sees it.
\<close>

definition sendUserMessage ::
  "send_ids \<Rightarrow> time \<Rightarrow> send_user_message_input \<Rightarrow> db \<Rightarrow> db \<Rightarrow> (db_error + send_result) \<times> db" where
  "sendUserMessage ids now i before d =
     (case replay_send i before of
        Some r \<Rightarrow> (Inr r, d)
      | None \<Rightarrow>
          (case run_transaction (sendUserMessage_tx ids now i) d of
             (Inr (r, event), d') \<Rightarrow> (Inr r, d')
           | (Inl err, d') \<Rightarrow>
               (case replay_send i d' of
                  Some winner \<Rightarrow> (Inr winner, d')
                | None \<Rightarrow> (Inl err, d'))))"

subsection \<open>answerRunInput\<close>

record answer_run_input =
  an_workspaceId :: id
  an_threadId :: id
  an_runId :: id
  an_messageId :: id
  an_answeredByUserId :: id
  an_answer :: jstring

text \<open>
  The writer of run secrets (\<open>createRunSecretWriter\<close> in
  \<open>packages/adapters/src/run-secret.ts\<close>): \<open>put\<close> is the encrypting secret store, a parameter
  that answers the identifier and the ciphertext of a plaintext.
\<close>

type_synonym secret_put = "jstring \<Rightarrow> id \<times> jstring"

definition runSecretKind :: "id \<Rightarrow> jstring" where
  "runSecretKind runId = js ''run-secret:'' @ runId"

definition store_run_secret ::
  "secret_put \<Rightarrow> id \<Rightarrow> id \<Rightarrow> id \<Rightarrow> jstring \<Rightarrow> unit dbtx" where
  "store_run_secret put runId userId workspaceId plaintext =
     tx_then (create_secret
       \<lparr>s_id = fst (put plaintext), s_userId = userId, s_workspaceId = workspaceId,
        s_kind = runSecretKind runId, s_ciphertext = snd (put plaintext)\<rparr>) tx_skip"

definition pending_ask :: "message_block \<Rightarrow> bool" where
  "pending_ask b = (case b of BAsk a \<Rightarrow> ask_status a \<noteq> Some AskAnswered | _ \<Rightarrow> False)"

text \<open>The first pending ask is marked answered; a secret answer is not stored in it.\<close>

fun answer_first :: "jstring \<Rightarrow> message_block list \<Rightarrow> message_block list" where
  "answer_first answer [] = []"
| "answer_first answer (b # bs) =
     (if pending_ask b
      then (case b of
              BAsk a \<Rightarrow> BAsk (a\<lparr>ask_status := Some AskAnswered, ask_answer := Some answer\<rparr>)
            | _ \<Rightarrow> b) # bs
      else b # answer_first answer bs)"

definition waiting_run :: "answer_run_input \<Rightarrow> run_row \<Rightarrow> bool" where
  "waiting_run i r \<longleftrightarrow> r_id r = an_runId i \<and> r_workspaceId r = an_workspaceId i \<and>
     r_threadId r = an_threadId i \<and> r_status r = WaitingInput"

definition answer_message :: "answer_run_input \<Rightarrow> message_row \<Rightarrow> bool" where
  "answer_message i m \<longleftrightarrow> m_id m = an_messageId i \<and> m_threadId m = an_threadId i \<and>
     m_runId m = Some (an_runId i) \<and> m_role m = RBot"

definition requeue_run :: "run_row \<Rightarrow> run_row" where
  "requeue_run r = r\<lparr>r_status := Queued\<rparr>"

definition upsert_rule :: "rule_row \<Rightarrow> unit dbtx" where
  "upsert_rule u = tx_modify (\<lambda>d. if u \<in> set (db_rules d) then d
     else d\<lparr>db_rules := db_rules d @ [u]\<rparr>)"

text \<open>
  What the answer of an ask decides before anything is written: the effect an approval ask
  refers to and the user a standing rule is created for. \<open>None\<close> is an early \<open>return null\<close>.
\<close>

definition approval_lookup ::
  "answer_run_input \<Rightarrow> run_row \<Rightarrow> ask_block \<Rightarrow> db \<Rightarrow> effect_row option" where
  "approval_lookup i run ask d =
     (if \<not> (\<exists>a \<in> set (the (ask_actions ask)). fst a = an_answer i) then None
      else case List.find (\<lambda>x. Some (x_id x) = ask_approvalEffectId ask \<and>
                   x_workspaceId x = an_workspaceId i \<and> x_runId x = an_runId i \<and>
                   x_status x = Intended) (db_effects d) of
             None \<Rightarrow> None
           | Some effect \<Rightarrow>
               if an_answer i = js ''always'' \<and> r_userId run \<noteq> an_answeredByUserId i then None
               else Some effect)"

definition answer_approval :: "answer_run_input \<Rightarrow> effect_row \<Rightarrow> unit dbtx" where
  "answer_approval i effect =
     tx_then (update_effect (\<lambda>x. x_id x = x_id effect)
        (\<lambda>x. x\<lparr>x_status := (if an_answer i = js ''allow'' \<or> an_answer i = js ''always''
                             then Approved else Denied)\<rparr>))
     (if an_answer i = js ''always''
      then upsert_rule \<lparr>u_workspaceId = an_workspaceId i, u_createdByUserId = an_answeredByUserId i,
                        u_effect = AlwaysAllow, u_matchKind = MatchTool, u_matchValue = x_kind effect\<rparr>
      else tx_skip)"

definition answer_secret :: "secret_put \<Rightarrow> answer_run_input \<Rightarrow> run_row \<Rightarrow> unit dbtx" where
  "answer_secret put i run =
     tx_then (store_run_secret put (an_runId i) (r_userId run) (an_workspaceId i) (an_answer i))
     (tx_then (update_effects (\<lambda>x. x_runId x = an_runId i \<and> x_workspaceId x = an_workspaceId i \<and>
                  x_kind x = js ''request_secret'' \<and> x_status x = Intended)
                (\<lambda>x. x\<lparr>x_status := Approved\<rparr>))
      tx_skip)"

definition answer_prompt :: "answer_run_input \<Rightarrow> unit dbtx" where
  "answer_prompt i =
     tx_bind (tx_get (\<lambda>d. map r_taskId (filter (\<lambda>r. r_id r = an_runId i) (db_runs d)))) (\<lambda>taskIds.
     tx_bind (update_tasks (\<lambda>k. k_id k \<in> set taskIds) (\<lambda>k. k\<lparr>k_prompt := an_answer i\<rparr>)) (\<lambda>n.
     if n \<noteq> 1 then tx_throw (AppError ''Run task was not available to answer'') else tx_skip))"

text \<open>The writes of an accepted answer; \<open>approval\<close> and \<open>secret\<close> are the kinds of the ask.\<close>

definition answer_commit ::
  "id \<Rightarrow> time \<Rightarrow> secret_put option \<Rightarrow> answer_run_input \<Rightarrow> run_row \<Rightarrow> message_row \<Rightarrow>
   effect_row option \<Rightarrow> bool \<Rightarrow> event_row option dbtx" where
  "answer_commit eid now writer i run message approval secret =
     tx_bind (update_runs (waiting_run i) requeue_run) (\<lambda>queued.
     if queued \<noteq> 1 then tx_return None
     else
       tx_then (case approval of
                  Some effect \<Rightarrow> answer_approval i effect
                | None \<Rightarrow> if secret then answer_secret (the writer) i run else answer_prompt i)
       (let blocks = answer_first (if secret then [] else an_answer i) (m_blocks message) in
        tx_then (update_message (\<lambda>m. m_id m = m_id message) (\<lambda>m. m\<lparr>m_blocks := blocks\<rparr>))
        (tx_bind (appendEventInTransaction eid now
           \<lparr>ae_workspaceId = an_workspaceId i, ae_threadId = an_threadId i, ae_botId = r_botId run,
            ae_type = ThreadMessageUpdated, ae_payload = message_payload (m_id message) RBot blocks,
            ae_runId = Some (an_runId i)\<rparr>) (\<lambda>updated.
         tx_return (Some updated)))))"

definition answerRunInput_tx ::
  "id \<Rightarrow> time \<Rightarrow> secret_put option \<Rightarrow> answer_run_input \<Rightarrow> event_row option dbtx" where
  "answerRunInput_tx eid now writer i =
     tx_bind (tx_get (\<lambda>d. List.find (waiting_run i) (db_runs d))) (\<lambda>r.
     case r of None \<Rightarrow> tx_return None | Some run \<Rightarrow>
     tx_bind (tx_get (\<lambda>d. List.find (answer_message i) (db_messages d))) (\<lambda>m.
     case m of None \<Rightarrow> tx_return None | Some message \<Rightarrow>
     (case List.find pending_ask (m_blocks message) of
        Some (BAsk ask) \<Rightarrow>
          (let approvalAsk = isApprovalAskBlock (BAsk ask);
               secretAsk = isSecretAskBlock (BAsk ask)
           in if secretAsk \<and> writer = None then tx_return None
              else if approvalAsk then
                tx_bind (tx_get (approval_lookup i run ask)) (\<lambda>e.
                case e of None \<Rightarrow> tx_return None
                | Some effect \<Rightarrow> answer_commit eid now writer i run message (Some effect) False)
              else answer_commit eid now writer i run message None secretAsk)
      | _ \<Rightarrow> tx_return None)))"

definition answerRunInput ::
  "id \<Rightarrow> time \<Rightarrow> secret_put option \<Rightarrow> answer_run_input \<Rightarrow> db \<Rightarrow> (db_error + bool) \<times> db" where
  "answerRunInput eid now writer i d =
     (case run_transaction (answerRunInput_tx eid now writer i) d of
        (Inl err, d') \<Rightarrow> (Inl err, d')
      | (Inr committed, d') \<Rightarrow> (Inr (committed \<noteq> None), d'))"

subsection \<open>Pausing a run\<close>

text \<open>The fields every fenced transaction names its run and attempt by.\<close>

record fenced =
  fc_workspaceId :: id
  fc_threadId :: id
  fc_botId :: id
  fc_runId :: id
  fc_attemptId :: id
  fc_leaseOwner :: jstring
  fc_leaseFence :: int

definition fenced_run :: "fenced \<Rightarrow> run_row \<Rightarrow> bool" where
  "fenced_run i r \<longleftrightarrow> r_id r = fc_runId i \<and> r_workspaceId r = fc_workspaceId i \<and>
     r_threadId r = fc_threadId i \<and> r_botId r = fc_botId i \<and> r_status r = Running \<and>
     r_leaseOwner r = Some (fc_leaseOwner i) \<and> r_leaseFence r = fc_leaseFence i"

definition fenced_attempt :: "fenced \<Rightarrow> attempt_row \<Rightarrow> bool" where
  "fenced_attempt i a \<longleftrightarrow> a_id a = fc_attemptId i \<and> a_runId a = fc_runId i \<and>
     a_fence a = fc_leaseFence i \<and> a_status a = ARunning"

definition delete_progress :: "id \<Rightarrow> unit dbtx" where
  "delete_progress runId =
     delete_events (\<lambda>e. e_runId e = Some runId \<and> e_type e = ThreadProgress)"

definition event_for :: "fenced \<Rightarrow> event_type \<Rightarrow> event_payload \<Rightarrow> append_event_input" where
  "event_for i ty payload =
     \<lparr>ae_workspaceId = fc_workspaceId i, ae_threadId = fc_threadId i, ae_botId = fc_botId i,
      ae_type = ty, ae_payload = payload, ae_runId = Some (fc_runId i)\<rparr>"

definition bot_message :: "fenced \<Rightarrow> message_block list \<Rightarrow> create_message_input" where
  "bot_message i blocks =
     \<lparr>cm_threadId = fc_threadId i, cm_role = RBot, cm_blocks = blocks, cm_botId = Some (fc_botId i),
      cm_replyToMessageId = None, cm_runId = Some (fc_runId i), cm_clientNonce = None\<rparr>"

definition pause_input_run :: "run_row \<Rightarrow> run_row" where
  "pause_input_run r = r\<lparr>r_status := WaitingInput, r_leaseOwner := None, r_leaseExpiresAt := None\<rparr>"

definition pauseRunForInput_tx ::
  "id \<Rightarrow> id \<Rightarrow> id \<Rightarrow> time \<Rightarrow> fenced \<Rightarrow> message_block list \<Rightarrow> event_row option dbtx" where
  "pauseRunForInput_tx mid eid1 eid2 now i blocks =
     tx_bind (update_runs (fenced_run i) pause_input_run) (\<lambda>paused.
     if paused \<noteq> 1 then tx_return None
     else
       tx_bind (update_attempts (fenced_attempt i)
                  (\<lambda>a. a\<lparr>a_status := AWaitingInput, a_finishedAt := Some now\<rparr>)) (\<lambda>attempt.
       if attempt \<noteq> 1 then tx_throw (AppError ''Active run attempt was not available to pause'')
       else
         tx_bind (createThreadMessageInTransaction mid now (bot_message i blocks)) (\<lambda>message.
         tx_then (appendEventInTransaction eid1 now
                    (event_for i ThreadMessageCreated (message_payload (m_id message) RBot blocks)))
         (tx_bind (appendEventInTransaction eid2 now (event_for i RunWaitingInput no_payload))
           (\<lambda>waitingEvent. tx_then (delete_progress (fc_runId i))
              (tx_return (Some waitingEvent)))))))"

definition pause_takeover_run :: "run_row \<Rightarrow> run_row" where
  "pause_takeover_run r = r\<lparr>r_status := WaitingTakeover, r_leaseOwner := None,
     r_leaseExpiresAt := None, r_checkpoint := None\<rparr>"

definition pauseRunForTakeover_tx ::
  "id \<Rightarrow> time \<Rightarrow> fenced \<Rightarrow> jstring \<Rightarrow> event_row option dbtx" where
  "pauseRunForTakeover_tx eid now i reason =
     tx_bind (update_runs (fenced_run i) pause_takeover_run) (\<lambda>paused.
     if paused \<noteq> 1 then tx_return None
     else
       tx_bind (update_attempts (fenced_attempt i)
                  (\<lambda>a. a\<lparr>a_status := AWaitingTakeover, a_finishedAt := Some now\<rparr>)) (\<lambda>attempt.
       if attempt \<noteq> 1 then tx_throw (AppError ''Active run attempt was not available to pause'')
       else
         tx_bind (appendEventInTransaction eid now
                    (event_for i ComputerTakeoverRequested
                       (fields_payload [(js ''reason'', JStr reason)]))) (\<lambda>waitingEvent.
         tx_then (delete_progress (fc_runId i)) (tx_return (Some waitingEvent)))))"

subsection \<open>finalizeComputerControlRelease\<close>

datatype release_reason = ReasonDone | ReasonExpired | ReasonReleased | ReasonSkipped

record release_input =
  re_workspaceId :: id
  re_computerId :: id
  re_botId :: id
  re_runId :: "id option"
  re_leaseId :: id
  re_holder :: control_holder
  re_reason :: release_reason

definition reason_text :: "release_reason \<Rightarrow> jstring" where
  "reason_text r = (case r of ReasonDone \<Rightarrow> js ''done'' | ReasonExpired \<Rightarrow> js ''expired''
     | ReasonReleased \<Rightarrow> js ''released'' | ReasonSkipped \<Rightarrow> js ''skipped'')"

definition holder_text :: "control_holder \<Rightarrow> jstring" where
  "holder_text h = (case h of HolderUser \<Rightarrow> js ''user'' | HolderBot \<Rightarrow> js ''bot''
     | HolderNone \<Rightarrow> js ''none'')"

definition controlled_computer :: "release_input \<Rightarrow> computer_row \<Rightarrow> bool" where
  "controlled_computer i c \<longleftrightarrow> c_id c = re_computerId i \<and> c_workspaceId c = re_workspaceId i \<and>
     c_controlBotId c = Some (re_botId i) \<and> c_controlLeaseId c = Some (re_leaseId i) \<and>
     c_controlRunId c = re_runId i"

definition clear_control :: "control_holder \<Rightarrow> computer_row \<Rightarrow> computer_row" where
  "clear_control h c = c\<lparr>c_controlHolder := h, c_controlLeaseId := None,
     c_controlLeaseExpiresAt := None, c_controlBotId := None, c_controlRunId := None\<rparr>"

definition takeover_run :: "release_input \<Rightarrow> run_row \<Rightarrow> bool" where
  "takeover_run i r \<longleftrightarrow> Some (r_id r) = re_runId i \<and> r_workspaceId r = re_workspaceId i \<and>
     r_botId r = re_botId i \<and> r_status r = WaitingTakeover"

definition resume_run :: "release_reason \<Rightarrow> run_row \<Rightarrow> run_row" where
  "resume_run reason r = r\<lparr>r_status := Queued,
     r_checkpoint := Some (if reason = ReasonSkipped \<or> reason = ReasonExpired
                           then CkTakeoverSkipped else CkTakeover)\<rparr>"

text \<open>The event in the bot's thread, if the bot is there and has one.\<close>

definition release_event ::
  "id \<Rightarrow> time \<Rightarrow> release_input \<Rightarrow> id option \<Rightarrow> (id option \<times> event_row option) option dbtx" where
  "release_event eid now i runId =
     tx_bind (tx_get (\<lambda>d.
        case List.find (\<lambda>b. b_id b = re_botId i \<and> b_workspaceId b = re_workspaceId i) (db_bots d) of
          None \<Rightarrow> None | Some b \<Rightarrow> bot_thread (b_id b) d)) (\<lambda>thread.
     case thread of
       None \<Rightarrow> tx_return (Some (runId, None))
     | Some t \<Rightarrow>
         tx_bind (appendEventInTransaction eid now
            \<lparr>ae_workspaceId = re_workspaceId i, ae_threadId = t_id t, ae_botId = re_botId i,
             ae_type = ComputerTakeoverReleased,
             ae_payload = fields_payload [(js ''holder'', JStr (holder_text (re_holder i))),
               (js ''leaseId'', JStr (re_leaseId i)), (js ''reason'', JStr (reason_text (re_reason i)))],
             ae_runId = runId\<rparr>) (\<lambda>event.
         tx_return (Some (runId, Some event))))"

definition release_resume ::
  "id \<Rightarrow> time \<Rightarrow> release_input \<Rightarrow> (id option \<times> event_row option) option dbtx" where
  "release_resume eid now i =
     (if truthy (re_runId i)
      then tx_bind (update_runs (takeover_run i) (resume_run (re_reason i)))
             (\<lambda>resumed. release_event eid now i (if resumed = 1 then re_runId i else None))
      else release_event eid now i None)"

text \<open>The value: the run that was resumed, and the event.\<close>

definition finalizeComputerControlRelease_tx ::
  "id \<Rightarrow> time \<Rightarrow> release_input \<Rightarrow> (id option \<times> event_row option) option dbtx" where
  "finalizeComputerControlRelease_tx eid now i =
     tx_bind (update_computers (controlled_computer i) (clear_control (re_holder i))) (\<lambda>cleared.
     if cleared \<noteq> 1 then tx_return None else release_resume eid now i)"

subsection \<open>finalizeRun\<close>

datatype run_outcome = OutcomeCompleted "message_block list" | OutcomeFailed jstring

definition outcome_status :: "run_outcome \<Rightarrow> run_status" where
  "outcome_status oc = (case oc of OutcomeCompleted _ \<Rightarrow> Completed | OutcomeFailed _ \<Rightarrow> Failed)"

definition outcome_error :: "run_outcome \<Rightarrow> jstring option" where
  "outcome_error oc = (case oc of OutcomeCompleted _ \<Rightarrow> None | OutcomeFailed e \<Rightarrow> Some e)"

definition outcome_attempt :: "run_outcome \<Rightarrow> attempt_status" where
  "outcome_attempt oc = (case oc of OutcomeCompleted _ \<Rightarrow> ACompleted | OutcomeFailed _ \<Rightarrow> AFailed)"

definition finish_run :: "run_outcome \<Rightarrow> time \<Rightarrow> run_row \<Rightarrow> run_row" where
  "finish_run oc now r = r\<lparr>r_status := outcome_status oc, r_error := outcome_error oc,
     r_completedAt := Some now, r_leaseOwner := None, r_leaseExpiresAt := None\<rparr>"

definition finish_message :: "id \<Rightarrow> id \<Rightarrow> time \<Rightarrow> fenced \<Rightarrow> run_outcome \<Rightarrow> unit dbtx" where
  "finish_message mid eid now i oc =
     (case oc of
        OutcomeFailed _ \<Rightarrow> tx_skip
      | OutcomeCompleted blocks \<Rightarrow>
          tx_bind (createThreadMessageInTransaction mid now (bot_message i blocks)) (\<lambda>message.
          tx_then (appendEventInTransaction eid now
                     (event_for i ThreadMessageCreated (message_payload (m_id message) RBot blocks)))
            tx_skip))"

definition finish_event :: "fenced \<Rightarrow> run_outcome \<Rightarrow> append_event_input" where
  "finish_event i oc =
     (case oc of
        OutcomeCompleted _ \<Rightarrow> event_for i RunCompleted no_payload
      | OutcomeFailed e \<Rightarrow> event_for i RunFailed (fields_payload [(js ''error'', JStr e)]))"

text \<open>The writes after the run row: attempt, task, message, event, progress, bot.\<close>

definition finish_rest ::
  "id \<Rightarrow> id \<Rightarrow> id \<Rightarrow> time \<Rightarrow> fenced \<Rightarrow> id \<Rightarrow> run_outcome \<Rightarrow> event_row option dbtx" where
  "finish_rest mid eid1 eid2 now i taskId oc =
     tx_bind (update_attempts (fenced_attempt i)
                (\<lambda>a. a\<lparr>a_status := outcome_attempt oc, a_error := outcome_error oc,
                        a_finishedAt := Some now\<rparr>)) (\<lambda>attempt.
     if attempt \<noteq> 1 then tx_throw (AppError ''Active run attempt was not available to finalize'')
     else
       tx_bind (update_tasks (\<lambda>k. k_id k = taskId \<and> k_workspaceId k = fc_workspaceId i \<and>
                   k_threadId k = fc_threadId i \<and> k_botId k = fc_botId i)
                  (\<lambda>k. k\<lparr>k_status := outcome_status oc\<rparr>)) (\<lambda>task.
       if task \<noteq> 1 then tx_throw (AppError ''Run task was not available to finalize'')
       else
         tx_then (finish_message mid eid1 now i oc)
         (tx_bind (appendEventInTransaction eid2 now (finish_event i oc)) (\<lambda>lastEvent.
          tx_then (delete_progress (fc_runId i))
          (tx_then (touch_bot (\<lambda>b. b_id b = fc_botId i) now)
           (tx_return (Some lastEvent)))))))"

definition finalizeRun_tx ::
  "id \<Rightarrow> id \<Rightarrow> id \<Rightarrow> time \<Rightarrow> fenced \<Rightarrow> id \<Rightarrow> run_outcome \<Rightarrow> event_row option dbtx" where
  "finalizeRun_tx mid eid1 eid2 now i taskId oc =
     tx_bind (tx_get (assertRunCanWriteHistory (Some (fc_runId i)))) (\<lambda>writable.
     case writable of Inl _ \<Rightarrow> tx_return None | Inr _ \<Rightarrow>
     tx_bind (update_runs (\<lambda>r. fenced_run i r \<and> r_taskId r = taskId) (finish_run oc now)) (\<lambda>terminal.
     if terminal \<noteq> 1 then tx_return None else finish_rest mid eid1 eid2 now i taskId oc))"

end
