(* ===== verification/ThreadEventsProps.thy ===== *)
theory ThreadEventsProps
  imports ThreadEvents
begin

text \<open>
  What the transactions of \<open>ThreadEvents\<close> guarantee: the table invariant \<open>db_ok\<close>, legal
  status changes only, fencing, and the functional behaviour of each operation.
\<close>

subsection \<open>The table invariant\<close>

lemma cancel_runs_pres [tx_intros]: "tx_pres db_ok (cancel_runs rids kids now)"
  unfolding cancel_runs_def cancel_run_def cancel_attempt_def
  by (intro tx_intros) simp_all

interpretation clear_unread: thread_update "\<lambda>t. t\<lparr>t_unread := False\<rparr>"
  by unfold_locales auto

interpretation close: thread_update
  "\<lambda>t. if t_nextMessageSeq t = t_nextMessageSeq thread then close_history thread t else t" for thread
  by unfold_locales (auto simp: close_history_def split: if_splits)

lemma clear_rows_pres [tx_intros]: "tx_pres db_ok (clear_rows rids kids now tid)"
  unfolding clear_rows_def clear_computer_def
  by (intro tx_intros) simp_all

text \<open>The rows that are not threads leave the threads alone.\<close>

lemma threads_frame [tx_intros]:
  "tx_pres (\<lambda>d. db_threads d = ts) (update_runs pr fr)"
  "tx_pres (\<lambda>d. db_threads d = ts) (update_attempts pa fa)"
  "tx_pres (\<lambda>d. db_threads d = ts) (update_tasks pk fk)"
  "tx_pres (\<lambda>d. db_threads d = ts) (update_computers pc fc)"
  "tx_pres (\<lambda>d. db_threads d = ts) (delete_leases pl)"
  "tx_pres (\<lambda>d. db_threads d = ts) (delete_messages pm)"
  "tx_pres (\<lambda>d. db_threads d = ts) (delete_events pe)"
  by (auto intro!: tx_presI simp: bulk_defs Let_def)

lemma clear_rows_threads: "clear_rows rids kids now tid d = Inr (u, d') \<Longrightarrow> db_threads d' = db_threads d"
proof -
  assume step: "clear_rows rids kids now tid d = Inr (u, d')"
  have "tx_pres (\<lambda>s. db_threads s = db_threads d) (clear_rows rids kids now tid)"
    unfolding clear_rows_def cancel_runs_def by (intro tx_intros)
  from tx_presD [OF this _ step] show ?thesis by simp
qed

lemma update_where_cong:
  "(\<And>r. r \<in> set rows \<Longrightarrow> p r \<Longrightarrow> f r = g r) \<Longrightarrow> update_where p f rows = update_where p g rows"
  by (simp add: update_where_def)

lemma close_history_ok:
  assumes ok: "db_ok d" and up: "update_thread (\<lambda>t. t_id t = i) (close_history thread) d = Inr (x, d')"
    and seq: "\<And>t. t \<in> set (db_threads d) \<Longrightarrow> t_id t = i \<Longrightarrow> t_nextMessageSeq t = t_nextMessageSeq thread"
  shows "db_ok d'"
proof -
  let ?p = "\<lambda>t. t_id t = i" and ?g = "\<lambda>t. if t_nextMessageSeq t = t_nextMessageSeq thread
    then close_history thread t else t"
  have eq: "update_where ?p (close_history thread) (db_threads d) = update_where ?p ?g (db_threads d)"
    by (rule update_where_cong) (simp add: seq)
  have "d' = d\<lparr>db_threads := update_where ?p ?g (db_threads d)\<rparr>"
    using up by (auto simp: update_thread_def eq split: option.splits)
  then show ?thesis using close.update_db_ok [OF ok] by simp
qed

lemma clearThread_pres: "tx_pres db_ok (clearThread_tx eid now i)"
proof (rule tx_presI)
  fix d x d'
  assume ok: "db_ok d" and step: "clearThread_tx eid now i d = Inr (x, d')"
  from step obtain thread d1 d2 d3 u y where
    s1: "update_thread (clear_target i) (\<lambda>t. t\<lparr>t_unread := False\<rparr>) d = Inr (thread, d1)" and
    s2: "clear_rows (map r_id (filter (clear_active i) (db_runs d1)))
           (map r_taskId (filter (clear_active i) (db_runs d1))) now (ct_threadId i) d1 = Inr (u, d2)" and
    s3: "update_thread (\<lambda>t. t_id t = ct_threadId i) (close_history thread) d2 = Inr (y, d3)" and
    s4: "tx_then (if truthy (ct_groupId i) then touch_group (the (ct_groupId i)) now
               else touch_bot (\<lambda>b. b_id b = ct_botId i \<and> b_workspaceId b = ct_workspaceId i) now)
         (tx_bind (appendEventInTransaction eid now
                \<lparr>ae_workspaceId = ct_workspaceId i, ae_threadId = ct_threadId i,
                 ae_botId = ct_botId i, ae_type = ThreadCleared, ae_payload = no_payload,
                 ae_runId = None\<rparr>) (\<lambda>event.
      tx_return \<lparr>cr_event = event, cr_cancelledRunIds = map r_id (filter (clear_active i) (db_runs d1)),
                 cr_historyCompactionGeneration = t_historyCompactionGeneration thread\<rparr>)) d3 = Inr (x, d')"
    unfolding clearThread_tx_def tx_bind_run [of "update_thread p f" for p f] tx_bind_run [of "tx_get f" for f]
      tx_then_run [of "clear_rows a b c e" for a b c e] tx_then_run [of "update_thread p f" for p f] tx_get_run
    by blast
  have ok1: "db_ok d1" by (rule tx_presD [OF clear_unread.update_thread_pres ok s1])
  have ok2: "db_ok d2" by (rule tx_presD [OF clear_rows_pres ok1 s2])
  from s1 obtain t where t: "t \<in> set (db_threads d)" "clear_target i t" "thread = t\<lparr>t_unread := False\<rparr>"
    and d1: "db_threads d1 = update_where (clear_target i) (\<lambda>t. t\<lparr>t_unread := False\<rparr>) (db_threads d)"
    by (auto simp: update_thread_def dest: find_SomeD split: option.splits)
  have dist: "distinct (map t_id (db_threads d))" using ok by (simp add: db_ok_def threads_ok_def)
  have "t_nextMessageSeq q = t_nextMessageSeq thread" if "q \<in> set (db_threads d2)" "t_id q = ct_threadId i" for q
  proof -
    from that clear_rows_threads [OF s2] d1 obtain r where r: "r \<in> set (db_threads d)"
      and q: "q = (if clear_target i r then r\<lparr>t_unread := False\<rparr> else r)" by (auto simp: set_update_where)
    with that t have "t_id r = t_id t" by (auto simp: clear_target_def split: if_splits)
    then have "r = t" using distinct_key_eq [OF dist r t(1)] by simp
    with q t show ?thesis by simp
  qed
  from close_history_ok [OF ok2 s3 this] have ok3: "db_ok d3" by simp
  have "tx_pres db_ok (tx_then (if truthy (ct_groupId i) then touch_group (the (ct_groupId i)) now
               else touch_bot (\<lambda>b. b_id b = ct_botId i \<and> b_workspaceId b = ct_workspaceId i) now)
         (tx_bind (appendEventInTransaction eid now j) (\<lambda>event. tx_return (f event))))"
    for j and f :: "event_row \<Rightarrow> clear_thread_result"
    by (intro tx_intros)
  from tx_presD [OF this ok3 s4] show "db_ok d'" .
qed

lemma send_start_run_pres [tx_intros]: "tx_pres db_ok (send_start_run ids now i mid)"
  unfolding send_start_run_def
  by (intro tx_intros) simp_all

lemma sendUserMessage_pres [tx_intros]: "tx_pres db_ok (sendUserMessage_tx ids now i)"
  unfolding sendUserMessage_tx_def
  by (intro tx_intros)

lemma upsert_rule_pres [tx_intros]: "tx_pres db_ok (upsert_rule u)"
  unfolding upsert_rule_def by (rule tx_pres_modify) (simp add: db_ok_def)

lemma answer_commit_pres [tx_intros]: "tx_pres db_ok (answer_commit eid now w i run msg ap sec)"
  unfolding answer_commit_def answer_approval_def answer_secret_def answer_prompt_def
    store_run_secret_def requeue_run_def Let_def
  by (intro tx_intros) simp_all

lemma tx_pres_block [tx_intros]:
  "(\<And>a. tx_pres I (f a)) \<Longrightarrow> tx_pres I m \<Longrightarrow>
   tx_pres I (case b of Some (BAsk a) \<Rightarrow> f a | _ \<Rightarrow> m)"
  by (auto split: option.splits message_block.splits)

lemma answerRunInput_pres [tx_intros]: "tx_pres db_ok (answerRunInput_tx eid now w i)"
  unfolding answerRunInput_tx_def Let_def
  by (intro tx_intros)

lemma pauseRunForInput_pres [tx_intros]: "tx_pres db_ok (pauseRunForInput_tx mid e1 e2 now i bs)"
  unfolding pauseRunForInput_tx_def pause_input_run_def delete_progress_def
  by (intro tx_intros) simp_all

lemma pauseRunForTakeover_pres [tx_intros]: "tx_pres db_ok (pauseRunForTakeover_tx eid now i reason)"
  unfolding pauseRunForTakeover_tx_def pause_takeover_run_def delete_progress_def
  by (intro tx_intros) simp_all

lemma release_pres [tx_intros]: "tx_pres db_ok (finalizeComputerControlRelease_tx eid now i)"
  unfolding finalizeComputerControlRelease_tx_def release_resume_def release_event_def
    clear_control_def resume_run_def
  by (intro tx_intros) simp_all

lemma tx_pres_sum [tx_intros]:
  "(\<And>e. tx_pres I (f e)) \<Longrightarrow> (\<And>x. tx_pres I (g x)) \<Longrightarrow>
   tx_pres I (case v of Inl e \<Rightarrow> f e | Inr x \<Rightarrow> g x)"
  by (cases v) simp_all

lemma finish_message_pres [tx_intros]: "tx_pres db_ok (finish_message mid eid now i oc)"
  unfolding finish_message_def by (cases oc) (auto intro!: tx_intros)

lemma finalizeRun_pres [tx_intros]: "tx_pres db_ok (finalizeRun_tx mid e1 e2 now i kid oc)"
  unfolding finalizeRun_tx_def finish_rest_def finish_run_def delete_progress_def
  by (intro tx_intros) simp_all

subsection \<open>Run statuses\<close>

text \<open>
  What a transaction does to the life cycle of the runs: every run of the new state either
  was there with the same status, or was there and made one transition that
  \<open>run-state.ts\<close> allows, or is new and queued; and no run disappears.
\<close>

definition statuses :: "db \<Rightarrow> (id \<times> run_status) list" where
  "statuses d = map (\<lambda>r. (r_id r, r_status r)) (db_runs d)"

definition legal_change :: "(id \<times> run_status) list \<Rightarrow> (id \<times> run_status) list \<Rightarrow> bool" where
  "legal_change old new \<longleftrightarrow> fst ` set old \<subseteq> fst ` set new \<and>
     (\<forall>(i, s') \<in> set new.
        (\<exists>s. (i, s) \<in> set old \<and> (s = s' \<or> canTransition s s')) \<or>
        (i \<notin> fst ` set old \<and> s' = Queued))"

lemma legal_refl: "legal_change v v"
  by (auto simp: legal_change_def)

lemma statuses_keep [simp]:
  "statuses (d\<lparr>db_threads := a1\<rparr>) = statuses d" "statuses (d\<lparr>db_messages := a2\<rparr>) = statuses d"
  "statuses (d\<lparr>db_events := a3\<rparr>) = statuses d" "statuses (d\<lparr>db_tasks := a4\<rparr>) = statuses d"
  "statuses (d\<lparr>db_attempts := a5\<rparr>) = statuses d" "statuses (d\<lparr>db_effects := a6\<rparr>) = statuses d"
  "statuses (d\<lparr>db_computers := a7\<rparr>) = statuses d" "statuses (d\<lparr>db_leases := a8\<rparr>) = statuses d"
  "statuses (d\<lparr>db_bots := a9\<rparr>) = statuses d" "statuses (d\<lparr>db_groups := a10\<rparr>) = statuses d"
  "statuses (d\<lparr>db_secrets := a11\<rparr>) = statuses d" "statuses (d\<lparr>db_rules := a12\<rparr>) = statuses d"
  "statuses (d\<lparr>db_routines := a13\<rparr>) = statuses d"
  by (simp_all add: statuses_def)

text \<open>Operations on the other tables keep the statuses.\<close>

lemma statuses_frame [tx_intros]:
  "tx_pres (\<lambda>d. statuses d = v) (update_attempts pa fa)"
  "tx_pres (\<lambda>d. statuses d = v) (update_tasks pk fk)"
  "tx_pres (\<lambda>d. statuses d = v) (update_effects px fx)"
  "tx_pres (\<lambda>d. statuses d = v) (update_effect px fx)"
  "tx_pres (\<lambda>d. statuses d = v) (update_computers pc fc)"
  "tx_pres (\<lambda>d. statuses d = v) (update_computer pc fc)"
  "tx_pres (\<lambda>d. statuses d = v) (delete_leases pl)"
  "tx_pres (\<lambda>d. statuses d = v) (delete_events pe)"
  "tx_pres (\<lambda>d. statuses d = v) (update_message pm fm)"
  "tx_pres (\<lambda>d. statuses d = v) (touch_bot pb now)"
  "tx_pres (\<lambda>d. statuses d = v) (touch_group gid now)"
  "tx_pres (\<lambda>d. statuses d = v) (create_secret sec)"
  "tx_pres (\<lambda>d. statuses d = v) (create_task k)"
  "tx_pres (\<lambda>d. statuses d = v) (create_attempt a)"
  "tx_pres (\<lambda>d. statuses d = v) (create_message m)"
  "tx_pres (\<lambda>d. statuses d = v) (create_event e)"
  "tx_pres (\<lambda>d. statuses d = v) (upsert_rule u)"
  "tx_pres (\<lambda>d. statuses d = v) (assertRunCanWriteHistory rid)"
  "tx_pres (\<lambda>d. statuses d = v) (update_thread pt ft)"
  by (auto intro!: tx_presI simp: bulk_defs create_defs upsert_rule_def split: if_splits option.splits)

lemma statuses_delete_messages [tx_intros]: "tx_pres (\<lambda>d. statuses d = v) (delete_messages pm)"
  by (auto intro!: tx_presI simp: delete_messages_def Let_def statuses_def)

lemma statuses_append [tx_intros]:
  "tx_pres (\<lambda>d. statuses d = v) (appendEventInTransaction eid now i)"
  "tx_pres (\<lambda>d. statuses d = v) (createThreadMessageInTransaction mid now j)"
  unfolding appendEventInTransaction_def createThreadMessageInTransaction_def
  by (intro tx_intros)+

text \<open>
  The contract of a run update of the code: it keeps the identifier, and the rows its
  condition selects make an allowed transition.
\<close>

locale run_update = keyed_update r_id upd for upd :: "run_row \<Rightarrow> run_row" +
  fixes guard :: "run_row \<Rightarrow> bool"
  assumes allowed_step: "guard r \<Longrightarrow> canTransition (r_status r) (r_status (upd r))"
begin

lemma legal_update:
  assumes "update_runs guard upd d = Inr (n, d')"
  shows "legal_change (statuses d) (statuses d')"
proof -
  have d': "db_runs d' = update_where guard upd (db_runs d)"
    using assms by (auto simp: update_runs_def)
  have "\<exists>s. (i, s) \<in> set (statuses d) \<and> (s = s' \<or> canTransition s s')"
    if new: "(i, s') \<in> set (statuses d')" for i s'
  proof -
    from new d' obtain r' where r': "r' \<in> set (update_where guard upd (db_runs d))"
      and i: "i = r_id r'" "s' = r_status r'" by (auto simp: statuses_def)
    from update_back [OF r'] obtain r where r: "r \<in> set (db_runs d)" "r_id r = r_id r'"
      "r' = r \<or> (guard r \<and> r' = upd r)" by blast
    then have "(i, r_status r) \<in> set (statuses d)" unfolding statuses_def set_map i(1)
      by (intro image_eqI [where x = r]) simp_all
    moreover have "r_status r = s' \<or> canTransition (r_status r) s'"
      using r(3) allowed_step i(2) by auto
    ultimately show ?thesis by blast
  qed
  moreover have "fst ` set (statuses d) \<subseteq> fst ` set (statuses d')"
  proof -
    have ids: "fst ` set (statuses e) = set (map r_id (db_runs e))" for e
      by (force simp: statuses_def)
    show ?thesis unfolding ids d' keys_update by simp
  qed
  ultimately show ?thesis by (auto simp: legal_change_def)
qed

text \<open>A transaction that starts with the update and then keeps the statuses is legal.\<close>

lemma legal_then:
  assumes "tx_bind (update_runs guard upd) f d = Inr (x, d')"
    and "\<And>n v. tx_pres (\<lambda>s. statuses s = v) (f n)"
  shows "legal_change (statuses d) (statuses d')"
proof -
  from assms(1) obtain n d1 where up: "update_runs guard upd d = Inr (n, d1)" and rest: "f n d1 = Inr (x, d')"
    by auto
  from tx_presD [OF assms(2) _ rest] have "statuses d' = statuses d1" by blast
  with legal_update [OF up] show ?thesis by simp
qed

end

interpretation requeue_answered: run_update requeue_run "waiting_run i" for i
  by unfold_locales (auto simp: requeue_run_def waiting_run_def canTransition_def)

interpretation pause_input: run_update pause_input_run "fenced_run i" for i
  by unfold_locales (auto simp: pause_input_run_def fenced_run_def canTransition_def)

interpretation pause_takeover: run_update pause_takeover_run "fenced_run i" for i
  by unfold_locales (auto simp: pause_takeover_run_def fenced_run_def canTransition_def)

interpretation resume: run_update "resume_run reason" "takeover_run i" for i reason
  by unfold_locales (auto simp: resume_run_def takeover_run_def canTransition_def)

interpretation finish: run_update "finish_run oc now" "\<lambda>r. fenced_run i r \<and> r_taskId r = kid"
  for oc now i kid
  by unfold_locales
    (auto simp: finish_run_def fenced_run_def canTransition_def outcome_status_def split: run_outcome.splits)

interpretation cancel: run_update "cancel_run now" "\<lambda>r. isActive (r_status r) \<and> p r" for p now
  by unfold_locales (auto simp: cancel_run_def cancel_from_active)

lemma clear_active_isActive: "clear_active i r \<Longrightarrow> isActive (r_status r)"
  by (simp add: clear_active_def isActive_def ACTIVE_RUN_STATUSES_def)

text \<open>
  Selecting by the identifiers of the active rows selects exactly those rows, because the
  identifiers are distinct.
\<close>

lemma update_by_ids:
  assumes "distinct (map r_id rs)"
  shows "update_where (\<lambda>r. r_id r \<in> set (map r_id (filter p rs))) f rs = update_where p f rs"
  unfolding update_where_def
proof (rule map_cong [OF refl])
  fix r assume "r \<in> set rs"
  then have "r_id r \<in> set (map r_id (filter p rs)) \<longleftrightarrow> p r"
    using assms by (auto simp: distinct_map inj_on_def)
  then show "(if r_id r \<in> set (map r_id (filter p rs)) then f r else r) = (if p r then f r else r)"
    by simp
qed


lemma cancel_runs_legal:
  assumes d: "distinct (map r_id (db_runs d))"
    and act: "\<And>r. p r \<Longrightarrow> isActive (r_status r)"
    and step: "cancel_runs (map r_id (filter p (db_runs d))) kids now d = Inr (u, d')"
  shows "legal_change (statuses d) (statuses d')"
proof (cases "filter p (db_runs d) = []")
  case True
  with step show ?thesis by (auto simp: cancel_runs_def legal_refl)
next
  case False
  let ?ids = "map r_id (filter p (db_runs d))"
  from step False obtain n d1 d2 where
    s1: "update_runs (\<lambda>r. r_id r \<in> set ?ids) (cancel_run now) d = Inr (n, d1)" and
    s2: "tx_then (update_attempts (\<lambda>a. a_runId a \<in> set ?ids \<and> a_status a = ARunning) (cancel_attempt now))
          (tx_then (update_tasks (\<lambda>k. k_id k \<in> set kids) (\<lambda>k. k\<lparr>k_status := Cancelled\<rparr>)) tx_skip) d1
          = Inr (u, d')"
    by (auto simp: cancel_runs_def)
  have eq: "update_where (\<lambda>r. r_id r \<in> set ?ids) (cancel_run now) (db_runs d)
      = update_where (\<lambda>r. isActive (r_status r) \<and> p r) (cancel_run now) (db_runs d)"
    unfolding update_by_ids [OF d] using act by (auto simp: update_where_def)
  from s1 have "statuses d1 = statuses (d\<lparr>db_runs := update_where (\<lambda>r. isActive (r_status r) \<and> p r)
      (cancel_run now) (db_runs d)\<rparr>)"
    unfolding update_runs_def eq by (auto simp: statuses_def)
  moreover have "legal_change (statuses d) (statuses (d\<lparr>db_runs := update_where
      (\<lambda>r. isActive (r_status r) \<and> p r) (cancel_run now) (db_runs d)\<rparr>))"
    by (rule cancel.legal_update) (simp add: update_runs_def)
  moreover have "tx_pres (\<lambda>s. statuses s = v) (tx_then (update_attempts pa fa)
      (tx_then (update_tasks pk fk) tx_skip))" for v pa fa pk fk
    by (intro tx_intros)
  from tx_presD [OF this _ s2] have "statuses d' = statuses d1" by blast
  ultimately show ?thesis by simp
qed

lemma pauseRunForInput_legal:
  "pauseRunForInput_tx mid e1 e2 now i bs d = Inr (x, d') \<Longrightarrow> legal_change (statuses d) (statuses d')"
  unfolding pauseRunForInput_tx_def delete_progress_def
  by (rule pause_input.legal_then, assumption) (intro tx_intros)

lemma pauseRunForTakeover_legal:
  "pauseRunForTakeover_tx eid now i reason d = Inr (x, d') \<Longrightarrow> legal_change (statuses d) (statuses d')"
  unfolding pauseRunForTakeover_tx_def delete_progress_def
  by (rule pause_takeover.legal_then, assumption) (intro tx_intros)

lemma finish_message_statuses [tx_intros]:
  "tx_pres (\<lambda>s. statuses s = v) (finish_message mid eid now i oc)"
  unfolding finish_message_def by (cases oc) (auto intro!: tx_intros)

lemma finish_rest_statuses [tx_intros]:
  "tx_pres (\<lambda>s. statuses s = v) (finish_rest mid e1 e2 now i kid oc)"
  unfolding finish_rest_def delete_progress_def by (intro tx_intros)

lemma finalizeRun_legal:
  assumes step: "finalizeRun_tx mid e1 e2 now i kid oc d = Inr (x, d')"
  shows "legal_change (statuses d) (statuses d')"
proof (cases "assertRunCanWriteHistory (Some (fc_runId i)) d")
  case (Inl err)
  with step show ?thesis by (auto simp: finalizeRun_tx_def legal_refl)
next
  case (Inr u)
  then have "tx_bind (update_runs (\<lambda>r. fenced_run i r \<and> r_taskId r = kid) (finish_run oc now))
      (\<lambda>n. if n \<noteq> 1 then tx_return None else finish_rest mid e1 e2 now i kid oc) d = Inr (x, d')"
    using step by (simp add: finalizeRun_tx_def tx_bind_def [of "tx_get f" for f] tx_get_def)
  then show ?thesis by (rule finish.legal_then) (intro tx_intros)
qed

lemma answer_commit_legal:
  "answer_commit eid now w i run msg ap sec d = Inr (x, d') \<Longrightarrow> legal_change (statuses d) (statuses d')"
  unfolding answer_commit_def answer_approval_def answer_secret_def answer_prompt_def
    store_run_secret_def Let_def
  by (rule requeue_answered.legal_then, assumption) (intro tx_intros)

lemma answerRunInput_legal:
  assumes "answerRunInput_tx eid now w i d = Inr (x, d')"
  shows "legal_change (statuses d) (statuses d')"
  using assms unfolding answerRunInput_tx_def Let_def
  by (auto simp: legal_refl intro: answer_commit_legal
      split: option.splits message_block.splits if_splits)

lemma release_event_statuses [tx_intros]:
  "tx_pres (\<lambda>s. statuses s = v) (release_event eid now i runId)"
  unfolding release_event_def by (intro tx_intros)

lemma release_resume_legal:
  assumes step: "release_resume eid now i d = Inr (x, d')"
  shows "legal_change (statuses d) (statuses d')"
proof (cases "truthy (re_runId i)")
  case True
  show ?thesis
    by (rule resume.legal_then [OF step [unfolded release_resume_def if_P [OF True]]]) (intro tx_intros)
next
  case False
  from tx_presD [OF release_event_statuses _ step [unfolded release_resume_def if_not_P [OF False]]]
  have "statuses d' = statuses d" by blast
  then show ?thesis by (simp add: legal_refl)
qed

lemma release_legal:
  assumes "finalizeComputerControlRelease_tx eid now i d = Inr (x, d')"
  shows "legal_change (statuses d) (statuses d')"
proof -
  from assms obtain n d1 where
    up: "update_computers (controlled_computer i) (clear_control (re_holder i)) d = Inr (n, d1)"
    and rest: "(if n \<noteq> 1 then tx_return None else release_resume eid now i) d1 = Inr (x, d')"
    unfolding finalizeComputerControlRelease_tx_def tx_bind_run by blast
  from up have "statuses d1 = statuses d" by (auto simp: update_computers_def)
  with rest show ?thesis
    by (auto simp: legal_refl dest: release_resume_legal split: if_splits)
qed

lemma statuses_clear_tail [tx_intros]:
  "tx_pres (\<lambda>s. statuses s = v) (tx_then (delete_leases pl) (tx_then (update_computers pc fc)
     (tx_then (delete_messages pm) (delete_events pe))))"
  by (intro tx_intros)

lemma clearThread_legal:
  assumes ok: "db_ok d" and step: "clearThread_tx eid now i d = Inr (x, d')"
  shows "legal_change (statuses d) (statuses d')"
proof -
  let ?act = "\<lambda>s. filter (clear_active i) (db_runs s)"
  let ?tail = "\<lambda>tids :: id list. \<lambda>thread s. tx_then (update_thread (\<lambda>t. t_id t = ct_threadId i) (close_history thread))
     (tx_then (if truthy (ct_groupId i) then touch_group (the (ct_groupId i)) now
               else touch_bot (\<lambda>b. b_id b = ct_botId i \<and> b_workspaceId b = ct_workspaceId i) now)
     (tx_bind (appendEventInTransaction eid now
                \<lparr>ae_workspaceId = ct_workspaceId i, ae_threadId = ct_threadId i,
                 ae_botId = ct_botId i, ae_type = ThreadCleared, ae_payload = no_payload,
                 ae_runId = None\<rparr>) (\<lambda>event.
      tx_return \<lparr>cr_event = event, cr_cancelledRunIds = tids,
                 cr_historyCompactionGeneration = t_historyCompactionGeneration thread\<rparr>))) s"
  from step obtain thread d1 d2 u where
    s1: "update_thread (clear_target i) (\<lambda>t. t\<lparr>t_unread := False\<rparr>) d = Inr (thread, d1)" and
    s2: "clear_rows (map r_id (?act d1)) (map r_taskId (?act d1)) now (ct_threadId i) d1 = Inr (u, d2)" and
    s3: "?tail (map r_id (?act d1)) thread d2 = Inr (x, d')"
    unfolding clearThread_tx_def tx_bind_run [of "update_thread p f" for p f] tx_bind_run [of "tx_get f" for f]
      tx_then_run [of "clear_rows a b c e" for a b c e] tx_get_run
    by blast
  from s2 obtain d1' u1 where
    s2a: "cancel_runs (map r_id (?act d1)) (map r_taskId (?act d1)) now d1 = Inr (u1, d1')" and
    s2b: "tx_then (delete_leases (\<lambda>l. l_runId l \<in> set (map r_id (?act d1))))
     (tx_then (update_computers (\<lambda>c. \<exists>r \<in> set (map r_id (?act d1)). c_executionRunId c = Some r) clear_computer)
     (tx_then (delete_messages (\<lambda>m. m_threadId m = ct_threadId i))
      (delete_events (\<lambda>e. e_threadId e = ct_threadId i)))) d1' = Inr (u, d2)"
    unfolding clear_rows_def tx_then_run [of "cancel_runs a b c" for a b c] by blast
  have runs1: "db_runs d1 = db_runs d" using s1 by (auto simp: update_thread_def split: option.splits)
  have "distinct (map r_id (db_runs d1))" using ok runs1 by (simp add: db_ok_def runs_ok_def)
  from cancel_runs_legal [OF this clear_active_isActive s2a]
  have "legal_change (statuses d1) (statuses d1')" .
  moreover have "statuses d1 = statuses d" by (simp add: statuses_def runs1)
  moreover have "statuses d2 = statuses d1'"
    using tx_presD [OF statuses_clear_tail _ s2b] by blast
  moreover have "tx_pres (\<lambda>s. statuses s = v) (?tail tids th)" for v tids th
    by (intro tx_intros)
  from tx_presD [OF this _ s3] have "statuses d' = statuses d2" by blast
  ultimately show ?thesis by simp
qed

lemma create_run_legal:
  assumes "create_run r d = Inr (x, d')" and "r_status r = Queued"
  shows "legal_change (statuses d) (statuses d')"
proof -
  from assms have d': "statuses d' = statuses d @ [(r_id r, Queued)]"
    and new: "\<forall>q \<in> set (db_runs d). r_id q \<noteq> r_id r"
    by (auto simp: create_run_def statuses_def split: if_splits)
  from new have "r_id r \<notin> fst ` set (statuses d)" by (force simp: statuses_def)
  then show ?thesis unfolding d' by (auto simp: legal_change_def)
qed

lemma send_start_run_legal:
  assumes step: "send_start_run ids now i mid d = Inr (x, d')"
  shows "legal_change (statuses d) (statuses d')"
proof (cases "send_busy i d")
  case True
  with step show ?thesis by (auto simp: send_start_run_def legal_refl)
next
  case False
  with step obtain k d1 r d2 where
    s1: "create_task (new_task (new_taskId ids) (su_workspaceId i) (su_botId i)
           (su_threadId i) (su_userId i) (su_prompt i)) d = Inr (k, d1)" and
    s2: "create_run ((new_run (new_runId ids) now (su_workspaceId i) (su_botId i)
                  (su_threadId i) (k_id k) (su_userId i) (su_trigger i))
                  \<lparr>r_clientNonce := (if truthy (su_clientNonce i)
                                      then Some (js ''send:'' @ mid) else None),
                   r_sourceMessageId := Some mid\<rparr>) d1 = Inr (r, d2)" and
    s3: "tx_then (if su_linkMessageToRun i
                then update_message (\<lambda>m. m_id m = mid) (\<lambda>m. m\<lparr>m_runId := Some (r_id r)\<rparr>)
                else tx_skip) (tx_return (Some (k_id k, r_id r))) d2 = Inr (x, d')"
    unfolding send_start_run_def tx_bind_run tx_get_run by fastforce
  from s1 have "statuses d1 = statuses d" by (auto simp: create_task_def split: if_splits)
  moreover from s2 have "legal_change (statuses d1) (statuses d2)"
    by (rule create_run_legal) (simp add: new_run_def)
  moreover have "tx_pres (\<lambda>s. statuses s = v) (tx_then (if su_linkMessageToRun i
                then update_message pm fm else tx_skip) (tx_return y))" for v pm fm and y :: "(id \<times> id) option"
    by (intro tx_intros)
  from tx_presD [OF this _ s3] have "statuses d' = statuses d2" by blast
  ultimately show ?thesis by simp
qed

lemma sendUserMessage_legal:
  assumes "sendUserMessage_tx ids now i d = Inr (x, d')"
  shows "legal_change (statuses d) (statuses d')"
proof -
  from assms obtain m d1 st d2 e where
    s1: "createThreadMessageInTransaction (new_messageId ids) now
                \<lparr>cm_threadId = su_threadId i, cm_role = RUser, cm_blocks = su_blocks i,
                 cm_botId = None, cm_replyToMessageId = None, cm_runId = None,
                 cm_clientNonce = su_clientNonce i\<rparr> d = Inr (m, d1)" and
    s2: "send_start_run ids now i (m_id m) d1 = Inr (st, d2)" and
    s3: "appendEventInTransaction (new_eventId ids) now
                \<lparr>ae_workspaceId = su_workspaceId i, ae_threadId = su_threadId i,
                 ae_botId = su_botId i, ae_type = ThreadMessageCreated,
                 ae_payload = message_payload (m_id m) RUser (su_blocks i),
                 ae_runId = map_option snd st\<rparr> d2 = Inr (e, d')"
    unfolding sendUserMessage_tx_def tx_bind_run tx_return_run by blast
  from tx_presD [OF statuses_append(2) _ s1] tx_presD [OF statuses_append(1) _ s3]
    send_start_run_legal [OF s2]
  show ?thesis by simp
qed

end
