(* ===== verification/Example.thy ===== *)
theory Example
  imports ThreadEvents
begin

text \<open>
  A small database on which the theorems of the thread transactions are exercised: one thread
  of one bot with a running run and its attempt and task, a cancelled run, a run that waits
  for a secret and a run that waits for an approval.
\<close>

definition ws1 :: id where "ws1 = js ''w''"
definition th1 :: id where "th1 = js ''t''"
definition bot1 :: id where "bot1 = js ''b''"
definition user1 :: id where "user1 = js ''u''"
definition run_live :: id where "run_live = js ''r1''"
definition run_gone :: id where "run_gone = js ''r2''"
definition run_secret :: id where "run_secret = js ''r3''"
definition run_approval :: id where "run_approval = js ''r4''"

lemmas ids = ws1_def th1_def bot1_def user1_def run_live_def run_gone_def run_secret_def run_approval_def

definition example_run :: "id \<Rightarrow> id \<Rightarrow> run_status \<Rightarrow> run_row" where
  "example_run rid kid st = (new_run rid 10 ws1 bot1 th1 kid user1 TrigUser)\<lparr>r_status := st\<rparr>"

definition secret_ask :: ask_block where
  "secret_ask = \<lparr>ask_text = js ''key?'', ask_approvalEffectId = None, ask_detail = None,
     ask_input = Some AskSecret, ask_status = Some AskPending, ask_answer = None, ask_actions = None\<rparr>"

definition approval_ask :: ask_block where
  "approval_ask = \<lparr>ask_text = js ''ok?'', ask_approvalEffectId = Some (js ''x1''), ask_detail = None,
     ask_input = None, ask_status = Some AskPending, ask_answer = None,
     ask_actions = Some [(js ''allow'', []), (js ''always'', []), (js ''deny'', [])]\<rparr>"

definition example_message :: "id \<Rightarrow> int \<Rightarrow> id \<Rightarrow> message_block list \<Rightarrow> message_row" where
  "example_message mid n rid bs = \<lparr>m_id = mid, m_threadId = th1, m_seq = n, m_role = RBot, m_blocks = bs,
     m_botId = Some bot1, m_replyToMessageId = None, m_runId = Some rid, m_clientNonce = None, m_createdAt = 11\<rparr>"

definition example_db :: db where
  "example_db = empty_db\<lparr>
     db_threads := [\<lparr>t_id = th1, t_workspaceId = ws1, t_botId = Some bot1, t_groupId = None, t_userId = user1,
        t_nextEventSeq = 4, t_nextMessageSeq = 2, t_historyCompactedUpToSeq = None,
        t_historyCompactionSummary = None, t_historyCompactionGeneration = 0, t_unread = True\<rparr>],
     db_messages := [example_message (js ''m1'') 0 run_secret [BAsk secret_ask],
        example_message (js ''m2'') 1 run_approval [BAsk approval_ask]],
     db_events := [\<lparr>e_id = js ''e1'', e_workspaceId = ws1, e_threadId = th1, e_botId = bot1, e_seq = 3,
        e_type = RunStarted, e_payload = no_payload, e_runId = Some run_live, e_createdAt = 11\<rparr>],
     db_tasks := [new_task (js ''k1'') ws1 bot1 th1 user1 []],
     db_runs := [(example_run run_live (js ''k1'') Running)\<lparr>r_leaseOwner := Some (js ''p''), r_leaseFence := 1\<rparr>,
        example_run run_gone (js ''k2'') Cancelled,
        example_run run_secret (js ''k3'') WaitingInput,
        example_run run_approval (js ''k4'') WaitingInput],
     db_attempts := [\<lparr>a_id = js ''a1'', a_runId = run_live, a_fence = 1, a_status = ARunning, a_error = None,
        a_finishedAt = None\<rparr>],
     db_effects := [\<lparr>x_id = js ''x1'', x_workspaceId = ws1, x_runId = run_approval, x_kind = js ''delete_bot'',
        x_idempotencyKey = js ''i1'', x_status = Intended, x_request = JNull, x_result = None\<rparr>],
     db_bots := [\<lparr>b_id = bot1, b_workspaceId = ws1, b_userId = user1, b_name = js ''B'', b_title = [], b_description = [], b_color = [], b_computerId = None,
        b_computerSwitching = False, b_archivedAt = None, b_updatedAt = 1\<rparr>]\<rparr>"

text \<open>The worker that holds the running run.\<close>

definition live_worker :: fenced where
  "live_worker = \<lparr>fc_workspaceId = ws1, fc_threadId = th1, fc_botId = bot1, fc_runId = run_live,
     fc_attemptId = js ''a1'', fc_leaseOwner = js ''p'', fc_leaseFence = 1\<rparr>"

lemmas example_defs = example_db_def empty_db_def example_run_def example_message_def new_run_def
  new_task_def live_worker_def

lemma example_ok: "db_ok example_db"
  by (simp add: db_ok_def threads_ok_def messages_ok_def events_ok_def runs_ok_def example_defs ids)

lemma example_statuses:
  "map (\<lambda>r. (r_id r, r_status r)) (db_runs example_db) =
     [(run_live, Running), (run_gone, Cancelled), (run_secret, WaitingInput), (run_approval, WaitingInput)]"
  by (simp add: example_defs)

lemma example_finalize:
  "\<exists>ev d'. finalizeRun_tx (js ''m3'') (js ''e2'') (js ''e3'') 20 live_worker (js ''k1'') (OutcomeCompleted [BText []])
     example_db = Inr (Some ev, d')"
  by (simp add: finalizeRun_tx_def finish_rest_def finish_message_def delete_progress_def touch_bot_def
      createThreadMessageInTransaction_def appendEventInTransaction_def update_runs_def update_attempts_def
      update_tasks_def update_thread_def create_message_def create_event_def find_run_def
      assertRunCanWriteHistory_def bot_message_def event_for_def finish_event_def delete_events_def
      fenced_run_def fenced_attempt_def count_where_def finish_run_def outcome_status_def example_defs ids)

end
