(* ===== verification/ThreadClaims.thy ===== *)
theory ThreadClaims
  imports ThreadEventsProps Example
begin

text \<open>
  The properties of the thread transactions: one step function over all of them, and the
  theorems about its runs. Every theorem is stated over the operations of \<open>Messages\<close> and
  \<open>ThreadEvents\<close>.
\<close>

datatype thread_op =
    OpAppend id time append_event_input
  | OpCreateMessage id time create_message_input
  | OpClear id time clear_thread_input
  | OpSend send_ids time send_user_message_input
  | OpAnswer id time "secret_put option" answer_run_input
  | OpPauseInput id id id time fenced "message_block list"
  | OpPauseTakeover id time fenced jstring
  | OpRelease id time release_input
  | OpFinalize id id id time fenced id run_outcome

text \<open>The database after one operation, committed or rolled back.\<close>

fun exec_op :: "thread_op \<Rightarrow> db \<Rightarrow> db" where
  "exec_op (OpAppend eid now i) d = snd (appendEvent eid now i d)"
| "exec_op (OpCreateMessage mid now i) d = snd (createThreadMessage mid now i d)"
| "exec_op (OpClear eid now i) d = snd (run_transaction (clearThread_tx eid now i) d)"
| "exec_op (OpSend ids now i) d = snd (sendUserMessage ids now i d d)"
| "exec_op (OpAnswer eid now w i) d = snd (answerRunInput eid now w i d)"
| "exec_op (OpPauseInput mid e1 e2 now i bs) d =
     snd (run_transaction (pauseRunForInput_tx mid e1 e2 now i bs) d)"
| "exec_op (OpPauseTakeover eid now i reason) d =
     snd (run_transaction (pauseRunForTakeover_tx eid now i reason) d)"
| "exec_op (OpRelease eid now i) d =
     snd (run_transaction (finalizeComputerControlRelease_tx eid now i) d)"
| "exec_op (OpFinalize mid e1 e2 now i kid oc) d =
     snd (run_transaction (finalizeRun_tx mid e1 e2 now i kid oc) d)"

fun exec_ops :: "thread_op list \<Rightarrow> db \<Rightarrow> db" where
  "exec_ops [] d = d"
| "exec_ops (op # ops) d = exec_ops ops (exec_op op d)"

lemma send_snd:
  "snd (sendUserMessage ids now i before d) =
     (if replay_send i before = None then snd (run_transaction (sendUserMessage_tx ids now i) d) else d)"
  by (auto simp: sendUserMessage_def split: option.splits prod.splits sum.splits)

lemma answer_snd:
  "snd (answerRunInput eid now w i d) = snd (run_transaction (answerRunInput_tx eid now w i) d)"
  by (auto simp: answerRunInput_def split: prod.splits sum.splits)

lemma run_transaction_cases:
  "(\<exists>e. run_transaction m d = (Inl e, d)) \<or> (\<exists>x d'. m d = Inr (x, d') \<and> run_transaction m d = (Inr x, d'))"
  by (auto split: sum.splits)

lemma exec_op_ok: "db_ok d \<Longrightarrow> db_ok (exec_op op d)"
  by (cases op)
    (simp_all del: run_transaction.simps add: appendEvent_def createThreadMessage_def send_snd answer_snd
      run_transaction_pres appendEvent_pres createMessage_pres clearThread_pres sendUserMessage_pres
      answerRunInput_pres pauseRunForInput_pres pauseRunForTakeover_pres release_pres finalizeRun_pres)

lemma legal_run_transaction:
  "(\<And>x d'. m d = Inr (x, d') \<Longrightarrow> legal_change (statuses d) (statuses d')) \<Longrightarrow>
   legal_change (statuses d) (statuses (snd (run_transaction m d)))"
  using run_transaction_cases [of m d] by (auto simp: legal_refl simp del: run_transaction.simps)

lemma legal_if_kept:
  "(\<And>v. tx_pres (\<lambda>s. statuses s = v) m) \<Longrightarrow> m d = Inr (x, d') \<Longrightarrow> legal_change (statuses d) (statuses d')"
  unfolding tx_pres_def by (metis legal_refl)

lemmas append_legal = legal_if_kept [OF statuses_append(1)] legal_if_kept [OF statuses_append(2)]

lemma exec_op_legal: "db_ok d \<Longrightarrow> legal_change (statuses d) (statuses (exec_op op d))"
  by (cases op)
    (auto simp del: run_transaction.simps simp: appendEvent_def createThreadMessage_def send_snd answer_snd
      legal_refl intro!: legal_run_transaction
      dest: append_legal clearThread_legal sendUserMessage_legal answerRunInput_legal
        pauseRunForInput_legal pauseRunForTakeover_legal release_legal finalizeRun_legal)

lemma legal_changeD:
  assumes "legal_change old new" and "distinct (map fst new)" and "distinct (map fst old)" and "(i, s) \<in> set old"
  obtains s' where "(i, s') \<in> set new" and "s = s' \<or> canTransition s s'"
proof -
  from assms obtain s' where s': "(i, s') \<in> set new" by (force simp: legal_change_def)
  with assms(1,4) obtain s0 where "(i, s0) \<in> set old" "s0 = s' \<or> canTransition s0 s'"
    by (force simp: legal_change_def)
  moreover from this(1) assms(3,4) have "s0 = s"
    by (metis eq_key_imp_eq_value)
  ultimately show thesis using s' that by blast
qed

lemma statuses_distinct: "db_ok d \<Longrightarrow> distinct (map fst (statuses d))"
  by (simp add: db_ok_def runs_ok_def statuses_def o_def)

text \<open>
  C1. Every sequence of thread transactions keeps the tables well formed: keys stay distinct,
  every message and event has a thread and a sequence number of its own below the thread's
  counter, and the compaction cursor stays behind the message counter.
\<close>

theorem thread_ops_keep_tables_well_formed:
  "db_ok d \<Longrightarrow> db_ok (exec_ops ops d)"
  by (induction ops arbitrary: d) (simp_all add: exec_op_ok)

theorem thread_ops_keep_tables_well_formed_witness:
  "db_ok (exec_ops [OpAppend (js ''e9'') 12 (event_for live_worker ThreadProgress no_payload),
     OpFinalize (js ''m3'') (js ''e2'') (js ''e3'') 20 live_worker (js ''k1'') (OutcomeCompleted [BText []])] example_db)"
  by (rule thread_ops_keep_tables_well_formed [OF example_ok])

text \<open>
  C2. Every thread transaction changes the status of a run only along the table of
  \<open>run-state.ts\<close>; a run it creates is queued.
\<close>

theorem thread_ops_follow_run_state_table:
  assumes "db_ok d"
  shows "legal_change (statuses d) (statuses (exec_op op d))"
  using assms by (rule exec_op_legal)

theorem thread_ops_follow_run_state_table_witness:
  "legal_change (statuses example_db) (statuses (exec_op
     (OpFinalize (js ''m3'') (js ''e2'') (js ''e3'') 20 live_worker (js ''k1'') (OutcomeFailed (js ''x''))) example_db))"
  by (rule thread_ops_follow_run_state_table [OF example_ok])

lemma final_statuses: "s = Completed \<or> s = Cancelled \<Longrightarrow> \<not> canTransition s s'"
  by (auto simp: canTransition_def)

lemma exec_op_final:
  assumes "db_ok d" and "(i, s) \<in> set (statuses d)" and "s = Completed \<or> s = Cancelled"
  shows "(i, s) \<in> set (statuses (exec_op op d))"
  using legal_changeD [OF exec_op_legal [OF assms(1)] statuses_distinct [OF exec_op_ok [OF assms(1)]]
      statuses_distinct [OF assms(1)] assms(2)] final_statuses [OF assms(3)]
  by metis

text \<open>
  A completed or cancelled run stays so whatever thread transactions follow: it is never
  resumed, finished a second time, or deleted.
\<close>

theorem completed_and_cancelled_are_final:
  assumes "db_ok d" and "(i, s) \<in> set (statuses d)" and "s = Completed \<or> s = Cancelled"
  shows "(i, s) \<in> set (statuses (exec_ops ops d))"
  using assms(1,2)
proof (induction ops arbitrary: d)
  case (Cons op ops)
  from Cons.prems(1) have "db_ok (exec_op op d)" by (rule exec_op_ok)
  moreover have "(i, s) \<in> set (statuses (exec_op op d))"
    using Cons.prems assms(3) by (rule exec_op_final)
  ultimately show ?case by (simp add: Cons.IH)
qed simp

theorem completed_and_cancelled_are_final_witness:
  "(run_gone, Cancelled) \<in> set (statuses (exec_ops
     [OpPauseTakeover (js ''e2'') 12 live_worker (js ''help''),
      OpFinalize (js ''m3'') (js ''e2'') (js ''e3'') 20 (live_worker\<lparr>fc_runId := run_gone\<rparr>) (js ''k2'') (OutcomeFailed [])]
     example_db))"
  by (rule completed_and_cancelled_are_final [OF example_ok])
    (simp_all add: statuses_def example_statuses)

subsection \<open>Fencing\<close>

lemma update_runs_none:
  "\<forall>r \<in> set (db_runs d). \<not> p r \<Longrightarrow> update_runs p f d = Inr (0, d)"
  using count_where_pos [of p "db_runs d"] update_where_none [of p "db_runs d" f]
  by (simp add: update_runs_def)

lemma no_holder_no_commit:
  assumes "\<And>r. r \<in> set (db_runs d) \<Longrightarrow> \<not> fenced_run i r"
  shows "run_transaction (pauseRunForInput_tx mid e1 e2 now i bs) d = (Inr None, d)"
    and "run_transaction (pauseRunForTakeover_tx e1 now i reason) d = (Inr None, d)"
    and "run_transaction (finalizeRun_tx mid e1 e2 now i kid oc) d = (Inr None, d)"
proof -
  have up: "update_runs (fenced_run i) f d = Inr (0, d)" for f
    by (rule update_runs_none) (simp add: assms)
  have up': "update_runs (\<lambda>r. fenced_run i r \<and> r_taskId r = kid) f d = Inr (0, d)" for f
    by (rule update_runs_none) (simp add: assms)
  show "run_transaction (pauseRunForInput_tx mid e1 e2 now i bs) d = (Inr None, d)"
    and "run_transaction (pauseRunForTakeover_tx e1 now i reason) d = (Inr None, d)"
    and "run_transaction (finalizeRun_tx mid e1 e2 now i kid oc) d = (Inr None, d)"
    by (simp_all add: pauseRunForInput_tx_def pauseRunForTakeover_tx_def finalizeRun_tx_def
        tx_bind_def tx_return_def tx_get_def up up' split: sum.split)
qed



subsection \<open>Finalizing once\<close>

text \<open>Everything after the run update of a finalization keeps the run rows.\<close>

lemma runs_frame [tx_intros]:
  "tx_pres (\<lambda>d. db_runs d = v) (update_attempts pa fa)"
  "tx_pres (\<lambda>d. db_runs d = v) (update_tasks pk fk)"
  "tx_pres (\<lambda>d. db_runs d = v) (delete_events pe)"
  "tx_pres (\<lambda>d. db_runs d = v) (delete_leases pl)"
  "tx_pres (\<lambda>d. db_runs d = v) (update_computers pc fc)"
  "tx_pres (\<lambda>d. db_runs d = v) (touch_bot pb now)"
  "tx_pres (\<lambda>d. db_runs d = v) (touch_group gi now)"
  "tx_pres (\<lambda>d. db_runs d = v) (update_thread pt ft)"
  "tx_pres (\<lambda>d. db_runs d = v) (create_message m)"
  "tx_pres (\<lambda>d. db_runs d = v) (create_event e)"
  "tx_pres (\<lambda>d. db_runs d = v) (assertRunCanWriteHistory rid)"
  by (auto intro!: tx_presI simp: bulk_defs create_defs split: if_splits option.splits)

lemma runs_frame_append [tx_intros]:
  "tx_pres (\<lambda>d. db_runs d = v) (appendEventInTransaction eid now i)"
  "tx_pres (\<lambda>d. db_runs d = v) (createThreadMessageInTransaction mid now j)"
  unfolding appendEventInTransaction_def createThreadMessageInTransaction_def by (intro tx_intros)+

lemma runs_frame_finish [tx_intros]: "tx_pres (\<lambda>d. db_runs d = v) (finish_message mid eid now i oc)"
  unfolding finish_message_def by (cases oc) (auto intro!: tx_intros)

lemma runs_frame_rest [tx_intros]: "tx_pres (\<lambda>d. db_runs d = v) (finish_rest mid e1 e2 now i kid oc)"
  unfolding finish_rest_def delete_progress_def by (intro tx_intros)

lemma finalize_runs:
  assumes "finalizeRun_tx mid e1 e2 now i kid oc d = Inr (Some ev, d')"
  shows "db_runs d' = update_where (\<lambda>r. fenced_run i r \<and> r_taskId r = kid) (finish_run oc now) (db_runs d)"
    and "\<exists>r \<in> set (db_runs d). fenced_run i r \<and> r_taskId r = kid"
proof -
  let ?g = "\<lambda>r. fenced_run i r \<and> r_taskId r = kid"
  from assms obtain d1 where up: "update_runs ?g (finish_run oc now) d = Inr (1, d1)"
    and rest: "finish_rest mid e1 e2 now i kid oc d1 = Inr (Some ev, d')"
    unfolding finalizeRun_tx_def by (auto split: sum.splits if_splits)
  from tx_presD [OF runs_frame_rest _ rest] have "db_runs d' = db_runs d1" by blast
  with up show "db_runs d' = update_where ?g (finish_run oc now) (db_runs d)"
    by (auto simp: update_runs_def)
  show "\<exists>r \<in> set (db_runs d). ?g r"
    using up count_where_pos [of ?g "db_runs d"] by (simp add: update_runs_def)
qed

lemma finalize_success:
  assumes ok: "db_ok d" and fin: "finalizeRun_tx mid e1 e2 now i kid oc d = Inr (Some ev, d')"
  obtains r where "r \<in> set (db_runs d)" and "fenced_run i r" and "finish_run oc now r \<in> set (db_runs d')"
    and "\<And>q. q \<in> set (db_runs d') \<Longrightarrow> r_id q = fc_runId i \<Longrightarrow> q = finish_run oc now r"
proof -
  note runs = finalize_runs [OF fin]
  from runs(2) obtain r where r: "r \<in> set (db_runs d)" "fenced_run i r" "r_taskId r = kid" by blast
  have mem: "finish_run oc now r \<in> set (db_runs d')"
    using r by (auto simp: runs(1) set_update_where)
  have dist: "distinct (map r_id (db_runs d'))"
    using tx_presD [OF finalizeRun_pres ok fin] by (simp add: db_ok_def runs_ok_def)
  have "q = finish_run oc now r" if "q \<in> set (db_runs d')" "r_id q = fc_runId i" for q
    by (rule distinct_key_eq [OF dist that(1) mem]) (use that r in \<open>simp add: finish_run_def fenced_run_def\<close>)
  with r mem that show thesis by blast
qed

text \<open>
  A run is finalized at most once. When a finalization commits, the run has the outcome's
  status and no lease, and every later pause or finalization of the same run, by any worker
  with any fence, answers \<open>false\<close> and changes nothing.
\<close>

theorem finalize_exactly_once:
  assumes "db_ok d" and "finalizeRun_tx mid e1 e2 now i kid oc d = Inr (Some ev, d')"
    and "fc_runId j = fc_runId i"
  shows "(\<exists>r \<in> set (db_runs d'). r_id r = fc_runId i \<and> r_status r = outcome_status oc \<and>
            r_leaseOwner r = None \<and> r_leaseExpiresAt r = None) \<and>
         run_transaction (finalizeRun_tx mid' e1' e2' now' j kid' oc') d' = (Inr None, d') \<and>
         run_transaction (pauseRunForInput_tx mid' e1' e2' now' j bs) d' = (Inr None, d')"
proof -
  obtain r where r: "r \<in> set (db_runs d)" "fenced_run i r" "finish_run oc now r \<in> set (db_runs d')"
    and uniq: "\<And>q. q \<in> set (db_runs d') \<Longrightarrow> r_id q = fc_runId i \<Longrightarrow> q = finish_run oc now r"
    using finalize_success [OF assms(1,2)] by blast
  have "\<not> fenced_run j q" if "q \<in> set (db_runs d')" for q
    using uniq [OF that] assms(3)
    by (auto simp: fenced_run_def finish_run_def outcome_status_def split: run_outcome.splits)
  note idle = no_holder_no_commit [of d' j, OF this]
  have "r_id (finish_run oc now r) = fc_runId i \<and> r_status (finish_run oc now r) = outcome_status oc \<and>
      r_leaseOwner (finish_run oc now r) = None \<and> r_leaseExpiresAt (finish_run oc now r) = None"
    using r(2) by (simp add: finish_run_def fenced_run_def)
  then show ?thesis using r(3) idle by blast
qed

theorem finalize_exactly_once_witness:
  "\<exists>d'. snd (run_transaction (finalizeRun_tx (js ''m3'') (js ''e2'') (js ''e3'') 20 live_worker (js ''k1'')
          (OutcomeCompleted [BText []])) example_db) = d' \<and>
     run_transaction (finalizeRun_tx (js ''m4'') (js ''e4'') (js ''e5'') 30 live_worker (js ''k1'')
       (OutcomeFailed [])) d' = (Inr None, d')"
proof -
  obtain ev d' where fin: "finalizeRun_tx (js ''m3'') (js ''e2'') (js ''e3'') 20 live_worker (js ''k1'')
      (OutcomeCompleted [BText []]) example_db = Inr (Some ev, d')"
    using example_finalize by blast
  from finalize_exactly_once [OF example_ok fin refl, of "js ''m4''" "js ''e4''" "js ''e5''" 30 "js ''k1''" "OutcomeFailed []"]
  show ?thesis using fin by simp
qed

subsection \<open>Cancelled runs\<close>

lemma cancelled_cannot_write:
  "find_run rid d = Some r \<Longrightarrow> r_status r = Cancelled \<Longrightarrow> rid \<noteq> [] \<Longrightarrow>
   assertRunCanWriteHistory (Some rid) d = Inl RunHistoryWriteError"
  by (simp add: assertRunCanWriteHistory_def)

lemma find_run_threads [simp]: "find_run rid (d\<lparr>db_threads := ts\<rparr>) = find_run rid d"
  by (simp add: find_run_def)

text \<open>
  C4. A cancelled run writes no history: appending an event or creating a message in its name
  fails and rolls back, the sequence counter included, and finalizing it changes nothing.
\<close>

theorem cancelled_run_writes_no_history:
  assumes "find_run rid d = Some r" and "r_status r = Cancelled" and "rid \<noteq> []"
    and "find_thread (ae_threadId i) d \<noteq> None" and "ae_runId i = Some rid"
    and "find_thread (cm_threadId j) d \<noteq> None" and "cm_runId j = Some rid"
    and "fc_runId k = rid"
  shows "appendEvent eid now i d = (Inl RunHistoryWriteError, d) \<and>
         createThreadMessage mid now j d = (Inl RunHistoryWriteError, d) \<and>
         run_transaction (finalizeRun_tx mid e1 e2 now k kid oc) d = (Inr None, d)"
proof -
  have w: "assertRunCanWriteHistory (Some rid) s = Inl RunHistoryWriteError"
    if "find_run rid s = Some r" for s
    using cancelled_cannot_write [OF that assms(2,3)] .
  show ?thesis
    using assms(1,4-8)
    by (auto simp: appendEvent_def createThreadMessage_def appendEventInTransaction_def
        createThreadMessageInTransaction_def finalizeRun_tx_def update_thread_def tx_bind_def tx_then_def
        tx_get_def tx_return_def find_thread_def w split: option.splits)
qed

theorem cancelled_run_writes_no_history_witness:
  "appendEvent (js ''e9'') 12 (event_for (live_worker\<lparr>fc_runId := run_gone\<rparr>) ThreadProgress no_payload) example_db =
     (Inl RunHistoryWriteError, example_db)"
proof -
  have "find_run run_gone example_db = Some (example_run run_gone (js ''k2'') Cancelled)"
    by (simp add: find_run_def example_defs ids)
  from cancelled_run_writes_no_history [OF this,
      where i = "event_for (live_worker\<lparr>fc_runId := run_gone\<rparr>) ThreadProgress no_payload" and
        j = "bot_message (live_worker\<lparr>fc_runId := run_gone\<rparr>) []" and k = "live_worker\<lparr>fc_runId := run_gone\<rparr>"]
  show ?thesis
    by (simp add: event_for_def bot_message_def find_thread_def example_defs ids)
qed

subsection \<open>Clearing a thread\<close>

lemma run_ids_keep_runs:
  "cancel_runs rids kids now d = Inr (u, d') \<Longrightarrow> rids = map r_id (filter p (db_runs d)) \<Longrightarrow>
   distinct (map r_id (db_runs d)) \<Longrightarrow>
   db_runs d' = update_where p (cancel_run now) (db_runs d)"
proof (cases "rids = []")
  case True
  assume step: "cancel_runs rids kids now d = Inr (u, d')" and ids: "rids = map r_id (filter p (db_runs d))"
  from step True have "d' = d" by (simp add: cancel_runs_def)
  moreover have "update_where p (cancel_run now) (db_runs d) = db_runs d"
    using True ids by (intro update_where_none) (simp add: count_where_def)
  ultimately show ?thesis by simp
next
  case False
  assume step: "cancel_runs rids kids now d = Inr (u, d')" and ids: "rids = map r_id (filter p (db_runs d))"
    and dist: "distinct (map r_id (db_runs d))"
  let ?rest = "tx_then (update_attempts (\<lambda>a. a_runId a \<in> set rids \<and> a_status a = ARunning) (cancel_attempt now))
          (tx_then (update_tasks (\<lambda>k. k_id k \<in> set kids) (\<lambda>k. k\<lparr>k_status := Cancelled\<rparr>)) tx_skip)"
  from step False obtain n d1 where up: "update_runs (\<lambda>r. r_id r \<in> set rids) (cancel_run now) d = Inr (n, d1)"
    and rest: "?rest d1 = Inr (u, d')"
    unfolding cancel_runs_def by auto
  have "tx_pres (\<lambda>s. db_runs s = v) ?rest" for v by (intro tx_intros)
  from tx_presD [OF this _ rest] have "db_runs d' = db_runs d1" by blast
  also have "\<dots> = update_where (\<lambda>r. r_id r \<in> set (map r_id (filter p (db_runs d)))) (cancel_run now) (db_runs d)"
    using up ids by (auto simp: update_runs_def)
  also have "\<dots> = update_where p (cancel_run now) (db_runs d)"
    by (rule update_by_ids [OF dist])
  finally show ?thesis .
qed

lemma delete_messages_runs:
  assumes "delete_messages p d = Inr (u, d')"
  obtains f where "db_runs d' = map (\<lambda>q. if f q then q\<lparr>r_sourceMessageId := None\<rparr> else q) (db_runs d)"
proof -
  from assms have "db_runs d' = map (\<lambda>q. if \<exists>m \<in> set (db_messages d). p m \<and> r_sourceMessageId q = Some (m_id m)
      then q\<lparr>r_sourceMessageId := None\<rparr> else q) (db_runs d)"
    by (auto simp: delete_messages_def Let_def)
  then show thesis by (rule that)
qed

lemma clear_rows_effect:
  assumes step: "clear_rows rids kids now tid d = Inr (u, d')"
    and ids: "rids = map r_id (filter p (db_runs d))" and dist: "distinct (map r_id (db_runs d))"
  shows "\<forall>r' \<in> set (db_runs d'). \<exists>r \<in> set (update_where p (cancel_run now) (db_runs d)).
           r\<lparr>r_sourceMessageId := None\<rparr> = r'\<lparr>r_sourceMessageId := None\<rparr>"
    and "db_threads d' = db_threads d"
    and "db_events d' = delete_where (\<lambda>e. e_threadId e = tid) (db_events d)"
    and "\<forall>m \<in> set (db_messages d'). m_threadId m \<noteq> tid"
proof -
  from step obtain d1 where c: "cancel_runs rids kids now d = Inr ((), d1)"
    and r: "tx_then (delete_leases (\<lambda>l. l_runId l \<in> set rids))
     (tx_then (update_computers (\<lambda>c. \<exists>r \<in> set rids. c_executionRunId c = Some r) clear_computer)
     (tx_then (delete_messages (\<lambda>m. m_threadId m = tid))
      (delete_events (\<lambda>e. e_threadId e = tid)))) d1 = Inr (u, d')"
    unfolding clear_rows_def by auto
  have runs1: "db_runs d1 = update_where p (cancel_run now) (db_runs d)"
    by (rule run_ids_keep_runs [OF c ids dist])
  from r obtain d2 d3 v where del: "delete_messages (\<lambda>m. m_threadId m = tid) d2 = Inr (v, d3)"
    and same: "db_runs d2 = db_runs d1" "db_runs d' = db_runs d3"
    by (auto simp: delete_leases_def update_computers_def delete_events_def)
  obtain f where "db_runs d' = map (\<lambda>q. if f q then q\<lparr>r_sourceMessageId := None\<rparr> else q) (db_runs d1)"
    using delete_messages_runs [OF del] same by metis
  then show "\<forall>r' \<in> set (db_runs d'). \<exists>q \<in> set (update_where p (cancel_run now) (db_runs d)).
      q\<lparr>r_sourceMessageId := None\<rparr> = r'\<lparr>r_sourceMessageId := None\<rparr>"
    unfolding runs1 by auto
  show "db_threads d' = db_threads d" by (rule clear_rows_threads [OF step])
  have ev: "tx_pres (\<lambda>s. db_events s = v \<and> db_messages s = w) (cancel_runs rids kids now)" for v w
    unfolding cancel_runs_def
    by (intro tx_intros) (auto intro!: tx_presI simp: bulk_defs)
  from tx_presD [OF ev _ c] have "db_events d1 = db_events d" by blast
  with r show "db_events d' = delete_where (\<lambda>e. e_threadId e = tid) (db_events d)"
    and "\<forall>m \<in> set (db_messages d'). m_threadId m \<noteq> tid"
    by (auto simp: bulk_defs Let_def)
qed

lemma same_but_source:
  "r\<lparr>r_sourceMessageId := None\<rparr> = q\<lparr>r_sourceMessageId := None\<rparr> \<Longrightarrow> clear_active i r = clear_active i q"
proof -
  assume eq: "r\<lparr>r_sourceMessageId := None\<rparr> = q\<lparr>r_sourceMessageId := None\<rparr>"
  have "clear_active i (x\<lparr>r_sourceMessageId := None\<rparr>) = clear_active i x" for x
    by (simp add: clear_active_def)
  from this [of r] this [of q] eq show ?thesis by simp
qed

lemma cancelled_inactive: "\<not> clear_active i (cancel_run now r)"
  by (simp add: clear_active_def cancel_run_def)

lemma cancelled_not_active:
  assumes "r \<in> set (update_where (clear_active i) (cancel_run now) rs)"
  shows "\<not> clear_active i r"
proof -
  from assms obtain q where q: "r = (if clear_active i q then cancel_run now q else q)"
    unfolding set_update_where by blast
  show ?thesis
  proof (cases "clear_active i q")
    case True
    with q have "r = cancel_run now q" by metis
    then show ?thesis using cancelled_inactive by blast
  next
    case False
    with q show ?thesis by metis
  qed
qed

text \<open>The steps of a clear, each with the state it leaves.\<close>

lemma clearThread_run:
  assumes "clearThread_tx eid now i d = Inr (x, d')"
  obtains t d1 d2 d3 d4 where
    "t \<in> set (db_threads d)" and "clear_target i t" and
    "d1 = d\<lparr>db_threads := update_where (clear_target i) (\<lambda>t. t\<lparr>t_unread := False\<rparr>) (db_threads d)\<rparr>" and
    "clear_rows (map r_id (filter (clear_active i) (db_runs d1)))
       (map r_taskId (filter (clear_active i) (db_runs d1))) now (ct_threadId i) d1 = Inr ((), d2)" and
    "d3 = d2\<lparr>db_threads := update_where (\<lambda>t. t_id t = ct_threadId i)
       (close_history (t\<lparr>t_unread := False\<rparr>)) (db_threads d2)\<rparr>" and
    "db_threads d4 = db_threads d3" and "db_events d4 = db_events d3" and
    "db_messages d4 = db_messages d3" and "db_runs d4 = db_runs d3" and
    "appendEventInTransaction eid now
       \<lparr>ae_workspaceId = ct_workspaceId i, ae_threadId = ct_threadId i,
        ae_botId = ct_botId i, ae_type = ThreadCleared, ae_payload = no_payload,
        ae_runId = None\<rparr> d4 = Inr (cr_event x, d')"
proof -
  from assms obtain thread d1 d2 d3 d4 y u where
    s1: "update_thread (clear_target i) (\<lambda>t. t\<lparr>t_unread := False\<rparr>) d = Inr (thread, d1)" and
    s2: "clear_rows (map r_id (filter (clear_active i) (db_runs d1)))
           (map r_taskId (filter (clear_active i) (db_runs d1))) now (ct_threadId i) d1 = Inr ((), d2)" and
    s3: "update_thread (\<lambda>t. t_id t = ct_threadId i) (close_history thread) d2 = Inr (y, d3)" and
    s4: "(if truthy (ct_groupId i) then touch_group (the (ct_groupId i)) now
          else touch_bot (\<lambda>b. b_id b = ct_botId i \<and> b_workspaceId b = ct_workspaceId i) now) d3 = Inr (u, d4)" and
    s5: "appendEventInTransaction eid now
       \<lparr>ae_workspaceId = ct_workspaceId i, ae_threadId = ct_threadId i,
        ae_botId = ct_botId i, ae_type = ThreadCleared, ae_payload = no_payload,
        ae_runId = None\<rparr> d4 = Inr (cr_event x, d')"
    unfolding clearThread_tx_def by auto
  from s1 obtain t where t: "t \<in> set (db_threads d)" "clear_target i t" "thread = t\<lparr>t_unread := False\<rparr>"
    and d1: "d1 = d\<lparr>db_threads := update_where (clear_target i) (\<lambda>t. t\<lparr>t_unread := False\<rparr>) (db_threads d)\<rparr>"
    by (auto simp: update_thread_def dest: find_SomeD split: option.splits)
  from s3 t(3) have d3: "d3 = d2\<lparr>db_threads := update_where (\<lambda>t. t_id t = ct_threadId i)
       (close_history (t\<lparr>t_unread := False\<rparr>)) (db_threads d2)\<rparr>"
    by (auto simp: update_thread_def split: option.splits)
  from s4 have "db_threads d4 = db_threads d3" "db_events d4 = db_events d3"
    "db_messages d4 = db_messages d3" "db_runs d4 = db_runs d3"
    by (auto simp: touch_group_def touch_bot_def split: if_splits)
  with t(1,2) d1 s2 d3 s5 that show thesis by blast
qed

lemma close_history_seqs [simp]:
  "t_id (close_history th t) = t_id t" "t_nextEventSeq (close_history th t) = t_nextEventSeq t"
  "t_nextMessageSeq (close_history th t) = t_nextMessageSeq t"
  by (simp_all add: close_history_def)


definition example_clear :: clear_thread_input where
  "example_clear = \<lparr>ct_workspaceId = ws1, ct_threadId = th1, ct_botId = bot1, ct_groupId = None\<rparr>"

lemma example_clear_commits:
  "\<exists>x d'. clearThread_tx (js ''e9'') 12 example_clear example_db = Inr (x, d')"
  by (simp add: clearThread_tx_def example_clear_def clear_rows_def cancel_runs_def clear_target_def clear_active_def
      update_thread_def bulk_defs count_where_def Let_def appendEventInTransaction_def create_event_def
      example_defs ids)


end
