(* ===== verification/EventFollow.thy ===== *)
theory EventFollow
  imports ThreadClaims
begin

text \<open>
  Reading a thread's events: \<open>eventsAfter\<close>, the batched catch-up loop and
  \<open>followThreadEvents\<close> of \<open>packages/db/src/events.ts\<close>. The follower is a generator that
  alternates reads of the database with yields, so its output is determined by the snapshots
  its reads see: \<open>follow_reads\<close> is one run over the snapshots of its reads, up to the abort.
  Whether a read follows another within a drain or after a wait of the \<open>ChangeLatch\<close> changes
  only when it happens.
\<close>

definition EVENT_BATCH_SIZE :: nat where
  "EVENT_BATCH_SIZE = 200"

definition eventsAfter :: "db \<Rightarrow> id \<Rightarrow> int \<Rightarrow> nat option \<Rightarrow> event_row list" where
  "eventsAfter d threadId cursor limit =
     (let events = sort_key e_seq (filter (\<lambda>e. e_threadId e = threadId \<and> cursor < e_seq e) (db_events d))
      in case limit of None \<Rightarrow> events | Some n \<Rightarrow> if n = 0 then events else take n events)"

definition next_seq :: "int \<Rightarrow> event_row list \<Rightarrow> int" where
  "next_seq seq events = (if events = [] then seq else e_seq (last events))"

text \<open>The inner loop on one snapshot: batches until a short one.\<close>

function catch_up :: "db \<Rightarrow> id \<Rightarrow> int \<Rightarrow> event_row list" where
  "catch_up d threadId seq =
     (let events = eventsAfter d threadId seq (Some EVENT_BATCH_SIZE) in
      if length events = EVENT_BATCH_SIZE
      then events @ catch_up d threadId (next_seq seq events)
      else events)"
  by pat_completeness auto

fun follow_reads :: "id \<Rightarrow> int \<Rightarrow> db list \<Rightarrow> event_row list" where
  "follow_reads threadId seq [] = []"
| "follow_reads threadId seq (d # ds) =
     (let events = eventsAfter d threadId seq (Some EVENT_BATCH_SIZE)
      in events @ follow_reads threadId (next_seq seq events) ds)"

lemma set_eventsAfter_all:
  "set (eventsAfter d tid c None) = {e \<in> set (db_events d). e_threadId e = tid \<and> c < e_seq e}"
  by (auto simp: eventsAfter_def)

lemma eventsAfter_take: "eventsAfter d tid c (Some EVENT_BATCH_SIZE) = take EVENT_BATCH_SIZE (eventsAfter d tid c None)"
  by (simp add: eventsAfter_def EVENT_BATCH_SIZE_def Let_def)

lemma eventsAfter_above: "e \<in> set (eventsAfter d tid c l) \<Longrightarrow> e \<in> set (db_events d) \<and> e_threadId e = tid \<and> c < e_seq e"
  by (auto simp: eventsAfter_def Let_def split: option.splits if_splits dest: in_set_takeD)

text \<open>The events of a thread have distinct numbers, so the query answers them strictly ascending.\<close>

lemma thread_events_strict:
  assumes "db_ok d"
  shows "sorted_wrt (\<lambda>a b. e_seq a < e_seq b)
    (filter (\<lambda>e. c < e_seq e) (filter (\<lambda>e. e_threadId e = tid) (db_events d)))"
proof (rule sorted_wrt_filter)
  show "sorted_wrt (\<lambda>a b. e_seq a < e_seq b) (filter (\<lambda>e. e_threadId e = tid) (db_events d))"
    using assms unfolding db_ok_def events_ok_def by blast
qed

lemma eventsAfter_filter:
  assumes "db_ok d"
  shows "eventsAfter d tid c None = filter (\<lambda>e. e_threadId e = tid \<and> c < e_seq e) (db_events d)"
proof -
  have "sorted (map e_seq (filter (\<lambda>e. c < e_seq e) (filter (\<lambda>e. e_threadId e = tid) (db_events d))))"
    unfolding sorted_map by (rule sorted_wrt_mono_rel [OF _ thread_events_strict [OF assms]]) simp
  then show ?thesis by (simp add: eventsAfter_def sort_key_id_if_sorted conj_commute)
qed

lemma eventsAfter_strict:
  assumes "db_ok d"
  shows "sorted_wrt (\<lambda>a b. e_seq a < e_seq b) (eventsAfter d tid c None)"
  using thread_events_strict [OF assms, of c tid]
  by (simp add: eventsAfter_filter [OF assms] conj_commute)

lemma eventsAfter_split:
  "eventsAfter d tid c None = sort_key e_seq (filter (\<lambda>e. e_threadId e = tid \<and> c < e_seq e) (db_events d))"
  by (simp add: eventsAfter_def)

termination catch_up
proof (relation "measure (\<lambda>(d, tid, seq). length (eventsAfter d tid seq None))", simp)
  fix d tid seq events
  assume ev: "events = eventsAfter d tid seq (Some EVENT_BATCH_SIZE)" and full: "length events = EVENT_BATCH_SIZE"
  from full have ne: "events \<noteq> []" by (auto simp: EVENT_BATCH_SIZE_def)
  then have "last events \<in> set events" by simp
  with eventsAfter_above have l: "last events \<in> set (db_events d)" "e_threadId (last events) = tid" "seq < e_seq (last events)"
    unfolding ev by blast+
  have "length (filter (\<lambda>e. e_threadId e = tid \<and> e_seq (last events) < e_seq e) (db_events d)) <
      length (filter (\<lambda>e. e_threadId e = tid \<and> seq < e_seq e) (db_events d))"
  proof -
    have eq: "filter (\<lambda>e. e_threadId e = tid \<and> e_seq (last events) < e_seq e) (db_events d) =
      filter (\<lambda>e. e_seq (last events) < e_seq e) (filter (\<lambda>e. e_threadId e = tid \<and> seq < e_seq e) (db_events d))"
      using l(3) by (auto intro!: filter_cong)
    show ?thesis unfolding eq
      by (rule length_filter_less [where x = "last events"]) (use l in auto)
  qed
  with ne show "((d, tid, next_seq seq events), d, tid, seq) \<in> measure (\<lambda>(d, tid, seq). length (eventsAfter d tid seq None))"
    by (simp add: eventsAfter_split next_seq_def)
qed

declare catch_up.simps [simp del]

text \<open>Cutting a strictly ascending list of events at one of them.\<close>

lemma filter_above_take:
  assumes "sorted_wrt (\<lambda>a b. e_seq a < e_seq b) es" and "take n es \<noteq> []"
  shows "filter (\<lambda>e. e_seq (last (take n es)) < e_seq e) es = drop n es"
proof -
  have "sorted_wrt (\<lambda>a b. e_seq a < e_seq b) (take n es @ drop n es)" using assms(1) by simp
  then have cross: "\<And>a b. a \<in> set (take n es) \<Longrightarrow> b \<in> set (drop n es) \<Longrightarrow> e_seq a < e_seq b"
    and tk: "sorted_wrt (\<lambda>a b. e_seq a < e_seq b) (take n es)"
    unfolding sorted_wrt_append by blast+
  have le: "e_seq a \<le> e_seq (last (take n es))" if "a \<in> set (take n es)" for a
  proof -
    from assms(2) have eq: "take n es = butlast (take n es) @ [last (take n es)]" by simp
    with tk have "\<forall>x \<in> set (butlast (take n es)). e_seq x < e_seq (last (take n es))"
      by (metis list.set_intros(1) sorted_wrt_append)
    moreover from that eq have "a \<in> set (butlast (take n es)) \<or> a = last (take n es)"
      by (metis Un_iff empty_iff insert_iff list.set(1) list.set(2) set_append)
    ultimately show ?thesis by auto
  qed
  have "filter (\<lambda>e. e_seq (last (take n es)) < e_seq e) (take n es @ drop n es) = drop n es"
    unfolding filter_append using le cross assms(2)
    by (auto simp: filter_empty_conv filter_id_conv not_less)
  then show ?thesis by simp
qed

lemma eventsAfter_batch:
  assumes "db_ok d" and "eventsAfter d tid c (Some EVENT_BATCH_SIZE) \<noteq> []"
  shows "eventsAfter d tid (next_seq c (eventsAfter d tid c (Some EVENT_BATCH_SIZE))) None =
         drop EVENT_BATCH_SIZE (eventsAfter d tid c None)"
proof -
  let ?es = "eventsAfter d tid c None" and ?b = "eventsAfter d tid c (Some EVENT_BATCH_SIZE)"
  from assms(2) have "last ?b \<in> set ?b" by simp
  then have "c < e_seq (last ?b)" using eventsAfter_above by blast
  then have "eventsAfter d tid (e_seq (last ?b)) None = filter (\<lambda>e. e_seq (last ?b) < e_seq e) ?es"
    unfolding eventsAfter_filter [OF assms(1)] by (auto intro!: filter_cong)
  also have "\<dots> = drop EVENT_BATCH_SIZE ?es"
    unfolding eventsAfter_take
    by (rule filter_above_take [OF eventsAfter_strict [OF assms(1)]]) (use assms(2) in \<open>simp add: eventsAfter_take\<close>)
  finally show ?thesis using assms(2) by (simp add: next_seq_def)
qed

text \<open>
  Catching up in batches of 200 ends, and delivers exactly what one unlimited query
  would: every later event of the thread, in the order of its sequence number.
\<close>

theorem catch_up_is_unlimited_query:
  assumes "db_ok d"
  shows "catch_up d tid c = eventsAfter d tid c None"
proof (induction "length (eventsAfter d tid c None)" arbitrary: c rule: less_induct)
  case less
  let ?b = "eventsAfter d tid c (Some EVENT_BATCH_SIZE)"
  show ?case
  proof (cases "length ?b = EVENT_BATCH_SIZE")
    case True
    then have ne: "?b \<noteq> []" by (auto simp: EVENT_BATCH_SIZE_def)
    note rest = eventsAfter_batch [OF assms ne]
    have "length (eventsAfter d tid (next_seq c ?b) None) < length (eventsAfter d tid c None)"
      unfolding rest using ne unfolding eventsAfter_take
        by (cases "eventsAfter d tid c None") (simp_all add: EVENT_BATCH_SIZE_def)
    from less [OF this] have "catch_up d tid c = ?b @ drop EVENT_BATCH_SIZE (eventsAfter d tid c None)"
      using True by (subst catch_up.simps) (simp add: Let_def rest)
    then show ?thesis by (simp add: eventsAfter_take)
  next
    case False
    then show ?thesis by (subst catch_up.simps) (auto simp: eventsAfter_take Let_def)
  qed
qed

theorem catch_up_is_unlimited_query_witness:
  "map e_seq (catch_up example_db th1 0) = [3]"
  unfolding catch_up_is_unlimited_query [OF example_ok]
  by (simp add: eventsAfter_def example_defs ids)

subsection \<open>Following a thread while it changes\<close>

text \<open>
  How the events of a later database relate to an earlier one: an event is old, or its number
  is not below the counter its thread had; counters never go back.
\<close>

definition advance :: "db \<Rightarrow> db \<Rightarrow> bool" where
  "advance d d' \<longleftrightarrow>
     (\<forall>t' \<in> set (db_threads d'). \<exists>t \<in> set (db_threads d). t_id t = t_id t' \<and> t_nextEventSeq t \<le> t_nextEventSeq t') \<and>
     (\<forall>e \<in> set (db_events d'). e \<in> set (db_events d) \<or>
        (\<exists>t \<in> set (db_threads d). t_id t = e_threadId e \<and> t_nextEventSeq t \<le> e_seq e))"

lemma advance_refl: "advance d d"
  by (auto simp: advance_def)

lemma advance_same:
  "advance d s \<Longrightarrow> db_threads s' = db_threads s \<Longrightarrow> set (db_events s') \<subseteq> set (db_events s) \<Longrightarrow> advance d s'"
  by (auto simp: advance_def)

lemma advance_counter:
  assumes "advance a b" and "t \<in> set (db_threads b)"
  obtains u where "u \<in> set (db_threads a)" "t_id u = t_id t" "t_nextEventSeq u \<le> t_nextEventSeq t"
  using assms unfolding advance_def by blast

lemma advance_trans:
  assumes "advance a b" and "advance b c"
  shows "advance a c"
  unfolding advance_def
proof (intro conjI ballI)
  fix t assume "t \<in> set (db_threads c)"
  then obtain u where u: "u \<in> set (db_threads b)" "t_id u = t_id t" "t_nextEventSeq u \<le> t_nextEventSeq t"
    by (rule advance_counter [OF assms(2)])
  from u(1) obtain v where "v \<in> set (db_threads a)" "t_id v = t_id u" "t_nextEventSeq v \<le> t_nextEventSeq u"
    by (rule advance_counter [OF assms(1)])
  with u show "\<exists>v \<in> set (db_threads a). t_id v = t_id t \<and> t_nextEventSeq v \<le> t_nextEventSeq t"
    by (metis order_trans)
next
  fix e assume "e \<in> set (db_events c)"
  with assms(2) consider "e \<in> set (db_events b)"
    | u where "u \<in> set (db_threads b)" "t_id u = e_threadId e" "t_nextEventSeq u \<le> e_seq e"
    unfolding advance_def by blast
  then show "e \<in> set (db_events a) \<or>
      (\<exists>t \<in> set (db_threads a). t_id t = e_threadId e \<and> t_nextEventSeq t \<le> e_seq e)"
  proof cases
    case 1
    with assms(1) show ?thesis unfolding advance_def by blast
  next
    case 2
    from advance_counter [OF assms(1) 2(1)] 2 show ?thesis by (metis order_trans)
  qed
qed

lemma advance_frame [tx_intros]:
  "tx_pres (advance d0) (update_runs pr fr)" "tx_pres (advance d0) (update_attempts pa fa)"
  "tx_pres (advance d0) (update_tasks pk fk)" "tx_pres (advance d0) (update_effects px fx)"
  "tx_pres (advance d0) (update_effect px fx)" "tx_pres (advance d0) (update_computers pc fc)"
  "tx_pres (advance d0) (update_message pm fm)" "tx_pres (advance d0) (delete_leases pl)"
  "tx_pres (advance d0) (delete_messages pm)" "tx_pres (advance d0) (delete_events pe)"
  "tx_pres (advance d0) (touch_bot pb now)" "tx_pres (advance d0) (touch_group gi now)"
  "tx_pres (advance d0) (create_message m)" "tx_pres (advance d0) (create_task k)"
  "tx_pres (advance d0) (create_run r)" "tx_pres (advance d0) (create_secret se)"
  "tx_pres (advance d0) (upsert_rule u)" "tx_pres (advance d0) (assertRunCanWriteHistory rid)"
  by (auto intro!: tx_presI elim!: advance_same simp: bulk_defs create_defs upsert_rule_def Let_def
      split: if_splits)

lemma advance_threads:
  assumes "advance d0 s" and "\<And>t. t_id (f t) = t_id t" and "\<And>t. t_nextEventSeq t \<le> t_nextEventSeq (f t)"
  shows "advance d0 (s\<lparr>db_threads := update_where p f (db_threads s)\<rparr>)"
  using assms unfolding advance_def by (auto simp: set_update_where) (meson order_trans)+

lemma advance_update_thread:
  assumes "\<And>t. t_id (f t) = t_id t" and "\<And>t. t_nextEventSeq t \<le> t_nextEventSeq (f t)"
  shows "tx_pres (advance d0) (update_thread p f)"
  by (rule tx_presI) (auto simp: update_thread_def advance_threads assms split: option.splits)

lemma advance_create_message [tx_intros]:
  "tx_pres (advance d0) (createThreadMessageInTransaction mid now i)"
  unfolding createThreadMessageInTransaction_def
  by (intro tx_intros advance_update_thread) simp_all

lemma advance_append [tx_intros]: "tx_pres (advance d0) (appendEventInTransaction eid now i)"
proof (rule tx_presI)
  fix s e s'
  assume adv: "advance d0 s" and step: "appendEventInTransaction eid now i s = Inr (e, s')"
  from step obtain t where t: "t \<in> set (db_threads s)" "t_id t = ae_threadId i"
    and e: "e_threadId e = ae_threadId i" "e_seq e = t_nextEventSeq t"
    and s': "s' = s\<lparr>db_threads := update_where (\<lambda>t. t_id t = ae_threadId i)
                  (\<lambda>t. t\<lparr>t_nextEventSeq := t_nextEventSeq t + 1\<rparr>) (db_threads s),
               db_events := db_events s @ [e]\<rparr>"
    by (elim appendEvent_run) (auto dest: find_thread_SomeD)
  have "advance d0 (s\<lparr>db_threads := update_where (\<lambda>t. t_id t = ae_threadId i)
                  (\<lambda>t. t\<lparr>t_nextEventSeq := t_nextEventSeq t + 1\<rparr>) (db_threads s)\<rparr>)"
    by (rule advance_threads [OF adv]) simp_all
  moreover from adv t e obtain t0 where "t0 \<in> set (db_threads d0)" "t_id t0 = e_threadId e" "t_nextEventSeq t0 \<le> e_seq e"
    unfolding advance_def by metis
  ultimately show "advance d0 s'" unfolding advance_def s' by auto
qed

lemma advance_clear [tx_intros]: "tx_pres (advance d0) (clearThread_tx eid now i)"
  unfolding clearThread_tx_def clear_rows_def cancel_runs_def
  by (intro tx_intros advance_update_thread) simp_all

lemma advance_send [tx_intros]: "tx_pres (advance d0) (sendUserMessage_tx ids now i)"
  unfolding sendUserMessage_tx_def send_start_run_def by (intro tx_intros)

lemma advance_answer_commit [tx_intros]: "tx_pres (advance d0) (answer_commit eid now w i run msg ap sec)"
  unfolding answer_commit_def answer_approval_def answer_secret_def answer_prompt_def
    store_run_secret_def Let_def by (intro tx_intros)

lemma advance_answer [tx_intros]: "tx_pres (advance d0) (answerRunInput_tx eid now w i)"
  unfolding answerRunInput_tx_def Let_def by (intro tx_intros)

lemma advance_pauses [tx_intros]:
  "tx_pres (advance d0) (pauseRunForInput_tx mid e1 e2 now i bs)"
  "tx_pres (advance d0) (pauseRunForTakeover_tx eid now i reason)"
  unfolding pauseRunForInput_tx_def pauseRunForTakeover_tx_def delete_progress_def by (intro tx_intros)+

lemma advance_release [tx_intros]: "tx_pres (advance d0) (finalizeComputerControlRelease_tx eid now r)"
  unfolding finalizeComputerControlRelease_tx_def release_resume_def release_event_def by (intro tx_intros)

lemma advance_finish_message [tx_intros]: "tx_pres (advance d0) (finish_message mid eid now i oc)"
  unfolding finish_message_def by (cases oc) (auto intro!: tx_intros)

lemma advance_finalize [tx_intros]: "tx_pres (advance d0) (finalizeRun_tx mid e1 e2 now i kid oc)"
  unfolding finalizeRun_tx_def finish_rest_def delete_progress_def by (intro tx_intros)

lemma advance_run: "tx_pres (advance d) m \<Longrightarrow> advance d (snd (run_transaction m d))"
  by (rule run_transaction_pres [where I = "advance d"]) (simp_all add: advance_refl)

lemma exec_op_advance: "advance d (exec_op op d)"
  by (cases op)
    (simp_all del: run_transaction.simps add: appendEvent_def createThreadMessage_def send_snd answer_snd
      advance_refl advance_run advance_append advance_create_message
      advance_clear advance_send advance_answer advance_pauses advance_release advance_finalize)

lemma exec_ops_advance: "advance d (exec_ops ops d)"
  by (induction ops arbitrary: d) (auto simp: advance_refl intro: advance_trans exec_op_advance)

text \<open>The snapshots of the reads: before each one, some transactions commit.\<close>

fun exec_trace :: "thread_op list list \<Rightarrow> db \<Rightarrow> db list" where
  "exec_trace [] d = []"
| "exec_trace (ops # rest) d = exec_ops ops d # exec_trace rest (exec_ops ops d)"

lemma advance_trace: "advance d (last (d # exec_trace opss d))"
proof (induction opss arbitrary: d)
  case (Cons ops opss)
  have "advance (exec_ops ops d) (last (exec_ops ops d # exec_trace opss (exec_ops ops d)))" by (rule Cons.IH)
  with exec_ops_advance [of d ops] have "advance d (last (exec_ops ops d # exec_trace opss (exec_ops ops d)))"
    by (rule advance_trans)
  then show ?case by simp
qed (simp add: advance_refl)

lemma exec_ops_ok: "db_ok d \<Longrightarrow> db_ok (exec_ops ops d)"
  by (induction ops arbitrary: d) (simp_all add: exec_op_ok)

lemma batch_sorted:
  assumes "db_ok d"
  shows "sorted_wrt (\<lambda>a b. e_seq a < e_seq b) (eventsAfter d tid c (Some EVENT_BATCH_SIZE))"
  unfolding eventsAfter_take using eventsAfter_strict [OF assms] by (rule sorted_wrt_take)

text \<open>A batch misses nothing up to its last event.\<close>

lemma batch_complete:
  assumes ok: "db_ok d" and e: "e \<in> set (db_events d)" "e_threadId e = tid" "c < e_seq e"
    and le: "e_seq e \<le> next_seq c (eventsAfter d tid c (Some EVENT_BATCH_SIZE))"
  shows "e \<in> set (eventsAfter d tid c (Some EVENT_BATCH_SIZE))"
proof -
  let ?b = "eventsAfter d tid c (Some EVENT_BATCH_SIZE)"
  from le e(3) have ne: "?b \<noteq> []" by (auto simp: next_seq_def)
  have "e \<in> set (eventsAfter d tid c None)" using e by (simp add: set_eventsAfter_all)
  then have "e \<in> set ?b \<or> e \<in> set (drop EVENT_BATCH_SIZE (eventsAfter d tid c None))"
    unfolding eventsAfter_take by (metis Un_iff append_take_drop_id set_append)
  moreover have "e \<notin> set (drop EVENT_BATCH_SIZE (eventsAfter d tid c None))"
    unfolding eventsAfter_batch [OF ok ne, symmetric] set_eventsAfter_all using le by simp
  ultimately show ?thesis by blast
qed

lemma next_seq_append: "next_seq c (es @ fs) = next_seq (next_seq c es) fs"
  by (simp add: next_seq_def)

lemma next_seq_ge: "\<forall>e \<in> set es. c < e_seq e \<Longrightarrow> c \<le> next_seq c es"
  by (simp add: next_seq_def less_imp_le)

lemma sorted_last:
  "sorted_wrt (\<lambda>a b. e_seq a < e_seq b) es \<Longrightarrow> a \<in> set es \<Longrightarrow> e_seq a \<le> next_seq c es"
  by (induction es arbitrary: a) (auto simp: next_seq_def intro: less_imp_le)

lemma below_counter:
  assumes "db_ok d" and "q \<in> set (db_events d)" and "t \<in> set (db_threads d)" and "t_id t = e_threadId q"
  shows "e_seq q < t_nextEventSeq t"
proof -
  from assms(1,2) obtain u where u: "u \<in> set (db_threads d)" "t_id u = e_threadId q" "e_seq q < t_nextEventSeq u"
    unfolding db_ok_def events_ok_def by blast
  moreover have "distinct (map t_id (db_threads d))" using assms(1) by (simp add: db_ok_def threads_ok_def)
  ultimately have "u = t" using assms(3,4) distinct_key_eq [of t_id "db_threads d" u t] by simp
  with u(3) show ?thesis by simp
qed

lemma follow_above:
  "e \<in> set (follow_reads tid c (exec_trace opss d)) \<Longrightarrow> c < e_seq e \<and> e_threadId e = tid"
proof (induction opss arbitrary: c d)
  case (Cons ops opss)
  let ?b = "eventsAfter (exec_ops ops d) tid c (Some EVENT_BATCH_SIZE)"
  have "c \<le> next_seq c ?b" using eventsAfter_above by (blast intro: next_seq_ge)
  with Cons.prems Cons.IH show ?case
    by (auto simp: Let_def dest: eventsAfter_above) (meson order_le_less_trans)
qed simp

lemma follow_sorted:
  "db_ok d \<Longrightarrow> sorted_wrt (\<lambda>a b. e_seq a < e_seq b) (follow_reads tid c (exec_trace opss d))"
proof (induction opss arbitrary: c d)
  case (Cons ops opss)
  let ?d = "exec_ops ops d"
  let ?b = "eventsAfter ?d tid c (Some EVENT_BATCH_SIZE)"
  from Cons.prems have ok: "db_ok ?d" by (rule exec_ops_ok)
  have "e_seq a < e_seq b" if "a \<in> set ?b" "b \<in> set (follow_reads tid (next_seq c ?b) (exec_trace opss ?d))" for a b
    using sorted_last [OF batch_sorted [OF ok] that(1), of c] follow_above [OF that(2)] by simp
  with Cons.IH [OF ok] batch_sorted [OF ok] show ?case
    by (simp add: Let_def sorted_wrt_append)
qed simp

lemma follow_no_gap:
  assumes "db_ok d" and "e \<in> set (db_events (last (d # exec_trace opss d)))" and "e_threadId e = tid"
    and "c < e_seq e" and "e_seq e \<le> next_seq c (follow_reads tid c (exec_trace opss d))"
  shows "e \<in> set (follow_reads tid c (exec_trace opss d))"
  using assms
proof (induction opss arbitrary: c d)
  case Nil
  then show ?case by (simp add: next_seq_def)
next
  case (Cons ops opss)
  let ?d = "exec_ops ops d"
  let ?b = "eventsAfter ?d tid c (Some EVENT_BATCH_SIZE)"
  let ?rest = "follow_reads tid (next_seq c ?b) (exec_trace opss ?d)"
  have ok: "db_ok ?d" using Cons.prems(1) by (rule exec_ops_ok)
  have fin: "e \<in> set (db_events (last (?d # exec_trace opss ?d)))" using Cons.prems(2) by simp
  show ?case
  proof (cases "next_seq c ?b < e_seq e")
    case True
    with Cons.IH [OF ok fin Cons.prems(3)] Cons.prems(5) show ?thesis
      by (simp add: Let_def next_seq_append)
  next
    case False
    have "e \<in> set (db_events ?d)"
    proof (rule ccontr)
      assume "e \<notin> set (db_events ?d)"
      with advance_trace [of ?d opss] fin obtain t where t: "t \<in> set (db_threads ?d)"
        "t_id t = e_threadId e" "t_nextEventSeq t \<le> e_seq e" unfolding advance_def by blast
      from False Cons.prems(4) have ne: "?b \<noteq> []" by (auto simp: next_seq_def)
      then have l: "last ?b \<in> set ?b" by simp
      with eventsAfter_above have "last ?b \<in> set (db_events ?d)" "e_threadId (last ?b) = tid" by blast+
      with below_counter [OF ok _ t(1)] t(2,3) Cons.prems(3) have "e_seq (last ?b) < e_seq e" by fastforce
      with False ne show False by (simp add: next_seq_def)
    qed
    with batch_complete [OF ok] Cons.prems(3,4) False have "e \<in> set ?b" by simp
    then show ?thesis by (simp add: Let_def)
  qed
qed

text \<open>
  C6. A follower that reads while any thread transactions commit between its reads delivers
  only later events of its thread, each once and in ascending order, and skips none: an
  event of the last snapshot has been delivered or is still ahead of the cursor, even when
  older events were deleted by a clear or with the progress of a run.
\<close>

theorem follower_delivers_each_event_once:
  assumes "db_ok d" and "out = follow_reads tid c (exec_trace opss d)"
  shows "sorted_wrt (\<lambda>a b. e_seq a < e_seq b) out \<and>
         (\<forall>e \<in> set out. c < e_seq e \<and> e_threadId e = tid) \<and>
         (\<forall>e \<in> set (db_events (last (d # exec_trace opss d))). e_threadId e = tid \<longrightarrow> c < e_seq e \<longrightarrow>
            e \<in> set out \<or> next_seq c out < e_seq e)"
  using follow_sorted [OF assms(1)] follow_above follow_no_gap [OF assms(1)] assms(2)
  by (metis not_less)

theorem follower_delivers_each_event_once_witness:
  "sorted_wrt (\<lambda>a b. e_seq a < e_seq b)
     (follow_reads th1 0 (exec_trace [[], [OpClear (js ''e9'') 12 example_clear]] example_db))"
  using follower_delivers_each_event_once [OF example_ok refl] by blast

end
