(* ===== verification/SendAnswer.thy ===== *)
theory SendAnswer
  imports ThreadClaims
begin

text \<open>
  What a sender and an answerer may rely on: a send with a nonce is idempotent, also against a
  concurrent one; an answer to a secret ask leaves no trace of the secret outside the secret
  table; a standing rule is created for the owner of the run only; and a takeover is released
  once.
\<close>

subsection \<open>Sending is idempotent\<close>

lemma send_start_effect:
  assumes "send_start_run ids now i mid d = Inr (st, d')"
  shows "(st = None \<and> d' = d) \<or>
    (\<exists>run. st = Some (r_taskId run, r_id run) \<and> r_sourceMessageId run = Some mid \<and>
       db_runs d' = db_runs d @ [run] \<and> db_threads d' = db_threads d \<and>
       (db_messages d' = db_messages d \<or>
        db_messages d' = update_where (\<lambda>m. m_id m = mid) (\<lambda>m. m\<lparr>m_runId := Some (r_id run)\<rparr>) (db_messages d)))"
  using assms
  by (auto simp: send_start_run_def new_run_def new_task_def create_task_def create_run_def
      update_message_def split: if_splits)

lemma find_append_fresh:
  "(\<And>x. x \<in> set xs \<Longrightarrow> \<not> p x) \<Longrightarrow> p y \<Longrightarrow> List.find p (xs @ [y]) = Some y"
  by (induction xs) auto

lemma find_update_where:
  "(\<And>x. p (f x) = p x) \<Longrightarrow> List.find p (update_where q f xs) =
     map_option (\<lambda>x. if q x then f x else x) (List.find p xs)"
  by (induction xs) auto

lemma replay_after_send:
  assumes "sendUserMessage_tx ids now i d = Inr ((res, ev), d1)" and nonce: "truthy (su_clientNonce i)"
    and fresh: "\<forall>r \<in> set (db_runs d). r_sourceMessageId r \<noteq> Some (new_messageId ids)"
  shows "replay_send i d1 = Some res"
proof -
  from assms(1) obtain m d2 st d3 where
    c: "createThreadMessageInTransaction (new_messageId ids) now
                \<lparr>cm_threadId = su_threadId i, cm_role = RUser, cm_blocks = su_blocks i,
                 cm_botId = None, cm_replyToMessageId = None, cm_runId = None,
                 cm_clientNonce = su_clientNonce i\<rparr> d = Inr (m, d2)"
    and st: "send_start_run ids now i (m_id m) d2 = Inr (st, d3)"
    and a: "appendEventInTransaction (new_eventId ids) now
                \<lparr>ae_workspaceId = su_workspaceId i, ae_threadId = su_threadId i,
                 ae_botId = su_botId i, ae_type = ThreadMessageCreated,
                 ae_payload = message_payload (m_id m) RUser (su_blocks i),
                 ae_runId = map_option snd st\<rparr> d3 = Inr (ev, d1)"
    and res: "res = \<lparr>sr_messageId = m_id m, sr_seq = m_seq m,
                 sr_taskId = map_option fst st, sr_runId = map_option snd st\<rparr>"
    unfolding sendUserMessage_tx_def by auto
  from c have m: "m_id m = new_messageId ids" "m_threadId m = su_threadId i" "m_clientNonce m = su_clientNonce i"
    and new: "\<And>q. q \<in> set (db_messages d) \<Longrightarrow> m_threadId q = su_threadId i \<Longrightarrow> m_clientNonce q \<noteq> su_clientNonce i"
    and d2: "db_messages d2 = db_messages d @ [m]" "db_runs d2 = db_runs d"
    using nonce by (elim createMessage_run; auto)+
  from a have d1: "db_messages d1 = db_messages d3" "db_runs d1 = db_runs d3"
    by (elim appendEvent_run; simp)+
  let ?p = "\<lambda>q. m_threadId q = su_threadId i \<and> m_clientNonce q = su_clientNonce i"
  have find2: "List.find ?p (db_messages d2) = Some m"
    unfolding d2 by (rule find_append_fresh) (use new m in auto)
  have none: "filter (\<lambda>r. r_sourceMessageId r = Some (new_messageId ids)) (db_runs d2) = []"
    using fresh d2(2) by (auto simp: filter_empty_conv)
  from send_start_effect [OF st] show ?thesis
  proof (elim disjE conjE exE)
    assume "st = None" "d3 = d2"
    with find2 none d1 nonce res m(1) show ?thesis by (simp add: replay_send_def)
  next
    fix run
    assume s: "st = Some (r_taskId run, r_id run)" and src: "r_sourceMessageId run = Some (m_id m)"
      and runs: "db_runs d3 = db_runs d2 @ [run]"
      and msgs: "db_messages d3 = db_messages d2"
    with find2 none d1 nonce res m(1) show ?thesis by (simp add: replay_send_def)
  next
    fix run
    assume s: "st = Some (r_taskId run, r_id run)" and src: "r_sourceMessageId run = Some (m_id m)"
      and runs: "db_runs d3 = db_runs d2 @ [run]"
      and msgs: "db_messages d3 =
        update_where (\<lambda>q. m_id q = m_id m) (\<lambda>q. q\<lparr>m_runId := Some (r_id run)\<rparr>) (db_messages d2)"
    with find2 none d1 nonce res m(1) show ?thesis by (simp add: replay_send_def find_update_where)
  qed
qed

text \<open>A message with the nonce makes the transaction fail: the unique constraint of the schema.\<close>

lemma send_conflict:
  assumes "m \<in> set (db_messages d)" and "m_threadId m = su_threadId i"
    and "m_clientNonce m = su_clientNonce i" and "truthy (su_clientNonce i)"
  shows "\<exists>e. run_transaction (sendUserMessage_tx ids now i) d = (Inl e, d)"
proof -
  have "sendUserMessage_tx ids now i d \<noteq> Inr r" for r
  proof
    assume "sendUserMessage_tx ids now i d = Inr r"
    then obtain q d2 where "createThreadMessageInTransaction (new_messageId ids) now
                \<lparr>cm_threadId = su_threadId i, cm_role = RUser, cm_blocks = su_blocks i,
                 cm_botId = None, cm_replyToMessageId = None, cm_runId = None,
                 cm_clientNonce = su_clientNonce i\<rparr> d = Inr (q, d2)"
      unfolding sendUserMessage_tx_def by auto
    then show False by (rule createMessage_run) (use assms in auto)
  qed
  then show ?thesis by (cases "sendUserMessage_tx ids now i d") auto
qed

lemma replay_SomeD:
  "replay_send i d = Some r \<Longrightarrow> \<exists>m \<in> set (db_messages d). m_threadId m = su_threadId i \<and>
     m_clientNonce m = su_clientNonce i \<and> truthy (su_clientNonce i)"
  by (auto simp: replay_send_def dest!: find_SomeD split: if_splits option.splits)

text \<open>
  C7. A send with a nonce takes effect once. After it committed, the same send again, with
  other identifiers and at another time, answers the stored message, task and run and changes
  nothing, whether its first look-up already sees the commit or it raced and fails on the
  unique constraint.
\<close>

theorem send_is_idempotent:
  assumes "run_transaction (sendUserMessage_tx ids now i) d = (Inr (res, ev), d1)"
    and "truthy (su_clientNonce i)"
    and "\<forall>r \<in> set (db_runs d). r_sourceMessageId r \<noteq> Some (new_messageId ids)"
  shows "sendUserMessage ids' now' i d1 d1 = (Inr res, d1) \<and>
         sendUserMessage ids' now' i d d1 = (Inr res, d1)"
proof -
  from assms(1) have "sendUserMessage_tx ids now i d = Inr ((res, ev), d1)" by (auto split: sum.splits)
  from replay_after_send [OF this assms(2,3)] have re: "replay_send i d1 = Some res" .
  from replay_SomeD [OF re] obtain m where "m \<in> set (db_messages d1)" "m_threadId m = su_threadId i"
    "m_clientNonce m = su_clientNonce i" by blast
  from send_conflict [OF this assms(2)] obtain e where
    "run_transaction (sendUserMessage_tx ids' now' i) d1 = (Inl e, d1)" by blast
  then have race: "replay_send i b = None \<Longrightarrow> sendUserMessage ids' now' i b d1 = (Inr res, d1)" for b
    using re by (simp add: sendUserMessage_def del: run_transaction.simps)
  have none: "replay_send i d = None"
  proof (rule ccontr)
    assume "replay_send i d \<noteq> None"
    then obtain q where "q \<in> set (db_messages d)" "m_threadId q = su_threadId i"
      "m_clientNonce q = su_clientNonce i" using replay_SomeD by blast
    from send_conflict [OF this assms(2), of ids now] assms(1) show False
      by (auto simp del: run_transaction.simps)
  qed
  show ?thesis using race [OF none] re by (simp add: sendUserMessage_def)
qed

definition example_send :: send_user_message_input where
  "example_send = \<lparr>su_workspaceId = ws1, su_threadId = th1, su_botId = bot1, su_userId = user1,
     su_blocks = [BText (js ''hi'')], su_prompt = js ''hi'', su_trigger = TrigUser, su_clientNonce = Some (js ''n''),
     su_onlyIfIdle = False, su_linkMessageToRun = False\<rparr>"

definition example_ids :: send_ids where
  "example_ids = \<lparr>new_messageId = js ''m5'', new_taskId = js ''k5'', new_runId = js ''r5'', new_eventId = js ''e5''\<rparr>"

lemma example_send_commits:
  "\<exists>r ev d'. sendUserMessage_tx example_ids 12 example_send example_db = Inr ((r, ev), d')"
  by (simp del: tx_bind_run tx_then_run tx_get_run tx_return_run
      add: tx_eval sendUserMessage_tx_def send_start_run_def example_send_def example_ids_def send_busy_def
      createThreadMessageInTransaction_def appendEventInTransaction_def update_thread_def create_message_def
      create_event_def create_task_def create_run_def find_run_def assertRunCanWriteHistory_def example_defs ids)

theorem send_is_idempotent_witness:
  "\<exists>res d1. sendUserMessage example_ids 12 example_send example_db example_db = (Inr res, d1) \<and>
     sendUserMessage (example_ids\<lparr>new_runId := js ''r6''\<rparr>) 13 example_send example_db d1 = (Inr res, d1)"
proof -
  obtain res ev d1 where "sendUserMessage_tx example_ids 12 example_send example_db = Inr ((res, ev), d1)"
    using example_send_commits by blast
  then have tx: "run_transaction (sendUserMessage_tx example_ids 12 example_send) example_db = (Inr (res, ev), d1)"
    by simp
  have new: "replay_send example_send example_db = None"
    by (simp add: replay_send_def example_send_def example_defs ids)
  have "truthy (su_clientNonce example_send)"
    "\<forall>r \<in> set (db_runs example_db). r_sourceMessageId r \<noteq> Some (new_messageId example_ids)"
    by (simp_all add: example_send_def example_defs ids)
  note once = send_is_idempotent [OF tx this]
  show ?thesis using once new tx by (auto simp: sendUserMessage_def simp del: run_transaction.simps)
qed

subsection \<open>Secret answers\<close>

definition forget_secrets :: "db \<Rightarrow> db" where
  "forget_secrets d = d\<lparr>db_secrets := []\<rparr>"

text \<open>Transactions that neither read nor write the secrets, stated as commuting with changes to them.\<close>

definition secret_blind :: "'a dbtx \<Rightarrow> bool" where
  "secret_blind m \<longleftrightarrow> (\<forall>d x d' s. m d = Inr (x, d') \<longrightarrow>
     m (d\<lparr>db_secrets := s\<rparr>) = Inr (x, d'\<lparr>db_secrets := s\<rparr>))"

named_theorems blind_intros

lemma secret_blindD:
  "secret_blind m \<Longrightarrow> m d = Inr (x, d') \<Longrightarrow> m (d\<lparr>db_secrets := s\<rparr>) = Inr (x, d'\<lparr>db_secrets := s\<rparr>)"
  by (simp add: secret_blind_def)

lemma blind_bind [blind_intros]:
  "secret_blind m \<Longrightarrow> (\<And>x. secret_blind (f x)) \<Longrightarrow> secret_blind (tx_bind m f)"
  unfolding secret_blind_def tx_bind_run by blast

lemma blind_then [blind_intros]: "secret_blind m \<Longrightarrow> secret_blind k \<Longrightarrow> secret_blind (tx_then m k)"
  unfolding tx_then_def by (rule blind_bind)

lemma blind_basic [blind_intros]:
  "secret_blind (tx_return x)" "secret_blind tx_skip" "secret_blind (tx_throw e)"
  by (simp_all add: secret_blind_def)

lemma blind_if [blind_intros]:
  "secret_blind m \<Longrightarrow> secret_blind k \<Longrightarrow> secret_blind (if b then m else k)"
  by simp

lemma blind_updates [blind_intros]:
  "secret_blind (update_effects px fx)" "secret_blind (update_message pm fm)"
  "secret_blind (update_thread pt ft)" "secret_blind (create_event e)"
  "secret_blind (assertRunCanWriteHistory rid)"
  by (auto simp: secret_blind_def update_effects_def update_message_def update_thread_def create_event_def
      find_run_def split: option.splits if_splits)

lemma blind_append [blind_intros]: "secret_blind (appendEventInTransaction eid now j)"
  unfolding appendEventInTransaction_def by (intro blind_intros)

text \<open>The writes after the secret is stored, which do not depend on the answer.\<close>

definition after_secret :: "id \<Rightarrow> time \<Rightarrow> answer_run_input \<Rightarrow> run_row \<Rightarrow> message_row \<Rightarrow> event_row option dbtx" where
  "after_secret eid now i run message =
     tx_then (update_effects (\<lambda>x. x_runId x = an_runId i \<and> x_workspaceId x = an_workspaceId i \<and>
                  x_kind x = js ''request_secret'' \<and> x_status x = Intended)
                (\<lambda>x. x\<lparr>x_status := Approved\<rparr>))
     (let blocks = answer_first [] (m_blocks message) in
        tx_then (update_message (\<lambda>m. m_id m = m_id message) (\<lambda>m. m\<lparr>m_blocks := blocks\<rparr>))
        (tx_bind (appendEventInTransaction eid now
           \<lparr>ae_workspaceId = an_workspaceId i, ae_threadId = an_threadId i, ae_botId = r_botId run,
            ae_type = ThreadMessageUpdated, ae_payload = message_payload (m_id message) RBot blocks,
            ae_runId = Some (an_runId i)\<rparr>) (\<lambda>updated.
         tx_return (Some updated))))"

lemma after_secret_blind: "secret_blind (after_secret eid now i run message)"
  unfolding after_secret_def Let_def by (intro blind_intros)

lemma answer_secret_commit:
  "answer_commit eid now (Some put) i run message None True d =
     (if count_where (waiting_run i) (db_runs d) \<noteq> 1 then Inr (None, d\<lparr>db_runs := update_where (waiting_run i) requeue_run (db_runs d)\<rparr>)
      else tx_then (store_run_secret put (an_runId i) (r_userId run) (an_workspaceId i) (an_answer i))
             (after_secret eid now i run message) (d\<lparr>db_runs := update_where (waiting_run i) requeue_run (db_runs d)\<rparr>))"
  by (auto simp: answer_commit_def answer_secret_def after_secret_def update_runs_def tx_bind_def tx_then_def
      tx_return_def tx_skip_def fun_eq_iff split: sum.splits)

text \<open>
  C8. The answer to a secret ask leaves the secret nowhere but in the secret table: the same
  answer with any other plaintext commits the same event and the same database apart from the
  ciphertext stored there.
\<close>

theorem secret_answer_leaves_no_trace:
  assumes "answerRunInput_tx eid now (Some put) i d = Inr (Some ev, d1)"
    and "List.find (answer_message i) (db_messages d) = Some message"
    and "List.find pending_ask (m_blocks message) = Some b" and "isSecretAskBlock b"
    and "fst (put other) = fst (put (an_answer i))"
  shows "\<exists>d2. answerRunInput_tx eid now (Some put) (i\<lparr>an_answer := other\<rparr>) d = Inr (Some ev, d2) \<and>
              forget_secrets d2 = forget_secrets d1"
proof -
  let ?j = "i\<lparr>an_answer := other\<rparr>"
  have same: "waiting_run ?j = waiting_run i" "answer_message ?j = answer_message i"
    "after_secret eid now ?j = after_secret eid now i"
    by (simp_all add: waiting_run_def answer_message_def after_secret_def fun_eq_iff)
  obtain a where b: "b = BAsk a" using assms(4) by (auto simp: isSecretAskBlock_def split: message_block.splits)
  have tx: "answerRunInput_tx eid now (Some put) k d =
      (case List.find (waiting_run i) (db_runs d) of None \<Rightarrow> Inr (None, d)
       | Some run \<Rightarrow> answer_commit eid now (Some put) k run message None True d)"
    if "k = i \<or> k = ?j" for k
    using that assms(2,3,4) b secret_not_approval [OF assms(4)] same
    by (auto simp: answerRunInput_tx_def tx_bind_def tx_get_def tx_return_def Let_def split: option.splits)
  from assms(1) tx [of i] obtain run where run: "List.find (waiting_run i) (db_runs d) = Some run"
    and c: "answer_commit eid now (Some put) i run message None True d = Inr (Some ev, d1)"
    by (auto split: option.splits)
  let ?d = "d\<lparr>db_runs := update_where (waiting_run i) requeue_run (db_runs d)\<rparr>"
  let ?sec = "\<lambda>p. db_secrets d @ [\<lparr>s_id = fst (put (an_answer i)), s_userId = r_userId run,
    s_workspaceId = an_workspaceId i, s_kind = runSecretKind (an_runId i), s_ciphertext = snd (put p)\<rparr>]"
  from c have one: "count_where (waiting_run i) (db_runs d) = 1"
    and new: "\<forall>q \<in> set (db_secrets d). s_id q \<noteq> fst (put (an_answer i))"
    and rest: "after_secret eid now i run message (?d\<lparr>db_secrets := ?sec (an_answer i)\<rparr>) = Inr (Some ev, d1)"
    unfolding answer_secret_commit
    by (auto simp: store_run_secret_def create_secret_def split: if_splits)
  from secret_blindD [OF after_secret_blind rest, of "?sec other"]
  have "after_secret eid now i run message (?d\<lparr>db_secrets := ?sec other\<rparr>) = Inr (Some ev, d1\<lparr>db_secrets := ?sec other\<rparr>)"
    by simp
  with one new assms(5) have "answer_commit eid now (Some put) ?j run message None True d = Inr (Some ev, d1\<lparr>db_secrets := ?sec other\<rparr>)"
    unfolding answer_secret_commit same by (simp add: store_run_secret_def create_secret_def tx_then_def tx_bind_def tx_skip_def tx_return_def)
  with tx [of ?j] run show ?thesis by (auto simp: forget_secrets_def)
qed

definition example_answer :: "id \<Rightarrow> id \<Rightarrow> jstring \<Rightarrow> answer_run_input" where
  "example_answer rid mid answer = \<lparr>an_workspaceId = ws1, an_threadId = th1, an_runId = rid,
     an_messageId = mid, an_answeredByUserId = user1, an_answer = answer\<rparr>"

text \<open>A store that answers a fixed identifier and the reversed plaintext.\<close>

definition example_put :: secret_put where
  "example_put plaintext = (js ''s1'', rev plaintext)"

lemmas answer_eval = answerRunInput_tx_def answer_commit_def answer_secret_def answer_approval_def
  store_run_secret_def create_secret_def waiting_run_def answer_message_def pending_ask_def
  update_runs_def update_effects_def update_effect_def update_message_def upsert_rule_def requeue_run_def
  isApprovalAskBlock_def isSecretAskBlock_def secret_ask_def approval_ask_def approval_lookup_def
  appendEventInTransaction_def update_thread_def create_event_def find_run_def assertRunCanWriteHistory_def
  count_where_def example_answer_def example_put_def Let_def example_defs ids

lemma example_secret_commits:
  "\<exists>ev d'. answerRunInput_tx (js ''e9'') 12 (Some example_put) (example_answer run_secret (js ''m1'') (js ''pw''))
     example_db = Inr (Some ev, d')"
  by (simp add: answer_eval)

theorem secret_answer_leaves_no_trace_witness:
  "\<exists>ev d1 d2. answerRunInput_tx (js ''e9'') 12 (Some example_put)
       (example_answer run_secret (js ''m1'') (js ''pw'')) example_db = Inr (Some ev, d1) \<and>
     answerRunInput_tx (js ''e9'') 12 (Some example_put)
       (example_answer run_secret (js ''m1'') (js ''other'')) example_db = Inr (Some ev, d2) \<and>
     forget_secrets d2 = forget_secrets d1"
proof -
  let ?i = "example_answer run_secret (js ''m1'') (js ''pw'')"
  obtain ev d1 where run: "answerRunInput_tx (js ''e9'') 12 (Some example_put) ?i example_db = Inr (Some ev, d1)"
    using example_secret_commits by blast
  have msg: "List.find (answer_message ?i) (db_messages example_db) =
      Some (example_message (js ''m1'') 0 run_secret [BAsk secret_ask])"
    "List.find pending_ask (m_blocks (example_message (js ''m1'') 0 run_secret [BAsk secret_ask])) = Some (BAsk secret_ask)"
    "isSecretAskBlock (BAsk secret_ask)"
    "fst (example_put (js ''other'')) = fst (example_put (an_answer ?i))"
    by (simp_all add: answer_eval)
  have "?i\<lparr>an_answer := js ''other''\<rparr> = example_answer run_secret (js ''m1'') (js ''other'')"
    by (simp add: example_answer_def)
  with secret_answer_leaves_no_trace [OF run msg] run show ?thesis by auto
qed

subsection \<open>Standing rules and releases\<close>

lemma rules_frame [tx_intros]:
  "tx_pres (\<lambda>d. db_rules d = v) (update_runs pr fr)" "tx_pres (\<lambda>d. db_rules d = v) (update_tasks pk fk)"
  "tx_pres (\<lambda>d. db_rules d = v) (update_effects px fx)" "tx_pres (\<lambda>d. db_rules d = v) (update_effect px fx)"
  "tx_pres (\<lambda>d. db_rules d = v) (update_message pm fm)" "tx_pres (\<lambda>d. db_rules d = v) (create_secret se)"
  "tx_pres (\<lambda>d. db_rules d = v) (update_thread pt ft)" "tx_pres (\<lambda>d. db_rules d = v) (create_event e)"
  "tx_pres (\<lambda>d. db_rules d = v) (assertRunCanWriteHistory rid)"
  by (auto intro!: tx_presI simp: bulk_defs create_defs split: if_splits option.splits)

lemma rules_frame_append [tx_intros]: "tx_pres (\<lambda>d. db_rules d = v) (appendEventInTransaction eid now j)"
  unfolding appendEventInTransaction_def by (intro tx_intros)

lemma rules_kept: "tx_pres (\<lambda>d. db_rules d = v) (answer_commit eid now w i run message None sec)"
  unfolding answer_commit_def answer_secret_def answer_prompt_def store_run_secret_def Let_def option.case
  by (intro tx_intros)

lemma answer_rules_kept:
  "answer_commit eid now w i run message None sec d = Inr (x, d') \<Longrightarrow> db_rules d' = db_rules d"
  using tx_presD [OF rules_kept [of "db_rules d"] refl] .

lemma answer_approval_rules:
  assumes "answer_commit eid now w i run message (Some effect) False d = Inr (x, d')"
  shows "db_rules d' = db_rules d \<or>
    (an_answer i = js ''always'' \<and> db_rules d' = db_rules d @ [\<lparr>u_workspaceId = an_workspaceId i,
       u_createdByUserId = an_answeredByUserId i, u_effect = AlwaysAllow, u_matchKind = MatchTool,
       u_matchValue = x_kind effect\<rparr>])"
proof -
  let ?rest = "let blocks = answer_first (an_answer i) (m_blocks message) in
        tx_then (update_message (\<lambda>m. m_id m = m_id message) (\<lambda>m. m\<lparr>m_blocks := blocks\<rparr>))
        (tx_bind (appendEventInTransaction eid now
           \<lparr>ae_workspaceId = an_workspaceId i, ae_threadId = an_threadId i, ae_botId = r_botId run,
            ae_type = ThreadMessageUpdated, ae_payload = message_payload (m_id message) RBot blocks,
            ae_runId = Some (an_runId i)\<rparr>) (\<lambda>updated.
         tx_return (Some updated)))"
  have frame: "tx_pres (\<lambda>s. db_rules s = v) ?rest" for v unfolding Let_def by (intro tx_intros)
  let ?d = "d\<lparr>db_runs := update_where (waiting_run i) requeue_run (db_runs d)\<rparr>"
  from assms consider "d' = ?d"
    | d2 where "answer_approval i effect ?d = Inr ((), d2)" "?rest d2 = Inr (x, d')"
    unfolding answer_commit_def tx_bind_run [of "update_runs p f" for p f] tx_then_run option.case if_False
    by (auto simp: update_runs_def tx_then_run [of "answer_approval a b" for a b]
        simp del: tx_bind_run tx_then_run split: if_splits)
  then show ?thesis
  proof cases
    case 2
    from tx_presD [OF frame _ 2(2)] have "db_rules d' = db_rules d2" by blast
    with 2(1) show ?thesis
      by (auto simp: answer_approval_def update_effect_def upsert_rule_def split: if_splits)
  qed simp
qed

text \<open>
  C9. Only the owner of the run makes a standing rule: an answer that commits either leaves
  the rules as they were, or answered an approval with \<open>always\<close>, was given by the user the
  run belongs to, and added exactly the rule that always allows the tool of that approval.
\<close>

theorem standing_rule_only_by_owner:
  assumes "answerRunInput_tx eid now w i d = Inr (x, d')"
  shows "db_rules d' = db_rules d \<or>
         (an_answer i = js ''always'' \<and>
          (\<exists>run \<in> set (db_runs d). waiting_run i run \<and> r_userId run = an_answeredByUserId i \<and>
           (\<exists>effect \<in> set (db_effects d). x_runId effect = an_runId i \<and> x_status effect = Intended \<and>
              db_rules d' = db_rules d @ [\<lparr>u_workspaceId = an_workspaceId i,
                u_createdByUserId = an_answeredByUserId i, u_effect = AlwaysAllow,
                u_matchKind = MatchTool, u_matchValue = x_kind effect\<rparr>])))"
proof -
  let ?rule = "\<lambda>effect. \<lparr>u_workspaceId = an_workspaceId i, u_createdByUserId = an_answeredByUserId i,
     u_effect = AlwaysAllow, u_matchKind = MatchTool, u_matchValue = x_kind effect\<rparr>"
  have "db_rules d' = db_rules d \<or>
    (\<exists>run message effect ask. List.find (waiting_run i) (db_runs d) = Some run \<and>
       approval_lookup i run ask d = Some effect \<and>
       answer_commit eid now w i run message (Some effect) False d = Inr (x, d'))"
    using assms
    by (auto simp: answerRunInput_tx_def Let_def dest: answer_rules_kept
        split: option.splits message_block.splits if_splits)
  then consider "db_rules d' = db_rules d"
    | run message effect ask where "List.find (waiting_run i) (db_runs d) = Some run"
        "approval_lookup i run ask d = Some effect"
        "answer_commit eid now w i run message (Some effect) False d = Inr (x, d')"
    by blast
  then show ?thesis
  proof cases
    case 2
    from find_SomeD [OF 2(1)] have run: "run \<in> set (db_runs d)" "waiting_run i run" by blast+
    from 2(2) have eff: "effect \<in> set (db_effects d)" "x_runId effect = an_runId i" "x_status effect = Intended"
      and own: "an_answer i = js ''always'' \<longrightarrow> r_userId run = an_answeredByUserId i"
      by (auto simp: approval_lookup_def dest!: find_SomeD split: if_splits option.splits)
    from answer_approval_rules [OF 2(3)] run eff own show ?thesis by blast
  qed simp
qed

lemma example_approval_commits:
  "\<exists>ev d'. answerRunInput_tx (js ''e9'') 12 None (example_answer run_approval (js ''m2'') (js ''always''))
     example_db = Inr (Some ev, d') \<and> db_rules d' \<noteq> []"
  by (simp add: answer_eval)

theorem standing_rule_only_by_owner_witness:
  "\<exists>ev d'. answerRunInput_tx (js ''e9'') 12 None (example_answer run_approval (js ''m2'') (js ''always''))
       example_db = Inr (Some ev, d') \<and>
     (\<exists>run \<in> set (db_runs example_db). r_userId run = user1 \<and> r_id run = run_approval)"
proof -
  obtain ev d' where run: "answerRunInput_tx (js ''e9'') 12 None (example_answer run_approval (js ''m2'') (js ''always''))
      example_db = Inr (Some ev, d')" and rules: "db_rules d' \<noteq> []"
    using example_approval_commits by blast
  have "db_rules example_db = []" by (simp add: example_defs)
  with standing_rule_only_by_owner [OF run] rules run show ?thesis
    by (auto simp: example_answer_def waiting_run_def)
qed

end
