(* ===== verification/LiveMessages.thy ===== *)
theory LiveMessages
  imports Messages
begin

text \<open>
  The live projection of a thread, \<open>packages/core/src/events.ts\<close>: how progress and tool
  events are folded into the blocks of a message that is still being written, how the events
  of a thread are projected to its messages, and the failure text of a run. \<open>lc\<close> and \<open>uc\<close>
  are the language's case conversions and \<open>text_of\<close> its \<open>String\<close> on JSON values, parameters
  because their tables are not reproduced.
\<close>

subsection \<open>Tool steps\<close>

definition humanizeToolName :: "(jstring \<Rightarrow> jstring) \<Rightarrow> (jstring \<Rightarrow> jstring) \<Rightarrow> jstring \<Rightarrow> jstring" where
  "humanizeToolName lc uc name =
     (let spaced = trim (map (\<lambda>c. if c = 95 then 32 else c) name) in
      if spaced = [] then name
      else let lower = lc spaced in uc (take 1 lower) @ drop 1 lower)"

definition appendToolStep ::
  "(jstring \<Rightarrow> jstring) \<Rightarrow> (jstring \<Rightarrow> jstring) \<Rightarrow> tool_step list \<Rightarrow> jstring \<Rightarrow> tool_step list" where
  "appendToolStep lc uc steps toolName =
     (let label = humanizeToolName lc uc toolName in
      if steps \<noteq> [] \<and> step_label (last steps) = label
      then butlast steps @ [\<lparr>step_label = label, step_count = step_count (last steps) + 1\<rparr>]
      else steps @ [\<lparr>step_label = label, step_count = 1\<rparr>])"

subsection \<open>Streaks\<close>

record streak =
  streak_key :: "jstring option"
  streak_count :: nat

definition trackToolCallStreak :: "(json \<Rightarrow> jstring) \<Rightarrow> streak \<Rightarrow> jstring \<Rightarrow> json \<Rightarrow> streak" where
  "trackToolCallStreak stringify streak name args =
     (let key = name @ js '':'' @ stringify args in
      if Some key = streak_key streak
      then \<lparr>streak_key = Some key, streak_count = streak_count streak + 1\<rparr>
      else \<lparr>streak_key = Some key, streak_count = 1\<rparr>)"

definition trackToolNameStreak :: "streak \<Rightarrow> jstring \<Rightarrow> streak" where
  "trackToolNameStreak streak name =
     (if Some name = streak_key streak
      then \<lparr>streak_key = Some name, streak_count = streak_count streak + 1\<rparr>
      else \<lparr>streak_key = Some name, streak_count = 1\<rparr>)"

subsection \<open>Sentence ends\<close>

definition sentence_closer :: "jchar \<Rightarrow> bool" where
  "sentence_closer c \<longleftrightarrow> c \<in> set [0x22, 0x27, 0x201D, 0x2019, 0x29, 0x5D]"

definition sentence_mark :: "jchar \<Rightarrow> bool" where
  "sentence_mark c \<longleftrightarrow> c \<in> set [0x2E, 0x21, 0x3F]"

text \<open>
  \<open>SENTENCE_END_RE\<close>: a mark, then closers, then white space, then the end. The three classes
  are disjoint, so the match is found from the end.
\<close>

definition SENTENCE_END :: "jstring \<Rightarrow> bool" where
  "SENTENCE_END text =
     (case dropWhile sentence_closer (dropWhile is_ws (rev text)) of [] \<Rightarrow> False | c # _ \<Rightarrow> sentence_mark c)"

definition endsSentence :: "jstring \<Rightarrow> bool" where
  "endsSentence text \<longleftrightarrow> trim text = [] \<or> SENTENCE_END text"

subsection \<open>Live blocks\<close>

datatype live_update =
    UpdateProgress "(jstring \<times> json) list option"
  | UpdateTool jstring

text \<open>\<open>payload.text ?? ""\<close>: absent and null give the empty string.\<close>

definition string_field :: "(json \<Rightarrow> jstring) \<Rightarrow> jstring \<Rightarrow> (jstring \<times> json) list \<Rightarrow> jstring \<Rightarrow> jstring" where
  "string_field text_of k fs fallback =
     (case field k fs of None \<Rightarrow> fallback | Some JNull \<Rightarrow> fallback | Some v \<Rightarrow> text_of v)"

definition progressMessageText :: "(json \<Rightarrow> jstring) \<Rightarrow> (jstring \<times> json) list option \<Rightarrow> jstring \<Rightarrow> jstring" where
  "progressMessageText text_of payload previousText =
     (case payload of
        None \<Rightarrow> []
      | Some fs \<Rightarrow> (case field (js ''delta'') fs of
            Some (JStr delta) \<Rightarrow> previousText @ delta
          | _ \<Rightarrow> string_field text_of (js ''text'') fs []))"

definition block_text :: "message_block \<Rightarrow> jstring" where
  "block_text b = (case b of BText t \<Rightarrow> t | BProgress t _ \<Rightarrow> t | _ \<Rightarrow> [])"

definition liveMessageText :: "message_block list \<Rightarrow> jstring" where
  "liveMessageText blocks = concat (map block_text blocks)"

definition appendTextSegment :: "message_block list \<Rightarrow> jstring \<Rightarrow> message_block list" where
  "appendTextSegment segments text =
     (if text = [] then segments
      else if segments = [] then [BText text]
      else case last segments of
             BText t \<Rightarrow> butlast segments @ [BText (t @ text)]
           | _ \<Rightarrow> segments @ [BText text])"

definition appendToolCallSegment ::
  "(jstring \<Rightarrow> jstring) \<Rightarrow> (jstring \<Rightarrow> jstring) \<Rightarrow> message_block list \<Rightarrow> jstring \<Rightarrow> message_block list" where
  "appendToolCallSegment lc uc segments toolName =
     (if segments = [] then [BSteps (appendToolStep lc uc [] toolName)]
      else case last segments of
             BSteps steps \<Rightarrow> butlast segments @ [BSteps (appendToolStep lc uc steps toolName)]
           | _ \<Rightarrow> segments @ [BSteps (appendToolStep lc uc [] toolName)])"

text \<open>The progress block at the tail, with the tool names it holds back.\<close>

definition progress_tail :: "message_block list \<Rightarrow> (jstring \<times> jstring list) option" where
  "progress_tail blocks =
     (if blocks = [] then None
      else case last blocks of
             BProgress t pending \<Rightarrow> Some (t, (case pending of None \<Rightarrow> [] | Some ns \<Rightarrow> ns))
           | _ \<Rightarrow> None)"

definition reduceLiveMessageBlocks ::
  "(jstring \<Rightarrow> jstring) \<Rightarrow> (jstring \<Rightarrow> jstring) \<Rightarrow> (json \<Rightarrow> jstring) \<Rightarrow>
   message_block list \<Rightarrow> live_update \<Rightarrow> message_block list" where
  "reduceLiveMessageBlocks lc uc text_of blocks update =
     (let tail = progress_tail blocks;
          segments = (if tail = None then blocks else butlast blocks);
          priorText = liveMessageText blocks;
          flushedLength = (case tail of Some (t, _) \<Rightarrow> length priorText - length t | None \<Rightarrow> length priorText);
          tailText = (case update of
              UpdateProgress payload \<Rightarrow> drop flushedLength (progressMessageText text_of payload priorText)
            | UpdateTool _ \<Rightarrow> (case tail of Some (t, _) \<Rightarrow> t | None \<Rightarrow> []));
          pendingToolNames = (case tail of Some (_, ns) \<Rightarrow> ns | None \<Rightarrow> []) @
            (case update of UpdateTool name \<Rightarrow> [name] | UpdateProgress _ \<Rightarrow> [])
      in if pendingToolNames \<noteq> [] \<and> endsSentence tailText
         then foldl (appendToolCallSegment lc uc) (appendTextSegment segments tailText) pendingToolNames
         else if tailText = [] then segments
         else segments @ [BProgress tailText
                (if pendingToolNames = [] then None else Some pendingToolNames)])"

subsection \<open>What the live blocks keep\<close>

text \<open>Only the last block may be a progress block, and it has text.\<close>

definition live_ok :: "message_block list \<Rightarrow> bool" where
  "live_ok blocks \<longleftrightarrow> (\<forall>b \<in> set (butlast blocks). \<not> (\<exists>t ns. b = BProgress t ns)) \<and>
     (\<forall>t ns. blocks \<noteq> [] \<longrightarrow> last blocks = BProgress t ns \<longrightarrow> t \<noteq> [])"

definition calls_in :: "message_block \<Rightarrow> nat" where
  "calls_in b = (case b of BSteps steps \<Rightarrow> sum_list (map step_count steps)
     | BProgress _ (Some ns) \<Rightarrow> length ns | _ \<Rightarrow> 0)"

definition calls :: "message_block list \<Rightarrow> nat" where
  "calls blocks = sum_list (map calls_in blocks)"

lemma liveMessageText_simps [simp]:
  "liveMessageText [] = []" "liveMessageText (b # bs) = block_text b @ liveMessageText bs"
  "liveMessageText (xs @ ys) = liveMessageText xs @ liveMessageText ys"
  by (simp_all add: liveMessageText_def)

lemma calls_simps [simp]:
  "calls [] = 0" "calls (b # bs) = calls_in b + calls bs" "calls (xs @ ys) = calls xs + calls ys"
  by (simp_all add: calls_def)

lemma block_text_simps [simp]:
  "block_text (BText t) = t" "block_text (BProgress t ns) = t" "block_text (BSteps s) = []"
  by (simp_all add: block_text_def)

lemma calls_in_simps [simp]:
  "calls_in (BText t) = 0" "calls_in (BSteps s) = sum_list (map step_count s)"
  "calls_in (BProgress t None) = 0" "calls_in (BProgress t (Some ns)) = length ns"
  by (simp_all add: calls_in_def)

lemma list_snoc_cases: "xs = [] \<or> (\<exists>ys y. xs = ys @ [y])"
  by (cases xs rule: rev_cases) auto

lemma append_step_count: "sum_list (map step_count (appendToolStep lc uc steps n)) = Suc (sum_list (map step_count steps))"
  by (cases steps rule: rev_cases) (auto simp: appendToolStep_def Let_def)

lemma append_text_effect:
  "liveMessageText (appendTextSegment segs t) = liveMessageText segs @ t"
  "calls (appendTextSegment segs t) = calls segs"
  by (cases segs rule: rev_cases; auto simp: appendTextSegment_def split: message_block.splits)+

lemma append_call_effect:
  "liveMessageText (appendToolCallSegment lc uc segs n) = liveMessageText segs"
  "calls (appendToolCallSegment lc uc segs n) = Suc (calls segs)"
  by (cases segs rule: rev_cases;
      auto simp: appendToolCallSegment_def append_step_count split: message_block.splits)+

lemma append_calls_effect:
  "liveMessageText (foldl (appendToolCallSegment lc uc) segs ns) = liveMessageText segs"
  "calls (foldl (appendToolCallSegment lc uc) segs ns) = calls segs + length ns"
  by (induction ns arbitrary: segs) (simp_all add: append_call_effect)

definition no_progress :: "message_block list \<Rightarrow> bool" where
  "no_progress bs \<longleftrightarrow> (\<forall>b \<in> set bs. \<not> (\<exists>t ns. b = BProgress t ns))"

lemma no_progress_simps [simp]:
  "no_progress []" "no_progress (b # bs) \<longleftrightarrow> \<not> (\<exists>t ns. b = BProgress t ns) \<and> no_progress bs"
  "no_progress (xs @ ys) \<longleftrightarrow> no_progress xs \<and> no_progress ys"
  by (auto simp: no_progress_def)

lemma no_progress_append:
  "no_progress segs \<Longrightarrow> no_progress (appendTextSegment segs t)"
  "no_progress segs \<Longrightarrow> no_progress (appendToolCallSegment lc uc segs n)"
  by (cases segs rule: rev_cases;
      auto simp: appendTextSegment_def appendToolCallSegment_def split: message_block.splits)+

lemma no_progress_calls: "no_progress segs \<Longrightarrow> no_progress (foldl (appendToolCallSegment lc uc) segs ns)"
  by (induction ns arbitrary: segs) (simp_all add: no_progress_append)

lemma live_ok_cases:
  assumes "live_ok blocks"
  obtains (flushed) "no_progress blocks" "progress_tail blocks = None"
  | (tail) segs t ns where "blocks = segs @ [BProgress t ns]" "no_progress segs" "t \<noteq> []"
      "progress_tail blocks = Some (t, case ns of None \<Rightarrow> [] | Some v \<Rightarrow> v)"
proof (cases blocks rule: rev_cases)
  case Nil
  then show ?thesis by (intro flushed) (simp_all add: progress_tail_def)
next
  case (snoc segs b)
  show ?thesis
  proof (cases "\<exists>t ns. b = BProgress t ns")
    case True
    then obtain t ns where "b = BProgress t ns" by blast
    with snoc assms show ?thesis
      by (intro tail [of segs t ns]) (auto simp: live_ok_def no_progress_def progress_tail_def)
  next
    case False
    with snoc assms show ?thesis
      by (intro flushed) (auto simp: live_ok_def no_progress_def progress_tail_def split: message_block.splits)
  qed
qed

lemma live_ok_no_progress: "no_progress bs \<Longrightarrow> live_ok bs"
  by (cases bs rule: rev_cases) (auto simp: live_ok_def no_progress_def)

lemma live_ok_snoc: "no_progress segs \<Longrightarrow> t \<noteq> [] \<Longrightarrow> live_ok (segs @ [BProgress t ns])"
  by (auto simp: live_ok_def no_progress_def)

definition update_text :: "jstring \<Rightarrow> live_update" where
  "update_text delta = UpdateProgress (Some [(js ''delta'', JStr delta)])"

lemma progress_delta [simp]:
  "progressMessageText text_of (Some [(js ''delta'', JStr delta)]) p = p @ delta"
  by (simp add: progressMessageText_def field_def)

lemma endsSentence_Nil [simp]: "endsSentence []"
  by (simp add: endsSentence_def trim_def trim_start_def trim_end_def)

text \<open>One update: the text grows by the delta, and every tool call is counted once.\<close>

lemma reduce_step:
  assumes ok: "live_ok blocks" and u: "u = update_text delta \<or> (u = UpdateTool name \<and> delta = [])"
  shows "live_ok (reduceLiveMessageBlocks lc uc text_of blocks u)" (is ?ok)
    and "liveMessageText (reduceLiveMessageBlocks lc uc text_of blocks u) = liveMessageText blocks @ delta" (is ?text)
    and "calls (reduceLiveMessageBlocks lc uc text_of blocks u) =
         calls blocks + (case u of UpdateTool _ \<Rightarrow> 1 | _ \<Rightarrow> 0)" (is ?calls)
proof -
  have "?ok \<and> ?text \<and> ?calls" using ok
  proof (cases rule: live_ok_cases)
    case flushed
    with u show ?thesis
      by (auto simp: reduceLiveMessageBlocks_def update_text_def Let_def append_calls_effect append_text_effect
          append_call_effect no_progress_append live_ok_no_progress live_ok_snoc)
  next
    case (tail segs t ns)
    with u show ?thesis
      by (auto simp: reduceLiveMessageBlocks_def update_text_def Let_def append_calls_effect append_text_effect
          append_call_effect no_progress_append no_progress_calls live_ok_no_progress live_ok_snoc split: option.splits)
  qed
  then show ?ok ?text ?calls by blast+
qed

text \<open>A stream of updates: text deltas (\<open>Inl\<close>) and tool calls (\<open>Inr\<close>) in any interleaving.\<close>

definition stream_update :: "jstring + jstring \<Rightarrow> live_update" where
  "stream_update x = (case x of Inl delta \<Rightarrow> update_text delta | Inr name \<Rightarrow> UpdateTool name)"

definition live_blocks ::
  "(jstring \<Rightarrow> jstring) \<Rightarrow> (jstring \<Rightarrow> jstring) \<Rightarrow> (json \<Rightarrow> jstring) \<Rightarrow> (jstring + jstring) list \<Rightarrow> message_block list" where
  "live_blocks lc uc text_of xs = foldl (reduceLiveMessageBlocks lc uc text_of) [] (map stream_update xs)"

lemma live_blocks_run:
  "live_ok (live_blocks lc uc text_of xs) \<and>
   liveMessageText (live_blocks lc uc text_of xs) = concat (map (case_sum id (\<lambda>_. [])) xs) \<and>
   calls (live_blocks lc uc text_of xs) = length (filter (\<lambda>x. \<not> isl x) xs)"
proof (induction xs rule: rev_induct)
  case Nil
  then show ?case by (simp add: live_blocks_def live_ok_def)
next
  case (snoc x xs)
  let ?b = "live_blocks lc uc text_of xs"
  have eq: "live_blocks lc uc text_of (xs @ [x]) = reduceLiveMessageBlocks lc uc text_of ?b (stream_update x)"
    by (simp add: live_blocks_def)
  have u: "stream_update x = update_text (case_sum id (\<lambda>_. []) x) \<or>
      (stream_update x = UpdateTool (case_sum (\<lambda>_. []) id x) \<and> case_sum id (\<lambda>_. []) x = [])"
    by (cases x) (simp_all add: stream_update_def)
  from snoc reduce_step [OF _ u, of ?b lc uc text_of] show ?case
    unfolding eq by (cases x) (auto simp: stream_update_def update_text_def)
qed

text \<open>
  C12. The live message loses nothing: whatever the interleaving of text deltas and tool calls,
  the text of its blocks is the deltas in order, every tool call is counted exactly once in a
  step or among the names held back, and only the last block is unfinished.
\<close>

theorem live_blocks_keep_text_and_calls:
  "liveMessageText (live_blocks lc uc text_of xs) = concat (map (case_sum id (\<lambda>_. [])) xs) \<and>
   calls (live_blocks lc uc text_of xs) = length (filter (\<lambda>x. \<not> isl x) xs) \<and>
   live_ok (live_blocks lc uc text_of xs)"
  using live_blocks_run [of lc uc text_of xs] by blast

subsection \<open>Projecting the events of a thread\<close>

record thread_message =
  tm_id :: jstring
  tm_threadId :: id
  tm_seq :: int
  tm_role :: role
  tm_blocks :: "message_block list"
  tm_botId :: "id option"
  tm_replyToMessageId :: "id option"
  tm_runId :: "id option"
  tm_createdAt :: time

text \<open>
  The four collections of \<open>projectMessages\<close>. The maps keep their insertion order, as the
  language's do: \<open>put\<close> replaces in place or appends.
\<close>

record projection =
  pr_messages :: "thread_message list"
  pr_live :: "(jstring \<times> thread_message) list"
  pr_subagents :: "(jstring \<times> thread_message) list"
  pr_durable :: "jstring set"

fun put :: "'k \<Rightarrow> 'v \<Rightarrow> ('k \<times> 'v) list \<Rightarrow> ('k \<times> 'v) list" where
  "put k v [] = [(k, v)]"
| "put k v ((j, w) # m) = (if j = k then (k, v) # m else (j, w) # put k v m)"

definition drop_key :: "'k \<Rightarrow> ('k \<times> 'v) list \<Rightarrow> ('k \<times> 'v) list" where
  "drop_key k m = filter (\<lambda>e. fst e \<noteq> k) m"

text \<open>The events carry an identifier, so the last alternative of the source is not reached.\<close>

definition progressMessageId :: "event_row \<Rightarrow> jstring" where
  "progressMessageId e = js ''progress:'' @ (case e_runId e of Some r \<Rightarrow> r | None \<Rightarrow> e_id e)"

definition isRunTerminalEvent :: "event_type \<Rightarrow> bool" where
  "isRunTerminalEvent ty \<longleftrightarrow> ty = RunCompleted \<or> ty = RunFailed \<or> ty = RunCancelled"

definition payload_fields :: "event_row \<Rightarrow> (jstring \<times> json) list" where
  "payload_fields e = p_fields (e_payload e)"

definition event_message :: "event_row \<Rightarrow> jstring \<Rightarrow> role \<Rightarrow> message_block list \<Rightarrow> thread_message" where
  "event_message e mid role blocks =
     \<lparr>tm_id = mid, tm_threadId = e_threadId e, tm_seq = e_seq e, tm_role = role, tm_blocks = blocks,
      tm_botId = Some (e_botId e), tm_replyToMessageId = None, tm_runId = e_runId e, tm_createdAt = e_createdAt e\<rparr>"

text \<open>The projection of a live message after an update: its metadata follow the last event.\<close>

definition update_live ::
  "(jstring \<Rightarrow> jstring) \<Rightarrow> (jstring \<Rightarrow> jstring) \<Rightarrow> (json \<Rightarrow> jstring) \<Rightarrow> event_row \<Rightarrow> live_update \<Rightarrow>
   projection \<Rightarrow> projection" where
  "update_live lc uc text_of e u p =
     (let k = progressMessageId e;
          live = (case map_of (pr_live p) k of
                    Some m \<Rightarrow> m | None \<Rightarrow> event_message e k RBot [])
      in p\<lparr>pr_live := put k (live\<lparr>tm_blocks := reduceLiveMessageBlocks lc uc text_of (tm_blocks live) u,
              tm_seq := e_seq e, tm_botId := Some (e_botId e), tm_createdAt := e_createdAt e\<rparr>) (pr_live p)\<rparr>)"

text \<open>\<open>if (event.runId)\<close>: an empty identifier counts as none.\<close>

definition clear_live :: "event_row \<Rightarrow> projection \<Rightarrow> projection" where
  "clear_live e p =
     (if truthy (e_runId e) then p\<lparr>pr_live := drop_key (progressMessageId e) (pr_live p)\<rparr>
      else p\<lparr>pr_live := []\<rparr>)"

definition subagent_ids :: "message_block list \<Rightarrow> jstring list" where
  "subagent_ids blocks = concat (map (\<lambda>b. case b of BSubagent s \<Rightarrow> [sub_agentId s] | _ \<Rightarrow> []) blocks)"

definition truthy_json :: "json option \<Rightarrow> bool" where
  "truthy_json v = (case v of None \<Rightarrow> False | Some JNull \<Rightarrow> False | Some (JBool b) \<Rightarrow> b
     | Some (JNum n) \<Rightarrow> n \<noteq> 0 | Some (JStr s) \<Rightarrow> s \<noteq> [] | Some (JArr _) \<Rightarrow> True | Some (JObj _) \<Rightarrow> True)"

definition optional_text :: "(json \<Rightarrow> jstring) \<Rightarrow> jstring \<Rightarrow> (jstring \<times> json) list \<Rightarrow> jstring option" where
  "optional_text text_of k fs =
     (if truthy_json (field k fs) then Some (text_of (the (field k fs))) else None)"

definition subagentBlockFromPayload :: "(json \<Rightarrow> jstring) \<Rightarrow> (jstring \<times> json) list \<Rightarrow> subagent_block" where
  "subagentBlockFromPayload text_of fs =
     \<lparr>sub_agentId = string_field text_of (js ''agentId'') fs [],
      sub_name = string_field text_of (js ''name'') fs (js ''subagent''),
      sub_task = string_field text_of (js ''task'') fs [],
      sub_status = (if field (js ''status'') fs = Some (JStr (js ''completed'')) then AgentCompleted
                    else if field (js ''status'') fs = Some (JStr (js ''failed'')) then AgentFailed
                    else AgentRunning),
      sub_progress = optional_text text_of (js ''progress'') fs,
      sub_result = optional_text text_of (js ''result'') fs\<rparr>"

definition project_created :: "event_row \<Rightarrow> projection \<Rightarrow> projection" where
  "project_created e p =
     (let p1 = clear_live e p;
          blocks = (case p_blocks (e_payload e) of Some bs \<Rightarrow> bs | None \<Rightarrow> []);
          role = (case p_role (e_payload e) of Some r \<Rightarrow> r | None \<Rightarrow> RBot);
          mid = (case p_messageId (e_payload e) of Some i \<Rightarrow> i | None \<Rightarrow> e_id e)
      in p1\<lparr>pr_durable := pr_durable p1 \<union> set (subagent_ids blocks),
            pr_subagents := fold drop_key (subagent_ids blocks) (pr_subagents p1),
            pr_messages := pr_messages p1 @ [event_message e mid role blocks]\<rparr>)"

definition project_subagent :: "(json \<Rightarrow> jstring) \<Rightarrow> event_row \<Rightarrow> projection \<Rightarrow> projection" where
  "project_subagent text_of e p =
     (let block = subagentBlockFromPayload text_of (payload_fields e) in
      if sub_agentId block \<in> pr_durable p then p
      else p\<lparr>pr_subagents := put (sub_agentId block)
               (event_message e (js ''subagent:'' @ sub_agentId block) RBot [BSubagent block]) (pr_subagents p)\<rparr>)"

definition empty_projection :: projection where
  "empty_projection = \<lparr>pr_messages = [], pr_live = [], pr_subagents = [], pr_durable = {}\<rparr>"

definition project_event ::
  "(jstring \<Rightarrow> jstring) \<Rightarrow> (jstring \<Rightarrow> jstring) \<Rightarrow> (json \<Rightarrow> jstring) \<Rightarrow> event_row \<Rightarrow> projection \<Rightarrow> projection" where
  "project_event lc uc text_of e p =
     (case e_type e of
        ThreadMessageCreated \<Rightarrow> project_created e p
      | ThreadProgress \<Rightarrow> update_live lc uc text_of e (UpdateProgress (Some (payload_fields e))) p
      | AgentToolCalled \<Rightarrow>
          update_live lc uc text_of e (UpdateTool (string_field text_of (js ''name'') (payload_fields e) [])) p
      | ThreadCleared \<Rightarrow> empty_projection
      | ThreadSubagent \<Rightarrow> project_subagent text_of e p
      | RunCompleted \<Rightarrow> clear_live e p
      | RunFailed \<Rightarrow> clear_live e p
      | RunCancelled \<Rightarrow> clear_live e p
      | _ \<Rightarrow> p)"

definition project_all ::
  "(jstring \<Rightarrow> jstring) \<Rightarrow> (jstring \<Rightarrow> jstring) \<Rightarrow> (json \<Rightarrow> jstring) \<Rightarrow> event_row list \<Rightarrow> projection" where
  "project_all lc uc text_of events = fold (project_event lc uc text_of) events empty_projection"

definition projectMessages ::
  "(jstring \<Rightarrow> jstring) \<Rightarrow> (jstring \<Rightarrow> jstring) \<Rightarrow> (json \<Rightarrow> jstring) \<Rightarrow> event_row list \<Rightarrow> thread_message list" where
  "projectMessages lc uc text_of events =
     (let p = project_all lc uc text_of events in
      pr_messages p @ map snd (pr_subagents p) @
      filter (\<lambda>m. tm_blocks m \<noteq> []) (map snd (pr_live p)))"

text \<open>
  A clear is a fresh start for a reader: the messages of a thread are those of the events
  after its last clear, so a reader that has them all and one that sees only the clear and
  what follows project the same messages.
\<close>

theorem projection_starts_at_clear:
  assumes "e_type c = ThreadCleared"
  shows "projectMessages lc uc text_of (before @ c # after) = projectMessages lc uc text_of after \<and>
         projectMessages lc uc text_of (c # after) = projectMessages lc uc text_of after"
proof -
  have "project_event lc uc text_of c p = empty_projection" for p
    using assms by (simp add: project_event_def)
  then show ?thesis by (simp add: projectMessages_def project_all_def)
qed

theorem projection_starts_at_clear_witness:
  "projectMessages id id (\<lambda>_. []) ([] @ \<lparr>e_id = [], e_workspaceId = [], e_threadId = [], e_botId = [], e_seq = 1,
     e_type = ThreadCleared, e_payload = no_payload, e_runId = None, e_createdAt = 0\<rparr> # []) = []"
  by (subst projection_starts_at_clear [THEN conjunct1])
    (simp_all add: projectMessages_def project_all_def empty_projection_def)

text \<open>
  The invariant of the projection: a subagent that has a durable message has no live one, a
  live message belongs to its key, and each key stands once.
\<close>

definition projection_ok :: "projection \<Rightarrow> bool" where
  "projection_ok p \<longleftrightarrow>
     distinct (map fst (pr_live p)) \<and> distinct (map fst (pr_subagents p)) \<and>
     fst ` set (pr_subagents p) \<inter> pr_durable p = {} \<and>
     pr_durable p = (\<Union>m \<in> set (pr_messages p). set (subagent_ids (tm_blocks m))) \<and>
     (\<forall>(k, m) \<in> set (pr_subagents p). \<exists>s. tm_blocks m = [BSubagent s] \<and> sub_agentId s = k)"

lemma keys_put: "fst ` set (put k v m) = insert k (fst ` set m)"
  by (induction k v m rule: put.induct) (simp_all add: insert_commute)

lemma distinct_put: "distinct (map fst m) \<Longrightarrow> distinct (map fst (put k v m))"
proof (induction m)
  case (Cons e m)
  then show ?case using keys_put [of k v m] by (cases e) auto
qed simp

lemma set_put: "x \<in> set (put k v m) \<Longrightarrow> x = (k, v) \<or> x \<in> set m"
  by (induction m) (auto split: if_splits)

lemma distinct_drop: "distinct (map fst m) \<Longrightarrow> distinct (map fst (drop_key k m))"
  by (simp add: drop_key_def distinct_map_filter)

lemma set_drop [simp]: "set (drop_key k m) = {e \<in> set m. fst e \<noteq> k}"
  by (auto simp: drop_key_def)

lemma fold_drop:
  "set (fold drop_key ks m) = {e \<in> set m. fst e \<notin> set ks}"
  "distinct (map fst m) \<Longrightarrow> distinct (map fst (fold drop_key ks m))"
  by (induction ks arbitrary: m) (auto simp: distinct_drop)

lemma project_event_ok:
  assumes "projection_ok p"
  shows "projection_ok (project_event lc uc text_of e p)"
proof -
  have live: "projection_ok (clear_live e p)" "projection_ok (update_live lc uc text_of e u p)" for u
    using assms by (auto simp: projection_ok_def clear_live_def update_live_def Let_def distinct_drop distinct_put)
  have created: "projection_ok (project_created e p)"
    using live(1) unfolding project_created_def Let_def
    by (auto simp: projection_ok_def fold_drop event_message_def)
  have sub: "projection_ok (project_subagent text_of e p)"
    using assms unfolding project_subagent_def Let_def
    by (auto simp: projection_ok_def distinct_put keys_put event_message_def dest!: set_put)
  have "projection_ok empty_projection" by (simp add: projection_ok_def empty_projection_def)
  then show ?thesis using assms live created sub
    by (simp add: project_event_def split: event_type.split)
qed

lemma project_all_ok: "projection_ok (project_all lc uc text_of events)"
proof -
  have "projection_ok p \<Longrightarrow> projection_ok (fold (project_event lc uc text_of) es p)" for es p
    by (induction es arbitrary: p) (simp_all add: project_event_ok)
  moreover have "projection_ok empty_projection" by (simp add: projection_ok_def empty_projection_def)
  ultimately show ?thesis by (simp add: project_all_def)
qed

text \<open>The durable messages are those created since the last clear.\<close>

definition since_clear :: "event_row list \<Rightarrow> event_row list" where
  "since_clear events = rev (takeWhile (\<lambda>e. e_type e \<noteq> ThreadCleared) (rev events))"

definition created_message :: "event_row \<Rightarrow> thread_message" where
  "created_message e =
     event_message e (case p_messageId (e_payload e) of Some i \<Rightarrow> i | None \<Rightarrow> e_id e)
       (case p_role (e_payload e) of Some r \<Rightarrow> r | None \<Rightarrow> RBot)
       (case p_blocks (e_payload e) of Some bs \<Rightarrow> bs | None \<Rightarrow> [])"

definition created_since_clear :: "event_row list \<Rightarrow> thread_message list" where
  "created_since_clear events =
     map created_message (filter (\<lambda>e. e_type e = ThreadMessageCreated) (since_clear events))"

lemma clear_live_messages [simp]: "pr_messages (clear_live e p) = pr_messages p"
  by (simp add: clear_live_def)

lemma project_event_messages:
  "pr_messages (project_event lc uc text_of e p) =
     (if e_type e = ThreadCleared then []
      else if e_type e = ThreadMessageCreated then pr_messages p @ [created_message e] else pr_messages p)"
  by (cases "e_type e")
    (simp_all add: project_event_def empty_projection_def project_created_def created_message_def Let_def
      update_live_def project_subagent_def)

lemma since_clear_snoc:
  "since_clear (es @ [e]) = (if e_type e = ThreadCleared then [] else since_clear es @ [e])"
  by (simp add: since_clear_def)

lemma project_all_messages: "pr_messages (project_all lc uc text_of events) = created_since_clear events"
proof (induction events rule: rev_induct)
  case Nil
  then show ?case
    by (simp add: project_all_def empty_projection_def created_since_clear_def since_clear_def)
next
  case (snoc e es)
  then show ?case
    by (simp add: project_all_def project_event_messages created_since_clear_def since_clear_snoc)
qed

lemma concat_keys: "(\<And>k v. (k, v) \<in> set m \<Longrightarrow> f v = [k]) \<Longrightarrow> concat (map f (map snd m)) = map fst m"
  by (induction m) auto

text \<open>The subagents that some messages show.\<close>

definition message_subagents :: "thread_message list \<Rightarrow> jstring set" where
  "message_subagents ms = (\<Union>m \<in> set ms. set (subagent_ids (tm_blocks m)))"

text \<open>
  A reader sees every message created since the last clear, in order and first, then at
  most one live block for each subagent and none for a subagent that already has a durable
  message, then the unfinished messages, none of them empty.
\<close>

theorem projection_shows_each_subagent_once:
  "\<exists>live unfinished. projectMessages lc uc text_of events = created_since_clear events @ live @ unfinished \<and>
     distinct (concat (map (\<lambda>m. subagent_ids (tm_blocks m)) live)) \<and>
     message_subagents live \<inter> message_subagents (created_since_clear events) = {} \<and>
     [] \<notin> tm_blocks ` set unfinished"
proof -
  let ?p = "project_all lc uc text_of events"
  have ok: "projection_ok ?p" by (rule project_all_ok)
  have key: "subagent_ids (tm_blocks m) = [k]" if "(k, m) \<in> set (pr_subagents ?p)" for k m
    using ok that by (auto simp: projection_ok_def subagent_ids_def)
  then have "concat (map (\<lambda>m. subagent_ids (tm_blocks m)) (map snd (pr_subagents ?p))) = map fst (pr_subagents ?p)"
    by (rule concat_keys)
  moreover have "set (subagent_ids (tm_blocks m)) \<inter> set (subagent_ids (tm_blocks d)) = {}"
    if "m \<in> set (map snd (pr_subagents ?p))" "d \<in> set (created_since_clear events)" for m d
  proof -
    from that(1) obtain k where k: "(k, m) \<in> set (pr_subagents ?p)" by auto
    have "set (subagent_ids (tm_blocks d)) \<subseteq> pr_durable ?p"
      using ok that(2) by (auto simp: projection_ok_def project_all_messages)
    moreover have "k \<notin> pr_durable ?p" using ok k by (force simp: projection_ok_def)
    ultimately show ?thesis using key [OF k] by auto
  qed
  then have "message_subagents (map snd (pr_subagents ?p)) \<inter> message_subagents (created_since_clear events) = {}"
    unfolding message_subagents_def by blast
  moreover have "distinct (map fst (pr_subagents ?p))" using ok by (simp add: projection_ok_def)
  moreover have "[] \<notin> tm_blocks ` set (filter (\<lambda>m. tm_blocks m \<noteq> []) (map snd (pr_live ?p)))" by auto
  ultimately show ?thesis
    by (intro exI [of _ "map snd (pr_subagents ?p)"]
        exI [of _ "filter (\<lambda>m. tm_blocks m \<noteq> []) (map snd (pr_live ?p))"])
      (simp add: projectMessages_def Let_def project_all_messages)
qed

end
