(* ===== verification/Redaction.thy ===== *)
theory Redaction
  imports Prelude
begin

text \<open>
  Secret redaction of \<open>packages/core/src/events.ts\<close>: \<open>redactSecrets\<close> on a whole text and the
  streaming redactor that sees the text in chunks and must not let a secret slip through a
  chunk boundary. \<open>redact_scan\<close> is the abstract contract: one scan of the whole text from the
  left, at each position the longest secret that starts there.
\<close>

definition redacted :: jstring where
  "redacted = js ''[redacted]''"

subsection \<open>The streaming redactor\<close>

text \<open>\<open>[...new Set(secrets.filter(Boolean))].sort(...)\<close>: distinct, non-empty, longest first.\<close>

definition redactor_values :: "jstring list \<Rightarrow> jstring list" where
  "redactor_values secrets = sort_key (\<lambda>v. - int (length v)) (rev (remdups (rev (filter (\<lambda>s. s \<noteq> []) secrets))))"

definition redactor_maxLength :: "jstring list \<Rightarrow> nat" where
  "redactor_maxLength vals = (case vals of [] \<Rightarrow> 0 | v # _ \<Rightarrow> length v)"

text \<open>
  The loop of \<open>drain\<close> from an offset, on the text that remains: \<open>limit\<close> is the number of
  positions a token may still start at. It answers the output and the text left over.
\<close>

function (sequential) drain_loop :: "jstring list \<Rightarrow> nat \<Rightarrow> jstring \<Rightarrow> jstring \<times> jstring" where
  "drain_loop vals 0 text = ([], text)"
| "drain_loop vals limit [] = ([], [])"
| "drain_loop vals limit (c # text) =
     (case List.find (\<lambda>v. prefix v (c # text)) vals of
        Some secret \<Rightarrow>
          if secret = [] then ([], c # text)
          else let (out, rest) = drain_loop vals (limit - length secret) (drop (length secret) (c # text))
               in (redacted @ out, rest)
      | None \<Rightarrow>
          let (out, rest) = drain_loop vals (limit - 1) text in (c # out, rest))"
  by pat_completeness auto

termination drain_loop
  by (relation "measure (\<lambda>(vs, l, t). length t)") (auto simp: length_drop)

definition drain :: "jstring list \<Rightarrow> bool \<Rightarrow> jstring \<Rightarrow> jstring \<times> jstring" where
  "drain vals final buffer =
     (if vals = [] then (buffer, [])
      else let safeStartLimit = (if final then length buffer
                                 else length buffer + 1 - redactor_maxLength vals)
           in drain_loop vals safeStartLimit buffer)"

text \<open>\<open>push\<close> and \<open>finish\<close>: the output and the new buffer.\<close>

definition redactor_push :: "jstring list \<Rightarrow> jstring \<Rightarrow> jstring \<Rightarrow> jstring \<times> jstring" where
  "redactor_push vals buffer chunk = drain vals False (buffer @ chunk)"

definition redactor_finish :: "jstring list \<Rightarrow> jstring \<Rightarrow> jstring" where
  "redactor_finish vals buffer = fst (drain vals True buffer)"

fun redact_stream :: "jstring list \<Rightarrow> jstring \<Rightarrow> jstring list \<Rightarrow> jstring" where
  "redact_stream vals buffer [] = redactor_finish vals buffer"
| "redact_stream vals buffer (chunk # chunks) =
     (let (out, rest) = redactor_push vals buffer chunk in out @ redact_stream vals rest chunks)"

subsection \<open>The contract\<close>

text \<open>A text as literal characters and redacted secrets.\<close>

datatype token = Lit jchar | Sec jstring

function (sequential) redact_scan :: "jstring list \<Rightarrow> jstring \<Rightarrow> token list" where
  "redact_scan vals [] = []"
| "redact_scan vals (c # text) =
     (case List.find (\<lambda>v. prefix v (c # text)) vals of
        Some secret \<Rightarrow> if secret = [] then [] else Sec secret # redact_scan vals (drop (length secret) (c # text))
      | None \<Rightarrow> Lit c # redact_scan vals text)"
  by pat_completeness auto

termination redact_scan
  by (relation "measure (\<lambda>(vs, t). length t)") (auto simp: length_drop)

fun token_in :: "token \<Rightarrow> jstring" where
  "token_in (Lit c) = [c]" | "token_in (Sec s) = s"

fun token_out :: "token \<Rightarrow> jstring" where
  "token_out (Lit c) = [c]" | "token_out (Sec s) = redacted"

definition scan_out :: "jstring list \<Rightarrow> jstring \<Rightarrow> jstring" where
  "scan_out vals text = concat (map token_out (redact_scan vals text))"

lemma find_value: "List.find (\<lambda>v. prefix v t) vs = Some s \<Longrightarrow> s \<in> set vs \<and> prefix s t"
  by (auto dest: find_SomeD)

lemma prefix_append_dest: "prefix s (t @ u) \<Longrightarrow> length s \<le> length t \<Longrightarrow> prefix s t"
  by (metis prefix_length_prefix prefixI)

lemma find_extend:
  assumes "\<forall>v \<in> set vs. length v \<le> length t"
  shows "List.find (\<lambda>v. prefix v (t @ u)) vs = List.find (\<lambda>v. prefix v t) vs"
  using assms by (induction vs) (auto dest: prefix_append_dest)

text \<open>
  One drain: where every token it starts has at least the length of the longest secret in
  front of it, its output followed by the scan of what is left and of any further text is the
  scan of everything.
\<close>

lemma drain_loop_scan:
  assumes "\<forall>v \<in> set vs. v \<noteq> [] \<and> length v \<le> m"
    and "limit = 0 \<or> limit + m \<le> length text + 1"
  shows "fst (drain_loop vs limit text) @ scan_out vs (snd (drain_loop vs limit text) @ more) = scan_out vs (text @ more)"
  using assms
proof (induction vs limit "text" rule: drain_loop.induct)
  case (3 vals l c cs)
  let ?limit = "Suc l"
  have long: "\<forall>v \<in> set vals. length v \<le> length (c # cs)" using 3(3,4) by fastforce
  have fnd: "List.find (\<lambda>v. prefix v (c # cs @ more)) vals = List.find (\<lambda>v. prefix v (c # cs)) vals"
    using find_extend [OF long, of more] by simp
  show ?case
  proof (cases "List.find (\<lambda>v. prefix v (c # cs)) vals")
    case None
    have "?limit - 1 = 0 \<or> ?limit - 1 + m \<le> length cs + 1" using 3(4) by auto
    from 3(1) [OF None 3(3) this] have IH: "fst (drain_loop vals l cs) @ scan_out vals (snd (drain_loop vals l cs) @ more) =
        scan_out vals (cs @ more)" by simp
    then show ?thesis using None fnd by (simp add: scan_out_def split_beta)
  next
    case (Some secret)
    with find_value have s: "secret \<in> set vals" "prefix secret (c # cs)" by blast+
    with 3(3) have ne: "secret \<noteq> []" by blast
    let ?rest = "drop (length secret) (c # cs)"
    have "?limit - length secret = 0 \<or> ?limit - length secret + m \<le> length ?rest + 1"
      using 3(4) by auto
    with 3(2) [OF Some ne] 3(3) have IH: "fst (drain_loop vals (?limit - length secret) ?rest) @
        scan_out vals (snd (drain_loop vals (?limit - length secret) ?rest) @ more) = scan_out vals (?rest @ more)"
      by simp
    have "length secret \<le> length (c # cs)" using s(2) by (rule prefix_length_le)
    then have "drop (length secret) (c # cs @ more) = ?rest @ more" by (simp add: drop_append [of _ "c # cs", simplified])
    then show ?thesis using Some fnd ne IH by (simp add: scan_out_def split_beta)
  qed
qed (simp_all add: scan_out_def)

lemma drain_loop_final:
  "\<forall>v \<in> set vs. v \<noteq> [] \<Longrightarrow> length t \<le> limit \<Longrightarrow> drain_loop vs limit t = (scan_out vs t, [])"
proof (induction vs limit t rule: drain_loop.induct)
  case (3 vals l c cs)
  show ?case
  proof (cases "List.find (\<lambda>v. prefix v (c # cs)) vals")
    case None
    with 3 show ?thesis by (simp add: scan_out_def)
  next
    case (Some secret)
    then have ne: "secret \<noteq> []" using find_value 3(3) by blast
    with 3(2) [OF Some ne] 3(3,4) have "drain_loop vals (Suc l - length secret) (drop (length secret) (c # cs)) =
        (scan_out vals (drop (length secret) (c # cs)), [])" by simp
    with Some ne show ?thesis by (simp add: scan_out_def)
  qed
qed (simp_all add: scan_out_def)

lemma scan_out_none [simp]: "scan_out [] t = t"
  by (induction t) (simp_all add: scan_out_def)

lemma sorted_head: "sorted (map f (v # vs)) \<Longrightarrow> w \<in> set (v # vs) \<Longrightarrow> f v \<le> (f w :: int)"
  by auto

lemma redactor_values_set [simp]: "set (redactor_values secrets) = {s \<in> set secrets. s \<noteq> []}"
  by (simp add: redactor_values_def)

lemma redactor_max: "v \<in> set (redactor_values secrets) \<Longrightarrow> length v \<le> redactor_maxLength (redactor_values secrets)"
proof (cases "redactor_values secrets")
  case (Cons w ws)
  assume v: "v \<in> set (redactor_values secrets)"
  have "sorted (map (\<lambda>v. - int (length v)) (redactor_values secrets))"
    unfolding redactor_values_def by (rule sorted_sort_key)
  then have "sorted (map (\<lambda>v. - int (length v)) (w # ws))" unfolding Cons .
  from sorted_head [OF this] v show ?thesis unfolding Cons redactor_maxLength_def by simp
qed (simp add: redactor_maxLength_def)

lemma stream_is_scan:
  "redact_stream (redactor_values secrets) buf chunks = scan_out (redactor_values secrets) (buf @ concat chunks)"
proof (induction chunks arbitrary: buf)
  case Nil
  show ?case
    using drain_loop_final [of "redactor_values secrets" buf "length buf"]
    by (simp add: redactor_finish_def drain_def Let_def)
next
  case (Cons chunk chunks)
  let ?vs = "redactor_values secrets" and ?t = "buf @ chunk"
  let ?m = "redactor_maxLength ?vs"
  show ?case
  proof (cases "?vs = []")
    case True
    with Cons show ?thesis by (simp add: redactor_push_def drain_def)
  next
    case False
    have "\<forall>v \<in> set ?vs. v \<noteq> [] \<and> length v \<le> ?m" using redactor_max by simp
    moreover have "length ?t + 1 - ?m = 0 \<or> length ?t + 1 - ?m + ?m \<le> length ?t + 1" by arith
    ultimately have "fst (drain_loop ?vs (length ?t + 1 - ?m) ?t) @
        scan_out ?vs (snd (drain_loop ?vs (length ?t + 1 - ?m) ?t) @ concat chunks) = scan_out ?vs (?t @ concat chunks)"
      by (rule drain_loop_scan)
    with False Cons show ?thesis
      by (simp add: redactor_push_def drain_def Let_def split_beta)
  qed
qed

lemma scan_in:
  "\<forall>v \<in> set vs. v \<noteq> [] \<Longrightarrow> concat (map token_in (redact_scan vs t)) = t"
proof (induction vs t rule: redact_scan.induct)
  case (2 vals c cs)
  show ?case
  proof (cases "List.find (\<lambda>v. prefix v (c # cs)) vals")
    case None
    with 2 show ?thesis by simp
  next
    case (Some secret)
    then have s: "secret \<in> set vals" "prefix secret (c # cs)" using find_value by blast+
    with 2(3) have ne: "secret \<noteq> []" by blast
    from s(2) have "secret @ drop (length secret) (c # cs) = c # cs" by (auto simp: prefix_def)
    with 2(2) [OF Some ne 2(3)] Some ne show ?thesis by simp
  qed
qed simp

lemma scan_tokens:
  assumes "\<forall>v \<in> set vs. v \<noteq> []"
  shows "Sec s \<in> set (redact_scan vs t) \<Longrightarrow> s \<in> set vs"
    and "redact_scan vs t = pre @ Lit c # post \<Longrightarrow> v \<in> set vs \<Longrightarrow> \<not> prefix v (c # concat (map token_in post))"
  using assms
proof (induction vs t arbitrary: pre rule: redact_scan.induct)
  case (2 vals x cs)
  {
    case 1
    then show ?case using 2 by (auto dest: find_value split: option.splits if_splits)
  next
    case (2 pre)
    show ?case
    proof (cases "List.find (\<lambda>v. prefix v (x # cs)) vals")
      case None
      then have eq: "Lit x # redact_scan vals cs = pre @ Lit c # post" using 2 by simp
      show ?thesis
      proof (cases pre)
        case Nil
        with eq have "x = c" "redact_scan vals cs = post" by simp_all
        with scan_in [OF 2(3), of cs] None 2(2) show ?thesis by (auto simp: find_NoneD)
      next
        case (Cons p ps)
        with eq have "redact_scan vals cs = ps @ Lit c # post" by simp
        with "2.IH"(2) None 2 show ?thesis by blast
      qed
    next
      case (Some secret)
      then have ne: "secret \<noteq> []" using find_value 2(3) by blast
      with Some 2(1) have eq: "Sec secret # redact_scan vals (drop (length secret) (x # cs)) = pre @ Lit c # post"
        by simp
      then obtain ps where "redact_scan vals (drop (length secret) (x # cs)) = ps @ Lit c # post"
        by (cases pre) auto
      with "2.IH"(4) Some ne 2 show ?thesis by blast
    qed
  }
qed simp_all



subsection \<open>Redacting a whole text\<close>

text \<open>\<open>acc.split(secret)\<close>: the pieces between the occurrences, found from the left.\<close>

function (sequential) split_str :: "jstring \<Rightarrow> jstring \<Rightarrow> jstring list" where
  "split_str sep [] = [[]]"
| "split_str sep (c # s) =
     (if sep \<noteq> [] \<and> prefix sep (c # s) then [] # split_str sep (drop (length sep) (c # s))
      else case split_str sep s of [] \<Rightarrow> [[c]] | p # ps \<Rightarrow> (c # p) # ps)"
  by pat_completeness auto

termination split_str
  by (relation "measure (\<lambda>(sep, t). length t)") (auto simp: length_drop)

fun join_str :: "jstring \<Rightarrow> jstring list \<Rightarrow> jstring" where
  "join_str sep [] = []"
| "join_str sep [p] = p"
| "join_str sep (p # ps) = p @ sep @ join_str sep ps"

definition redactSecrets :: "jstring \<Rightarrow> jstring list \<Rightarrow> jstring" where
  "redactSecrets text secrets =
     foldl (\<lambda>acc secret. if secret = [] then acc else join_str redacted (split_str secret acc)) text secrets"

definition containsSecret :: "jstring \<Rightarrow> jstring list \<Rightarrow> bool" where
  "containsSecret json_text secrets \<longleftrightarrow> (\<exists>s \<in> set secrets. s \<noteq> [] \<and> contains_sub s json_text)"

lemma split_str_ne [simp]: "split_str sep t \<noteq> []"
  by (cases t) (auto split: list.splits)

lemma join_cons: "ps \<noteq> [] \<Longrightarrow> join_str sep (p # ps) = p @ sep @ join_str sep ps"
  by (cases ps) simp_all

lemma join_head: "join_str sep ((c # p) # ps) = c # join_str sep (p # ps)"
  by (cases ps) simp_all

lemma split_join_scan: "s \<noteq> [] \<Longrightarrow> join_str redacted (split_str s t) = scan_out [s] t"
proof (induction s t rule: split_str.induct)
  case (1 sep)
  then show ?case by (simp add: scan_out_def)
next
  case (2 sep c t)
  show ?case
  proof (cases "prefix sep (c # t)")
    case True
    with 2 show ?thesis by (simp add: join_cons scan_out_def)
  next
    case False
    obtain p ps where "split_str sep t = p # ps" by (cases "split_str sep t") auto
    with 2 False show ?thesis by (simp add: join_head scan_out_def)
  qed
qed

text \<open>
  A secret that no overlap with the marker can rebuild: it has no square bracket and is not a
  part of the marker.
\<close>

definition plain_secret :: "jstring \<Rightarrow> bool" where
  "plain_secret s \<longleftrightarrow> s \<noteq> [] \<and> 91 \<notin> set s \<and> 93 \<notin> set s \<and> \<not> contains_sub s redacted"

lemma redacted_ends: "redacted = 91 # js ''redacted'' @ [93]"
  by (simp add: redacted_def js_def)

lemma append_overlap:
  "a @ x = b @ y \<Longrightarrow> length b < length a \<Longrightarrow> \<exists>mid. a = b @ mid \<and> mid \<noteq> [] \<and> mid @ x = y"
  by (auto simp: append_eq_append_conv2)

lemma plain_prefix:
  "91 \<notin> set s \<Longrightarrow> concat (map token_out ts) = s @ post \<Longrightarrow> \<exists>b. ts = map Lit s @ b"
proof (induction s arbitrary: ts)
  case (Cons c s)
  then obtain t ts' where ts: "ts = t # ts'" by (cases ts) auto
  show ?case
  proof (cases t)
    case (Lit x)
    with Cons ts show ?thesis by auto
  next
    case (Sec x)
    with Cons.prems ts have "hd redacted = c" by (simp add: redacted_ends)
    with Cons.prems(1) show ?thesis by (simp add: redacted_ends)
  qed
qed simp

text \<open>A plain secret of the output stands inside a run of literals.\<close>

lemma plain_literal:
  assumes "plain_secret s"
  shows "concat (map token_out ts) = pre @ s @ post \<Longrightarrow> \<exists>a b. ts = a @ map Lit s @ b"
proof (induction ts arbitrary: pre)
  case Nil
  with assms show ?case by (simp add: plain_secret_def)
next
  case (Cons t ts)
  note all = Cons.prems
  show ?case
  proof (cases "length pre < length (token_out t)")
    case False
    with all have "concat (map token_out ts) = drop (length (token_out t)) pre @ s @ post"
      by (simp add: append_eq_append_conv_if)
    from Cons.IH [OF this] obtain a b where "ts = a @ map Lit s @ b" by blast
    then have "t # ts = (t # a) @ map Lit s @ b" by simp
    then show ?thesis by blast
  next
    case True
    show ?thesis
    proof (cases t)
      case (Lit c)
      with True have "pre = []" by simp
      with all plain_prefix [of s "t # ts" post] assms show ?thesis
        by (metis append_Nil plain_secret_def)
    next
      case (Sec x)
      have out: "redacted @ concat (map token_out ts) = pre @ s @ post" using all Sec by simp
      have "length pre < length redacted" using True Sec by simp
      with out obtain mid where mid: "redacted = pre @ mid" "mid \<noteq> []" "mid @ concat (map token_out ts) = s @ post"
        using append_overlap by blast
      from mid(1,2) have l: "last mid = 93" 
        by (metis last_appendR last_snoc append_Cons redacted_ends)
      show ?thesis
      proof (cases "length s \<le> length mid")
        case True
        with mid(3) obtain r where "mid = s @ r" by (metis append_eq_append_conv_if append_take_drop_id)
        with mid(1) have "contains_sub s redacted" by (auto simp: contains_sub_iff)
        with assms show ?thesis by (simp add: plain_secret_def)
      next
        case False
        with mid(3) have "\<exists>r. s = mid @ r"
          by (metis append_eq_append_conv_if append_take_drop_id linear)
        with mid(2) have "last mid \<in> set s" by auto
        with l assms show ?thesis by (simp add: plain_secret_def)
      qed
    qed
  qed
qed

lemma token_in_lits [simp]: "concat (map token_in (map Lit s)) = s" "concat (map (token_in \<circ> Lit) s) = s"
  by (induction s) simp_all

lemma redact_one:
  assumes "s \<noteq> []" and "plain_secret v" and "contains_sub v (scan_out [s] t)"
  shows "contains_sub v t" and "v \<noteq> s"
proof -
  have ne: "\<forall>x \<in> set [s]. x \<noteq> []" using assms(1) by simp
  from assms(3) obtain pre post where "concat (map token_out (redact_scan [s] t)) = pre @ v @ post"
    by (auto simp: contains_sub_iff scan_out_def)
  from plain_literal [OF assms(2) this] obtain a b where ts: "redact_scan [s] t = a @ map Lit v @ b" by blast
  have "t = concat (map token_in a) @ v @ concat (map token_in b)"
    using scan_in [OF ne, of t] ts by simp
  then show "contains_sub v t" by (auto simp: contains_sub_iff)
  show "v \<noteq> s"
  proof
    assume "v = s"
    with assms(1) obtain c w where v: "v = c # w" by (cases v) auto
    with ts have "redact_scan [s] t = a @ Lit c # (map Lit w @ b)" by simp
    from scan_tokens(2) [OF ne this, of s] have "\<not> prefix s (c # w @ concat (map token_in b))" by simp
    moreover have "s = c # w" using \<open>v = s\<close> v by simp
    ultimately show False by simp
  qed
qed

lemma redact_fold:
  assumes "plain_secret v" and "contains_sub v (redactSecrets text secrets)"
  shows "contains_sub v text \<and> v \<notin> set secrets"
  using assms(2)
proof (induction secrets arbitrary: "text")
  case Nil
  then show ?case by (simp add: redactSecrets_def)
next
  case (Cons s secrets)
  show ?case
  proof (cases "s = []")
    case True
    with Cons assms(1) show ?thesis by (auto simp: redactSecrets_def plain_secret_def)
  next
    case False
    then have eq: "redactSecrets text (s # secrets) = redactSecrets (scan_out [s] text) secrets"
      by (simp add: redactSecrets_def split_join_scan)
    with Cons.IH Cons.prems have "contains_sub v (scan_out [s] text)" "v \<notin> set secrets" by auto
    with redact_one [OF False assms(1)] show ?thesis by auto
  qed
qed

text \<open>
  C14. Redacting a text removes the secrets: none of the listed secrets is left in the result,
  in whatever order they are listed and even when replacing one brings the ends of another
  together, for secrets that have no square bracket and are no part of the marker itself; and
  nothing of that kind appears that the text did not contain.
\<close>

theorem redact_secrets_leaves_none:
  assumes "plain_secret v"
  shows "(v \<in> set secrets \<longrightarrow> \<not> contains_sub v (redactSecrets text secrets)) \<and>
         (contains_sub v (redactSecrets text secrets) \<longrightarrow> contains_sub v text)"
  using redact_fold [OF assms] by blast

theorem redact_secrets_leaves_none_witness:
  "\<not> contains_sub (js ''tok'') (redactSecrets (js ''ttokok'') [js ''pw'', js ''tok''])"
proof -
  have "plain_secret (js ''tok'')" by (simp add: plain_secret_def redacted_ends js_def)
  from redact_secrets_leaves_none [OF this] show ?thesis by simp
qed

end
