(* ===== verification/ComputerControl.thy ===== *)
theory ComputerControl
  imports ThreadEventsProps Example
begin

text \<open>
  Manual control of a computer, \<open>packages/adapters/src/computer-control.ts\<close>: the lease a user
  holds on the screen, its extension while a skill is taught, and its expiry, which revokes the
  provider's screen access and resumes the run that waited for the takeover.
\<close>

definition DEFAULT_TAKEOVER_LEASE_MS :: int where
  "DEFAULT_TAKEOVER_LEASE_MS = 15 * 60 * 1000"

text \<open>\<open>raw\<close> is the number read from the environment, \<open>None\<close> when it is not finite.\<close>

definition takeoverLeaseMs :: "int option \<Rightarrow> int" where
  "takeoverLeaseMs raw =
     (case raw of Some n \<Rightarrow> if n \<ge> 1000 then n else DEFAULT_TAKEOVER_LEASE_MS | None \<Rightarrow> DEFAULT_TAKEOVER_LEASE_MS)"

definition hasActiveComputerControl :: "computer_row \<Rightarrow> time \<Rightarrow> bool" where
  "hasActiveComputerControl c now \<longleftrightarrow> c_controlHolder c = HolderUser \<and> truthy (c_controlLeaseId c) \<and>
     (case c_controlLeaseExpiresAt c of None \<Rightarrow> False | Some t \<Rightarrow> t > now)"

definition teachingControlLeaseExpiresAt :: "int option \<Rightarrow> time \<Rightarrow> time \<Rightarrow> time" where
  "teachingControlLeaseExpiresAt raw teachingExpiresAt now = max (now + takeoverLeaseMs raw) teachingExpiresAt"

text \<open>The jobs an operation enqueues are part of its result.\<close>

datatype control_job = ExpireControl id id time | ContinueRun id | SleepComputer id

definition extendActiveComputerControl ::
  "int option \<Rightarrow> computer_row \<Rightarrow> id \<Rightarrow> time \<Rightarrow> time \<Rightarrow> (bool \<times> control_job list) dbtx" where
  "extendActiveComputerControl raw computer botId until now =
     (if \<not> hasActiveComputerControl computer now \<or> c_controlBotId computer \<noteq> Some botId \<or>
         \<not> truthy (c_controlLeaseId computer)
      then tx_return (False, [])
      else
        let expiresAt = teachingControlLeaseExpiresAt raw until now in
        tx_bind (update_computers
                   (\<lambda>c. c_id c = c_id computer \<and> c_controlHolder c = HolderUser \<and> c_controlBotId c = Some botId \<and>
                        c_controlLeaseId c = c_controlLeaseId computer)
                   (\<lambda>c. c\<lparr>c_controlLeaseExpiresAt := Some expiresAt\<rparr>)) (\<lambda>extended.
        if extended \<noteq> 1 then tx_return (False, [])
        else tx_return (True, [ExpireControl (c_id computer) (the (c_controlLeaseId computer)) expiresAt])))"

definition enqueueTakeoverContinuation :: "id option \<Rightarrow> control_job list" where
  "enqueueTakeoverContinuation runId = (if truthy runId then [ContinueRun (the runId)] else [])"

text \<open>
  \<open>expireComputerControl\<close> is not one transaction: the claim, the provider's revocation and the
  release follow each other, and a failing revocation (\<open>revoke\<close> is \<open>False\<close>) ends the job after
  the claim has been written, to be retried. Each stage is a definition; the whole is their
  sequence.
\<close>

datatype expire_start = NothingToExpire | NotYet time | Expired computer_row id

definition expire_check :: "id \<Rightarrow> id \<Rightarrow> time \<Rightarrow> db \<Rightarrow> expire_start" where
  "expire_check computerId leaseId now d =
     (case find_computer computerId d of
        None \<Rightarrow> NothingToExpire
      | Some computer \<Rightarrow>
          if c_controlLeaseId computer \<noteq> Some leaseId then NothingToExpire
          else if \<not> truthy (c_controlBotId computer) then NothingToExpire
          else case c_controlLeaseExpiresAt computer of
                 Some t \<Rightarrow> if t > now then NotYet t else Expired computer (the (c_controlBotId computer))
               | None \<Rightarrow> Expired computer (the (c_controlBotId computer)))"

definition expire_claim :: "id \<Rightarrow> id \<Rightarrow> nat dbtx" where
  "expire_claim computerId leaseId =
     update_computers (\<lambda>c. c_id c = computerId \<and> c_controlLeaseId c = Some leaseId)
       (\<lambda>c. c\<lparr>c_controlHolder := HolderNone\<rparr>)"

definition expire_release :: "computer_row \<Rightarrow> id \<Rightarrow> id \<Rightarrow> release_input" where
  "expire_release computer botId leaseId =
     \<lparr>re_workspaceId = c_workspaceId computer, re_computerId = c_id computer, re_botId = botId,
      re_runId = c_controlRunId computer, re_leaseId = leaseId, re_holder = HolderNone, re_reason = ReasonExpired\<rparr>"

definition expireComputerControl ::
  "id \<Rightarrow> time \<Rightarrow> id \<Rightarrow> id \<Rightarrow> bool \<Rightarrow> db \<Rightarrow> (db_error + bool \<times> control_job list) \<times> db" where
  "expireComputerControl eid now computerId leaseId revoke d =
     (case expire_check computerId leaseId now d of
        NothingToExpire \<Rightarrow> (Inr (False, []), d)
      | NotYet t \<Rightarrow> (Inr (False, [ExpireControl computerId leaseId t]), d)
      | Expired computer botId \<Rightarrow>
          (case run_transaction (expire_claim computerId leaseId) d of
             (Inl e, d1) \<Rightarrow> (Inl e, d1)
           | (Inr claimed, d1) \<Rightarrow>
               if claimed \<noteq> 1 then (Inr (False, []), d1)
               else if truthy (c_providerRef computer) \<and> \<not> revoke
               then (Inl (AppError ''screen control could not be revoked''), d1)
               else (case run_transaction (finalizeComputerControlRelease_tx eid now
                             (expire_release computer botId leaseId)) d1 of
                       (Inl e, d2) \<Rightarrow> (Inl e, d2)
                     | (Inr released, d2) \<Rightarrow>
                         (Inr (released \<noteq> None,
                               case released of None \<Rightarrow> [] | Some (runId, _) \<Rightarrow> enqueueTakeoverContinuation runId),
                          d2))))"

subsection \<open>What expiry guarantees\<close>

lemma controlled_claimed:
  "controlled_computer (expire_release k b leaseId) (c\<lparr>c_controlHolder := h\<rparr>) =
   controlled_computer (expire_release k b leaseId) c"
  by (simp add: controlled_computer_def)

text \<open>A release that was committed cleared the lease of its computer.\<close>

lemma release_clears:
  assumes "finalizeComputerControlRelease_tx eid now i d = Inr (Some v, d')"
    and "c \<in> set (db_computers d')" and "c_id c = re_computerId i" and "distinct (map c_id (db_computers d))"
  shows "c_controlLeaseId c = None"
proof -
  have frame: "tx_pres (\<lambda>s. db_computers s = v) (release_resume eid now i)" for v
    unfolding release_resume_def release_event_def appendEventInTransaction_def
    by (intro tx_intros)
      (auto intro!: tx_presI simp: bulk_defs create_defs split: option.splits if_splits)
  from assms(1) obtain d1 where up: "update_computers (controlled_computer i) (clear_control (re_holder i)) d = Inr (1, d1)"
    and rest: "release_resume eid now i d1 = Inr (Some v, d')"
    unfolding finalizeComputerControlRelease_tx_def by (auto simp: update_computers_def split: if_splits)
  from tx_presD [OF frame _ rest] have d': "db_computers d' = db_computers d1" by blast
  from up have d1: "db_computers d1 = update_where (controlled_computer i) (clear_control (re_holder i)) (db_computers d)"
    and one: "count_where (controlled_computer i) (db_computers d) = 1" by (auto simp: update_computers_def)
  then obtain k where k: "k \<in> set (db_computers d)" "controlled_computer i k"
    using count_where_pos [of "controlled_computer i" "db_computers d"] by auto
  from assms(2) d' d1 obtain q where q: "q \<in> set (db_computers d)"
    and c: "c = (if controlled_computer i q then clear_control (re_holder i) q else q)"
    by (auto simp: set_update_where)
  have "c_id q = c_id c" using c by (simp add: clear_control_def)
  with assms(3) k have "q = k"
    using distinct_key_eq [OF assms(4) q k(1)] by (simp add: controlled_computer_def)
  with c k(2) have "c = clear_control (re_holder i) k" by (simp only: if_True)
  then show ?thesis by (simp add: clear_control_def)
qed

text \<open>
  A control lease expires neither early nor twice: before its time nothing changes and the
  check is scheduled again for the very moment; and once an expiry has been carried out, the
  same lease is not on the computer any more, so that every later expiry of it, however late
  or retried, answers \<open>false\<close>, changes nothing and resumes no run.
\<close>

theorem control_expires_once_and_not_early:
  assumes "distinct (map c_id (db_computers d))"
  shows "(\<forall>c. find_computer cid d = Some c \<longrightarrow> c_controlLeaseId c = Some lease \<longrightarrow> truthy (c_controlBotId c) \<longrightarrow>
            (\<forall>t. c_controlLeaseExpiresAt c = Some t \<longrightarrow> now < t \<longrightarrow>
               expireComputerControl eid now cid lease revoke d = (Inr (False, [ExpireControl cid lease t]), d))) \<and>
         (\<forall>jobs d'. expireComputerControl eid now cid lease revoke d = (Inr (True, jobs), d') \<longrightarrow>
            expireComputerControl eid' now' cid lease revoke' d' = (Inr (False, []), d'))"
proof (intro conjI allI impI)
  fix c t assume "find_computer cid d = Some c" "c_controlLeaseId c = Some lease" "truthy (c_controlBotId c)"
    "c_controlLeaseExpiresAt c = Some t" "now < t"
  then show "expireComputerControl eid now cid lease revoke d = (Inr (False, [ExpireControl cid lease t]), d)"
    by (simp add: expireComputerControl_def expire_check_def)
next
  fix jobs d'
  assume run: "expireComputerControl eid now cid lease revoke d = (Inr (True, jobs), d')"
  then obtain computer botId d1 v where
    chk: "expire_check cid lease now d = Expired computer botId"
    and claim: "expire_claim cid lease d = Inr (1, d1)"
    and rel: "finalizeComputerControlRelease_tx eid now (expire_release computer botId lease) d1 = Inr (Some v, d')"
    by (auto simp: expireComputerControl_def split: expire_start.splits sum.splits prod.splits if_splits)
  from chk have id: "c_id computer = cid"
    by (auto simp: expire_check_def dest: find_computer_SomeD split: option.splits if_splits)
  have dist: "distinct (map c_id (db_computers d1))"
  proof -
    have "keyed_update c_id (\<lambda>c. c\<lparr>c_controlHolder := HolderNone\<rparr>)" by (simp add: keyed_update_def)
    from keyed_update.distinct_update [OF this assms] claim show ?thesis
      by (auto simp: expire_claim_def update_computers_def)
  qed
  have "c_controlLeaseId c = None" if "find_computer cid d' = Some c" for c
    using release_clears [OF rel _ _ dist] find_computer_SomeD [OF that] id by (simp add: expire_release_def)
  then have "expire_check cid lease now' d' = NothingToExpire"
    by (auto simp: expire_check_def split: option.splits)
  then show "expireComputerControl eid' now' cid lease revoke' d' = (Inr (False, []), d')"
    by (simp add: expireComputerControl_def)
qed

definition example_controlled :: computer_row where
  "example_controlled = \<lparr>c_id = js ''c'', c_workspaceId = ws1, c_userId = user1, c_scope = ScopeTeam,
     c_providerRef = Some (js ''p''), c_state = PoweredOn, c_homeRevision = [], c_kind = js ''desktop'', c_controlHolder = HolderUser,
     c_controlLeaseId = Some (js ''l''), c_controlLeaseExpiresAt = Some 50, c_controlBotId = Some bot1,
     c_controlRunId = None, c_executionRunId = None, c_executionBotId = None,
     c_executionLeaseExpiresAt = None, c_updatedAt = 1\<rparr>"

lemma example_expiry:
  "\<exists>jobs d'. expireComputerControl (js ''e7'') 60 (js ''c'') (js ''l'') True (example_db\<lparr>db_computers := [example_controlled]\<rparr>)
     = (Inr (True, jobs), d')"
  by (simp del: tx_bind_run tx_then_run tx_get_run tx_return_run
      add: tx_eval expireComputerControl_def expire_check_def expire_claim_def expire_release_def find_computer_def
      finalizeComputerControlRelease_tx_def release_resume_def release_event_def bot_thread_def update_computers_def
      controlled_computer_def clear_control_def count_where_def appendEventInTransaction_def update_thread_def
      create_event_def assertRunCanWriteHistory_def example_controlled_def example_defs ids)

theorem control_expires_once_and_not_early_witness:
  "\<exists>d'. snd (expireComputerControl (js ''e7'') 60 (js ''c'') (js ''l'') True (example_db\<lparr>db_computers := [example_controlled]\<rparr>)) = d' \<and>
     expireComputerControl (js ''e8'') 70 (js ''c'') (js ''l'') True d' = (Inr (False, []), d')"
proof -
  have "distinct (map c_id (db_computers (example_db\<lparr>db_computers := [example_controlled]\<rparr>)))" by simp
  note once = control_expires_once_and_not_early [OF this, THEN conjunct2, rule_format]
  obtain jobs d' where run: "expireComputerControl (js ''e7'') 60 (js ''c'') (js ''l'') True
      (example_db\<lparr>db_computers := [example_controlled]\<rparr>) = (Inr (True, jobs), d')"
    using example_expiry by blast
  from once [OF run, of "js ''e8''" 70 True] run show ?thesis by simp
qed

end
