(* ===== verification/ComputerLease.thy ===== *)
theory ComputerLease
  imports ComputerControl
begin

text \<open>
  Execution leases of a shared computer (\<open>packages/adapters/src/computer-lifecycle.ts\<close>) and the
  idle suspension that competes with them (\<open>packages/adapters/src/computer-idle.ts\<close>). Each
  definition is one statement on the database; the step relation interleaves the statements of
  any number of runs that acquire, renew and release with those of the sleeper, of a boot, and
  of the clock.
\<close>

definition EXECUTION_LEASE_MS :: int where
  "EXECUTION_LEASE_MS = 5 * 60000"

record lease_input =
  li_computerId :: id
  li_runId :: id
  li_botId :: id
  li_resumeHeldLease :: bool

record execution_lease =
  xl_computerId :: id
  xl_botId :: id
  xl_runId :: id
  xl_fence :: int

subsection \<open>Acquiring, renewing and releasing\<close>

datatype acquire_start = NoLeaseNeeded | ComputerBusy | MayAcquire

text \<open>The reads before a lease is taken: a computer of its own needs none.\<close>

definition acquire_check :: "id \<Rightarrow> db \<Rightarrow> db_error + acquire_start" where
  "acquire_check cid d =
     (case find_computer cid d of
        None \<Rightarrow> Inl RecordNotFound
      | Some computer \<Rightarrow>
          if c_scope computer \<noteq> ScopeTeam then Inr NoLeaseNeeded
          else if c_state computer = Suspending then Inr ComputerBusy
          else Inr MayAcquire)"

definition reclaimable :: "time \<Rightarrow> lease_input \<Rightarrow> lease_row \<Rightarrow> bool" where
  "reclaimable now i l \<longleftrightarrow> l_computerId l = li_computerId i \<and> l_botId l = li_botId i \<and>
     (l_expiresAt l < now \<or> (li_resumeHeldLease i \<and> l_runId l = li_runId i))"

definition reclaim_row :: "time \<Rightarrow> lease_input \<Rightarrow> lease_row \<Rightarrow> lease_row" where
  "reclaim_row now i l = l\<lparr>l_runId := li_runId i, l_expiresAt := now + EXECUTION_LEASE_MS, l_fence := l_fence l + 1\<rparr>"

definition lease_of :: "lease_input \<Rightarrow> int \<Rightarrow> execution_lease" where
  "lease_of i fence = \<lparr>xl_computerId = li_computerId i, xl_botId = li_botId i, xl_runId = li_runId i, xl_fence = fence\<rparr>"

text \<open>\<open>updateManyAndReturn\<close>: the first updated row, if any.\<close>

definition acquire_reclaim :: "time \<Rightarrow> lease_input \<Rightarrow> execution_lease option dbtx" where
  "acquire_reclaim now i = (\<lambda>d.
     Inr (map_option (\<lambda>l. lease_of i (l_fence (reclaim_row now i l))) (List.find (reclaimable now i) (db_leases d)),
          d\<lparr>db_leases := update_where (reclaimable now i) (reclaim_row now i) (db_leases d)\<rparr>))"

definition acquire_create :: "time \<Rightarrow> lease_input \<Rightarrow> execution_lease dbtx" where
  "acquire_create now i =
     tx_bind (create_lease \<lparr>l_computerId = li_computerId i, l_botId = li_botId i, l_runId = li_runId i,
        l_fence = 1, l_expiresAt = now + EXECUTION_LEASE_MS\<rparr>) (\<lambda>created.
     tx_return (lease_of i (l_fence created)))"

definition holds_row :: "execution_lease \<Rightarrow> lease_row \<Rightarrow> bool" where
  "holds_row x l \<longleftrightarrow> l_computerId l = xl_computerId x \<and> l_botId l = xl_botId x \<and>
     l_runId l = xl_runId x \<and> l_fence l = xl_fence x"

definition releaseComputerExecutionLease :: "execution_lease option \<Rightarrow> unit dbtx" where
  "releaseComputerExecutionLease lease =
     (case lease of None \<Rightarrow> tx_skip | Some x \<Rightarrow> delete_leases (holds_row x))"

text \<open>\<open>False\<close> is the \<open>ComputerBusyError\<close> of a computer that started to suspend meanwhile.\<close>

definition validateAcquiredComputerLease :: "execution_lease \<Rightarrow> bool dbtx" where
  "validateAcquiredComputerLease lease = (\<lambda>d.
     case find_computer (xl_computerId lease) d of
       None \<Rightarrow> Inl RecordNotFound
     | Some computer \<Rightarrow>
         if c_state computer \<noteq> Suspending then Inr (True, d)
         else tx_then (releaseComputerExecutionLease (Some lease)) (tx_return False) d)"

definition renewComputerExecutionLease :: "time \<Rightarrow> execution_lease option \<Rightarrow> bool dbtx" where
  "renewComputerExecutionLease now lease =
     (case lease of None \<Rightarrow> tx_return True
      | Some x \<Rightarrow> tx_bind (update_leases (holds_row x) (\<lambda>l. l\<lparr>l_expiresAt := now + EXECUTION_LEASE_MS\<rparr>))
          (\<lambda>renewed. tx_return (renewed = 1)))"

definition holdComputerExecutionLeaseForTakeover :: "time \<Rightarrow> execution_lease option \<Rightarrow> bool dbtx" where
  "holdComputerExecutionLeaseForTakeover now lease =
     (case lease of None \<Rightarrow> tx_return True
      | Some x \<Rightarrow> tx_bind (update_leases (holds_row x) (\<lambda>l. l\<lparr>l_expiresAt := now + 24 * 60 * 60000\<rparr>))
          (\<lambda>held. tx_return (held = 1)))"

text \<open>The whole acquisition when nothing interleaves.\<close>

definition acquireComputerExecutionLease :: "time \<Rightarrow> lease_input \<Rightarrow> execution_lease option dbtx" where
  "acquireComputerExecutionLease now i = (\<lambda>d.
     case acquire_check (li_computerId i) d of
       Inl e \<Rightarrow> Inl e
     | Inr NoLeaseNeeded \<Rightarrow> Inr (None, d)
     | Inr ComputerBusy \<Rightarrow> Inl (AppError ''Computer is busy'')
     | Inr MayAcquire \<Rightarrow>
         tx_bind (tx_bind (acquire_reclaim now i) (\<lambda>reclaimed.
                    case reclaimed of Some x \<Rightarrow> tx_return x
                    | None \<Rightarrow> (\<lambda>s. case acquire_create now i s of
                                   Inl _ \<Rightarrow> Inl (AppError ''Computer is busy'') | Inr r \<Rightarrow> Inr r)))
           (\<lambda>x. tx_bind (validateAcquiredComputerLease x) (\<lambda>valid.
              if valid then tx_return (Some x) else tx_throw (AppError ''Computer is busy''))) d)"

subsection \<open>Suspending an idle computer\<close>

definition sleep_activeStatuses :: "computer_row \<Rightarrow> time \<Rightarrow> run_status list" where
  "sleep_activeStatuses c now =
     (if hasActiveComputerControl c now then ACTIVE_RUN_STATUSES
      else filter (\<lambda>s. s \<noteq> WaitingTakeover) ACTIVE_RUN_STATUSES)"

definition findActiveRun :: "id \<Rightarrow> run_status list \<Rightarrow> db \<Rightarrow> bool" where
  "findActiveRun cid sts d \<longleftrightarrow>
     (\<exists>r \<in> set (db_runs d). r_status r \<in> set sts \<and>
        (\<exists>b \<in> set (db_bots d). b_id b = r_botId r \<and> b_computerId b = Some cid))"

text \<open>The computer a sleep job may suspend.\<close>

definition sleep_candidate :: "id \<Rightarrow> db \<Rightarrow> computer_row option" where
  "sleep_candidate cid d =
     (case find_computer cid d of None \<Rightarrow> None
      | Some c \<Rightarrow> if truthy (c_providerRef c) \<and> c_state c = PoweredOn then Some c else None)"

definition sleep_claimable :: "time \<Rightarrow> computer_row \<Rightarrow> db \<Rightarrow> computer_row \<Rightarrow> bool" where
  "sleep_claimable checkpointedAt seen d c \<longleftrightarrow> c_id c = c_id seen \<and> c_state c = PoweredOn \<and>
     c_providerRef c = c_providerRef seen \<and> c_updatedAt c = c_updatedAt seen \<and> c_executionRunId c = None \<and>
     \<not> (\<exists>l \<in> set (db_leases d). l_computerId l = c_id c \<and> l_expiresAt l > checkpointedAt)"

definition sleep_claim :: "time \<Rightarrow> jstring \<Rightarrow> computer_row \<Rightarrow> nat dbtx" where
  "sleep_claim checkpointedAt revision seen = (\<lambda>d.
     update_computers (sleep_claimable checkpointedAt seen d)
       (\<lambda>c. c\<lparr>c_state := Suspending, c_homeRevision := revision, c_updatedAt := checkpointedAt\<rparr>) d)"

definition sleep_abort :: "id \<Rightarrow> nat dbtx" where
  "sleep_abort cid = update_computers (\<lambda>c. c_id c = cid \<and> c_state c = Suspending) (\<lambda>c. c\<lparr>c_state := PoweredOn\<rparr>)"

text \<open>What the two reads after the claim must see for the sandbox to be stopped.\<close>

definition sleep_confirmed :: "time \<Rightarrow> computer_row \<Rightarrow> run_status list \<Rightarrow> db \<Rightarrow> bool" where
  "sleep_confirmed checkpointedAt seen sts d \<longleftrightarrow> \<not> findActiveRun (c_id seen) sts d \<and>
     (case find_computer (c_id seen) d of None \<Rightarrow> False
      | Some c \<Rightarrow> c_state c = Suspending \<and> c_providerRef c = c_providerRef seen \<and> c_updatedAt c = checkpointedAt)"

definition sleep_finish :: "id \<Rightarrow> unit dbtx" where
  "sleep_finish cid = update_computer (\<lambda>c. c_id c = cid)
     (\<lambda>c. c\<lparr>c_state := Suspended, c_controlHolder := HolderNone, c_controlLeaseId := None,
            c_controlLeaseExpiresAt := None, c_controlBotId := None, c_controlRunId := None\<rparr>)"

text \<open>
  The whole of \<open>sleepComputerIfIdle\<close> when nothing interleaves. \<open>t\<close> and \<open>revision\<close> come from the
  checkpoint of the workspace, \<open>revoke\<close> and \<open>stopped\<close> say whether the provider's calls
  succeeded, and \<open>eid\<close> gives the identifiers of the events. It answers the jobs it enqueues.
\<close>

fun suspended_events :: "(id \<Rightarrow> id) \<Rightarrow> time \<Rightarrow> id \<Rightarrow> bot_row list \<Rightarrow> db \<Rightarrow> (db_error + unit) \<times> db" where
  "suspended_events eid now ws [] d = (Inr (), d)"
| "suspended_events eid now ws (b # bots) d =
     (case bot_thread (b_id b) d of
        None \<Rightarrow> suspended_events eid now ws bots d
      | Some t \<Rightarrow>
          (case appendEvent (eid (b_id b)) now
                  \<lparr>ae_workspaceId = ws, ae_threadId = t_id t, ae_botId = b_id b, ae_type = ComputerStatus,
                   ae_payload = fields_payload [(js ''status'', JStr (js ''suspended''))], ae_runId = None\<rparr> d of
             (Inl e, d') \<Rightarrow> (Inl e, d')
           | (Inr _, d') \<Rightarrow> suspended_events eid now ws bots d'))"

definition sleep_stop ::
  "(id \<Rightarrow> id) \<Rightarrow> time \<Rightarrow> computer_row \<Rightarrow> bool \<Rightarrow> db \<Rightarrow> (db_error + unit) \<times> db" where
  "sleep_stop eid now computer stopped d =
     (if \<not> stopped then (Inl (AppError ''sandbox stop failed''), snd (run_transaction (sleep_abort (c_id computer)) d))
      else case run_transaction (sleep_finish (c_id computer)) d of
             (Inl e, d') \<Rightarrow> (Inl e, d')
           | (Inr _, d') \<Rightarrow>
               suspended_events eid now (c_workspaceId computer)
                 (filter (\<lambda>b. b_computerId b = Some (c_id computer)) (db_bots d')) d')"

definition sleep_attempt ::
  "(id \<Rightarrow> id) \<Rightarrow> time \<Rightarrow> time \<Rightarrow> jstring \<Rightarrow> bool \<Rightarrow> computer_row \<Rightarrow> db \<Rightarrow> (db_error + control_job list) \<times> db" where
  "sleep_attempt eid now t revision stopped computer d =
     (let cid = c_id computer; sts = sleep_activeStatuses computer now in
      if findActiveRun cid sts d then (Inr [SleepComputer cid], d)
      else case run_transaction (sleep_claim t revision computer) d of
             (Inl e, d1) \<Rightarrow> (Inl e, d1)
           | (Inr recorded, d1) \<Rightarrow>
               if recorded \<noteq> 1 then (Inr [SleepComputer cid], d1)
               else if \<not> sleep_confirmed t computer sts d1
               then (Inr [SleepComputer cid], snd (run_transaction (sleep_abort cid) d1))
               else case sleep_stop eid now computer stopped d1 of
                      (Inl e, d2) \<Rightarrow> (Inl e, d2) | (Inr _, d2) \<Rightarrow> (Inr [], d2))"

definition sleepComputerIfIdle ::
  "(id \<Rightarrow> id) \<Rightarrow> id \<Rightarrow> time \<Rightarrow> time \<Rightarrow> jstring \<Rightarrow> bool \<Rightarrow> bool \<Rightarrow> id \<Rightarrow> db \<Rightarrow> (db_error + control_job list) \<times> db" where
  "sleepComputerIfIdle eid expireId now t revision revoke stopped computerId d =
     (case sleep_candidate computerId d of
        None \<Rightarrow> (Inr [], d)
      | Some computer \<Rightarrow>
          if truthy (c_controlBotId computer) \<and> truthy (c_controlLeaseId computer) \<and>
             \<not> hasActiveComputerControl computer now
          then (case expireComputerControl expireId now computerId (the (c_controlLeaseId computer)) revoke d of
                  (Inl e, d1) \<Rightarrow> (Inl e, d1)
                | (Inr (_, jobs), d1) \<Rightarrow>
                    (case sleep_candidate computerId d1 of
                       None \<Rightarrow> (Inr jobs, d1)
                     | Some current \<Rightarrow>
                         (case sleep_attempt eid now t revision stopped current d1 of
                            (Inl e, d2) \<Rightarrow> (Inl e, d2) | (Inr later, d2) \<Rightarrow> (Inr (jobs @ later), d2))))
          else sleep_attempt eid now t revision stopped computer d)"

subsection \<open>Booting\<close>

text \<open>
  The statements of \<open>provisionComputer\<close> around the provider calls: the claim of the boot, the
  activation with the control it keeps or clears (a reference is the provider's identifier and
  kind of the sandbox), and the record of a failure (\<open>stranded\<close> is
  the sandbox that could not be rolled back).
\<close>

definition bot_on_computer :: "id option \<Rightarrow> id \<Rightarrow> db \<Rightarrow> bool" where
  "bot_on_computer botId cid d \<longleftrightarrow> truthy botId \<longrightarrow>
     (\<exists>b \<in> set (db_bots d). Some (b_id b) = botId \<and> b_computerId b = Some cid \<and> b_archivedAt b = None)"

definition provision_claim :: "id \<Rightarrow> id option \<Rightarrow> nat dbtx" where
  "provision_claim cid botId = (\<lambda>d.
     update_computers (\<lambda>c. c_id c = cid \<and> c_state c \<in> set [Stopped, Suspended, Errored] \<and> bot_on_computer botId cid d)
       (\<lambda>c. c\<lparr>c_state := Booting\<rparr>) d)"

type_synonym computer_ref = "jstring \<times> jstring"

definition activate_row :: "time \<Rightarrow> computer_row \<Rightarrow> computer_ref \<Rightarrow> control_holder \<Rightarrow> computer_row \<Rightarrow> computer_row" where
  "activate_row now existing ref holder c =
     (if hasActiveComputerControl existing now
      then c\<lparr>c_state := PoweredOn, c_providerRef := Some (fst ref), c_kind := snd ref, c_controlHolder := HolderUser\<rparr>
      else c\<lparr>c_state := PoweredOn, c_providerRef := Some (fst ref), c_kind := snd ref, c_controlHolder := holder,
             c_controlLeaseId := None, c_controlLeaseExpiresAt := None, c_controlBotId := None, c_controlRunId := None\<rparr>)"

definition provision_activate ::
  "time \<Rightarrow> id \<Rightarrow> id option \<Rightarrow> computer_row \<Rightarrow> computer_ref \<Rightarrow> control_holder \<Rightarrow> nat dbtx" where
  "provision_activate now cid botId existing ref holder = (\<lambda>d.
     update_computers (\<lambda>c. c_id c = cid \<and> c_state c = Booting \<and> bot_on_computer botId cid d)
       (activate_row now existing ref holder) d)"

definition provision_failed :: "id \<Rightarrow> computer_ref option \<Rightarrow> nat dbtx" where
  "provision_failed cid stranded =
     update_computers (\<lambda>c. c_id c = cid \<and> c_state c = Booting)
       (\<lambda>c. case stranded of None \<Rightarrow> c\<lparr>c_state := Errored\<rparr>
             | Some ref \<Rightarrow> c\<lparr>c_state := Errored, c_providerRef := Some (fst ref), c_kind := snd ref\<rparr>)"

subsection \<open>Interleavings\<close>

text \<open>
  Where a run stands in its acquisition. \<open>Checked\<close> and \<open>Missed\<close> keep the time it read; the
  sleeper keeps the computer it saw and the sts it looks for.
\<close>

datatype acq_phase =
    AcqIdle
  | AcqChecked time lease_input
  | AcqMissed time lease_input
  | AcqCreated execution_lease
  | AcqHolding execution_lease

datatype sleep_phase =
    SleepIdle
  | SleepClaimed time computer_row "run_status list"
  | SleepStopping computer_row

text \<open>\<open>ls_lapsed\<close> records the runs whose lease ran out at some time since they took it.\<close>

record lease_sys =
  ls_now :: time
  ls_db :: db
  ls_phase :: "id \<Rightarrow> acq_phase"
  ls_sleep :: sleep_phase
  ls_lapsed :: "id set"

definition taken :: "lease_sys \<Rightarrow> id \<Rightarrow> execution_lease \<Rightarrow> bool" where
  "taken s r x \<longleftrightarrow> ls_phase s r = AcqCreated x \<or> ls_phase s r = AcqHolding x"

definition lease_live :: "time \<Rightarrow> db \<Rightarrow> execution_lease \<Rightarrow> bool" where
  "lease_live now d x \<longleftrightarrow> (\<exists>l \<in> set (db_leases d). holds_row x l \<and> l_expiresAt l > now)"

definition take_lease :: "id \<Rightarrow> time \<Rightarrow> execution_lease \<Rightarrow> db \<Rightarrow> lease_sys \<Rightarrow> lease_sys" where
  "take_lease r t x d s = s\<lparr>ls_db := d, ls_phase := (ls_phase s)(r := AcqCreated x),
     ls_lapsed := (if t + EXECUTION_LEASE_MS > ls_now s then ls_lapsed s - {r} else insert r (ls_lapsed s))\<rparr>"

inductive lease_step :: "id \<Rightarrow> lease_sys \<Rightarrow> lease_sys \<Rightarrow> bool" for cid where
  step_check: "ls_phase s r = AcqIdle \<Longrightarrow> li_computerId i = cid \<Longrightarrow> li_runId i = r \<Longrightarrow>
     acquire_check cid (ls_db s) = Inr MayAcquire \<Longrightarrow>
     lease_step cid s (s\<lparr>ls_phase := (ls_phase s)(r := AcqChecked (ls_now s) i)\<rparr>)"
| step_reclaim: "ls_phase s r = AcqChecked t i \<Longrightarrow> acquire_reclaim t i (ls_db s) = Inr (Some x, d) \<Longrightarrow>
     lease_step cid s (take_lease r t x d s)"
| step_missed: "ls_phase s r = AcqChecked t i \<Longrightarrow> acquire_reclaim t i (ls_db s) = Inr (None, d) \<Longrightarrow>
     lease_step cid s (s\<lparr>ls_phase := (ls_phase s)(r := AcqMissed t i), ls_db := d\<rparr>)"
| step_create: "ls_phase s r = AcqMissed t i \<Longrightarrow> acquire_create t i (ls_db s) = Inr (x, d) \<Longrightarrow>
     lease_step cid s (take_lease r t x d s)"
| step_busy: "ls_phase s r = AcqMissed t i \<Longrightarrow> acquire_create t i (ls_db s) = Inl e \<Longrightarrow>
     lease_step cid s (s\<lparr>ls_phase := (ls_phase s)(r := AcqIdle)\<rparr>)"
| step_validate: "ls_phase s r = AcqCreated x \<Longrightarrow> validateAcquiredComputerLease x (ls_db s) = Inr (valid, d) \<Longrightarrow>
     lease_step cid s (s\<lparr>ls_phase := (ls_phase s)(r := (if valid then AcqHolding x else AcqIdle)), ls_db := d\<rparr>)"
| step_renew: "ls_phase s r = AcqHolding x \<Longrightarrow> renewComputerExecutionLease (ls_now s) (Some x) (ls_db s) = Inr (b, d) \<Longrightarrow>
     lease_step cid s (s\<lparr>ls_db := d\<rparr>)"
| step_hold: "ls_phase s r = AcqHolding x \<Longrightarrow>
     holdComputerExecutionLeaseForTakeover (ls_now s) (Some x) (ls_db s) = Inr (b, d) \<Longrightarrow>
     lease_step cid s (s\<lparr>ls_db := d\<rparr>)"
| step_release: "ls_phase s r = AcqHolding x \<Longrightarrow> releaseComputerExecutionLease (Some x) (ls_db s) = Inr (u, d) \<Longrightarrow>
     lease_step cid s (s\<lparr>ls_phase := (ls_phase s)(r := AcqIdle), ls_db := d\<rparr>)"
| step_tick: "ls_now s \<le> now \<Longrightarrow>
     lease_step cid s (s\<lparr>ls_now := now,
       ls_lapsed := ls_lapsed s \<union> {r. \<exists>x. taken s r x \<and> \<not> lease_live now (ls_db s) x}\<rparr>)"
| step_sleep_claim: "ls_sleep s = SleepIdle \<Longrightarrow> c_id seen = cid \<Longrightarrow> t \<le> ls_now s \<Longrightarrow>
     sleep_claim t revision seen (ls_db s) = Inr (n, d) \<Longrightarrow>
     lease_step cid s (s\<lparr>ls_db := d, ls_sleep := (if n = 1 then SleepClaimed t seen sts else SleepIdle)\<rparr>)"
| step_sleep_confirm: "ls_sleep s = SleepClaimed t seen sts \<Longrightarrow> sleep_confirmed t seen sts (ls_db s) \<Longrightarrow>
     lease_step cid s (s\<lparr>ls_sleep := SleepStopping seen\<rparr>)"
| step_sleep_abort: "ls_sleep s = SleepClaimed t seen sts \<or> ls_sleep s = SleepStopping seen \<Longrightarrow>
     sleep_abort (c_id seen) (ls_db s) = Inr (n, d) \<Longrightarrow>
     lease_step cid s (s\<lparr>ls_db := d, ls_sleep := SleepIdle\<rparr>)"
| step_sleep_finish: "ls_sleep s = SleepStopping seen \<Longrightarrow> sleep_finish (c_id seen) (ls_db s) = Inr (u, d) \<Longrightarrow>
     lease_step cid s (s\<lparr>ls_db := d, ls_sleep := SleepIdle\<rparr>)"
| step_boot: "provision_claim cid botId (ls_db s) = Inr (n, d) \<or>
       provision_activate now cid botId existing ref holder (ls_db s) = Inr (n, d) \<or>
       provision_failed cid stranded (ls_db s) = Inr (n, d) \<Longrightarrow>
     lease_step cid s (s\<lparr>ls_db := d\<rparr>)"
| step_runs: "db_computers d = db_computers (ls_db s) \<Longrightarrow> db_leases d = db_leases (ls_db s) \<Longrightarrow>
     lease_step cid s (s\<lparr>ls_db := d\<rparr>)"

inductive_cases lease_stepE: "lease_step cid s s'"

definition lease_init :: "time \<Rightarrow> db \<Rightarrow> lease_sys" where
  "lease_init now d = \<lparr>ls_now = now, ls_db = d, ls_phase = (\<lambda>_. AcqIdle), ls_sleep = SleepIdle, ls_lapsed = {}\<rparr>"

subsection \<open>The invariant\<close>

definition leases_unique :: "db \<Rightarrow> bool" where
  "leases_unique d \<longleftrightarrow> distinct (map (\<lambda>l. (l_computerId l, l_botId l)) (db_leases d))"

definition asleep :: "lease_sys \<Rightarrow> bool" where
  "asleep s \<longleftrightarrow> ls_sleep s \<noteq> SleepIdle"

definition suspending :: "id \<Rightarrow> db \<Rightarrow> bool" where
  "suspending cid d \<longleftrightarrow> (\<forall>c \<in> set (db_computers d). c_id c = cid \<longrightarrow> c_state c = Suspending)"

text \<open>The tables: keys are unique, and while the sleeper is past its claim the computer is suspending.\<close>

definition tables_inv :: "id \<Rightarrow> lease_sys \<Rightarrow> bool" where
  "tables_inv cid s \<longleftrightarrow> leases_unique (ls_db s) \<and> distinct (map c_id (db_computers (ls_db s))) \<and>
     (asleep s \<longrightarrow> suspending cid (ls_db s)) \<and>
     (\<forall>t seen sts. ls_sleep s = SleepClaimed t seen sts \<or> ls_sleep s = SleepStopping seen \<longrightarrow> c_id seen = cid)"

text \<open>The phases: what a run reads is its own, and a lease it took is live unless it lapsed.\<close>

definition phase_inv :: "id \<Rightarrow> lease_sys \<Rightarrow> bool" where
  "phase_inv cid s \<longleftrightarrow>
     (\<forall>r t i. ls_phase s r = AcqChecked t i \<or> ls_phase s r = AcqMissed t i \<longrightarrow>
        li_computerId i = cid \<and> li_runId i = r \<and> t \<le> ls_now s) \<and>
     (\<forall>r x. taken s r x \<longrightarrow> xl_computerId x = cid \<and> xl_runId x = r \<and>
        (r \<notin> ls_lapsed s \<longrightarrow> lease_live (ls_now s) (ls_db s) x))"

definition quiet_inv :: "lease_sys \<Rightarrow> bool" where
  "quiet_inv s \<longleftrightarrow> asleep s \<longrightarrow> (\<forall>r x. ls_phase s r = AcqHolding x \<longrightarrow> r \<in> ls_lapsed s)"

lemma unique_update:
  "(\<And>l. (l_computerId (f l), l_botId (f l)) = (l_computerId l, l_botId l)) \<Longrightarrow>
   distinct (map (\<lambda>l. (l_computerId l, l_botId l)) ls) \<Longrightarrow>
   distinct (map (\<lambda>l. (l_computerId l, l_botId l)) (update_where p f ls))"
proof -
  assume "\<And>l. (l_computerId (f l), l_botId (f l)) = (l_computerId l, l_botId l)"
  then have k: "keyed_update (\<lambda>l. (l_computerId l, l_botId l)) f" by (simp add: keyed_update_def)
  assume "distinct (map (\<lambda>l. (l_computerId l, l_botId l)) ls)"
  then show ?thesis by (rule keyed_update.distinct_update [OF k])
qed

lemma lease_tables:
  "acquire_reclaim t i d = Inr (v, d') \<Longrightarrow> leases_unique d \<Longrightarrow> leases_unique d'"
  "renewComputerExecutionLease now l d = Inr (b, d') \<Longrightarrow> leases_unique d \<Longrightarrow> leases_unique d'"
  "holdComputerExecutionLeaseForTakeover now l d = Inr (b, d') \<Longrightarrow> leases_unique d \<Longrightarrow> leases_unique d'"
  "releaseComputerExecutionLease l d = Inr (u, d') \<Longrightarrow> leases_unique d \<Longrightarrow> leases_unique d'"
  by (auto simp: acquire_reclaim_def reclaim_row_def renewComputerExecutionLease_def holdComputerExecutionLeaseForTakeover_def releaseComputerExecutionLease_def
      leases_unique_def update_leases_def delete_leases_def distinct_delete_where image_iff
      intro!: unique_update split: if_splits option.splits)

lemma create_unique: "acquire_create t i d = Inr (x, d') \<Longrightarrow> leases_unique d \<Longrightarrow> leases_unique d'"
  unfolding leases_unique_def acquire_create_def create_lease_def
  by (simp split: if_splits) (clarsimp simp: image_iff, metis)

lemma lease_computers:
  "acquire_reclaim t i d = Inr (v, d') \<Longrightarrow> db_computers d' = db_computers d"
  "acquire_create t i d = Inr (x, d') \<Longrightarrow> db_computers d' = db_computers d"
  "renewComputerExecutionLease now l d = Inr (b, d') \<Longrightarrow> db_computers d' = db_computers d"
  "holdComputerExecutionLeaseForTakeover now l d = Inr (b, d') \<Longrightarrow> db_computers d' = db_computers d"
  "releaseComputerExecutionLease l d = Inr (u, d') \<Longrightarrow> db_computers d' = db_computers d"
  by (auto simp: acquire_reclaim_def acquire_create_def create_lease_def
      renewComputerExecutionLease_def holdComputerExecutionLeaseForTakeover_def releaseComputerExecutionLease_def
      update_leases_def delete_leases_def split: if_splits option.splits)

lemma validate_cases:
  assumes "validateAcquiredComputerLease x d = Inr (valid, d')"
  shows "(valid \<and> d' = d \<and> \<not> suspending (xl_computerId x) d) \<or>
         (\<not> valid \<and> (\<exists>u. releaseComputerExecutionLease (Some x) d = Inr (u, d')))"
  using assms
  by (auto simp: validateAcquiredComputerLease_def suspending_def dest!: find_computer_SomeD
      split: option.splits if_splits)

text \<open>The statements of the sleeper and of a boot leave the leases alone.\<close>

lemma computer_steps:
  "sleep_claim t revision seen d = Inr (n, d') \<Longrightarrow> db_leases d' = db_leases d"
  "sleep_abort cid d = Inr (n, d') \<Longrightarrow> db_leases d' = db_leases d"
  "sleep_finish cid d = Inr (u, d') \<Longrightarrow> db_leases d' = db_leases d"
  "provision_claim cid botId d = Inr (n, d') \<Longrightarrow> db_leases d' = db_leases d"
  "provision_activate now cid botId existing ref holder d = Inr (n, d') \<Longrightarrow> db_leases d' = db_leases d"
  "provision_failed cid stranded d = Inr (n, d') \<Longrightarrow> db_leases d' = db_leases d"
  by (auto simp: sleep_claim_def sleep_abort_def sleep_finish_def provision_claim_def provision_activate_def
      provision_failed_def update_computers_def update_computer_def split: if_splits)

lemma keys_update_computers:
  "(\<And>c. c_id (f c) = c_id c) \<Longrightarrow> map c_id (update_where p f cs) = map c_id cs"
  by (simp add: update_where_def)

lemma computer_keys:
  "sleep_claim t revision seen d = Inr (n, d') \<Longrightarrow> map c_id (db_computers d') = map c_id (db_computers d)"
  "sleep_abort cid d = Inr (n, d') \<Longrightarrow> map c_id (db_computers d') = map c_id (db_computers d)"
  "sleep_finish cid d = Inr (u, d') \<Longrightarrow> map c_id (db_computers d') = map c_id (db_computers d)"
  "provision_claim cid botId d = Inr (n, d') \<Longrightarrow> map c_id (db_computers d') = map c_id (db_computers d)"
  "provision_activate now cid botId existing ref holder d = Inr (n, d') \<Longrightarrow> map c_id (db_computers d') = map c_id (db_computers d)"
  "provision_failed cid stranded d = Inr (n, d') \<Longrightarrow> map c_id (db_computers d') = map c_id (db_computers d)"
  by (auto simp: sleep_claim_def sleep_abort_def sleep_finish_def provision_claim_def provision_activate_def
      provision_failed_def update_computers_def update_computer_def activate_row_def
      intro!: keys_update_computers split: if_splits option.splits)

text \<open>A boot cannot take a suspending computer.\<close>

lemma suspending_update:
  assumes "suspending cid d" and "\<And>c. c_id (f c) = c_id c"
    and "\<And>c. p c \<Longrightarrow> c_state c \<noteq> Suspending \<and> c_id c = cid"
  shows "suspending cid (d\<lparr>db_computers := update_where p f (db_computers d)\<rparr>)" (is "suspending cid ?d")
  unfolding suspending_def
proof (intro ballI impI)
  fix c assume c: "c \<in> set (db_computers ?d)" "c_id c = cid"
  then obtain q where q: "q \<in> set (db_computers d)" "c = (if p q then f q else q)"
    by (auto simp: set_update_where)
  show "c_state c = Suspending"
  proof (cases "p q")
    case True
    with assms(1,3) q(1) show ?thesis by (auto simp: suspending_def)
  next
    case False
    with assms(1) q c(2) show ?thesis by (metis suspending_def)
  qed
qed

lemma boot_suspending:
  assumes "suspending cid d"
  shows "provision_claim cid botId d = Inr (n, d') \<Longrightarrow> suspending cid d'"
    and "provision_activate now cid botId existing ref holder d = Inr (n, d') \<Longrightarrow> suspending cid d'"
    and "provision_failed cid stranded d = Inr (n, d') \<Longrightarrow> suspending cid d'"
  by (auto simp: provision_claim_def provision_activate_def provision_failed_def update_computers_def
      activate_row_def split: option.splits intro!: suspending_update [OF assms])

lemma boot_frame:
  assumes "provision_claim cid botId d = Inr (n, d') \<or>
       provision_activate now cid botId existing ref holder d = Inr (n, d') \<or>
       provision_failed cid stranded d = Inr (n, d')"
  shows "db_leases d' = db_leases d" and "map c_id (db_computers d') = map c_id (db_computers d)"
    and "suspending cid d \<Longrightarrow> suspending cid d'"
proof -
  from assms show "db_leases d' = db_leases d" by (elim disjE) (erule computer_steps)+
  from assms show "map c_id (db_computers d') = map c_id (db_computers d)" by (elim disjE) (erule computer_keys)+
  from assms show "suspending cid d'" if "suspending cid d" by (elim disjE) (erule boot_suspending [OF that])+
qed

lemma reclaim_none:
  assumes "acquire_reclaim t i d = Inr (None, d')"
  shows "d' = d"
proof -
  from assms have "List.find (reclaimable t i) (db_leases d) = None"
    and d': "d' = d\<lparr>db_leases := update_where (reclaimable t i) (reclaim_row t i) (db_leases d)\<rparr>"
    by (simp_all add: acquire_reclaim_def)
  then have "count_where (reclaimable t i) (db_leases d) = 0"
    using count_where_pos by (metis find_NoneD)
  then show ?thesis by (simp add: d' update_where_none)
qed

lemma claim_effect:
  assumes "sleep_claim t revision seen d = Inr (n, d')" and "distinct (map c_id (db_computers d))"
  shows "(n = 1 \<and> suspending (c_id seen) d' \<and> (\<forall>l \<in> set (db_leases d). l_computerId l = c_id seen \<longrightarrow> l_expiresAt l \<le> t)) \<or>
         (n = 0 \<and> d' = d)"
proof (cases "\<exists>c \<in> set (db_computers d). sleep_claimable t seen d c")
  case False
  then have "count_where (sleep_claimable t seen d) (db_computers d) = 0" using count_where_pos by blast
  with assms(1) show ?thesis by (auto simp: sleep_claim_def update_computers_def update_where_none)
next
  case True
  then obtain c where c: "c \<in> set (db_computers d)" "sleep_claimable t seen d c" by blast
  have "count_where (sleep_claimable t seen d) (db_computers d) \<le> 1"
    by (rule count_where_key_le1 [OF assms(2), where k = "c_id seen"]) (simp add: sleep_claimable_def)
  moreover have "count_where (sleep_claimable t seen d) (db_computers d) \<noteq> 0" using c count_where_pos by blast
  ultimately have "n = 1" using assms(1) by (simp add: sleep_claim_def update_computers_def)
  moreover have "suspending (c_id seen) d'"
    unfolding suspending_def
  proof (intro ballI impI)
    fix q' assume q': "q' \<in> set (db_computers d')" "c_id q' = c_id seen"
    with assms(1) obtain q where q: "q \<in> set (db_computers d)" and
      eq: "q' = (if sleep_claimable t seen d q then q\<lparr>c_state := Suspending, c_homeRevision := revision, c_updatedAt := t\<rparr> else q)"
      by (auto simp: sleep_claim_def update_computers_def set_update_where)
    from eq q'(2) have "c_id q = c_id seen" by (simp split: if_splits)
    with c have "q = c" using distinct_key_eq [OF assms(2) q] by (simp add: sleep_claimable_def)
    with eq c(2) show "c_state q' = Suspending" by simp
  qed
  ultimately show ?thesis using c by (auto simp: sleep_claimable_def not_less)
qed

lemma lease_live_computers: "db_leases d' = db_leases d \<Longrightarrow> lease_live now d' x = lease_live now d x"
  by (simp add: lease_live_def)

text \<open>What another run does to the leases leaves a live lease alone.\<close>

lemma other_keeps_live:
  assumes "lease_live now d x"
  shows "acquire_reclaim t i d = Inr (v, d') \<Longrightarrow> t \<le> now \<Longrightarrow> li_runId i \<noteq> xl_runId x \<Longrightarrow> lease_live now d' x"
    and "acquire_create t i d = Inr (y, d') \<Longrightarrow> lease_live now d' x"
    and "renewComputerExecutionLease now' (Some y) d = Inr (b, d') \<Longrightarrow> now \<le> now' \<Longrightarrow> lease_live now d' x"
    and "holdComputerExecutionLeaseForTakeover now' (Some y) d = Inr (b, d') \<Longrightarrow> now \<le> now' \<Longrightarrow> lease_live now d' x"
    and "releaseComputerExecutionLease (Some y) d = Inr (u, d') \<Longrightarrow> xl_runId y \<noteq> xl_runId x \<Longrightarrow> lease_live now d' x"
proof -
  from assms obtain l where l: "l \<in> set (db_leases d)" "holds_row x l" "l_expiresAt l > now"
    by (auto simp: lease_live_def)
  show "lease_live now d' x" if "acquire_reclaim t i d = Inr (v, d')" "t \<le> now" "li_runId i \<noteq> xl_runId x"
  proof -
    have "\<not> reclaimable t i l" using l that by (auto simp: reclaimable_def holds_row_def)
    with l that(1) show ?thesis
      by (auto simp: lease_live_def acquire_reclaim_def set_update_where intro!: bexI [where x = l])
  qed
  show "lease_live now d' x" if "acquire_create t i d = Inr (y, d')"
    using l that by (auto simp: lease_live_def acquire_create_def create_lease_def split: if_splits)
  have later: "lease_live now (d\<lparr>db_leases := update_where (holds_row y) (\<lambda>l. l\<lparr>l_expiresAt := e\<rparr>) (db_leases d)\<rparr>) x"
    if "now < e" for e
  proof (cases "holds_row y l")
    case True
    with l(1) have "l\<lparr>l_expiresAt := e\<rparr> \<in> set (update_where (holds_row y) (\<lambda>l. l\<lparr>l_expiresAt := e\<rparr>) (db_leases d))"
      unfolding set_update_where by (intro bexI [where x = l]) simp_all
    moreover have "holds_row x (l\<lparr>l_expiresAt := e\<rparr>)" using l(2) by (simp add: holds_row_def)
    ultimately show ?thesis using that by (auto simp: lease_live_def)
  next
    case False
    with l show ?thesis by (auto simp: lease_live_def set_update_where intro!: bexI [where x = l])
  qed
  show "lease_live now d' x" if "renewComputerExecutionLease now' (Some y) d = Inr (b, d')" "now \<le> now'"
    using that later by (auto simp: renewComputerExecutionLease_def update_leases_def EXECUTION_LEASE_MS_def)
  show "lease_live now d' x" if "holdComputerExecutionLeaseForTakeover now' (Some y) d = Inr (b, d')" "now \<le> now'"
    using that later by (auto simp: holdComputerExecutionLeaseForTakeover_def update_leases_def)
  show "lease_live now d' x" if "releaseComputerExecutionLease (Some y) d = Inr (u, d')" "xl_runId y \<noteq> xl_runId x"
    using l that by (auto simp: lease_live_def releaseComputerExecutionLease_def delete_leases_def holds_row_def)
qed

text \<open>The lease a run takes is its own, and stands in the table until its expiry.\<close>

lemma taken_lease:
  "acquire_reclaim t i d = Inr (Some x, d') \<Longrightarrow> xl_computerId x = li_computerId i \<and> xl_runId x = li_runId i \<and>
     (now < t + EXECUTION_LEASE_MS \<longrightarrow> lease_live now d' x)"
  "acquire_create t i d = Inr (x, d') \<Longrightarrow> xl_computerId x = li_computerId i \<and> xl_runId x = li_runId i \<and>
     (now < t + EXECUTION_LEASE_MS \<longrightarrow> lease_live now d' x)"
proof -
  show "xl_computerId x = li_computerId i \<and> xl_runId x = li_runId i \<and>
     (now < t + EXECUTION_LEASE_MS \<longrightarrow> lease_live now d' x)" if "acquire_reclaim t i d = Inr (Some x, d')"
  proof -
    from that obtain l where l: "List.find (reclaimable t i) (db_leases d) = Some l"
      and x: "x = lease_of i (l_fence l + 1)" and d': "db_leases d' = update_where (reclaimable t i) (reclaim_row t i) (db_leases d)"
      by (auto simp: acquire_reclaim_def reclaim_row_def)
    from find_SomeD [OF l] have "reclaim_row t i l \<in> set (db_leases d')"
      by (auto simp: d' set_update_where intro!: bexI [where x = l])
    moreover have "holds_row x (reclaim_row t i l)"
      using find_SomeD [OF l] by (simp add: x lease_of_def holds_row_def reclaim_row_def reclaimable_def)
    ultimately show ?thesis by (auto simp: x lease_of_def lease_live_def reclaim_row_def)
  qed
  show "xl_computerId x = li_computerId i \<and> xl_runId x = li_runId i \<and>
     (now < t + EXECUTION_LEASE_MS \<longrightarrow> lease_live now d' x)" if "acquire_create t i d = Inr (x, d')"
    using that by (auto simp: acquire_create_def create_lease_def lease_of_def lease_live_def holds_row_def split: if_splits)
qed

lemma tables_step:
  assumes "lease_step cid s s'" and "tables_inv cid s"
  shows "tables_inv cid s'"
  using assms
proof cases
  case (step_validate r x valid d)
  with assms(2) show ?thesis
    using validate_cases [OF step_validate(3)] lease_tables lease_computers
    by (auto simp: tables_inv_def asleep_def suspending_def)
next
  case (step_sleep_claim seen t revision n d sts)
  from assms(2) have "distinct (map c_id (db_computers (ls_db s)))" by (simp add: tables_inv_def)
  from claim_effect [OF step_sleep_claim(5) this] assms(2) computer_steps(1) [OF step_sleep_claim(5)]
    computer_keys(1) [OF step_sleep_claim(5)] step_sleep_claim(1,2,3) show ?thesis
    by (auto simp: tables_inv_def asleep_def leases_unique_def)
next
  case (step_sleep_abort t seen sts n d)
  with assms(2) show ?thesis using computer_steps(2) computer_keys(2)
    by (auto simp: tables_inv_def asleep_def leases_unique_def)
next
  case (step_sleep_finish seen u d)
  with assms(2) show ?thesis using computer_steps(3) computer_keys(3)
    by (auto simp: tables_inv_def asleep_def leases_unique_def)
next
  case (step_boot botId n d now existing ref holder stranded)
  from boot_frame [OF step_boot(2)] assms(2) step_boot(1) show ?thesis
    by (auto simp: tables_inv_def asleep_def leases_unique_def)
qed (use lease_tables lease_computers create_unique in
      \<open>auto simp: tables_inv_def take_lease_def asleep_def suspending_def leases_unique_def; fail\<close>)+

lemma phase_inv_db:
  "phase_inv cid s \<Longrightarrow> db_leases d = db_leases (ls_db s) \<Longrightarrow> phase_inv cid (s\<lparr>ls_db := d\<rparr>)"
  by (auto simp: phase_inv_def taken_def lease_live_def)

text \<open>A statement of one run: the leases the other runs took stay live.\<close>

lemma phase_inv_other:
  assumes inv: "phase_inv cid s"
    and live: "\<And>q x. q \<noteq> r \<Longrightarrow> xl_runId x = q \<Longrightarrow> lease_live (ls_now s) (ls_db s) x \<Longrightarrow> lease_live (ls_now s) d x"
    and lapsed: "lp - {r} = ls_lapsed s - {r}"
    and own: "\<And>t i. ph = AcqChecked t i \<or> ph = AcqMissed t i \<Longrightarrow> li_computerId i = cid \<and> li_runId i = r \<and> t \<le> ls_now s"
    and took: "\<And>x. ph = AcqCreated x \<or> ph = AcqHolding x \<Longrightarrow> xl_computerId x = cid \<and> xl_runId x = r \<and>
       (r \<notin> lp \<longrightarrow> lease_live (ls_now s) d x)"
    and s': "ls_now s' = ls_now s" "ls_db s' = d" "ls_phase s' = (ls_phase s)(r := ph)" "ls_lapsed s' = lp"
  shows "phase_inv cid s'"
  unfolding phase_inv_def
proof (intro conjI allI impI)
  fix q t i
  assume "ls_phase s' q = AcqChecked t i \<or> ls_phase s' q = AcqMissed t i"
  then have "li_computerId i = cid \<and> li_runId i = q \<and> t \<le> ls_now s"
    using own inv s' by (auto simp: phase_inv_def split: if_splits)
  then show "li_computerId i = cid" "li_runId i = q" "t \<le> ls_now s'" using s' by simp_all
next
  fix q x
  assume tk: "taken s' q x"
  show "xl_computerId x = cid" "xl_runId x = q"
    using tk took inv s' by (auto simp: phase_inv_def taken_def split: if_splits)
  assume "q \<notin> ls_lapsed s'"
  show "lease_live (ls_now s') (ls_db s') x"
  proof (cases "q = r")
    case True
    with tk took s' \<open>q \<notin> ls_lapsed s'\<close> show ?thesis by (auto simp: taken_def)
  next
    case False
    with lapsed s' \<open>q \<notin> ls_lapsed s'\<close> have "q \<notin> ls_lapsed s" by auto
    with tk False inv s' have "xl_runId x = q" "lease_live (ls_now s) (ls_db s) x"
      by (auto simp: phase_inv_def taken_def)
    with live [OF False] s' show ?thesis by simp
  qed
qed

lemma phase_step:
  assumes "lease_step cid s s'" and inv: "phase_inv cid s"
  shows "phase_inv cid s'"
  using assms(1)
proof cases
  case (step_check r i)
  then show ?thesis using phase_inv_other [OF inv, of r "ls_db s" "ls_lapsed s" "AcqChecked (ls_now s) i"] by simp
next
  case (step_reclaim r t i x d)
  have i: "li_computerId i = cid" "li_runId i = r" "t \<le> ls_now s"
    using inv step_reclaim(2) by (auto simp: phase_inv_def)
  show ?thesis unfolding step_reclaim(1) take_lease_def
    by (rule phase_inv_other [OF inv])
      (use other_keeps_live(1) [OF _ step_reclaim(3) i(3)] taken_lease(1) [OF step_reclaim(3), of "ls_now s"] i in auto)
next
  case (step_missed r t i d)
  with reclaim_none have d: "d = ls_db s" by blast
  have "li_computerId i = cid \<and> li_runId i = r \<and> t \<le> ls_now s"
    using inv step_missed(2) by (auto simp: phase_inv_def)
  then show ?thesis using step_missed(1) d phase_inv_other [OF inv, of r d "ls_lapsed s" "AcqMissed t i"] by simp
next
  case (step_create r t i x d)
  have i: "li_computerId i = cid" "li_runId i = r" "t \<le> ls_now s"
    using inv step_create(2) by (auto simp: phase_inv_def)
  show ?thesis unfolding step_create(1) take_lease_def
    by (rule phase_inv_other [OF inv])
      (use other_keeps_live(2) [OF _ step_create(3)] taken_lease(2) [OF step_create(3), of "ls_now s"] i in auto)
next
  case (step_busy r t i e)
  then show ?thesis using phase_inv_other [OF inv, of r "ls_db s" "ls_lapsed s" AcqIdle] by simp
next
  case (step_validate r x valid d)
  have x: "xl_computerId x = cid" "xl_runId x = r" "r \<notin> ls_lapsed s \<longrightarrow> lease_live (ls_now s) (ls_db s) x"
    using inv step_validate(2) by (auto simp: phase_inv_def taken_def)
  from validate_cases [OF step_validate(3)] show ?thesis
  proof (elim disjE conjE exE)
    assume "valid" "d = ls_db s"
    then show ?thesis using step_validate(1) phase_inv_other [OF inv, of r d "ls_lapsed s" "AcqHolding x"] x by simp
  next
    fix u assume v: "\<not> valid" "releaseComputerExecutionLease (Some x) (ls_db s) = Inr (u, d)"
    then show ?thesis using step_validate(1) phase_inv_other [OF inv, of r d "ls_lapsed s" AcqIdle]
      other_keeps_live(5) [OF _ v(2)] x by auto
  qed
next
  case (step_renew r x b d)
  then have "lease_live (ls_now s) (ls_db s) y \<Longrightarrow> lease_live (ls_now s) d y" for y
    using other_keeps_live(3) by blast
  with inv step_renew(1) show ?thesis by (auto simp: phase_inv_def taken_def)
next
  case (step_hold r x b d)
  then have "lease_live (ls_now s) (ls_db s) y \<Longrightarrow> lease_live (ls_now s) d y" for y
    using other_keeps_live(4) by blast
  with inv step_hold(1) show ?thesis by (auto simp: phase_inv_def taken_def)
next
  case (step_release r x u d)
  have "xl_runId x = r" using inv step_release(2) by (auto simp: phase_inv_def taken_def)
  with step_release show ?thesis
    using phase_inv_other [OF inv, of r d "ls_lapsed s" AcqIdle] other_keeps_live(5) by auto
next
  case (step_tick now)
  with inv show ?thesis by (auto simp: phase_inv_def taken_def intro: order_trans)
next
  case (step_sleep_claim seen t revision n d sts)
  from phase_inv_db [OF inv computer_steps(1) [OF step_sleep_claim(5)]] step_sleep_claim(1) show ?thesis
    by (auto simp: phase_inv_def taken_def)
next
  case (step_sleep_abort t seen sts n d)
  from phase_inv_db [OF inv computer_steps(2) [OF step_sleep_abort(3)]] step_sleep_abort(1) show ?thesis
    by (auto simp: phase_inv_def taken_def)
next
  case (step_sleep_finish seen u d)
  from phase_inv_db [OF inv computer_steps(3) [OF step_sleep_finish(3)]] step_sleep_finish(1) show ?thesis
    by (auto simp: phase_inv_def taken_def)
next
  case (step_boot botId n d now existing ref holder stranded)
  from phase_inv_db [OF inv boot_frame(1) [OF step_boot(2)]] step_boot(1) show ?thesis by simp
next
  case (step_runs d)
  from phase_inv_db [OF inv step_runs(3)] step_runs(1) show ?thesis by simp
qed (use inv in \<open>auto simp: phase_inv_def taken_def\<close>)

text \<open>
  The sleeper claims only while no lease is live, and a lease is validated only while the
  computer is not suspending.
\<close>

lemma quiet_step:
  assumes "lease_step cid s s'" and inv: "tables_inv cid s" "phase_inv cid s" and quiet: "quiet_inv s"
  shows "quiet_inv s'"
  using assms(1)
proof cases
  case (step_validate r x valid d)
  from inv(2) step_validate(2) have x: "xl_computerId x = cid" by (auto simp: phase_inv_def taken_def)
  have "\<not> valid" if "asleep s"
    using validate_cases [OF step_validate(3)] inv(1) that x by (auto simp: tables_inv_def)
  with quiet step_validate(1) show ?thesis by (auto simp: quiet_inv_def asleep_def)
next
  case (step_sleep_claim seen t revision n d sts)
  from inv(1) have "distinct (map c_id (db_computers (ls_db s)))" by (simp add: tables_inv_def)
  note eff = claim_effect [OF step_sleep_claim(5) this]
  have "r \<in> ls_lapsed s" if "n = 1" "ls_phase s r = AcqHolding x" for r x
  proof (rule ccontr)
    assume "r \<notin> ls_lapsed s"
    with inv(2) that(2) have "xl_computerId x = cid" "lease_live (ls_now s) (ls_db s) x"
      by (auto simp: phase_inv_def taken_def)
    then obtain l where "l \<in> set (db_leases (ls_db s))" "l_computerId l = cid" "l_expiresAt l > ls_now s"
      by (auto simp: lease_live_def holds_row_def)
    with eff that(1) step_sleep_claim(3,4) show False by force
  qed
  with quiet step_sleep_claim(1) show ?thesis by (auto simp: quiet_inv_def asleep_def)
qed (use quiet in \<open>auto simp: quiet_inv_def asleep_def take_lease_def split: if_splits\<close>)

lemma lease_reachable:
  assumes "(lease_step cid)\<^sup>*\<^sup>* (lease_init now d) s" and "leases_unique d" and "distinct (map c_id (db_computers d))"
  shows "tables_inv cid s" and "phase_inv cid s" and "quiet_inv s"
proof -
  have "tables_inv cid s \<and> phase_inv cid s \<and> quiet_inv s"
    using assms(1)
  proof (induction rule: rtranclp_induct)
    case base
    with assms(2,3) show ?case
      by (simp add: tables_inv_def phase_inv_def quiet_inv_def asleep_def taken_def lease_init_def)
  next
    case (step s s')
    with tables_step phase_step quiet_step show ?case by blast
  qed
  then show "tables_inv cid s" and "phase_inv cid s" and "quiet_inv s" by blast+
qed

text \<open>
  C15. A shared computer is never stopped under a run that works on it: in every interleaving
  of acquisitions, renewals, releases, boots and the sleeper, while the sleeper is between its
  claim and the stop of the sandbox every run that holds a validated lease has let it lapse;
  and of the runs of one bot at most one holds a lease that never lapsed.
\<close>

theorem computer_not_stopped_under_live_lease:
  assumes "(lease_step cid)\<^sup>*\<^sup>* (lease_init now d) s"
    and "leases_unique d" and "distinct (map c_id (db_computers d))"
  shows "(asleep s \<longrightarrow> (\<forall>r x. ls_phase s r = AcqHolding x \<longrightarrow> r \<in> ls_lapsed s)) \<and>
         (\<forall>r x q y. ls_phase s r = AcqHolding x \<longrightarrow> ls_phase s q = AcqHolding y \<longrightarrow>
            r \<notin> ls_lapsed s \<longrightarrow> q \<notin> ls_lapsed s \<longrightarrow> xl_botId x = xl_botId y \<longrightarrow> r = q)"
proof (intro conjI allI impI)
  note inv = lease_reachable [OF assms]
  show "r \<in> ls_lapsed s" if "asleep s" "ls_phase s r = AcqHolding x" for r x
    using inv(3) that by (auto simp: quiet_inv_def)
  show "r = q" if "ls_phase s r = AcqHolding x" "ls_phase s q = AcqHolding y"
    "r \<notin> ls_lapsed s" "q \<notin> ls_lapsed s" "xl_botId x = xl_botId y" for r x q y
  proof -
    from inv(2) that have x: "xl_computerId x = cid" "xl_runId x = r" "lease_live (ls_now s) (ls_db s) x"
      and y: "xl_computerId y = cid" "xl_runId y = q" "lease_live (ls_now s) (ls_db s) y"
      by (auto simp: phase_inv_def taken_def)
    from x(3) y(3) obtain l m where l: "l \<in> set (db_leases (ls_db s))" "holds_row x l"
      and m: "m \<in> set (db_leases (ls_db s))" "holds_row y m"
      by (auto simp: lease_live_def)
    have "distinct (map (\<lambda>l. (l_computerId l, l_botId l)) (db_leases (ls_db s)))"
      using inv(1) by (simp add: tables_inv_def leases_unique_def)
    from distinct_key_eq [OF this l(1) m(1)] l(2) m(2) x y that(5) have "l = m" by (simp add: holds_row_def)
    with l(2) m(2) x(2) y(2) show "r = q" by (simp add: holds_row_def)
  qed
qed

definition example_computer :: computer_row where
  "example_computer = \<lparr>c_id = js ''c'', c_workspaceId = js ''w'', c_userId = js ''u'', c_scope = ScopeTeam,
     c_providerRef = Some (js ''p''), c_state = PoweredOn, c_homeRevision = [], c_kind = js ''desktop'', c_controlHolder = HolderNone,
     c_controlLeaseId = None, c_controlLeaseExpiresAt = None, c_controlBotId = None, c_controlRunId = None,
     c_executionRunId = None, c_executionBotId = None, c_executionLeaseExpiresAt = None, c_updatedAt = 1\<rparr>"

definition example_lease_db :: db where
  "example_lease_db = empty_db\<lparr>db_computers := [example_computer],
     db_leases := [\<lparr>l_computerId = js ''c'', l_botId = js ''b'', l_runId = js ''r1'', l_fence = 1, l_expiresAt = 5\<rparr>]\<rparr>"

definition example_input :: lease_input where
  "example_input = \<lparr>li_computerId = js ''c'', li_runId = js ''r2'', li_botId = js ''b'', li_resumeHeldLease = False\<rparr>"

theorem computer_not_stopped_under_live_lease_witness:
  "\<exists>s. (lease_step (js ''c''))\<^sup>*\<^sup>* (lease_init 10 example_lease_db) s \<and> s \<noteq> lease_init 10 example_lease_db \<and>
     (asleep s \<longrightarrow> (\<forall>r x. ls_phase s r = AcqHolding x \<longrightarrow> r \<in> ls_lapsed s))"
proof -
  let ?s = "lease_init 10 example_lease_db"
  let ?t = "?s\<lparr>ls_phase := (ls_phase ?s)(js ''r2'' := AcqChecked (ls_now ?s) example_input)\<rparr>"
  have "lease_step (js ''c'') ?s ?t"
    by (rule step_check)
      (simp_all add: lease_init_def example_input_def acquire_check_def find_computer_def example_lease_db_def
        example_computer_def)
  then have reach: "(lease_step (js ''c''))\<^sup>*\<^sup>* ?s ?t" by blast
  have "ls_phase ?t (js ''r2'') \<noteq> ls_phase ?s (js ''r2'')" by (simp add: lease_init_def)
  then have "?t \<noteq> ?s" by metis
  moreover have "leases_unique example_lease_db" "distinct (map c_id (db_computers example_lease_db))"
    by (simp_all add: leases_unique_def example_lease_db_def)
  from computer_not_stopped_under_live_lease [OF reach this]
  have "asleep ?t \<longrightarrow> (\<forall>r x. ls_phase ?t r = AcqHolding x \<longrightarrow> r \<in> ls_lapsed ?t)" by (rule conjunct1)
  ultimately show ?thesis using reach by blast
qed

text \<open>
  A lost lease is lost: once another run reclaimed the expired lease of a bot, the old
  holder can neither renew it, nor hold it for a takeover, nor take it away from the new one.
\<close>

theorem reclaimed_lease_is_lost:
  assumes "leases_unique d" and "l \<in> set (db_leases d)" and "holds_row old l"
    and "acquire_reclaim now i d = Inr (Some new, d')"
    and "li_computerId i = xl_computerId old" and "li_botId i = xl_botId old"
  shows "renewComputerExecutionLease t (Some old) d' = Inr (False, d') \<and>
         holdComputerExecutionLeaseForTakeover t (Some old) d' = Inr (False, d') \<and>
         releaseComputerExecutionLease (Some old) d' = Inr ((), d') \<and> xl_fence new = xl_fence old + 1"
proof -
  from assms(4) obtain q where q: "q \<in> set (db_leases d)" "reclaimable now i q" "new = lease_of i (l_fence q + 1)"
    and d': "d' = d\<lparr>db_leases := update_where (reclaimable now i) (reclaim_row now i) (db_leases d)\<rparr>"
    by (auto simp: acquire_reclaim_def reclaim_row_def dest!: find_SomeD)
  have dist: "distinct (map (\<lambda>l. (l_computerId l, l_botId l)) (db_leases d))" using assms(1) by (simp add: leases_unique_def)
  have same: "p = l" if "p \<in> set (db_leases d)" "l_computerId p = xl_computerId old" "l_botId p = xl_botId old" for p
    using distinct_key_eq [OF dist that(1) assms(2)] that assms(3) by (simp add: holds_row_def)
  from q(1,2) assms(5,6) same have "q = l" by (simp add: reclaimable_def)
  have none: "\<not> holds_row old p" if p: "p \<in> set (db_leases d')" for p
  proof
    assume h: "holds_row old p"
    from p obtain p0 where p0: "p0 \<in> set (db_leases d)" "p = (if reclaimable now i p0 then reclaim_row now i p0 else p0)"
      by (auto simp: d' set_update_where)
    then have "l_computerId p0 = l_computerId p" "l_botId p0 = l_botId p" by (simp_all add: reclaim_row_def)
    with h same [OF p0(1)] have "p0 = l" by (simp add: holds_row_def)
    with p0(2) q(2) \<open>q = l\<close> have "p = reclaim_row now i l" by (simp only: if_True)
    then have "l_fence p = l_fence l + 1" by (simp add: reclaim_row_def)
    with h assms(3) show False by (simp add: holds_row_def)
  qed
  then have "count_where (holds_row old) (db_leases d') = 0" by (simp add: count_where_def filter_empty_conv)
  moreover from none have "delete_where (holds_row old) (db_leases d') = db_leases d'"
    by (simp add: delete_where_def filter_id_conv)
  ultimately show ?thesis
    using q(3) \<open>q = l\<close> assms(3)
    by (simp add: renewComputerExecutionLease_def holdComputerExecutionLeaseForTakeover_def
        releaseComputerExecutionLease_def update_leases_def delete_leases_def tx_bind_def tx_modify_def tx_return_def
        update_where_none lease_of_def holds_row_def)
qed

theorem reclaimed_lease_is_lost_witness:
  "\<exists>new d'. acquire_reclaim 10 example_input example_lease_db = Inr (Some new, d') \<and>
     renewComputerExecutionLease 11 (Some (lease_of (example_input\<lparr>li_runId := js ''r1''\<rparr>) 1)) d' = Inr (False, d')"
proof -
  let ?l = "\<lparr>l_computerId = js ''c'', l_botId = js ''b'', l_runId = js ''r1'', l_fence = 1, l_expiresAt = 5\<rparr>"
  let ?old = "lease_of (example_input\<lparr>li_runId := js ''r1''\<rparr>) 1"
  have pre: "leases_unique example_lease_db" "?l \<in> set (db_leases example_lease_db)" "holds_row ?old ?l"
    by (simp_all add: leases_unique_def example_lease_db_def holds_row_def lease_of_def example_input_def)
  obtain new d' where rec: "acquire_reclaim 10 example_input example_lease_db = Inr (Some new, d')"
    by (simp add: acquire_reclaim_def example_lease_db_def reclaimable_def example_input_def)
  from reclaimed_lease_is_lost [OF pre rec] rec show ?thesis
    by (auto simp: lease_of_def example_input_def)
qed

end
