(* ===== verification/Effects.thy ===== *)
theory Effects
  imports Example
begin

text \<open>
  External effects: the life cycle of an effect row and its claims
  (\<open>packages/adapters/src/approval-effect.ts\<close>), its recording and completion and the claim a
  tool call makes before it acts (\<open>packages/adapters/src/executor.ts\<close>), the decisions about a
  consumed secret (\<open>packages/adapters/src/run-secret.ts\<close>).
\<close>

subsection \<open>The gate of an earlier effect\<close>

datatype duplicate_gate =
    GateExecute
  | GateReturn json
  | GatePaused
  | GateUncertain jstring

definition uncertainEffectResult :: "jstring \<Rightarrow> json" where
  "uncertainEffectResult toolName = JObj
     [(js ''error'', JStr (js ''The earlier '' @ toolName @
        js '' execution was interrupted, so its outcome is unknown. It was not replayed to avoid a duplicate side effect. Verify the destination before proposing another action.'')),
      (js ''uncertain'', JBool True)]"

text \<open>\<open>effect.result ?? fallback\<close>.\<close>

definition result_or :: "json option \<Rightarrow> json \<Rightarrow> json" where
  "result_or r fallback = (case r of None \<Rightarrow> fallback | Some JNull \<Rightarrow> fallback | Some v \<Rightarrow> v)"

definition resolveDuplicateEffectGate :: "effect_status \<Rightarrow> json option \<Rightarrow> jstring \<Rightarrow> duplicate_gate" where
  "resolveDuplicateEffectGate st res toolName =
     (if st = EffectCompleted then GateReturn (result_or res (JObj [(js ''duplicate'', JBool True)]))
      else if st = Denied then GateReturn (JObj [(js ''error'', JStr (js ''User denied this action.''))])
      else if st = Executing then GateUncertain toolName
      else if st = Uncertain then GateReturn (result_or res (uncertainEffectResult toolName))
      else if st = Approved then GateExecute
      else if st = Intended then GatePaused
      else GateUncertain toolName)"

subsection \<open>Claims and settlements\<close>

definition set_status :: "effect_status \<Rightarrow> effect_row \<Rightarrow> effect_row" where
  "set_status st x = x\<lparr>x_status := st\<rparr>"

definition claimApprovedEffect :: "id \<Rightarrow> bool dbtx" where
  "claimApprovedEffect effectId =
     tx_bind (update_effects (\<lambda>x. x_id x = effectId \<and> x_status x = Approved) (set_status Executing))
       (\<lambda>claimed. tx_return (claimed = 1))"

definition claimIntendedEffect :: "id \<Rightarrow> bool dbtx" where
  "claimIntendedEffect effectId =
     tx_bind (update_effects (\<lambda>x. x_id x = effectId \<and> x_status x = Intended) (set_status Executing))
       (\<lambda>claimed. tx_return (claimed = 1))"

definition completeExternalEffect :: "id \<Rightarrow> effect_status \<Rightarrow> json \<Rightarrow> bool dbtx" where
  "completeExternalEffect effectId expectedStatus result =
     tx_bind (update_effects (\<lambda>x. x_id x = effectId \<and> x_status x = expectedStatus)
                (\<lambda>x. x\<lparr>x_status := EffectCompleted, x_result := Some result\<rparr>))
       (\<lambda>completed. tx_return (completed = 1))"

definition replaceCompletedExternalEffectResult :: "id \<Rightarrow> json \<Rightarrow> bool dbtx" where
  "replaceCompletedExternalEffectResult effectId result =
     tx_bind (update_effects (\<lambda>x. x_id x = effectId \<and> x_status x = EffectCompleted)
                (\<lambda>x. x\<lparr>x_result := Some result\<rparr>))
       (\<lambda>replaced. tx_return (replaced = 1))"

definition find_effect :: "id \<Rightarrow> db \<Rightarrow> effect_row option" where
  "find_effect i d = List.find (\<lambda>x. x_id x = i) (db_effects d)"

definition settleUncertainEffect :: "id \<Rightarrow> jstring \<Rightarrow> json dbtx" where
  "settleUncertainEffect effectId toolName =
     (let result = uncertainEffectResult toolName in
      tx_bind (update_effects (\<lambda>x. x_id x = effectId \<and> x_status x = Executing)
                 (\<lambda>x. x\<lparr>x_status := Uncertain, x_result := Some result\<rparr>)) (\<lambda>settled.
      if settled = 1 then tx_return result
      else tx_bind (tx_get (find_effect effectId)) (\<lambda>current.
        tx_return (case current of None \<Rightarrow> result
          | Some x \<Rightarrow> (case resolveDuplicateEffectGate (x_status x) (x_result x) toolName of
                         GateReturn r \<Rightarrow> r | _ \<Rightarrow> result)))))"

text \<open>
  \<open>claimOrReturn\<close> of a tool call: \<open>None\<close> is a claimed effect, which the call then carries out,
  and \<open>Some\<close> a result that is answered without acting.
\<close>

definition claimOrReturn :: "bool \<Rightarrow> id \<Rightarrow> jstring \<Rightarrow> json option dbtx" where
  "claimOrReturn from_approved effectId name =
     tx_bind (if from_approved then claimApprovedEffect effectId else claimIntendedEffect effectId) (\<lambda>claimed.
     if claimed then tx_return None
     else tx_bind (tx_get (find_effect effectId)) (\<lambda>current.
       case current of
         None \<Rightarrow> tx_throw (AppError ''uncertain outcome'')
       | Some x \<Rightarrow>
           (case resolveDuplicateEffectGate (x_status x) (x_result x) name of
              GateReturn r \<Rightarrow> tx_return (Some r)
            | GateUncertain _ \<Rightarrow> tx_bind (settleUncertainEffect effectId name) (\<lambda>r. tx_return (Some r))
            | _ \<Rightarrow> tx_throw (AppError ''uncertain outcome''))))"

text \<open>
  \<open>recordEffect\<close>: the row of an execution, looked up by its key and created once. The look-up
  and the write are two statements: \<open>before\<close> is the database the look-up sees.
\<close>

record effect_run =
  er_id :: id
  er_workspaceId :: id
  er_threadId :: id
  er_botId :: id

definition recordEffect ::
  "id \<Rightarrow> id \<Rightarrow> time \<Rightarrow> effect_run \<Rightarrow> jstring \<Rightarrow> jstring \<Rightarrow> json \<Rightarrow> db \<Rightarrow> (bool \<times> effect_row) dbtx" where
  "recordEffect xid eid now run kind executionId request before =
     (case List.find (\<lambda>x. x_idempotencyKey x = executionId) (db_effects before) of
       Some effect \<Rightarrow>
         tx_bind (appendEventInTransaction eid now
            \<lparr>ae_workspaceId = er_workspaceId run, ae_threadId = er_threadId run, ae_botId = er_botId run,
             ae_type = EffectReconciled,
             ae_payload = fields_payload [(js ''executionId'', JStr executionId), (js ''kind'', JStr kind)],
             ae_runId = Some (er_id run)\<rparr>) (\<lambda>_. tx_return (True, effect))
     | None \<Rightarrow>
         tx_bind (create_effect \<lparr>x_id = xid, x_workspaceId = er_workspaceId run, x_runId = er_id run, x_kind = kind,
            x_idempotencyKey = executionId, x_status = Intended, x_request = request, x_result = None\<rparr>)
           (\<lambda>effect. tx_return (False, effect)))"

text \<open>The stored part of a tool result: the details of an \<open>agent_tool_result\<close>, otherwise all of it.\<close>

definition stored_result :: "json \<Rightarrow> json" where
  "stored_result r =
     (case r of
        JObj fs \<Rightarrow> (case (field (js ''kind'') fs, field (js ''details'') fs) of
            (Some (JStr k), Some details) \<Rightarrow> if k = js ''agent_tool_result'' then details else r
          | _ \<Rightarrow> r)
      | _ \<Rightarrow> r)"

definition completeEffect :: "id \<Rightarrow> effect_status \<Rightarrow> json \<Rightarrow> bool dbtx" where
  "completeEffect effectId expectedStatus result =
     completeExternalEffect effectId expectedStatus (stored_result result)"

subsection \<open>Secrets that are already consumed\<close>

datatype secret_leftover = DropLeftover | ConsumeReplacement

definition resolveCompletedSecretLeftover :: "time \<Rightarrow> time \<Rightarrow> secret_leftover" where
  "resolveCompletedSecretLeftover secretCreatedAt effectUpdatedAt =
     (if secretCreatedAt \<le> effectUpdatedAt then DropLeftover else ConsumeReplacement)"

datatype missing_secret_action = ReturnResult json | SettleAttempt | AskAgain

definition resolveMissingRunSecretAction :: "(effect_status \<times> json option) option \<Rightarrow> missing_secret_action" where
  "resolveMissingRunSecretAction effect =
     (case effect of
        None \<Rightarrow> AskAgain
      | Some (st, res) \<Rightarrow>
          (case resolveDuplicateEffectGate st res (js ''request_secret'') of
             GateReturn r \<Rightarrow> ReturnResult r
           | GateUncertain _ \<Rightarrow> SettleAttempt
           | _ \<Rightarrow> if st = Executing then SettleAttempt else AskAgain))"

subsection \<open>Replaying approved effects\<close>

text \<open>The queue of \<open>createApprovedEffectReplayQueue\<close> is its list of pending kinds and requests.\<close>

definition nextToolName :: "(jstring \<times> json) list \<Rightarrow> jstring option" where
  "nextToolName pending = (case pending of [] \<Rightarrow> None | (kind, _) # _ \<Rightarrow> Some kind)"

datatype replay_error = NotAnObject jstring | NotDrained

definition take_replay ::
  "jstring \<Rightarrow> (jstring \<times> json) list \<Rightarrow> (replay_error + (jstring \<times> json) list option) \<times> (jstring \<times> json) list" where
  "take_replay toolName pending =
     (case pending of
        [] \<Rightarrow> (Inr None, pending)
      | (kind, request) # rest \<Rightarrow>
          if kind \<noteq> toolName then (Inr None, pending)
          else (case request of JObj fs \<Rightarrow> (Inr (Some fs), rest) | _ \<Rightarrow> (Inl (NotAnObject toolName), rest)))"

definition assertDrained :: "(jstring \<times> json) list \<Rightarrow> replay_error + unit" where
  "assertDrained pending = (if pending \<noteq> [] then Inl NotDrained else Inr ())"

subsection \<open>An effect is claimed at most once\<close>

text \<open>
  The operations on effect rows, by workers and by an answering user, in any order: claims,
  completions, settlements, answers, whole tool calls, and records of further executions.
\<close>

datatype effect_op =
    EClaim bool
  | EComplete effect_status json
  | EReplace json
  | ESettle jstring
  | EAnswer bool
  | ECall bool jstring
  | ERecord id id time effect_run jstring jstring json db

definition answer_effect :: "id \<Rightarrow> bool \<Rightarrow> nat dbtx" where
  "answer_effect i ok =
     update_effects (\<lambda>x. x_id x = i \<and> x_status x = Intended) (set_status (if ok then Approved else Denied))"

text \<open>One operation on the effect \<open>i\<close>: whether it claimed the effect, and the database after it.\<close>

fun effect_step :: "id \<Rightarrow> effect_op \<Rightarrow> db \<Rightarrow> bool \<times> db" where
  "effect_step i (EClaim approved) d =
     (case (if approved then claimApprovedEffect i else claimIntendedEffect i) d of
        Inr (claimed, d') \<Rightarrow> (claimed, d') | Inl _ \<Rightarrow> (False, d))"
| "effect_step i (EComplete st r) d = (False, snd (run_transaction (completeExternalEffect i st r) d))"
| "effect_step i (EReplace r) d = (False, snd (run_transaction (replaceCompletedExternalEffectResult i r) d))"
| "effect_step i (ESettle tool) d = (False, snd (run_transaction (settleUncertainEffect i tool) d))"
| "effect_step i (EAnswer ok) d = (False, snd (run_transaction (answer_effect i ok) d))"
| "effect_step i (ECall approved tool) d =
     (case claimOrReturn approved i tool d of
        Inr (result, d') \<Rightarrow> (result = None, d') | Inl _ \<Rightarrow> (False, d))"
| "effect_step i (ERecord xid eid now run kind executionId request before) d =
     (False, snd (run_transaction (recordEffect xid eid now run kind executionId request before) d))"

fun claims_made :: "id \<Rightarrow> effect_op list \<Rightarrow> db \<Rightarrow> nat" where
  "claims_made i [] d = 0"
| "claims_made i (op # ops) d =
     (let (claimed, d') = effect_step i op d in (if claimed then 1 else 0) + claims_made i ops d')"

text \<open>
  The effect is unique; and it is past its claim when it exists and is neither intended nor
  approved.
\<close>

definition one_effect :: "id \<Rightarrow> db \<Rightarrow> bool" where
  "one_effect i d \<longleftrightarrow> count_where (\<lambda>x. x_id x = i) (db_effects d) \<le> 1"

definition past_claim :: "id \<Rightarrow> db \<Rightarrow> bool" where
  "past_claim i d \<longleftrightarrow> (\<exists>x \<in> set (db_effects d). x_id x = i) \<and>
     (\<forall>x \<in> set (db_effects d). x_id x = i \<longrightarrow> x_status x \<noteq> Intended \<and> x_status x \<noteq> Approved)"

text \<open>
  The contract of a write to effect rows: it keeps the keys, and makes nothing claimable that
  was not.
\<close>

locale effect_update =
  fixes p :: "effect_row \<Rightarrow> bool" and f :: "effect_row \<Rightarrow> effect_row"
  assumes key: "x_id (f x) = x_id x"
    and settles: "p x \<Longrightarrow> x_status (f x) = Intended \<or> x_status (f x) = Approved \<Longrightarrow>
      x_status x = Intended \<or> x_status x = Approved"
begin

lemma keeps_one: "tx_pres (one_effect i) (update_effects p f)"
proof -
  have "count_where (\<lambda>x. x_id x = i) (update_where p f xs) = count_where (\<lambda>x. x_id x = i) xs" for xs
    by (induction xs) (simp_all add: count_where_def key)
  then show ?thesis by (auto intro!: tx_presI simp: one_effect_def update_effects_def)
qed

lemma keeps_past: "tx_pres (past_claim i) (update_effects p f)"
proof (rule tx_presI)
  fix s n s'
  assume past: "past_claim i s" and "update_effects p f s = Inr (n, s')"
  then have s': "db_effects s' = update_where p f (db_effects s)" by (auto simp: update_effects_def)
  from past obtain x where "x \<in> set (db_effects s)" "x_id x = i" by (auto simp: past_claim_def)
  then have "(if p x then f x else x) \<in> set (db_effects s')" "x_id (if p x then f x else x) = i"
    by (auto simp: s' set_update_where key)
  then have "\<exists>x \<in> set (db_effects s'). x_id x = i" by blast
  moreover have "x_status y \<noteq> Intended \<and> x_status y \<noteq> Approved"
    if "y \<in> set (db_effects s')" "x_id y = i" for y
  proof -
    from that(1) obtain r where r: "r \<in> set (db_effects s)" "y = (if p r then f r else r)"
      unfolding s' set_update_where by blast
    with that(2) have "x_id r = i" by (cases "p r") (simp_all add: key)
    with past r(1) have "x_status r \<noteq> Intended \<and> x_status r \<noteq> Approved" by (simp add: past_claim_def)
    with r(2) settles [of r] show ?thesis by (cases "p r") auto
  qed
  ultimately show "past_claim i s'" by (simp add: past_claim_def)
qed

lemmas keeps [tx_intros] = keeps_one keeps_past

end

interpretation claim_approved: effect_update "\<lambda>x. x_id x = i \<and> x_status x = Approved" "set_status Executing" for i
  by unfold_locales (simp_all add: set_status_def)

interpretation claim_intended: effect_update "\<lambda>x. x_id x = i \<and> x_status x = Intended" "set_status Executing" for i
  by unfold_locales (simp_all add: set_status_def)

interpretation complete: effect_update "\<lambda>x. x_id x = i \<and> x_status x = st"
  "\<lambda>x. x\<lparr>x_status := EffectCompleted, x_result := Some r\<rparr>" for i st r
  by unfold_locales simp_all

interpretation replace: effect_update "\<lambda>x. x_id x = i \<and> x_status x = EffectCompleted"
  "\<lambda>x. x\<lparr>x_result := Some r\<rparr>" for i r
  by unfold_locales simp_all

interpretation settle: effect_update "\<lambda>x. x_id x = i \<and> x_status x = Executing"
  "\<lambda>x. x\<lparr>x_status := Uncertain, x_result := Some r\<rparr>" for i r
  by unfold_locales simp_all

interpretation answer: effect_update "\<lambda>x. x_id x = i \<and> x_status x = Intended"
  "set_status (if ok then Approved else Denied)" for i ok
  by unfold_locales (simp_all add: set_status_def)

lemma create_effect_pres [tx_intros]:
  "tx_pres (past_claim i) (create_effect e)" "tx_pres (one_effect i) (create_effect e)"
proof -
  show "tx_pres (past_claim i) (create_effect e)"
    by (rule tx_presI) (fastforce simp: create_effect_def past_claim_def split: if_splits)
  have "one_effect i (d\<lparr>db_effects := db_effects d @ [e]\<rparr>)"
    if one: "one_effect i d" and new: "\<forall>q \<in> set (db_effects d). x_id q \<noteq> x_id e" for d
  proof (cases "x_id e = i")
    case True
    with new have "filter (\<lambda>x. x_id x = i) (db_effects d) = []" by (simp add: filter_empty_conv)
    then show ?thesis by (simp add: one_effect_def count_where_def)
  next
    case False
    with one show ?thesis by (simp add: one_effect_def count_where_def)
  qed
  then show "tx_pres (one_effect i) (create_effect e)"
    by (auto intro!: tx_presI simp: create_effect_def split: if_splits)
qed

lemma append_event_effects [tx_intros]:
  "tx_pres (past_claim i) (appendEventInTransaction eid now a)"
  "tx_pres (one_effect i) (appendEventInTransaction eid now a)"
  unfolding appendEventInTransaction_def
  by (intro tx_intros; auto intro!: tx_presI simp: bulk_defs create_event_def assertRunCanWriteHistory_def
        past_claim_def one_effect_def split: if_splits option.splits)+

lemmas effect_tx_defs = claimApprovedEffect_def claimIntendedEffect_def completeExternalEffect_def
  replaceCompletedExternalEffectResult_def settleUncertainEffect_def claimOrReturn_def answer_effect_def
  recordEffect_def Let_def

lemma tx_pres_gate [tx_intros]:
  assumes "tx_pres I m" "\<And>r. tx_pres I (k r)" "\<And>t. tx_pres I (u t)" "tx_pres I n"
  shows "tx_pres I (case g of GateExecute \<Rightarrow> m | GateReturn r \<Rightarrow> k r | GatePaused \<Rightarrow> n | GateUncertain t \<Rightarrow> u t)"
  using assms by (cases g) simp_all

lemma effect_ops_keep [tx_intros]:
  "tx_pres (one_effect i) (claimApprovedEffect j)" "tx_pres (past_claim i) (claimApprovedEffect j)"
  "tx_pres (one_effect i) (claimIntendedEffect j)" "tx_pres (past_claim i) (claimIntendedEffect j)"
  "tx_pres (one_effect i) (completeExternalEffect j st r)" "tx_pres (past_claim i) (completeExternalEffect j st r)"
  "tx_pres (one_effect i) (replaceCompletedExternalEffectResult j r)"
  "tx_pres (past_claim i) (replaceCompletedExternalEffectResult j r)"
  "tx_pres (one_effect i) (settleUncertainEffect j tool)" "tx_pres (past_claim i) (settleUncertainEffect j tool)"
  "tx_pres (one_effect i) (answer_effect j ok)" "tx_pres (past_claim i) (answer_effect j ok)"
  "tx_pres (one_effect i) (recordEffect xid eid now run kind ex req before)"
  "tx_pres (past_claim i) (recordEffect xid eid now run kind ex req before)"
  unfolding effect_tx_defs by (intro tx_intros)+

lemma claimOrReturn_keeps [tx_intros]:
  "tx_pres (one_effect i) (claimOrReturn ap j tool)" "tx_pres (past_claim i) (claimOrReturn ap j tool)"
  unfolding claimOrReturn_def by (intro tx_intros)+

lemma claimed_past:
  assumes one: "one_effect i d" and st: "st = Intended \<or> st = Approved"
    and upd: "update_effects (\<lambda>x. x_id x = i \<and> x_status x = st) (set_status Executing) d = Inr (1, d')"
  shows "\<not> past_claim i d \<and> past_claim i d'"
proof -
  let ?p = "\<lambda>x. x_id x = i \<and> x_status x = st"
  from upd have c: "count_where ?p (db_effects d) = 1"
    and d': "db_effects d' = update_where ?p (set_status Executing) (db_effects d)"
    by (auto simp: update_effects_def)
  from c have "count_where ?p (db_effects d) \<noteq> 0" by simp
  then obtain x where x: "x \<in> set (db_effects d)" "x_id x = i" "x_status x = st"
    unfolding count_where_pos by blast
  have single: "y = x" if "y \<in> set (db_effects d)" "x_id y = i" for y
  proof -
    have "length (filter (\<lambda>x. x_id x = i) (db_effects d)) \<le> 1" using one by (simp add: one_effect_def count_where_def)
    moreover have "x \<in> set (filter (\<lambda>x. x_id x = i) (db_effects d))"
      "y \<in> set (filter (\<lambda>x. x_id x = i) (db_effects d))" using x that by simp_all
    ultimately show ?thesis by (cases "filter (\<lambda>x. x_id x = i) (db_effects d)") auto
  qed
  have "\<not> past_claim i d" using x st by (auto simp: past_claim_def)
  moreover have "set_status Executing x \<in> set (db_effects d')"
    unfolding d' set_update_where using x by force
  then have "\<exists>x \<in> set (db_effects d'). x_id x = i" using x(2) by (intro bexI) (simp_all add: set_status_def)
  moreover have "x_status y = Executing" if "y \<in> set (db_effects d')" "x_id y = i" for y
  proof -
    from that(1) obtain r where r: "r \<in> set (db_effects d)" "y = (if ?p r then set_status Executing r else r)"
      unfolding d' set_update_where by blast
    with that(2) have "x_id r = i" by (cases "?p r") (simp_all add: set_status_def)
    with r single x have "r = x" by blast
    with r x show ?thesis by (simp add: set_status_def)
  qed
  ultimately show ?thesis by (auto simp: past_claim_def)
qed

lemma claim_step:
  assumes "one_effect i d"
    and "(if approved then claimApprovedEffect i else claimIntendedEffect i) d = Inr (True, d')"
  shows "\<not> past_claim i d \<and> past_claim i d'"
  using assms claimed_past [OF assms(1)]
  by (cases approved) (auto simp: claimApprovedEffect_def claimIntendedEffect_def)

lemma claimOrReturn_claims:
  assumes "claimOrReturn approved i tool d = Inr (None, d')"
  shows "(if approved then claimApprovedEffect i else claimIntendedEffect i) d = Inr (True, d')"
proof -
  from assms obtain b s' where c: "(if approved then claimApprovedEffect i else claimIntendedEffect i) d = Inr (b, s')"
    and rest: "(if b then tx_return None else tx_bind (tx_get (find_effect i)) (\<lambda>current.
       case current of None \<Rightarrow> tx_throw (AppError ''uncertain outcome'')
       | Some x \<Rightarrow> (case resolveDuplicateEffectGate (x_status x) (x_result x) tool of
              GateReturn r \<Rightarrow> tx_return (Some r)
            | GateUncertain _ \<Rightarrow> tx_bind (settleUncertainEffect i tool) (\<lambda>r. tx_return (Some r))
            | _ \<Rightarrow> tx_throw (AppError ''uncertain outcome'')))) s' = Inr (None, d')"
    unfolding claimOrReturn_def by (auto simp del: tx_get_run)
  have b
  proof (rule ccontr)
    assume "\<not> b"
    with rest have "(case find_effect i s' of None \<Rightarrow> tx_throw (AppError ''uncertain outcome'')
       | Some x \<Rightarrow> (case resolveDuplicateEffectGate (x_status x) (x_result x) tool of
              GateReturn r \<Rightarrow> tx_return (Some r)
            | GateUncertain _ \<Rightarrow> tx_bind (settleUncertainEffect i tool) (\<lambda>r. tx_return (Some r))
            | _ \<Rightarrow> tx_throw (AppError ''uncertain outcome''))) s' = Inr (None, d')" by simp
    then show False
      by (cases "find_effect i s'"; cases "resolveDuplicateEffectGate (x_status (the (find_effect i s')))
             (x_result (the (find_effect i s'))) tool") simp_all
  qed
  with c rest show ?thesis by simp
qed

lemma effect_step_keeps:
  "one_effect i d \<Longrightarrow> one_effect i (snd (effect_step i op d))"
  "past_claim i d \<Longrightarrow> past_claim i (snd (effect_step i op d))"
proof -
  have *: "I (snd (effect_step i op d))" if "I d" and I: "I = one_effect i \<or> I = past_claim i" for I
  proof -
    have pres: "tx_pres I (claimApprovedEffect i)" "tx_pres I (claimIntendedEffect i)"
      "tx_pres I (completeExternalEffect i st r)" "tx_pres I (replaceCompletedExternalEffectResult i r)"
      "tx_pres I (settleUncertainEffect i tool)" "tx_pres I (answer_effect i ok)"
      "tx_pres I (recordEffect xid eid now run kind ex req before)" "tx_pres I (claimOrReturn ap i tool)"
      for st r tool ok xid eid now run kind ex req before ap
      using I by (auto intro: tx_intros)
    show ?thesis
    proof (cases op)
      case (EClaim ap)
      then show ?thesis using that(1) pres(1,2)
        by (cases ap) (auto split: sum.splits dest: tx_presD)
    next
      case (ECall ap tool)
      then show ?thesis using that(1) pres(8) by (auto split: sum.splits dest: tx_presD)
    qed (use that(1) pres in \<open>auto simp del: run_transaction.simps intro: run_transaction_pres\<close>)
  qed
  then show "one_effect i d \<Longrightarrow> one_effect i (snd (effect_step i op d))"
    "past_claim i d \<Longrightarrow> past_claim i (snd (effect_step i op d))" by blast+
qed

lemma effect_step_claims:
  assumes "one_effect i d" "fst (effect_step i op d)"
  shows "\<not> past_claim i d \<and> past_claim i (snd (effect_step i op d))"
proof (cases op)
  case (EClaim ap)
  with assms obtain d' where c: "(if ap then claimApprovedEffect i else claimIntendedEffect i) d = Inr (True, d')"
    by (auto split: sum.splits)
  with EClaim claim_step [OF assms(1) c] show ?thesis by simp
next
  case (ECall ap tool)
  with assms obtain d' where c: "claimOrReturn ap i tool d = Inr (None, d')" by (auto split: sum.splits)
  with ECall claim_step [OF assms(1) claimOrReturn_claims [OF c]] show ?thesis by simp
qed (use assms in auto)

lemma claims_after_past: "one_effect i d \<Longrightarrow> past_claim i d \<Longrightarrow> claims_made i ops d = 0"
proof (induction ops arbitrary: d)
  case (Cons op ops)
  have "\<not> fst (effect_step i op d)" using effect_step_claims [of i d op] Cons.prems by blast
  then show ?case
    using Cons.IH [of "snd (effect_step i op d)"] effect_step_keeps Cons.prems by (simp add: case_prod_unfold)
qed simp

text \<open>
  C16. However claims by crashed and retried workers, completions, settlements, answers of a
  user and whole tool calls interleave, an external effect is claimed at most once: two
  executions never both go on to act.
\<close>

theorem effect_claimed_at_most_once:
  assumes "one_effect i d"
  shows "claims_made i ops d \<le> 1"
  using assms
proof (induction ops arbitrary: d)
  case (Cons op ops)
  note one = effect_step_keeps(1) [OF Cons.prems, of op]
  show ?case
  proof (cases "fst (effect_step i op d)")
    case True
    then have "past_claim i (snd (effect_step i op d))" using effect_step_claims [OF Cons.prems] by blast
    with one have "claims_made i ops (snd (effect_step i op d)) = 0" by (rule claims_after_past)
    with True show ?thesis by (simp add: case_prod_unfold)
  next
    case False
    with Cons.IH [OF one] show ?thesis by (simp add: case_prod_unfold)
  qed
qed simp

lemma claims_made_append: "claims_made i ops d \<le> claims_made i (ops @ more_ops) d"
  by (induction ops arbitrary: d) (simp_all add: case_prod_unfold Let_def)

lemma effect_claimed_at_most_once_witness:
  "claims_made (js ''x1'') [EClaim True, EAnswer True, EClaim True, ECall True (js ''t''), EClaim True] example_db = 1"
proof -
  let ?ops = "[EClaim True, EAnswer True, EClaim True, ECall True (js ''t''), EClaim True]"
  have "one_effect (js ''x1'') example_db" by (simp add: one_effect_def count_where_def example_defs)
  then have le: "claims_made (js ''x1'') ?ops example_db \<le> 1" by (rule effect_claimed_at_most_once)
  have "claims_made (js ''x1'') [EClaim True, EAnswer True, EClaim True] example_db = 1"
    by (simp del: tx_bind_run tx_then_run tx_get_run tx_return_run add: tx_eval claimApprovedEffect_def
        answer_effect_def update_effects_def set_status_def count_where_def example_defs ids)
  then have "1 \<le> claims_made (js ''x1'') ?ops example_db"
    using claims_made_append [of "js ''x1''" "[EClaim True, EAnswer True, EClaim True]" example_db
        "[ECall True (js ''t''), EClaim True]"] by (simp del: claims_made.simps)
  with le show ?thesis by simp
qed

end
