(* ===== verification/Numbers.thy ===== *)
theory Numbers
  imports Prelude
begin

text \<open>
  Decimal numerals: what \<open>String(n)\<close> and a template literal print for a natural number, and
  what \<open>Number(s)\<close> reads back. \<open>js_number\<close> is \<open>Number\<close> on texts of decimal digits; where the
  code may see other texts (a sign, a fraction, an exponent, a radix prefix) the components
  take the reader as an argument instead.
\<close>

definition digit :: "nat \<Rightarrow> jchar" where
  "digit n = word_of_nat (48 + n)"

definition is_digit :: "jchar \<Rightarrow> bool" where
  "is_digit c \<longleftrightarrow> 48 \<le> c \<and> c \<le> 57"

definition digit_value :: "jchar \<Rightarrow> nat" where
  "digit_value c = unat c - 48"

fun dec :: "nat \<Rightarrow> jstring" where
  "dec n = (if n < 10 then [digit n] else dec (n div 10) @ [digit (n mod 10)])"

declare dec.simps [simp del]

definition digits_value :: "jstring \<Rightarrow> nat" where
  "digits_value s = foldl (\<lambda>n c. 10 * n + digit_value c) 0 s"

definition all_digits :: "jstring \<Rightarrow> bool" where
  "all_digits s \<longleftrightarrow> s \<noteq> [] \<and> list_all is_digit s"

definition js_number :: "jstring \<Rightarrow> int option" where
  "js_number s =
     (let t = trim s in
      if t = [] then Some 0 else if all_digits t then Some (int (digits_value t)) else None)"

lemma unat_digit: "n < 10 \<Longrightarrow> unat (digit n) = 48 + n"
  by (simp add: digit_def unat_of_nat del: of_nat_add of_nat_numeral)

lemma is_digit_unat: "is_digit c \<longleftrightarrow> 48 \<le> unat c \<and> unat c \<le> 57"
  by (simp add: is_digit_def word_le_nat_alt)

lemma is_digit_digit: "n < 10 \<Longrightarrow> is_digit (digit n)"
  by (simp add: is_digit_unat unat_digit)

lemma digit_value_digit [simp]: "n < 10 \<Longrightarrow> digit_value (digit n) = n"
  by (simp add: digit_value_def unat_digit)

lemma dec_not_Nil [simp]: "dec n \<noteq> []" "[] \<noteq> dec n"
  by (subst dec.simps, simp)+

lemma dec_digits: "list_all is_digit (dec n)"
proof (induction n rule: dec.induct)
  case (1 n)
  then show ?case by (subst dec.simps) (simp add: is_digit_digit)
qed

lemma all_digits_dec [simp]: "all_digits (dec n)"
  by (simp add: all_digits_def dec_digits)

lemma digits_value_dec [simp]: "digits_value (dec n) = n"
proof (induction n rule: dec.induct)
  case (1 n)
  show ?case
  proof (cases "n < 10")
    case True
    then show ?thesis by (subst dec.simps) (simp add: digits_value_def)
  next
    case False
    then have "digits_value (dec n) = 10 * digits_value (dec (n div 10)) + n mod 10"
      by (subst dec.simps) (simp add: digits_value_def)
    with 1 False show ?thesis by simp
  qed
qed

lemma dec_inject [simp]: "dec m = dec n \<longleftrightarrow> m = n"
  by (metis digits_value_dec)

lemma digit_not_ws: "is_digit c \<Longrightarrow> \<not> is_ws c"
  by (auto simp: is_ws_def is_digit_unat)

lemma dec_not_ws: "c \<in> set (dec n) \<Longrightarrow> \<not> is_ws c"
  using dec_digits by (auto simp: list_all_iff digit_not_ws)

lemma trim_no_ws: "(\<And>c. c \<in> set s \<Longrightarrow> \<not> is_ws c) \<Longrightarrow> trim s = s"
  by (rule trim_idem_if) (auto simp: last_in_set)

lemma trim_dec [simp]: "trim (dec n) = dec n"
  by (rule trim_no_ws) (rule dec_not_ws)

lemma js_number_dec [simp]: "js_number (dec n) = Some (int n)"
  by (simp add: js_number_def)

text \<open>Two digits: \<open>String(n).padStart(2, "0")\<close>.\<close>

definition pad2 :: "nat \<Rightarrow> jstring" where
  "pad2 n = (if length (dec n) < 2 then digit 0 # dec n else dec n)"

lemma dec_below_10: "n < 10 \<Longrightarrow> dec n = [digit n]"
  by (subst dec.simps) simp

lemma dec_below_100: "10 \<le> n \<Longrightarrow> n < 100 \<Longrightarrow> dec n = [digit (n div 10), digit (n mod 10)]"
  by (subst dec.simps) (simp add: dec_below_10)

lemma length_pad2: "n < 100 \<Longrightarrow> length (pad2 n) = 2"
  by (cases "n < 10") (simp_all add: pad2_def dec_below_10 dec_below_100)

lemma all_digits_pad2 [simp]: "all_digits (pad2 n)"
  using dec_digits [of n] by (simp add: pad2_def all_digits_def is_digit_digit)

lemma digits_value_zero: "digits_value (digit 0 # s) = digits_value s"
  by (simp add: digits_value_def)

lemma digits_value_pad2 [simp]: "digits_value (pad2 n) = n"
  by (simp add: pad2_def digits_value_zero)

lemma all_digits_trim [simp]: "all_digits s \<Longrightarrow> trim s = s"
  by (rule trim_no_ws) (auto simp: all_digits_def list_all_iff digit_not_ws)

lemma js_number_pad2 [simp]: "js_number (pad2 n) = Some (int n)"
  using all_digits_pad2 [of n] by (auto simp: js_number_def all_digits_def simp del: all_digits_pad2)

text \<open>\<open>String(i)\<close> of an integer.\<close>

definition int_text :: "int \<Rightarrow> jstring" where
  "int_text i = (if i < 0 then js ''-'' @ dec (nat (- i)) else dec (nat i))"

lemma int_text_nat [simp]: "int_text (int n) = dec n"
  by (simp add: int_text_def)

end
