(* ===== verification/TextLines.thy ===== *)
theory TextLines
  imports Prelude
begin

text \<open>
  Texts line by line: \<open>split\<close> at one code unit and at line ends, the white space around a line, and the
  classes of characters that the expressions of several files name.
\<close>

subsection \<open>Characters\<close>

definition ascii_lower_letter :: "jchar \<Rightarrow> bool" where
  "ascii_lower_letter c \<longleftrightarrow> 97 \<le> c \<and> c \<le> 122"

definition ascii_alnum :: "jchar \<Rightarrow> bool" where
  "ascii_alnum c \<longleftrightarrow> ascii_lower_letter c \<or> (65 \<le> c \<and> c \<le> 90) \<or> (48 \<le> c \<and> c \<le> 57)"

text \<open>What the dot of an expression does not match.\<close>

definition line_break_char :: "jchar \<Rightarrow> bool" where
  "line_break_char c \<longleftrightarrow> c = 10 \<or> c = 13 \<or> c = 0x2028 \<or> c = 0x2029"

subsection \<open>Pieces\<close>

lemma split_on_parts: "t \<in> set (split_on c s) \<Longrightarrow> c \<notin> set t"
  by (induction s arbitrary: t) (auto split: list.splits if_splits)

lemma split_on_chars: "t \<in> set (split_on c s) \<Longrightarrow> set t \<subseteq> set s"
  by (induction s arbitrary: t) (fastforce split: list.splits if_splits)+

lemma split_on_plain: "c \<notin> set s \<Longrightarrow> split_on c s = [s]"
  by (induction s) auto

lemma split_on_append: "c \<notin> set s \<Longrightarrow> split_on c (s @ c # t) = s # split_on c t"
  by (induction s) auto

lemma join_with_snoc: "ls \<noteq> [] \<Longrightarrow> join_with sep (ls @ [t]) = join_with sep ls @ sep @ t"
  by (induction ls rule: induct_list012) simp_all

subsection \<open>Lines\<close>

definition strip_cr :: "jstring \<Rightarrow> jstring" where
  "strip_cr l = (if l \<noteq> [] \<and> last l = 13 then butlast l else l)"

text \<open>The pieces of \<open>split(/\r?\n/)\<close>: the last one is followed by no line feed.\<close>

definition split_lines :: "jstring \<Rightarrow> jstring list" where
  "split_lines contents =
     (let ps = split_on 10 contents in map strip_cr (butlast ps) @ [last ps])"

lemma strip_cr_snoc [simp]: "strip_cr (l @ [13]) = l"
  by (simp add: strip_cr_def)

lemma split_join_lf:
  "\<forall>l \<in> set ls. 10 \<notin> set l \<Longrightarrow> ls \<noteq> [] \<Longrightarrow> split_on 10 (join_with [10] ls) = ls"
  by (induction ls rule: induct_list012) (simp_all add: split_on_plain split_on_append)

lemma split_join_crlf:
  "\<forall>l \<in> set ls. 10 \<notin> set l \<Longrightarrow> ls \<noteq> [] \<Longrightarrow>
   split_on 10 (join_with [13, 10] ls) = map (\<lambda>l. l @ [13]) (butlast ls) @ [last ls]"
proof (induction ls rule: induct_list012)
  case (3 s t ss)
  have "split_on 10 (s @ [13, 10] @ r) = (s @ [13]) # split_on 10 r" for r
    using 3(3) split_on_append [of 10 "s @ [13]" r] by simp
  with 3 show ?case by simp
qed (simp_all add: split_on_plain)

lemma split_lines_plain: "l \<in> set (split_lines contents) \<Longrightarrow> 10 \<notin> set l" "split_lines contents \<noteq> []"
proof -
  have strip: "set (strip_cr p) \<subseteq> set p" for p by (auto simp: strip_cr_def dest: in_set_butlastD)
  show "l \<in> set (split_lines contents) \<Longrightarrow> 10 \<notin> set l"
    using strip split_on_parts [of _ 10 contents]
    by (fastforce simp: split_lines_def Let_def dest: in_set_butlastD)
  show "split_lines contents \<noteq> []" by (simp add: split_lines_def Let_def)
qed

subsection \<open>White space around a line\<close>

text \<open>White space at the end of a line makes no difference.\<close>

lemma trim_snoc_ws:
  assumes "is_ws c" shows "trim (s @ [c]) = trim s"
proof (cases "\<forall>d \<in> set s. is_ws d")
  case True
  then have "dropWhile is_ws s = []" and "dropWhile is_ws (s @ [c]) = []"
    using assms by (simp_all add: dropWhile_eq_Nil_conv)
  then show ?thesis unfolding trim_def trim_start_def by (simp only:)
next
  case False
  then have "dropWhile is_ws (s @ [c]) = dropWhile is_ws s @ [c]" by (simp add: dropWhile_append)
  with assms show ?thesis by (simp add: trim_def trim_start_def trim_end_def)
qed

lemma trim_append_ws: "\<forall>c \<in> set w. is_ws c \<Longrightarrow> trim (s @ w) = trim s"
proof (induction w rule: rev_induct)
  case (snoc c w)
  then show ?case using trim_snoc_ws [of c "s @ w"] by simp
qed simp

lemma trim_of_trim_end: "trim (trim_end s) = trim s"
proof -
  have "s = trim_end s @ rev (takeWhile is_ws (rev s))"
    unfolding trim_end_def by (metis rev_append rev_rev_ident takeWhile_dropWhile_id)
  then show ?thesis
    using trim_append_ws [of "rev (takeWhile is_ws (rev s))" "trim_end s"]
    by (metis set_rev set_takeWhileD)
qed

lemma ws_cr [simp]: "is_ws 13" and ws_lf: "is_ws 10" by (simp_all add: is_ws_def)

lemma trim_strip_cr: "trim (strip_cr l) = trim l"
proof (cases "l \<noteq> [] \<and> last l = 13")
  case True
  then have "l = butlast l @ [13]" by (metis append_butlast_last_id)
  then have "trim l = trim (butlast l)" using trim_snoc_ws [OF ws_cr] by metis
  with True show ?thesis by (simp add: strip_cr_def)
qed (auto simp: strip_cr_def)

lemma trim_end_keeps:
  assumes "\<not> is_ws c" shows "trim_end (s @ c # t) = s @ c # trim_end t"
  using assms by (auto simp: trim_end_def dropWhile_append)

end
