(* ===== verification/Cron.thy ===== *)
theory Cron
  imports Numbers TextLines
begin

text \<open>
  Schedules of routines, \<open>packages/core/src/cron.ts\<close>: one-shot schedules, the presets of the
  schedule editor, and the next run over several schedules. The cron library is the argument
  \<open>croner\<close> (a parsed schedule, or \<open>None\<close> where the constructor throws, as a function from a time
  to the next run), the time-zone check is \<open>valid_tz\<close>, and \<open>num\<close> is the integer that \<open>Number\<close>
  reads from a text, \<open>None\<close> where it reads no integer.
\<close>

subsection \<open>One-shot schedules\<close>

definition ONCE_ROUTINE_CRON :: jstring where
  "ONCE_ROUTINE_CRON = js ''@once''"

definition isOneShotRoutineCron :: "jstring \<Rightarrow> bool" where
  "isOneShotRoutineCron cron \<longleftrightarrow> trim cron = ONCE_ROUTINE_CRON"

definition isOneShotRoutineCrons :: "jstring list \<Rightarrow> bool" where
  "isOneShotRoutineCrons crons \<longleftrightarrow> length crons = 1 \<and> isOneShotRoutineCron (hd crons)"

definition hasMixedOneShotSchedule :: "jstring list \<Rightarrow> bool" where
  "hasMixedOneShotSchedule crons \<longleftrightarrow> length crons > 1 \<and> list_ex isOneShotRoutineCron crons"

subsection \<open>Presets\<close>

datatype cron_freq = EveryHour | EveryDay | Weekdays | EveryWeek | EveryMonth | Interval | Advanced

datatype cron_unit = Minutes | Hours | Days

record cron_preset =
  cp_freq :: cron_freq
  cp_n :: nat
  cp_unit :: cron_unit
  cp_time :: jstring
  cp_cron :: jstring

text \<open>The count of an input is \<open>None\<close> when it is absent or not finite.\<close>

record cron_preset_input =
  ci_freq :: cron_freq
  ci_n :: "int option"
  ci_unit :: "cron_unit option"
  ci_time :: "jstring option"
  ci_cron :: "jstring option"

definition defaultCronPreset :: cron_preset where
  "defaultCronPreset = \<lparr>cp_freq = EveryDay, cp_n = 3, cp_unit = Minutes, cp_time = js ''9:00 AM'', cp_cron = []\<rparr>"

definition parseClock :: "(jstring \<Rightarrow> int option) \<Rightarrow> jstring \<Rightarrow> (int \<times> int) option" where
  "parseClock num time =
     (let parts = split_on 58 time;
          rest = (if length parts > 1 then parts ! 1 else js ''00'')
      in case (num (take 2 rest), num (hd parts)) of
           (Some minute, Some h) \<Rightarrow>
             (let h1 = (if contains_sub (js ''pm'') (ascii_lower time) \<and> h < 12 then h + 12 else h);
                  h2 = (if contains_sub (js ''am'') (ascii_lower time) \<and> h1 = 12 then 0 else h1)
              in Some (h2, minute))
         | _ \<Rightarrow> None)"

definition formatClock :: "nat \<Rightarrow> nat \<Rightarrow> jstring" where
  "formatClock hour minute =
     (let period = (if hour \<ge> 12 then js ''PM'' else js ''AM'');
          h12 = (if hour mod 12 = 0 then 12 else hour mod 12)
      in dec h12 @ js '':'' @ pad2 minute @ js '' '' @ period)"

text \<open>\<open>None\<close> is a clock time whose parts are no integers.\<close>

definition cronFromPreset :: "(jstring \<Rightarrow> int option) \<Rightarrow> cron_preset_input \<Rightarrow> jstring option" where
  "cronFromPreset num input =
     (let advancedCron = map_option trim (ci_cron input) in
      if ci_freq input = Advanced
      then (if truthy advancedCron \<and> isOneShotRoutineCron (the advancedCron) then Some ONCE_ROUTINE_CRON
            else Some (if truthy advancedCron then the advancedCron else js ''*/3 * * * *''))
      else if ci_freq input = EveryHour then Some (js ''0 * * * *'')
      else if ci_freq input = Interval
      then (let n = (case ci_n input of Some n \<Rightarrow> if n > 0 then n else 5 | None \<Rightarrow> 5) in
            if ci_unit input = Some Days then Some (js ''0 0 */'' @ int_text n @ js '' * *'')
            else if ci_unit input = Some Hours then Some (js ''0 */'' @ int_text n @ js '' * * *'')
            else Some (js ''*/'' @ int_text n @ js '' * * * *''))
      else (case parseClock num (case ci_time input of None \<Rightarrow> js ''9:00 AM'' | Some t \<Rightarrow> t) of
              None \<Rightarrow> None
            | Some (hour, minute) \<Rightarrow>
                (let start = int_text minute @ js '' '' @ int_text hour in
                 Some (start @ (if ci_freq input = Weekdays then js '' * * 1-5''
                                else if ci_freq input = EveryWeek then js '' * * 1''
                                else if ci_freq input = EveryMonth then js '' 1 * *''
                                else js '' * * *'')))))"

text \<open>\<open>split\<close> at runs of white space.\<close>

function split_ws :: "jstring \<Rightarrow> jstring list" where
  "split_ws [] = [[]]"
| "split_ws (c # s) =
     (if is_ws c then [] # split_ws (dropWhile is_ws s)
      else case split_ws s of [] \<Rightarrow> [[c]] | w # ws \<Rightarrow> (c # w) # ws)"
  by pat_completeness auto

termination split_ws
  by (relation "measure length") (auto intro: le_less_trans [OF length_dropWhile_le])

definition stepValue :: "jstring \<Rightarrow> nat option" where
  "stepValue expr =
     (if prefix (js ''*/'') expr \<and> all_digits (drop 2 expr) \<and> digits_value (drop 2 expr) > 0
      then Some (digits_value (drop 2 expr)) else None)"

definition advanced_preset :: "jstring \<Rightarrow> cron_preset" where
  "advanced_preset cron = defaultCronPreset\<lparr>cp_freq := Advanced, cp_cron := cron\<rparr>"

definition interval_preset :: "nat \<Rightarrow> cron_unit \<Rightarrow> cron_preset" where
  "interval_preset n unit = defaultCronPreset\<lparr>cp_freq := Interval, cp_n := n, cp_unit := unit\<rparr>"

definition preset_of_fields :: "jstring \<Rightarrow> jstring \<Rightarrow> jstring \<Rightarrow> jstring \<Rightarrow> jstring \<Rightarrow> jstring \<Rightarrow> cron_preset" where
  "preset_of_fields trimmed minute hour day month dow =
     (let star = js ''*'' in
      if month \<noteq> star then advanced_preset trimmed
      else if minute = js ''0'' \<and> hour = star \<and> day = star \<and> dow = star
      then defaultCronPreset\<lparr>cp_freq := EveryHour\<rparr>
      else if stepValue minute \<noteq> None \<and> hour = star \<and> day = star \<and> dow = star
      then interval_preset (the (stepValue minute)) Minutes
      else if minute = js ''0'' \<and> stepValue hour \<noteq> None \<and> day = star \<and> dow = star
      then interval_preset (the (stepValue hour)) Hours
      else if minute = js ''0'' \<and> hour = js ''0'' \<and> stepValue day \<noteq> None \<and> dow = star
      then interval_preset (the (stepValue day)) Days
      else if \<not> all_digits minute \<or> \<not> all_digits hour then advanced_preset trimmed
      else let time = formatClock (digits_value hour) (digits_value minute) in
           if day = star \<and> dow = js ''1-5'' then defaultCronPreset\<lparr>cp_freq := Weekdays, cp_time := time\<rparr>
           else if day = star \<and> dow = js ''1'' then defaultCronPreset\<lparr>cp_freq := EveryWeek, cp_time := time\<rparr>
           else if day = js ''1'' \<and> dow = star then defaultCronPreset\<lparr>cp_freq := EveryMonth, cp_time := time\<rparr>
           else if day = star \<and> dow = star then defaultCronPreset\<lparr>cp_freq := EveryDay, cp_time := time\<rparr>
           else advanced_preset trimmed)"

definition presetFromCron :: "jstring \<Rightarrow> cron_preset" where
  "presetFromCron cron =
     (let trimmed = trim cron; parts = split_ws trimmed in
      if isOneShotRoutineCron trimmed then advanced_preset ONCE_ROUTINE_CRON
      else if length parts < 5 then advanced_preset trimmed
      else preset_of_fields trimmed (parts ! 0) (parts ! 1) (parts ! 2) (parts ! 3) (parts ! 4))"

definition cron_unit_text :: "cron_unit \<Rightarrow> jstring" where
  "cron_unit_text u = (case u of Minutes \<Rightarrow> js ''minutes'' | Hours \<Rightarrow> js ''hours'' | Days \<Rightarrow> js ''days'')"

definition describeCronPreset :: "cron_preset \<Rightarrow> jstring \<times> jstring" where
  "describeCronPreset p =
     (case cp_freq p of
        Interval \<Rightarrow> (js ''Every'', dec (cp_n p) @ js '' '' @ cron_unit_text (cp_unit p))
      | EveryHour \<Rightarrow> (js ''Every hour'', [])
      | Advanced \<Rightarrow> (js ''Cron'', if cp_cron p \<noteq> [] then cp_cron p else js ''*/3 * * * *'')
      | Weekdays \<Rightarrow> (js ''Weekdays'', js ''at '' @ cp_time p)
      | EveryWeek \<Rightarrow> (js ''Every Monday'', js ''at '' @ cp_time p)
      | EveryMonth \<Rightarrow> (js ''Monthly'', js ''on the 1st at '' @ cp_time p)
      | EveryDay \<Rightarrow> (js ''Every day'', js ''at '' @ cp_time p))"

definition formatSchedule :: "cron_preset \<Rightarrow> jstring" where
  "formatSchedule p =
     (let (lead, detail) = describeCronPreset p in
      if lead \<noteq> [] \<and> detail \<noteq> [] then lead @ js '' '' @ detail else lead @ detail)"

definition formatCron :: "jstring \<Rightarrow> jstring" where
  "formatCron cron = (if isOneShotRoutineCron cron then js ''One-time'' else formatSchedule (presetFromCron cron))"

subsection \<open>The next run\<close>

datatype cron_error = NotForOneShot | NotFiveFields | BadCron | NoFutureRun

type_synonym croner = "jstring \<Rightarrow> jstring \<Rightarrow> (int \<Rightarrow> int option) option"

definition validTimezoneOrUtc :: "(jstring \<Rightarrow> bool) \<Rightarrow> jstring \<Rightarrow> jstring" where
  "validTimezoneOrUtc valid_tz timezone = (if valid_tz timezone then timezone else js ''UTC'')"

definition nextCronDate ::
  "croner \<Rightarrow> (jstring \<Rightarrow> bool) \<Rightarrow> jstring \<Rightarrow> int \<Rightarrow> jstring \<Rightarrow> cron_error + int" where
  "nextCronDate croner valid_tz cron from timezone =
     (if isOneShotRoutineCron cron then Inl NotForOneShot
      else if length (split_ws (trim cron)) \<noteq> 5 then Inl NotFiveFields
      else case croner cron (validTimezoneOrUtc valid_tz timezone) of
             None \<Rightarrow> Inl BadCron
           | Some schedule \<Rightarrow> (case schedule from of None \<Rightarrow> Inl NoFutureRun | Some t \<Rightarrow> Inr t))"

definition resolveRoutineNextRunAt ::
  "croner \<Rightarrow> (jstring \<Rightarrow> bool) \<Rightarrow> jstring \<Rightarrow> int \<Rightarrow> jstring \<Rightarrow> int option \<Rightarrow> cron_error + int option" where
  "resolveRoutineNextRunAt croner valid_tz cron from timezone existing =
     (if isOneShotRoutineCron cron then Inr existing
      else case nextCronDate croner valid_tz cron from timezone of Inl e \<Rightarrow> Inl e | Inr t \<Rightarrow> Inr (Some t))"

definition earlier :: "int option \<Rightarrow> int \<Rightarrow> int option" where
  "earlier earliest next_run =
     (case earliest of None \<Rightarrow> Some next_run | Some e \<Rightarrow> if next_run < e then Some next_run else earliest)"

fun next_across ::
  "croner \<Rightarrow> (jstring \<Rightarrow> bool) \<Rightarrow> int option \<Rightarrow> jstring list \<Rightarrow> int \<Rightarrow> jstring \<Rightarrow> int option" where
  "next_across croner valid_tz earliest [] from timezone = earliest"
| "next_across croner valid_tz earliest (cron # crons) from timezone =
     (if isOneShotRoutineCron cron then next_across croner valid_tz earliest crons from timezone
      else case nextCronDate croner valid_tz cron from timezone of
             Inl _ \<Rightarrow> next_across croner valid_tz earliest crons from timezone
           | Inr t \<Rightarrow> next_across croner valid_tz (earlier earliest t) crons from timezone)"

definition nextCronDateAcross ::
  "croner \<Rightarrow> (jstring \<Rightarrow> bool) \<Rightarrow> jstring list \<Rightarrow> int \<Rightarrow> jstring \<Rightarrow> int option" where
  "nextCronDateAcross croner valid_tz crons from timezone = next_across croner valid_tz None crons from timezone"

fun next_strict ::
  "croner \<Rightarrow> (jstring \<Rightarrow> bool) \<Rightarrow> int option \<Rightarrow> jstring list \<Rightarrow> int \<Rightarrow> jstring \<Rightarrow> cron_error + int option" where
  "next_strict croner valid_tz earliest [] from timezone = Inr earliest"
| "next_strict croner valid_tz earliest (cron # crons) from timezone =
     (if isOneShotRoutineCron cron then next_strict croner valid_tz earliest crons from timezone
      else case nextCronDate croner valid_tz cron from timezone of
             Inl e \<Rightarrow> Inl e
           | Inr t \<Rightarrow> next_strict croner valid_tz (earlier earliest t) crons from timezone)"

definition nextCronDateAcrossStrict ::
  "croner \<Rightarrow> (jstring \<Rightarrow> bool) \<Rightarrow> jstring list \<Rightarrow> int \<Rightarrow> jstring \<Rightarrow> cron_error + int option" where
  "nextCronDateAcrossStrict croner valid_tz crons from timezone = next_strict croner valid_tz None crons from timezone"

subsection \<open>Editing a schedule keeps it\<close>

text \<open>The editor hands a preset back with all its fields.\<close>

definition preset_input :: "cron_preset \<Rightarrow> cron_preset_input" where
  "preset_input p = \<lparr>ci_freq = cp_freq p, ci_n = Some (int (cp_n p)), ci_unit = Some (cp_unit p),
     ci_time = Some (cp_time p), ci_cron = Some (cp_cron p)\<rparr>"

text \<open>A field of a cron expression: no white space in it, and its numbers without leading zeros.\<close>

definition clean_field :: "jstring \<Rightarrow> bool" where
  "clean_field f \<longleftrightarrow> f \<noteq> [] \<and> list_all (\<lambda>c. \<not> is_ws c) f"

definition canonical_field :: "nat \<Rightarrow> jstring \<Rightarrow> bool" where
  "canonical_field lim f \<longleftrightarrow> clean_field f \<and>
     (all_digits f \<longrightarrow> digits_value f < lim \<and> f = dec (digits_value f)) \<and>
     (stepValue f \<noteq> None \<longrightarrow> f = js ''*/'' @ dec (the (stepValue f)))"

definition five_fields :: "jstring \<Rightarrow> jstring \<Rightarrow> jstring \<Rightarrow> jstring \<Rightarrow> jstring \<Rightarrow> jstring" where
  "five_fields m h d mo w = m @ js '' '' @ h @ js '' '' @ d @ js '' '' @ mo @ js '' '' @ w"

lemma js_space: "js '' '' = [32]" and js_colon: "js '':'' = [58]"
  by (simp_all add: js_def)

lemma ws_space [simp]: "is_ws 32"
  by (simp add: is_ws_def)

lemma split_ws_field: "clean_field f \<Longrightarrow> split_ws f = [f]"
proof (induction f)
  case (Cons c f)
  then show ?case by (cases "f = []") (simp_all add: clean_field_def)
qed (simp add: clean_field_def)

lemma split_ws_append:
  assumes "list_all (\<lambda>c. \<not> is_ws c) f" and "s \<noteq> []" and "\<not> is_ws (hd s)"
  shows "split_ws (f @ 32 # s) = f # split_ws s"
proof -
  from assms(2,3) have "dropWhile is_ws s = s" by (cases s) auto
  with assms(1) show ?thesis by (induction f) simp_all
qed

lemma clean_hd: "clean_field f \<Longrightarrow> f \<noteq> [] \<and> \<not> is_ws (hd f) \<and> list_all (\<lambda>c. \<not> is_ws c) f"
  by (cases f) (simp_all add: clean_field_def)

lemma split_ws_five:
  assumes "clean_field m" "clean_field h" "clean_field d" "clean_field mo" "clean_field w"
  shows "split_ws (five_fields m h d mo w) = [m, h, d, mo, w]"
  unfolding five_fields_def js_space append.simps
  using assms [THEN clean_hd] by (simp add: split_ws_append hd_append split_ws_field [OF assms(5)])

lemma trim_five:
  assumes "clean_field m" "clean_field w"
  shows "trim (five_fields m h d mo w) = five_fields m h d mo w"
  using assms by (intro trim_idem_if) (auto simp: five_fields_def clean_field_def list_all_iff hd_append)

lemma contains_sub_set: "contains_sub sub s \<Longrightarrow> set sub \<subseteq> set s"
  by (auto simp: contains_sub_iff)

lemma ascii_lower_digit: "is_digit c \<Longrightarrow> ascii_lower_char c = c"
  by (auto simp: ascii_lower_char_def is_digit_def word_le_nat_alt)

lemma lower_digits: "list_all is_digit s \<Longrightarrow> ascii_lower s = s"
  by (induction s) (simp_all add: ascii_lower_def ascii_lower_digit)

lemma ascii_lower_append: "ascii_lower (s @ t) = ascii_lower s @ ascii_lower t"
  by (simp add: ascii_lower_def)

lemma digits_not_letter: "list_all is_digit s \<Longrightarrow> 97 \<notin> set s \<and> 112 \<notin> set s \<and> 58 \<notin> set s"
  by (auto simp: list_all_iff is_digit_def word_le_nat_alt)

lemma parse_format_clock:
  assumes "hour < 24" "minute < 60"
  shows "parseClock js_number (formatClock hour minute) = Some (int hour, int minute)"
proof -
  let ?h12 = "if hour mod 12 = 0 then 12 else hour mod 12"
  let ?period = "if hour \<ge> 12 then js ''PM'' else js ''AM''"
  let ?time = "formatClock hour minute"
  have time: "?time = dec ?h12 @ 58 # (pad2 minute @ 32 # ?period)"
    by (simp add: formatClock_def js_colon js_space Let_def)
  have dd: "list_all is_digit (dec ?h12)" by (rule dec_digits)
  have pp: "list_all is_digit (pad2 minute)" using all_digits_pad2 [of minute] by (simp add: all_digits_def)
  have colon: "58 \<notin> set (pad2 minute @ 32 # ?period)"
    using digits_not_letter [OF pp] by (auto simp: js_def)
  have parts: "split_on 58 ?time = [dec ?h12, pad2 minute @ 32 # ?period]"
    unfolding time using digits_not_letter [OF dd] colon by (simp add: split_on_append split_on_plain)
  have lower: "ascii_lower ?time = dec ?h12 @ 58 # (pad2 minute @ 32 # (if hour \<ge> 12 then js ''pm'' else js ''am''))"
  proof -
    have "ascii_lower ?time = ascii_lower (dec ?h12) @ ascii_lower [58] @ ascii_lower (pad2 minute) @ ascii_lower [32] @
        ascii_lower ?period"
      unfolding time by (simp flip: ascii_lower_append)
    moreover have "ascii_lower [58] = [58]" "ascii_lower [32] = [32]"
      "ascii_lower ?period = (if hour \<ge> 12 then js ''pm'' else js ''am'')"
      by (simp_all add: ascii_lower_def ascii_lower_char_def js_def word_le_nat_alt)
    ultimately show ?thesis by (simp add: lower_digits [OF dd] lower_digits [OF pp])
  qed
  have pm: "contains_sub (js ''pm'') (ascii_lower ?time) \<longleftrightarrow> hour \<ge> 12"
  proof
    assume "contains_sub (js ''pm'') (ascii_lower ?time)"
    from contains_sub_set [OF this] have "112 \<in> set (ascii_lower ?time)" by (simp add: js_def)
    with digits_not_letter [OF dd] digits_not_letter [OF pp] show "hour \<ge> 12"
      unfolding lower by (auto simp: js_def split: if_splits)
  next
    assume "hour \<ge> 12"
    then have "ascii_lower ?time = (dec ?h12 @ 58 # pad2 minute @ [32]) @ js ''pm'' @ []" unfolding lower by simp
    then show "contains_sub (js ''pm'') (ascii_lower ?time)" unfolding contains_sub_iff by blast
  qed
  have am: "contains_sub (js ''am'') (ascii_lower ?time) \<longleftrightarrow> hour < 12"
  proof
    assume "contains_sub (js ''am'') (ascii_lower ?time)"
    from contains_sub_set [OF this] have "97 \<in> set (ascii_lower ?time)" by (simp add: js_def)
    with digits_not_letter [OF dd] digits_not_letter [OF pp] show "hour < 12"
      unfolding lower by (auto simp: js_def split: if_splits)
  next
    assume "hour < 12"
    then have "ascii_lower ?time = (dec ?h12 @ 58 # pad2 minute @ [32]) @ js ''am'' @ []" unfolding lower by simp
    then show "contains_sub (js ''am'') (ascii_lower ?time)" unfolding contains_sub_iff by blast
  qed
  have two: "take 2 (pad2 minute @ 32 # ?period) = pad2 minute" using length_pad2 [of minute] assms(2) by simp
  have hour: "hour \<ge> 12 \<Longrightarrow> hour mod 12 = hour - 12" "hour < 12 \<Longrightarrow> hour mod 12 = hour"
    using assms(1) by (simp_all add: mod_if)
  show ?thesis
    unfolding parseClock_def parts Let_def pm am using two hour assms(1) by auto
qed

lemma saved_if:
  "(b \<Longrightarrow> cronFromPreset num (preset_input x) = c) \<Longrightarrow> (\<not> b \<Longrightarrow> cronFromPreset num (preset_input y) = c) \<Longrightarrow>
   cronFromPreset num (preset_input (if b then x else y)) = c"
  by simp

text \<open>What saving an interval and a clock preset writes.\<close>

lemma save_interval:
  "0 < n \<Longrightarrow> cronFromPreset js_number (preset_input (interval_preset n u)) = Some
     (case u of Minutes \<Rightarrow> js ''*/'' @ dec n @ js '' * * * *'' | Hours \<Rightarrow> js ''0 */'' @ dec n @ js '' * * *''
      | Days \<Rightarrow> js ''0 0 */'' @ dec n @ js '' * *'')"
  by (cases u) (simp_all add: cronFromPreset_def preset_input_def interval_preset_def Let_def)

lemma save_clock:
  "parseClock js_number t = Some (int hour, int minute) \<Longrightarrow> f \<in> {Weekdays, EveryWeek, EveryMonth, EveryDay} \<Longrightarrow>
   cronFromPreset js_number (preset_input (defaultCronPreset\<lparr>cp_freq := f, cp_time := t\<rparr>)) = Some
     (dec minute @ js '' '' @ dec hour @
       (if f = Weekdays then js '' * * 1-5'' else if f = EveryWeek then js '' * * 1''
        else if f = EveryMonth then js '' 1 * *'' else js '' * * *''))"
  by (auto simp: cronFromPreset_def preset_input_def Let_def)

text \<open>
  Opening a schedule in the editor and saving it unchanged keeps it: for every five-field
  expression whose numbers are in range and written without leading zeros, whatever frequency
  the editor recognizes in it, the preset renders to the same expression.
\<close>

theorem preset_round_trip:
  assumes "canonical_field 60 m" "canonical_field 24 h" "canonical_field 32 d" "clean_field mo" "clean_field w"
  shows "cronFromPreset js_number (preset_input (presetFromCron (five_fields m h d mo w))) =
         Some (five_fields m h d mo w)"
proof -
  let ?c = "five_fields m h d mo w"
  have clean: "clean_field m" "clean_field h" "clean_field d" using assms(1-3) by (simp_all add: canonical_field_def)
  have parts: "split_ws ?c = [m, h, d, mo, w]" by (intro split_ws_five clean assms)
  have trim: "trim ?c = ?c" by (rule trim_five [OF clean(1) assms(5)])
  have "split_ws ONCE_ROUTINE_CRON = [ONCE_ROUTINE_CRON]"
    by (rule split_ws_field) (simp add: clean_field_def ONCE_ROUTINE_CRON_def js_def is_ws_def)
  with parts have notonce: "?c \<noteq> ONCE_ROUTINE_CRON" by auto
  have pre: "presetFromCron ?c = preset_of_fields ?c m h d mo w"
    using notonce by (simp add: presetFromCron_def trim parts isOneShotRoutineCron_def Let_def)
  have ne: "?c \<noteq> []" using clean by (simp add: five_fields_def clean_field_def)
  have adv: "cronFromPreset js_number (preset_input (advanced_preset ?c)) = Some ?c"
    using notonce ne by (simp add: cronFromPreset_def preset_input_def advanced_preset_def trim
        isOneShotRoutineCron_def Let_def)
  have step: "f = js ''*/'' @ dec (the (stepValue f)) \<and> 0 < the (stepValue f)" if "stepValue f \<noteq> None" "canonical_field k f" for f k
    using that by (auto simp: canonical_field_def stepValue_def split: if_splits)
  have clock: "parseClock js_number (formatClock (digits_value h) (digits_value m)) =
      Some (int (digits_value h), int (digits_value m)) \<and> m = dec (digits_value m) \<and> h = dec (digits_value h)"
    if "all_digits m" "all_digits h"
    using that assms(1,2) parse_format_clock by (simp add: canonical_field_def)
  show ?thesis
    unfolding pre preset_of_fields_def Let_def
    apply (intro saved_if)
    subgoal by (rule adv)
    subgoal by (simp add: cronFromPreset_def preset_input_def five_fields_def defaultCronPreset_def js_def)
    subgoal using step [of m 60] assms(1) by (simp add: save_interval five_fields_def) (simp add: js_def)
    subgoal using step [of h 24] assms(2) by (simp add: save_interval five_fields_def) (simp add: js_def)
    subgoal using step [of d 32] assms(3) by (simp add: save_interval five_fields_def) (simp add: js_def)
    subgoal by (rule adv)
    subgoal using clock by (simp add: save_clock five_fields_def) (simp add: js_def)
    subgoal using clock by (simp add: save_clock five_fields_def) (simp add: js_def)
    subgoal using clock by (simp add: save_clock five_fields_def) (simp add: js_def)
    subgoal using clock by (simp add: save_clock five_fields_def) (simp add: js_def)
    subgoal by (rule adv)
    done
qed

lemma digits_no_step: "all_digits f \<Longrightarrow> stepValue f = None"
  by (cases f) (auto simp: all_digits_def stepValue_def js_def is_digit_def word_le_nat_alt)

lemma preset_round_trip_witness:
  "cronFromPreset js_number (preset_input (presetFromCron (js ''5 17 * * 1-5''))) = Some (js ''5 17 * * 1-5'')"
proof -
  have five: "five_fields (dec 5) (dec 17) (js ''*'') (js ''*'') (js ''1-5'') = js ''5 17 * * 1-5''"
    by (simp add: five_fields_def dec_below_10 dec_below_100 digit_def js_def)
  have num: "canonical_field k (dec n)" if "n < k" for n k
    using that dec_not_ws [of _ n] by (auto simp: canonical_field_def clean_field_def list_all_iff digits_no_step)
  have star: "canonical_field 32 (js ''*'')"
    by (simp add: canonical_field_def clean_field_def all_digits_def stepValue_def is_digit_def js_def is_ws_def)
  have "cronFromPreset js_number (preset_input (presetFromCron
      (five_fields (dec 5) (dec 17) (js ''*'') (js ''*'') (js ''1-5'')))) =
    Some (five_fields (dec 5) (dec 17) (js ''*'') (js ''*'') (js ''1-5''))"
    by (rule preset_round_trip) (simp_all add: num star, simp_all add: clean_field_def js_def is_ws_def)
  then show ?thesis by (simp only: five)
qed

subsection \<open>The earliest of several schedules\<close>

definition valid_runs ::
  "croner \<Rightarrow> (jstring \<Rightarrow> bool) \<Rightarrow> jstring list \<Rightarrow> int \<Rightarrow> jstring \<Rightarrow> int list" where
  "valid_runs croner valid_tz crons from timezone =
     concat (map (\<lambda>c. case nextCronDate croner valid_tz c from timezone of Inl _ \<Rightarrow> [] | Inr t \<Rightarrow> [t]) crons)"

lemma valid_runs_simps [simp]:
  "valid_runs croner valid_tz [] from timezone = []"
  "valid_runs croner valid_tz (c # crons) from timezone =
     (case nextCronDate croner valid_tz c from timezone of
        Inl _ \<Rightarrow> valid_runs croner valid_tz crons from timezone
      | Inr t \<Rightarrow> t # valid_runs croner valid_tz crons from timezone)"
  by (simp_all add: valid_runs_def split: sum.split)

lemma one_shot_no_run: "isOneShotRoutineCron c \<Longrightarrow> nextCronDate croner valid_tz c from timezone = Inl NotForOneShot"
  by (simp add: nextCronDate_def)

lemma next_across_fold:
  "next_across croner valid_tz e crons from timezone = fold (\<lambda>t e. earlier e t) (valid_runs croner valid_tz crons from timezone) e"
  by (induction crons arbitrary: e) (auto simp: one_shot_no_run split: sum.split)

lemma earlier_None: "earlier None t = Some t"
  by (simp add: earlier_def)

lemma fold_earlier:
  "fold (\<lambda>t e. earlier e t) ts (Some e) = Some (Min (insert e (set ts)))"
proof (induction ts arbitrary: e)
  case (Cons t ts)
  have "earlier (Some e) t = Some (min e t)" by (simp add: earlier_def min_def)
  moreover have "Min (insert (min e t) (set ts)) = Min (insert e (insert t (set ts)))"
    by (cases "ts = []") (simp_all add: min.assoc)
  ultimately show ?case using Cons by simp
qed simp

lemma strict_across:
  "case next_strict croner valid_tz e crons from timezone of
     Inl err \<Rightarrow> \<exists>c \<in> set crons. \<not> isOneShotRoutineCron c \<and> nextCronDate croner valid_tz c from timezone = Inl err
   | Inr r \<Rightarrow> r = next_across croner valid_tz e crons from timezone"
proof (induction crons arbitrary: e)
  case (Cons c crons)
  show ?case
  proof (cases "isOneShotRoutineCron c")
    case True
    with Cons [of e] show ?thesis by (auto split: sum.splits)
  next
    case False
    show ?thesis
    proof (cases "nextCronDate croner valid_tz c from timezone")
      case (Inr t)
      with False Cons [of "earlier e t"] show ?thesis by (auto split: sum.splits)
    qed (use False in auto)
  qed
qed simp

lemma across_min:
  "nextCronDateAcross croner valid_tz crons from timezone =
     (if valid_runs croner valid_tz crons from timezone = [] then None
      else Some (Min (set (valid_runs croner valid_tz crons from timezone))))"
proof -
  have "fold (\<lambda>t e. earlier e t) ts None = (if ts = [] then None else Some (Min (set ts)))" for ts
    by (cases ts) (simp_all add: earlier_None fold_earlier)
  then show ?thesis by (simp add: nextCronDateAcross_def next_across_fold)
qed

text \<open>
  What the cron library promises: the next run lies after the given time. Then so does the
  next run of a routine.
\<close>

definition runs_later :: "croner \<Rightarrow> bool" where
  "runs_later croner \<longleftrightarrow> (\<forall>c z sch f t. croner c z = Some sch \<longrightarrow> sch f = Some t \<longrightarrow> f < t)"

lemma across_later:
  assumes "nextCronDateAcross croner valid_tz crons from timezone = Some t"
    and "runs_later croner"
  shows "from < t"
proof -
  from assms(1) have "valid_runs croner valid_tz crons from timezone \<noteq> []"
    and "t = Min (set (valid_runs croner valid_tz crons from timezone))"
    by (simp_all add: across_min split: if_splits)
  then have "t \<in> set (valid_runs croner valid_tz crons from timezone)" by (simp add: Min_in)
  then obtain c where "nextCronDate croner valid_tz c from timezone = Inr t"
    by (auto simp: valid_runs_def split: sum.split_asm)
  then obtain sch where "croner c (validTimezoneOrUtc valid_tz timezone) = Some sch" "sch from = Some t"
    by (auto simp: nextCronDate_def split: if_split_asm option.split_asm)
  with assms(2) show ?thesis unfolding runs_later_def by blast
qed

text \<open>
  The next run of a routine is the earliest next run of its recurring schedules that are
  valid, none when there is none: one-shot slots and broken schedules are passed over. The
  strict variant answers the same or the error of one of the schedules.
\<close>

theorem next_run_is_the_earliest:
  "nextCronDateAcross croner valid_tz crons from timezone =
     (if valid_runs croner valid_tz crons from timezone = [] then None
      else Some (Min (set (valid_runs croner valid_tz crons from timezone)))) \<and>
   (case nextCronDateAcrossStrict croner valid_tz crons from timezone of
      Inl err \<Rightarrow> \<exists>c \<in> set crons. \<not> isOneShotRoutineCron c \<and> nextCronDate croner valid_tz c from timezone = Inl err
    | Inr r \<Rightarrow> r = nextCronDateAcross croner valid_tz crons from timezone)"
  using across_min strict_across
  unfolding nextCronDateAcrossStrict_def nextCronDateAcross_def by (intro conjI)

end
