(* ===== verification/RunWorker.thy ===== *)
theory RunWorker
  imports ThreadClaims Cron
begin

text \<open>
  The run worker of \<open>packages/adapters/src/executor.ts\<close>: how a job claims a run, starts it,
  renews its lease and gives it back when its computer is busy or its setup fails; the wake of
  a scheduled routine; and the message a finished run leaves. The statements of several jobs
  interleave in a step relation.
\<close>

definition RUN_LEASE_MS :: int where
  "RUN_LEASE_MS = 5 * 60000"

subsection \<open>Claiming, starting, renewing, giving back\<close>

definition resume_checkpoint :: "run_row \<Rightarrow> checkpoint option" where
  "resume_checkpoint run =
     (case r_checkpoint run of
        Some CkTakeover \<Rightarrow> Some CkTakeover
      | Some CkTakeoverSkipped \<Rightarrow> Some CkTakeoverSkipped
      | _ \<Rightarrow> None)"

definition resume_from_takeover :: "run_row \<Rightarrow> bool" where
  "resume_from_takeover run \<longleftrightarrow> r_status run = WaitingTakeover \<or> resume_checkpoint run \<noteq> None"

definition takeoverResumeFromRelease :: "release_reason \<Rightarrow> checkpoint \<times> jstring" where
  "takeoverResumeFromRelease reason =
     (if reason = ReasonSkipped \<or> reason = ReasonExpired
      then (CkTakeoverSkipped, js ''The user skipped the login. Continue without treating the login as complete. Do not request takeover again unless you still cannot proceed.'')
      else (CkTakeover, js ''The user finished the login. Continue from where you left off. Do not request takeover again.''))"

text \<open>The condition and the data of the claim; \<open>fence\<close> is computed from the run read before it.\<close>

definition claimable_run :: "time \<Rightarrow> id \<Rightarrow> run_row \<Rightarrow> bool" where
  "claimable_run now runId r \<longleftrightarrow> r_id r = runId \<and>
     (r_status r \<in> set [Queued, WaitingInput, WaitingTakeover] \<or>
      (r_status r \<in> set [Leased, Running] \<and>
       (case r_leaseExpiresAt r of None \<Rightarrow> False | Some t \<Rightarrow> t \<le> now)))"

definition lease_run :: "time \<Rightarrow> id \<Rightarrow> int \<Rightarrow> run_row \<Rightarrow> run_row" where
  "lease_run now workerId fence r = r\<lparr>r_status := Leased, r_leaseOwner := Some workerId, r_leaseFence := fence,
     r_leaseExpiresAt := Some (now + RUN_LEASE_MS), r_error := None, r_checkpoint := None\<rparr>"

definition continue_claim :: "time \<Rightarrow> id \<Rightarrow> id \<Rightarrow> run_row \<Rightarrow> nat dbtx" where
  "continue_claim now runId workerId run =
     update_runs (claimable_run now runId) (lease_run now workerId (nextFence (r_leaseFence run)))"

definition leased_to :: "id \<Rightarrow> id \<Rightarrow> int \<Rightarrow> run_status \<Rightarrow> run_row \<Rightarrow> bool" where
  "leased_to runId workerId fence st r \<longleftrightarrow> r_id r = runId \<and> r_status r = st \<and>
     r_leaseOwner r = Some workerId \<and> r_leaseFence r = fence"

text \<open>
  The start of a claimed run: the row is read again, its status is checked against the table
  (a status that is neither queued, leased nor waiting is not), and the start keeps the first
  start time.
\<close>

definition start_check :: "run_row \<Rightarrow> db_error + unit" where
  "start_check current =
     (if r_status current \<in> set [Queued, Leased, WaitingInput, WaitingTakeover]
      then (case assertTransition (r_status current) Running of
              Inl _ \<Rightarrow> Inl (IllegalRunTransition (r_status current) Running) | Inr u \<Rightarrow> Inr u)
      else Inr ())"

definition start_run :: "time \<Rightarrow> run_row \<Rightarrow> run_row \<Rightarrow> run_row" where
  "start_run now current r = r\<lparr>r_status := Running,
     r_startedAt := (case r_startedAt current of None \<Rightarrow> Some now | Some t \<Rightarrow> Some t)\<rparr>"

definition continue_start :: "time \<Rightarrow> id \<Rightarrow> id \<Rightarrow> int \<Rightarrow> run_row \<Rightarrow> nat dbtx" where
  "continue_start now runId workerId fence current =
     (case start_check current of
        Inl e \<Rightarrow> tx_throw e
      | Inr _ \<Rightarrow> update_runs (leased_to runId workerId fence Leased) (start_run now current))"

definition renewRunLease :: "time \<Rightarrow> id \<Rightarrow> id \<Rightarrow> int \<Rightarrow> bool dbtx" where
  "renewRunLease now runId workerId fence =
     tx_bind (update_runs (leased_to runId workerId fence Running)
                (\<lambda>r. r\<lparr>r_leaseExpiresAt := Some (now + RUN_LEASE_MS)\<rparr>)) (\<lambda>renewed.
     tx_return (renewed = 1))"

definition computerRetryDelay :: "int \<Rightarrow> int" where
  "computerRetryDelay fence = min 10000 (250 * 2 ^ nat (min (max (fence - 1) 0) 5))"

definition computerRunRequeueData :: "checkpoint option \<Rightarrow> jstring option \<Rightarrow> run_row \<Rightarrow> run_row" where
  "computerRunRequeueData resume err r = r\<lparr>r_status := Queued, r_error := err, r_leaseOwner := None,
     r_leaseExpiresAt := None, r_checkpoint := resume\<rparr>"

text \<open>The result of a requeue is the delay of the continuation it enqueues.\<close>

definition requeueComputerRun :: "id \<Rightarrow> id \<Rightarrow> int \<Rightarrow> checkpoint option \<Rightarrow> int option dbtx" where
  "requeueComputerRun runId workerId fence resume =
     tx_bind (update_runs (leased_to runId workerId fence Running) (computerRunRequeueData resume None)) (\<lambda>released.
     tx_return (if released \<noteq> 1 then None else Some (computerRetryDelay fence)))"

text \<open>
  The failure of a setup, in its two statements: the run is given back, and the attempt is
  closed. \<open>busy\<close> is a computer that another run holds.
\<close>

definition setup_release :: "id \<Rightarrow> id \<Rightarrow> int \<Rightarrow> checkpoint option \<Rightarrow> bool \<Rightarrow> nat dbtx" where
  "setup_release runId workerId fence resume busy =
     update_runs (leased_to runId workerId fence Running)
       (computerRunRequeueData resume (if busy then None else Some (js ''Run setup failed; retrying'')))"

definition setup_attempt :: "time \<Rightarrow> id \<Rightarrow> unit dbtx" where
  "setup_attempt now attemptId = (\<lambda>d.
     if count_where (\<lambda>a. a_id a = attemptId) (db_attempts d) = 0 then Inl RecordNotFound
     else Inr ((), d\<lparr>db_attempts := update_where (\<lambda>a. a_id a = attemptId)
        (\<lambda>a. a\<lparr>a_status := ASetupFailed, a_error := Some (js ''Run setup failed; retrying''), a_finishedAt := Some now\<rparr>)
        (db_attempts d)\<rparr>))"

definition setup_interrupt :: "time \<Rightarrow> id \<Rightarrow> nat dbtx" where
  "setup_interrupt now attemptId =
     update_attempts (\<lambda>a. a_id a = attemptId \<and> a_status a = ARunning)
       (\<lambda>a. a\<lparr>a_status := AInterrupted, a_finishedAt := Some now\<rparr>)"

subsection \<open>What a finished run leaves\<close>

definition completionMessageSegments :: "message_block list \<Rightarrow> bool \<Rightarrow> message_block list" where
  "completionMessageSegments segs allowSilentEmpty =
     (if segs \<noteq> [] then segs else if allowSilentEmpty then [] else [BText (js ''done.'')])"

definition completionNotificationBody :: "jstring \<Rightarrow> message_block list \<Rightarrow> jstring" where
  "completionNotificationBody assembled blocks =
     (if assembled \<noteq> [] then assembled
      else concat (map (\<lambda>b. case b of BText t \<Rightarrow> t | _ \<Rightarrow> []) blocks))"

definition persistMessageInTransaction ::
  "id \<Rightarrow> id \<Rightarrow> time \<Rightarrow> id \<Rightarrow> id \<Rightarrow> id \<Rightarrow> id \<Rightarrow> role \<Rightarrow> message_block list \<Rightarrow> (message_row \<times> int) dbtx" where
  "persistMessageInTransaction mid eid now runId workspaceId threadId botId r blocks =
     tx_bind (createThreadMessageInTransaction mid now
        \<lparr>cm_threadId = threadId, cm_role = r, cm_blocks = blocks, cm_botId = Some botId,
         cm_replyToMessageId = None, cm_runId = Some runId, cm_clientNonce = None\<rparr>) (\<lambda>message.
     tx_bind (appendEventInTransaction eid now
        \<lparr>ae_workspaceId = workspaceId, ae_threadId = threadId, ae_botId = botId, ae_type = ThreadMessageCreated,
         ae_payload = message_payload (m_id message) r blocks, ae_runId = Some runId\<rparr>) (\<lambda>event.
     tx_return (message, e_seq event)))"

subsection \<open>Waking a routine\<close>

definition deferFutureRoutine :: "time \<Rightarrow> time \<Rightarrow> bool" where
  "deferFutureRoutine now scheduledAt \<longleftrightarrow> \<not> scheduledAt \<le> now + 1000"

definition find_routine :: "id \<Rightarrow> db \<Rightarrow> routine_row option" where
  "find_routine i d = List.find (\<lambda>o'. o_id o' = i) (db_routines d)"

text \<open>
  What the wake reads: the due routine with its bot and thread (\<open>WakeDue\<close>), or a reason to
  stop, the deferral of a wake that comes too early included.
\<close>

datatype wake_start = WakeNothing | WakeDeferred time | WakeDue routine_row bot_row thread_row

definition wake_check :: "id \<Rightarrow> time \<Rightarrow> time \<Rightarrow> db \<Rightarrow> wake_start" where
  "wake_check routineId scheduledAt now d =
     (case find_routine routineId d of
        None \<Rightarrow> WakeNothing
      | Some routine \<Rightarrow>
          if \<not> o_active routine \<or> o_nextRunAt routine \<noteq> Some scheduledAt then WakeNothing
          else if deferFutureRoutine now scheduledAt then WakeDeferred scheduledAt
          else case find_bot (o_botId routine) d of
                 None \<Rightarrow> WakeNothing
               | Some b \<Rightarrow> (case bot_thread (b_id b) d of None \<Rightarrow> WakeNothing | Some t \<Rightarrow> WakeDue routine b t))"

text \<open>The next run of a routine that is due: \<open>next_across\<close> after the later of now and the due time.\<close>

definition wake_next :: "croner \<Rightarrow> (jstring \<Rightarrow> bool) \<Rightarrow> routine_row \<Rightarrow> time \<Rightarrow> time \<Rightarrow> time option" where
  "wake_next croner valid_tz routine now scheduledAt =
     (if isOneShotRoutineCrons (o_crons routine) then None
      else nextCronDateAcross croner valid_tz (o_crons routine) (max now scheduledAt) (o_timezone routine))"

definition claim_routine :: "time \<Rightarrow> time option \<Rightarrow> routine_row \<Rightarrow> routine_row" where
  "claim_routine now nextRunAt r =
     (if nextRunAt \<noteq> None then r\<lparr>o_lastRunAt := Some now, o_nextRunAt := nextRunAt\<rparr>
      else r\<lparr>o_lastRunAt := Some now, o_nextRunAt := nextRunAt, o_active := False\<rparr>)"

text \<open>The transaction that claims the due time and creates the task and the run.\<close>

definition wake_claim ::
  "id \<Rightarrow> id \<Rightarrow> time \<Rightarrow> jstring \<Rightarrow> routine_row \<Rightarrow> bot_row \<Rightarrow> thread_row \<Rightarrow> time \<Rightarrow> time option \<Rightarrow> run_row option dbtx" where
  "wake_claim taskId runId now prompt routine b t scheduledAt nextRunAt =
     tx_bind (update_routines (\<lambda>r. o_id r = o_id routine \<and> o_active r \<and> o_nextRunAt r = Some scheduledAt)
                (claim_routine now nextRunAt)) (\<lambda>updated.
     if updated \<noteq> 1 then tx_return None
     else
       tx_then (create_task (new_task taskId (o_workspaceId routine) (b_id b) (t_id t) (o_userId routine) prompt))
      (tx_bind (create_run ((new_run runId now (o_workspaceId routine) (b_id b) (t_id t) taskId (o_userId routine)
                  TrigRoutine)\<lparr>r_routineId := Some (o_id routine)\<rparr>)) (\<lambda>run.
       tx_return (Some run))))"

text \<open>
  The restore when the continuation could not be enqueued: the run and the task are deleted
  while they are queued, and the claim of the routine is undone. Deleting a run cascades to its
  attempts and effects.
\<close>

definition restore_routine :: "time \<Rightarrow> time option \<Rightarrow> routine_row \<Rightarrow> routine_row" where
  "restore_routine scheduledAt previousLastRunAt r =
     r\<lparr>o_nextRunAt := Some scheduledAt, o_active := True, o_lastRunAt := previousLastRunAt\<rparr>"

definition delete_queued_run :: "id \<Rightarrow> db \<Rightarrow> db" where
  "delete_queued_run runId d =
     (let gone = (\<lambda>i. \<exists>r \<in> set (db_runs d). r_id r = runId \<and> r_status r = Queued \<and> i = r_id r) in
      d\<lparr>db_runs := delete_where (\<lambda>r. r_id r = runId \<and> r_status r = Queued) (db_runs d),
        db_attempts := delete_where (\<lambda>a. gone (a_runId a)) (db_attempts d),
        db_effects := delete_where (\<lambda>x. gone (x_runId x)) (db_effects d)\<rparr>)"

definition wake_restore :: "id \<Rightarrow> id \<Rightarrow> routine_row \<Rightarrow> time \<Rightarrow> time option \<Rightarrow> nat dbtx" where
  "wake_restore taskId runId routine scheduledAt nextRunAt =
     tx_then (tx_modify (delete_queued_run runId))
    (tx_then (tx_modify (\<lambda>d. d\<lparr>db_tasks := delete_where (\<lambda>k. k_id k = taskId \<and> k_status k = Queued) (db_tasks d)\<rparr>))
     (update_routines (\<lambda>r. o_id r = o_id routine \<and> o_nextRunAt r = nextRunAt \<and> (nextRunAt \<noteq> None \<or> \<not> o_active r))
        (restore_routine scheduledAt (o_lastRunAt routine))))"

text \<open>
  From the claim on: \<open>enqueued\<close> says whether the continuation could be enqueued. The routine, bot
  and thread are those the wake read, however old.
\<close>

definition wake_commit ::
  "croner \<Rightarrow> (jstring \<Rightarrow> bool) \<Rightarrow> id \<Rightarrow> id \<Rightarrow> time \<Rightarrow> (routine_row \<Rightarrow> jstring) \<Rightarrow> bool \<Rightarrow> routine_row \<Rightarrow> bot_row \<Rightarrow> thread_row \<Rightarrow>
   time \<Rightarrow> db \<Rightarrow> (db_error + (run_row \<times> time option) option) \<times> db" where
  "wake_commit croner valid_tz taskId runId now prompt enqueued routine b t scheduledAt d =
     (let nextRunAt = wake_next croner valid_tz routine now scheduledAt in
      case run_transaction (wake_claim taskId runId now (prompt routine) routine b t scheduledAt nextRunAt) d of
        (Inl e, d1) \<Rightarrow> (Inl e, d1)
      | (Inr None, d1) \<Rightarrow> (Inr None, d1)
      | (Inr (Some run), d1) \<Rightarrow>
          if \<not> enqueued
          then (Inl (AppError ''enqueue failed''),
                snd (run_transaction (wake_restore taskId runId routine scheduledAt nextRunAt) d1))
          else (Inr (Some (run, nextRunAt)), d1))"

definition fired_event :: "id \<Rightarrow> time \<Rightarrow> routine_row \<Rightarrow> id \<Rightarrow> id \<Rightarrow> id \<Rightarrow> jstring \<Rightarrow> append_event_input" where
  "fired_event eid now routine threadId botId runId scheduledFor =
     \<lparr>ae_workspaceId = o_workspaceId routine, ae_threadId = threadId, ae_botId = botId, ae_type = RoutineFired,
      ae_payload = fields_payload [(js ''routineId'', JStr (o_id routine)), (js ''scheduledFor'', JStr scheduledFor)],
      ae_runId = Some runId\<rparr>"

text \<open>
  The whole wake when nothing interleaves. The event of a fired routine is best effort. A wake
  that fired schedules the next one, except for a one-shot routine.
\<close>

datatype wake_result = WakeSkipped | WakeLater time | WakeFired id "time option"

definition wakeRoutine ::
  "croner \<Rightarrow> (jstring \<Rightarrow> bool) \<Rightarrow> id \<Rightarrow> id \<Rightarrow> id \<Rightarrow> time \<Rightarrow> (routine_row \<Rightarrow> jstring) \<Rightarrow> bool \<Rightarrow> id \<Rightarrow> time \<Rightarrow> jstring \<Rightarrow> db \<Rightarrow>
   (db_error + wake_result) \<times> db" where
  "wakeRoutine croner valid_tz taskId runId eid now prompt enqueued routineId scheduledAt scheduledFor d =
     (case wake_check routineId scheduledAt now d of
        WakeNothing \<Rightarrow> (Inr WakeSkipped, d)
      | WakeDeferred t \<Rightarrow> (Inr (WakeLater t), d)
      | WakeDue routine b t \<Rightarrow>
          (case wake_commit croner valid_tz taskId runId now prompt enqueued routine b t scheduledAt d of
             (Inl e, d1) \<Rightarrow> (Inl e, d1)
           | (Inr None, d1) \<Rightarrow> (Inr WakeSkipped, d1)
           | (Inr (Some (run, nextRunAt)), d1) \<Rightarrow>
               (Inr (WakeFired (r_id run) (if isOneShotRoutineCrons (o_crons routine) then None else nextRunAt)),
                snd (appendEvent eid now (fired_event eid now routine (t_id t) (b_id b) (r_id run) scheduledFor) d1))))"

subsection \<open>A routine fires once for a due time\<close>

text \<open>
  Wakes of any routines, each with whatever rows it read, and any changes to the other tables
  in between.
\<close>

datatype wake_op =
    Wake id id time "routine_row \<Rightarrow> jstring" bool routine_row bot_row thread_row time
  | OtherTables db

fun wake_step :: "croner \<Rightarrow> (jstring \<Rightarrow> bool) \<Rightarrow> wake_op \<Rightarrow> db \<Rightarrow> (id \<times> time) option \<times> db" where
  "wake_step croner valid_tz (Wake taskId runId now prompt enqueued routine b t scheduledAt) d =
     (case wake_commit croner valid_tz taskId runId now prompt enqueued routine b t scheduledAt d of
        (Inr (Some _), d') \<Rightarrow> (Some (o_id routine, scheduledAt), d')
      | (_, d') \<Rightarrow> (None, d'))"
| "wake_step croner valid_tz (OtherTables d') d = (None, d'\<lparr>db_routines := db_routines d\<rparr>)"

text \<open>The due times for which the routine \<open>rid\<close> fired.\<close>

fun fired_times :: "croner \<Rightarrow> (jstring \<Rightarrow> bool) \<Rightarrow> id \<Rightarrow> wake_op list \<Rightarrow> db \<Rightarrow> time list" where
  "fired_times croner valid_tz rid [] d = []"
| "fired_times croner valid_tz rid (op # ops) d =
     (let (fired, d') = wake_step croner valid_tz op d in
      (case fired of None \<Rightarrow> [] | Some (i, t) \<Rightarrow> if i = rid then [t] else []) @ fired_times croner valid_tz rid ops d')"

definition due_after :: "id \<Rightarrow> time \<Rightarrow> db \<Rightarrow> bool" where
  "due_after rid t d \<longleftrightarrow>
     (\<forall>r \<in> set (db_routines d). o_id r = rid \<longrightarrow> o_active r \<longrightarrow> (case o_nextRunAt r of None \<Rightarrow> True | Some n \<Rightarrow> t < n))"

definition routines_unique :: "db \<Rightarrow> bool" where
  "routines_unique d \<longleftrightarrow> distinct (map o_id (db_routines d))"

interpretation claim_keys: keyed_update o_id "claim_routine now nextRunAt" for now nextRunAt
  by unfold_locales (simp add: claim_routine_def)

interpretation restore_keys: keyed_update o_id "restore_routine scheduledAt previous" for scheduledAt previous
  by unfold_locales (simp add: restore_routine_def)

lemma wake_claim_routines:
  assumes "wake_claim taskId runId now prompt routine b t s nextRunAt d = Inr (res, d')"
  shows "(res = None \<and> db_routines d' = update_where (\<lambda>r. o_id r = o_id routine \<and> o_active r \<and> o_nextRunAt r = Some s)
            (claim_routine now nextRunAt) (db_routines d) \<and>
          count_where (\<lambda>r. o_id r = o_id routine \<and> o_active r \<and> o_nextRunAt r = Some s) (db_routines d) \<noteq> 1) \<or>
         (res \<noteq> None \<and> db_routines d' = update_where (\<lambda>r. o_id r = o_id routine \<and> o_active r \<and> o_nextRunAt r = Some s)
            (claim_routine now nextRunAt) (db_routines d) \<and>
          count_where (\<lambda>r. o_id r = o_id routine \<and> o_active r \<and> o_nextRunAt r = Some s) (db_routines d) = 1)"
  using assms unfolding wake_claim_def
  by (auto simp: update_routines_def create_task_def create_run_def split: if_splits)

lemma claim_count_le1:
  "routines_unique d \<Longrightarrow> count_where (\<lambda>r. o_id r = i \<and> o_active r \<and> o_nextRunAt r = Some s) (db_routines d) \<le> 1"
  unfolding routines_unique_def by (rule count_where_key_le1 [of o_id _ _ i]) simp_all

lemma claim_due:
  assumes "due_after rid t d" and "\<And>n. nextRunAt = Some n \<Longrightarrow> s < n"
    and rows: "db_routines d' = update_where (\<lambda>r. o_id r = i \<and> o_active r \<and> o_nextRunAt r = Some s)
      (claim_routine now nextRunAt) (db_routines d)"
  shows "due_after rid t d'"
  unfolding due_after_def
proof (intro ballI impI)
  fix r assume r: "r \<in> set (db_routines d')" "o_id r = rid" "o_active r"
  from r(1) obtain q where q: "q \<in> set (db_routines d)" and
    eq: "r = (if o_id q = i \<and> o_active q \<and> o_nextRunAt q = Some s then claim_routine now nextRunAt q else q)"
    unfolding rows set_update_where by blast
  show "case o_nextRunAt r of None \<Rightarrow> True | Some n \<Rightarrow> t < n"
  proof (cases "o_id q = i \<and> o_active q \<and> o_nextRunAt q = Some s")
    case True
    have rq: "r = claim_routine now nextRunAt q" by (rule trans [OF eq if_P [OF True]])
    with r(2) have "o_id q = rid" by (simp add: claim_routine_def split: if_splits)
    with assms(1) q True have "t < s" by (force simp: due_after_def)
    with assms(2) rq show ?thesis by (cases nextRunAt) (auto simp: claim_routine_def intro: less_trans)
  next
    case False
    have "r = q" by (rule trans [OF eq if_not_P [OF False]])
    with assms(1) q r show ?thesis by (simp add: due_after_def)
  qed
qed

lemma claim_due_self:
  assumes "routines_unique d" and "\<And>n. nextRunAt = Some n \<Longrightarrow> s < n"
    and one: "count_where (\<lambda>r. o_id r = i \<and> o_active r \<and> o_nextRunAt r = Some s) (db_routines d) = 1"
    and rows: "db_routines d' = update_where (\<lambda>r. o_id r = i \<and> o_active r \<and> o_nextRunAt r = Some s)
      (claim_routine now nextRunAt) (db_routines d)"
  shows "due_after i s d'"
  unfolding due_after_def
proof (intro ballI impI)
  let ?p = "\<lambda>r. o_id r = i \<and> o_active r \<and> o_nextRunAt r = Some s"
  fix r assume r: "r \<in> set (db_routines d')" "o_id r = i" "o_active r"
  from one have "count_where ?p (db_routines d) \<noteq> 0" by simp
  then obtain q where q: "q \<in> set (db_routines d)" "?p q" unfolding count_where_pos by blast
  from r(1) obtain q' where q': "q' \<in> set (db_routines d)" and
    eq: "r = (if ?p q' then claim_routine now nextRunAt q' else q')"
    unfolding rows set_update_where by blast
  have "o_id q' = o_id r" using eq by (cases "?p q'") (simp_all add: claim_routine_def)
  with r(2) q have "o_id q' = o_id q" by simp
  with assms(1) q' q have "q' = q" unfolding routines_unique_def by (blast intro: distinct_key_eq)
  with q have "?p q'" by simp
  from trans [OF eq if_P [OF this]] have "r = claim_routine now nextRunAt q'" .
  with assms(2) show "case o_nextRunAt r of None \<Rightarrow> True | Some n \<Rightarrow> s < n"
    by (cases nextRunAt) (auto simp: claim_routine_def)
qed

lemma restore_due:
  assumes "due_after rid t d" "i = rid \<Longrightarrow> t < s"
    and rows: "db_routines d' = update_where (\<lambda>r. o_id r = i \<and> P r) (restore_routine s previous) (db_routines d)"
  shows "due_after rid t d'"
  unfolding due_after_def
proof (intro ballI impI)
  fix r assume r: "r \<in> set (db_routines d')" "o_id r = rid" "o_active r"
  from r(1) obtain q where q: "q \<in> set (db_routines d)" and
    eq: "r = (if o_id q = i \<and> P q then restore_routine s previous q else q)"
    unfolding rows set_update_where by blast
  show "case o_nextRunAt r of None \<Rightarrow> True | Some n \<Rightarrow> t < n"
  proof (cases "o_id q = i \<and> P q")
    case True
    have rq: "r = restore_routine s previous q" by (rule trans [OF eq if_P [OF True]])
    with r(2) True have "i = rid" by (simp add: restore_routine_def)
    with assms(2) rq show ?thesis by (simp add: restore_routine_def)
  next
    case False
    have "r = q" by (rule trans [OF eq if_not_P [OF False]])
    with assms(1) q r show ?thesis by (simp add: due_after_def)
  qed
qed

lemma restore_rows:
  "db_routines (snd (run_transaction (wake_restore taskId runId routine s nextRunAt) d)) =
   update_where (\<lambda>r. o_id r = o_id routine \<and> o_nextRunAt r = nextRunAt \<and> (nextRunAt \<noteq> None \<or> \<not> o_active r))
     (restore_routine s (o_lastRunAt routine)) (db_routines d)"
  by (simp add: wake_restore_def tx_eval update_routines_def delete_queued_run_def Let_def)

lemma wake_next_later:
  assumes "wake_next croner valid_tz routine now s = Some n"
    and later: "runs_later croner"
  shows "s < n"
proof -
  from assms(1) have "nextCronDateAcross croner valid_tz (o_crons routine) (max now s) (o_timezone routine) = Some n"
    by (simp add: wake_next_def split: if_splits)
  then have "max now s < n" by (rule across_later) (rule later)
  then show ?thesis by simp
qed

text \<open>One step: a bound on the due time stays, and a wake that fired was due after it.\<close>

lemma wake_commit_step:
  assumes uniq: "routines_unique d"
    and later: "runs_later croner"
    and step: "wake_commit croner valid_tz taskId runId now prompt enqueued routine b th s d = (res, d')"
  shows "routines_unique d'" and "due_after rid t d \<Longrightarrow> due_after rid t d'"
    and "res = Inr (Some v) \<Longrightarrow> due_after rid t d \<Longrightarrow> o_id routine = rid \<Longrightarrow> t < s"
    and "res = Inr (Some v) \<Longrightarrow> o_id routine = rid \<Longrightarrow> due_after rid s d'"
proof -
  let ?p = "\<lambda>r. o_id r = o_id routine \<and> o_active r \<and> o_nextRunAt r = Some s"
  let ?next = "wake_next croner valid_tz routine now s"
  have nextl: "\<And>n. ?next = Some n \<Longrightarrow> s < n" using wake_next_later later by blast
  have le1: "count_where ?p (db_routines d) \<le> 1" by (rule claim_count_le1 [OF uniq])
  consider (fail) e where "wake_claim taskId runId now (prompt routine) routine b th s ?next d = Inl e" "res = Inl e" "d' = d"
    | (none) d1 where "wake_claim taskId runId now (prompt routine) routine b th s ?next d = Inr (None, d1)" "res = Inr None" "d' = d1"
    | (undo) run d1 where "wake_claim taskId runId now (prompt routine) routine b th s ?next d = Inr (Some run, d1)" "res = Inl (AppError ''enqueue failed'')"
        "d' = snd (run_transaction (wake_restore taskId runId routine s ?next) d1)"
    | (fired) run d1 where "wake_claim taskId runId now (prompt routine) routine b th s ?next d = Inr (Some run, d1)" "d' = d1"
    using step unfolding wake_commit_def Let_def
    by (cases "wake_claim taskId runId now (prompt routine) routine b th s ?next d") (auto split: option.splits if_splits)
  then have "routines_unique d' \<and> (due_after rid t d \<longrightarrow> due_after rid t d') \<and>
     (res = Inr (Some v) \<longrightarrow> o_id routine = rid \<longrightarrow> (due_after rid t d \<longrightarrow> t < s) \<and> due_after rid s d')"
  proof cases
    case fail
    then show ?thesis using uniq by simp
  next
    case none
    from wake_claim_routines [OF none(1)] le1 have "count_where ?p (db_routines d) = 0"
      and "db_routines d1 = update_where ?p (claim_routine now ?next) (db_routines d)" by auto
    then have "db_routines d1 = db_routines d" by (simp add: update_where_none)
    then show ?thesis using uniq none by (simp add: routines_unique_def due_after_def)
  next
    case undo
    from wake_claim_routines [OF undo(1)] have
      rows: "db_routines d1 = update_where ?p (claim_routine now ?next) (db_routines d)"
      and one: "count_where ?p (db_routines d) = 1" by auto
    have u1: "routines_unique d1" using uniq unfolding routines_unique_def rows by (simp add: claim_keys.keys_update)
    have "due_after rid t d \<longrightarrow> due_after rid t d'"
    proof
      assume due: "due_after rid t d"
      from one have "count_where ?p (db_routines d) \<noteq> 0" by simp
      then obtain q where q: "q \<in> set (db_routines d)" "?p q" unfolding count_where_pos by blast
      with due have "o_id routine = rid \<Longrightarrow> t < s" by (force simp: due_after_def)
      then show "due_after rid t d'"
        unfolding undo(3) using restore_due [OF claim_due [OF due nextl rows] _ restore_rows] by blast
    qed
    moreover have "routines_unique d'"
      unfolding undo(3) routines_unique_def restore_rows using u1 by (simp add: routines_unique_def restore_keys.keys_update)
    ultimately show ?thesis using undo by simp
  next
    case fired
    from wake_claim_routines [OF fired(1)] have
      rows: "db_routines d' = update_where ?p (claim_routine now ?next) (db_routines d)"
      and one: "count_where ?p (db_routines d) = 1" using fired(2) by auto
    have "due_after rid t d \<longrightarrow> o_id routine = rid \<longrightarrow> t < s"
    proof (intro impI)
      assume due: "due_after rid t d" "o_id routine = rid"
      from one have "count_where ?p (db_routines d) \<noteq> 0" by simp
      then obtain q where "q \<in> set (db_routines d)" "?p q" unfolding count_where_pos by blast
      with due show "t < s" by (force simp: due_after_def)
    qed
    moreover have "routines_unique d'" using uniq unfolding routines_unique_def rows by (simp add: claim_keys.keys_update)
    ultimately show ?thesis
      using claim_due [OF _ nextl rows] claim_due_self [OF uniq nextl one rows] by blast
  qed
  then show "routines_unique d'" "due_after rid t d \<Longrightarrow> due_after rid t d'"
    "res = Inr (Some v) \<Longrightarrow> due_after rid t d \<Longrightarrow> o_id routine = rid \<Longrightarrow> t < s"
    "res = Inr (Some v) \<Longrightarrow> o_id routine = rid \<Longrightarrow> due_after rid s d'" by blast+
qed

lemma wake_step_cases:
  assumes uniq: "routines_unique d"
    and later: "runs_later croner"
    and step: "wake_step croner valid_tz op d = (fired, d')"
  shows "routines_unique d'" and "due_after rid t d \<Longrightarrow> due_after rid t d'"
    and "fired = Some (rid, s) \<Longrightarrow> (due_after rid t d \<longrightarrow> t < s) \<and> due_after rid s d'"
proof -
  have "routines_unique d' \<and> (due_after rid t d \<longrightarrow> due_after rid t d') \<and>
    (fired = Some (rid, s) \<longrightarrow> (due_after rid t d \<longrightarrow> t < s) \<and> due_after rid s d')"
  proof (cases op)
    case (Wake taskId runId now prompt enqueued routine b th s')
    obtain res d1 where c: "wake_commit croner valid_tz taskId runId now prompt enqueued routine b th s' d = (res, d1)" by fastforce
    with step Wake have "d' = d1" and f: "fired = Some (rid, s) \<Longrightarrow> \<exists>v. res = Inr (Some v) \<and> o_id routine = rid \<and> s' = s"
      by (auto split: sum.splits option.splits)
    then show ?thesis using wake_commit_step [OF uniq later c] by blast
  next
    case (OtherTables o')
    with step uniq show ?thesis by (auto simp: routines_unique_def due_after_def)
  qed
  then show "routines_unique d'" "due_after rid t d \<Longrightarrow> due_after rid t d'"
    "fired = Some (rid, s) \<Longrightarrow> (due_after rid t d \<longrightarrow> t < s) \<and> due_after rid s d'" by blast+
qed

lemma fired_after:
  assumes "routines_unique d" "due_after rid t d"
    and later: "runs_later croner"
  shows "sorted_wrt (<) (t # fired_times croner valid_tz rid ops d)"
  using assms(1,2)
proof (induction ops arbitrary: d t)
  case (Cons op ops)
  obtain fired d' where st: "wake_step croner valid_tz op d = (fired, d')" by fastforce
  note step = wake_step_cases [OF Cons.prems(1) later st]
  show ?case
  proof (cases "\<exists>s. fired = Some (rid, s)")
    case True
    then obtain s where "fired = Some (rid, s)" by blast
    with step Cons.prems(2) have "t < s" "due_after rid s d'" by blast+
    with Cons.IH [OF step(1)] have "sorted_wrt (<) (s # fired_times croner valid_tz rid ops d')" by blast
    with \<open>fired = Some (rid, s)\<close> \<open>t < s\<close> st show ?thesis by (auto intro: less_trans)
  next
    case False
    then have "fired_times croner valid_tz rid (op # ops) d = fired_times croner valid_tz rid ops d'"
      using st by (auto split: option.split)
    moreover have "sorted_wrt (<) (t # fired_times croner valid_tz rid ops d')"
      by (rule Cons.IH [OF step(1)]) (rule step(2) [OF Cons.prems(2)])
    ultimately show ?thesis by (simp only:)
  qed
qed simp


definition example_routine :: routine_row where
  "example_routine = \<lparr>o_id = js ''o'', o_workspaceId = ws1, o_botId = bot1, o_userId = user1, o_prompt = [],
     o_crons = [js ''0 9 * * *''], o_timezone = js ''UTC'', o_active = True, o_lastRunAt = None, o_nextRunAt = Some 100\<rparr>"

definition example_wake :: "id \<Rightarrow> id \<Rightarrow> bool \<Rightarrow> wake_op" where
  "example_wake taskId runId enqueued = Wake taskId runId 100 o_prompt enqueued example_routine
     (hd (db_bots example_db)) (hd (db_threads example_db)) 100"


subsection \<open>Workers that share a run\<close>

text \<open>Where a job stands; \<open>JRead\<close> keeps the run it read before its claim.\<close>

datatype job_phase = JIdle | JRead run_row | JClaimed int | JStarted int

record run_sys =
  rs_now :: time
  rs_db :: db
  rs_phase :: "id \<Rightarrow> job_phase"

definition set_phase :: "id \<Rightarrow> job_phase \<Rightarrow> run_sys \<Rightarrow> run_sys" where
  "set_phase j p s = s\<lparr>rs_phase := (rs_phase s)(j := p)\<rparr>"

definition fresh_read :: "id \<Rightarrow> run_row \<Rightarrow> db \<Rightarrow> bool" where
  "fresh_read rid run d \<longleftrightarrow> (\<forall>r \<in> set (db_runs d). r_id r = rid \<longrightarrow> r_leaseFence r = r_leaseFence run)"

text \<open>
  The steps of the jobs that continue the run \<open>rid\<close>, each job of the worker \<open>owner j\<close>, with the
  clock and any thread transaction in between. With \<open>fresh\<close>, a claim follows its read before
  the fence of the run moves.
\<close>

inductive run_step :: "bool \<Rightarrow> (id \<Rightarrow> id) \<Rightarrow> id \<Rightarrow> run_sys \<Rightarrow> run_sys \<Rightarrow> bool" for fresh owner rid where
  run_read: "rs_phase s j = JIdle \<Longrightarrow> find_run rid (rs_db s) = Some run \<Longrightarrow> \<not> isTerminal (r_status run) \<Longrightarrow>
     run_step fresh owner rid s (set_phase j (JRead run) s)"
| run_claim: "rs_phase s j = JRead run \<Longrightarrow> (fresh \<longrightarrow> fresh_read rid run (rs_db s)) \<Longrightarrow>
     continue_claim (rs_now s) rid (owner j) run (rs_db s) = Inr (n, d) \<Longrightarrow>
     run_step fresh owner rid s
       (set_phase j (if n = 1 then JClaimed (nextFence (r_leaseFence run)) else JIdle) (s\<lparr>rs_db := d\<rparr>))"
| run_start: "rs_phase s j = JClaimed fence \<Longrightarrow> find_run rid (rs_db s) = Some current \<Longrightarrow>
     continue_start (rs_now s) rid (owner j) fence current (rs_db s) = Inr (n, d) \<Longrightarrow>
     run_step fresh owner rid s (set_phase j (if n = 1 then JStarted fence else JIdle) (s\<lparr>rs_db := d\<rparr>))"
| run_renew: "rs_phase s j = JStarted fence \<Longrightarrow>
     renewRunLease (rs_now s) rid (owner j) fence (rs_db s) = Inr (b, d) \<Longrightarrow>
     run_step fresh owner rid s (s\<lparr>rs_db := d\<rparr>)"
| run_requeue: "rs_phase s j = JStarted fence \<Longrightarrow>
     requeueComputerRun rid (owner j) fence resume (rs_db s) = Inr (delay, d) \<Longrightarrow>
     run_step fresh owner rid s (set_phase j JIdle (s\<lparr>rs_db := d\<rparr>))"
| run_setup_failed: "rs_phase s j = JStarted fence \<Longrightarrow>
     setup_release rid (owner j) fence resume busy (rs_db s) = Inr (n, d) \<Longrightarrow>
     run_step fresh owner rid s (set_phase j JIdle (s\<lparr>rs_db := d\<rparr>))"
| run_end: "run_step fresh owner rid s (set_phase j JIdle s)"
| run_tick: "rs_now s \<le> now \<Longrightarrow> run_step fresh owner rid s (s\<lparr>rs_now := now\<rparr>)"
| run_thread: "run_step fresh owner rid s (s\<lparr>rs_db := exec_op op (rs_db s)\<rparr>)"

inductive_cases run_stepE: "run_step fresh owner rid s s'"

text \<open>A job holds the run: it started it, and the row still names its worker and its fence.\<close>

definition holds_run :: "(id \<Rightarrow> id) \<Rightarrow> id \<Rightarrow> run_sys \<Rightarrow> id \<Rightarrow> bool" where
  "holds_run owner rid s j \<longleftrightarrow> (\<exists>fence. rs_phase s j = JStarted fence \<and>
     (\<exists>r \<in> set (db_runs (rs_db s)). leased_to rid (owner j) fence Running r))"

definition run_init :: "time \<Rightarrow> db \<Rightarrow> run_sys" where
  "run_init now d = \<lparr>rs_now = now, rs_db = d, rs_phase = (\<lambda>_. JIdle)\<rparr>"

text \<open>No thread transaction moves a fence or removes a run.\<close>

definition fences :: "db \<Rightarrow> (id \<times> int) list" where
  "fences d = map (\<lambda>r. (r_id r, r_leaseFence r)) (db_runs d)"

lemma fences_frame [tx_intros]:
  "tx_pres (\<lambda>d. prefix v (fences d)) (update_attempts pa fa)"
  "tx_pres (\<lambda>d. prefix v (fences d)) (update_tasks pk fk)"
  "tx_pres (\<lambda>d. prefix v (fences d)) (update_effects px fx)"
  "tx_pres (\<lambda>d. prefix v (fences d)) (update_effect px fx)"
  "tx_pres (\<lambda>d. prefix v (fences d)) (update_computers pc fc)"
  "tx_pres (\<lambda>d. prefix v (fences d)) (update_computer pc fc)"
  "tx_pres (\<lambda>d. prefix v (fences d)) (delete_leases pl)"
  "tx_pres (\<lambda>d. prefix v (fences d)) (delete_events pe)"
  "tx_pres (\<lambda>d. prefix v (fences d)) (update_message pm fm)"
  "tx_pres (\<lambda>d. prefix v (fences d)) (touch_bot pb now)"
  "tx_pres (\<lambda>d. prefix v (fences d)) (touch_group gid now)"
  "tx_pres (\<lambda>d. prefix v (fences d)) (create_secret sec)"
  "tx_pres (\<lambda>d. prefix v (fences d)) (create_task k)"
  "tx_pres (\<lambda>d. prefix v (fences d)) (create_message m)"
  "tx_pres (\<lambda>d. prefix v (fences d)) (create_event e)"
  "tx_pres (\<lambda>d. prefix v (fences d)) (create_run ru)"
  "tx_pres (\<lambda>d. prefix v (fences d)) (upsert_rule u)"
  "tx_pres (\<lambda>d. prefix v (fences d)) (assertRunCanWriteHistory ri)"
  "tx_pres (\<lambda>d. prefix v (fences d)) (update_thread pt ft)"
  by (auto intro!: tx_presI simp: bulk_defs create_defs upsert_rule_def assertRunCanWriteHistory_def fences_def o_def
      cong: if_cong split: if_splits option.splits)

lemma fences_delete_messages [tx_intros]: "tx_pres (\<lambda>d. prefix v (fences d)) (delete_messages pm)"
proof -
  have "fences (d\<lparr>db_messages := ms, db_runs := map (\<lambda>r. if g r then r\<lparr>r_sourceMessageId := None\<rparr> else r) (db_runs d)\<rparr>) = fences d"
    for d ms g by (auto simp: fences_def)
  then show ?thesis by (auto intro!: tx_presI simp: delete_messages_def Let_def)
qed

lemma fences_update_runs:
  assumes "\<And>r. r_id (f r) = r_id r" "\<And>r. r_leaseFence (f r) = r_leaseFence r"
  shows "tx_pres (\<lambda>d. prefix v (fences d)) (update_runs p f)"
proof -
  have "fences (d\<lparr>db_runs := update_where p f (db_runs d)\<rparr>) = fences d" for d
    by (auto simp: fences_def update_where_def assms)
  then show ?thesis by (auto intro!: tx_presI simp: update_runs_def)
qed

lemma fences_run_updates [tx_intros]:
  "tx_pres (\<lambda>d. prefix v (fences d)) (update_runs p (cancel_run now))"
  "tx_pres (\<lambda>d. prefix v (fences d)) (update_runs p requeue_run)"
  "tx_pres (\<lambda>d. prefix v (fences d)) (update_runs p pause_input_run)"
  "tx_pres (\<lambda>d. prefix v (fences d)) (update_runs p pause_takeover_run)"
  "tx_pres (\<lambda>d. prefix v (fences d)) (update_runs p (resume_run reason))"
  "tx_pres (\<lambda>d. prefix v (fences d)) (update_runs p (finish_run oc now))"
  by (rule fences_update_runs; simp add: cancel_run_def requeue_run_def pause_input_run_def pause_takeover_run_def
      resume_run_def finish_run_def)+

lemma fences_append [tx_intros]:
  "tx_pres (\<lambda>d. prefix v (fences d)) (appendEventInTransaction eid now ae)"
  "tx_pres (\<lambda>d. prefix v (fences d)) (createThreadMessageInTransaction eid now cm)"
  unfolding appendEventInTransaction_def createThreadMessageInTransaction_def by (intro tx_intros)+

lemma fences_finish_message [tx_intros]: "tx_pres (\<lambda>d. prefix v (fences d)) (finish_message mid eid now fc oc)"
  unfolding finish_message_def by (cases oc) (auto intro!: tx_intros)

lemma fences_answer_commit [tx_intros]:
  "tx_pres (\<lambda>d. prefix v (fences d)) (answer_commit eid now w i run msg ap sec)"
  unfolding answer_commit_def answer_approval_def answer_secret_def answer_prompt_def store_run_secret_def Let_def
  by (intro tx_intros)

lemma thread_tx_fences:
  "tx_pres (\<lambda>d. prefix v (fences d)) (clearThread_tx eid now ct)"
  "tx_pres (\<lambda>d. prefix v (fences d)) (sendUserMessage_tx ids now su)"
  "tx_pres (\<lambda>d. prefix v (fences d)) (answerRunInput_tx eid now w ai)"
  "tx_pres (\<lambda>d. prefix v (fences d)) (pauseRunForInput_tx mid e1 e2 now fc bs)"
  "tx_pres (\<lambda>d. prefix v (fences d)) (pauseRunForTakeover_tx eid now fc reason)"
  "tx_pres (\<lambda>d. prefix v (fences d)) (finalizeComputerControlRelease_tx eid now rel)"
  "tx_pres (\<lambda>d. prefix v (fences d)) (finalizeRun_tx mid e1 e2 now fc kid oc)"
  unfolding clearThread_tx_def clear_rows_def cancel_runs_def sendUserMessage_tx_def send_start_run_def
    answerRunInput_tx_def pauseRunForInput_tx_def pauseRunForTakeover_tx_def delete_progress_def
    finalizeComputerControlRelease_tx_def release_resume_def release_event_def finalizeRun_tx_def finish_rest_def Let_def
  by (intro tx_intros)+

lemma exec_op_fences: "prefix (fences d) (fences (exec_op op d))"
proof -
  have *: "tx_pres (\<lambda>d. prefix v (fences d)) m \<Longrightarrow> prefix v (fences d) \<Longrightarrow> prefix v (fences (snd (run_transaction m d)))" for v m
    by (rule run_transaction_pres)
  show ?thesis
    by (cases op) (simp_all del: run_transaction.simps add: appendEvent_def createThreadMessage_def send_snd answer_snd *
        thread_tx_fences fences_append)
qed

text \<open>The invariant: a job's fence is at most the row's, and no two jobs have the same.\<close>

definition job_fence :: "job_phase \<Rightarrow> int option" where
  "job_fence p = (case p of JClaimed f \<Rightarrow> Some f | JStarted f \<Rightarrow> Some f | _ \<Rightarrow> None)"

lemma job_fence_simps [simp]:
  "job_fence JIdle = None" "job_fence (JRead r) = None" "job_fence (JClaimed f) = Some f" "job_fence (JStarted f) = Some f"
  by (simp_all add: job_fence_def)

definition fence_at_least :: "id \<Rightarrow> int \<Rightarrow> db \<Rightarrow> bool" where
  "fence_at_least rid f d \<longleftrightarrow> (\<exists>(i, g) \<in> set (fences d). i = rid \<and> f \<le> g)"

definition run_inv :: "id \<Rightarrow> run_sys \<Rightarrow> bool" where
  "run_inv rid s \<longleftrightarrow> db_ok (rs_db s) \<and>
     (\<forall>j f. job_fence (rs_phase s j) = Some f \<longrightarrow> fence_at_least rid f (rs_db s)) \<and>
     (\<forall>j k f. job_fence (rs_phase s j) = Some f \<longrightarrow> job_fence (rs_phase s k) = Some f \<longrightarrow> j = k)"

lemma fence_prefix: "prefix (fences d) (fences d') \<Longrightarrow> fence_at_least rid f d \<Longrightarrow> fence_at_least rid f d'"
  by (auto simp: fence_at_least_def prefix_def)

text \<open>The steps that keep every fence, and the step that gives one.\<close>

lemma keep_fences:
  assumes "run_inv rid s" "db_ok d" "prefix (fences (rs_db s)) (fences d)"
    and "\<And>k. job_fence (p k) = None \<or> job_fence (p k) = job_fence (rs_phase s k)"
  shows "run_inv rid (s\<lparr>rs_db := d, rs_phase := p\<rparr>)"
proof -
  have "fence_at_least rid f d" if "job_fence (p j) = Some f" for j f
    using that assms(1,4) fence_prefix [OF assms(3)] unfolding run_inv_def by (metis option.distinct(1))
  moreover have "j = k" if "job_fence (p j) = Some f" "job_fence (p k) = Some f" for j k f
    using that assms(1,4) unfolding run_inv_def by (metis option.distinct(1))
  ultimately show ?thesis using assms(2) by (simp add: run_inv_def)
qed

lemma update_keeps:
  assumes "update_runs p f d = Inr (n, d')" "\<And>r. r_id (f r) = r_id r" "\<And>r. r_leaseFence (f r) = r_leaseFence r"
  shows "prefix (fences d) (fences d')"
  using tx_presD [OF fences_update_runs [OF assms(2,3)] _ assms(1)] by blast

lemma claim_gives_fence:
  assumes inv: "run_inv rid s" and fresh: "fresh_read rid run (rs_db s)"
    and claim: "continue_claim now rid w run (rs_db s) = Inr (n, d)"
  shows "run_inv rid (set_phase j (if n = 1 then JClaimed (nextFence (r_leaseFence run)) else JIdle) (s\<lparr>rs_db := d\<rparr>))"
proof -
  let ?new = "nextFence (r_leaseFence run)"
  let ?f = "lease_run now w ?new"
  from claim have rows: "db_runs d = update_where (claimable_run now rid) ?f (db_runs (rs_db s))"
    and n: "n = count_where (claimable_run now rid) (db_runs (rs_db s))"
    by (auto simp: continue_claim_def update_runs_def)
  have ok: "db_ok d"
    using tx_presD [OF update_runs_pres _ claim [unfolded continue_claim_def]] inv
    by (auto simp: lease_run_def run_inv_def)
  have old: "f < ?new" if "job_fence (rs_phase s k) = Some f" for k f
  proof -
    from that inv have "fence_at_least rid f (rs_db s)" by (simp add: run_inv_def)
    with fresh show ?thesis by (auto simp: fence_at_least_def fences_def fresh_read_def nextFence_def)
  qed
  have up: "fence_at_least rid f d" if at: "fence_at_least rid f (rs_db s)" for f
  proof -
    from at obtain r where r: "r \<in> set (db_runs (rs_db s))" "r_id r = rid" "f \<le> r_leaseFence r"
      by (auto simp: fence_at_least_def fences_def)
    let ?r = "if claimable_run now rid r then ?f r else r"
    have "?r \<in> set (db_runs d)" unfolding rows set_update_where using r(1) by blast
    moreover have "r_id ?r = rid" "f \<le> r_leaseFence ?r"
      using r fresh by (auto simp: lease_run_def fresh_read_def nextFence_def)
    ultimately show ?thesis unfolding fence_at_least_def fences_def by force
  qed
  show ?thesis
  proof (cases "n = 1")
    case True
    with n have "count_where (claimable_run now rid) (db_runs (rs_db s)) \<noteq> 0" by simp
    then obtain r where r: "r \<in> set (db_runs (rs_db s))" "claimable_run now rid r" unfolding count_where_pos by blast
    have "?f r \<in> set (db_runs d)" unfolding rows set_update_where using r by (metis if_P)
    moreover have "r_id (?f r) = rid" "r_leaseFence (?f r) = ?new"
      using r by (simp_all add: lease_run_def claimable_run_def)
    ultimately have new: "fence_at_least rid ?new d" unfolding fence_at_least_def fences_def by force
    from inv old have uniq: "job_fence (rs_phase s k) \<noteq> Some ?new" for k by blast
    show ?thesis
      using True inv ok up new uniq by (auto simp: run_inv_def set_phase_def)
  next
    case False
    then show ?thesis using inv ok up by (auto simp: run_inv_def set_phase_def)
  qed
qed

lemma run_step_inv:
  assumes inv: "run_inv rid s" and step: "run_step True owner rid s s'"
  shows "run_inv rid s'"
proof -
  from inv have ok: "db_ok (rs_db s)" by (simp add: run_inv_def)
  have idle: "run_inv rid (set_phase j JIdle (s\<lparr>rs_db := d\<rparr>))" and same: "run_inv rid (s\<lparr>rs_db := d\<rparr>)"
    if up: "update_runs p f (rs_db s) = Inr (m, d)" and f: "\<And>r. r_id (f r) = r_id r" "\<And>r. r_leaseFence (f r) = r_leaseFence r"
    for p f m d j
  proof -
    note ok' = tx_presD [OF update_runs_pres ok up] note pre = update_keeps [OF up f]
    have "db_ok d" using ok' f(1) by blast
    with keep_fences [OF inv _ pre, of "(rs_phase s)(j := JIdle)"] keep_fences [OF inv _ pre, of "rs_phase s"]
    show "run_inv rid (set_phase j JIdle (s\<lparr>rs_db := d\<rparr>))" "run_inv rid (s\<lparr>rs_db := d\<rparr>)"
      by (simp_all add: set_phase_def)
  qed
  from step show ?thesis
  proof cases
    case (run_read j run)
    then show ?thesis using keep_fences [OF inv ok, of "(rs_phase s)(j := JRead run)"] by (simp add: set_phase_def)
  next
    case (run_claim j run n d)
    then show ?thesis using claim_gives_fence [OF inv] by blast
  next
    case (run_start j fence current n d)
    then have up: "update_runs (leased_to rid (owner j) fence Leased) (start_run (rs_now s) current) (rs_db s) = Inr (n, d)"
      by (simp add: continue_start_def split: sum.splits)
    have pre: "prefix (fences (rs_db s)) (fences d)" by (rule update_keeps [OF up]) (simp_all add: start_run_def)
    have "db_ok d" using tx_presD [OF update_runs_pres ok up] by (simp add: start_run_def)
    from keep_fences [OF inv this pre, of "(rs_phase s)(j := if n = 1 then JStarted fence else JIdle)"] run_start
    show ?thesis by (simp add: set_phase_def)
  next
    case (run_renew j fence b d)
    then show ?thesis using same by (auto simp: renewRunLease_def)
  next
    case (run_requeue j fence resume delay d)
    then show ?thesis using idle by (auto simp: requeueComputerRun_def computerRunRequeueData_def)
  next
    case (run_setup_failed j fence resume busy n d)
    then show ?thesis using idle by (auto simp: setup_release_def computerRunRequeueData_def)
  next
    case (run_end j)
    then show ?thesis using keep_fences [OF inv ok, of "(rs_phase s)(j := JIdle)"] by (simp add: set_phase_def)
  next
    case (run_tick now)
    then show ?thesis using inv by (simp add: run_inv_def)
  next
    case (run_thread op)
    then show ?thesis using keep_fences [OF inv exec_op_ok [OF ok] exec_op_fences, of "rs_phase s"] by simp
  qed
qed

lemma run_reach_inv: "(run_step True owner rid)\<^sup>*\<^sup>* s s' \<Longrightarrow> run_inv rid s \<Longrightarrow> run_inv rid s'"
  by (induction rule: rtranclp_induct) (auto intro: run_step_inv)

text \<open>
  C17. A run has one worker: in every interleaving of the jobs that continue it, of the clock and
  of the thread transactions, crashed and stalled jobs included, at most one job holds the run,
  even among jobs of the same worker, as long as each claim follows its read before the fence
  moves.
\<close>

theorem one_job_holds_a_run:
  assumes "db_ok d" and "(run_step True owner rid)\<^sup>*\<^sup>* (run_init now d) s"
    and "holds_run owner rid s j" and "holds_run owner rid s k"
  shows "j = k"
proof -
  have "run_inv rid (run_init now d)" using assms(1) by (simp add: run_inv_def run_init_def)
  with assms(2) have inv: "run_inv rid s" by (rule run_reach_inv)
  from assms(3,4) obtain f g r q where "rs_phase s j = JStarted f" "r \<in> set (db_runs (rs_db s))"
    "leased_to rid (owner j) f Running r" "rs_phase s k = JStarted g" "q \<in> set (db_runs (rs_db s))"
    "leased_to rid (owner k) g Running q" by (auto simp: holds_run_def)
  moreover from inv have "distinct (map r_id (db_runs (rs_db s)))" by (simp add: run_inv_def db_ok_def runs_ok_def)
  ultimately have "r = q" "f = g" by (auto simp: leased_to_def dest: distinct_key_eq)
  with \<open>rs_phase s j = JStarted f\<close> \<open>rs_phase s k = JStarted g\<close> inv show ?thesis
    unfolding run_inv_def by (metis job_fence_simps(4))
qed

definition example_queued :: db where
  "example_queued = empty_db\<lparr>db_runs := [example_run run_live (js ''k1'') Queued]\<rparr>"

definition leased_row :: "time \<Rightarrow> run_status \<Rightarrow> time option \<Rightarrow> run_row" where
  "leased_row expires st started = (example_run run_live (js ''k1'') st)\<lparr>r_leaseOwner := Some (js ''w''), r_leaseFence := 1,
     r_leaseExpiresAt := Some expires, r_startedAt := started\<rparr>"

lemmas queued_defs = example_queued_def leased_row_def empty_db_def example_run_def new_run_def

lemma example_claim:
  "continue_claim 0 run_live (js ''w'') (example_run run_live (js ''k1'') Queued) example_queued =
     Inr (1, empty_db\<lparr>db_runs := [leased_row 300000 Leased None]\<rparr>)"
  by (simp add: continue_claim_def update_runs_def count_where_def claimable_run_def lease_run_def nextFence_def
      RUN_LEASE_MS_def queued_defs)

lemma example_reclaim:
  "continue_claim 300000 run_live (js ''w'') (example_run run_live (js ''k1'') Queued)
     (empty_db\<lparr>db_runs := [leased_row 300000 Running (Some 0)]\<rparr>) =
     Inr (1, empty_db\<lparr>db_runs := [leased_row 600000 Leased (Some 0)]\<rparr>)"
  by (simp add: continue_claim_def update_runs_def count_where_def claimable_run_def lease_run_def nextFence_def
      RUN_LEASE_MS_def queued_defs)

lemma example_start:
  "continue_start now run_live (js ''w'') 1 (leased_row e Leased None) (empty_db\<lparr>db_runs := [leased_row e Leased None]\<rparr>) =
     Inr (1, empty_db\<lparr>db_runs := [leased_row e Running (Some now)]\<rparr>)"
  "continue_start now run_live (js ''w'') 1 (leased_row e Leased (Some t)) (empty_db\<lparr>db_runs := [leased_row e Leased (Some t)]\<rparr>) =
     Inr (1, empty_db\<lparr>db_runs := [leased_row e Running (Some t)]\<rparr>)"
  by (simp_all add: continue_start_def start_check_def assertTransition_def canTransition_def update_runs_def
      count_where_def leased_to_def start_run_def queued_defs)

lemma example_queued_ok: "db_ok example_queued"
  by (simp add: db_ok_def threads_ok_def messages_ok_def events_ok_def runs_ok_def queued_defs)

lemma one_job_holds_a_run_witness:
  "\<exists>s. (run_step True (\<lambda>_. js ''w'') run_live)\<^sup>*\<^sup>* (run_init 0 example_queued) s \<and>
     holds_run (\<lambda>_. js ''w'') run_live s (js ''j'') \<and> \<not> holds_run (\<lambda>_. js ''w'') run_live s (js ''k'')"
proof -
  let ?step = "run_step True (\<lambda>_. js ''w'') run_live"
  let ?j = "js ''j''" and ?run = "example_run run_live (js ''k1'') Queued"
  let ?db = "\<lambda>r. empty_db\<lparr>db_runs := [r]\<rparr>"
  let ?s0 = "run_init 0 example_queued"
  let ?s1 = "set_phase ?j (JRead ?run) ?s0"
  let ?s2 = "set_phase ?j (JClaimed 1) (?s1\<lparr>rs_db := ?db (leased_row 300000 Leased None)\<rparr>)"
  let ?s3 = "set_phase ?j (JStarted 1) (?s2\<lparr>rs_db := ?db (leased_row 300000 Running (Some 0))\<rparr>)"
  have found: "find_run run_live example_queued = Some ?run" "\<not> isTerminal (r_status ?run)"
    "find_run run_live (?db (leased_row e st t)) = Some (leased_row e st t)" for e st t
    by (simp_all add: find_run_def isTerminal_def TERMINAL_def queued_defs)
  have f1: "nextFence (r_leaseFence ?run) = 1" and fresh: "fresh_read run_live ?run example_queued"
    by (simp_all add: nextFence_def fresh_read_def queued_defs)
  have "?step ?s0 ?s1" using found by (intro run_read) (simp_all add: run_init_def)
  moreover have "?step ?s1 ?s2"
    using run_claim [of ?s1 ?j ?run True run_live "\<lambda>_. js ''w''" 1] example_claim fresh
    by (simp add: run_init_def set_phase_def f1)
  moreover have "?step ?s2 ?s3"
    using run_start [of ?s2 ?j 1 run_live "leased_row 300000 Leased None" "\<lambda>_. js ''w''" 1] example_start(1) found(3)
    by (simp add: run_init_def set_phase_def)
  ultimately have reach: "?step\<^sup>*\<^sup>* ?s0 ?s3" by (meson converse_rtranclp_into_rtranclp rtranclp.rtrancl_refl)
  have "holds_run (\<lambda>_. js ''w'') run_live ?s3 ?j"
    by (simp add: holds_run_def set_phase_def leased_to_def queued_defs)
  then have "\<not> holds_run (\<lambda>_. js ''w'') run_live ?s3 (js ''k'')"
    using one_job_holds_a_run [OF example_queued_ok reach] by fastforce
  with reach \<open>holds_run (\<lambda>_. js ''w'') run_live ?s3 ?j\<close> show ?thesis by blast
qed

text \<open>
  The claim does not check the fence it read: two jobs of one worker that read the run
  before either claimed it can both hold it, with the same fence, once the lease of the first
  has run out. Both then pass every fenced write.
\<close>

theorem stale_reads_share_a_run:
  "\<exists>d s j k. db_ok d \<and> (run_step False (\<lambda>_. js ''w'') run_live)\<^sup>*\<^sup>* (run_init 0 d) s \<and> j \<noteq> k \<and>
     holds_run (\<lambda>_. js ''w'') run_live s j \<and> holds_run (\<lambda>_. js ''w'') run_live s k"
proof -
  let ?step = "run_step False (\<lambda>_. js ''w'') run_live"
  let ?j = "js ''j''" and ?k = "js ''k''" and ?run = "example_run run_live (js ''k1'') Queued"
  let ?db = "\<lambda>r. empty_db\<lparr>db_runs := [r]\<rparr>"
  let ?s0 = "run_init 0 example_queued"
  let ?s1 = "set_phase ?j (JRead ?run) ?s0"
  let ?s2 = "set_phase ?k (JRead ?run) ?s1"
  let ?s3 = "set_phase ?j (JClaimed 1) (?s2\<lparr>rs_db := ?db (leased_row 300000 Leased None)\<rparr>)"
  let ?s4 = "set_phase ?j (JStarted 1) (?s3\<lparr>rs_db := ?db (leased_row 300000 Running (Some 0))\<rparr>)"
  let ?s5 = "?s4\<lparr>rs_now := 300000\<rparr>"
  let ?s6 = "set_phase ?k (JClaimed 1) (?s5\<lparr>rs_db := ?db (leased_row 600000 Leased (Some 0))\<rparr>)"
  let ?s7 = "set_phase ?k (JStarted 1) (?s6\<lparr>rs_db := ?db (leased_row 600000 Running (Some 0))\<rparr>)"
  have found: "find_run run_live example_queued = Some ?run" "\<not> isTerminal (r_status ?run)"
    "find_run run_live (?db (leased_row e st t)) = Some (leased_row e st t)" for e st t
    by (simp_all add: find_run_def isTerminal_def TERMINAL_def queued_defs)
  have f1: "nextFence (r_leaseFence ?run) = 1" by (simp add: nextFence_def queued_defs)
  have "?step ?s0 ?s1" using found by (intro run_read) (simp_all add: run_init_def)
  moreover have "?step ?s1 ?s2" using found by (intro run_read) (simp_all add: run_init_def set_phase_def)
  moreover have "?step ?s2 ?s3"
    using run_claim [of ?s2 ?j ?run False run_live "\<lambda>_. js ''w''" 1] example_claim
    by (simp add: run_init_def set_phase_def f1)
  moreover have "?step ?s3 ?s4"
    using run_start [of ?s3 ?j 1 run_live "leased_row 300000 Leased None" "\<lambda>_. js ''w''" 1] example_start(1) found(3)
    by (simp add: run_init_def set_phase_def)
  moreover have "?step ?s4 ?s5" by (rule run_tick) (simp add: run_init_def set_phase_def)
  moreover have "?step ?s5 ?s6"
    using run_claim [of ?s5 ?k ?run False run_live "\<lambda>_. js ''w''" 1] example_reclaim
    by (simp add: run_init_def set_phase_def f1)
  moreover have "?step ?s6 ?s7"
    using run_start [of ?s6 ?k 1 run_live "leased_row 600000 Leased (Some 0)" "\<lambda>_. js ''w''" 1] example_start(2) found(3)
    by (simp add: run_init_def set_phase_def)
  ultimately have "?step\<^sup>*\<^sup>* ?s0 ?s7" by (meson converse_rtranclp_into_rtranclp rtranclp.rtrancl_refl)
  moreover have "db_ok example_queued" by (rule example_queued_ok)
  moreover have "holds_run (\<lambda>_. js ''w'') run_live ?s7 ?j" "holds_run (\<lambda>_. js ''w'') run_live ?s7 ?k"
    by (simp_all add: holds_run_def set_phase_def leased_to_def queued_defs)
  moreover have "?j \<noteq> ?k" by simp
  ultimately show ?thesis by blast
qed

subsection \<open>The worker and the transition table\<close>

lemma legal_update_where:
  assumes "\<And>r. r_id (f r) = r_id r" "\<And>r. p r \<Longrightarrow> r_status r = r_status (f r) \<or> canTransition (r_status r) (r_status (f r))"
    and "update_runs p f d = Inr (n, d')"
  shows "legal_change (statuses d) (statuses d')"
proof -
  from assms(3) have d': "db_runs d' = update_where p f (db_runs d)" by (auto simp: update_runs_def)
  have "fst ` set (statuses d') = fst ` set (statuses d)"
    by (auto simp: statuses_def d' update_where_def assms(1) image_image)
  moreover have "\<exists>s. (i, s) \<in> set (statuses d) \<and> (s = s' \<or> canTransition s s')" if "(i, s') \<in> set (statuses d')" for i s'
  proof -
    from that obtain r where r: "r \<in> set (db_runs d)" "i = r_id (if p r then f r else r)" "s' = r_status (if p r then f r else r)"
      unfolding statuses_def d' update_where_def by auto
    then have "(i, r_status r) \<in> set (statuses d)" by (auto simp: statuses_def assms(1))
    moreover have "r_status r = s' \<or> canTransition (r_status r) s'" using r(3) assms(2) [of r] by (cases "p r") simp_all
    ultimately show ?thesis by blast
  qed
  ultimately show ?thesis by (auto simp: legal_change_def)
qed

text \<open>
  Claiming, starting and renewing a run follow the transition table of the core; giving a
  run back because its computer is busy does not: it takes a running run to queued, which the
  table does not allow.
\<close>

theorem requeue_leaves_the_table:
  assumes "distinct (map r_id (db_runs d))"
  shows "(\<forall>now rid w run n d'. continue_claim now rid w run d = Inr (n, d') \<longrightarrow> legal_change (statuses d) (statuses d')) \<and>
    (\<forall>now rid w fence current n d'. continue_start now rid w fence current d = Inr (n, d') \<longrightarrow>
       legal_change (statuses d) (statuses d')) \<and>
    (\<forall>now rid w fence b d'. renewRunLease now rid w fence d = Inr (b, d') \<longrightarrow> statuses d' = statuses d) \<and>
    (\<forall>rid w fence resume delay d'. requeueComputerRun rid w fence resume d = Inr (Some delay, d') \<longrightarrow>
       \<not> legal_change (statuses d) (statuses d'))"
proof (intro conjI allI impI)
  fix now rid w run n d' assume "continue_claim now rid w run d = Inr (n, d')"
  then show "legal_change (statuses d) (statuses d')"
    unfolding continue_claim_def
    by (rule legal_update_where [rotated 2]) (auto simp: lease_run_def claimable_run_def canTransition_def)
next
  fix now rid w fence current n d' assume "continue_start now rid w fence current d = Inr (n, d')"
  then have "update_runs (leased_to rid w fence Leased) (start_run now current) d = Inr (n, d')"
    by (simp add: continue_start_def split: sum.splits)
  then show "legal_change (statuses d) (statuses d')"
    by (rule legal_update_where [rotated 2]) (auto simp: start_run_def leased_to_def canTransition_def)
next
  fix now rid w fence b d' assume "renewRunLease now rid w fence d = Inr (b, d')"
  then show "statuses d' = statuses d"
    by (auto simp: renewRunLease_def update_runs_def statuses_def update_where_def)
next
  fix rid w fence resume delay d' assume "requeueComputerRun rid w fence resume d = Inr (Some delay, d')"
  then have rows: "db_runs d' = update_where (leased_to rid w fence Running) (computerRunRequeueData resume None) (db_runs d)"
    and one: "count_where (leased_to rid w fence Running) (db_runs d) \<noteq> 0"
    by (auto simp: requeueComputerRun_def update_runs_def split: if_splits)
  from one obtain r where r: "r \<in> set (db_runs d)" "leased_to rid w fence Running r" unfolding count_where_pos by blast
  have "computerRunRequeueData resume None r \<in> set (db_runs d')" unfolding rows set_update_where using r by (metis if_P)
  from imageI [OF this, of "\<lambda>r. (r_id r, r_status r)"]
  have new: "(r_id r, Queued) \<in> set (statuses d')" by (simp add: statuses_def computerRunRequeueData_def)
  have old: "s = Running" if "(r_id r, s) \<in> set (statuses d)" for s
  proof -
    from that obtain q where "q \<in> set (db_runs d)" "r_id q = r_id r" "s = r_status q" by (auto simp: statuses_def)
    with assms r show ?thesis by (auto simp: leased_to_def dest: distinct_key_eq)
  qed
  from imageI [OF r(1), of "\<lambda>r. (r_id r, r_status r)"] have "(r_id r, r_status r) \<in> set (statuses d)"
    by (simp add: statuses_def)
  from imageI [OF this, of fst] have known: "r_id r \<in> fst ` set (statuses d)" by simp
  show "\<not> legal_change (statuses d) (statuses d')"
  proof
    assume "legal_change (statuses d) (statuses d')"
    with new have "(\<exists>s. (r_id r, s) \<in> set (statuses d) \<and> (s = Queued \<or> canTransition s Queued)) \<or>
        r_id r \<notin> fst ` set (statuses d)"
      unfolding legal_change_def by fast
    with known old have "Running = Queued \<or> canTransition Running Queued" by blast
    then show False by (simp add: canTransition_def)
  qed
qed

lemma requeue_leaves_the_table_witness:
  "\<exists>d'. requeueComputerRun run_live (js ''p'') 1 None example_db = Inr (Some 250, d') \<and>
     \<not> legal_change (statuses example_db) (statuses d')"
proof -
  have d: "distinct (map r_id (db_runs example_db))" using example_ok by (simp add: db_ok_def runs_ok_def)
  have "\<exists>d'. requeueComputerRun run_live (js ''p'') 1 None example_db = Inr (Some 250, d')"
    by (simp add: requeueComputerRun_def update_runs_def count_where_def leased_to_def computerRetryDelay_def
        example_defs ids)
  then obtain d' where d': "requeueComputerRun run_live (js ''p'') 1 None example_db = Inr (Some 250, d')" by blast
  then have "\<not> legal_change (statuses example_db) (statuses d')"
    by (rule requeue_leaves_the_table [OF d, THEN conjunct2, THEN conjunct2, THEN conjunct2, rule_format])
  with d' show ?thesis by blast
qed

end
