(* ===== verification/ApprovalKey.thy ===== *)
theory ApprovalKey
  imports Contracts Numbers "HOL-Library.List_Lexorder"
begin

text \<open>
  The key of an approved action, \<open>packages/core/src/approval-effect-key.ts\<close>: the arguments of a
  tool call are serialized with the keys of their objects in order, and hashed. The hash is the
  argument \<open>sha256\<close>. The values are the JSON values of \<open>Contracts\<close>; on anything else (a cycle, a
  hole of an array, a number that is not finite) the code throws.
\<close>

subsection \<open>Strings as \<open>JSON.stringify\<close> writes them\<close>

definition is_high :: "jchar \<Rightarrow> bool" where
  "is_high c \<longleftrightarrow> 0xD800 \<le> c \<and> c \<le> 0xDBFF"

definition is_low :: "jchar \<Rightarrow> bool" where
  "is_low c \<longleftrightarrow> 0xDC00 \<le> c \<and> c \<le> 0xDFFF"

definition hex_digit :: "nat \<Rightarrow> jchar" where
  "hex_digit n = word_of_nat (if n < 10 then 48 + n else 87 + n)"

text \<open>Four lower-case hexadecimal digits after \<open>\u\<close>.\<close>

definition unicode_escape :: "jchar \<Rightarrow> jstring" where
  "unicode_escape c =
     [92, 117, hex_digit (unat c div 4096), hex_digit (unat c div 256 mod 16),
      hex_digit (unat c div 16 mod 16), hex_digit (unat c mod 16)]"

definition escape_char :: "jchar \<Rightarrow> jstring" where
  "escape_char c =
     (if c = 8 then [92, 98] else if c = 9 then [92, 116] else if c = 10 then [92, 110]
      else if c = 12 then [92, 102] else if c = 13 then [92, 114]
      else if c = 34 then [92, 34] else if c = 92 then [92, 92]
      else if c < 32 \<or> is_high c \<or> is_low c then unicode_escape c else [c])"

text \<open>A surrogate that is not part of a pair is escaped, a pair is copied.\<close>

fun escape :: "jstring \<Rightarrow> jstring" where
  "escape [] = []"
| "escape [c] = escape_char c"
| "escape (c # d # s) =
     (if is_high c \<and> is_low d then c # d # escape s else escape_char c @ escape (d # s))"

definition json_quote :: "jstring \<Rightarrow> jstring" where
  "json_quote s = 34 # escape s @ [34]"

subsection \<open>The serialization\<close>

fun commas :: "jstring list \<Rightarrow> jstring" where
  "commas [] = []"
| "commas [x] = x"
| "commas (x # y # xs) = x @ 44 # commas (y # xs)"

function stableJsonValue :: "json \<Rightarrow> jstring" where
  "stableJsonValue JNull = js ''null''"
| "stableJsonValue (JBool b) = (if b then js ''true'' else js ''false'')"
| "stableJsonValue (JNum i) = int_text i"
| "stableJsonValue (JStr s) = json_quote s"
| "stableJsonValue (JArr vs) = 91 # commas (map stableJsonValue vs) @ [93]"
| "stableJsonValue (JObj fs) =
     123 # commas (map (\<lambda>(k, v). json_quote k @ 58 # stableJsonValue v) (sort_key fst fs)) @ [125]"
  by pat_completeness auto

lemma size_field: "(k, v) \<in> set fs \<Longrightarrow> size v < Suc (size_list (size_prod (\<lambda>x. 0) size) fs)"
  by (induction fs) auto

lemma size_elem: "v \<in> set vs \<Longrightarrow> size v < Suc (size_list size vs)"
  by (induction vs) auto

termination stableJsonValue
  by (relation "measure size") (auto simp: size_field size_elem)

definition approvalEffectKey :: "(jstring \<Rightarrow> jstring) \<Rightarrow> jstring \<Rightarrow> jstring \<Rightarrow> (jstring \<times> json) list \<Rightarrow> jstring" where
  "approvalEffectKey sha256 runId toolName args =
     runId @ js '':'' @ toolName @ js '':'' @ sha256 (stableJsonValue (JObj args))"

subsection \<open>Reading a string back\<close>

fun unescape_simple :: "jchar \<Rightarrow> jchar" where
  "unescape_simple c = (if c = 98 then 8 else if c = 116 then 9 else if c = 110 then 10 else if c = 102 then 12
     else if c = 114 then 13 else c)"

definition hex_value :: "jchar \<Rightarrow> nat" where
  "hex_value c = (if c \<le> 57 then unat c - 48 else unat c - 87)"

fun read_string :: "jstring \<Rightarrow> (jstring \<times> jstring) option" where
  "read_string [] = None"
| "read_string [c] = (if c = 34 then Some ([], []) else None)"
| "read_string (c # e # s) =
     (if c = 34 then Some ([], e # s)
      else if c = 92 then
        (if e = 117 then
           (case s of a # b # c' # d # r \<Rightarrow>
              map_option (apfst ((#) (word_of_nat (4096 * hex_value a + 256 * hex_value b + 16 * hex_value c' + hex_value d))))
                (read_string r)
            | _ \<Rightarrow> None)
         else map_option (apfst ((#) (unescape_simple e))) (read_string s))
      else map_option (apfst ((#) c)) (read_string (e # s)))"

lemma hex_value_digit: "n < 16 \<Longrightarrow> hex_value (hex_digit n) = n"
  by (simp add: hex_value_def hex_digit_def word_le_nat_alt unat_of_nat del: of_nat_add of_nat_numeral)

lemma hex_split: "4096 * (u div 4096) + 256 * (u div 256 mod 16) + 16 * (u div 16 mod 16) + u mod 16 = (u :: nat)"
proof -
  have "u div 16 div 16 = u div 256" "u div 256 div 16 = u div 4096" by (simp_all flip: div_mult2_eq)
  then show ?thesis
    using div_mult_mod_eq [of u 16] div_mult_mod_eq [of "u div 16" 16] div_mult_mod_eq [of "u div 256" 16] by linarith
qed

lemma read_unicode_escape:
  "read_string (unicode_escape c @ r) = map_option (apfst ((#) c)) (read_string r)"
proof -
  have bound: "unat c < 65536" using unsigned_less [of c, where 'a = nat] by simp
  have "4096 * (unat c div 4096) + 256 * (unat c div 256 mod 16) + 16 * (unat c div 16 mod 16) + unat c mod 16 = unat c"
    using hex_split [of "unat c"] by simp
  moreover have "unat c div 4096 < 16" using bound by simp
  ultimately show ?thesis by (simp add: unicode_escape_def hex_value_digit del: of_nat_add of_nat_mult of_nat_numeral)
qed

lemma read_escape_char: "r \<noteq> [] \<Longrightarrow> read_string (escape_char c @ r) = map_option (apfst ((#) c)) (read_string r)"
  by (cases r) (auto simp: escape_char_def read_unicode_escape)

lemma read_escape: "read_string (escape s @ 34 # r) = Some (s, r)"
proof (induction s rule: escape.induct)
  case 1
  then show ?case by (cases r) simp_all
next
  case (2 c)
  have "read_string (34 # r) = Some ([], r)" by (cases r) simp_all
  then show ?case by (simp add: read_escape_char)
next
  case (3 c d s)
  show ?case
  proof (cases "is_high c \<and> is_low d")
    case True
    then have "c \<noteq> 34" "c \<noteq> 92" "d \<noteq> 34" "d \<noteq> 92" by (auto simp: is_high_def is_low_def word_le_nat_alt)
    moreover have "escape s @ 34 # r \<noteq> []" by simp
    ultimately show ?thesis using True 3 by (cases "escape s @ 34 # r") simp_all
  next
    case False
    then have eq: "escape (c # d # s) = escape_char c @ escape (d # s)" by auto
    have ne: "escape (d # s) @ 34 # r \<noteq> []" by simp
    have "read_string (escape (d # s) @ 34 # r) = Some (d # s, r)" using 3(2) False by blast
    then show ?thesis unfolding eq append_assoc read_escape_char [OF ne] by (simp del: escape.simps read_string.simps)
  qed
qed

lemma quote_inj:
  assumes "json_quote s @ r = json_quote t @ r'"
  shows "s = t \<and> r = r'"
proof -
  from assms have eq: "escape s @ 34 # r = escape t @ 34 # r'" by (simp add: json_quote_def)
  have "Some (s, r) = Some (t, r')" using read_escape [of s r, unfolded eq] read_escape [of t r'] by (simp only:)
  then show ?thesis by simp
qed

subsection \<open>The same arguments, and no others\<close>

text \<open>Objects have each key once.\<close>

fun json_ok :: "json \<Rightarrow> bool" where
  "json_ok (JArr vs) = list_all json_ok vs"
| "json_ok (JObj fs) = (distinct (map fst fs) \<and> list_all (\<lambda>(k, v). json_ok v) fs)"
| "json_ok _ = True"

text \<open>The same value up to the order of the keys of its objects, at every depth.\<close>

inductive same_value :: "json \<Rightarrow> json \<Rightarrow> bool" where
  "same_value JNull JNull"
| "same_value (JBool b) (JBool b)"
| "same_value (JNum i) (JNum i)"
| "same_value (JStr s) (JStr s)"
| "list_all2 same_value vs ws \<Longrightarrow> same_value (JArr vs) (JArr ws)"
| "dom (map_of fs) = dom (map_of gs) \<Longrightarrow>
   (\<And>k v w. map_of fs k = Some v \<Longrightarrow> map_of gs k = Some w \<Longrightarrow> same_value v w) \<Longrightarrow>
   same_value (JObj fs) (JObj gs)"

definition json_entry :: "jstring \<times> json \<Rightarrow> jstring" where
  "json_entry f = json_quote (fst f) @ 58 # stableJsonValue (snd f)"

lemma stable_obj: "stableJsonValue (JObj fs) = 123 # commas (map json_entry (sort_key fst fs)) @ [125]"
  by (simp add: json_entry_def [abs_def] case_prod_unfold)

declare stableJsonValue.simps(6) [simp del]

lemma sorted_keys:
  "sorted (map fst (sort_key fst fs))" "distinct (map fst fs) \<Longrightarrow> distinct (map fst (sort_key fst fs))"
  by (simp_all add: distinct_map)

text \<open>The same value is written the same.\<close>

lemma same_value_stable: "same_value v w \<Longrightarrow> json_ok v \<Longrightarrow> json_ok w \<Longrightarrow> stableJsonValue v = stableJsonValue w"
proof (induction rule: same_value.induct)
  case (5 vs ws)
  have "map stableJsonValue vs = map stableJsonValue ws"
    using 5 by (simp add: list_all2_conv_all_nth list_all_iff list_eq_iff_nth_eq)
  then show ?case by simp
next
  case (6 fs gs)
  define E where "E = (\<lambda>hs :: (jstring \<times> json) list. map (\<lambda>h. (fst h, stableJsonValue (snd h))) (sort_key fst hs))"
  have fst_E: "map fst (E hs) = map fst (sort_key fst hs)" for hs by (simp add: E_def o_def)
  have d: "distinct (map fst fs)" "distinct (map fst gs)" using 6 by simp_all
  have mem: "(k, t) \<in> set (E hs) \<longleftrightarrow> (\<exists>v. map_of hs k = Some v \<and> t = stableJsonValue v)" if "distinct (map fst hs)" for k t hs
    unfolding map_of_eq_Some_iff [OF that] by (force simp: E_def)
  have ok: "json_ok v" if "map_of hs k = Some v" "json_ok (JObj hs)" for hs k v
    using that by (auto simp: list_all_iff dest!: map_of_SomeD)
  have "set (E fs) = set (E gs)"
  proof (intro set_eqI)
    fix x :: "jstring \<times> jstring"
    obtain k t where x: "x = (k, t)" by fastforce
    show "x \<in> set (E fs) \<longleftrightarrow> x \<in> set (E gs)"
    proof (cases "map_of fs k")
      case None
      moreover from this 6(1) have "map_of gs k = None" by (metis domIff)
      ultimately show ?thesis unfolding x mem [OF d(1)] mem [OF d(2)] by simp
    next
      case (Some v)
      then have "k \<in> dom (map_of fs)" by (rule domI)
      then have "k \<in> dom (map_of gs)" by (simp only: 6(1))
      then obtain w where w: "map_of gs k = Some w" by blast
      have "stableJsonValue v = stableJsonValue w" by (rule 6(3) [OF Some w ok [OF Some 6(4)] ok [OF w 6(5)]])
      with Some w show ?thesis unfolding x mem [OF d(1)] mem [OF d(2)] by simp
    qed
  qed
  moreover have "inj_on fst (set (E fs) \<union> set (E gs))"
    using calculation sorted_keys(2) [OF d(1)] by (simp add: distinct_map flip: fst_E)
  ultimately have "E fs = E gs"
    using sorted_keys d by (intro map_sorted_distinct_set_unique [of fst]) (simp_all add: fst_E)
  moreover have "map json_entry (sort_key fst hs) = map (\<lambda>(k, t). json_quote k @ 58 # t) (E hs)" for hs
    by (simp add: E_def json_entry_def)
  ultimately show ?case by (simp add: stable_obj)
qed simp_all

text \<open>What is written determines the value: each kind starts with characters of its own.\<close>

fun json_tag :: "json \<Rightarrow> nat" where
  "json_tag JNull = 0" | "json_tag (JBool b) = (if b then 1 else 2)" | "json_tag (JNum i) = 3"
| "json_tag (JStr s) = 4" | "json_tag (JArr vs) = 5" | "json_tag (JObj fs) = 6"

definition char_tag :: "jchar \<Rightarrow> nat" where
  "char_tag c = (if c = 110 then 0 else if c = 116 then 1 else if c = 102 then 2 else if c = 34 then 4
     else if c = 91 then 5 else if c = 123 then 6 else 3)"

lemma dec_hd: "48 \<le> unat (hd (dec n)) \<and> unat (hd (dec n)) \<le> 57"
  using dec_digits [of n] by (cases "dec n") (simp_all add: is_digit_unat)

lemma int_text_hd: "int_text i \<noteq> [] \<and> (hd (int_text i) = 45 \<or> is_digit (hd (int_text i)))"
  using dec_hd by (auto simp: int_text_def js_def is_digit_unat)

lemma stable_hd:
  "stableJsonValue v \<noteq> [] \<and> char_tag (hd (stableJsonValue v)) = json_tag v \<and>
   hd (stableJsonValue v) \<notin> {44, 93, 125}"
proof (cases v)
  case (JNum i)
  then show ?thesis using int_text_hd [of i] by (auto simp: char_tag_def is_digit_unat)
qed (auto simp: js_def char_tag_def json_quote_def stable_obj)

definition delim :: "jstring \<Rightarrow> bool" where
  "delim r \<longleftrightarrow> r = [] \<or> \<not> is_digit (hd r)"

lemma dec_prefix_inj:
  assumes "dec m @ r = dec n @ r'" "delim r" "delim r'"
  shows "m = n \<and> r = r'"
proof -
  have "takeWhile is_digit (dec k @ t) = dec k" if "delim t" for k t
    using that dec_digits [of k] by (cases t) (auto simp: delim_def list_all_iff takeWhile_append)
  with assms have "dec m = dec n" by metis
  with assms(1) show ?thesis by simp
qed

lemma int_text_inj:
  assumes "int_text i @ r = int_text j @ r'" "delim r" "delim r'"
  shows "i = j \<and> r = r'"
proof -
  have no: "js ''-'' @ a \<noteq> dec k @ b" for a b k
    using dec_hd [of k] by (cases "dec k") (auto simp: js_def)
  show ?thesis
  proof (cases "i < 0")
    case True
    with assms(1) no have "j < 0" by (auto simp: int_text_def split: if_splits)
    with True assms(1) have "dec (nat (- i)) @ r = dec (nat (- j)) @ r'" by (simp add: int_text_def)
    from dec_prefix_inj [OF this assms(2,3)] True \<open>j < 0\<close> show ?thesis by (auto simp: eq_nat_nat_iff)
  next
    case False
    with assms(1) no have "\<not> j < 0" by (auto simp: int_text_def split: if_splits) (metis no append_assoc)
    with False assms(1) have "dec (nat i) @ r = dec (nat j) @ r'" by (simp add: int_text_def)
    from dec_prefix_inj [OF this assms(2,3)] False \<open>\<not> j < 0\<close> show ?thesis by (auto simp: eq_nat_nat_iff)
  qed
qed

lemma commas_inj:
  assumes "\<And>x y r r'. x \<in> set xs \<Longrightarrow> y \<in> set ys \<Longrightarrow> f x @ r = f y @ r' \<Longrightarrow> delim r \<Longrightarrow> delim r' \<Longrightarrow> R x y \<and> r = r'"
    and "\<And>y. f y \<noteq> [] \<and> hd (f y) \<notin> {44, 93, 125}"
    and "e \<in> {93, 125}"
    and "commas (map f xs) @ e # r = commas (map f ys) @ e # r'"
  shows "list_all2 R xs ys \<and> r = r'"
  using assms(1,4)
proof (induction xs arbitrary: ys)
  case Nil
  show ?case
  proof (cases ys)
    case (Cons y ys')
    with Nil(2) assms(2) [of y] assms(3) have False
      by (cases ys'; cases "f y") auto
    then show ?thesis ..
  qed (use Nil in simp)
next
  case (Cons x xs)
  have e: "delim (e # t)" "delim (44 # t)" "e \<noteq> 44" for t using assms(3) by (auto simp: delim_def is_digit_unat)
  obtain y ys' where ys: "ys = y # ys'"
    using Cons.prems(2) assms(2) [of x] assms(3) by (cases ys; cases xs; cases "f x") auto
  define t where "t = (if xs = [] then e # r else 44 # commas (map f xs) @ e # r)"
  define t' where "t' = (if ys' = [] then e # r' else 44 # commas (map f ys') @ e # r')"
  have "commas (map f (x # xs)) @ e # r = f x @ t" unfolding t_def by (cases xs) simp_all
  moreover have "commas (map f (y # ys')) @ e # r' = f y @ t'" unfolding t'_def by (cases ys') simp_all
  ultimately have "f x @ t = f y @ t'" using Cons.prems(2) ys by simp
  with Cons.prems(1) [of x y t t'] e ys have R: "R x y" and t: "t = t'" by (auto simp: t_def t'_def)
  have "commas (map f xs) @ e # r = commas (map f ys') @ e # r'" "xs = [] \<longleftrightarrow> ys' = []"
    using t e(3) by (auto simp: t_def t'_def split: if_splits)
  then have "list_all2 R xs ys' \<and> r = r'" using Cons.prems(1) ys by (intro Cons.IH) auto
  with ys R show ?case by simp
qed

lemma entry_hd: "json_entry f \<noteq> [] \<and> hd (json_entry f) \<notin> {44, 93, 125}"
  by (simp add: json_entry_def json_quote_def)

lemma entries_same:
  assumes "distinct (map fst fs)" "distinct (map fst gs)"
    and "list_all2 (\<lambda>f g. fst f = fst g \<and> same_value (snd f) (snd g)) (sort_key fst fs) (sort_key fst gs)"
  shows "same_value (JObj fs) (JObj gs)"
proof (rule same_value.intros)
  let ?F = "sort_key fst fs" and ?G = "sort_key fst gs"
  have keys: "map fst ?F = map fst ?G"
    using assms(3) by (simp add: list_all2_conv_all_nth list_eq_iff_nth_eq)
  have "set (map fst ?F) = set (map fst fs)" "set (map fst ?G) = set (map fst gs)" by simp_all
  with keys show "dom (map_of fs) = dom (map_of gs)" unfolding dom_map_of_conv_image_fst by simp
  fix k v w assume "map_of fs k = Some v" "map_of gs k = Some w"
  then have v: "(k, v) \<in> set ?F" and w: "(k, w) \<in> set ?G" by (simp_all add: map_of_SomeD)
  from v obtain n where n: "n < length ?F" "?F ! n = (k, v)" unfolding in_set_conv_nth by blast
  with assms(3) have g: "fst (?G ! n) = k" "same_value v (snd (?G ! n))" "n < length ?G"
    by (auto simp: list_all2_conv_all_nth)
  from g(3) have "?G ! n \<in> set ?G" by (rule nth_mem)
  with g(1) have "(k, snd (?G ! n)) \<in> set ?G" by (metis prod.collapse)
  with w sorted_keys(2) [OF assms(2)] have "snd (?G ! n) = w" by (metis eq_key_imp_eq_value)
  with g(2) show "same_value v w" by simp
qed

lemma tag_eq:
  assumes "stableJsonValue v @ r = stableJsonValue w @ r'"
  shows "json_tag v = json_tag w"
proof -
  have ne: "stableJsonValue v \<noteq> []" "stableJsonValue w \<noteq> []" using stable_hd by blast+
  have "hd (stableJsonValue v) = hd (stableJsonValue v @ r)" by (rule hd_append2 [OF ne(1), symmetric])
  also have "\<dots> = hd (stableJsonValue w @ r')" by (simp only: assms)
  also have "\<dots> = hd (stableJsonValue w)" by (rule hd_append2 [OF ne(2)])
  finally have "hd (stableJsonValue v) = hd (stableJsonValue w)" .
  with stable_hd [of v] stable_hd [of w] show ?thesis by simp
qed

lemma stable_inj:
  "json_ok v \<Longrightarrow> json_ok w \<Longrightarrow> stableJsonValue v @ r = stableJsonValue w @ r' \<Longrightarrow> delim r \<Longrightarrow> delim r' \<Longrightarrow>
   same_value v w \<and> r = r'"
proof (induction v arbitrary: w r r' rule: stableJsonValue.induct)
  case (1 w)
  from tag_eq [OF 1(3)] have "json_tag w = 0" by simp
  then have "w = JNull" by (cases w) (simp_all split: if_splits)
  with 1(3) show ?case by (simp add: same_value.intros)
next
  case (2 b w)
  from tag_eq [OF 2(3)] have "json_tag w = json_tag (JBool b)" by simp
  then have "w = JBool b" by (cases w) (simp_all split: if_splits)
  with 2(3) show ?case by (simp add: same_value.intros)
next
  case (3 i w)
  from tag_eq [OF 3(3)] have "json_tag w = json_tag (JNum i)" by simp
  then obtain j where "w = JNum j" by (cases w) (simp_all split: if_splits)
  with 3 int_text_inj [of i r j r'] show ?case by (auto intro: same_value.intros)
next
  case (4 s w)
  from tag_eq [OF 4(3)] have "json_tag w = json_tag (JStr s)" by simp
  then obtain t where "w = JStr t" by (cases w) (simp_all split: if_splits)
  with 4 quote_inj [of s r t r'] show ?case by (auto intro: same_value.intros)
next
  case (5 vs w)
  from tag_eq [OF 5(4)] have "json_tag w = json_tag (JArr vs)" by simp
  then obtain ws where w: "w = JArr ws" by (cases w) (simp_all split: if_splits)
  have "list_all2 same_value vs ws \<and> r = r'"
  proof (rule commas_inj [where f = stableJsonValue and e = 93])
    fix x y t t' assume "x \<in> set vs" "y \<in> set ws" "stableJsonValue x @ t = stableJsonValue y @ t'" "delim t" "delim t'"
    moreover from this 5(2,3) w have "json_ok x" "json_ok y" by (simp_all add: list_all_iff)
    ultimately show "same_value x y \<and> t = t'" using 5(1) by blast
  qed (use 5(4) w stable_hd in simp_all)
  with w show ?case by (auto intro: same_value.intros)
next
  case (6 fs w)
  from tag_eq [OF 6(4)] have "json_tag w = json_tag (JObj fs)" by simp
  then obtain gs where w: "w = JObj gs" by (cases w) (simp_all split: if_splits)
  let ?R = "\<lambda>f g. fst f = fst g \<and> same_value (snd f) (snd g)"
  have "list_all2 ?R (sort_key fst fs) (sort_key fst gs) \<and> r = r'"
  proof (rule commas_inj [where f = json_entry and e = 125])
    fix x y t t' assume x: "x \<in> set (sort_key fst fs)" and y: "y \<in> set (sort_key fst gs)"
      and eq: "json_entry x @ t = json_entry y @ t'" and d: "delim t" "delim t'"
    from eq have "json_quote (fst x) @ 58 # stableJsonValue (snd x) @ t = json_quote (fst y) @ 58 # stableJsonValue (snd y) @ t'"
      by (simp only: json_entry_def append_assoc append_Cons)
    from quote_inj [OF this] have k: "fst x = fst y" and rest: "stableJsonValue (snd x) @ t = stableJsonValue (snd y) @ t'"
      by simp_all
    from x y 6(2,3) w have "json_ok (snd x)" "json_ok (snd y)" by (auto simp: list_all_iff)
    moreover from x have "(fst x, snd x) \<in> set (sort_key fst fs)" by simp
    ultimately have "same_value (snd x) (snd y) \<and> t = t'" using 6(1) rest d by blast
    with k show "?R x y \<and> t = t'" by simp
  qed (use 6(4) w entry_hd in \<open>simp_all add: stable_obj\<close>)
  with 6(2,3) w show ?case by (auto intro: entries_same)
qed

text \<open>
  Two calls of a tool have the same approval key exactly when their arguments are the same
  up to the order of object keys, at every depth: reordering never asks for a second approval,
  and no two different arguments share one, whatever quotes, escapes, surrogates or nesting they
  contain, unless the hash collides on their serializations.
\<close>

theorem approval_key_identifies_arguments:
  assumes "json_ok (JObj a)" "json_ok (JObj b)"
    and "sha256 (stableJsonValue (JObj a)) = sha256 (stableJsonValue (JObj b)) \<Longrightarrow>
         stableJsonValue (JObj a) = stableJsonValue (JObj b)"
  shows "approvalEffectKey sha256 runId toolName a = approvalEffectKey sha256 runId toolName b \<longleftrightarrow>
         same_value (JObj a) (JObj b)"
proof -
  have "approvalEffectKey sha256 runId toolName a = approvalEffectKey sha256 runId toolName b \<longleftrightarrow>
      stableJsonValue (JObj a) = stableJsonValue (JObj b)"
    using assms(3) by (auto simp: approvalEffectKey_def)
  moreover have "stableJsonValue (JObj a) = stableJsonValue (JObj b) \<Longrightarrow> same_value (JObj a) (JObj b)"
    using stable_inj [OF assms(1,2), of "[]" "[]"] by (simp add: delim_def)
  ultimately show ?thesis using same_value_stable assms(1,2) by blast
qed

lemma approval_key_identifies_arguments_witness:
  "approvalEffectKey id (js ''r'') (js ''t'') [(js ''a'', JNum 1), (js ''b'', JBool True)] =
   approvalEffectKey id (js ''r'') (js ''t'') [(js ''b'', JBool True), (js ''a'', JNum 1)]"
proof -
  have "same_value (JObj [(js ''a'', JNum 1), (js ''b'', JBool True)]) (JObj [(js ''b'', JBool True), (js ''a'', JNum 1)])"
    by (rule same_value.intros) (auto split: if_splits intro: same_value.intros)
  then show ?thesis by (subst approval_key_identifies_arguments) simp_all
qed

end
