(* ===== verification/BotDelivery.thy ===== *)
theory BotDelivery
  imports BotDirectory Example
begin

text \<open>
  Messages between bots: \<open>packages/adapters/src/bot-messages.ts\<close>. A running run delivers a
  text to another bot's chat: the message, its echo in the sender's chat, the task and run
  that wake the recipient and both events are one transaction. The theorems show that a
  delivery with a key happens once, however often and however concurrently the tool call is
  executed, and that a chain of deliveries, each made by the run the previous one woke, ends.
\<close>

subsection \<open>The hop a run sits at\<close>

fun received_hop :: "message_block list \<Rightarrow> int" where
  "received_hop [] = 0"
| "received_hop (b # bs) =
     (case b of BBotMessageReceived _ _ _ (Some hop) \<Rightarrow> int hop | _ \<Rightarrow> received_hop bs)"

definition currentBotMessageHop :: "db \<Rightarrow> id option \<Rightarrow> int" where
  "currentBotMessageHop d sourceMessageId =
     (if \<not> truthy sourceMessageId then 0
      else case List.find (\<lambda>m. m_id m = the sourceMessageId) (db_messages d) of
             None \<Rightarrow> 0
           | Some source \<Rightarrow> received_hop (m_blocks source))"

subsection \<open>Sending\<close>

record message_bot_run =
  mb_runId :: id
  mb_workspaceId :: id
  mb_threadId :: id
  mb_botId :: id
  mb_userId :: id
  mb_sourceMessageId :: "id option"

record message_bot_input =
  mi_bot_id :: "jstring option"
  mi_confirm_name :: "jstring option"
  mi_message :: jstring
  mi_deliveryKey :: "jstring option"

record candidate = bot_ref +
  ca_threadId :: "id option"

text \<open>What the call works out before its transaction.\<close>

record delivery_plan =
  dp_target :: candidate
  dp_threadId :: id
  dp_message :: jstring
  dp_hop :: int

datatype message_bot_answer =
    MbError jstring
  | MbReplayed id jstring jstring jstring
  | MbSent id jstring jstring jstring

definition bot_candidates :: "message_bot_run \<Rightarrow> db \<Rightarrow> candidate list" where
  "bot_candidates run d =
     map (\<lambda>b. \<lparr>ba_id = b_id b, ba_name = b_name b, ca_threadId = map_option t_id (bot_thread (b_id b) d)\<rparr>)
       (filter (\<lambda>b. b_workspaceId b = mb_workspaceId run \<and> b_userId b = mb_userId run \<and>
                    b_archivedAt b = None) (db_bots d))"

definition plan_delivery ::
  "(jstring \<Rightarrow> jstring) \<Rightarrow> message_bot_run \<Rightarrow> bot_ref \<Rightarrow> message_bot_input \<Rightarrow> db \<Rightarrow> jstring + delivery_plan" where
  "plan_delivery lc run sender input d =
     (let message = clampBotMessage (mi_message input) in
      if message = [] then Inl (js ''message is required'')
      else let hop = nextBotMessageHop (Some (currentBotMessageHop d (mb_sourceMessageId run))) in
      if botMessageHopExhausted hop
      then Inl (js ''bot-to-bot message limit reached for this chain; report back to the user instead of messaging another bot'')
      else case resolveBotAddress lc (bot_candidates run d)
                  \<lparr>ai_botId = mi_bot_id input, ai_name = mi_confirm_name input\<rparr> of
             None \<Rightarrow> Inl (js ''no bot found with that id or name'')
           | Some target \<Rightarrow>
               if ba_id target = ba_id sender then Inl (js ''a bot cannot message itself'')
               else case ca_threadId target of
                      None \<Rightarrow> Inl (ba_name target @ js '' has no chat to deliver to'')
                    | Some tid \<Rightarrow> Inr \<lparr>dp_target = target, dp_threadId = tid,
                                        dp_message = message, dp_hop = hop\<rparr>)"

definition delivery_key :: "message_bot_input \<Rightarrow> jstring option" where
  "delivery_key input =
     (if truthy (mi_deliveryKey input) then Some (js ''bot-message:'' @ the (mi_deliveryKey input)) else None)"

definition delivered_already :: "jstring option \<Rightarrow> id \<Rightarrow> db \<Rightarrow> bool" where
  "delivered_already key tid d \<longleftrightarrow> key \<noteq> None \<and>
     (\<exists>m \<in> set (db_messages d). m_threadId m = tid \<and> m_clientNonce m = key)"

definition sender_running :: "message_bot_run \<Rightarrow> db \<Rightarrow> bool" where
  "sender_running run d \<longleftrightarrow> (\<exists>r \<in> set (db_runs d). r_id r = mb_runId run \<and>
     r_workspaceId r = mb_workspaceId run \<and> r_threadId r = mb_threadId run \<and>
     r_botId r = mb_botId run \<and> r_userId r = mb_userId run \<and> r_status r = Running)"

definition still_addressable :: "message_bot_run \<Rightarrow> id \<Rightarrow> db \<Rightarrow> bool" where
  "still_addressable run target d \<longleftrightarrow> (\<exists>b \<in> set (db_bots d). b_id b = target \<and>
     b_workspaceId b = mb_workspaceId run \<and> b_userId b = mb_userId run \<and> b_archivedAt b = None)"

record delivery_ids =
  di_inboundId :: id
  di_outboundId :: id
  di_taskId :: id
  di_runId :: id
  di_inboundEventId :: id
  di_outboundEventId :: id

record delivered =
  dl_runId :: id
  dl_targetEventSeq :: int
  dl_senderEventSeq :: int

datatype delivery_outcome = DeliveryFailed jstring | DeliveryReplayed | Delivered delivered

definition inbound_block :: "bot_ref \<Rightarrow> delivery_plan \<Rightarrow> message_block" where
  "inbound_block sender p =
     BBotMessageReceived (ba_id sender) (ba_name sender) (dp_message p) (Some (nat (dp_hop p)))"

definition outbound_block :: "delivery_plan \<Rightarrow> message_block" where
  "outbound_block p = BBotMessageSent (ba_id (dp_target p)) (ba_name (dp_target p)) (dp_message p)"

text \<open>The two messages of a delivery.\<close>

definition delivery_messages ::
  "delivery_ids \<Rightarrow> time \<Rightarrow> message_bot_run \<Rightarrow> bot_ref \<Rightarrow> delivery_plan \<Rightarrow> jstring option \<Rightarrow>
   (message_row \<times> message_row) dbtx" where
  "delivery_messages ids now run sender p key =
     tx_bind (createThreadMessageInTransaction (di_inboundId ids) now
                \<lparr>cm_threadId = dp_threadId p, cm_role = RUser, cm_blocks = [inbound_block sender p],
                 cm_botId = None, cm_replyToMessageId = None, cm_runId = None, cm_clientNonce = key\<rparr>)
       (\<lambda>inbound.
     tx_bind (createThreadMessageInTransaction (di_outboundId ids) now
                \<lparr>cm_threadId = mb_threadId run, cm_role = RBot, cm_blocks = [outbound_block p],
                 cm_botId = Some (mb_botId run), cm_replyToMessageId = None,
                 cm_runId = Some (mb_runId run), cm_clientNonce = None\<rparr>)
       (\<lambda>outbound. tx_return (inbound, outbound)))"

text \<open>The task and the run that wake the recipient, linked to the message.\<close>

definition delivery_wake ::
  "delivery_ids \<Rightarrow> time \<Rightarrow> message_bot_run \<Rightarrow> bot_ref \<Rightarrow> delivery_plan \<Rightarrow> message_row \<Rightarrow> run_row dbtx" where
  "delivery_wake ids now run sender p inbound =
     tx_bind (create_task (new_task (di_taskId ids) (mb_workspaceId run) (ba_id (dp_target p))
                (dp_threadId p) (mb_userId run) (buildBotMessageWakePrompt sender (dp_message p))))
       (\<lambda>task.
     tx_bind (create_run ((new_run (di_runId ids) now (mb_workspaceId run) (ba_id (dp_target p))
                (dp_threadId p) (k_id task) (mb_userId run) TrigBotMessage)
                \<lparr>r_sourceMessageId := Some (m_id inbound)\<rparr>))
       (\<lambda>nextRun.
     tx_then (update_message (\<lambda>m. m_id m = m_id inbound) (\<lambda>m. m\<lparr>m_runId := Some (r_id nextRun)\<rparr>))
       (tx_return nextRun)))"

definition delivery_events ::
  "delivery_ids \<Rightarrow> time \<Rightarrow> message_bot_run \<Rightarrow> bot_ref \<Rightarrow> delivery_plan \<Rightarrow> message_row \<Rightarrow> message_row \<Rightarrow>
   run_row \<Rightarrow> delivered dbtx" where
  "delivery_events ids now run sender p inbound outbound nextRun =
     tx_bind (appendEventInTransaction (di_inboundEventId ids) now
                \<lparr>ae_workspaceId = mb_workspaceId run, ae_threadId = dp_threadId p,
                 ae_botId = ba_id (dp_target p), ae_type = ThreadMessageCreated,
                 ae_payload = message_payload (m_id inbound) RUser [inbound_block sender p],
                 ae_runId = Some (r_id nextRun)\<rparr>)
       (\<lambda>inboundEvent.
     tx_bind (appendEventInTransaction (di_outboundEventId ids) now
                \<lparr>ae_workspaceId = mb_workspaceId run, ae_threadId = mb_threadId run,
                 ae_botId = mb_botId run, ae_type = ThreadMessageCreated,
                 ae_payload = message_payload (m_id outbound) RBot [outbound_block p],
                 ae_runId = Some (mb_runId run)\<rparr>)
       (\<lambda>outboundEvent.
     tx_return \<lparr>dl_runId = r_id nextRun, dl_targetEventSeq = e_seq inboundEvent,
                dl_senderEventSeq = e_seq outboundEvent\<rparr>))"

text \<open>
  \<open>seen\<close> is the database the first look-up of the transaction reads: a concurrent delivery
  with the same key may commit between it and the insert.
\<close>

definition delivery_tx ::
  "delivery_ids \<Rightarrow> time \<Rightarrow> message_bot_run \<Rightarrow> bot_ref \<Rightarrow> delivery_plan \<Rightarrow> jstring option \<Rightarrow> db \<Rightarrow>
   delivery_outcome dbtx" where
  "delivery_tx ids now run sender p key seen =
     (if delivered_already key (dp_threadId p) seen then tx_return DeliveryReplayed
      else tx_bind (tx_get (sender_running run)) (\<lambda>running.
        if \<not> running then tx_return (DeliveryFailed (js ''source run is no longer active''))
        else tx_bind (tx_get (still_addressable run (ba_id (dp_target p)))) (\<lambda>addressable.
        if \<not> addressable
        then tx_return (DeliveryFailed (ba_name (dp_target p) @ js '' is no longer available''))
        else tx_bind (delivery_messages ids now run sender p key) (\<lambda>(inbound, outbound).
             tx_bind (delivery_wake ids now run sender p inbound) (\<lambda>nextRun.
             tx_bind (delivery_events ids now run sender p inbound outbound nextRun) (\<lambda>dl.
             tx_return (Delivered dl)))))))"

definition replayed_answer :: "delivery_plan \<Rightarrow> message_bot_answer" where
  "replayed_answer p = MbReplayed (ba_id (dp_target p)) (ba_name (dp_target p)) (dp_message p)
     (js ''Already sent to '' @ ba_name (dp_target p) @ js '' in this turn; it was not sent again.'')"

definition sent_answer :: "delivery_plan \<Rightarrow> message_bot_answer" where
  "sent_answer p = MbSent (ba_id (dp_target p)) (ba_name (dp_target p)) (dp_message p)
     (js ''Sent to '' @ ba_name (dp_target p) @ js ''. Delivery is async; a reply wakes you later as a new message. Continue independent work; send another update later only if it adds something new.'')"

text \<open>
  The whole call: the answer of the tool, and for a delivery the sequence numbers both chats
  are notified of and the run that is enqueued; a failure of those is only logged. \<open>before\<close> is
  the database of the reads ahead of the transaction.
\<close>

definition messageBot ::
  "(jstring \<Rightarrow> jstring) \<Rightarrow> delivery_ids \<Rightarrow> time \<Rightarrow> message_bot_run \<Rightarrow> bot_ref \<Rightarrow> message_bot_input \<Rightarrow>
   db \<Rightarrow> db \<Rightarrow> db \<Rightarrow> (db_error + (message_bot_answer \<times> delivered option)) \<times> db" where
  "messageBot lc ids now run sender input before seen d =
     (case plan_delivery lc run sender input before of
        Inl err \<Rightarrow> (Inr (MbError err, None), d)
      | Inr p \<Rightarrow>
          (case run_transaction (delivery_tx ids now run sender p (delivery_key input) seen) d of
             (Inl err, d') \<Rightarrow>
               if err = UniqueViolation \<and> delivered_already (delivery_key input) (dp_threadId p) d'
               then (Inr (replayed_answer p, None), d') else (Inl err, d')
           | (Inr DeliveryReplayed, d') \<Rightarrow> (Inr (replayed_answer p, None), d')
           | (Inr (DeliveryFailed err), d') \<Rightarrow> (Inr (MbError err, None), d')
           | (Inr (Delivered dl), d') \<Rightarrow> (Inr (sent_answer p, Some dl), d')))"

subsection \<open>What a delivery commits\<close>

lemma delivery_messages_run:
  assumes "delivery_messages ids now run sender p key d = Inr ((inbound, outbound), d')"
  shows "db_messages d' = db_messages d @ [inbound, outbound]" and "db_runs d' = db_runs d"
    and "m_id inbound = di_inboundId ids" and "m_threadId inbound = dp_threadId p"
    and "m_clientNonce inbound = key" and "m_blocks inbound = [inbound_block sender p]"
    and "\<forall>q \<in> set (db_messages d). m_id q \<noteq> m_id inbound" and "m_id outbound \<noteq> m_id inbound"
  using assms unfolding delivery_messages_def
  by (auto elim!: createMessage_run)

lemma delivery_wake_run:
  assumes "delivery_wake ids now run sender p inbound d = Inr (nextRun, d')"
  shows "db_messages d' = update_where (\<lambda>m. m_id m = m_id inbound)
             (\<lambda>m. m\<lparr>m_runId := Some (r_id nextRun)\<rparr>) (db_messages d)"
    and "db_runs d' = db_runs d @ [nextRun]" and "r_id nextRun = di_runId ids"
    and "r_sourceMessageId nextRun = Some (m_id inbound)" and "r_status nextRun = Queued"
    and "\<forall>q \<in> set (db_runs d). r_id q \<noteq> r_id nextRun"
  using assms unfolding delivery_wake_def
  by (auto simp: create_task_def create_run_def update_message_def new_run_def split: if_splits)

lemma delivery_events_run:
  assumes "delivery_events ids now run sender p inbound outbound nextRun d = Inr (dl, d')"
  shows "db_messages d' = db_messages d" and "db_runs d' = db_runs d" and "dl_runId dl = r_id nextRun"
  using assms unfolding delivery_events_def by (auto elim!: appendEvent_run)

lemma delivered_run:
  assumes "delivery_tx ids now run sender p key seen d = Inr (Delivered dl, d')"
  obtains inbound outbound nextRun
  where "db_messages d' = update_where (\<lambda>m. m_id m = m_id inbound)
            (\<lambda>m. m\<lparr>m_runId := Some (r_id nextRun)\<rparr>) (db_messages d @ [inbound, outbound])"
    and "db_runs d' = db_runs d @ [nextRun]"
    and "m_threadId inbound = dp_threadId p" and "m_clientNonce inbound = key"
    and "m_blocks inbound = [inbound_block sender p]"
    and "\<forall>q \<in> set (db_messages d). m_id q \<noteq> m_id inbound"
    and "m_id inbound = di_inboundId ids"
    and "\<forall>q \<in> set (db_runs d). r_id q \<noteq> r_id nextRun" and "r_id nextRun = dl_runId dl"
    and "r_sourceMessageId nextRun = Some (m_id inbound)" and "r_status nextRun = Queued"
    and "sender_running run d" and "still_addressable run (ba_id (dp_target p)) d"
proof -
  from assms obtain inbound outbound nextRun d1 d2
    where running: "sender_running run d" "still_addressable run (ba_id (dp_target p)) d"
    and m: "delivery_messages ids now run sender p key d = Inr ((inbound, outbound), d1)"
    and w: "delivery_wake ids now run sender p inbound d1 = Inr (nextRun, d2)"
    and e: "delivery_events ids now run sender p inbound outbound nextRun d2 = Inr (dl, d')"
    by (auto simp: delivery_tx_def split: if_splits prod.splits)
  note M = delivery_messages_run [OF m] and W = delivery_wake_run [OF w] and E = delivery_events_run [OF e]
  show thesis
    by (rule that [of inbound nextRun outbound]) (use M W E running in simp_all)
qed

lemma delivered_recorded:
  assumes "delivery_tx ids now run sender p (Some key) seen d = Inr (Delivered dl, d')"
  shows "delivered_already (Some key) (dp_threadId p) d'"
  using assms
  by (elim delivered_run) (auto simp: delivered_already_def)

lemma delivery_again_fails:
  assumes "delivered_already key (dp_threadId p) d"
    and "delivery_tx ids now run sender p key seen d = Inr (out, d')"
  shows "d' = d \<and> (\<forall>dl. out \<noteq> Delivered dl)"
proof (cases "delivered_already key (dp_threadId p) seen \<or> \<not> sender_running run d \<or>
    \<not> still_addressable run (ba_id (dp_target p)) d")
  case True
  then show ?thesis using assms(2) by (auto simp: delivery_tx_def split: if_splits)
next
  case False
  with assms(2) obtain im where
    "createThreadMessageInTransaction (di_inboundId ids) now
       \<lparr>cm_threadId = dp_threadId p, cm_role = RUser, cm_blocks = [inbound_block sender p],
        cm_botId = None, cm_replyToMessageId = None, cm_runId = None, cm_clientNonce = key\<rparr> d = Inr im"
    by (auto simp: delivery_tx_def delivery_messages_def split: if_splits)
  with assms(1) show ?thesis
    by (cases im) (auto elim!: createMessage_run simp: delivered_already_def)
qed

lemma messageBot_delivered_already:
  assumes "plan_delivery lc run sender input before = Inr p"
    and "delivered_already (delivery_key input) (dp_threadId p) d"
  shows "snd (messageBot lc ids now run sender input before seen d) = d"
  using assms delivery_again_fails [OF assms(2)]
  by (auto simp: messageBot_def split: sum.splits delivery_outcome.splits)

lemma messageBot_sent:
  assumes "messageBot lc ids now run sender input before seen d = (Inr (ans, Some dl), d')"
  obtains p where "plan_delivery lc run sender input before = Inr p"
    and "delivery_tx ids now run sender p (delivery_key input) seen d = Inr (Delivered dl, d')"
  using assms
  by (auto simp: messageBot_def split: sum.splits delivery_outcome.splits if_splits)


subsection \<open>Chains of deliveries\<close>

text \<open>The hop of a run, from the message that woke it.\<close>

definition run_hop :: "db \<Rightarrow> id \<Rightarrow> int" where
  "run_hop d rid = (case find_run rid d of
     None \<Rightarrow> 0 | Some r \<Rightarrow> currentBotMessageHop d (r_sourceMessageId r))"

text \<open>
  \<open>bot_chain n rid d\<close>: the run \<open>rid\<close> was woken by the last of \<open>n\<close> deliveries, each made by
  the run the previous one had woken. Between deliveries the database may change in any way
  that leaves the message that woke the run as it is. The identifiers the client generates
  are not empty.
\<close>

inductive bot_chain :: "nat \<Rightarrow> id \<Rightarrow> db \<Rightarrow> bool" where
  start: "bot_chain 0 rid d"
| other: "bot_chain n rid d \<Longrightarrow> run_hop d' rid = run_hop d rid \<Longrightarrow> bot_chain n rid d'"
| deliver: "bot_chain n (mb_runId run) d \<Longrightarrow>
    currentBotMessageHop before (mb_sourceMessageId run) = run_hop d (mb_runId run) \<Longrightarrow>
    di_inboundId ids \<noteq> [] \<Longrightarrow>
    messageBot lc ids now run sender input before seen d = (Inr (ans, Some dl), d') \<Longrightarrow>
    bot_chain (Suc n) (dl_runId dl) d'"

lemma received_hop_nonneg: "received_hop bs \<ge> 0"
  by (induction bs) (auto split: message_block.splits option.splits)

lemma currentBotMessageHop_nonneg: "currentBotMessageHop d src \<ge> 0"
  by (simp add: currentBotMessageHop_def received_hop_nonneg split: option.splits)

lemma run_hop_nonneg: "run_hop d rid \<ge> 0"
  by (simp add: run_hop_def currentBotMessageHop_nonneg split: option.splits)

lemma plan_hop:
  assumes "plan_delivery lc run sender input before = Inr p"
  shows "dp_hop p = currentBotMessageHop before (mb_sourceMessageId run) + 1" and "dp_hop p \<le> 6"
  using assms currentBotMessageHop_nonneg [of before "mb_sourceMessageId run"]
  by (auto simp: plan_delivery_def Let_def nextBotMessageHop_def botMessageHopExhausted_def
      BOT_MESSAGE_MAX_HOPS_def split: if_splits option.splits)

lemma find_append_new: "\<forall>q \<in> set xs. \<not> P q \<Longrightarrow> List.find P (xs @ ys) = List.find P ys"
  by (induction xs) auto

lemma delivered_hop:
  assumes "delivery_tx ids now run sender p key seen d = Inr (Delivered dl, d')"
    and "dp_hop p \<ge> 0" and "di_inboundId ids \<noteq> []"
  shows "run_hop d' (dl_runId dl) = dp_hop p"
  using assms(1)
proof (elim delivered_run)
  fix inbound outbound nextRun
  assume ms: "db_messages d' = update_where (\<lambda>m. m_id m = m_id inbound)
            (\<lambda>m. m\<lparr>m_runId := Some (r_id nextRun)\<rparr>) (db_messages d @ [inbound, outbound])"
    and rs: "db_runs d' = db_runs d @ [nextRun]"
    and blocks: "m_blocks inbound = [inbound_block sender p]"
    and new: "\<forall>q \<in> set (db_messages d). m_id q \<noteq> m_id inbound"
    and iid: "m_id inbound = di_inboundId ids"
    and newr: "\<forall>q \<in> set (db_runs d). r_id q \<noteq> r_id nextRun" and rid: "r_id nextRun = dl_runId dl"
    and src: "r_sourceMessageId nextRun = Some (m_id inbound)"
  have "find_run (dl_runId dl) d' = Some nextRun"
    using newr rid by (simp add: find_run_def rs find_append_new)
  moreover have "List.find (\<lambda>m. m_id m = m_id inbound) (db_messages d') =
      Some (inbound\<lparr>m_runId := Some (r_id nextRun)\<rparr>)"
  proof -
    have "\<forall>q \<in> set (update_where (\<lambda>m. m_id m = m_id inbound)
        (\<lambda>m. m\<lparr>m_runId := Some (r_id nextRun)\<rparr>) (db_messages d)). m_id q \<noteq> m_id inbound"
      using new by (auto simp: set_update_where)
    then show ?thesis by (simp add: ms find_append_new)
  qed
  ultimately show ?thesis
    using src iid assms(2,3) blocks
    by (simp add: run_hop_def currentBotMessageHop_def inbound_block_def)
qed

lemma bot_chain_hop: "bot_chain n rid d \<Longrightarrow> int n \<le> run_hop d rid \<and> n \<le> 6"
proof (induction rule: bot_chain.induct)
  case (start rid d)
  then show ?case by (simp add: run_hop_nonneg)
next
  case (deliver n run d before ids lc now sender input seen ans dl d')
  from deliver.hyps(4) obtain p where p: "plan_delivery lc run sender input before = Inr p"
    and tx: "delivery_tx ids now run sender p (delivery_key input) seen d = Inr (Delivered dl, d')"
    by (rule messageBot_sent)
  have "dp_hop p = run_hop d (mb_runId run) + 1" "dp_hop p \<le> 6"
    using plan_hop [OF p] deliver.hyps(2) by simp_all
  moreover have "run_hop d' (dl_runId dl) = dp_hop p"
    using calculation(1) run_hop_nonneg [of d "mb_runId run"]
    by (intro delivered_hop [OF tx]) (simp_all add: deliver.hyps(3))
  ultimately show ?case using deliver.IH by simp
qed simp


subsection \<open>A delivery on a small database\<close>

text \<open>A second bot with a chat of its own.\<close>

definition bot2 :: id where "bot2 = js ''b2''"
definition th2 :: id where "th2 = js ''t2''"

definition two_bots :: db where
  "two_bots = example_db\<lparr>
     db_threads := db_threads example_db @
       [\<lparr>t_id = th2, t_workspaceId = ws1, t_botId = Some bot2, t_groupId = None, t_userId = user1,
         t_nextEventSeq = 0, t_nextMessageSeq = 0, t_historyCompactedUpToSeq = None,
         t_historyCompactionSummary = None, t_historyCompactionGeneration = 0, t_unread = False\<rparr>],
     db_bots := db_bots example_db @
       [\<lparr>b_id = bot2, b_workspaceId = ws1, b_userId = user1, b_name = js ''C'', b_title = [], b_description = [], b_color = [], b_computerId = None,
         b_computerSwitching = False, b_archivedAt = None, b_updatedAt = 1\<rparr>]\<rparr>"

definition sample_run :: message_bot_run where
  "sample_run = \<lparr>mb_runId = run_live, mb_workspaceId = ws1, mb_threadId = th1, mb_botId = bot1,
     mb_userId = user1, mb_sourceMessageId = None\<rparr>"

definition sample_sender :: bot_ref where
  "sample_sender = \<lparr>ba_id = bot1, ba_name = js ''B''\<rparr>"

definition sample_input :: message_bot_input where
  "sample_input = \<lparr>mi_bot_id = Some bot2, mi_confirm_name = None, mi_message = js ''hi'',
     mi_deliveryKey = Some (js ''k'')\<rparr>"

definition sample_ids :: delivery_ids where
  "sample_ids = \<lparr>di_inboundId = js ''n1'', di_outboundId = js ''n2'', di_taskId = js ''k9'',
     di_runId = js ''r9'', di_inboundEventId = js ''e8'', di_outboundEventId = js ''e9''\<rparr>"

definition sample_plan :: delivery_plan where
  "sample_plan = \<lparr>dp_target = \<lparr>ba_id = bot2, ba_name = js ''C'', ca_threadId = Some th2\<rparr>,
     dp_threadId = th2, dp_message = js ''hi'', dp_hop = 1\<rparr>"

lemmas sample_defs = sample_run_def sample_sender_def sample_input_def sample_ids_def sample_plan_def
  bot2_def th2_def two_bots_def

lemma sample_planned:
  "plan_delivery lc sample_run sample_sender sample_input two_bots = Inr sample_plan"
  by (simp add: plan_delivery_def sample_defs ids example_defs clampBotMessage_def Let_def trim_def
      trim_start_def trim_end_def js_def is_ws_def BOT_MESSAGE_MAX_LENGTH_def nextBotMessageHop_def
      currentBotMessageHop_def botMessageHopExhausted_def BOT_MESSAGE_MAX_HOPS_def
      resolveBotAddress_def bot_candidates_def bot_thread_def)

lemma sample_delivered:
  "\<exists>dl d'. delivery_tx sample_ids 20 sample_run sample_sender sample_plan (Some (js ''bot-message:k''))
     two_bots two_bots = Inr (Delivered dl, d')"
  by (simp del: tx_bind_run tx_then_run tx_get_run tx_return_run
      add: tx_eval delivery_tx_def delivered_already_def sender_running_def still_addressable_def
        delivery_messages_def delivery_wake_def delivery_events_def
        createThreadMessageInTransaction_def appendEventInTransaction_def update_thread_def
        create_message_def create_event_def create_task_def create_run_def update_message_def
        assertRunCanWriteHistory_def find_run_def count_where_def sample_defs example_defs ids)

lemma sample_key: "delivery_key sample_input = Some (js ''bot-message:k'')"
  by (simp add: delivery_key_def sample_input_def js_append)

lemma sample_sent:
  "\<exists>dl d1. messageBot id sample_ids 20 sample_run sample_sender sample_input two_bots two_bots two_bots =
     (Inr (sent_answer sample_plan, Some dl), d1)"
proof -
  obtain dl d' where "delivery_tx sample_ids 20 sample_run sample_sender sample_plan
      (Some (js ''bot-message:k'')) two_bots two_bots = Inr (Delivered dl, d')"
    using sample_delivered by blast
  then show ?thesis by (simp add: messageBot_def sample_planned sample_key)
qed



end
