(* ===== verification/MessagePages.thy ===== *)
theory MessagePages
  imports LiveMessages Example
begin

text \<open>
  Paging through a thread. The server side is \<open>apps/api/src/thread-message-pages.ts\<close>: a page
  of the newest messages below a cursor, or of the messages around one, and the loop that
  loads all pages. The client side is \<open>packages/core/src/message-pages.ts\<close>: the history a
  client has loaded, extended at its old end by a page or refreshed at its new end. The
  abstract view is that a history is a final segment of the thread's messages, the messages
  from its cursor on; the theorems say which operations keep it so. The text of a creation
  time stands for the instant.
\<close>

subsection \<open>The pages of the server\<close>

record thread_history =
  hi_threadId :: id
  hi_messages :: "thread_message list"
  hi_olderCursor :: "int option"

record around =
  ar_messageId :: "id option"
  ar_seq :: "int option"

definition toThreadMessage :: "message_row \<Rightarrow> thread_message" where
  "toThreadMessage row =
     \<lparr>tm_id = m_id row, tm_threadId = m_threadId row, tm_seq = m_seq row, tm_role = m_role row,
      tm_blocks = m_blocks row, tm_botId = m_botId row, tm_replyToMessageId = m_replyToMessageId row,
      tm_runId = m_runId row, tm_createdAt = m_createdAt row\<rparr>"

definition thread_rows :: "id \<Rightarrow> (message_row \<Rightarrow> bool) \<Rightarrow> db \<Rightarrow> message_row list" where
  "thread_rows tid p d = sort_key m_seq (filter (\<lambda>m. m_threadId m = tid \<and> p m) (db_messages d))"

definition first_seq :: "message_row list \<Rightarrow> int option" where
  "first_seq rows = (case rows of [] \<Rightarrow> None | r # _ \<Rightarrow> Some (m_seq r))"

definition around_target :: "db \<Rightarrow> id \<Rightarrow> around \<Rightarrow> int option" where
  "around_target d tid a =
     (case ar_seq a of
        Some s \<Rightarrow> Some s
      | None \<Rightarrow>
          if truthy (ar_messageId a)
          then map_option m_seq (List.find (\<lambda>m. m_id m = the (ar_messageId a) \<and> m_threadId m = tid)
                 (db_messages d))
          else None)"

definition page_around :: "db \<Rightarrow> id \<Rightarrow> nat \<Rightarrow> int \<Rightarrow> thread_history" where
  "page_around d tid pageSize targetSeq =
     (let half = int (pageSize div 2);
          minSeq = max 0 (targetSeq - half);
          maxSeq = targetSeq + half;
          rows = take pageSize (thread_rows tid (\<lambda>m. minSeq \<le> m_seq m \<and> m_seq m \<le> maxSeq) d);
          hasOlder = (case first_seq rows of
                        None \<Rightarrow> False
                      | Some s \<Rightarrow> count_where (\<lambda>m. m_threadId m = tid \<and> m_seq m < s) (db_messages d) > 0)
      in \<lparr>hi_threadId = tid, hi_messages = map toThreadMessage rows,
          hi_olderCursor = (if hasOlder then first_seq rows else None)\<rparr>)"

definition before_ok :: "int option \<Rightarrow> message_row \<Rightarrow> bool" where
  "before_ok before m = (case before of None \<Rightarrow> True | Some b \<Rightarrow> m_seq m < b)"

definition page_before :: "db \<Rightarrow> id \<Rightarrow> int option \<Rightarrow> nat \<Rightarrow> thread_history" where
  "page_before d tid before pageSize =
     (let rows = take (pageSize + 1) (rev (thread_rows tid (before_ok before) d));
          hasOlder = length rows > pageSize;
          page = rev (take pageSize rows)
      in \<lparr>hi_threadId = tid, hi_messages = map toThreadMessage page,
          hi_olderCursor = (if hasOlder then first_seq page else None)\<rparr>)"

definition loadMessagePage :: "db \<Rightarrow> id \<Rightarrow> int option \<Rightarrow> nat \<Rightarrow> around option \<Rightarrow> thread_history" where
  "loadMessagePage d tid before pageSize around =
     (case around of
        None \<Rightarrow> page_before d tid before pageSize
      | Some a \<Rightarrow>
          (case around_target d tid a of
             Some s \<Rightarrow> page_around d tid pageSize s
           | None \<Rightarrow> page_before d tid before pageSize))"

lemma first_seq_SomeD: "first_seq rows = Some s \<Longrightarrow> \<exists>r \<in> set rows. m_seq r = s"
  by (cases rows) (auto simp: first_seq_def)

lemma page_cursor:
  assumes "hi_olderCursor (page_before d tid before pageSize) = Some c"
  shows "\<exists>m \<in> set (db_messages d). m_threadId m = tid \<and> before_ok before m \<and> m_seq m = c"
proof -
  let ?rows = "thread_rows tid (before_ok before) d"
  have "first_seq (rev (take pageSize (take (pageSize + 1) (rev ?rows)))) = Some c"
    using assms by (simp add: page_before_def Let_def split: if_splits)
  then obtain m where "m \<in> set (rev (take pageSize (take (pageSize + 1) (rev ?rows))))" "m_seq m = c"
    using first_seq_SomeD by blast
  then show ?thesis
    by (auto simp: thread_rows_def dest!: in_set_takeD)
qed

lemma length_filter_strict:
  assumes "\<And>x. Q x \<Longrightarrow> P x" and "x \<in> set xs" and "P x" and "\<not> Q x"
  shows "length (filter Q xs) < length (filter P xs)"
proof -
  have "filter Q xs = filter Q (filter P xs)"
    using assms(1) by (auto intro: filter_cong)
  moreover have "length (filter Q (filter P xs)) < length (filter P xs)"
    by (rule length_filter_less [of x]) (use assms in simp_all)
  ultimately show ?thesis by simp
qed

text \<open>The loop over the pages, newest page first; every page lowers the cursor.\<close>

function load_pages :: "db \<Rightarrow> id \<Rightarrow> nat \<Rightarrow> int option \<Rightarrow> thread_message list list" where
  "load_pages d tid pageSize before =
     (let page = loadMessagePage d tid before pageSize None in
      case hi_olderCursor page of
        None \<Rightarrow> [hi_messages page]
      | Some c \<Rightarrow> hi_messages page # load_pages d tid pageSize (Some c))"
  by pat_completeness auto

termination load_pages
proof (relation "measure (\<lambda>(d, tid, pageSize, before).
    length (filter (\<lambda>m. m_threadId m = tid \<and> before_ok before m) (db_messages d)))")
  fix d tid pageSize before page c
  assume "page = loadMessagePage d tid before pageSize None" "hi_olderCursor page = Some c"
  then obtain m where m: "m \<in> set (db_messages d)" "m_threadId m = tid" "before_ok before m" "m_seq m = c"
    using page_cursor [of d tid before pageSize c] by (auto simp: loadMessagePage_def)
  have "length (filter (\<lambda>m. m_threadId m = tid \<and> before_ok (Some c) m) (db_messages d)) <
      length (filter (\<lambda>m. m_threadId m = tid \<and> before_ok before m) (db_messages d))"
    by (rule length_filter_strict [of _ _ m]) (use m in \<open>auto simp: before_ok_def split: option.splits\<close>)
  then show "((d, tid, pageSize, Some c), d, tid, pageSize, before) \<in>
      measure (\<lambda>(d, tid, pageSize, before).
        length (filter (\<lambda>m. m_threadId m = tid \<and> before_ok before m) (db_messages d)))"
    by simp
qed simp

declare load_pages.simps [simp del]

definition loadAllMessages :: "db \<Rightarrow> id \<Rightarrow> nat \<Rightarrow> thread_message list" where
  "loadAllMessages d tid pageSize = concat (rev (load_pages d tid pageSize None))"

subsection \<open>The history of the client\<close>

definition isDurableMessage :: "thread_message \<Rightarrow> bool" where
  "isDurableMessage m \<longleftrightarrow> \<not> prefix (js ''progress:'') (tm_id m) \<and> \<not> prefix (js ''subagent:'') (tm_id m)"

fun unseen :: "jstring set \<Rightarrow> thread_message list \<Rightarrow> thread_message list" where
  "unseen seen [] = []"
| "unseen seen (m # ms) =
     (if tm_id m \<in> seen then unseen seen ms else m # unseen (insert (tm_id m) seen) ms)"

definition mergeMessagesById :: "thread_message list \<Rightarrow> thread_message list \<Rightarrow> thread_message list" where
  "mergeMessagesById first second = unseen {} (first @ second)"

definition first_recent :: "thread_message list \<Rightarrow> int option" where
  "first_recent recent =
     fold (\<lambda>m first. if \<not> isDurableMessage m then first
             else Some (case first of None \<Rightarrow> tm_seq m | Some f \<Rightarrow> min f (tm_seq m))) recent None"

definition mergeMessagePages :: "thread_message list \<Rightarrow> thread_message list \<Rightarrow> thread_message list" where
  "mergeMessagePages previous recent =
     mergeMessagesById
       (case first_recent recent of
          None \<Rightarrow> []
        | Some f \<Rightarrow> filter (\<lambda>m. isDurableMessage m \<and> tm_seq m < f) previous) recent"

definition mergeThreadHistory ::
  "'a thread_history_scheme option \<Rightarrow> 'a thread_history_scheme \<Rightarrow> bool \<Rightarrow> 'a thread_history_scheme" where
  "mergeThreadHistory previous recent preserveLoadedHistory =
     (case previous of
        None \<Rightarrow> recent
      | Some p \<Rightarrow>
          if hi_threadId p \<noteq> hi_threadId recent \<or> \<not> preserveLoadedHistory then recent
          else recent\<lparr>hi_messages := mergeMessagePages (hi_messages p) (hi_messages recent),
                      hi_olderCursor := hi_olderCursor p\<rparr>)"

definition prependThreadHistoryPage ::
  "'a thread_history_scheme option \<Rightarrow> thread_history \<Rightarrow> 'a thread_history_scheme option" where
  "prependThreadHistoryPage previous page =
     (case previous of
        None \<Rightarrow> None
      | Some p \<Rightarrow>
          if hi_threadId p \<noteq> hi_threadId page \<or> hi_olderCursor p = None then Some p
          else Some (p\<lparr>hi_messages := mergeMessagesById (hi_messages page) (hi_messages p),
                       hi_olderCursor := hi_olderCursor page\<rparr>))"

subsection \<open>Pages are segments of the thread\<close>

abbreviation by_seq :: "message_row list \<Rightarrow> bool" where
  "by_seq rows \<equiv> sorted_wrt (\<lambda>a b. m_seq a < m_seq b) rows"

lemma by_seq_split:
  assumes "by_seq (xs @ y # ys)"
  shows "filter (\<lambda>m. m_seq m < m_seq y) (xs @ y # ys) = xs"
    and "filter (\<lambda>m. m_seq y \<le> m_seq m) (xs @ y # ys) = y # ys"
proof -
  have "\<forall>x \<in> set xs. m_seq x < m_seq y" "\<forall>x \<in> set ys. m_seq y < m_seq x"
    using assms by (auto simp: sorted_wrt_append)
  moreover from this have "filter (\<lambda>m. m_seq y \<le> m_seq m) ys = ys" "filter (\<lambda>m. m_seq y \<le> m_seq m) xs = []"
    by (auto simp: filter_id_conv filter_empty_conv)
  ultimately show "filter (\<lambda>m. m_seq m < m_seq y) (xs @ y # ys) = xs"
    and "filter (\<lambda>m. m_seq y \<le> m_seq m) (xs @ y # ys) = y # ys"
    by (auto simp: filter_id_conv filter_empty_conv)
qed

lemma sort_by_seq: "by_seq rows \<Longrightarrow> sort_key m_seq rows = rows"
  by (rule sort_key_id_if_sorted) (auto simp: sorted_map elim: sorted_wrt_mono_rel [rotated])

lemma thread_rows_ok:
  assumes "db_ok d"
  shows "thread_rows tid p d = filter p (filter (\<lambda>m. m_threadId m = tid) (db_messages d))"
    and "by_seq (thread_rows tid p d)"
proof -
  have "by_seq (filter (\<lambda>m. m_threadId m = tid) (db_messages d))"
    using assms by (simp add: db_ok_def messages_ok_def)
  then have s: "by_seq (filter p (filter (\<lambda>m. m_threadId m = tid) (db_messages d)))"
    by (rule sorted_wrt_filter)
  have "filter (\<lambda>m. m_threadId m = tid \<and> p m) (db_messages d) =
      filter p (filter (\<lambda>m. m_threadId m = tid) (db_messages d))"
    by (simp add: conj_commute)
  then show "thread_rows tid p d = filter p (filter (\<lambda>m. m_threadId m = tid) (db_messages d))"
    using s by (simp add: thread_rows_def sort_by_seq)
  with s show "by_seq (thread_rows tid p d)" by simp
qed

text \<open>The messages of a thread in order, and those below a cursor.\<close>

abbreviation thread_of :: "id \<Rightarrow> db \<Rightarrow> message_row list" where
  "thread_of tid d \<equiv> filter (\<lambda>m. m_threadId m = tid) (db_messages d)"

lemma page_before_eq:
  assumes "db_ok d" and rows: "rows = filter (before_ok before) (thread_of tid d)"
  shows "page_before d tid before pageSize =
    \<lparr>hi_threadId = tid, hi_messages = map toThreadMessage (drop (length rows - pageSize) rows),
     hi_olderCursor = (if length rows > pageSize then first_seq (drop (length rows - pageSize) rows) else None)\<rparr>"
proof -
  have "rev (take pageSize (take (pageSize + 1) (rev rows))) = drop (length rows - pageSize) rows"
  proof -
    have "take pageSize (take (pageSize + 1) (rev rows)) = take pageSize (rev rows)" by simp
    then show ?thesis by (simp only: take_rev rev_rev_ident)
  qed
  moreover have "length (take (pageSize + 1) (rev rows)) > pageSize \<longleftrightarrow> length rows > pageSize"
    by simp
  ultimately show ?thesis
    unfolding page_before_def thread_rows_ok(1) [OF assms(1)] rows [symmetric] Let_def by simp
qed

lemma before_ok_simps [simp]: "before_ok None = (\<lambda>_. True)" "before_ok (Some b) = (\<lambda>m. m_seq m < b)"
  by (simp_all add: before_ok_def fun_eq_iff)

text \<open>The rows below the first row of a segment are the rows before it.\<close>

lemma below_nth:
  assumes "by_seq rows" and "k < length rows"
  shows "filter (before_ok (Some (m_seq (rows ! k)))) rows = take k rows"
proof -
  have "rows = take k rows @ rows ! k # drop (Suc k) rows" using assms(2) by (rule id_take_nth_drop)
  with assms(1) show ?thesis
    using by_seq_split(1) [of "take k rows" "rows ! k" "drop (Suc k) rows"] by simp
qed

lemma first_seq_drop: "k < length rows \<Longrightarrow> first_seq (drop k rows) = Some (m_seq (rows ! k))"
  by (simp add: first_seq_def Cons_nth_drop_Suc [symmetric])

lemma before_before:
  assumes "by_seq rows" and "R = filter (before_ok before) rows" and "k < length R"
  shows "filter (before_ok (Some (m_seq (R ! k)))) rows = take k R"
proof -
  have "R ! k \<in> set R" using assms(3) by simp
  then have "before_ok before (R ! k)" by (simp add: assms(2))
  then have "filter (before_ok (Some (m_seq (R ! k)))) rows = filter (before_ok (Some (m_seq (R ! k)))) R"
    unfolding assms(2) filter_filter
    by (intro filter_cong refl) (auto simp: before_ok_def split: option.splits)
  also have "\<dots> = take k R"
    by (rule below_nth) (use assms in \<open>simp_all add: sorted_wrt_filter\<close>)
  finally show ?thesis .
qed

lemma load_pages_segment:
  assumes "db_ok d" and "pageSize > 0"
  shows "concat (rev (load_pages d tid pageSize before)) =
     map toThreadMessage (filter (before_ok before) (thread_of tid d))"
  using assms
proof (induction d tid pageSize before rule: load_pages.induct)
  case (1 d tid pageSize before)
  define R where "R = filter (before_ok before) (thread_of tid d)"
  define k where "k = length R - pageSize"
  have page: "loadMessagePage d tid before pageSize None =
      \<lparr>hi_threadId = tid, hi_messages = map toThreadMessage (drop k R),
       hi_olderCursor = (if length R > pageSize then first_seq (drop k R) else None)\<rparr>"
    unfolding loadMessagePage_def k_def by (simp add: page_before_eq [OF 1(2) R_def])
  show ?case
  proof (cases "length R > pageSize")
    case True
    then have k: "k < length R" using \<open>pageSize > 0\<close> by (simp add: k_def)
    have cur: "hi_olderCursor (loadMessagePage d tid before pageSize None) = Some (m_seq (R ! k))"
      using True k by (simp add: page first_seq_drop)
    have "by_seq (thread_of tid d)" using 1(2) by (simp add: db_ok_def messages_ok_def)
    then have "filter (before_ok (Some (m_seq (R ! k)))) (thread_of tid d) = take k R"
      by (rule before_before [OF _ R_def k])
    with 1(1) [OF refl cur 1(2,3)]
    have "concat (rev (load_pages d tid pageSize (Some (m_seq (R ! k))))) = map toThreadMessage (take k R)"
      by simp
    moreover have "load_pages d tid pageSize before =
        map toThreadMessage (drop k R) # load_pages d tid pageSize (Some (m_seq (R ! k)))"
      by (subst load_pages.simps) (use cur in \<open>simp add: Let_def page\<close>)
    ultimately show ?thesis
      unfolding R_def [symmetric] by (simp add: map_append [symmetric] del: map_append)
  next
    case False
    then have "load_pages d tid pageSize before = [map toThreadMessage R]"
      by (subst load_pages.simps) (simp add: Let_def page k_def)
    then show ?thesis by (simp add: R_def)
  qed
qed

text \<open>
  Loading all messages of a thread page by page ends and is the thread: whatever the page
  size, the pages put together are the thread's messages, each once, in the order of their
  sequence numbers.
\<close>

theorem load_all_messages_is_the_thread:
  assumes "db_ok d" and "pageSize > 0"
  shows "loadAllMessages d tid pageSize = map toThreadMessage (thread_of tid d)"
  using load_pages_segment [OF assms, of tid None] by (simp add: loadAllMessages_def)

theorem load_all_messages_is_the_thread_witness:
  "map tm_id (loadAllMessages example_db th1 1) = [js ''m1'', js ''m2'']"
  using load_all_messages_is_the_thread [OF example_ok, of 1 th1]
  by (simp add: toThreadMessage_def example_defs)

subsection \<open>The history of a client is a segment of the thread\<close>

text \<open>
  The abstraction: the client shows the thread from its \<open>k\<close>-th message on. Unless it shows
  all of it, it shows at least a page, and its cursor is the first message it shows.
\<close>

definition shows_from :: "nat \<Rightarrow> db \<Rightarrow> id \<Rightarrow> nat \<Rightarrow> thread_history \<Rightarrow> bool" where
  "shows_from pageSize d tid k h \<longleftrightarrow> hi_threadId h = tid \<and>
     hi_messages h = map toThreadMessage (drop k (thread_of tid d)) \<and>
     hi_olderCursor h = (if k = 0 then None else first_seq (drop k (thread_of tid d))) \<and>
     (k = 0 \<or> k + pageSize \<le> length (thread_of tid d))"

lemma unseen_distinct:
  "distinct (map tm_id ms) \<Longrightarrow> set (map tm_id ms) \<inter> seen = {} \<Longrightarrow> unseen seen ms = ms"
  by (induction ms arbitrary: seen) auto

lemma merge_distinct:
  "distinct (map tm_id (first @ second)) \<Longrightarrow> mergeMessagesById first second = first @ second"
  unfolding mergeMessagesById_def by (rule unseen_distinct) simp_all

lemma tm_id_toThreadMessage: "map tm_id (map toThreadMessage rows) = map m_id rows"
  by (simp add: toThreadMessage_def)

lemma thread_ids_distinct: "db_ok d \<Longrightarrow> distinct (map m_id (thread_of tid d))"
  by (simp add: db_ok_def messages_ok_def distinct_map_filter)

lemma page_shows:
  assumes "db_ok d" and "pageSize > 0"
  shows "shows_from pageSize d tid (length (thread_of tid d) - pageSize)
     (loadMessagePage d tid None pageSize None)"
  using page_before_eq [OF assms(1), of "thread_of tid d" None tid pageSize] assms(2)
  by (auto simp: shows_from_def loadMessagePage_def)

lemma older_shows:
  assumes ok: "db_ok d" and seen: "shows_from pageSize d tid k h" and c: "hi_olderCursor h = Some c"
    and size: "pageSize > 0"
  shows "\<exists>h'. prependThreadHistoryPage (Some h) (loadMessagePage d tid (Some c) pageSize None) = Some h' \<and>
     shows_from pageSize d tid (k - pageSize) h'"
proof -
  let ?R = "thread_of tid d"
  have k: "k \<noteq> 0" "k < length ?R" "hi_threadId h = tid" "c = m_seq (?R ! k)" "k + pageSize \<le> length ?R"
    "hi_messages h = map toThreadMessage (drop k ?R)"
    using seen c size by (auto simp: shows_from_def first_seq_drop split: if_splits)
  have sorted: "by_seq ?R" using ok by (simp add: db_ok_def messages_ok_def)
  have seg: "filter (before_ok (Some c)) ?R = take k ?R"
    unfolding k(4) by (rule below_nth [OF sorted k(2)])
  let ?j = "k - pageSize"
  have page: "loadMessagePage d tid (Some c) pageSize None =
      \<lparr>hi_threadId = tid, hi_messages = map toThreadMessage (drop ?j (take k ?R)),
       hi_olderCursor = (if k > pageSize then first_seq (drop ?j (take k ?R)) else None)\<rparr>"
    using page_before_eq [OF ok refl, of tid "Some c" pageSize] k(2)
    by (simp add: loadMessagePage_def seg [simplified] min_absorb2)
  have split: "drop ?j (take k ?R) @ drop k ?R = drop ?j ?R"
    using drop_append [of ?j "take k ?R" "drop k ?R"] k(2) by simp
  have "distinct (map m_id (drop ?j ?R))"
    using thread_ids_distinct [OF ok, of tid] by (simp add: drop_map [symmetric] distinct_drop del: drop_map)
  then have "mergeMessagesById (map toThreadMessage (drop ?j (take k ?R))) (map toThreadMessage (drop k ?R)) =
      map toThreadMessage (drop ?j ?R)"
    unfolding split [symmetric] map_append [symmetric]
    by (subst merge_distinct) (simp_all only: map_append [symmetric] tm_id_toThreadMessage)
  moreover have "first_seq (drop ?j (take k ?R)) = first_seq (drop ?j ?R)" if "k > pageSize"
    using that k(2) size by (simp add: first_seq_drop)
  ultimately show ?thesis
    unfolding page using k c by (auto simp: prependThreadHistoryPage_def shows_from_def)
qed

text \<open>A refresh: the newest page of a later database, merged into the history.\<close>

lemma first_recent_sorted:
  assumes "\<forall>m \<in> set rows. isDurableMessage (toThreadMessage m)" and "by_seq rows"
  shows "first_recent (map toThreadMessage rows) = first_seq rows"
proof (cases rows)
  case (Cons r rs)
  have step: "fold (\<lambda>m first. if \<not> isDurableMessage m then first
      else Some (case first of None \<Rightarrow> tm_seq m | Some f \<Rightarrow> min f (tm_seq m)))
      (map toThreadMessage qs) (Some f) = Some f"
    if "\<forall>m \<in> set qs. isDurableMessage (toThreadMessage m) \<and> f < m_seq m" for qs f
    using that by (induction qs) (simp_all add: toThreadMessage_def min_absorb1)
  have "fold (\<lambda>m first. if \<not> isDurableMessage m then first
      else Some (case first of None \<Rightarrow> tm_seq m | Some f \<Rightarrow> min f (tm_seq m)))
      (map toThreadMessage rs) (Some (m_seq r)) = Some (m_seq r)"
    by (rule step) (use assms Cons in auto)
  with Cons assms show ?thesis by (simp add: first_recent_def first_seq_def toThreadMessage_def)
qed (simp add: first_recent_def first_seq_def)

lemma filter_map_rows:
  "\<forall>m \<in> set rows. isDurableMessage (toThreadMessage m) \<Longrightarrow>
   filter (\<lambda>m. isDurableMessage m \<and> tm_seq m < f) (map toThreadMessage rows) =
   map toThreadMessage (filter (\<lambda>m. m_seq m < f) rows)"
  by (induction rows) (simp_all add: toThreadMessage_def)

lemma drop_take_drop: "k \<le> j \<Longrightarrow> drop k (take j xs) @ drop j xs = drop k xs"
  using drop_append [of k "take j xs" "drop j xs"] by (cases "j \<le> length xs") simp_all

lemma merged_messages:
  assumes ok: "db_ok d'" and size: "pageSize > 0" and rows: "thread_of tid d' = old @ new"
    and durable: "\<forall>m \<in> set (thread_of tid d'). isDurableMessage (toThreadMessage m)"
    and j: "j = length (old @ new) - pageSize"
  shows "mergeMessagePages (map toThreadMessage (drop k old)) (map toThreadMessage (drop j (old @ new))) =
     map toThreadMessage (drop k (take j old) @ drop j (old @ new))"
proof (cases "old @ new = []")
  case True
  then show ?thesis by (simp add: mergeMessagePages_def first_recent_def mergeMessagesById_def)
next
  case False
  let ?R = "old @ new"
  have jlt: "j < length ?R" using False size j by (cases ?R) auto
  have sorted: "by_seq ?R" using ok rows by (metis db_ok_def messages_ok_def)
  have "by_seq (drop j ?R)" using sorted by (rule sorted_wrt_drop)
  moreover have "\<forall>m \<in> set (drop j ?R). isDurableMessage (toThreadMessage m)"
    using durable rows by (metis in_set_dropD)
  ultimately have f: "first_recent (map toThreadMessage (drop j ?R)) = Some (m_seq (?R ! j))"
    using first_recent_sorted first_seq_drop [OF jlt] by metis
  have "\<forall>m \<in> set (drop k old). isDurableMessage (toThreadMessage m)"
    using durable rows by (auto dest!: in_set_dropD)
  note kept = filter_map_rows [OF this, of "m_seq (?R ! j)"]
  have below: "filter (\<lambda>m. m_seq m < m_seq (?R ! j)) ?R = take j ?R"
    using below_nth [OF sorted jlt] by simp
  have low: "m_seq x < m_seq (?R ! j) \<longleftrightarrow> i < j" if "i < length ?R" "x = ?R ! i" for i x
  proof -
    have "m_seq (?R ! a) < m_seq (?R ! b)" if "a < b" "b < length ?R" for a b
      using sorted_wrt_nth_less [OF sorted that] .
    note mono = this
    show ?thesis
    proof (cases i j rule: linorder_cases)
      case less
      with mono [OF less jlt] that show ?thesis by simp
    next
      case equal
      with that show ?thesis by simp
    next
      case greater
      with mono [OF greater that(1)] that show ?thesis by simp
    qed
  qed
  let ?late = "drop (k - length (take j old)) (drop j old)"
  have late: "drop k old = drop k (take j old) @ ?late"
    using drop_append [of k "take j old" "drop j old"] by simp
  have "filter (\<lambda>m. m_seq m < m_seq (?R ! j)) (drop k (take j old)) = drop k (take j old)"
    unfolding filter_id_conv
  proof
    fix m assume "m \<in> set (drop k (take j old))"
    then have "m \<in> set (take j old)" by (rule in_set_dropD)
    then obtain i where "i < j" "i < length old" "m = old ! i" by (auto simp: in_set_conv_nth)
    then show "m_seq m < m_seq (?R ! j)" using low [of i m] by (simp add: nth_append)
  qed
  moreover have "filter (\<lambda>m. m_seq m < m_seq (?R ! j)) ?late = []"
    unfolding filter_empty_conv
  proof
    fix m assume "m \<in> set ?late"
    then have "m \<in> set (drop j old)" by (rule in_set_dropD)
    then obtain i where "i < length old - j" "m = old ! (j + i)" by (auto simp: in_set_conv_nth)
    then show "\<not> m_seq m < m_seq (?R ! j)" using low [of "j + i" m] by (simp add: nth_append)
  qed
  ultimately have "filter (\<lambda>m. m_seq m < m_seq (?R ! j)) (drop k old) = drop k (take j old)"
    by (simp only: late filter_append append_Nil2)
  with kept have "mergeMessagePages (map toThreadMessage (drop k old)) (map toThreadMessage (drop j ?R)) =
      mergeMessagesById (map toThreadMessage (drop k (take j old))) (map toThreadMessage (drop j ?R))"
    by (simp add: mergeMessagePages_def f del: map_append drop_append)
  also have "\<dots> = map toThreadMessage (drop k (take j old)) @ map toThreadMessage (drop j ?R)"
  proof (rule merge_distinct)
    have "distinct (map m_id ?R)" using thread_ids_distinct [OF ok, of tid] rows by metis
    then have "distinct (map m_id (take j ?R @ drop j ?R))" by (simp only: append_take_drop_id)
    moreover have "set (drop k (take j old)) \<subseteq> set (take j ?R)"
      by (auto dest: in_set_dropD)
    moreover have "distinct (map m_id (drop k (take j old)))"
    proof -
      have "distinct (map m_id (take j old))" using \<open>distinct (map m_id ?R)\<close>
        by (simp add: take_map [symmetric] distinct_take del: take_map)
      then show ?thesis by (simp add: drop_map [symmetric] distinct_drop del: drop_map)
    qed
    ultimately show "distinct (map tm_id (map toThreadMessage (drop k (take j old)) @
        map toThreadMessage (drop j ?R)))"
      unfolding map_append [symmetric] tm_id_toThreadMessage
      by (simp del: append_take_drop_id drop_append take_append) blast
  qed
  finally show ?thesis by simp
qed

lemma refresh_shows:
  assumes ok: "db_ok d'" and size: "pageSize > 0"
    and seen: "shows_from pageSize d tid k h" and rows: "thread_of tid d' = thread_of tid d @ new"
    and durable: "\<forall>m \<in> set (thread_of tid d'). isDurableMessage (toThreadMessage m)"
  shows "shows_from pageSize d' tid k
      (mergeThreadHistory (Some h) (loadMessagePage d' tid None pageSize None) True) \<longleftrightarrow>
    length new \<le> pageSize"
proof -
  let ?old = "thread_of tid d"
  define j where "j = length (?old @ new) - pageSize"
  let ?merged = "mergeThreadHistory (Some h) (loadMessagePage d' tid None pageSize None) True"
  have h: "hi_threadId h = tid" "hi_messages h = map toThreadMessage (drop k ?old)"
    "hi_olderCursor h = (if k = 0 then None else first_seq (drop k ?old))"
    "k = 0 \<or> k + pageSize \<le> length ?old"
    using seen by (simp_all add: shows_from_def)
  have page: "loadMessagePage d' tid None pageSize None =
      \<lparr>hi_threadId = tid, hi_messages = map toThreadMessage (drop j (?old @ new)),
       hi_olderCursor = (if length (?old @ new) > pageSize then first_seq (drop j (?old @ new)) else None)\<rparr>"
    using page_before_eq [OF ok, of "?old @ new" None tid pageSize]
    by (simp add: rows loadMessagePage_def j_def)
  have merged: "hi_messages ?merged = map toThreadMessage (drop k (take j ?old) @ drop j (?old @ new))"
    "hi_threadId ?merged = tid" "hi_olderCursor ?merged = hi_olderCursor h"
    using merged_messages [OF ok size rows durable j_def, of k]
    unfolding page by (simp_all add: mergeThreadHistory_def h)
  have kj: "k \<le> j" "k \<le> length ?old" using h(4) by (auto simp: j_def)
  show ?thesis
  proof
    assume le: "length new \<le> pageSize"
    then have "j \<le> length ?old" by (simp add: j_def)
    then have "drop k (take j ?old) @ drop j (?old @ new) = drop k (?old @ new)"
      using drop_take_drop [OF kj(1), of "?old @ new"] by simp
    moreover have "k \<noteq> 0 \<Longrightarrow> first_seq (drop k ?old) = first_seq (drop k (?old @ new))"
      using h(4) size first_seq_drop [of k ?old] first_seq_drop [of k "?old @ new"]
      by (simp add: nth_append del: drop_append)
    ultimately show "shows_from pageSize d' tid k ?merged"
      using h merged by (auto simp: shows_from_def rows)
  next
    assume "shows_from pageSize d' tid k ?merged"
    then have "length (drop k (take j ?old) @ drop j (?old @ new)) = length (drop k (?old @ new))"
      unfolding shows_from_def rows merged(1) by (metis length_map)
    then show "length new \<le> pageSize" using kj size by (auto simp: j_def)
  qed
qed

text \<open>
  C22. What a client shows refines the abstract view of a thread from its \<open>k\<close>-th message on.
  The first page shows the last page of the thread, loading older messages moves \<open>k\<close> back by
  one page, and a refresh that keeps the loaded history keeps \<open>k\<close> and adds the new messages
  exactly when at most one page of them arrived: after more, the messages between the loaded
  history and the page are missing, below a cursor that lies before them.
\<close>

theorem client_history_refines_segment:
  assumes "db_ok d" and "db_ok d'" and "pageSize > 0"
    and "\<forall>m \<in> set (db_messages d'). isDurableMessage (toThreadMessage m)"
    and "thread_of tid d' = thread_of tid d @ new" and "shows_from pageSize d tid k h"
  shows "shows_from pageSize d tid (length (thread_of tid d) - pageSize)
       (loadMessagePage d tid None pageSize None) \<and>
     (hi_olderCursor h = Some c \<longrightarrow>
       (\<exists>h'. prependThreadHistoryPage (Some h) (loadMessagePage d tid (Some c) pageSize None) = Some h' \<and>
         shows_from pageSize d tid (k - pageSize) h')) \<and>
     (shows_from pageSize d' tid k
        (mergeThreadHistory (Some h) (loadMessagePage d' tid None pageSize None) True) \<longleftrightarrow>
      length new \<le> pageSize)"
  using page_shows [OF assms(1,3)] older_shows [OF assms(1,6) _ assms(3)]
    refresh_shows [OF assms(2,3,6,5)] assms(4) by auto

text \<open>Of the two messages of the example the client shows the second, and then loads the first.\<close>

theorem client_history_refines_segment_witness:
  "\<exists>h'. prependThreadHistoryPage (Some (loadMessagePage example_db th1 None 1 None))
      (loadMessagePage example_db th1 (Some 1) 1 None) = Some h' \<and> shows_from 1 example_db th1 0 h'"
proof -
  have rows: "length (thread_of th1 example_db) = 2" by (simp add: example_defs)
  have seen: "shows_from 1 example_db th1 1 (loadMessagePage example_db th1 None 1 None)"
    using page_shows [OF example_ok, of 1 th1] rows by simp
  have durable: "\<forall>m \<in> set (db_messages example_db). isDurableMessage (toThreadMessage m)"
    by (simp add: example_defs isDurableMessage_def toThreadMessage_def)
  have c: "hi_olderCursor (loadMessagePage example_db th1 None 1 None) = Some 1"
    using seen by (simp add: shows_from_def first_seq_def example_defs)
  show ?thesis
    using client_history_refines_segment [OF example_ok example_ok _ durable _ seen, of "[]" 1] c by simp
qed

end
