(* ===== verification/ClientThread.thy ===== *)
theory ClientThread
  imports MessagePages
begin

text \<open>
  The thread a web client shows, \<open>apps/web/src/lib/thread-events.ts\<close>: a snapshot of the
  messages, runs and members of a thread, folded over the product events that arrive, merged
  with the answers of refresh requests that may be older than the events, and the status of
  the computer beside it. \<open>lc\<close>, \<open>uc\<close> and \<open>text_of\<close> are the language's case conversions and
  its \<open>String\<close> on JSON values.
\<close>

subsection \<open>The snapshot\<close>

record client_run =
  nv_id :: id
  nv_botId :: id
  nv_threadId :: id
  nv_taskId :: id
  nv_status :: run_status
  nv_trigger :: run_trigger
  nv_routineId :: "id option"
  nv_modelProvider :: "jstring option"
  nv_modelId :: "jstring option"
  nv_error :: "jstring option"
  nv_startedAt :: "time option"
  nv_completedAt :: "time option"
  nv_createdAt :: time

record member =
  gm_botId :: id
  gm_name :: jstring
  gm_color :: jstring
  gm_status :: "jstring option"

datatype view_state = ViewStopped | ViewBooting | ViewRunning | ViewSuspended | ViewError

record computer_view =
  cv_botId :: id
  cv_mode :: jstring
  cv_kind :: jstring
  cv_state :: view_state
  cv_controlHolder :: control_holder
  cv_controlBotId :: "id option"
  cv_takeoverRequested :: bool
  cv_screenAvailable :: bool
  cv_screenWidth :: nat
  cv_screenHeight :: nat
  cv_homeRevision :: "jstring option"
  cv_busyBotName :: "jstring option"
  cv_updateAvailable :: bool

record snapshot = thread_history +
  sn_cursor :: int
  sn_botId :: "id option"
  sn_groupId :: "id option"
  sn_groupName :: "jstring option"
  sn_members :: "member list option"
  sn_run :: "client_run option"
  sn_activeRuns :: "client_run list option"
  sn_computer :: "computer_view option"

text \<open>The names of the wire.\<close>

definition status_name :: "run_status \<Rightarrow> jstring" where
  "status_name s = (case s of Queued \<Rightarrow> js ''queued'' | Leased \<Rightarrow> js ''leased'' | Running \<Rightarrow> js ''running''
     | WaitingInput \<Rightarrow> js ''waiting_input'' | WaitingTakeover \<Rightarrow> js ''waiting_takeover''
     | Completed \<Rightarrow> js ''completed'' | Failed \<Rightarrow> js ''failed'' | Cancelled \<Rightarrow> js ''cancelled'')"

definition runTriggers :: "(jstring \<times> run_trigger) list" where
  "runTriggers = [(js ''user'', TrigUser), (js ''routine'', TrigRoutine), (js ''resume'', TrigResume),
     (js ''follow_up'', TrigFollowUp), (js ''spawn'', TrigSpawn), (js ''skill'', TrigSkill),
     (js ''bot_message'', TrigBotMessage), (js ''webhook'', TrigWebhook)]"

definition computerStates :: "(jstring \<times> view_state) list" where
  "computerStates = [(js ''stopped'', ViewStopped), (js ''booting'', ViewBooting),
     (js ''running'', ViewRunning), (js ''suspended'', ViewSuspended), (js ''error'', ViewError)]"

definition json_string :: "json option \<Rightarrow> jstring option" where
  "json_string v = (case v of Some (JStr s) \<Rightarrow> Some s | _ \<Rightarrow> None)"

definition isComputerState :: "json option \<Rightarrow> view_state option" where
  "isComputerState v = (case json_string v of None \<Rightarrow> None | Some s \<Rightarrow> map_of computerStates s)"

definition RUN_FAILURE_ERROR_MAX :: nat where "RUN_FAILURE_ERROR_MAX = 300"

definition runFailureError :: "event_row \<Rightarrow> jstring option" where
  "runFailureError e =
     (if e_type e \<noteq> RunFailed then None
      else case json_string (field (js ''error'') (payload_fields e)) of
             None \<Rightarrow> None
           | Some err \<Rightarrow>
               if trim err = [] then None
               else if length (trim err) > RUN_FAILURE_ERROR_MAX
               then Some (take RUN_FAILURE_ERROR_MAX (trim err) @ ellipsis)
               else Some (trim err))"

subsection \<open>Pieces of the reducer\<close>

definition runFromStartedEvent :: "event_row \<Rightarrow> client_run option \<Rightarrow> client_run" where
  "runFromStartedEvent e previous =
     \<lparr>nv_id = (case e_runId e of Some r \<Rightarrow> r | None \<Rightarrow>
                (case previous of Some p \<Rightarrow> nv_id p | None \<Rightarrow> e_id e)),
      nv_botId = e_botId e, nv_threadId = e_threadId e,
      nv_taskId = (case previous of Some p \<Rightarrow> nv_taskId p | None \<Rightarrow>
                    (case e_runId e of Some r \<Rightarrow> r | None \<Rightarrow> e_id e)),
      nv_status = Running,
      nv_trigger = (case Option.bind (json_string (field (js ''trigger'') (payload_fields e))) (map_of runTriggers) of
                      Some t \<Rightarrow> t
                    | None \<Rightarrow> (case previous of Some p \<Rightarrow> nv_trigger p | None \<Rightarrow> TrigUser)),
      nv_routineId = (case json_string (field (js ''routineId'') (payload_fields e)) of
                        Some r \<Rightarrow> Some r | None \<Rightarrow> Option.bind previous nv_routineId),
      nv_modelProvider = Option.bind previous nv_modelProvider,
      nv_modelId = Option.bind previous nv_modelId,
      nv_error = None,
      nv_startedAt = (case Option.bind previous nv_startedAt of Some s \<Rightarrow> Some s | None \<Rightarrow> Some (e_createdAt e)),
      nv_completedAt = None,
      nv_createdAt = (case previous of Some p \<Rightarrow> nv_createdAt p | None \<Rightarrow> e_createdAt e)\<rparr>"

definition is_progress_id :: "jstring \<Rightarrow> bool" where
  "is_progress_id i \<longleftrightarrow> prefix (js ''progress:'') i"

text \<open>The live message is the last one with its id; what remains drops progress without a run.\<close>

definition takeLiveMessage :: "thread_message list \<Rightarrow> jstring \<Rightarrow> thread_message option \<times> thread_message list" where
  "takeLiveMessage messages liveId =
     (List.find (\<lambda>m. tm_id m = liveId) (rev messages),
      filter (\<lambda>m. tm_id m \<noteq> liveId \<and> (\<not> is_progress_id (tm_id m) \<or> truthy (tm_runId m))) messages)"

definition activeThreadRuns :: "snapshot option \<Rightarrow> client_run list" where
  "activeThreadRuns snapshot =
     (case snapshot of
        None \<Rightarrow> []
      | Some s \<Rightarrow> (case sn_activeRuns s of Some rs \<Rightarrow> rs
                 | None \<Rightarrow> (case sn_run s of Some r \<Rightarrow> [r] | None \<Rightarrow> [])))"

definition threadRunError :: "snapshot option \<Rightarrow> jstring set \<Rightarrow> jstring option" where
  "threadRunError snapshot dismissed =
     (case Option.bind snapshot sn_run of
        None \<Rightarrow> None
      | Some run \<Rightarrow> if nv_status run \<noteq> Failed \<or> nv_id run \<in> dismissed then None else nv_error run)"

definition drop_busy :: "computer_view option \<Rightarrow> computer_view option" where
  "drop_busy c = (case c of
     Some v \<Rightarrow> if truthy (cv_busyBotName v) then Some (v\<lparr>cv_busyBotName := None\<rparr>) else c
   | None \<Rightarrow> None)"

definition clearActiveThreadRuns :: "snapshot \<Rightarrow> snapshot" where
  "clearActiveThreadRuns s =
     (let runIds = map nv_id (activeThreadRuns (Some s)) in
      s\<lparr>sn_run := None, sn_activeRuns := Some [],
        hi_messages := filter (\<lambda>m. \<not> truthy (tm_runId m) \<or> the (tm_runId m) \<notin> set runIds \<or>
          \<not> is_progress_id (tm_id m)) (hi_messages s),
        sn_computer := drop_busy (sn_computer s)\<rparr>)"

definition updateMemberStatus :: "member list option \<Rightarrow> id \<Rightarrow> jstring \<Rightarrow> member list option" where
  "updateMemberStatus members botId status =
     (case Option.bind members (List.find (\<lambda>m. gm_botId m = botId)) of
        None \<Rightarrow> members
      | Some m \<Rightarrow>
          if gm_status m = Some status then members
          else map_option (map (\<lambda>c. if gm_botId c = botId then c\<lparr>gm_status := Some status\<rparr> else c)) members)"

definition replacedSubagent :: "thread_message \<Rightarrow> jstring list \<Rightarrow> bool" where
  "replacedSubagent m agentIds \<longleftrightarrow> (\<exists>a \<in> set (subagent_ids (tm_blocks m)). a \<in> set agentIds)"

text \<open>The names of the events a snapshot follows.\<close>

definition isThreadSnapshotEvent :: "event_type \<Rightarrow> bool" where
  "isThreadSnapshotEvent ty \<longleftrightarrow>
     ty \<in> set [ThreadCleared, ThreadProgress, ThreadSubagent, AgentToolCalled, ThreadMessageCreated,
               ThreadMessageUpdated, RunStarted, RunWaitingInput, ComputerTakeoverRequested] \<or>
     isRunTerminalEvent ty"

subsection \<open>The reducer\<close>

definition reduce_cleared :: "snapshot \<Rightarrow> event_row \<Rightarrow> snapshot" where
  "reduce_cleared s e =
     s\<lparr>sn_cursor := e_seq e, hi_messages := [], hi_olderCursor := None, sn_run := None,
       sn_activeRuns := Some []\<rparr>"

definition with_id :: "id \<Rightarrow> client_run \<Rightarrow> bool" where
  "with_id i r \<longleftrightarrow> nv_id r = i"

definition reduce_started :: "snapshot \<Rightarrow> event_row \<Rightarrow> snapshot" where
  "reduce_started s e =
     (let members = updateMemberStatus (sn_members s) (e_botId e) (js ''running'') in
      if \<not> truthy (e_runId e) then s\<lparr>sn_cursor := e_seq e, sn_members := members\<rparr>
      else
        let rid = the (e_runId e);
            previousRun = (case Option.bind (sn_activeRuns s) (List.find (with_id rid)) of
                Some r \<Rightarrow> Some r
              | None \<Rightarrow> (case sn_run s of Some r \<Rightarrow> if nv_id r = rid then Some r else None | None \<Rightarrow> None));
            run = runFromStartedEvent e previousRun;
            without = filter (\<lambda>c. nv_id c \<noteq> nv_id run) (activeThreadRuns (Some s));
            activeRuns = (if truthy (sn_groupId s) then without @ [run] else [run])
        in s\<lparr>sn_cursor := e_seq e, sn_members := members,
             sn_run := (case sn_run s of
                          Some p \<Rightarrow> if truthy (sn_groupId s) \<and> nv_status p = Failed \<and> nv_id p \<noteq> nv_id run
                                    then Some p else Some run
                        | None \<Rightarrow> Some run),
             sn_activeRuns := Some activeRuns\<rparr>)"

definition set_run_status :: "id option \<Rightarrow> run_status \<Rightarrow> client_run \<Rightarrow> client_run" where
  "set_run_status rid st r = (if Some (nv_id r) = rid then r\<lparr>nv_status := st\<rparr> else r)"

definition reduce_waiting :: "snapshot \<Rightarrow> event_row \<Rightarrow> snapshot" where
  "reduce_waiting s e =
     (let status = (if e_type e = RunWaitingInput then WaitingInput else WaitingTakeover);
          needs = (\<lambda>r. Some (nv_id r) = e_runId e \<and> nv_status r \<noteq> status);
          runChanged = (case sn_run s of Some r \<Rightarrow> needs r | None \<Rightarrow> False);
          activeRunChanged = (case sn_activeRuns s of Some rs \<Rightarrow> list_ex needs rs | None \<Rightarrow> False);
          members = updateMemberStatus (sn_members s) (e_botId e) (status_name status);
          liveId = progressMessageId e;
          messages = (if e_type e = RunWaitingInput
                      then filter (\<lambda>m. tm_id m \<noteq> liveId) (hi_messages s) else hi_messages s)
      in if \<not> runChanged \<and> \<not> activeRunChanged \<and> members = sn_members s \<and> messages = hi_messages s
         then s
         else s\<lparr>sn_cursor := e_seq e, sn_members := members, hi_messages := messages,
                sn_run := (if runChanged then map_option (\<lambda>r. r\<lparr>nv_status := status\<rparr>) (sn_run s) else sn_run s),
                sn_activeRuns := (if activeRunChanged
                  then map_option (map (set_run_status (e_runId e) status)) (sn_activeRuns s)
                  else sn_activeRuns s)\<rparr>)"

definition reduce_ended :: "snapshot \<Rightarrow> event_row \<Rightarrow> snapshot" where
  "reduce_ended s e =
     (let activeRuns = map_option (filter (\<lambda>c. Some (nv_id c) \<noteq> e_runId e)) (sn_activeRuns s);
          nextMemberRun = Option.bind activeRuns (List.find (\<lambda>c. nv_botId c = e_botId e));
          failure = runFailureError e;
          primaryEnded = (case sn_run s of
              Some r \<Rightarrow> if Some (nv_id r) = e_runId e then Some r else None | None \<Rightarrow> None);
          endedRun = (case primaryEnded of Some r \<Rightarrow> Some r
            | None \<Rightarrow> Option.bind (sn_activeRuns s) (List.find (\<lambda>c. Some (nv_id c) = e_runId e)))
      in s\<lparr>sn_cursor := e_seq e,
           hi_messages := filter (\<lambda>m. tm_id m \<noteq> progressMessageId e) (hi_messages s),
           sn_members := updateMemberStatus (sn_members s) (e_botId e)
             (case nextMemberRun of Some r \<Rightarrow> status_name (nv_status r) | None \<Rightarrow> js ''idle''),
           sn_run := (if endedRun \<noteq> None \<and> truthy failure
                      then map_option (\<lambda>r. r\<lparr>nv_status := Failed, nv_error := failure\<rparr>) endedRun
                      else if primaryEnded \<noteq> None
                      then Option.bind activeRuns (\<lambda>rs. case rs of [] \<Rightarrow> None | r # _ \<Rightarrow> Some r)
                      else sn_run s),
           sn_activeRuns := activeRuns\<rparr>)"

definition bot_live_message :: "event_row \<Rightarrow> jstring \<Rightarrow> message_block list \<Rightarrow> thread_message" where
  "bot_live_message e mid blocks = event_message e mid RBot blocks"

definition reduce_live ::
  "(jstring \<Rightarrow> jstring) \<Rightarrow> (jstring \<Rightarrow> jstring) \<Rightarrow> (json \<Rightarrow> jstring) \<Rightarrow> live_update \<Rightarrow> snapshot \<Rightarrow> event_row \<Rightarrow> snapshot" where
  "reduce_live lc uc text_of u s e =
     (let liveId = progressMessageId e;
          (previous, remaining) = takeLiveMessage (hi_messages s) liveId;
          blocks = reduceLiveMessageBlocks lc uc text_of
            (case previous of Some m \<Rightarrow> tm_blocks m | None \<Rightarrow> []) u
      in s\<lparr>sn_cursor := e_seq e, hi_messages := remaining @ [bot_live_message e liveId blocks]\<rparr>)"

definition reduce_subagent :: "(json \<Rightarrow> jstring) \<Rightarrow> snapshot \<Rightarrow> event_row \<Rightarrow> snapshot" where
  "reduce_subagent text_of s e =
     (let block = subagentBlockFromPayload text_of (payload_fields e);
          next = bot_live_message e (js ''subagent:'' @ sub_agentId block) [BSubagent block];
          others = filter (\<lambda>m. tm_id m \<noteq> tm_id next) (hi_messages s);
          without = filter (\<lambda>m. \<not> is_progress_id (tm_id m)) others;
          kept = filter (\<lambda>m. is_progress_id (tm_id m) \<and> truthy (tm_runId m)) others
      in s\<lparr>sn_cursor := e_seq e, hi_messages := without @ [next] @ kept\<rparr>)"

definition reduce_message :: "snapshot \<Rightarrow> event_row \<Rightarrow> snapshot" where
  "reduce_message s e =
     (let role = (case p_role (e_payload e) of Some r \<Rightarrow> r | None \<Rightarrow> RBot);
          blocks = (case p_blocks (e_payload e) of Some bs \<Rightarrow> bs | None \<Rightarrow> []);
          mid = (case p_messageId (e_payload e) of Some i \<Rightarrow> i | None \<Rightarrow> e_id e);
          next = event_message e mid role blocks;
          remaining = snd (takeLiveMessage (hi_messages s) (progressMessageId e));
          without = filter (\<lambda>m. tm_id m \<noteq> mid \<and> \<not> replacedSubagent m (subagent_ids blocks)) remaining
      in s\<lparr>sn_cursor := e_seq e, hi_messages := without @ [next]\<rparr>)"

definition reduceThreadSnapshot ::
  "(jstring \<Rightarrow> jstring) \<Rightarrow> (jstring \<Rightarrow> jstring) \<Rightarrow> (json \<Rightarrow> jstring) \<Rightarrow> snapshot option \<Rightarrow> event_row \<Rightarrow> snapshot option" where
  "reduceThreadSnapshot lc uc text_of prev e =
     (case prev of
        None \<Rightarrow> None
      | Some s \<Rightarrow> Some
          (if e_type e = ThreadCleared then reduce_cleared s e
           else if e_type e = RunStarted then reduce_started s e
           else if e_type e = RunWaitingInput \<or> e_type e = ComputerTakeoverRequested then reduce_waiting s e
           else if isRunTerminalEvent (e_type e) then reduce_ended s e
           else if e_type e = ThreadProgress
           then reduce_live lc uc text_of (UpdateProgress (Some (payload_fields e))) s e
           else if e_type e = AgentToolCalled
           then reduce_live lc uc text_of
                  (UpdateTool (string_field text_of (js ''name'') (payload_fields e) [])) s e
           else if e_type e = ThreadSubagent then reduce_subagent text_of s e
           else if e_type e = ThreadMessageCreated \<or> e_type e = ThreadMessageUpdated then reduce_message s e
           else s))"

subsection \<open>Merging a refresh\<close>

definition mergeThreadSnapshot :: "snapshot option \<Rightarrow> snapshot \<Rightarrow> bool \<Rightarrow> snapshot" where
  "mergeThreadSnapshot prev next preserveLoadedHistory =
     (case prev of
        Some p \<Rightarrow> if hi_threadId p = hi_threadId next \<and> sn_cursor p > sn_cursor next then p
                  else mergeThreadHistory prev next preserveLoadedHistory
      | None \<Rightarrow> mergeThreadHistory prev next preserveLoadedHistory)"

definition prependThreadMessagePage :: "snapshot option \<Rightarrow> thread_history \<Rightarrow> snapshot option" where
  "prependThreadMessagePage prev page = prependThreadHistoryPage prev page"

text \<open>A refresh that is older than what the client already shows.\<close>

definition reconcile_older :: "snapshot \<Rightarrow> snapshot \<Rightarrow> computer_view option \<Rightarrow> snapshot \<times> computer_view option" where
  "reconcile_older prev snap prevComputer =
     (let hasMatchingLiveProgress = (case sn_run snap of
            None \<Rightarrow> False
          | Some r \<Rightarrow> \<exists>m \<in> set (hi_messages prev). tm_runId m = Some (nv_id r) \<and>
                        tm_id m = js ''progress:'' @ nv_id r)
      in if sn_run prev = None \<and> hasMatchingLiveProgress
         then (prev\<lparr>sn_run := sn_run snap, sn_activeRuns := sn_activeRuns snap,
                    sn_computer := sn_computer snap\<rparr>, sn_computer snap)
         else
           let preserveLocalComputer = (case sn_run prev of
                 None \<Rightarrow> True
               | Some r \<Rightarrow> nv_status r = WaitingTakeover \<or> \<not> isActive (nv_status r))
           in (prev, if preserveLocalComputer then prevComputer else sn_computer snap))"

definition local_waiting :: "snapshot option \<Rightarrow> snapshot \<Rightarrow> snapshot \<Rightarrow> bool" where
  "local_waiting prev snap merged \<longleftrightarrow>
     (case Option.bind prev sn_run of
        None \<Rightarrow> False
      | Some p \<Rightarrow> hi_threadId (the prev) = hi_threadId snap \<and> nv_status p = WaitingTakeover \<and>
          (case sn_run merged of
             None \<Rightarrow> False
           | Some r \<Rightarrow> nv_id r = nv_id p \<and> nv_status r \<noteq> WaitingTakeover \<and> isActive (nv_status r)))"

definition reconcile_newer :: "snapshot option \<Rightarrow> snapshot \<Rightarrow> bool \<Rightarrow> snapshot \<times> computer_view option" where
  "reconcile_newer prev snap preserveLoadedHistory =
     (let merged = mergeThreadSnapshot prev snap preserveLoadedHistory in
      if local_waiting prev snap merged
      then (merged\<lparr>sn_run := map_option (\<lambda>r. r\<lparr>nv_status := WaitingTakeover\<rparr>) (sn_run merged),
              sn_activeRuns := map_option (map (set_run_status (map_option nv_id (sn_run merged)) WaitingTakeover))
                (sn_activeRuns merged)\<rparr>,
            drop_busy (sn_computer snap))
      else (merged,
            if (case sn_run merged of Some r \<Rightarrow> nv_status r = WaitingTakeover | None \<Rightarrow> False)
            then drop_busy (sn_computer snap) else sn_computer snap))"

definition reconcileRefreshedThread ::
  "snapshot option \<Rightarrow> snapshot \<Rightarrow> computer_view option \<Rightarrow> bool \<Rightarrow> snapshot \<times> computer_view option" where
  "reconcileRefreshedThread prev snap prevComputer preserveLoadedHistory =
     (case prev of
        Some p \<Rightarrow>
          if hi_threadId p = hi_threadId snap \<and> sn_cursor snap < sn_cursor p
          then reconcile_older p snap prevComputer
          else reconcile_newer prev snap preserveLoadedHistory
      | None \<Rightarrow> reconcile_newer prev snap preserveLoadedHistory)"

subsection \<open>The computer beside the thread\<close>

definition userHoldsComputerControl :: "computer_view option \<Rightarrow> id option \<Rightarrow> bool" where
  "userHoldsComputerControl computer botId \<longleftrightarrow> truthy botId \<and>
     (case computer of None \<Rightarrow> False
      | Some c \<Rightarrow> cv_controlHolder c = HolderUser \<and> cv_controlBotId c = botId)"

definition computerTakeoverBlocked :: "computer_view option \<Rightarrow> run_status option \<Rightarrow> bool" where
  "computerTakeoverBlocked computer runStatus =
     (if \<not> truthy (Option.bind computer cv_busyBotName) then False
      else case runStatus of
             None \<Rightarrow> False
           | Some st \<Rightarrow> if st = WaitingTakeover then False else isActive st)"

datatype auto_boot = Boot | RecoverScreen | Wait

definition computerPanelAutoBoot :: "view_state option \<Rightarrow> jstring option \<Rightarrow> auto_boot" where
  "computerPanelAutoBoot state screenUrl =
     (if state = Some ViewBooting \<or> state = Some ViewSuspended then Wait
      else if state = Some ViewRunning then (if truthy screenUrl then Wait else RecoverScreen)
      else Boot)"

definition computerPanelAutoUsesBoot :: "auto_boot \<Rightarrow> bool" where
  "computerPanelAutoUsesBoot action \<longleftrightarrow> action = Boot \<or> action = RecoverScreen"

definition isComputerStatusEvent :: "event_type \<Rightarrow> bool" where
  "isComputerStatusEvent ty \<longleftrightarrow> ty \<in> set [ComputerStatus, ComputerTakeoverRequested,
     ComputerTakeoverGranted, ComputerTakeoverReleased]"

definition holder_of :: "json option \<Rightarrow> control_holder option" where
  "holder_of v = (if v = Some (JStr (js ''bot'')) then Some HolderBot
     else if v = Some (JStr (js ''none'')) then Some HolderNone else None)"

definition reduceComputerStatus :: "computer_view option \<Rightarrow> event_row \<Rightarrow> computer_view option" where
  "reduceComputerStatus prev e =
     (case prev of
        None \<Rightarrow> None
      | Some c \<Rightarrow> Some
          (if \<not> isComputerStatusEvent (e_type e) then c
           else if e_type e = ComputerTakeoverRequested then c\<lparr>cv_busyBotName := None\<rparr>
           else if e_type e = ComputerTakeoverGranted
           then c\<lparr>cv_controlHolder := HolderUser, cv_controlBotId := Some (e_botId e),
                  cv_takeoverRequested := (field (js ''takeoverRequested'') (payload_fields e) = Some (JBool True)),
                  cv_busyBotName := None\<rparr>
           else if e_type e = ComputerTakeoverReleased
           then (case holder_of (field (js ''holder'') (payload_fields e)) of
                   None \<Rightarrow> c
                 | Some h \<Rightarrow> c\<lparr>cv_controlHolder := h, cv_controlBotId := None,
                               cv_takeoverRequested := False, cv_busyBotName := None\<rparr>)
           else (case isComputerState (field (js ''status'') (payload_fields e)) of
                   None \<Rightarrow> c
                 | Some st \<Rightarrow> c\<lparr>cv_state := st,
                     cv_screenAvailable := (st = ViewRunning \<or> st = ViewBooting \<or> cv_screenAvailable c)\<rparr>)))"

subsection \<open>The snapshot stays consistent\<close>

text \<open>
  Well-formed snapshots: no two messages and no two active runs share an id. The inputs of a
  client are the events of its subscription, the answers of refreshes and pages of older
  messages.
\<close>

definition active_ids :: "snapshot \<Rightarrow> id list" where
  "active_ids s = (case sn_activeRuns s of None \<Rightarrow> [] | Some rs \<Rightarrow> map nv_id rs)"

definition client_ok :: "snapshot \<Rightarrow> bool" where
  "client_ok s \<longleftrightarrow> distinct (map tm_id (hi_messages s)) \<and> distinct (active_ids s)"

datatype client_input =
    InEvent event_row
  | InRefresh snapshot "computer_view option" bool
  | InPage thread_history

definition input_ok :: "client_input \<Rightarrow> bool" where
  "input_ok i = (case i of InRefresh snap _ _ \<Rightarrow> client_ok snap | _ \<Rightarrow> True)"

definition client_step ::
  "(jstring \<Rightarrow> jstring) \<Rightarrow> (jstring \<Rightarrow> jstring) \<Rightarrow> (json \<Rightarrow> jstring) \<Rightarrow> client_input \<Rightarrow> snapshot option \<Rightarrow> snapshot option" where
  "client_step lc uc text_of i s =
     (case i of
        InEvent e \<Rightarrow> reduceThreadSnapshot lc uc text_of s e
      | InRefresh snap c preserve \<Rightarrow> Some (fst (reconcileRefreshedThread s snap c preserve))
      | InPage page \<Rightarrow> prependThreadMessagePage s page)"

definition client_run_inputs ::
  "(jstring \<Rightarrow> jstring) \<Rightarrow> (jstring \<Rightarrow> jstring) \<Rightarrow> (json \<Rightarrow> jstring) \<Rightarrow> client_input list \<Rightarrow> snapshot option \<Rightarrow> snapshot option" where
  "client_run_inputs lc uc text_of is s = fold (client_step lc uc text_of) is s"

lemma distinct_ids_filter: "distinct (map k xs) \<Longrightarrow> distinct (map k (filter P xs))"
  by (rule distinct_map_filter)

lemma set_run_status_id [simp]: "nv_id (set_run_status rid st r) = nv_id r" "nv_id \<circ> set_run_status rid st = nv_id"
  by (simp_all add: set_run_status_def fun_eq_iff)

lemma set_run_status_ok:
  "client_ok (s\<lparr>sn_run := x, sn_activeRuns := map_option (map (set_run_status i st)) (sn_activeRuns s)\<rparr>) \<longleftrightarrow>
   client_ok s"
  by (cases "sn_activeRuns s") (simp_all add: client_ok_def active_ids_def)

lemma client_ok_messages:
  "client_ok s \<Longrightarrow> distinct (map tm_id ms) \<Longrightarrow> sn_activeRuns s' = sn_activeRuns s \<Longrightarrow> hi_messages s' = ms \<Longrightarrow>
   client_ok s'"
  by (simp add: client_ok_def active_ids_def)

lemma client_ok_runs:
  "client_ok s \<Longrightarrow> hi_messages s' = filter P (hi_messages s) \<Longrightarrow> distinct (active_ids s') \<Longrightarrow> client_ok s'"
  by (simp add: client_ok_def distinct_ids_filter)

lemma appended_ok:
  "distinct (map tm_id ms) \<Longrightarrow> distinct (map tm_id (filter (\<lambda>m. tm_id m \<noteq> tm_id x \<and> P m) ms @ [x]))"
  by (auto simp: distinct_ids_filter)

lemma reduce_cleared_ok: "client_ok (reduce_cleared s e)"
  by (simp add: client_ok_def reduce_cleared_def active_ids_def)

lemma active_thread_runs_distinct: "client_ok s \<Longrightarrow> distinct (map nv_id (activeThreadRuns (Some s)))"
  by (auto simp: client_ok_def active_ids_def activeThreadRuns_def split: option.splits)

lemma reduce_started_ok:
  assumes "client_ok s"
  shows "client_ok (reduce_started s e)"
proof -
  have ms: "hi_messages (reduce_started s e) = filter (\<lambda>_. True) (hi_messages s)"
    by (simp add: reduce_started_def Let_def)
  have "distinct (map nv_id (filter (\<lambda>c. nv_id c \<noteq> i) (activeThreadRuns (Some s))))" for i
    by (rule distinct_ids_filter) (rule active_thread_runs_distinct [OF assms])
  then have "distinct (active_ids (reduce_started s e))"
    using assms by (auto simp: reduce_started_def Let_def active_ids_def client_ok_def)
  with assms ms show ?thesis by (rule client_ok_runs)
qed

lemma reduce_waiting_ok:
  assumes "client_ok s"
  shows "client_ok (reduce_waiting s e)"
proof -
  have "\<exists>P. hi_messages (reduce_waiting s e) = filter P (hi_messages s)"
  proof (cases "e_type e = RunWaitingInput")
    case True
    then have "hi_messages (reduce_waiting s e) = filter (\<lambda>m. tm_id m \<noteq> progressMessageId e) (hi_messages s)"
      by (auto simp: reduce_waiting_def Let_def)
    then show ?thesis by blast
  next
    case False
    then have "hi_messages (reduce_waiting s e) = filter (\<lambda>_. True) (hi_messages s)"
      by (simp add: reduce_waiting_def Let_def)
    then show ?thesis by blast
  qed
  moreover have "active_ids (reduce_waiting s e) = active_ids s"
    by (auto simp: reduce_waiting_def Let_def active_ids_def set_run_status_def split: option.splits)
  ultimately show ?thesis using assms by (auto simp: client_ok_def distinct_ids_filter)
qed

lemma reduce_ended_ok:
  assumes "client_ok s"
  shows "client_ok (reduce_ended s e)"
    and "progressMessageId e \<notin> set (map tm_id (hi_messages (reduce_ended s e)))"
    and "e_runId e = Some r \<Longrightarrow> r \<notin> set (active_ids (reduce_ended s e))"
proof -
  have "distinct (active_ids (reduce_ended s e))"
    using assms by (auto simp: reduce_ended_def Let_def active_ids_def client_ok_def distinct_ids_filter
        split: option.splits)
  then show "client_ok (reduce_ended s e)"
    using client_ok_runs [OF assms, of "reduce_ended s e" "\<lambda>m. tm_id m \<noteq> progressMessageId e"]
    by (simp add: reduce_ended_def Let_def)
  show "progressMessageId e \<notin> set (map tm_id (hi_messages (reduce_ended s e)))"
    by (auto simp: reduce_ended_def Let_def)
  show "e_runId e = Some r \<Longrightarrow> r \<notin> set (active_ids (reduce_ended s e))"
    by (auto simp: reduce_ended_def Let_def active_ids_def split: option.splits)
qed

lemma reduce_live_ok: "client_ok s \<Longrightarrow> client_ok (reduce_live lc uc text_of u s e)"
  by (auto simp: reduce_live_def takeLiveMessage_def Let_def client_ok_def active_ids_def
      bot_live_message_def event_message_def distinct_ids_filter)

lemma reduce_message_ok: "client_ok s \<Longrightarrow> client_ok (reduce_message s e)"
  by (auto simp: reduce_message_def takeLiveMessage_def Let_def client_ok_def active_ids_def
      event_message_def distinct_ids_filter)

lemma reduce_subagent_ok: "client_ok s \<Longrightarrow> client_ok (reduce_subagent text_of s e)"
  by (auto simp: reduce_subagent_def Let_def client_ok_def active_ids_def distinct_ids_filter
      bot_live_message_def event_message_def distinct_map inj_on_def)

lemma reduce_snapshot_ok:
  assumes "client_ok s" and "reduceThreadSnapshot lc uc text_of (Some s) e = Some s'"
  shows "client_ok s'"
  using assms(2) reduce_cleared_ok [of s e] reduce_started_ok [OF assms(1), of e]
    reduce_waiting_ok [OF assms(1), of e] reduce_ended_ok(1) [OF assms(1), of e]
    reduce_live_ok [OF assms(1)] reduce_message_ok [OF assms(1), of e]
    reduce_subagent_ok [OF assms(1)] assms(1)
  by (simp add: reduceThreadSnapshot_def) (auto split: if_splits)

lemma unseen_ids: "distinct (map tm_id (unseen seen ms)) \<and> set (map tm_id (unseen seen ms)) \<inter> seen = {}"
proof (induction ms arbitrary: seen)
  case (Cons m ms)
  from Cons.IH [of seen] Cons.IH [of "insert (tm_id m) seen"] show ?case by auto
qed simp

lemma merge_history_ok:
  assumes "client_ok snap"
  shows "client_ok (mergeThreadHistory prev snap preserve)"
  using assms unseen_ids
  by (auto simp: mergeThreadHistory_def client_ok_def mergeMessagePages_def mergeMessagesById_def
      active_ids_def split: option.splits)

lemma merge_snapshot_ok:
  "client_ok snap \<Longrightarrow> (\<And>p. prev = Some p \<Longrightarrow> client_ok p) \<Longrightarrow> client_ok (mergeThreadSnapshot prev snap preserve)"
  by (auto simp: mergeThreadSnapshot_def merge_history_ok split: option.splits)

lemma reconcile_ok:
  assumes "client_ok snap" and "\<And>p. prev = Some p \<Longrightarrow> client_ok p"
  shows "client_ok (fst (reconcileRefreshedThread prev snap c preserve))"
proof -
  note m = merge_snapshot_ok [OF assms]
  have newer: "client_ok (fst (reconcile_newer prev snap preserve))"
    using m by (simp add: reconcile_newer_def Let_def set_run_status_ok)
  have older: "client_ok (fst (reconcile_older p snap c))" if "client_ok p" for p
    using that assms(1) by (auto simp: reconcile_older_def Let_def client_ok_def active_ids_def)
  show ?thesis
    using newer older assms(2) by (auto simp: reconcileRefreshedThread_def split: option.splits)
qed

lemma prepend_ok:
  "client_ok s \<Longrightarrow> prependThreadMessagePage (Some s) page = Some s' \<Longrightarrow> client_ok s'"
  using unseen_ids
  by (auto simp: prependThreadMessagePage_def prependThreadHistoryPage_def client_ok_def active_ids_def
      mergeMessagesById_def split: if_splits)

lemma client_step_ok:
  assumes "input_ok i" and "\<And>p. s = Some p \<Longrightarrow> client_ok p" and "client_step lc uc text_of i s = Some s'"
  shows "client_ok s'"
proof (cases i)
  case (InEvent e)
  with assms show ?thesis
    by (cases s) (auto simp: client_step_def reduceThreadSnapshot_def intro: reduce_snapshot_ok)
next
  case (InRefresh snap c preserve)
  then show ?thesis
    using assms reconcile_ok [of snap s c preserve] by (auto simp: client_step_def input_ok_def)
next
  case (InPage page)
  with assms show ?thesis
    by (cases s) (auto simp: client_step_def prependThreadMessagePage_def prependThreadHistoryPage_def
        intro: prepend_ok)
qed

lemma client_inputs_ok:
  assumes "list_all input_ok is" and "client_ok s" and "client_run_inputs lc uc text_of is (Some s) = Some s'"
  shows "client_ok s'"
  using assms
proof (induction "is" arbitrary: s)
  case Nil
  then show ?case by (simp add: client_run_inputs_def)
next
  case (Cons i js)
  have "\<exists>t. client_step lc uc text_of i (Some s) = Some t"
    by (cases i) (simp_all add: client_step_def reduceThreadSnapshot_def prependThreadMessagePage_def
        prependThreadHistoryPage_def)
  then obtain t where t: "client_step lc uc text_of i (Some s) = Some t" by blast
  have "client_ok t"
    using Cons.prems by (intro client_step_ok [OF _ _ t]) auto
  with Cons t show ?case by (simp add: client_run_inputs_def)
qed

text \<open>
  C23. The thread a client shows stays well-formed under everything that reaches it, in any
  order: events of the subscription, answers of refreshes that are older or newer than the
  events, and pages of older messages never make two messages or two active runs with the same
  id. When the last event ended a run, the run is not active any more and its live message is
  gone.
\<close>

theorem client_thread_stays_well_formed:
  assumes "list_all input_ok is" and "client_ok s"
    and "client_run_inputs lc uc text_of is (Some s) = Some t"
  shows "client_ok t \<and>
    (\<forall>e r t'. isRunTerminalEvent (e_type e) \<longrightarrow> e_runId e = Some r \<longrightarrow>
       client_step lc uc text_of (InEvent e) (Some t) = Some t' \<longrightarrow>
       r \<notin> set (active_ids t') \<and> js ''progress:'' @ r \<notin> set (map tm_id (hi_messages t')))"
proof (intro conjI allI impI)
  show ok: "client_ok t" by (rule client_inputs_ok [OF assms])
  fix e r t'
  assume ended: "isRunTerminalEvent (e_type e)" and r: "e_runId e = Some r"
    and step: "client_step lc uc text_of (InEvent e) (Some t) = Some t'"
  have t': "t' = reduce_ended t e"
    using ended step by (auto simp: client_step_def reduceThreadSnapshot_def isRunTerminalEvent_def)
  show "r \<notin> set (active_ids t')" unfolding t' by (rule reduce_ended_ok(3) [OF ok r])
  show "js ''progress:'' @ r \<notin> set (map tm_id (hi_messages t'))"
    using reduce_ended_ok(2) [OF ok, of e] r by (simp add: t' progressMessageId_def)
qed

definition blank_snapshot :: "id \<Rightarrow> snapshot" where
  "blank_snapshot tid = \<lparr>hi_threadId = tid, hi_messages = [], hi_olderCursor = None, sn_cursor = 0,
     sn_botId = None, sn_groupId = None, sn_groupName = None, sn_members = None, sn_run = None,
     sn_activeRuns = None, sn_computer = None\<rparr>"

theorem client_thread_stays_well_formed_witness:
  "\<exists>t. client_run_inputs id id (\<lambda>_. []) [InRefresh (blank_snapshot th1) None True] (Some (blank_snapshot th1)) = Some t \<and>
     client_ok t"
proof -
  have ok: "client_ok (blank_snapshot th1)" by (simp add: blank_snapshot_def client_ok_def active_ids_def)
  obtain t where t: "client_run_inputs id id (\<lambda>_. []) [InRefresh (blank_snapshot th1) None True]
      (Some (blank_snapshot th1)) = Some t"
    by (simp add: client_run_inputs_def client_step_def)
  have "client_ok t"
    using client_thread_stays_well_formed [OF _ ok t] ok by (simp add: input_ok_def)
  with t show ?thesis by blast
qed

end
