(* ===== verification/JobQueue.thy ===== *)
theory JobQueue
  imports Db
begin

text \<open>
  Background jobs: their names, payloads and replacement keys with the parser of the worker,
  \<open>packages/adapter-kit/src/background-jobs.ts\<close>, and the in-memory queue of
  \<open>packages/adapters/src/wakeup.ts\<close>, which keeps one timer per job and at most one pending
  job per key. The text of an instant and the test for such a text are the parameters \<open>iso_text\<close>
  and \<open>datetime\<close>; the queue of the database library is not modelled.
\<close>

subsection \<open>Jobs and their keys\<close>

datatype job_payload =
    RunContinue id
  | RoutineWakeup id jstring
  | ComputerSleep id
  | ComputerControlExpire id id
  | SkillTeachingExpire id
  | HistoryCompact id

record background_job =
  bj_payload :: job_payload
  bj_availableAt :: "time option"
  bj_replaceKey :: "jstring option"

definition runJobKey :: "id \<Rightarrow> jstring" where
  "runJobKey runId = js ''run:'' @ runId"

definition routineJobKey :: "id \<Rightarrow> jstring" where
  "routineJobKey routineId = js ''routine:'' @ routineId"

definition computerSleepJobKey :: "id \<Rightarrow> jstring" where
  "computerSleepJobKey computerId = js ''computer.sleep:'' @ computerId"

definition computerControlExpireJobKey :: "id \<Rightarrow> id option \<Rightarrow> jstring" where
  "computerControlExpireJobKey computerId leaseId =
     (if truthy leaseId then js ''computer.control-expire:'' @ computerId @ js '':'' @ the leaseId
      else js ''computer.control-expire:'' @ computerId)"

definition skillTeachingExpireJobKey :: "id \<Rightarrow> jstring" where
  "skillTeachingExpireJobKey skillId = js ''skill.teaching-expire:'' @ skillId"

definition historyCompactJobKey :: "id \<Rightarrow> jstring" where
  "historyCompactJobKey threadId = js ''history.compact:'' @ threadId"

definition runContinueJob :: "id \<Rightarrow> background_job" where
  "runContinueJob runId = \<lparr>bj_payload = RunContinue runId, bj_availableAt = None,
     bj_replaceKey = Some (runJobKey runId)\<rparr>"

definition routineWakeupJob :: "(time \<Rightarrow> jstring) \<Rightarrow> id \<Rightarrow> time \<Rightarrow> background_job" where
  "routineWakeupJob iso_text routineId scheduledFor =
     \<lparr>bj_payload = RoutineWakeup routineId (iso_text scheduledFor), bj_availableAt = Some scheduledFor,
      bj_replaceKey = Some (routineJobKey routineId)\<rparr>"

definition computerSleepJob :: "id \<Rightarrow> time \<Rightarrow> background_job" where
  "computerSleepJob computerId availableAt =
     \<lparr>bj_payload = ComputerSleep computerId, bj_availableAt = Some availableAt,
      bj_replaceKey = Some (computerSleepJobKey computerId)\<rparr>"

definition computerControlExpireJob :: "id \<Rightarrow> id \<Rightarrow> time \<Rightarrow> background_job" where
  "computerControlExpireJob computerId leaseId availableAt =
     \<lparr>bj_payload = ComputerControlExpire computerId leaseId, bj_availableAt = Some availableAt,
      bj_replaceKey = Some (computerControlExpireJobKey computerId (Some leaseId))\<rparr>"

definition skillTeachingExpireJob :: "id \<Rightarrow> time \<Rightarrow> background_job" where
  "skillTeachingExpireJob skillId availableAt =
     \<lparr>bj_payload = SkillTeachingExpire skillId, bj_availableAt = Some availableAt,
      bj_replaceKey = Some (skillTeachingExpireJobKey skillId)\<rparr>"

definition historyCompactJob :: "id \<Rightarrow> background_job" where
  "historyCompactJob threadId = \<lparr>bj_payload = HistoryCompact threadId, bj_availableAt = None,
     bj_replaceKey = Some (historyCompactJobKey threadId)\<rparr>"

subsection \<open>Parsing what the worker receives\<close>

datatype job_error = UnknownJob jstring | InvalidPayload

definition min_string :: "jstring \<Rightarrow> json \<Rightarrow> jstring option" where
  "min_string k payload =
     (case payload of
        JObj fs \<Rightarrow> (case field k fs of Some (JStr s) \<Rightarrow> if s \<noteq> [] then Some s else None | _ \<Rightarrow> None)
      | _ \<Rightarrow> None)"

text \<open>The schema of each job; keys the schema does not name are dropped.\<close>

definition payloadSchemas ::
  "(jstring \<Rightarrow> bool) \<Rightarrow> (jstring \<times> (json \<Rightarrow> job_payload option)) list" where
  "payloadSchemas datetime =
     [(js ''run.continue'', \<lambda>p. map_option RunContinue (min_string (js ''runId'') p)),
      (js ''routine.wakeup'', \<lambda>p.
         Option.bind (min_string (js ''routineId'') p) (\<lambda>r.
         Option.bind (min_string (js ''scheduledFor'') p) (\<lambda>t.
         if datetime t then Some (RoutineWakeup r t) else None))),
      (js ''computer.sleep'', \<lambda>p. map_option ComputerSleep (min_string (js ''computerId'') p)),
      (js ''computer.control-expire'', \<lambda>p.
         Option.bind (min_string (js ''computerId'') p) (\<lambda>c.
         map_option (ComputerControlExpire c) (min_string (js ''leaseId'') p))),
      (js ''skill.teaching-expire'', \<lambda>p. map_option SkillTeachingExpire (min_string (js ''skillId'') p)),
      (js ''history.compact'', \<lambda>p. map_option HistoryCompact (min_string (js ''threadId'') p))]"

definition parseBackgroundJob :: "(jstring \<Rightarrow> bool) \<Rightarrow> jstring \<Rightarrow> json \<Rightarrow> job_error + job_payload" where
  "parseBackgroundJob datetime name payload =
     (case map_of (payloadSchemas datetime) name of
        None \<Rightarrow> Inl (UnknownJob name)
      | Some schema \<Rightarrow> (case schema payload of None \<Rightarrow> Inl InvalidPayload | Some p \<Rightarrow> Inr p))"

definition dispatchBackgroundJob ::
  "(jstring \<Rightarrow> bool) \<Rightarrow> (job_payload \<Rightarrow> 'r) \<Rightarrow> jstring \<Rightarrow> json \<Rightarrow> job_error + 'r" where
  "dispatchBackgroundJob datetime handlers name payload =
     (case parseBackgroundJob datetime name payload of Inl e \<Rightarrow> Inl e | Inr p \<Rightarrow> Inr (handlers p))"

text \<open>The name and the payload a job is stored with.\<close>

definition job_name :: "job_payload \<Rightarrow> jstring" where
  "job_name p = (case p of RunContinue _ \<Rightarrow> js ''run.continue'' | RoutineWakeup _ _ \<Rightarrow> js ''routine.wakeup''
     | ComputerSleep _ \<Rightarrow> js ''computer.sleep'' | ComputerControlExpire _ _ \<Rightarrow> js ''computer.control-expire''
     | SkillTeachingExpire _ \<Rightarrow> js ''skill.teaching-expire'' | HistoryCompact _ \<Rightarrow> js ''history.compact'')"

definition job_json :: "job_payload \<Rightarrow> json" where
  "job_json p = JObj (case p of
       RunContinue r \<Rightarrow> [(js ''runId'', JStr r)]
     | RoutineWakeup r t \<Rightarrow> [(js ''routineId'', JStr r), (js ''scheduledFor'', JStr t)]
     | ComputerSleep c \<Rightarrow> [(js ''computerId'', JStr c)]
     | ComputerControlExpire c l \<Rightarrow> [(js ''computerId'', JStr c), (js ''leaseId'', JStr l)]
     | SkillTeachingExpire s \<Rightarrow> [(js ''skillId'', JStr s)]
     | HistoryCompact t \<Rightarrow> [(js ''threadId'', JStr t)])"

definition job_ok :: "(jstring \<Rightarrow> bool) \<Rightarrow> job_payload \<Rightarrow> bool" where
  "job_ok datetime p = (case p of RunContinue r \<Rightarrow> r \<noteq> [] | RoutineWakeup r t \<Rightarrow> r \<noteq> [] \<and> t \<noteq> [] \<and> datetime t
     | ComputerSleep c \<Rightarrow> c \<noteq> [] | ComputerControlExpire c l \<Rightarrow> c \<noteq> [] \<and> l \<noteq> []
     | SkillTeachingExpire s \<Rightarrow> s \<noteq> [] | HistoryCompact t \<Rightarrow> t \<noteq> [])"

lemma parse_stored_job:
  "job_ok datetime p \<Longrightarrow> parseBackgroundJob datetime (job_name p) (job_json p) = Inr p"
  by (cases p) (simp_all add: parseBackgroundJob_def payloadSchemas_def job_name_def job_json_def job_ok_def
      min_string_def field_def)

lemma parsed_job_ok:
  "parseBackgroundJob datetime name payload = Inr p \<Longrightarrow> job_ok datetime p \<and> job_name p = name"
  by (auto simp: parseBackgroundJob_def payloadSchemas_def job_ok_def job_name_def min_string_def
      bind_eq_Some_conv split: option.splits if_splits json.splits)

subsection \<open>The in-memory queue\<close>

record timer =
  tr_id :: nat
  tr_due :: time
  tr_job :: background_job

record job_queue =
  jq_handlers :: bool
  jq_timers :: "timer list"
  jq_keyed :: "jstring \<rightharpoonup> nat"
  jq_closed :: bool
  jq_nextTimer :: nat

definition empty_queue :: job_queue where
  "empty_queue = \<lparr>jq_handlers = False, jq_timers = [], jq_keyed = Map.empty, jq_closed = False,
     jq_nextTimer = 0\<rparr>"

definition clear_timer :: "nat \<Rightarrow> timer list \<Rightarrow> timer list" where
  "clear_timer t timers = filter (\<lambda>x. tr_id x \<noteq> t) timers"

definition cancel_job :: "jstring \<Rightarrow> job_queue \<Rightarrow> job_queue" where
  "cancel_job key q =
     (case jq_keyed q key of
        None \<Rightarrow> q
      | Some t \<Rightarrow> q\<lparr>jq_keyed := (jq_keyed q)(key := None), jq_timers := clear_timer t (jq_timers q)\<rparr>)"

definition enqueue_job :: "time \<Rightarrow> background_job \<Rightarrow> job_queue \<Rightarrow> job_queue option" where
  "enqueue_job now job q =
     (if jq_closed q then None
      else
        let q1 = (if truthy (bj_replaceKey job) then cancel_job (the (bj_replaceKey job)) q else q);
            due = (case bj_availableAt job of None \<Rightarrow> now | Some a \<Rightarrow> max now a);
            t = jq_nextTimer q1
        in Some (q1\<lparr>jq_timers := jq_timers q1 @ [\<lparr>tr_id = t, tr_due = due, tr_job = job\<rparr>],
                    jq_nextTimer := t + 1,
                    jq_keyed := (if truthy (bj_replaceKey job)
                                 then (jq_keyed q1)(the (bj_replaceKey job) \<mapsto> t) else jq_keyed q1)\<rparr>))"

text \<open>A timer fires: its job goes to the handlers, when there are any.\<close>

definition fire_timer :: "timer \<Rightarrow> job_queue \<Rightarrow> job_payload option \<times> job_queue" where
  "fire_timer x q =
     (if jq_handlers q then Some (bj_payload (tr_job x)) else None,
      q\<lparr>jq_timers := clear_timer (tr_id x) (jq_timers q),
        jq_keyed := (if truthy (bj_replaceKey (tr_job x)) \<and>
                        jq_keyed q (the (bj_replaceKey (tr_job x))) = Some (tr_id x)
                     then (jq_keyed q)(the (bj_replaceKey (tr_job x)) := None) else jq_keyed q)\<rparr>)"

definition start_queue :: "job_queue \<Rightarrow> job_queue" where
  "start_queue q = q\<lparr>jq_handlers := True\<rparr>"

definition stop_queue :: "job_queue \<Rightarrow> job_queue" where
  "stop_queue q = q\<lparr>jq_handlers := False, jq_timers := [], jq_keyed := Map.empty\<rparr>"

definition close_queue :: "job_queue \<Rightarrow> job_queue" where
  "close_queue q = (if jq_closed q then q else stop_queue (q\<lparr>jq_closed := True\<rparr>))"

subsection \<open>One pending job per key\<close>

text \<open>
  The key map and the timers agree: a key leads to the one timer whose job has that key. In
  the abstract view the queue is the list of its pending jobs with their due times.
\<close>

definition job_key :: "background_job \<Rightarrow> jstring option" where
  "job_key job = (if truthy (bj_replaceKey job) then bj_replaceKey job else None)"

definition queue_ok :: "job_queue \<Rightarrow> bool" where
  "queue_ok q \<longleftrightarrow> distinct (map tr_id (jq_timers q)) \<and>
     (\<forall>x \<in> set (jq_timers q). tr_id x < jq_nextTimer q) \<and>
     (\<forall>k t. jq_keyed q k = Some t \<longleftrightarrow> (\<exists>x \<in> set (jq_timers q). tr_id x = t \<and> job_key (tr_job x) = Some k))"

definition pending :: "job_queue \<Rightarrow> (time \<times> background_job) list" where
  "pending q = map (\<lambda>x. (tr_due x, tr_job x)) (jq_timers q)"

lemma job_key_simps:
  "truthy (bj_replaceKey job) \<Longrightarrow> job_key job = Some (the (bj_replaceKey job))"
  "\<not> truthy (bj_replaceKey job) \<Longrightarrow> job_key job = None"
  by (auto simp: job_key_def truthy_def split: option.splits)

lemma same_timer:
  "queue_ok q \<Longrightarrow> x \<in> set (jq_timers q) \<Longrightarrow> y \<in> set (jq_timers q) \<Longrightarrow> tr_id x = tr_id y \<Longrightarrow> x = y"
  by (auto simp: queue_ok_def intro: distinct_key_eq)

lemma queue_keyed:
  assumes "queue_ok q"
  shows "x \<in> set (jq_timers q) \<Longrightarrow> job_key (tr_job x) = Some k \<Longrightarrow> jq_keyed q k = Some (tr_id x)"
    and "jq_keyed q k = Some t \<Longrightarrow> \<exists>x \<in> set (jq_timers q). tr_id x = t \<and> job_key (tr_job x) = Some k"
  using assms unfolding queue_ok_def by blast+

lemma cancel_pending:
  assumes "queue_ok q"
  shows "pending (cancel_job key q) = filter (\<lambda>p. job_key (snd p) \<noteq> Some key) (pending q)"
proof (cases "jq_keyed q key")
  case None
  then have "\<forall>x \<in> set (jq_timers q). job_key (tr_job x) \<noteq> Some key"
    using queue_keyed(1) [OF assms] by fastforce
  with None show ?thesis
    by (auto simp: cancel_job_def pending_def filter_map comp_def intro!: filter_True [symmetric])
next
  case (Some t)
  then obtain x where x: "x \<in> set (jq_timers q)" "tr_id x = t" "job_key (tr_job x) = Some key"
    using queue_keyed(2) [OF assms] by blast
  have "tr_id y \<noteq> t \<longleftrightarrow> job_key (tr_job y) \<noteq> Some key" if y: "y \<in> set (jq_timers q)" for y
  proof
    assume "tr_id y \<noteq> t"
    show "job_key (tr_job y) \<noteq> Some key"
    proof
      assume "job_key (tr_job y) = Some key"
      with y have "jq_keyed q key = Some (tr_id y)" by (rule queue_keyed(1) [OF assms])
      with Some \<open>tr_id y \<noteq> t\<close> show False by simp
    qed
  next
    assume "job_key (tr_job y) \<noteq> Some key"
    then have "x \<noteq> y" using x(3) by blast
    then show "tr_id y \<noteq> t" using same_timer [OF assms x(1) y] x(2) by metis
  qed
  then have "filter (\<lambda>y. tr_id y \<noteq> t) (jq_timers q) = filter (\<lambda>y. job_key (tr_job y) \<noteq> Some key) (jq_timers q)"
    by (auto intro: filter_cong)
  with Some show ?thesis by (simp add: cancel_job_def pending_def clear_timer_def filter_map comp_def)
qed

lemma cancel_ok:
  assumes "queue_ok q"
  shows "queue_ok (cancel_job key q)"
proof (cases "jq_keyed q key")
  case None
  with assms show ?thesis by (simp add: cancel_job_def)
next
  case (Some t)
  obtain y where y: "y \<in> set (jq_timers q)" "tr_id y = t" "job_key (tr_job y) = Some key"
    using queue_keyed(2) [OF assms Some] by blast
  have eq: "cancel_job key q = q\<lparr>jq_keyed := (jq_keyed q)(key := None), jq_timers := clear_timer t (jq_timers q)\<rparr>"
    by (simp add: cancel_job_def Some)
  have "((jq_keyed q)(key := None)) k = Some u \<longleftrightarrow>
      (\<exists>x \<in> set (clear_timer t (jq_timers q)). tr_id x = u \<and> job_key (tr_job x) = Some k)" for k u
  proof
    assume u: "((jq_keyed q)(key := None)) k = Some u"
    then have k: "k \<noteq> key" "jq_keyed q k = Some u" by (auto split: if_splits)
    then obtain x where x: "x \<in> set (jq_timers q)" "tr_id x = u" "job_key (tr_job x) = Some k"
      using queue_keyed(2) [OF assms] by blast
    have "tr_id x \<noteq> t" using same_timer [OF assms x(1) y(1)] x y k by auto
    with x show "\<exists>x \<in> set (clear_timer t (jq_timers q)). tr_id x = u \<and> job_key (tr_job x) = Some k"
      by (auto simp: clear_timer_def)
  next
    assume "\<exists>x \<in> set (clear_timer t (jq_timers q)). tr_id x = u \<and> job_key (tr_job x) = Some k"
    then obtain x where x: "x \<in> set (jq_timers q)" "tr_id x \<noteq> t" "tr_id x = u" "job_key (tr_job x) = Some k"
      by (auto simp: clear_timer_def)
    then have "jq_keyed q k = Some u" using queue_keyed(1) [OF assms] by blast
    with x Some show "((jq_keyed q)(key := None)) k = Some u" by auto
  qed
  then show ?thesis
    unfolding eq queue_ok_def using assms by (auto simp: queue_ok_def clear_timer_def distinct_map_filter)
qed

text \<open>Enqueueing replaces the pending job with the same key and leaves every other one.\<close>

lemma enqueue_pending:
  assumes "queue_ok q" and "enqueue_job now job q = Some q'"
  shows "pending q' = filter (\<lambda>p. job_key job = None \<or> job_key (snd p) \<noteq> job_key job) (pending q) @
     [(case bj_availableAt job of None \<Rightarrow> now | Some a \<Rightarrow> max now a, job)]"
proof -
  have "pending q' = pending (if truthy (bj_replaceKey job) then cancel_job (the (bj_replaceKey job)) q else q) @
      [(case bj_availableAt job of None \<Rightarrow> now | Some a \<Rightarrow> max now a, job)]"
    using assms(2) by (auto simp: enqueue_job_def Let_def pending_def split: if_splits)
  then show ?thesis
    using cancel_pending [OF assms(1)] by (cases "truthy (bj_replaceKey job)") (simp_all add: job_key_simps)
qed

lemma cancelled_key: "queue_ok q \<Longrightarrow> jq_keyed (cancel_job key q) key = None"
  by (auto simp: cancel_job_def split: option.splits)

lemma add_timer_ok:
  assumes ok: "queue_ok r" and free: "\<And>k. job_key job = Some k \<Longrightarrow> jq_keyed r k = None"
  shows "queue_ok (r\<lparr>jq_timers := jq_timers r @ [\<lparr>tr_id = jq_nextTimer r, tr_due = due, tr_job = job\<rparr>],
     jq_nextTimer := jq_nextTimer r + 1,
     jq_keyed := (case job_key job of None \<Rightarrow> jq_keyed r | Some k \<Rightarrow> (jq_keyed r)(k \<mapsto> jq_nextTimer r))\<rparr>)"
proof -
  let ?x = "\<lparr>tr_id = jq_nextTimer r, tr_due = due, tr_job = job\<rparr> :: timer"
  let ?m = "case job_key job of None \<Rightarrow> jq_keyed r | Some k \<Rightarrow> (jq_keyed r)(k \<mapsto> jq_nextTimer r)"
  have low: "\<forall>x \<in> set (jq_timers r). tr_id x < jq_nextTimer r" and dist: "distinct (map tr_id (jq_timers r))"
    using ok by (simp_all add: queue_ok_def)
  have old: "jq_keyed r k = Some t \<longleftrightarrow> (\<exists>x \<in> set (jq_timers r). tr_id x = t \<and> job_key (tr_job x) = Some k)" for k t
    using ok unfolding queue_ok_def by blast
  have "?m k = Some t \<longleftrightarrow> (\<exists>x \<in> set (jq_timers r @ [?x]). tr_id x = t \<and> job_key (tr_job x) = Some k)" for k t
  proof (cases "job_key job = Some k")
    case True
    then have "jq_keyed r k = None" by (rule free)
    then have "\<not> (\<exists>x \<in> set (jq_timers r). tr_id x = t \<and> job_key (tr_job x) = Some k)"
      using old [of k t] by simp
    with True show ?thesis by auto
  next
    case False
    then have "?m k = jq_keyed r k" by (cases "job_key job") auto
    with False show ?thesis using old [of k t] by simp
  qed
  then show ?thesis
    unfolding queue_ok_def using low dist by (auto simp: less_Suc_eq)
qed

lemma enqueue_ok:
  assumes "queue_ok q" and "enqueue_job now job q = Some q'"
  shows "queue_ok q'"
proof (cases "truthy (bj_replaceKey job)")
  case True
  define k where "k = the (bj_replaceKey job)"
  have key: "job_key job = Some k" using job_key_simps(1) [OF True] by (simp add: k_def)
  have "queue_ok (cancel_job k q)" "\<And>j. job_key job = Some j \<Longrightarrow> jq_keyed (cancel_job k q) j = None"
    using cancel_ok [OF assms(1)] cancelled_key [OF assms(1)] key by auto
  note add_timer_ok [where job = job and due = "case bj_availableAt job of None \<Rightarrow> now | Some a \<Rightarrow> max now a", OF this]
  then show ?thesis
    using assms(2) True key by (simp add: enqueue_job_def Let_def k_def split: if_splits)
next
  case False
  then have key: "job_key job = None" by (rule job_key_simps(2))
  then have "\<And>j. job_key job = Some j \<Longrightarrow> jq_keyed q j = None" by simp
  note add_timer_ok [where job = job and due = "case bj_availableAt job of None \<Rightarrow> now | Some a \<Rightarrow> max now a", OF assms(1) this]
  then show ?thesis
    using assms(2) False key by (simp add: enqueue_job_def Let_def split: if_splits)
qed

lemma empty_queue_ok: "queue_ok empty_queue"
  by (simp add: queue_ok_def empty_queue_def)

lemma stop_queue_ok: "queue_ok (stop_queue q)" and close_queue_ok: "queue_ok q \<Longrightarrow> queue_ok (close_queue q)"
  by (auto simp: queue_ok_def stop_queue_def close_queue_def)

end
