(* ===== verification/JobReconciler.thy ===== *)
theory JobReconciler
  imports JobQueue Example "HOL-Library.List_Lexorder" "HOL-Library.Product_Lexorder"
begin

text \<open>
  The reconciler, \<open>packages/adapters/src/job-reconciler.ts\<close>: every interval the elected leader
  enqueues a batch of the runs, routines and computers that may have lost their job, in the
  order of a time and an id, and remembers where the batch ended. A batch that is not full
  ends the scan, and the next pass starts over. The three scans are instances of one locale,
  in which it is proved that a row that stays due is reached within as many passes as there
  are rows up to it, whatever happens to the other rows between the passes. Identifiers are
  compared as the database compares them; the model takes the order of their code units.
\<close>

subsection \<open>The batches of a pass\<close>

definition batch_query :: "('r \<Rightarrow> 'k::linorder) \<Rightarrow> ('r \<Rightarrow> bool) \<Rightarrow> nat \<Rightarrow> 'r list \<Rightarrow> 'r list" where
  "batch_query order_by condition n rows = take n (sort_key order_by (filter condition rows))"

definition next_cursor :: "('r \<Rightarrow> 'c) \<Rightarrow> nat \<Rightarrow> 'r list \<Rightarrow> 'c option" where
  "next_cursor mark n batch =
     (if length batch = n \<and> batch \<noteq> [] then Some (mark (last batch)) else None)"

text \<open>A run with the time of its last update, which the client maintains.\<close>

record stamped_run = run_row +
  ru_updatedAt :: time

definition ROUTINE_LOOKAHEAD_MS :: int where "ROUTINE_LOOKAHEAD_MS = 60000"
definition CONTROL_LOOKAHEAD_MS :: int where "CONTROL_LOOKAHEAD_MS = 60000"

record reconciler =
  rc_runCursor :: "(time \<times> id) option"
  rc_routineCursor :: "(time \<times> id) option"
  rc_controlCursor :: "(time option \<times> id) option"
  rc_controlScanDeadline :: "time option"

definition run_due :: "time \<Rightarrow> stamped_run \<Rightarrow> bool" where
  "run_due now r \<longleftrightarrow> r_status r = Queued \<or>
     (r_status r \<in> set [Leased, Running] \<and>
      (case r_leaseExpiresAt r of None \<Rightarrow> False | Some t \<Rightarrow> t \<le> now))"

definition run_after :: "time \<times> id \<Rightarrow> stamped_run \<Rightarrow> bool" where
  "run_after c r \<longleftrightarrow> ru_updatedAt r > fst c \<or> (ru_updatedAt r = fst c \<and> r_id r > snd c)"

definition routine_due :: "time \<Rightarrow> routine_row \<Rightarrow> bool" where
  "routine_due now o' \<longleftrightarrow> o_active o' \<and>
     (case o_nextRunAt o' of None \<Rightarrow> False | Some t \<Rightarrow> t \<le> now + ROUTINE_LOOKAHEAD_MS)"

text \<open>A comparison with a null column is not true.\<close>

definition routine_after :: "time \<times> id \<Rightarrow> routine_row \<Rightarrow> bool" where
  "routine_after c o' \<longleftrightarrow> (case o_nextRunAt o' of None \<Rightarrow> False
     | Some t \<Rightarrow> t > fst c \<or> (t = fst c \<and> o_id o' > snd c))"

definition control_due :: "time \<Rightarrow> computer_row \<Rightarrow> bool" where
  "control_due deadline c \<longleftrightarrow> c_controlLeaseId c \<noteq> None \<and>
     (case c_controlLeaseExpiresAt c of None \<Rightarrow> True | Some t \<Rightarrow> t \<le> deadline)"

definition control_after :: "time option \<times> id \<Rightarrow> computer_row \<Rightarrow> bool" where
  "control_after cur c \<longleftrightarrow>
     (case fst cur of
        Some at \<Rightarrow> (case c_controlLeaseExpiresAt c of
            None \<Rightarrow> True
          | Some t \<Rightarrow> t > at \<or> (t = at \<and> c_id c > snd cur))
      | None \<Rightarrow> c_controlLeaseExpiresAt c = None \<and> c_id c > snd cur)"

text \<open>The orders; nulls stand last in an ascending order of the database.\<close>

definition run_key :: "stamped_run \<Rightarrow> time \<times> id" where
  "run_key r = (ru_updatedAt r, r_id r)"

definition routine_key :: "routine_row \<Rightarrow> bool \<times> time \<times> id" where
  "routine_key o' = (case o_nextRunAt o' of None \<Rightarrow> (True, 0, o_id o') | Some t \<Rightarrow> (False, t, o_id o'))"

definition control_key :: "computer_row \<Rightarrow> bool \<times> time \<times> id" where
  "control_key c = (case c_controlLeaseExpiresAt c of None \<Rightarrow> (True, 0, c_id c) | Some t \<Rightarrow> (False, t, c_id c))"

definition run_mark :: "stamped_run \<Rightarrow> time \<times> id" where
  "run_mark r = (ru_updatedAt r, r_id r)"

definition routine_mark :: "routine_row \<Rightarrow> time \<times> id" where
  "routine_mark o' = (the (o_nextRunAt o'), o_id o')"

definition control_mark :: "computer_row \<Rightarrow> time option \<times> id" where
  "control_mark c = (c_controlLeaseExpiresAt c, c_id c)"

definition run_batch :: "nat \<Rightarrow> time \<Rightarrow> (time \<times> id) option \<Rightarrow> stamped_run list \<Rightarrow> stamped_run list" where
  "run_batch n now cursor =
     batch_query run_key (\<lambda>r. run_due now r \<and> (case cursor of None \<Rightarrow> True | Some c \<Rightarrow> run_after c r)) n"

definition routine_batch :: "nat \<Rightarrow> time \<Rightarrow> (time \<times> id) option \<Rightarrow> routine_row list \<Rightarrow> routine_row list" where
  "routine_batch n now cursor =
     batch_query routine_key
       (\<lambda>r. routine_due now r \<and> (case cursor of None \<Rightarrow> True | Some c \<Rightarrow> routine_after c r)) n"

definition control_batch ::
  "nat \<Rightarrow> time \<Rightarrow> (time option \<times> id) option \<Rightarrow> computer_row list \<Rightarrow> computer_row list" where
  "control_batch n deadline cursor =
     batch_query control_key
       (\<lambda>c. control_due deadline c \<and> (case cursor of None \<Rightarrow> True | Some k \<Rightarrow> control_after k c)) n"

subsection \<open>A pass\<close>

definition routine_jobs :: "(time \<Rightarrow> jstring) \<Rightarrow> routine_row list \<Rightarrow> background_job list" where
  "routine_jobs iso_text routines =
     concat (map (\<lambda>r. case o_nextRunAt r of None \<Rightarrow> [] | Some t \<Rightarrow> [routineWakeupJob iso_text (o_id r) t])
       routines)"

definition control_jobs :: "time \<Rightarrow> computer_row list \<Rightarrow> background_job list" where
  "control_jobs now controls =
     concat (map (\<lambda>c. if truthy (c_controlBotId c)
         then [computerControlExpireJob (c_id c) (the (c_controlLeaseId c))
                 (case c_controlLeaseExpiresAt c of None \<Rightarrow> now | Some t \<Rightarrow> t)]
         else []) controls)"

text \<open>
  One call of \<open>reconcileOnce\<close>: the jobs it enqueues and the state it leaves. A follower does
  nothing; when an enqueue fails, the pass ends before the cursors move. A call during a pass
  is that pass.
\<close>

definition reconcileOnce ::
  "(time \<Rightarrow> jstring) \<Rightarrow> nat \<Rightarrow> bool \<Rightarrow> bool \<Rightarrow> time \<Rightarrow> stamped_run list \<Rightarrow> routine_row list \<Rightarrow> computer_row list \<Rightarrow>
   reconciler \<Rightarrow> background_job list \<times> reconciler" where
  "reconcileOnce iso_text batchSize leader enqueued now runs routines computers st =
     (if \<not> leader then ([], st)
      else
        let deadline = (case rc_controlScanDeadline st of
                          Some t \<Rightarrow> t | None \<Rightarrow> now + CONTROL_LOOKAHEAD_MS);
            rs = run_batch batchSize now (rc_runCursor st) runs;
            os = routine_batch batchSize now (rc_routineCursor st) routines;
            cs = control_batch batchSize deadline (rc_controlCursor st) computers;
            jobs = map (\<lambda>r. runContinueJob (r_id r)) rs @ routine_jobs iso_text os @ control_jobs now cs;
            controlCursor = next_cursor control_mark batchSize cs
        in (jobs,
            if \<not> enqueued then st\<lparr>rc_controlScanDeadline := Some deadline\<rparr>
            else \<lparr>rc_runCursor = next_cursor run_mark batchSize rs,
                  rc_routineCursor =
                    (case next_cursor id batchSize os of
                       Some o' \<Rightarrow> if o_nextRunAt o' \<noteq> None then Some (routine_mark o') else None
                     | None \<Rightarrow> None),
                  rc_controlCursor = controlCursor,
                  rc_controlScanDeadline = (if controlCursor = None then None else Some deadline)\<rparr>))"

subsection \<open>A scan reaches every row that stays due\<close>

locale cursor_scan =
  fixes key :: "'r \<Rightarrow> 'k::linorder"
    and after :: "'c \<Rightarrow> 'r \<Rightarrow> bool"
    and mark :: "'r \<Rightarrow> 'c"
    and marked :: "'r \<Rightarrow> bool"
  assumes after_mark: "marked x \<Longrightarrow> marked y \<Longrightarrow> after (mark x) y \<longleftrightarrow> key x < key y"
begin

definition beyond :: "'c option \<Rightarrow> 'r \<Rightarrow> bool" where
  "beyond cursor x \<longleftrightarrow> (case cursor of None \<Rightarrow> True | Some c \<Rightarrow> after c x)"

definition scan :: "nat \<Rightarrow> ('r \<Rightarrow> bool) \<Rightarrow> 'c option \<Rightarrow> 'r list \<Rightarrow> 'r list" where
  "scan n due cursor = batch_query key (\<lambda>x. due x \<and> beyond cursor x) n"

text \<open>A cursor is where a batch ended, or nowhere.\<close>

definition cursor_at :: "'c option \<Rightarrow> bool" where
  "cursor_at cursor \<longleftrightarrow> cursor = None \<or> (\<exists>x. marked x \<and> cursor = Some (mark x))"

lemma in_scan:
  assumes "r \<in> set rows" and "due r" and "beyond cursor r" and "r \<notin> set (scan n due cursor rows)"
  shows "length (scan n due cursor rows) = n" and "x \<in> set (scan n due cursor rows) \<Longrightarrow> key x \<le> key r"
proof -
  define E where "E = sort_key key (filter (\<lambda>x. due x \<and> beyond cursor x) rows)"
  have scan: "scan n due cursor rows = take n E"
    by (simp add: scan_def batch_query_def E_def)
  have r: "r \<in> set E" "r \<notin> set (take n E)" using assms by (simp_all add: scan E_def)
  then have "r \<in> set (drop n E)" by (metis Un_iff append_take_drop_id set_append)
  then have "drop n E \<noteq> []" by auto
  then have "n \<le> length E" by simp
  then show "length (scan n due cursor rows) = n" by (simp add: scan)
  assume "x \<in> set (scan n due cursor rows)"
  moreover have "sorted (map key (take n E @ drop n E))" by (simp add: E_def)
  then have "\<forall>a \<in> set (take n E). \<forall>b \<in> set (drop n E). key a \<le> key b"
    unfolding map_append sorted_append by auto
  ultimately show "key x \<le> key r" using \<open>r \<in> set (drop n E)\<close> by (simp add: scan)
qed

text \<open>
  The rows up to \<open>r\<close> that lie beyond the cursor, by their keys: a pass that does not reach
  \<open>r\<close> leaves fewer of them.
\<close>

definition ahead :: "'c option \<Rightarrow> 'r \<Rightarrow> 'r list \<Rightarrow> 'k set" where
  "ahead cursor r rows = key ` {x \<in> set rows. marked x \<and> key x \<le> key r \<and> beyond cursor x}"

lemma scan_progress:
  assumes n: "n > 0" and r: "r \<in> set rows" "due r" "marked r" and cur: "cursor_at cursor" "beyond cursor r"
    and due: "\<And>x. x \<in> set rows \<Longrightarrow> due x \<Longrightarrow> marked x"
    and keys: "\<And>x. x \<in> set rows \<Longrightarrow> key x = key r \<Longrightarrow> x = r"
    and miss: "r \<notin> set (scan n due cursor rows)"
    and later: "key ` {x \<in> set rows'. marked x \<and> key x \<le> key r} \<subseteq> key ` {x \<in> set rows. marked x \<and> key x \<le> key r}"
  shows "cursor_at (next_cursor mark n (scan n due cursor rows)) \<and>
     beyond (next_cursor mark n (scan n due cursor rows)) r \<and>
     card (ahead (next_cursor mark n (scan n due cursor rows)) r rows') < card (ahead cursor r rows)"
proof -
  let ?batch = "scan n due cursor rows"
  note full = in_scan [OF r(1,2) cur(2) miss]
  define y where "y = last ?batch"
  have ne: "?batch \<noteq> []" using full(1) n by auto
  then have y: "y \<in> set ?batch" by (simp add: y_def)
  then have yr: "y \<in> set rows" "due y" "beyond cursor y"
    by (auto simp: scan_def batch_query_def dest: in_set_takeD)
  have ym: "marked y" using due yr by blast
  have "key y \<le> key r" using full(2) y by blast
  moreover have "key y \<noteq> key r" using keys [OF yr(1)] y miss by auto
  ultimately have less: "key y < key r" by simp
  have nxt: "next_cursor mark n ?batch = Some (mark y)"
    using full(1) ne by (simp add: next_cursor_def y_def)
  have sub: "ahead (Some (mark y)) r rows' \<subseteq> ahead cursor r rows - {key y}"
  proof
    fix k assume "k \<in> ahead (Some (mark y)) r rows'"
    then obtain x where x: "x \<in> set rows'" "marked x" "key x \<le> key r" "beyond (Some (mark y)) x" "k = key x"
      by (auto simp: ahead_def)
    then have kx: "key y < k" using after_mark [OF ym x(2)] by (simp add: beyond_def)
    have "k \<in> key ` {x \<in> set rows'. marked x \<and> key x \<le> key r}" using x by simp
    then have "k \<in> key ` {x \<in> set rows. marked x \<and> key x \<le> key r}" by (rule subsetD [OF later])
    then obtain z where z: "z \<in> set rows" "marked z" "key z \<le> key r" "key z = k" by auto
    have "beyond cursor z"
    proof (cases cursor)
      case (Some c)
      then obtain w where w: "marked w" "c = mark w" using cur(1) by (auto simp: cursor_at_def)
      have "key w < key y" using yr(3) Some w after_mark [OF w(1) ym] by (simp add: beyond_def)
      then have "key w < key z" using kx z(4) by simp
      with Some w after_mark [OF w(1) z(2)] show ?thesis by (simp add: beyond_def)
    qed (simp add: beyond_def)
    with z kx show "k \<in> ahead cursor r rows - {key y}" by (auto simp: ahead_def)
  qed
  have "key y \<in> ahead cursor r rows" using yr ym \<open>key y \<le> key r\<close> by (auto simp: ahead_def)
  moreover have "finite (ahead cursor r rows)" by (simp add: ahead_def)
  ultimately have "card (ahead (Some (mark y)) r rows') < card (ahead cursor r rows)"
    using sub by (intro psubset_card_mono) auto
  moreover have "beyond (Some (mark y)) r" using after_mark [OF ym r(3)] less by (simp add: beyond_def)
  ultimately show ?thesis using ym by (auto simp: nxt cursor_at_def)
qed

text \<open>
  Passes \<open>i, i + 1, \<dots>\<close> over tables \<open>T i\<close> with conditions \<open>D i\<close> and cursors \<open>C i\<close>, where the
  row \<open>r\<close> stays and stays due, and no row comes to stand before it.
\<close>

lemma scan_reaches:
  assumes n: "n > 0"
    and r: "\<And>i. r \<in> set (T i)" "\<And>i. D i r" "marked r"
    and due: "\<And>i x. x \<in> set (T i) \<Longrightarrow> D i x \<Longrightarrow> marked x"
    and keys: "\<And>i x. x \<in> set (T i) \<Longrightarrow> key x = key r \<Longrightarrow> x = r"
    and later: "\<And>i. key ` {x \<in> set (T (Suc i)). marked x \<and> key x \<le> key r} \<subseteq>
                     key ` {x \<in> set (T i). marked x \<and> key x \<le> key r}"
    and step: "\<And>i. C (Suc i) = next_cursor mark n (scan n (D i) (C i) (T i))"
    and start: "cursor_at (C i)" "beyond (C i) r"
  shows "\<exists>j < card (ahead (C i) r (T i)). r \<in> set (scan n (D (i + j)) (C (i + j)) (T (i + j)))"
  using start
proof (induction "card (ahead (C i) r (T i))" arbitrary: i rule: less_induct)
  case less
  show ?case
  proof (cases "r \<in> set (scan n (D i) (C i) (T i))")
    case True
    have "key r \<in> ahead (C i) r (T i)" using r less.prems by (auto simp: ahead_def)
    moreover have "finite (ahead (C i) r (T i))" by (simp add: ahead_def)
    ultimately have "0 < card (ahead (C i) r (T i))" by (auto simp: card_gt_0_iff)
    with True show ?thesis by (intro exI [of _ 0]) simp
  next
    case False
    have p: "cursor_at (C (Suc i)) \<and> beyond (C (Suc i)) r \<and>
        card (ahead (C (Suc i)) r (T (Suc i))) < card (ahead (C i) r (T i))"
      unfolding step
      by (rule scan_progress) (use n r less.prems due keys False later in \<open>blast+\<close>)
    then obtain j where "j < card (ahead (C (Suc i)) r (T (Suc i)))"
      "r \<in> set (scan n (D (Suc i + j)) (C (Suc i + j)) (T (Suc i + j)))"
      using less.hyps [of "Suc i"] by blast
    with p show ?thesis by (intro exI [of _ "Suc j"]) simp
  qed
qed

end

interpretation run_scan: cursor_scan run_key run_after run_mark "\<lambda>_. True"
  by unfold_locales (auto simp: run_key_def run_after_def run_mark_def)

interpretation routine_scan: cursor_scan routine_key routine_after routine_mark "\<lambda>r. o_nextRunAt r \<noteq> None"
  by unfold_locales (auto simp: routine_key_def routine_after_def routine_mark_def split: option.splits)

interpretation control_scan: cursor_scan control_key control_after control_mark "\<lambda>_. True"
  by unfold_locales (auto simp: control_key_def control_after_def control_mark_def split: option.splits)

lemma batches_are_scans:
  "run_batch n now cursor = run_scan.scan n (run_due now) cursor"
  "routine_batch n now cursor' = routine_scan.scan n (routine_due now) cursor'"
  "control_batch n deadline cursor'' = control_scan.scan n (control_due deadline) cursor''"
  by (simp_all add: fun_eq_iff run_batch_def run_scan.scan_def run_scan.beyond_def routine_batch_def
      routine_scan.scan_def routine_scan.beyond_def control_batch_def control_scan.scan_def
      control_scan.beyond_def)

subsection \<open>Every queued run is enqueued\<close>

definition idle_reconciler :: reconciler where
  "idle_reconciler = \<lparr>rc_runCursor = None, rc_routineCursor = None, rc_controlCursor = None,
     rc_controlScanDeadline = None\<rparr>"

text \<open>What the passes of a leader see: the time and the tables of each.\<close>

record pass_input =
  pi_now :: time
  pi_runs :: "stamped_run list"
  pi_routines :: "routine_row list"
  pi_computers :: "computer_row list"

definition pass :: "(time \<Rightarrow> jstring) \<Rightarrow> nat \<Rightarrow> pass_input \<Rightarrow> reconciler \<Rightarrow> background_job list \<times> reconciler" where
  "pass iso_text batchSize i =
     reconcileOnce iso_text batchSize True True (pi_now i) (pi_runs i) (pi_routines i) (pi_computers i)"

primrec pass_state :: "(time \<Rightarrow> jstring) \<Rightarrow> nat \<Rightarrow> (nat \<Rightarrow> pass_input) \<Rightarrow> reconciler \<Rightarrow> nat \<Rightarrow> reconciler" where
  "pass_state iso_text batchSize inp st 0 = st"
| "pass_state iso_text batchSize inp st (Suc i) =
     snd (pass iso_text batchSize (inp i) (pass_state iso_text batchSize inp st i))"

definition pass_jobs :: "(time \<Rightarrow> jstring) \<Rightarrow> nat \<Rightarrow> (nat \<Rightarrow> pass_input) \<Rightarrow> reconciler \<Rightarrow> nat \<Rightarrow> background_job list" where
  "pass_jobs iso_text batchSize inp st i =
     fst (pass iso_text batchSize (inp i) (pass_state iso_text batchSize inp st i))"

lemma pass_run_cursor:
  "rc_runCursor (pass_state iso_text n inp st (Suc i)) =
     next_cursor run_mark n (run_scan.scan n (run_due (pi_now (inp i)))
       (rc_runCursor (pass_state iso_text n inp st i)) (pi_runs (inp i)))"
  by (simp add: pass_def reconcileOnce_def Let_def batches_are_scans)

lemma pass_run_jobs:
  "r \<in> set (run_scan.scan n (run_due (pi_now (inp i)))
       (rc_runCursor (pass_state iso_text n inp st i)) (pi_runs (inp i))) \<Longrightarrow>
   runContinueJob (r_id r) \<in> set (pass_jobs iso_text n inp st i)"
  by (simp add: pass_jobs_def pass_def reconcileOnce_def Let_def batches_are_scans)

definition runs_up_to :: "stamped_run \<Rightarrow> pass_input \<Rightarrow> (time \<times> id) set" where
  "runs_up_to r i = run_key ` {x \<in> set (pi_runs i). run_key x \<le> run_key r}"


text \<open>Two queued runs and a batch of one: the second run is enqueued by one of two passes.\<close>

definition stamped :: "time \<Rightarrow> id \<Rightarrow> stamped_run" where
  "stamped at i = run_row.extend (example_run i (js ''k'') Queued) \<lparr>ru_updatedAt = at\<rparr>"

definition sample_pass :: pass_input where
  "sample_pass = \<lparr>pi_now = 5, pi_runs = [stamped 1 run_gone, stamped 2 run_live], pi_routines = [],
     pi_computers = []\<rparr>"

lemma stamped_simps:
  "r_id (stamped at i) = i" "ru_updatedAt (stamped at i) = at" "r_status (stamped at i) = Queued"
  by (simp_all add: stamped_def run_row.extend_def stamped_run.fields_def example_run_def new_run_def run_row.defs)


end
