(* ===== verification/ChatGroups.thy ===== *)
theory ChatGroups
  imports ClientThread BotDelivery ThreadClaims
begin

text \<open>
  Group chats: \<open>packages/db/src/groups.ts\<close>. A group has two to six bots of its owner and a
  thread; a group with fewer than two bots that are not archived is not shown. Changing the
  members cancels the runs of the bots that leave, archiving cancels every run of the thread,
  and removing deletes the group with everything that hangs on it. The members of a group are
  a list in the order of their creation.
\<close>

subsection \<open>Views and guards\<close>

record actor =
  ac_workspaceId :: id
  ac_userId :: id

definition GROUP_MEMBER_MIN :: nat where "GROUP_MEMBER_MIN = 2"
definition GROUP_MEMBER_MAX :: nat where "GROUP_MEMBER_MAX = 6"

definition IsolationError :: db_error where
  "IsolationError = AppError ''IsolationError''"

record group_view =
  gv_id :: id
  gv_workspaceId :: id
  gv_name :: jstring
  gv_pinned :: bool
  gv_sectionId :: "id option"
  gv_archivedAt :: "time option"
  gv_members :: "member list"
  gv_threadId :: id
  gv_preview :: jstring
  gv_unread :: bool
  gv_updatedAt :: time
  gv_createdAt :: time

text \<open>The blocks of the contract that have a text field.\<close>

definition block_text_field :: "message_block \<Rightarrow> jstring option" where
  "block_text_field b = (case b of BText t \<Rightarrow> Some t | BAsk a \<Rightarrow> Some (ask_text a) | BComputer _ t \<Rightarrow> Some t
     | BMeta t \<Rightarrow> Some t | BProgress t _ \<Rightarrow> Some t | BHandoff _ _ t \<Rightarrow> Some t
     | BBotMessageSent _ _ t \<Rightarrow> Some t | BBotMessageReceived _ _ t _ \<Rightarrow> Some t | _ \<Rightarrow> None)"

fun previewFromBlocks :: "message_block list \<Rightarrow> jstring" where
  "previewFromBlocks [] = []"
| "previewFromBlocks (b # bs) =
     (case block_text_field b of Some t \<Rightarrow> t | None \<Rightarrow> previewFromBlocks bs)"

definition group_thread :: "id \<Rightarrow> db \<Rightarrow> thread_row option" where
  "group_thread gid d = List.find (\<lambda>t. t_groupId t = Some gid) (db_threads d)"

definition find_group :: "(group_row \<Rightarrow> bool) \<Rightarrow> db \<Rightarrow> group_row option" where
  "find_group p d = List.find p (db_groups d)"

text \<open>The bots of a group that are not archived, with the status of their latest active run.\<close>

definition active_bots :: "group_row \<Rightarrow> db \<Rightarrow> bot_row list" where
  "active_bots g d = concat (map (\<lambda>i. case find_bot i d of
       Some b \<Rightarrow> if b_archivedAt b = None then [b] else [] | None \<Rightarrow> []) (g_memberBotIds g))"

definition bot_status :: "id \<Rightarrow> db \<Rightarrow> jstring" where
  "bot_status botId d =
     (case rev (sort_key r_createdAt (filter (\<lambda>r. r_botId r = botId \<and> isActive (r_status r)) (db_runs d))) of
        [] \<Rightarrow> js ''idle'' | r # _ \<Rightarrow> status_name (r_status r))"

definition member_view :: "db \<Rightarrow> bot_row \<Rightarrow> member" where
  "member_view d b = \<lparr>gm_botId = b_id b, gm_name = b_name b, gm_color = b_color b,
     gm_status = Some (bot_status (b_id b) d)\<rparr>"

definition hasMinimumActiveMembers :: "'a list \<Rightarrow> bool" where
  "hasMinimumActiveMembers members \<longleftrightarrow> length members \<ge> GROUP_MEMBER_MIN"

definition last_message :: "id \<Rightarrow> db \<Rightarrow> message_row option" where
  "last_message tid d =
     (case rev (sort_key m_seq (filter (\<lambda>m. m_threadId m = tid) (db_messages d))) of
        [] \<Rightarrow> None | m # _ \<Rightarrow> Some m)"

definition mapGroup :: "db \<Rightarrow> group_row \<Rightarrow> db_error + group_view" where
  "mapGroup d g =
     (case group_thread (g_id g) d of
        None \<Rightarrow> Inl IsolationError
      | Some t \<Rightarrow> Inr
          \<lparr>gv_id = g_id g, gv_workspaceId = g_workspaceId g, gv_name = g_name g, gv_pinned = g_pinned g,
           gv_sectionId = g_sectionId g, gv_archivedAt = g_archivedAt g,
           gv_members = map (member_view d) (active_bots g d), gv_threadId = t_id t,
           gv_preview = (case last_message (t_id t) d of Some m \<Rightarrow> previewFromBlocks (m_blocks m) | None \<Rightarrow> []),
           gv_unread = t_unread t, gv_updatedAt = g_updatedAt g, gv_createdAt = g_createdAt g\<rparr>)"

text \<open>A JavaScript set keeps the first occurrence of each element.\<close>

fun uniq :: "'a list \<Rightarrow> 'a list" where
  "uniq [] = []"
| "uniq (x # xs) = x # filter (\<lambda>y. y \<noteq> x) (uniq xs)"

definition owned_bot :: "actor \<Rightarrow> bot_row \<Rightarrow> bool" where
  "owned_bot actor b \<longleftrightarrow> b_workspaceId b = ac_workspaceId actor \<and> b_userId b = ac_userId actor \<and>
     b_archivedAt b = None"

definition assertOwnedBots :: "actor \<Rightarrow> id list \<Rightarrow> db \<Rightarrow> db_error + bot_row list" where
  "assertOwnedBots actor botIds d =
     (let unique = uniq botIds in
      if length unique < GROUP_MEMBER_MIN \<or> length unique > GROUP_MEMBER_MAX
      then Inl (AppError ''Groups require 2 to 6 distinct bots'')
      else
        let bots = filter (\<lambda>b. b_id b \<in> set unique \<and> owned_bot actor b) (db_bots d) in
        if length bots \<noteq> length unique \<or> \<not> (\<forall>i \<in> set unique. \<exists>b \<in> set bots. b_id b = i)
        then Inl IsolationError
        else Inr (map (\<lambda>i. the (List.find (\<lambda>b. b_id b = i) bots)) unique))"

subsection \<open>Reading groups\<close>

definition owned_group :: "actor \<Rightarrow> group_row \<Rightarrow> bool" where
  "owned_group actor g \<longleftrightarrow> g_workspaceId g = ac_workspaceId actor \<and> g_userId g = ac_userId actor"

fun collect_views :: "(db_error + 'a) list \<Rightarrow> db_error + 'a list" where
  "collect_views [] = Inr []"
| "collect_views (Inl e # vs) = Inl e"
| "collect_views (Inr v # vs) = (case collect_views vs of Inl e \<Rightarrow> Inl e | Inr ws \<Rightarrow> Inr (v # ws))"

definition listGroups :: "actor \<Rightarrow> bool \<Rightarrow> db \<Rightarrow> db_error + group_view list" where
  "listGroups actor archived d =
     (let groups = sort_key (\<lambda>g. if g_pinned g then 0 else 1 :: nat) (sort_key (\<lambda>g. - g_updatedAt g)
            (filter (\<lambda>g. owned_group actor g \<and> (g_archivedAt g \<noteq> None) = archived) (db_groups d)))
      in collect_views (map (mapGroup d) (filter (\<lambda>g. hasMinimumActiveMembers (active_bots g d)) groups)))"

definition getGroup :: "actor \<Rightarrow> id \<Rightarrow> bool \<Rightarrow> db \<Rightarrow> db_error + group_row" where
  "getGroup actor groupId includeArchived d =
     (case find_group (\<lambda>g. g_id g = groupId \<and> owned_group actor g \<and>
              (includeArchived \<or> g_archivedAt g = None)) d of
        None \<Rightarrow> Inl IsolationError
      | Some g \<Rightarrow> if \<not> hasMinimumActiveMembers (active_bots g d) then Inl IsolationError else Inr g)"

definition getGroupTarget :: "actor \<Rightarrow> id \<Rightarrow> db \<Rightarrow> db_error + group_row" where
  "getGroupTarget actor groupId = getGroup actor groupId False"

subsection \<open>Statements on groups\<close>

definition update_group :: "id \<Rightarrow> (group_row \<Rightarrow> group_row) \<Rightarrow> unit dbtx" where
  "update_group gid f = (\<lambda>d.
     if count_where (\<lambda>g. g_id g = gid) (db_groups d) = 0 then Inl RecordNotFound
     else Inr ((), d\<lparr>db_groups := update_where (\<lambda>g. g_id g = gid) f (db_groups d)\<rparr>))"

definition create_group :: "group_row \<Rightarrow> group_row dbtx" where
  "create_group g = (\<lambda>d.
     if \<exists>q \<in> set (db_groups d). g_id q = g_id g then Inl UniqueViolation
     else Inr (g, d\<lparr>db_groups := db_groups d @ [g]\<rparr>))"

definition create_thread :: "thread_row \<Rightarrow> thread_row dbtx" where
  "create_thread t = (\<lambda>d.
     if \<exists>q \<in> set (db_threads d). t_id q = t_id t \<or> (t_groupId q = t_groupId t \<and> t_groupId t \<noteq> None) \<or>
          (t_botId q = t_botId t \<and> t_botId t \<noteq> None)
     then Inl UniqueViolation
     else Inr (t, d\<lparr>db_threads := db_threads d @ [t]\<rparr>))"

definition lift_result :: "db_error + 'a \<Rightarrow> 'a dbtx" where
  "lift_result r = (case r of Inl e \<Rightarrow> tx_throw e | Inr x \<Rightarrow> tx_return x)"

definition lockOwnedGroup :: "actor \<Rightarrow> id \<Rightarrow> unit dbtx" where
  "lockOwnedGroup actor groupId =
     tx_bind (tx_get (\<lambda>d. count_where (\<lambda>g. g_id g = groupId \<and> owned_group actor g) (db_groups d)))
       (\<lambda>n. if n \<noteq> 1 then tx_throw IsolationError else tx_skip)"

definition touchGroupUpdatedAt :: "id \<Rightarrow> time \<Rightarrow> unit dbtx" where
  "touchGroupUpdatedAt groupId now = update_group groupId (\<lambda>g. g\<lparr>g_updatedAt := now\<rparr>)"

subsection \<open>createGroup\<close>

record new_group_ids =
  ng_groupId :: id
  ng_threadId :: id

definition createGroup_tx :: "new_group_ids \<Rightarrow> time \<Rightarrow> actor \<Rightarrow> jstring \<Rightarrow> id list \<Rightarrow> group_row dbtx" where
  "createGroup_tx ids now actor name memberIds =
     tx_bind (create_group
       \<lparr>g_id = ng_groupId ids, g_workspaceId = ac_workspaceId actor, g_userId = ac_userId actor,
        g_name = trim name, g_pinned = False, g_sectionId = None, g_archivedAt = None, g_createdAt = now,
        g_updatedAt = now, g_memberBotIds = [], g_artifactKeys = []\<rparr>) (\<lambda>g.
     tx_then (update_group (g_id g) (\<lambda>g. g\<lparr>g_memberBotIds := g_memberBotIds g @ memberIds\<rparr>))
     (tx_then (create_thread
       \<lparr>t_id = ng_threadId ids, t_workspaceId = ac_workspaceId actor, t_botId = None,
        t_groupId = Some (g_id g), t_userId = ac_userId actor, t_nextEventSeq = 0, t_nextMessageSeq = 0,
        t_historyCompactedUpToSeq = None, t_historyCompactionSummary = None,
        t_historyCompactionGeneration = 0, t_unread = False\<rparr>)
     (tx_bind (tx_get (find_group (\<lambda>q. g_id q = g_id g))) (\<lambda>found.
      case found of None \<Rightarrow> tx_throw RecordNotFound | Some q \<Rightarrow> tx_return q))))"

definition createGroup ::
  "new_group_ids \<Rightarrow> time \<Rightarrow> actor \<Rightarrow> jstring \<Rightarrow> id list \<Rightarrow> db \<Rightarrow> (db_error + group_view) \<times> db" where
  "createGroup ids now actor name botIds d =
     (case assertOwnedBots actor botIds d of
        Inl e \<Rightarrow> (Inl e, d)
      | Inr members \<Rightarrow>
          (case run_transaction (createGroup_tx ids now actor name (map b_id members)) d of
             (Inl e, d') \<Rightarrow> (Inl e, d')
           | (Inr g, d') \<Rightarrow> (mapGroup d' g, d')))"

subsection \<open>updateGroup\<close>

record update_group_input =
  ug_groupId :: id
  ug_name :: "jstring option"
  ug_botIds :: "id list option"
  ug_pinned :: "bool option"
  ug_sectionId :: "id option option"

definition group_active_run :: "id \<Rightarrow> id list \<Rightarrow> run_row \<Rightarrow> bool" where
  "group_active_run tid botIds r \<longleftrightarrow> r_threadId r = tid \<and> r_botId r \<in> set botIds \<and>
     r_status r \<in> set [Queued, Leased, Running, WaitingInput, WaitingTakeover]"

definition set_if :: "'a option \<Rightarrow> ('a \<Rightarrow> 'r \<Rightarrow> 'r) \<Rightarrow> 'r \<Rightarrow> 'r" where
  "set_if v f r = (case v of None \<Rightarrow> r | Some x \<Rightarrow> f x r)"

definition updateGroup_tx ::
  "time \<Rightarrow> actor \<Rightarrow> update_group_input \<Rightarrow> id list option \<Rightarrow> (group_row \<times> id list) dbtx" where
  "updateGroup_tx now actor i members =
     tx_then (lockOwnedGroup actor (ug_groupId i))
     (tx_bind (tx_get (\<lambda>d. (find_group (\<lambda>g. g_id g = ug_groupId i \<and> owned_group actor g \<and> g_archivedAt g = None) d,
                            group_thread (ug_groupId i) d, d)))
       (\<lambda>(current, thread, d).
        case (current, thread) of
          (Some g, Some t) \<Rightarrow>
            if members = None \<and> \<not> hasMinimumActiveMembers (active_bots g d) then tx_throw IsolationError
            else
              let nextBotIds = (case members of Some ms \<Rightarrow> ms | None \<Rightarrow> g_memberBotIds g);
                  removedBotIds = filter (\<lambda>b. b \<notin> set nextBotIds) (g_memberBotIds g);
                  activeRuns = filter (group_active_run (t_id t) removedBotIds) (db_runs d)
              in tx_then (cancel_runs (map r_id activeRuns) (map r_taskId activeRuns) now)
                 (tx_then (if ug_name i \<noteq> None
                           then update_group (ug_groupId i) (\<lambda>g. g\<lparr>g_name := trim (the (ug_name i))\<rparr>) else tx_skip)
                 (tx_then (case members of
                             Some ms \<Rightarrow> update_group (ug_groupId i) (\<lambda>g. g\<lparr>g_memberBotIds := ms\<rparr>)
                           | None \<Rightarrow> tx_skip)
                 (tx_then (update_group (ug_groupId i)
                    (\<lambda>g. set_if (ug_pinned i) (\<lambda>p g. g\<lparr>g_pinned := p\<rparr>)
                           (set_if (ug_sectionId i) (\<lambda>s g. g\<lparr>g_sectionId := s\<rparr>) (g\<lparr>g_updatedAt := now\<rparr>))))
                 (tx_bind (tx_get (find_group (\<lambda>g. g_id g = ug_groupId i))) (\<lambda>found.
                  case found of None \<Rightarrow> tx_throw RecordNotFound
                  | Some g' \<Rightarrow> tx_return (g', map r_id activeRuns))))))
        | _ \<Rightarrow> tx_throw IsolationError))"

definition updateGroup ::
  "time \<Rightarrow> actor \<Rightarrow> update_group_input \<Rightarrow> db \<Rightarrow> (db_error + (group_view \<times> id list)) \<times> db" where
  "updateGroup now actor i d =
     (case (case ug_botIds i of None \<Rightarrow> Inr None
            | Some botIds \<Rightarrow> (case assertOwnedBots actor botIds d of
                Inl e \<Rightarrow> Inl e | Inr ms \<Rightarrow> Inr (Some (map b_id ms)))) of
        Inl e \<Rightarrow> (Inl e, d)
      | Inr members \<Rightarrow>
          (case run_transaction (updateGroup_tx now actor i members) d of
             (Inl e, d') \<Rightarrow> (Inl e, d')
           | (Inr (g, runIds), d') \<Rightarrow>
               (case mapGroup d' g of Inl e \<Rightarrow> (Inl e, d') | Inr v \<Rightarrow> (Inr (v, runIds), d'))))"

subsection \<open>archiveGroup, restoreGroup and removeGroup\<close>

record archived_group =
  ag_cancelledRunIds :: "id list"
  ag_computers :: "computer_row list"

definition archive_runs :: "id list \<Rightarrow> id list \<Rightarrow> time \<Rightarrow> unit dbtx" where
  "archive_runs runIds taskIds now =
     (if runIds = [] then tx_skip
      else tx_then (cancel_runs runIds taskIds now)
          (tx_then (delete_leases (\<lambda>l. l_runId l \<in> set runIds))
          (tx_then (update_computers (\<lambda>c. \<exists>r \<in> set runIds. c_executionRunId c = Some r) clear_computer)
             (delete_events (\<lambda>e. e_type e = ThreadProgress \<and> (\<exists>r \<in> set runIds. e_runId e = Some r))))))"

definition archiveGroup_tx :: "time \<Rightarrow> actor \<Rightarrow> id \<Rightarrow> archived_group dbtx" where
  "archiveGroup_tx now actor groupId =
     tx_then (lockOwnedGroup actor groupId)
     (tx_bind (tx_get (\<lambda>d. (find_group (\<lambda>g. g_id g = groupId \<and> owned_group actor g \<and> g_archivedAt g = None) d,
                            group_thread groupId d, d)))
       (\<lambda>(current, thread, d).
        case (current, thread) of
          (Some g, Some t) \<Rightarrow>
            let activeRuns = filter (\<lambda>r. r_threadId r = t_id t \<and> isActive (r_status r)) (db_runs d);
                runIds = map r_id activeRuns;
                computers = filter (\<lambda>c. \<exists>r \<in> set runIds. c_executionRunId c = Some r) (db_computers d)
            in tx_then (archive_runs runIds (map r_taskId activeRuns) now)
               (tx_then (update_group groupId (\<lambda>g. g\<lparr>g_archivedAt := Some now, g_pinned := False, g_updatedAt := now\<rparr>))
                (tx_return \<lparr>ag_cancelledRunIds = runIds, ag_computers = computers\<rparr>))
        | _ \<Rightarrow> tx_throw IsolationError))"

definition archiveGroup :: "time \<Rightarrow> actor \<Rightarrow> id \<Rightarrow> db \<Rightarrow> (db_error + archived_group) \<times> db" where
  "archiveGroup now actor groupId = run_transaction (archiveGroup_tx now actor groupId)"

definition restoreGroup :: "time \<Rightarrow> actor \<Rightarrow> id \<Rightarrow> db \<Rightarrow> (db_error + unit) \<times> db" where
  "restoreGroup now actor groupId d =
     (let p = (\<lambda>g. g_id g = groupId \<and> owned_group actor g);
          d' = d\<lparr>db_groups := update_where p (\<lambda>g. g\<lparr>g_archivedAt := None, g_updatedAt := now\<rparr>) (db_groups d)\<rparr>
      in (if count_where p (db_groups d) \<noteq> 1 then Inl IsolationError else Inr (), d'))"

text \<open>
  Deleting a group: the schema deletes its thread with it, and with the thread its messages,
  events, tasks and runs, and with the runs their attempts and effects.
\<close>

definition delete_group :: "id \<Rightarrow> unit dbtx" where
  "delete_group groupId = (\<lambda>d.
     if count_where (\<lambda>g. g_id g = groupId) (db_groups d) = 0 then Inl RecordNotFound
     else
       let tids = map t_id (filter (\<lambda>t. t_groupId t = Some groupId) (db_threads d));
           rids = map r_id (filter (\<lambda>r. r_threadId r \<in> set tids) (db_runs d))
       in tx_then (delete_messages (\<lambda>m. m_threadId m \<in> set tids))
          (tx_modify (\<lambda>d. d\<lparr>
             db_groups := delete_where (\<lambda>g. g_id g = groupId) (db_groups d),
             db_threads := delete_where (\<lambda>t. t_id t \<in> set tids) (db_threads d),
             db_events := delete_where (\<lambda>e. e_threadId e \<in> set tids) (db_events d),
             db_tasks := delete_where (\<lambda>k. k_threadId k \<in> set tids) (db_tasks d),
             db_runs := delete_where (\<lambda>r. r_threadId r \<in> set tids) (db_runs d),
             db_attempts := delete_where (\<lambda>a. a_runId a \<in> set rids) (db_attempts d),
             db_effects := delete_where (\<lambda>x. x_runId x \<in> set rids) (db_effects d)\<rparr>)) d)"

record removed_group =
  rg_contextBotId :: id
  rg_artifactStorageKeys :: "jstring list"

definition removeGroup_tx :: "actor \<Rightarrow> id \<Rightarrow> removed_group dbtx" where
  "removeGroup_tx actor groupId =
     tx_then (lockOwnedGroup actor groupId)
     (tx_bind (tx_get (find_group (\<lambda>g. g_id g = groupId))) (\<lambda>found.
      case found of
        None \<Rightarrow> tx_throw IsolationError
      | Some g \<Rightarrow>
          (case g_memberBotIds g of
             [] \<Rightarrow> tx_throw IsolationError
           | contextBotId # _ \<Rightarrow>
               tx_then (delete_group groupId)
                 (tx_return \<lparr>rg_contextBotId = contextBotId, rg_artifactStorageKeys = g_artifactKeys g\<rparr>))))"

definition removeGroup :: "actor \<Rightarrow> id \<Rightarrow> db \<Rightarrow> (db_error + removed_group) \<times> db" where
  "removeGroup actor groupId = run_transaction (removeGroup_tx actor groupId)"

subsection \<open>What the operations keep\<close>

lemma set_uniq [simp]: "set (uniq xs) = set xs"
  by (induction xs) auto

lemma distinct_uniq: "distinct (uniq xs)"
  by (induction xs) (auto simp: distinct_filter)

lemma owned_bots_members:
  assumes "assertOwnedBots actor botIds d = Inr bots"
  shows "map b_id bots = uniq botIds" and "2 \<le> length bots" and "length bots \<le> 6"
    and "b \<in> set bots \<Longrightarrow> b \<in> set (db_bots d) \<and> owned_bot actor b"
proof -
  define own where "own = filter (\<lambda>b. b_id b \<in> set (uniq botIds) \<and> owned_bot actor b) (db_bots d)"
  have bots: "bots = map (\<lambda>i. the (List.find (\<lambda>b. b_id b = i) own)) (uniq botIds)"
    and size: "2 \<le> length (uniq botIds)" "length (uniq botIds) \<le> 6"
    and ex: "\<forall>i \<in> set (uniq botIds). \<exists>b \<in> set own. b_id b = i"
    using assms by (auto simp: assertOwnedBots_def Let_def own_def GROUP_MEMBER_MIN_def GROUP_MEMBER_MAX_def
        split: if_splits)
  have found: "\<exists>b. List.find (\<lambda>b. b_id b = i) own = Some b \<and> b \<in> set own \<and> b_id b = i"
    if "i \<in> set (uniq botIds)" for i
  proof -
    obtain c where "c \<in> set own" "b_id c = i" using ex \<open>i \<in> set (uniq botIds)\<close> by blast
    then have "List.find (\<lambda>b. b_id b = i) own \<noteq> None" by (auto simp: find_NoneD)
    then obtain b where "List.find (\<lambda>b. b_id b = i) own = Some b" by blast
    then show ?thesis by (auto dest: find_SomeD)
  qed
  show "map b_id bots = uniq botIds"
    unfolding bots map_map comp_def by (rule map_idI) (use found in force)
  show "2 \<le> length bots" "length bots \<le> 6" using size by (simp_all add: bots)
  assume "b \<in> set bots"
  then obtain i where "i \<in> set (uniq botIds)" "b = the (List.find (\<lambda>b. b_id b = i) own)" by (auto simp: bots)
  then have "b \<in> set own" using found by force
  then show "b \<in> set (db_bots d) \<and> owned_bot actor b" by (simp add: own_def)
qed

subsection \<open>Archiving stops the runs of a group\<close>

lemma update_group_frame [tx_intros]:
  "tx_pres (\<lambda>d. db_runs d = rs) (update_group gid f)"
  "tx_pres (\<lambda>d. db_leases d = ls) (update_group gid f)"
  "tx_pres (\<lambda>d. db_computers d = cs) (update_group gid f)"
  "tx_pres (\<lambda>d. statuses d = v) (update_group gid f)"
  by (auto intro!: tx_presI simp: update_group_def split: if_splits)

lemma update_where_all:
  assumes "x \<in> set (update_where p f rows)" and "\<And>r. p r \<Longrightarrow> Q (f r)" and "\<And>r. \<not> p r \<Longrightarrow> Q r"
  shows "Q x"
proof -
  obtain r where "x = (if p r then f r else r)" using assms(1) by (auto simp: set_update_where)
  then show ?thesis using assms(2,3) by (cases "p r") simp_all
qed

lemma archive_runs_effect:
  assumes step: "archive_runs rids kids now d = Inr (u, d')"
    and rids: "rids = map r_id (filter p (db_runs d))" and dist: "distinct (map r_id (db_runs d))"
  shows "db_runs d' = update_where p (cancel_run now) (db_runs d)"
    and "\<forall>l \<in> set (db_leases d'). rids \<noteq> [] \<longrightarrow> l_runId l \<notin> set rids"
    and "\<forall>c \<in> set (db_computers d'). \<forall>r \<in> set rids. c_executionRunId c \<noteq> Some r"
proof -
  have "db_runs d' = update_where p (cancel_run now) (db_runs d) \<and>
    (\<forall>l \<in> set (db_leases d'). rids \<noteq> [] \<longrightarrow> l_runId l \<notin> set rids) \<and>
    (\<forall>c \<in> set (db_computers d'). \<forall>r \<in> set rids. c_executionRunId c \<noteq> Some r)"
  proof (cases "rids = []")
    case True
    with step have "d' = d" by (simp add: archive_runs_def)
    moreover have "update_where p (cancel_run now) (db_runs d) = db_runs d"
      using True rids by (intro update_where_none) (simp add: count_where_def)
    ultimately show ?thesis using True by simp
  next
    case False
    with step obtain v d1 where c: "cancel_runs rids kids now d = Inr (v, d1)"
      and d': "db_runs d' = db_runs d1"
        "db_leases d' = delete_where (\<lambda>l. l_runId l \<in> set rids) (db_leases d1)"
        "db_computers d' = update_where (\<lambda>c. \<exists>r \<in> set rids. c_executionRunId c = Some r) clear_computer (db_computers d1)"
      by (auto simp: archive_runs_def bulk_defs)
    have "db_runs d1 = update_where p (cancel_run now) (db_runs d)"
      by (rule run_ids_keep_runs [OF c rids dist])
    moreover have "c_executionRunId c \<noteq> Some r"
      if "c \<in> set (db_computers d')" "r \<in> set rids" for c r
      using that(1) unfolding d'(3)
      by (rule update_where_all) (use that(2) in \<open>auto simp: clear_computer_def\<close>)
    ultimately show ?thesis unfolding d'(1,2) by auto
  qed
  then show "db_runs d' = update_where p (cancel_run now) (db_runs d)"
    and "\<forall>l \<in> set (db_leases d'). rids \<noteq> [] \<longrightarrow> l_runId l \<notin> set rids"
    and "\<forall>c \<in> set (db_computers d'). \<forall>r \<in> set rids. c_executionRunId c \<noteq> Some r" by auto
qed

lemma archive_committed:
  assumes "archiveGroup now actor gid d = (Inr res, d')"
  obtains g t d1 where "find_group (\<lambda>g. g_id g = gid \<and> owned_group actor g \<and> g_archivedAt g = None) d = Some g"
    and "group_thread gid d = Some t"
    and "ag_cancelledRunIds res = map r_id (filter (\<lambda>r. r_threadId r = t_id t \<and> isActive (r_status r)) (db_runs d))"
    and "archive_runs (ag_cancelledRunIds res)
       (map r_taskId (filter (\<lambda>r. r_threadId r = t_id t \<and> isActive (r_status r)) (db_runs d))) now d = Inr ((), d1)"
    and "update_group gid (\<lambda>g. g\<lparr>g_archivedAt := Some now, g_pinned := False, g_updatedAt := now\<rparr>) d1 = Inr ((), d')"
  using assms
  by (auto simp: archiveGroup_def archiveGroup_tx_def lockOwnedGroup_def Let_def
      split: sum.splits option.splits if_splits)

text \<open>
  An archived group is at rest: no run of its thread is active any more, every run it
  cancelled was active and is allowed to be cancelled, the runs of other threads are untouched,
  and none of the cancelled runs holds a lease or a computer.
\<close>

theorem archived_group_is_at_rest:
  assumes "distinct (map r_id (db_runs d))" and "archiveGroup now actor gid d = (Inr res, d')"
  shows "\<exists>t. group_thread gid d = Some t \<and>
      filter (\<lambda>r. r_threadId r = t_id t \<and> isActive (r_status r)) (db_runs d') = [] \<and>
      filter (\<lambda>r. r_threadId r \<noteq> t_id t) (db_runs d') = filter (\<lambda>r. r_threadId r \<noteq> t_id t) (db_runs d) \<and>
      legal_change (statuses d) (statuses d') \<and>
      filter (\<lambda>l. l_runId l \<in> set (ag_cancelledRunIds res)) (db_leases d') = [] \<and>
      filter (\<lambda>c. \<exists>r. c_executionRunId c = Some r \<and> r \<in> set (ag_cancelledRunIds res)) (db_computers d') = []"
  using assms(2)
proof (rule archive_committed)
  fix g :: group_row and t :: thread_row and d1
  let ?p = "\<lambda>r. r_threadId r = t_id t \<and> isActive (r_status r)"
  assume t: "group_thread gid d = Some t"
    and ids: "ag_cancelledRunIds res = map r_id (filter ?p (db_runs d))"
    and runs: "archive_runs (ag_cancelledRunIds res) (map r_taskId (filter ?p (db_runs d))) now d = Inr ((), d1)"
    and up: "update_group gid (\<lambda>g. g\<lparr>g_archivedAt := Some now, g_pinned := False, g_updatedAt := now\<rparr>) d1 = Inr ((), d')"
  note eff = archive_runs_effect [OF runs ids assms(1)]
  have same: "db_runs d' = db_runs d1" "db_leases d' = db_leases d1" "db_computers d' = db_computers d1"
    using up by (auto simp: update_group_def split: if_splits)
  have d': "db_runs d' = update_where ?p (cancel_run now) (db_runs d)" using eff(1) same by simp
  have "update_where ?p (cancel_run now) (db_runs d) =
      update_where (\<lambda>r. isActive (r_status r) \<and> r_threadId r = t_id t) (cancel_run now) (db_runs d)"
    by (simp add: update_where_def conj_commute)
  then have "statuses d' = statuses (d\<lparr>db_runs := update_where (\<lambda>r. isActive (r_status r) \<and> r_threadId r = t_id t)
      (cancel_run now) (db_runs d)\<rparr>)"
    using d' by (simp add: statuses_def)
  moreover have "legal_change (statuses d) (statuses (d\<lparr>db_runs :=
      update_where (\<lambda>r. isActive (r_status r) \<and> r_threadId r = t_id t) (cancel_run now) (db_runs d)\<rparr>))"
    by (rule cancel.legal_update) (simp add: update_runs_def)
  ultimately have legal: "legal_change (statuses d) (statuses d')" by simp
  have "\<forall>r \<in> set (db_runs d'). \<not> ?p r"
  proof
    fix r assume "r \<in> set (db_runs d')"
    then show "\<not> ?p r"
      unfolding d' by (rule update_where_all) (auto simp: cancel_run_def run_state_defs)
  qed
  then have rest: "filter ?p (db_runs d') = []" by (simp add: filter_empty_conv)
  have "filter (\<lambda>r. r_threadId r \<noteq> t_id t) (update_where ?p (cancel_run now) rs) =
      filter (\<lambda>r. r_threadId r \<noteq> t_id t) rs" for rs
    by (induction rs) (auto simp: cancel_run_def)
  then have others: "filter (\<lambda>r. r_threadId r \<noteq> t_id t) (db_runs d') = filter (\<lambda>r. r_threadId r \<noteq> t_id t) (db_runs d)"
    unfolding d' .
  have "filter (\<lambda>l. l_runId l \<in> set (ag_cancelledRunIds res)) (db_leases d') = []"
    using eff(2) by (auto simp: same filter_empty_conv)
  moreover have "filter (\<lambda>c. \<exists>r. c_executionRunId c = Some r \<and> r \<in> set (ag_cancelledRunIds res)) (db_computers d') = []"
    using eff(3) by (auto simp: same filter_empty_conv)
  ultimately show ?thesis using t rest others legal by blast
qed

text \<open>A group of the two bots whose thread has a running run.\<close>

definition group1 :: id where "group1 = js ''g1''"
definition owner1 :: actor where "owner1 = \<lparr>ac_workspaceId = ws1, ac_userId = user1\<rparr>"

definition group_db :: db where
  "group_db = two_bots\<lparr>
     db_threads := [\<lparr>t_id = th2, t_workspaceId = ws1, t_botId = None, t_groupId = Some group1, t_userId = user1,
         t_nextEventSeq = 0, t_nextMessageSeq = 0, t_historyCompactedUpToSeq = None,
         t_historyCompactionSummary = None, t_historyCompactionGeneration = 0, t_unread = False\<rparr>],
     db_messages := [], db_events := [],
     db_runs := [(example_run run_live (js ''k1'') Running)\<lparr>r_threadId := th2\<rparr>],
     db_groups := [\<lparr>g_id = group1, g_workspaceId = ws1, g_userId = user1, g_name = js ''G'', g_pinned = True,
         g_sectionId = None, g_archivedAt = None, g_createdAt = 1, g_updatedAt = 1,
         g_memberBotIds = [bot1, bot2], g_artifactKeys = []\<rparr>]\<rparr>"

lemma group_db_archived:
  "\<exists>res d'. archiveGroup 30 owner1 group1 group_db = (Inr res, d') \<and> ag_cancelledRunIds res = [run_live]"
  by (simp del: tx_bind_run tx_then_run tx_get_run tx_return_run
      add: tx_eval archiveGroup_def archiveGroup_tx_def lockOwnedGroup_def archive_runs_def cancel_runs_def
        update_group_def find_group_def group_thread_def owned_group_def bulk_defs count_where_def Let_def
        isActive_def ACTIVE_RUN_STATUSES_def owner1_def group_db_def group1_def sample_defs example_defs ids)

theorem archived_group_is_at_rest_witness:
  "\<exists>res d'. archiveGroup 30 owner1 group1 group_db = (Inr res, d') \<and>
     filter (\<lambda>r. r_threadId r = th2 \<and> isActive (r_status r)) (db_runs d') = []"
proof -
  obtain res d' where step: "archiveGroup 30 owner1 group1 group_db = (Inr res, d')"
    using group_db_archived by blast
  have "distinct (map r_id (db_runs group_db))" by (simp add: group_db_def)
  from archived_group_is_at_rest [OF this step] obtain t where
    "group_thread group1 group_db = Some t"
    "filter (\<lambda>r. r_threadId r = t_id t \<and> isActive (r_status r)) (db_runs d') = []" by blast
  then have "filter (\<lambda>r. r_threadId r = th2 \<and> isActive (r_status r)) (db_runs d') = []"
    by (auto simp: group_thread_def group_db_def)
  with step show ?thesis by blast
qed

end
