(* ===== verification/GroupChat.thy ===== *)
theory GroupChat
  imports ChatGroups
begin

text \<open>
  Who speaks in a group: the mentions that choose the bots a message wakes,
  \<open>packages/core/src/group-mentions.ts\<close>, and the hand-off of a stage from the running bot to
  another member, \<open>packages/adapters/src/group-handoff.ts\<close>. Mentions are matched on code
  points; \<open>word\<close> are the letters and numbers of the expressions and \<open>fold1\<close> the case folding
  of their flags, \<open>lc\<close> is the lower-casing of the language.
\<close>

subsection \<open>Mentions\<close>

text \<open>The code points of a string: a surrogate that is not part of a pair stands for itself.\<close>

fun code_points :: "jstring \<Rightarrow> nat list" where
  "code_points [] = []"
| "code_points [c] = [unat c]"
| "code_points (c # d # s) =
     (if 0xD800 \<le> c \<and> c \<le> 0xDBFF \<and> 0xDC00 \<le> d \<and> d \<le> 0xDFFF
      then (0x10000 + (unat c - 0xD800) * 0x400 + (unat d - 0xDC00)) # code_points s
      else unat c # code_points (d # s))"

text \<open>\<open>[\p{L}\p{N}_-]\<close>: letters, numbers, underscore and hyphen.\<close>

definition token_char :: "(nat \<Rightarrow> bool) \<Rightarrow> nat \<Rightarrow> bool" where
  "token_char word c \<longleftrightarrow> word c \<or> c = 95 \<or> c = 45"

definition name_follows :: "(nat \<Rightarrow> bool) \<Rightarrow> (nat \<Rightarrow> nat) \<Rightarrow> nat list \<Rightarrow> nat list \<Rightarrow> bool" where
  "name_follows word fold1 name s \<longleftrightarrow>
     map fold1 (take (length name) s) = map fold1 name \<and>
     (case drop (length name) s of [] \<Rightarrow> True | c # _ \<Rightarrow> \<not> token_char word c)"

fun mention_in :: "(nat \<Rightarrow> bool) \<Rightarrow> (nat \<Rightarrow> nat) \<Rightarrow> nat list \<Rightarrow> bool \<Rightarrow> nat list \<Rightarrow> bool" where
  "mention_in word fold1 name free [] = False"
| "mention_in word fold1 name free (c # s) =
     ((free \<and> c = 64 \<and> name_follows word fold1 name s) \<or>
      mention_in word fold1 name (\<not> token_char word c) s)"

definition hasMentionToken :: "(nat \<Rightarrow> bool) \<Rightarrow> (nat \<Rightarrow> nat) \<Rightarrow> jstring \<Rightarrow> jstring \<Rightarrow> bool" where
  "hasMentionToken word fold1 s name =
     (if trim name = [] then False
      else mention_in word fold1 (code_points (trim name)) True (code_points s))"

record member_ref =
  mr_id :: id
  mr_name :: jstring

definition resolveGroupTargetBotIds ::
  "(nat \<Rightarrow> bool) \<Rightarrow> (nat \<Rightarrow> nat) \<Rightarrow> jstring \<Rightarrow> member_ref list \<Rightarrow> id list \<Rightarrow> id list" where
  "resolveGroupTargetBotIds word fold1 s members explicitMentions =
     (let explicit = filter (\<lambda>i. \<exists>m \<in> set members. mr_id m = i) explicitMentions;
          named = (if hasMentionToken word fold1 s (js ''everyone'') then map mr_id members
                   else map mr_id (filter (\<lambda>m. hasMentionToken word fold1 s (mr_name m)) members));
          targetIds = uniq (explicit @ named)
      in if targetIds = [] \<and> members \<noteq> [] then [mr_id (hd members)] else targetIds)"

lemma resolved_targets_are_members:
  "set (resolveGroupTargetBotIds word fold1 s members explicitMentions) \<subseteq> set (map mr_id members)"
  by (cases members) (auto simp: resolveGroupTargetBotIds_def Let_def)

lemma resolved_targets_distinct:
  "distinct (resolveGroupTargetBotIds word fold1 s members explicitMentions)"
  by (simp add: resolveGroupTargetBotIds_def Let_def distinct_uniq)

lemma resolved_targets_exist:
  "members \<noteq> [] \<Longrightarrow> resolveGroupTargetBotIds word fold1 s members explicitMentions \<noteq> []"
  by (simp add: resolveGroupTargetBotIds_def Let_def)

lemma mentioned_member_is_woken:
  assumes "m \<in> set members" and "hasMentionToken word fold1 s (mr_name m) \<or> mr_id m \<in> set explicitMentions"
    and "\<not> hasMentionToken word fold1 s (js ''everyone'')"
  shows "mr_id m \<in> set (resolveGroupTargetBotIds word fold1 s members explicitMentions)"
proof -
  have "mr_id m \<in> set (filter (\<lambda>i. \<exists>m \<in> set members. mr_id m = i) explicitMentions @
      map mr_id (filter (\<lambda>m. hasMentionToken word fold1 s (mr_name m)) members))"
    using assms(1,2) by auto
  then show ?thesis
    using assms(3) by (auto simp: resolveGroupTargetBotIds_def Let_def simp flip: set_empty)
qed

subsection \<open>Hand-offs\<close>

record handoff_run =
  hr_id :: id
  hr_workspaceId :: id
  hr_threadId :: id
  hr_botId :: id
  hr_userId :: id

record handoff_input =
  hn_bot_id :: "jstring option"
  hn_confirm_name :: "jstring option"
  hn_message :: jstring

record handoff_ids =
  hd_messageId :: id
  hd_taskId :: id
  hd_runId :: id
  hd_eventId :: id

datatype handoff_answer = HandoffError jstring | HandedOff id id int

definition handoff_target :: "(jstring \<Rightarrow> jstring) \<Rightarrow> handoff_input \<Rightarrow> bot_row list \<Rightarrow> id option" where
  "handoff_target lc i members =
     (let botId = map_option trim (hn_bot_id i) in
      if truthy botId then botId
      else if truthy (map_option trim (hn_confirm_name i))
      then map_option b_id (List.find (\<lambda>b. lc (b_name b) = lc (trim (the (hn_confirm_name i)))) members)
      else botId)"

definition active_source :: "handoff_run \<Rightarrow> db \<Rightarrow> bool" where
  "active_source run d \<longleftrightarrow> (\<exists>r \<in> set (db_runs d). r_id r = hr_id run \<and> r_workspaceId r = hr_workspaceId run \<and>
     r_threadId r = hr_threadId run \<and> r_botId r = hr_botId run \<and> r_userId r = hr_userId run \<and>
     r_status r = Running)"

text \<open>The guards of a hand-off, in their order.\<close>

definition handoff_check ::
  "(jstring \<Rightarrow> jstring) \<Rightarrow> handoff_run \<Rightarrow> id \<Rightarrow> handoff_input \<Rightarrow> db \<Rightarrow> jstring + id" where
  "handoff_check lc run groupId i d =
     (if count_where (\<lambda>g. g_id g = groupId \<and>
          owned_group \<lparr>ac_workspaceId = hr_workspaceId run, ac_userId = hr_userId run\<rparr> g) (db_groups d) \<noteq> 1
      then Inl (js ''group is no longer available'')
      else
        case find_group (\<lambda>g. g_id g = groupId \<and> g_archivedAt g = None \<and>
               (\<exists>t \<in> set (db_threads d). t_groupId t = Some (g_id g) \<and> t_id t = hr_threadId run)) d of
          None \<Rightarrow> Inl (js ''source run is no longer active'')
        | Some g \<Rightarrow>
            if \<not> active_source run d then Inl (js ''source run is no longer active'')
            else
              let members = active_bots g d; target = handoff_target lc i members in
              if \<not> (\<exists>b \<in> set members. b_id b = hr_botId run)
              then Inl (js ''source bot is no longer a group member'')
              else if \<not> truthy target then Inl (js ''handoff target bot is required'')
              else if target = Some (hr_botId run) then Inl (js ''cannot hand off to yourself'')
              else if \<not> (\<exists>b \<in> set members. Some (b_id b) = target)
              then Inl (js ''handoff target is not a group member'')
              else Inr (the target))"

definition handoff_commit :: "handoff_ids \<Rightarrow> time \<Rightarrow> handoff_run \<Rightarrow> id \<Rightarrow> jstring \<Rightarrow> id \<Rightarrow> handoff_answer dbtx" where
  "handoff_commit ids now run groupId message target =
     tx_bind (createThreadMessageInTransaction (hd_messageId ids) now
        \<lparr>cm_threadId = hr_threadId run, cm_role = RBot, cm_blocks = [BHandoff (hr_botId run) target message],
         cm_botId = Some (hr_botId run), cm_replyToMessageId = None, cm_runId = Some (hr_id run),
         cm_clientNonce = None\<rparr>) (\<lambda>msg.
     tx_bind (create_task (new_task (hd_taskId ids) (hr_workspaceId run) target (hr_threadId run)
        (hr_userId run) message)) (\<lambda>task.
     tx_bind (create_run ((new_run (hd_runId ids) now (hr_workspaceId run) target (hr_threadId run)
        (k_id task) (hr_userId run) TrigUser)\<lparr>r_sourceMessageId := Some (m_id msg)\<rparr>)) (\<lambda>nextRun.
     tx_bind (appendEventInTransaction (hd_eventId ids) now
        \<lparr>ae_workspaceId = hr_workspaceId run, ae_threadId = hr_threadId run, ae_botId = hr_botId run,
         ae_type = GroupHandoff,
         ae_payload = \<lparr>p_messageId = Some (m_id msg), p_role = None, p_blocks = None,
           p_fields = [(js ''fromBotId'', JStr (hr_botId run)), (js ''toBotId'', JStr target),
                       (js ''text'', JStr message)]\<rparr>,
         ae_runId = Some (hr_id run)\<rparr>) (\<lambda>event.
     tx_then (touchGroupUpdatedAt groupId now)
       (tx_return (HandedOff target (r_id nextRun) (e_seq event)))))))"

definition handoffToGroupBot ::
  "(jstring \<Rightarrow> jstring) \<Rightarrow> handoff_ids \<Rightarrow> time \<Rightarrow> handoff_run \<Rightarrow> id \<Rightarrow> handoff_input \<Rightarrow> db \<Rightarrow>
   (db_error + handoff_answer) \<times> db" where
  "handoffToGroupBot lc ids now run groupId i =
     run_transaction (tx_bind (tx_get (handoff_check lc run groupId i)) (\<lambda>check.
       case check of
         Inl err \<Rightarrow> tx_return (HandoffError err)
       | Inr target \<Rightarrow> handoff_commit ids now run groupId (hn_message i) target))"

definition bot_ref_of :: "bot_row \<Rightarrow> bot_address" where
  "bot_ref_of b = \<lparr>ba_id = b_id b, ba_name = b_name b, ba_title = Some (b_title b),
     ba_description = Some (b_description b)\<rparr>"

definition loadGroupContext :: "db \<Rightarrow> id \<Rightarrow> jstring option" where
  "loadGroupContext d groupId =
     map_option (\<lambda>g. renderGroupMembersContext (g_name g) (map bot_ref_of (active_bots g d)))
       (find_group (\<lambda>g. g_id g = groupId) d)"

lemma handoff_committed:
  assumes "handoffToGroupBot lc ids now run groupId i d = (Inr (HandedOff target rid seq), d')"
  shows "\<exists>g. find_group (\<lambda>g. g_id g = groupId \<and> g_archivedAt g = None \<and>
        (\<exists>t \<in> set (db_threads d). t_groupId t = Some (g_id g) \<and> t_id t = hr_threadId run)) d = Some g \<and>
      active_source run d \<and> target \<noteq> hr_botId run \<and>
      {target, hr_botId run} \<subseteq> set (map b_id (active_bots g d))"
    and "\<exists>r. db_runs d' = db_runs d @ [r] \<and> r_id r = rid \<and> r_botId r = target \<and> r_status r = Queued"
proof -
  from assms have check: "handoff_check lc run groupId i d = Inr target"
    and commit: "handoff_commit ids now run groupId (hn_message i) target d = Inr (HandedOff target rid seq, d')"
    by (auto simp: handoffToGroupBot_def handoff_commit_def split: sum.splits)
  then obtain g where g: "find_group (\<lambda>g. g_id g = groupId \<and> g_archivedAt g = None \<and>
      (\<exists>t \<in> set (db_threads d). t_groupId t = Some (g_id g) \<and> t_id t = hr_threadId run)) d = Some g"
    by (auto simp: handoff_check_def split: if_splits option.splits)
  from check g show "\<exists>g. find_group (\<lambda>g. g_id g = groupId \<and> g_archivedAt g = None \<and>
        (\<exists>t \<in> set (db_threads d). t_groupId t = Some (g_id g) \<and> t_id t = hr_threadId run)) d = Some g \<and>
      active_source run d \<and> target \<noteq> hr_botId run \<and>
      {target, hr_botId run} \<subseteq> set (map b_id (active_bots g d))"
    by (cases "handoff_target lc i (active_bots g d)")
      (auto simp: handoff_check_def Let_def intro: image_eqI [OF sym] split: if_splits option.splits)
  from commit show "\<exists>r. db_runs d' = db_runs d @ [r] \<and> r_id r = rid \<and> r_botId r = target \<and> r_status r = Queued"
    by (auto simp: handoff_commit_def touchGroupUpdatedAt_def update_group_def create_task_def create_run_def
        new_run_def elim!: createMessage_run appendEvent_run split: if_splits)
qed

end
