(* ===== verification/WorkspacePaths.thy ===== *)
theory WorkspacePaths
  imports Contracts TextLines
begin

text \<open>
  Paths on a computer, \<open>packages/adapters/src/computer-support.ts\<close>: a requested path is
  normalized to segments that cannot leave the workspace, a bot on a team computer works in its
  own directory under \<open>bots\<close>, and texts handed to a shell are quoted. \<open>posix_join\<close> is
  \<open>path.posix.join\<close> of the standard library with its normalization written out.
\<close>

subsection \<open>The standard library on paths\<close>

fun join_path :: "jstring list \<Rightarrow> jstring" where
  "join_path [] = []"
| "join_path [s] = s"
| "join_path (s # t # ss) = s @ 47 # join_path (t # ss)"

definition dot :: jstring where "dot = js ''.''"
definition dotdot :: jstring where "dotdot = js ''..''"

text \<open>The segments of a path, resolved from the left; \<open>acc\<close> is what is kept, reversed.\<close>

fun resolve_segs :: "bool \<Rightarrow> jstring list \<Rightarrow> jstring list \<Rightarrow> jstring list" where
  "resolve_segs absolute acc [] = rev acc"
| "resolve_segs absolute acc (s # ss) =
     (if s = [] \<or> s = dot then resolve_segs absolute acc ss
      else if s = dotdot
      then (if acc \<noteq> [] \<and> hd acc \<noteq> dotdot then resolve_segs absolute (tl acc) ss
            else if absolute then resolve_segs absolute acc ss
            else resolve_segs absolute (dotdot # acc) ss)
      else resolve_segs absolute (s # acc) ss)"

definition posix_normalize :: "jstring \<Rightarrow> jstring" where
  "posix_normalize p =
     (if p = [] then dot
      else
        let absolute = (hd p = 47);
            trailing = (last p = 47);
            body = join_path (resolve_segs absolute [] (split_on 47 p))
        in if body = [] then (if absolute then js ''/'' else if trailing then js ''./'' else dot)
           else (if absolute then [47] else []) @ body @ (if trailing then [47] else []))"

definition posix_join :: "jstring \<Rightarrow> jstring \<Rightarrow> jstring" where
  "posix_join a b =
     (let parts = filter (\<lambda>s. s \<noteq> []) [a, b] in
      if parts = [] then dot else posix_normalize (join_path parts))"

subsection \<open>Workspace paths\<close>

definition escape_error :: jstring where
  "escape_error = js ''Path escapes the computer workspace''"

definition portable :: "jstring \<Rightarrow> jstring" where
  "portable s = map (\<lambda>c. if c = 92 then 47 else c) s"

definition path_segments :: "jstring \<Rightarrow> jstring list" where
  "path_segments s = filter (\<lambda>t. t \<noteq> []) (split_on 47 (dropWhile (\<lambda>c. c = 47) (portable s)))"

definition normalizeWorkspacePath :: "jstring \<Rightarrow> jstring + jstring" where
  "normalizeWorkspacePath s =
     (let segs = path_segments s in
      if list_ex (\<lambda>t. t = dot \<or> t = dotdot) segs then Inl escape_error else Inr (join_path segs))"

definition workspacePath :: "jstring \<Rightarrow> jstring \<Rightarrow> jstring + jstring" where
  "workspacePath root relative =
     (case normalizeWorkspacePath relative of
        Inl e \<Rightarrow> Inl e
      | Inr normalized \<Rightarrow> Inr (if normalized \<noteq> [] then posix_join root normalized else root))"

definition teamBotWorkspaceDirectory :: "jstring \<Rightarrow> jstring + jstring" where
  "teamBotWorkspaceDirectory botId =
     (case normalizeWorkspacePath botId of
        Inl e \<Rightarrow> Inl e | Inr normalized \<Rightarrow> Inr (posix_join (js ''bots'') normalized))"

definition stripVirtualWorkspaceRoot :: "jstring \<Rightarrow> jstring option" where
  "stripVirtualWorkspaceRoot s =
     (let p = portable s in
      if p = [47] then Some []
      else if prefix [47] p then Some (drop 1 p) else None)"

definition isTeamRootPath :: "jstring \<Rightarrow> bool" where
  "isTeamRootPath s \<longleftrightarrow> s = js ''shared'' \<or> prefix (js ''shared/'') s \<or> s = js ''bots'' \<or> prefix (js ''bots/'') s"

definition resolveBotWorkspacePath :: "bool \<Rightarrow> jstring \<Rightarrow> jstring \<Rightarrow> jstring + jstring" where
  "resolveBotWorkspacePath team botId requested =
     (if \<not> team then Inr requested
      else
        let explicit = stripVirtualWorkspaceRoot requested in
        case normalizeWorkspacePath (case explicit of Some e \<Rightarrow> e | None \<Rightarrow> requested) of
          Inl e \<Rightarrow> Inl e
        | Inr normalized \<Rightarrow>
            if explicit \<noteq> None \<or> isTeamRootPath normalized then Inr normalized
            else (case teamBotWorkspaceDirectory botId of
                Inl e \<Rightarrow> Inl e | Inr dir \<Rightarrow> Inr (posix_join dir normalized)))"

definition resolveBotWorkspaceCwd ::
  "bool \<Rightarrow> jstring \<Rightarrow> jstring option \<Rightarrow> jstring + jstring option" where
  "resolveBotWorkspaceCwd team botId requested =
     (if \<not> team then Inr requested
      else if \<not> truthy requested \<or> requested = Some dot
      then map_sum id Some (teamBotWorkspaceDirectory botId)
      else if prefix [47] (the requested) then Inr requested
      else map_sum id Some (resolveBotWorkspacePath team botId (the requested)))"

definition isBotRelativeRequest :: "jstring \<Rightarrow> jstring + bool" where
  "isBotRelativeRequest s =
     (if stripVirtualWorkspaceRoot s \<noteq> None then Inr False
      else map_sum id (\<lambda>n. \<not> isTeamRootPath n) (normalizeWorkspacePath s))"

definition displayBotWorkspacePath ::
  "bool \<Rightarrow> jstring \<Rightarrow> jstring \<Rightarrow> jstring \<Rightarrow> jstring + jstring" where
  "displayBotWorkspacePath team botId requested stored =
     (if \<not> team then Inr stored
      else
        case isBotRelativeRequest requested of
          Inl e \<Rightarrow> Inl e
        | Inr False \<Rightarrow> Inr stored
        | Inr True \<Rightarrow>
            (case normalizeWorkspacePath stored of
               Inl e \<Rightarrow> Inl e
             | Inr normalized \<Rightarrow>
                 (case teamBotWorkspaceDirectory botId of
                    Inl e \<Rightarrow> Inl e
                  | Inr dir \<Rightarrow> Inr (if normalized = dir then []
                      else if prefix (dir @ [47]) normalized then drop (length dir + 1) normalized
                      else normalized))))"

subsection \<open>Texts for a shell\<close>

fun shell_escape :: "jstring \<Rightarrow> jstring" where
  "shell_escape [] = []"
| "shell_escape (c # s) = (if c = 39 then [39, 34, 39, 34, 39] else [c]) @ shell_escape s"

definition shellQuote :: "jstring \<Rightarrow> jstring" where
  "shellQuote s = 39 # shell_escape s @ [39]"

subsection \<open>Clean segments\<close>

definition clean :: "jstring \<Rightarrow> bool" where
  "clean t \<longleftrightarrow> t \<noteq> [] \<and> t \<noteq> dot \<and> t \<noteq> dotdot \<and> 47 \<notin> set t \<and> 92 \<notin> set t"

lemma split_join: "list_all clean ss \<Longrightarrow> ss \<noteq> [] \<Longrightarrow> split_on 47 (join_path ss) = ss"
  by (induction ss rule: join_path.induct) (auto simp: clean_def split_on_plain split_on_append)

lemma join_append: "ss \<noteq> [] \<Longrightarrow> ts \<noteq> [] \<Longrightarrow> join_path (ss @ ts) = join_path ss @ 47 # join_path ts"
proof (induction ss rule: join_path.induct)
  case (2 s)
  then show ?case by (cases ts) simp_all
qed simp_all

lemma join_chars: "set (join_path ss) \<subseteq> {47} \<union> (\<Union>s \<in> set ss. set s)"
  by (induction ss rule: join_path.induct) auto

lemma join_clean_ends:
  assumes "list_all clean ss" and "ss \<noteq> []"
  shows "join_path ss \<noteq> []" and "hd (join_path ss) \<noteq> 47" and "last (join_path ss) \<noteq> 47"
proof -
  have "join_path ss \<noteq> [] \<and> hd (join_path ss) \<noteq> 47 \<and> last (join_path ss) \<noteq> 47"
    using assms
  proof (induction ss rule: join_path.induct)
    case (2 s)
    then show ?case by (auto simp: clean_def dest: hd_in_set last_in_set)
  next
    case (3 s t ss)
    then show ?case by (auto simp: clean_def dest: hd_in_set)
  qed simp
  then show "join_path ss \<noteq> []" "hd (join_path ss) \<noteq> 47" "last (join_path ss) \<noteq> 47" by blast+
qed

lemma resolve_clean: "list_all clean ss \<Longrightarrow> resolve_segs absolute acc ss = rev acc @ ss"
  by (induction ss arbitrary: acc) (auto simp: clean_def)

lemma clean_bots: "clean (js ''bots'')"
proof -
  have "js ''bots'' = [98, 111, 116, 115]" by (simp add: js_def)
  then show ?thesis by (simp add: clean_def dot_def dotdot_def js_def)
qed

lemma normalize_clean:
  assumes "list_all clean ss" and "ss \<noteq> []"
  shows "posix_normalize (join_path ss) = join_path ss"
    and "posix_normalize (47 # join_path ss) = 47 # join_path ss"
  using join_clean_ends [OF assms] split_join [OF assms] assms
  by (simp_all add: posix_normalize_def Let_def resolve_clean)

lemma posix_join_clean:
  assumes "list_all clean (ss @ ts)" and "ss \<noteq> []"
  shows "posix_join (join_path ss) (join_path ts) = join_path (ss @ ts)"
    and "posix_join (47 # join_path ss) (join_path ts) = 47 # join_path (ss @ ts)"
proof -
  have ne: "join_path ss \<noteq> []" using assms join_clean_ends(1) [of ss] by simp
  have all: "list_all clean (ss @ ts)" "ss @ ts \<noteq> []" using assms by simp_all
  show "posix_join (join_path ss) (join_path ts) = join_path (ss @ ts)"
  proof (cases ts)
    case Nil
    then show ?thesis using ne normalize_clean [OF all] by (simp add: posix_join_def)
  next
    case (Cons t us)
    then have "join_path ts \<noteq> []" using assms(1) join_clean_ends(1) [of ts] by simp
    then show ?thesis using ne Cons normalize_clean [OF all] assms(2) join_append [of ss ts]
      by (simp add: posix_join_def)
  qed
  show "posix_join (47 # join_path ss) (join_path ts) = 47 # join_path (ss @ ts)"
  proof (cases ts)
    case Nil
    then show ?thesis using normalize_clean [OF all] by (simp add: posix_join_def)
  next
    case (Cons t us)
    then have "join_path ts \<noteq> []" using assms(1) join_clean_ends(1) [of ts] by simp
    then show ?thesis using Cons normalize_clean [OF all] assms(2) join_append [of ss ts]
      by (simp add: posix_join_def)
  qed
qed

subsection \<open>Normalized paths\<close>

lemma normalize_shape:
  assumes "normalizeWorkspacePath s = Inr p"
  obtains ss where "p = join_path ss" and "list_all clean ss"
proof -
  from assms have p: "p = join_path (path_segments s)" and d: "\<forall>t \<in> set (path_segments s). t \<noteq> dot \<and> t \<noteq> dotdot"
    by (auto simp: normalizeWorkspacePath_def Let_def list_ex_iff split: if_splits)
  have "clean t" if "t \<in> set (path_segments s)" for t
  proof -
    let ?s = "dropWhile (\<lambda>c. c = 47) (portable s)"
    from that have t: "t \<in> set (split_on 47 ?s)" "t \<noteq> []" by (auto simp: path_segments_def)
    have "set t \<subseteq> set (portable s)"
      using split_on_chars [OF t(1)] by (auto dest: set_dropWhileD)
    then have "92 \<notin> set t" by (auto simp: portable_def)
    with split_on_parts [OF t(1)] t(2) d that show ?thesis by (simp add: clean_def)
  qed
  then have "list_all clean (path_segments s)" by (simp add: list_all_iff)
  with p show thesis by (rule that)
qed

lemma normalize_join:
  assumes "list_all clean ss"
  shows "normalizeWorkspacePath (join_path ss) = Inr (join_path ss)"
proof -
  have "92 \<notin> set (join_path ss)"
    using assms join_chars [of ss] by (auto simp: list_all_iff clean_def)
  then have port: "portable (join_path ss) = join_path ss" by (auto simp: portable_def intro: map_idI)
  have "path_segments (join_path ss) = ss"
  proof (cases "ss = []")
    case False
    have "dropWhile (\<lambda>c. c = 47) (join_path ss) = join_path ss"
      using join_clean_ends [OF assms False] by (cases "join_path ss") simp_all
    then show ?thesis using split_join [OF assms False] port assms
      by (auto simp: path_segments_def clean_def list_all_iff intro: filter_True)
  qed (simp add: path_segments_def portable_def)
  then show ?thesis using assms by (auto simp: normalizeWorkspacePath_def list_all_iff list_ex_iff clean_def)
qed

lemma team_directory_shape:
  assumes "teamBotWorkspaceDirectory botId = Inr dir"
  obtains ss where "dir = join_path ss" and "list_all clean ss" and "ss \<noteq> []"
proof -
  from assms obtain n where n: "normalizeWorkspacePath botId = Inr n" and dir: "dir = posix_join (js ''bots'') n"
    by (auto simp: teamBotWorkspaceDirectory_def split: sum.splits)
  obtain ss where ss: "n = join_path ss" "list_all clean ss" using normalize_shape [OF n] .
  have "dir = join_path (js ''bots'' # ss)"
    using posix_join_clean(1) [of "[js ''bots'']" ss] ss dir clean_bots by simp
  then show thesis using ss(2) clean_bots by (intro that [of "js ''bots'' # ss"]) simp_all
qed

lemma resolve_shape:
  assumes "resolveBotWorkspacePath True botId requested = Inr p"
  obtains ss where "p = join_path ss" and "list_all clean ss"
    and "isBotRelativeRequest requested = Inr True \<Longrightarrow>
      \<exists>ds us. teamBotWorkspaceDirectory botId = Inr (join_path ds) \<and> ds \<noteq> [] \<and> ss = ds @ us \<and>
        normalizeWorkspacePath requested = Inr (join_path us)"
proof -
  let ?e = "stripVirtualWorkspaceRoot requested"
  from assms obtain n where n: "normalizeWorkspacePath (case ?e of Some e \<Rightarrow> e | None \<Rightarrow> requested) = Inr n"
    and c: "if ?e \<noteq> None \<or> isTeamRootPath n then p = n
      else \<exists>dir. teamBotWorkspaceDirectory botId = Inr dir \<and> p = posix_join dir n"
    by (auto simp: resolveBotWorkspacePath_def Let_def split: sum.splits if_splits)
  obtain us where us: "n = join_path us" "list_all clean us" using normalize_shape [OF n] .
  show thesis
  proof (cases "?e \<noteq> None \<or> isTeamRootPath n")
    case True
    then have "isBotRelativeRequest requested \<noteq> Inr True"
      using n by (auto simp: isBotRelativeRequest_def split: option.splits)
    then show thesis using True c us by (intro that [of us]) simp_all
  next
    case False
    with c obtain dir where dir: "teamBotWorkspaceDirectory botId = Inr dir" and p: "p = posix_join dir n" by auto
    obtain ds where ds: "dir = join_path ds" "list_all clean ds" "ds \<noteq> []" using team_directory_shape [OF dir] .
    have "p = join_path (ds @ us)" using posix_join_clean(1) [of ds us] ds us p by simp
    moreover have "normalizeWorkspacePath requested = Inr (join_path us)" using False n us by auto
    ultimately show thesis using ds us dir by (intro that [of "ds @ us"]) auto
  qed
qed

subsection \<open>A bot stays in the workspace\<close>

lemma join_prefix: "ds \<noteq> [] \<Longrightarrow> join_path (ds @ us) = (if us = [] then join_path ds else join_path ds @ 47 # join_path us)"
  by (simp add: join_append)

lemma root_split: "list_all clean ss \<Longrightarrow> dotdot \<notin> set (split_on 47 (47 # join_path ss))"
  by (cases "ss = []") (auto simp: split_join list_all_iff clean_def dotdot_def)

text \<open>
  C27. Whatever path a bot on a team computer asks for, if it is accepted then the file it names
  lies in the workspace root, with no parent segment left to leave it by; a path that is
  relative to the bot lies in the directory of the bot, and is shown back to it as the
  normalized form of what it asked for.
\<close>

theorem bot_paths_stay_in_the_workspace:
  assumes "resolveBotWorkspacePath True botId requested = Inr p"
    and "list_all clean rs" and "rs \<noteq> []" and "root = 47 # join_path rs"
  shows "\<exists>full. workspacePath root p = Inr full \<and> (full = root \<or> prefix (root @ [47]) full) \<and>
      dotdot \<notin> set (split_on 47 full) \<and>
      (isBotRelativeRequest requested = Inr True \<longrightarrow>
        (\<exists>dir. teamBotWorkspaceDirectory botId = Inr dir \<and>
           (full = root @ 47 # dir \<or> prefix (root @ 47 # dir @ [47]) full)) \<and>
        displayBotWorkspacePath True botId requested p = normalizeWorkspacePath requested)"
proof -
  obtain ss where p: "p = join_path ss" and ss: "list_all clean ss"
    and rel: "isBotRelativeRequest requested = Inr True \<Longrightarrow>
      \<exists>ds us. teamBotWorkspaceDirectory botId = Inr (join_path ds) \<and> ds \<noteq> [] \<and> ss = ds @ us \<and>
        normalizeWorkspacePath requested = Inr (join_path us)"
    using resolve_shape [OF assms(1)] by blast
  define full where "full = 47 # join_path (rs @ ss)"
  have norm: "normalizeWorkspacePath p = Inr p" unfolding p by (rule normalize_join [OF ss])
  have "ss \<noteq> [] \<Longrightarrow> join_path ss \<noteq> []" using join_clean_ends(1) [OF ss] .
  then have ws: "workspacePath root p = Inr full"
    using norm p posix_join_clean(2) [of rs ss] assms(2-4) ss
    by (cases "ss = []") (simp_all add: workspacePath_def full_def)
  have stay: "full = root \<or> prefix (root @ [47]) full"
    using join_prefix [OF assms(3), of ss] assms(4) by (auto simp: full_def)
  have up: "dotdot \<notin> set (split_on 47 full)"
    unfolding full_def by (rule root_split) (use assms(2) ss in simp)
  have "(\<exists>dir. teamBotWorkspaceDirectory botId = Inr dir \<and> (full = root @ 47 # dir \<or> prefix (root @ 47 # dir @ [47]) full)) \<and>
        displayBotWorkspacePath True botId requested p = normalizeWorkspacePath requested"
    if r: "isBotRelativeRequest requested = Inr True"
  proof -
    obtain ds us where d: "teamBotWorkspaceDirectory botId = Inr (join_path ds)" "ds \<noteq> []" "ss = ds @ us"
      and u: "normalizeWorkspacePath requested = Inr (join_path us)"
      using rel [OF r] by blast
    have fd: "full = root @ 47 # join_path (ds @ us)"
      using join_append [OF assms(3), of "ds @ us"] d assms(4) by (simp add: full_def)
    then have "full = root @ 47 # join_path ds \<or> prefix (root @ 47 # join_path ds @ [47]) full"
      by (simp add: join_prefix [OF d(2)])
    moreover have "displayBotWorkspacePath True botId requested p = normalizeWorkspacePath requested"
      using r d u norm p by (simp add: displayBotWorkspacePath_def join_prefix)
    ultimately show ?thesis using d(1) by blast
  qed
  with ws stay up show ?thesis by blast
qed

lemma example_paths:
  "resolveBotWorkspacePath True (js ''b1'') (js ''a//b.txt'') = Inr (js ''bots/b1/a/b.txt'')"
  "isBotRelativeRequest (js ''a//b.txt'') = Inr True"
  "normalizeWorkspacePath (js ''a//b.txt'') = Inr (js ''a/b.txt'')"
  "resolveBotWorkspacePath True (js ''b1'') (js ''../b2/x'') = Inl escape_error"
  by (simp_all add: resolveBotWorkspacePath_def isBotRelativeRequest_def normalizeWorkspacePath_def
      teamBotWorkspaceDirectory_def posix_join_def posix_normalize_def stripVirtualWorkspaceRoot_def isTeamRootPath_def
      path_segments_def portable_def dot_def dotdot_def js_def)

theorem bot_paths_stay_in_the_workspace_witness:
  "\<exists>full. workspacePath (js ''/home'') (js ''bots/b1/a/b.txt'') = Inr full \<and> prefix (js ''/home/'') full"
proof -
  have "list_all clean [js ''home'']" "js ''/home'' = 47 # join_path [js ''home'']"
    by (simp_all add: clean_def dot_def dotdot_def js_def)
  from bot_paths_stay_in_the_workspace [OF example_paths(1) this(1) _ this(2)] example_paths(2,3)
  show ?thesis by (auto simp: js_def)
qed

subsection \<open>Quoting for a shell\<close>

text \<open>
  How a shell reads one word: between single quotes every character stands for itself, between
  double quotes every character that is not special there, and outside quotes the word ends at
  a character that is not a quote.
\<close>

datatype quoting = Bare | Single | Double

fun shell_word :: "quoting \<Rightarrow> jstring \<Rightarrow> jstring \<times> jstring" where
  "shell_word q [] = ([], [])"
| "shell_word Bare (c # s) =
     (if c = 39 then shell_word Single s else if c = 34 then shell_word Double s else ([], c # s))"
| "shell_word Single (c # s) =
     (if c = 39 then shell_word Bare s else apfst ((#) c) (shell_word Single s))"
| "shell_word Double (c # s) =
     (if c = 34 then shell_word Bare s
      else if c = 36 \<or> c = 96 \<or> c = 92 then ([], c # s)
      else apfst ((#) c) (shell_word Double s))"

lemma shell_escape_read:
  "shell_word Single (shell_escape s @ 39 # rest) = apfst (\<lambda>w. s @ w) (shell_word Bare rest)"
  by (induction s) (simp_all add: apfst_def map_prod_def split_def)

lemma shellQuote_read:
  assumes "rest = [] \<or> hd rest \<notin> {39, 34}"
  shows "shell_word Bare (shellQuote s @ rest) = (s, rest)"
  using assms by (cases rest) (auto simp: shellQuote_def shell_escape_read apfst_def)

end
