(* ===== verification/Attachments.thy ===== *)
theory Attachments
  imports ChatGroups ApprovalKey BotDirectory WorkspacePaths
begin

text \<open>
  Attachments: the rules of \<open>packages/contracts/src/attachments.ts\<close> and
  \<open>packages/core/src/attachments.ts\<close>, the stored files of \<open>packages/adapters/src/artifacts.ts\<close>, and
  what the API does with them, \<open>apps/api/src/artifacts.ts\<close>. The base64 functions are those of the
  standard library, written out. \<open>lc\<close> is the lower-casing of the language and \<open>sha256\<close> the hash.
\<close>

subsection \<open>The rules\<close>

definition ATTACHMENT_MAX_BYTES :: nat where "ATTACHMENT_MAX_BYTES = 10 * 1024 * 1024"
definition ATTACHMENT_MAX_COUNT :: nat where "ATTACHMENT_MAX_COUNT = 4"
definition ATTACHMENT_MAX_BASE64_LENGTH :: nat where
  "ATTACHMENT_MAX_BASE64_LENGTH = (ATTACHMENT_MAX_BYTES + 2) div 3 * 4"

definition ATTACHMENT_IMAGE_MIME_TYPES :: "jstring list" where
  "ATTACHMENT_IMAGE_MIME_TYPES = map js [''image/jpeg'', ''image/png'', ''image/webp'', ''image/gif'']"

definition ATTACHMENT_FILE_MIME_TYPES :: "jstring list" where
  "ATTACHMENT_FILE_MIME_TYPES =
     map js [''application/pdf'', ''text/plain'', ''text/markdown'', ''text/csv'', ''application/json'']"

definition isAttachmentImageMimeType :: "jstring \<Rightarrow> bool" where
  "isAttachmentImageMimeType m \<longleftrightarrow> m \<in> set ATTACHMENT_IMAGE_MIME_TYPES"

definition isAllowedAttachmentMimeType :: "jstring \<Rightarrow> bool" where
  "isAllowedAttachmentMimeType m \<longleftrightarrow> m \<in> set (ATTACHMENT_IMAGE_MIME_TYPES @ ATTACHMENT_FILE_MIME_TYPES)"

definition validateThreadsSendInput :: "jstring option \<Rightarrow> id list option \<Rightarrow> bool" where
  "validateThreadsSendInput caption artifactIds \<longleftrightarrow>
     truthy (map_option trim caption) \<or> truthy artifactIds"

definition validateAttachmentMimeType :: "jstring \<Rightarrow> jstring + unit" where
  "validateAttachmentMimeType m =
     (if \<not> isAllowedAttachmentMimeType m then Inl (js ''Unsupported attachment type: '' @ m) else Inr ())"

definition EXTENSION_MIME_TYPES :: "(jstring \<times> jstring) list" where
  "EXTENSION_MIME_TYPES = map (map_prod js js)
     [(''.jpg'', ''image/jpeg''), (''.jpeg'', ''image/jpeg''), (''.png'', ''image/png''),
      (''.webp'', ''image/webp''), (''.gif'', ''image/gif''), (''.pdf'', ''application/pdf''),
      (''.txt'', ''text/plain''), (''.md'', ''text/markdown''), (''.markdown'', ''text/markdown''),
      (''.csv'', ''text/csv''), (''.json'', ''application/json'')]"

definition MIME_TYPE_EXTENSIONS :: "(jstring \<times> jstring) list" where
  "MIME_TYPE_EXTENSIONS = map (map_prod js js)
     [(''image/jpeg'', ''.jpg''), (''image/png'', ''.png''), (''image/webp'', ''.webp''),
      (''image/gif'', ''.gif''), (''application/pdf'', ''.pdf''), (''text/plain'', ''.txt''),
      (''text/markdown'', ''.md''), (''text/csv'', ''.csv''), (''application/json'', ''.json'')]"

text \<open>\<open>name.slice(name.lastIndexOf("."))\<close>, when the name has a dot.\<close>

definition extension_of :: "jstring \<Rightarrow> jstring option" where
  "extension_of name =
     (if 46 \<notin> set name then None else Some (46 # rev (takeWhile (\<lambda>c. c \<noteq> 46) (rev name))))"

definition inferAttachmentMimeType ::
  "(jstring \<Rightarrow> jstring) \<Rightarrow> jstring \<Rightarrow> jstring option \<Rightarrow> jstring option" where
  "inferAttachmentMimeType lc name reported =
     (let extensionType = (case extension_of name of None \<Rightarrow> None
            | Some e \<Rightarrow> map_of EXTENSION_MIME_TYPES (lc e)) in
      if extensionType = Some (js ''text/markdown'') \<and> (\<not> truthy reported \<or> reported = Some (js ''text/plain''))
      then extensionType
      else if truthy reported \<and> isAllowedAttachmentMimeType (the reported) then reported
      else extensionType)"

definition attachmentExtensionForMimeType :: "jstring \<Rightarrow> jstring" where
  "attachmentExtensionForMimeType m =
     (if isAllowedAttachmentMimeType m then the (map_of MIME_TYPE_EXTENSIONS m) else [])"

lemmas mime_defs = isAllowedAttachmentMimeType_def isAttachmentImageMimeType_def
  ATTACHMENT_IMAGE_MIME_TYPES_def ATTACHMENT_FILE_MIME_TYPES_def EXTENSION_MIME_TYPES_def MIME_TYPE_EXTENSIONS_def

text \<open>Whatever the extension infers is allowed, and every allowed type has an extension it is inferred from.\<close>

lemma inferred_type_is_allowed:
  assumes "inferAttachmentMimeType lc name reported = Some m"
  shows "isAllowedAttachmentMimeType m"
proof -
  have "isAllowedAttachmentMimeType v" if "map_of EXTENSION_MIME_TYPES e = Some v" for e v
    using map_of_SomeD [OF that] by (auto simp: mime_defs)
  with assms show ?thesis
    by (auto simp: inferAttachmentMimeType_def Let_def split: if_splits option.splits)
qed

lemma extension_infers_its_type:
  assumes "isAllowedAttachmentMimeType m"
  shows "map_of EXTENSION_MIME_TYPES (attachmentExtensionForMimeType m) = Some m"
  using assms by (auto simp: attachmentExtensionForMimeType_def mime_defs)

subsection \<open>Base64\<close>

type_synonym bytes = "8 word list"

definition b64_char :: "nat \<Rightarrow> jchar" where
  "b64_char n = word_of_nat (if n < 26 then 65 + n else if n < 52 then 71 + n else if n < 62 then n - 4
     else if n = 62 then 43 else 47)"

definition b64_value :: "jchar \<Rightarrow> nat option" where
  "b64_value c = (let n = unat c in
     if 65 \<le> n \<and> n \<le> 90 then Some (n - 65) else if 97 \<le> n \<and> n \<le> 122 then Some (n - 71)
     else if 48 \<le> n \<and> n \<le> 57 then Some (n + 4) else if n = 43 then Some 62
     else if n = 47 then Some 63 else None)"

fun b64_encode :: "bytes \<Rightarrow> jstring" where
  "b64_encode [] = []"
| "b64_encode [x] = [b64_char (unat x div 4), b64_char (unat x mod 4 * 16), 61, 61]"
| "b64_encode [x, y] =
     [b64_char (unat x div 4), b64_char (unat x mod 4 * 16 + unat y div 16),
      b64_char (unat y mod 16 * 4), 61]"
| "b64_encode (x # y # z # s) =
     [b64_char (unat x div 4), b64_char (unat x mod 4 * 16 + unat y div 16),
      b64_char (unat y mod 16 * 4 + unat z div 64), b64_char (unat z mod 64)] @ b64_encode s"

definition byte :: "nat \<Rightarrow> 8 word" where
  "byte n = word_of_nat n"

definition b64_digit :: "jchar \<Rightarrow> bool" where
  "b64_digit c \<longleftrightarrow> b64_value c \<noteq> None"

text \<open>The expression \<open>^(?:[A-Za-z0-9+/]{4})*(?:[A-Za-z0-9+/]{2}==|[A-Za-z0-9+/]{3}=)?$\<close>.\<close>

fun b64_valid :: "jstring \<Rightarrow> bool" where
  "b64_valid [] = True"
| "b64_valid (a # b # c # d # s) =
     (b64_digit a \<and> b64_digit b \<and>
      ((b64_digit c \<and> b64_digit d \<and> b64_valid s) \<or>
       (s = [] \<and> d = 61 \<and> (b64_digit c \<or> c = 61))))"
| "b64_valid _ = False"

text \<open>\<open>Buffer.from(s, "base64")\<close> on such a text.\<close>

fun b64_decode :: "jstring \<Rightarrow> bytes" where
  "b64_decode (a # b # c # d # s) =
     (let va = the (b64_value a); vb = the (b64_value b); vc = the (b64_value c); vd = the (b64_value d) in
      if c = 61 then [byte (va * 4 + vb div 16)]
      else if d = 61 then [byte (va * 4 + vb div 16), byte (vb mod 16 * 16 + vc div 4)]
      else [byte (va * 4 + vb div 16), byte (vb mod 16 * 16 + vc div 4),
            byte (vc mod 4 * 64 + vd)] @ b64_decode s)"
| "b64_decode _ = []"

definition decodeAttachmentBase64 :: "jstring \<Rightarrow> jstring + bytes" where
  "decodeAttachmentBase64 contentBase64 =
     (let normalized = trim contentBase64 in
      if normalized = [] then Inl (js ''Attachment content is empty'')
      else if length normalized > ATTACHMENT_MAX_BASE64_LENGTH
      then Inl (js ''Attachment exceeds the 10 MiB limit'')
      else if length normalized mod 4 \<noteq> 0 \<or> \<not> b64_valid normalized
      then Inl (js ''Attachment content is not valid base64'')
      else
        let bytes = b64_decode normalized in
        if bytes = [] then Inl (js ''Attachment content is empty'')
        else if length bytes > ATTACHMENT_MAX_BYTES then Inl (js ''Attachment exceeds the 10 MiB limit'')
        else Inr bytes)"

lemma byte_lt: "unat (x :: 8 word) < 256"
  using unsigned_less [of x, where ?'a = nat] by simp

lemma unat_b64_char:
  "n < 64 \<Longrightarrow> unat (b64_char n) = (if n < 26 then 65 + n else if n < 52 then 71 + n
     else if n < 62 then n - 4 else if n = 62 then 43 else 47)"
  by (simp add: b64_char_def unat_of_nat del: of_nat_add of_nat_diff of_nat_numeral)

lemma b64_value_char [simp]: "n < 64 \<Longrightarrow> b64_value (b64_char n) = Some n"
  by (auto simp: b64_value_def unat_b64_char Let_def)

lemma b64_char_plain: "n < 64 \<Longrightarrow> b64_char n \<noteq> 61 \<and> \<not> is_ws (b64_char n)"
proof -
  assume n: "n < 64"
  have "is_ws c \<Longrightarrow> b64_value c = None" for c
    by (auto simp: is_ws_def b64_value_def Let_def)
  moreover have "b64_value 61 = None" by (simp add: b64_value_def)
  ultimately show ?thesis using b64_value_char [OF n] by (metis option.distinct(1))
qed

lemma byte_parts:
  fixes x y z :: "8 word"
  shows "unat x div 4 < 64" "unat x mod 4 * 16 < 64" "unat y mod 16 * 4 < 64"
    "unat x mod 4 * 16 + unat y div 16 < 64" "unat y mod 16 * 4 + unat z div 64 < 64"
proof -
  have "unat x mod 4 < 4" "unat y mod 16 < 16" by simp_all
  moreover have "unat y div 16 < 16" "unat z div 64 < 4" "unat x div 4 < 64"
    using byte_lt [of x] byte_lt [of y] byte_lt [of z] by (simp_all add: less_mult_imp_div_less)
  ultimately show "unat x div 4 < 64" "unat x mod 4 * 16 < 64" "unat y mod 16 * 4 < 64"
    "unat x mod 4 * 16 + unat y div 16 < 64" "unat y mod 16 * 4 + unat z div 64 < 64" by linarith+
qed

lemma byte_joins:
  fixes y z :: "8 word"
  shows "unat y div 16 div 16 = 0" "unat y div 16 mod 16 = unat y div 16"
    "unat z div 64 div 4 = 0" "unat z div 64 mod 4 = unat z div 64"
    "byte (unat y) = y" "byte (unat y div 16 * 16 + unat y mod 16) = y"
    "byte (unat z div 64 * 64 + unat z mod 64) = z"
proof -
  have "unat y div 16 < 16" "unat z div 64 < 4"
    using byte_lt [of y] byte_lt [of z] by (simp_all add: less_mult_imp_div_less)
  then show "unat y div 16 div 16 = 0" "unat y div 16 mod 16 = unat y div 16"
    "unat z div 64 div 4 = 0" "unat z div 64 mod 4 = unat z div 64" by simp_all
  show "byte (unat y) = y" "byte (unat y div 16 * 16 + unat y mod 16) = y"
    "byte (unat z div 64 * 64 + unat z mod 64) = z" by (simp_all add: byte_def)
qed

lemma b64_value_pad [simp]: "b64_value 61 = None"
  by (simp add: b64_value_def)

lemma b64_char_pad [simp]: "n < 64 \<Longrightarrow> b64_char n \<noteq> 61" "n < 64 \<Longrightarrow> \<not> is_ws (b64_char n)"
  using b64_char_plain by blast+

lemma pad_plain: "\<not> is_ws 61"
  by (simp add: is_ws_def)

lemma b64_decode_encode: "b64_decode (b64_encode s) = s"
  by (induction s rule: b64_encode.induct)
    (simp_all add: byte_parts byte_joins)

lemma b64_valid_encode: "b64_valid (b64_encode s)"
  by (induction s rule: b64_encode.induct) (simp_all add: b64_digit_def byte_parts)

lemma length_b64_encode: "length (b64_encode s) = (length s + 2) div 3 * 4"
proof (induction s rule: b64_encode.induct)
  case (4 x y z s)
  then show ?case using div_add_self2 [of 3 "length s + 2"] by simp
qed simp_all

lemma b64_encode_ends:
  "s \<noteq> [] \<Longrightarrow> b64_encode s \<noteq> [] \<and> \<not> is_ws (hd (b64_encode s)) \<and> \<not> is_ws (last (b64_encode s))"
proof (induction s rule: b64_encode.induct)
  case (4 x y z s)
  then show ?case by (cases "s = []") (simp_all add: byte_parts)
qed (simp_all add: byte_parts pad_plain)

lemma decode_of_encode:
  assumes "bytes \<noteq> []" and "length bytes \<le> ATTACHMENT_MAX_BYTES"
  shows "decodeAttachmentBase64 (b64_encode bytes) = Inr bytes"
proof -
  have "trim (b64_encode bytes) = b64_encode bytes"
    using b64_encode_ends [OF assms(1)] by (intro trim_idem_if) simp
  moreover have "length (b64_encode bytes) \<le> ATTACHMENT_MAX_BASE64_LENGTH"
    using assms(2) by (simp add: length_b64_encode ATTACHMENT_MAX_BASE64_LENGTH_def div_le_mono)
  ultimately show ?thesis
    using b64_encode_ends [OF assms(1)] assms b64_valid_encode [of bytes]
    by (simp add: decodeAttachmentBase64_def Let_def b64_decode_encode length_b64_encode)
qed

lemma decoded_size:
  "decodeAttachmentBase64 s = Inr bytes \<Longrightarrow> bytes \<noteq> [] \<and> length bytes \<le> ATTACHMENT_MAX_BYTES"
  by (auto simp: decodeAttachmentBase64_def Let_def split: if_splits)

subsection \<open>Stored files\<close>

text \<open>
  \<open>LocalArtifactStore\<close> keeps one directory for each workspace and one file for each identifier:
  \<open>files (workspaceId, id)\<close> is the content of a file, and reading a file that is not there throws.
  The identifier of a new file is a random UUID, an argument.
\<close>

type_synonym files = "id \<times> id \<Rightarrow> bytes option"

definition local_put :: "id \<Rightarrow> id \<Rightarrow> bytes \<Rightarrow> files \<Rightarrow> id \<times> files" where
  "local_put uuid workspaceId content files = (uuid, files((workspaceId, uuid) := Some content))"

definition local_get :: "id \<Rightarrow> id \<Rightarrow> files \<Rightarrow> bytes option" where
  "local_get workspaceId i files = files (workspaceId, i)"

definition local_remove :: "id \<Rightarrow> id \<Rightarrow> files \<Rightarrow> files" where
  "local_remove workspaceId i files = files((workspaceId, i) := None)"

record artifact_row =
  af_id :: id
  af_workspaceId :: id
  af_userId :: id
  af_botId :: "id option"
  af_groupId :: "id option"
  af_runId :: "id option"
  af_name :: jstring
  af_mimeType :: jstring
  af_size :: nat
  af_hash :: jstring
  af_storageKey :: id
  af_createdAt :: time

datatype artifact_error = AttachmentInvalid jstring | RowError db_error | FileMissing

record artifact_input =
  at_botId :: id
  at_groupId :: "id option"
  at_name :: jstring
  at_mimeType :: jstring
  at_contentBase64 :: jstring

record artifact_view =
  av_id :: id
  av_botId :: "id option"
  av_groupId :: "id option"
  av_runId :: "id option"
  av_name :: jstring
  av_mimeType :: jstring
  av_size :: nat
  av_createdAt :: time

record artifact_content = artifact_view +
  av_contentBase64 :: jstring

definition create_artifact :: "artifact_row \<Rightarrow> artifact_row list \<Rightarrow> db_error + artifact_row list" where
  "create_artifact r rows =
     (if af_id r \<in> set (map af_id rows) then Inl UniqueViolation else Inr (rows @ [r]))"

text \<open>
  The steps that store a file and its row, for an upload and for a file of a run: when the row
  cannot be created the file is removed again.
\<close>

definition store_artifact ::
  "(id \<Rightarrow> id \<Rightarrow> bytes \<Rightarrow> 's \<Rightarrow> id \<times> 's) \<Rightarrow> (id \<Rightarrow> id \<Rightarrow> 's \<Rightarrow> 's) \<Rightarrow> id \<Rightarrow> bytes \<Rightarrow> artifact_row \<Rightarrow>
   artifact_row list \<times> 's \<Rightarrow> (artifact_error + artifact_row) \<times> (artifact_row list \<times> 's)" where
  "store_artifact putf removef uuid content row = (\<lambda>(rows, store).
     let (key, stored) = putf uuid (af_workspaceId row) content store;
         new = row\<lparr>af_storageKey := key\<rparr>
     in case create_artifact new rows of
          Inl e \<Rightarrow> (Inl (RowError e), (rows, removef (af_workspaceId row) key stored))
        | Inr rows' \<Rightarrow> (Inr new, (rows', stored)))"

definition artifact_view_of :: "artifact_row \<Rightarrow> artifact_view" where
  "artifact_view_of r = \<lparr>av_id = af_id r, av_botId = af_botId r, av_groupId = af_groupId r, av_runId = af_runId r,
     av_name = af_name r, av_mimeType = af_mimeType r, av_size = af_size r, av_createdAt = af_createdAt r\<rparr>"

definition createOwnedArtifact ::
  "(id \<Rightarrow> id \<Rightarrow> bytes \<Rightarrow> 's \<Rightarrow> id \<times> 's) \<Rightarrow> (id \<Rightarrow> id \<Rightarrow> 's \<Rightarrow> 's) \<Rightarrow> (bytes \<Rightarrow> jstring) \<Rightarrow> id \<Rightarrow> id \<Rightarrow> time \<Rightarrow>
   actor \<Rightarrow> artifact_input \<Rightarrow> artifact_row list \<times> 's \<Rightarrow>
   (artifact_error + artifact_view) \<times> (artifact_row list \<times> 's)" where
  "createOwnedArtifact putf removef sha256 rid uuid now actor i st =
     (case validateAttachmentMimeType (at_mimeType i) of
        Inl e \<Rightarrow> (Inl (AttachmentInvalid e), st)
      | Inr _ \<Rightarrow>
          (case decodeAttachmentBase64 (at_contentBase64 i) of
             Inl e \<Rightarrow> (Inl (AttachmentInvalid e), st)
           | Inr content \<Rightarrow>
               apfst (map_sum id artifact_view_of)
                 (store_artifact putf removef uuid content
                    \<lparr>af_id = rid, af_workspaceId = ac_workspaceId actor, af_userId = ac_userId actor,
                     af_botId = Some (at_botId i), af_groupId = at_groupId i, af_runId = None,
                     af_name = at_name i, af_mimeType = at_mimeType i, af_size = length content,
                     af_hash = sha256 content, af_storageKey = [], af_createdAt = now\<rparr> st)))"

definition readArtifact ::
  "(id \<Rightarrow> id \<Rightarrow> 's \<Rightarrow> bytes option) \<Rightarrow> actor \<Rightarrow> artifact_row \<Rightarrow> 's \<Rightarrow> artifact_error + artifact_content" where
  "readArtifact getf actor r store =
     (case getf (ac_workspaceId actor) (af_storageKey r) store of
        None \<Rightarrow> Inl FileMissing
      | Some content \<Rightarrow>
          Inr (artifact_view.extend (artifact_view_of r) \<lparr>av_contentBase64 = b64_encode content\<rparr>))"

definition own_artifact :: "actor \<Rightarrow> artifact_row \<Rightarrow> bool" where
  "own_artifact actor r \<longleftrightarrow> af_workspaceId r = ac_workspaceId actor \<and> af_userId r = ac_userId actor"

definition getOwnedArtifact ::
  "(id \<Rightarrow> id \<Rightarrow> 's \<Rightarrow> bytes option) \<Rightarrow> actor \<Rightarrow> id \<Rightarrow> id \<Rightarrow> artifact_row list \<times> 's \<Rightarrow>
   artifact_error + artifact_content" where
  "getOwnedArtifact getf actor botId artifactId = (\<lambda>(rows, store).
     case List.find (\<lambda>r. af_id r = artifactId \<and> af_botId r = Some botId \<and> af_groupId r = None \<and> own_artifact actor r) rows of
       None \<Rightarrow> Inl (RowError IsolationError)
     | Some r \<Rightarrow> readArtifact getf actor r store)"

definition getWorkspaceArtifact ::
  "(id \<Rightarrow> id \<Rightarrow> 's \<Rightarrow> bytes option) \<Rightarrow> actor \<Rightarrow> id \<Rightarrow> id \<Rightarrow> artifact_row list \<times> 's \<Rightarrow>
   artifact_error + artifact_content" where
  "getWorkspaceArtifact getf actor groupId artifactId = (\<lambda>(rows, store).
     case List.find (\<lambda>r. af_id r = artifactId \<and> af_groupId r = Some groupId \<and> own_artifact actor r) rows of
       None \<Rightarrow> Inl (RowError IsolationError)
     | Some r \<Rightarrow> readArtifact getf actor r store)"

subsection \<open>Blocks and prompts\<close>

definition messageBlockForArtifact :: "artifact_row \<Rightarrow> message_block" where
  "messageBlockForArtifact r =
     (if isAttachmentImageMimeType (af_mimeType r) then BImage (af_id r) (af_mimeType r) (af_name r)
      else BFile (af_id r) (af_mimeType r) (af_name r) (af_size r))"

fun join_paragraphs :: "jstring list \<Rightarrow> jstring" where
  "join_paragraphs [] = []"
| "join_paragraphs [p] = p"
| "join_paragraphs (p # q # ps) = p @ [10, 10] @ join_paragraphs (q # ps)"

definition file_note :: "artifact_row \<Rightarrow> jstring" where
  "file_note r = js ''User attached file '' @ json_quote (af_name r) @ js '' ('' @ af_mimeType r @ js '', '' @
     dec (af_size r) @ js '' bytes).''"

definition promptTextForAttachments :: "jstring option \<Rightarrow> artifact_row list \<Rightarrow> jstring" where
  "promptTextForAttachments caption artifacts =
     (let c = (case caption of None \<Rightarrow> [] | Some t \<Rightarrow> trim t);
          notes = map file_note (filter (\<lambda>r. \<not> isAttachmentImageMimeType (af_mimeType r)) artifacts);
          s = join_paragraphs (filter (\<lambda>p. p \<noteq> []) (c # notes))
      in if s = [] then js ''See attached files.'' else s)"

definition block_history_text :: "message_block \<Rightarrow> jstring" where
  "block_history_text b =
     (case b of
        BChart name _ _ \<Rightarrow> js ''[chart: '' @ name @ js '']''
      | BImage _ _ name \<Rightarrow> js ''[image: '' @ name @ js '']''
      | BFile _ mime name n \<Rightarrow> js ''[file: '' @ name @ js '' ('' @ mime @ js '', '' @ dec n @ js '' bytes)]''
      | BBotMessageReceived _ name t _ \<Rightarrow> js ''[from '' @ name @ js ''] '' @ t
      | BBotMessageSent _ name t \<Rightarrow> js ''[to '' @ name @ js ''] '' @ t
      | _ \<Rightarrow> (case block_text_field b of Some t \<Rightarrow> t | None \<Rightarrow> []))"

definition blocksToAgentHistoryText :: "message_block list \<Rightarrow> jstring" where
  "blocksToAgentHistoryText blocks = join_lines (filter (\<lambda>t. t \<noteq> []) (map block_history_text blocks))"

definition userTurnBlocksForRun ::
  "run_trigger \<Rightarrow> id \<Rightarrow> message_row list \<Rightarrow> id option \<Rightarrow> message_block list option" where
  "userTurnBlocksForRun trigger runId messages sourceMessageId =
     (if trigger \<noteq> TrigUser then None
      else map_option m_blocks (List.find (\<lambda>m. m_role m = RUser \<and>
             (if truthy sourceMessageId then Some (m_id m) = sourceMessageId else m_runId m = Some runId)) messages))"

subsection \<open>Attachments of a send\<close>

definition normalizeAttachmentIds :: "id list option \<Rightarrow> artifact_error + id list" where
  "normalizeAttachmentIds artifactIds =
     (let ids = uniq (case artifactIds of None \<Rightarrow> [] | Some is \<Rightarrow> is) in
      if length ids > ATTACHMENT_MAX_COUNT
      then Inl (AttachmentInvalid (js ''At most 4 attachments per message'')) else Inr ids)"

definition toAttachmentResolution ::
  "id list \<Rightarrow> artifact_row list \<Rightarrow> artifact_error + (message_block list \<times> artifact_row list)" where
  "toAttachmentResolution ids rows =
     (if length rows \<noteq> length ids then Inl (RowError IsolationError)
      else let artifacts = map (\<lambda>i. the (List.find (\<lambda>r. af_id r = i) rows)) ids
           in Inr (map messageBlockForArtifact artifacts, artifacts))"

definition resolve_attachments ::
  "(artifact_row \<Rightarrow> bool) \<Rightarrow> id list option \<Rightarrow> artifact_row list \<Rightarrow>
   artifact_error + (message_block list \<times> artifact_row list)" where
  "resolve_attachments mine artifactIds rows =
     (case normalizeAttachmentIds artifactIds of
        Inl e \<Rightarrow> Inl e
      | Inr ids \<Rightarrow>
          toAttachmentResolution ids (if ids = [] then [] else filter (\<lambda>r. af_id r \<in> set ids \<and> mine r) rows))"

definition resolveSendAttachments ::
  "actor \<Rightarrow> id \<Rightarrow> id list option \<Rightarrow> artifact_row list \<Rightarrow>
   artifact_error + (message_block list \<times> artifact_row list)" where
  "resolveSendAttachments actor botId =
     resolve_attachments (\<lambda>r. af_botId r = Some botId \<and> af_groupId r = None \<and> own_artifact actor r)"

definition resolveGroupSendAttachments ::
  "actor \<Rightarrow> id \<Rightarrow> id list \<Rightarrow> id list option \<Rightarrow> artifact_row list \<Rightarrow>
   artifact_error + (message_block list \<times> artifact_row list)" where
  "resolveGroupSendAttachments actor groupId memberBotIds =
     resolve_attachments (\<lambda>r. own_artifact actor r \<and>
       (af_groupId r = Some groupId \<or> (af_groupId r = None \<and> (\<exists>b \<in> set memberBotIds. af_botId r = Some b))))"

definition buildUserMessageBlocks :: "jstring option \<Rightarrow> message_block list \<Rightarrow> message_block list" where
  "buildUserMessageBlocks s attachmentBlocks =
     (let caption = map_option trim s in
      (if truthy caption then [BText (the caption)] else []) @ attachmentBlocks)"

text \<open>
  The line of a prompt that names connectors: the first line of the prompt that has the form
  \<open>Use these connectors if relevant: ... .\<close> is replaced where its text first occurs, and
  otherwise the line is appended.
\<close>

definition connector_marker :: jstring where
  "connector_marker = js ''Use these connectors if relevant: ''"

definition line_end :: "jchar \<Rightarrow> bool" where
  "line_end c \<longleftrightarrow> c \<in> set [10, 13, 0x2028, 0x2029]"

fun text_lines :: "jstring \<Rightarrow> jstring list" where
  "text_lines [] = [[]]"
| "text_lines (c # s) =
     (if line_end c then [] # text_lines s
      else case text_lines s of [] \<Rightarrow> [[c]] | l # ls \<Rightarrow> (c # l) # ls)"

definition connector_line :: "jstring \<Rightarrow> bool" where
  "connector_line l \<longleftrightarrow> prefix connector_marker l \<and> length l > length connector_marker \<and> last l = 46"

fun replace_first :: "jstring \<Rightarrow> jstring \<Rightarrow> jstring \<Rightarrow> jstring" where
  "replace_first old new [] = (if old = [] then new else [])"
| "replace_first old new (c # s) =
     (if prefix old (c # s) then new @ drop (length old) (c # s) else c # replace_first old new s)"

fun join_comma :: "jstring list \<Rightarrow> jstring" where
  "join_comma [] = []"
| "join_comma [n] = n"
| "join_comma (n # m # ns) = n @ [44, 32] @ join_comma (m # ns)"

definition named :: "jstring list \<Rightarrow> jstring list" where
  "named ns = filter (\<lambda>n. n \<noteq> []) (map trim ns)"

definition buildSendPrompt :: "jstring option \<Rightarrow> artifact_row list \<Rightarrow> jstring list \<Rightarrow> jstring" where
  "buildSendPrompt s artifacts connectorNames =
     (let prompt = promptTextForAttachments s artifacts in
      if connectorNames = [] then prompt
      else
        let existing = List.find connector_line (text_lines prompt);
            before = (case existing of None \<Rightarrow> []
              | Some l \<Rightarrow> named (split_on 44 (butlast (drop (length connector_marker) l))));
            line = connector_marker @ join_comma (uniq (before @ named connectorNames)) @ [46]
        in case existing of
             Some l \<Rightarrow> replace_first l line prompt
           | None \<Rightarrow> if prompt \<noteq> [] then prompt @ [10, 10] @ line else line)"

subsection \<open>Files of a run\<close>

definition basename :: "jstring \<Rightarrow> jstring" where
  "basename p = rev (takeWhile (\<lambda>c. c \<noteq> 47) (dropWhile (\<lambda>c. c = 47) (rev p)))"

record workspace_file =
  wf_workspaceId :: id
  wf_userId :: id
  wf_botId :: id
  wf_groupId :: "id option"
  wf_runId :: id
  wf_filePath :: jstring
  wf_bytes :: bytes

definition attachWorkspaceFileToThread ::
  "(id \<Rightarrow> id \<Rightarrow> bytes \<Rightarrow> 's \<Rightarrow> id \<times> 's) \<Rightarrow> (id \<Rightarrow> id \<Rightarrow> 's \<Rightarrow> 's) \<Rightarrow> (bytes \<Rightarrow> jstring) \<Rightarrow> (jstring \<Rightarrow> jstring) \<Rightarrow>
   id \<Rightarrow> id \<Rightarrow> time \<Rightarrow> workspace_file \<Rightarrow> artifact_row list \<times> 's \<Rightarrow>
   (artifact_error + (id \<times> message_block)) \<times> (artifact_row list \<times> 's)" where
  "attachWorkspaceFileToThread putf removef sha256 lc rid uuid now i st =
     (let name = (if basename (wf_filePath i) \<noteq> [] then basename (wf_filePath i) else wf_filePath i) in
      case inferAttachmentMimeType lc name None of
        None \<Rightarrow> (Inl (AttachmentInvalid (js ''Unsupported attachment type for '' @ name)), st)
      | Some mimeType \<Rightarrow>
          (case validateAttachmentMimeType mimeType of
             Inl e \<Rightarrow> (Inl (AttachmentInvalid e), st)
           | Inr _ \<Rightarrow>
               if length (wf_bytes i) > ATTACHMENT_MAX_BYTES
               then (Inl (AttachmentInvalid (js ''file exceeds the 10 MiB attachment limit'')), st)
               else apfst (map_sum id (\<lambda>r. (af_id r, messageBlockForArtifact r)))
                 (store_artifact putf removef uuid (wf_bytes i)
                    \<lparr>af_id = rid, af_workspaceId = wf_workspaceId i, af_userId = wf_userId i,
                     af_botId = Some (wf_botId i), af_groupId = wf_groupId i, af_runId = Some (wf_runId i),
                     af_name = name, af_mimeType = mimeType, af_size = length (wf_bytes i),
                     af_hash = sha256 (wf_bytes i), af_storageKey = [], af_createdAt = now\<rparr> st)))"

record materialized =
  mf_name :: jstring
  mf_mimeType :: jstring
  mf_size :: nat
  mf_path :: jstring

text \<open>
  The files of the current turn are written to the computer one after the other: the answer is
  the list of files with the writes that were made, in their order, also when one fails.
\<close>

definition file_refs :: "message_block list \<Rightarrow> (id \<times> jstring) list" where
  "file_refs blocks = concat (map (\<lambda>b. case b of BFile i _ name _ \<Rightarrow> [(i, name)] | _ \<Rightarrow> []) blocks)"

fun materialize ::
  "(id \<Rightarrow> bytes option) \<Rightarrow> bool \<Rightarrow> id \<Rightarrow> artifact_row list \<Rightarrow> (id \<times> jstring) list \<Rightarrow>
   (jstring + materialized list) \<times> (jstring \<times> bytes) list" where
  "materialize getf team botId rows [] = (Inr [], [])"
| "materialize getf team botId rows ((i, name) # refs) =
     (case List.find (\<lambda>r. af_id r = i) rows of
        None \<Rightarrow> (Inl (js ''Attached file is unavailable: '' @ name), [])
      | Some r \<Rightarrow>
          (case getf (af_storageKey r) of
             None \<Rightarrow> (Inl (js ''ENOENT''), [])
           | Some content \<Rightarrow>
               if length content > ATTACHMENT_MAX_BYTES
               then (Inl (js ''Attached file exceeds the 10 MiB limit: '' @ af_name r), [])
               else
                 let relativePath = js ''attachments/'' @ af_id r @ attachmentExtensionForMimeType (af_mimeType r) in
                 case resolveBotWorkspacePath team botId relativePath of
                   Inl e \<Rightarrow> (Inl e, [])
                 | Inr path \<Rightarrow>
                     (case materialize getf team botId rows refs of
                        (res, writes) \<Rightarrow>
                          (map_sum id (\<lambda>ms. \<lparr>mf_name = af_name r, mf_mimeType = af_mimeType r,
                               mf_size = af_size r, mf_path = relativePath\<rparr> # ms) res, (path, content) # writes))))"

definition materializeCurrentTurnFiles ::
  "(id \<Rightarrow> id \<Rightarrow> 's \<Rightarrow> bytes option) \<Rightarrow> actor \<Rightarrow> bool \<Rightarrow> id \<Rightarrow> message_block list option \<Rightarrow> artifact_row list \<times> 's \<Rightarrow>
   (jstring + materialized list) \<times> (jstring \<times> bytes) list" where
  "materializeCurrentTurnFiles getf actor team botId blocks = (\<lambda>(rows, store).
     let refs = (case blocks of None \<Rightarrow> [] | Some bs \<Rightarrow> file_refs bs) in
     if refs = [] then (Inr [], [])
     else materialize (\<lambda>k. getf (ac_workspaceId actor) k store) team botId
            (filter (\<lambda>r. af_id r \<in> set (map fst refs) \<and> own_artifact actor r) rows) refs)"

definition currentTurnFilesInstruction :: "materialized list \<Rightarrow> jstring" where
  "currentTurnFilesInstruction files =
     (if files = [] then []
      else join_lines (js ''Current-turn attached files are available on your computer. Inspect them before answering:''
        # map (\<lambda>f. js ''- '' @ json_quote (mf_name f) @ js '' ('' @ mf_mimeType f @ js '', '' @ dec (mf_size f) @
            js '' bytes): '' @ json_quote (mf_path f)) files))"

subsection \<open>What a store promises\<close>

locale artifact_store =
  fixes putf :: "id \<Rightarrow> id \<Rightarrow> bytes \<Rightarrow> 's \<Rightarrow> id \<times> 's"
    and getf :: "id \<Rightarrow> id \<Rightarrow> 's \<Rightarrow> bytes option"
    and removef :: "id \<Rightarrow> id \<Rightarrow> 's \<Rightarrow> 's"
  assumes get_put: "putf uuid ws content s = (i, s') \<Longrightarrow> getf ws i s' = Some content"
    and get_put_other: "putf uuid ws content s = (i, s') \<Longrightarrow> (ws', j) \<noteq> (ws, i) \<Longrightarrow> getf ws' j s' = getf ws' j s"
    and get_remove: "getf ws i (removef ws i s) = None"
    and get_remove_other: "(ws', j) \<noteq> (ws, i) \<Longrightarrow> getf ws' j (removef ws i s) = getf ws' j s"
begin

lemma stored:
  assumes "store_artifact putf removef uuid content row (rows, s) = (Inr r, (rows', s'))"
  shows "rows' = rows @ [r]" and "af_id r \<notin> set (map af_id rows)" and "getf (af_workspaceId r) (af_storageKey r) s' = Some content"
    and "r = row\<lparr>af_storageKey := af_storageKey r\<rparr>"
    and "(ws', j) \<noteq> (af_workspaceId row, af_storageKey r) \<Longrightarrow> getf ws' j s' = getf ws' j s"
  using assms
  by (auto simp: store_artifact_def create_artifact_def Let_def split: prod.splits if_splits sum.splits
      dest: get_put get_put_other)

lemma not_stored:
  assumes "store_artifact putf removef uuid content row (rows, s) = (Inl e, (rows', s'))"
  shows "rows' = rows" and "\<exists>key. getf (af_workspaceId row) key s' = None \<and>
    (\<forall>ws' j. (ws', j) \<noteq> (af_workspaceId row, key) \<longrightarrow> getf ws' j s' = getf ws' j s)"
proof -
  from assms obtain key s1 where p: "putf uuid (af_workspaceId row) content s = (key, s1)"
    and r: "rows' = rows" "s' = removef (af_workspaceId row) key s1"
    by (auto simp: store_artifact_def Let_def split: prod.splits sum.splits)
  show "rows' = rows" by (rule r(1))
  show "\<exists>key. getf (af_workspaceId row) key s' = None \<and>
    (\<forall>ws' j. (ws', j) \<noteq> (af_workspaceId row, key) \<longrightarrow> getf ws' j s' = getf ws' j s)"
    unfolding r(2) using get_put_other [OF p] get_remove get_remove_other by (intro exI [of _ key]) auto
qed

lemma mapped_answer:
  assumes "apfst (map_sum id f) x = (Inr v, y)"
  shows "\<exists>r. x = (Inr r, y) \<and> v = f r"
  using assms by (cases x; cases "fst x") (auto simp: apfst_def map_prod_def)

lemma uploaded:
  assumes "createOwnedArtifact putf removef sha256 rid uuid now actor i (rows, s) = (Inr v, (rows', s'))"
  shows "\<exists>content r. decodeAttachmentBase64 (at_contentBase64 i) = Inr content \<and> rows' = rows @ [r] \<and>
      v = artifact_view_of r \<and> af_id r \<notin> set (map af_id rows) \<and>
      getf (ac_workspaceId actor) (af_storageKey r) s' = Some content \<and> own_artifact actor r \<and>
      af_botId r = Some (at_botId i) \<and> af_groupId r = at_groupId i \<and> af_size r = length content \<and>
      af_name r = at_name i \<and> af_mimeType r = at_mimeType i"
proof -
  let ?row = "\<lambda>content. \<lparr>af_id = rid, af_workspaceId = ac_workspaceId actor, af_userId = ac_userId actor,
                     af_botId = Some (at_botId i), af_groupId = at_groupId i, af_runId = None,
                     af_name = at_name i, af_mimeType = at_mimeType i, af_size = length content,
                     af_hash = sha256 content, af_storageKey = [], af_createdAt = now\<rparr>"
  from assms obtain content where c: "decodeAttachmentBase64 (at_contentBase64 i) = Inr content"
    and a: "apfst (map_sum id artifact_view_of) (store_artifact putf removef uuid content (?row content) (rows, s)) =
      (Inr v, (rows', s'))"
    by (auto simp: createOwnedArtifact_def split: sum.splits)
  obtain r where st: "store_artifact putf removef uuid content (?row content) (rows, s) = (Inr r, (rows', s'))"
    and v: "v = artifact_view_of r"
    using mapped_answer [OF a] by blast
  define key where "key = af_storageKey r"
  have "r = (?row content)\<lparr>af_storageKey := key\<rparr>" using stored(4) [OF st] by (simp add: key_def)
  then show ?thesis
    using c v stored(1-3) [OF st] by (intro exI [of _ content] exI [of _ r]) (simp add: own_artifact_def)
qed

lemma find_new:
  assumes "af_id r \<notin> set (map af_id rows)"
  shows "List.find (\<lambda>q. af_id q = af_id r \<and> P q) (rows @ [r]) = (if P r then Some r else None)"
  using assms by (induction rows) auto

lemma read_back:
  assumes "createOwnedArtifact putf removef sha256 rid uuid now actor i (rows, s) = (Inr v, (rows', s'))"
    and "at_groupId i = None"
  shows "\<exists>content. decodeAttachmentBase64 (at_contentBase64 i) = Inr content \<and> av_size v = length content \<and>
     getOwnedArtifact getf actor (at_botId i) (av_id v) (rows', s') =
       Inr (artifact_view.extend v \<lparr>av_contentBase64 = b64_encode content\<rparr>)"
    and "actor' \<noteq> actor \<or> botId \<noteq> at_botId i \<Longrightarrow>
      getOwnedArtifact getf actor' botId (av_id v) (rows', s') = Inl (RowError IsolationError)"
proof -
  obtain content r where u: "decodeAttachmentBase64 (at_contentBase64 i) = Inr content" "rows' = rows @ [r]"
      "v = artifact_view_of r" "af_id r \<notin> set (map af_id rows)"
      "getf (ac_workspaceId actor) (af_storageKey r) s' = Some content" "own_artifact actor r"
      "af_botId r = Some (at_botId i)" "af_groupId r = None" "af_size r = length content"
    using uploaded [OF assms(1)] assms(2) by auto
  have "av_id v = af_id r" "av_size v = length content" using u by (simp_all add: artifact_view_of_def)
  then show "\<exists>content. decodeAttachmentBase64 (at_contentBase64 i) = Inr content \<and> av_size v = length content \<and>
     getOwnedArtifact getf actor (at_botId i) (av_id v) (rows', s') =
       Inr (artifact_view.extend v \<lparr>av_contentBase64 = b64_encode content\<rparr>)"
    using u by (intro exI [of _ content]) (simp add: getOwnedArtifact_def find_new readArtifact_def)
  assume "actor' \<noteq> actor \<or> botId \<noteq> at_botId i"
  then have "\<not> (af_botId r = Some botId \<and> af_groupId r = None \<and> own_artifact actor' r)"
    using u(6,7) by (auto simp: own_artifact_def)
  then show "getOwnedArtifact getf actor' botId (av_id v) (rows', s') = Inl (RowError IsolationError)"
    using u(2,4) \<open>av_id v = af_id r\<close> by (auto simp: getOwnedArtifact_def find_new)
qed

end

interpretation local_store: artifact_store local_put local_get local_remove
  by unfold_locales (auto simp: local_put_def local_get_def local_remove_def)

subsection \<open>An attachment is read back by its owner only\<close>


definition example_upload :: artifact_input where
  "example_upload = \<lparr>at_botId = bot1, at_groupId = None, at_name = js ''a.txt'', at_mimeType = js ''text/plain'',
     at_contentBase64 = js ''aGk=''\<rparr>"

lemma example_upload_accepted:
  "\<exists>v st. createOwnedArtifact local_put local_remove (\<lambda>b. []) (js ''f1'') (js ''u1'') 5 owner1 example_upload ([], \<lambda>k. None) =
     (Inr v, st) \<and> av_size v = 2"
proof -
  have mime: "validateAttachmentMimeType (js ''text/plain'') = Inr ()"
    by (simp add: validateAttachmentMimeType_def mime_defs)
  have "js ''aGk='' = b64_encode [104, 105]"
    by (simp add: js_def b64_char_def)
  then have "decodeAttachmentBase64 (js ''aGk='') = Inr [104, 105]"
    using decode_of_encode [of "[104, 105]"] by (simp add: ATTACHMENT_MAX_BYTES_def)
  with mime show ?thesis
    by (simp add: createOwnedArtifact_def example_upload_def store_artifact_def create_artifact_def local_put_def
        artifact_view_of_def Let_def)
qed


subsection \<open>The attachments of a send\<close>

lemma resolved_attachments:
  assumes "resolve_attachments mine artifactIds rows = Inr (blocks, artifacts)" and "distinct (map af_id rows)"
  shows "map af_id artifacts = uniq (case artifactIds of None \<Rightarrow> [] | Some is \<Rightarrow> is)"
    and "length artifacts \<le> 4" and "\<forall>r \<in> set artifacts. r \<in> set rows \<and> mine r"
    and "blocks = map messageBlockForArtifact artifacts"
proof -
  define ids where "ids = uniq (case artifactIds of None \<Rightarrow> [] | Some is \<Rightarrow> is)"
  define found where "found = filter (\<lambda>r. af_id r \<in> set ids \<and> mine r) rows"
  from assms(1) have n: "length ids \<le> 4" and res: "toAttachmentResolution ids found = Inr (blocks, artifacts)"
    unfolding resolve_attachments_def normalizeAttachmentIds_def Let_def ids_def [symmetric]
    by (auto simp: found_def ATTACHMENT_MAX_COUNT_def split: sum.splits if_splits)
  from res have len: "length found = length ids"
    and a: "artifacts = map (\<lambda>i. the (List.find (\<lambda>r. af_id r = i) found)) ids"
    and b: "blocks = map messageBlockForArtifact artifacts"
    by (auto simp: toAttachmentResolution_def Let_def split: if_splits)
  have "distinct (map af_id found)" using assms(2) by (simp add: found_def distinct_map_filter)
  moreover have "set (map af_id found) \<subseteq> set ids" by (auto simp: found_def)
  moreover have "distinct ids" by (simp add: ids_def distinct_uniq)
  ultimately have "set (map af_id found) = set ids"
    using len by (metis card_subset_eq distinct_card finite_set length_map)
  then have ex: "\<exists>r. List.find (\<lambda>r. af_id r = i) found = Some r \<and> r \<in> set found \<and> af_id r = i" if "i \<in> set ids" for i
  proof -
    have "i \<in> set (map af_id found)" using that \<open>set (map af_id found) = set ids\<close> by simp
    then have "List.find (\<lambda>r. af_id r = i) found \<noteq> None" by (auto simp: find_NoneD)
    then show ?thesis by (auto dest: find_SomeD)
  qed
  have "map af_id artifacts = ids"
    unfolding a map_map comp_def by (rule map_idI) (use ex in force)
  then show "map af_id artifacts = uniq (case artifactIds of None \<Rightarrow> [] | Some is \<Rightarrow> is)" by (simp add: ids_def)
  show "length artifacts \<le> 4" using n by (simp add: a)
  show "\<forall>r \<in> set artifacts. r \<in> set rows \<and> mine r"
    using ex by (force simp: a found_def)
  show "blocks = map messageBlockForArtifact artifacts" by (rule b)
qed

end
