(* ===== verification/ThreadTarget.thy ===== *)
theory ThreadTarget
  imports GroupChat Attachments
begin

text \<open>
  Sending to a thread: \<open>apps/api/src/thread-target.ts\<close>. A message to a bot starts one run, a
  message to a group starts one run for each member it wakes; runs that were still queued for
  the same bots are cancelled. The tables of artifacts and connections are only read and are
  arguments; the identifiers of the tasks and runs a send creates are functions of the bot.
\<close>

subsection \<open>Targets and mentions\<close>

datatype thread_target =
    BotTarget bot_row id
  | GroupTarget id id jstring "member list"

definition target_thread :: "thread_target \<Rightarrow> id" where
  "target_thread t = (case t of BotTarget _ tid \<Rightarrow> tid | GroupTarget _ tid _ _ \<Rightarrow> tid)"

definition getBot :: "actor \<Rightarrow> id \<Rightarrow> bool \<Rightarrow> db \<Rightarrow> db_error + bot_row" where
  "getBot actor botId includeArchived d =
     (case List.find (\<lambda>b. b_id b = botId \<and> b_workspaceId b = ac_workspaceId actor \<and>
              b_userId b = ac_userId actor \<and> (includeArchived \<or> b_archivedAt b = None)) (db_bots d) of
        None \<Rightarrow> Inl IsolationError | Some b \<Rightarrow> Inr b)"

definition resolveThreadTarget :: "actor \<Rightarrow> id option \<Rightarrow> id option \<Rightarrow> db \<Rightarrow> db_error + thread_target" where
  "resolveThreadTarget actor botId groupId d =
     (if truthy botId
      then (case getBot actor (the botId) False d of
              Inl e \<Rightarrow> Inl e
            | Inr b \<Rightarrow> (case bot_thread (b_id b) d of
                None \<Rightarrow> Inl IsolationError | Some t \<Rightarrow> Inr (BotTarget b (t_id t))))
      else if truthy groupId
      then (case getGroupTarget actor (the groupId) d of
              Inl e \<Rightarrow> Inl e
            | Inr g \<Rightarrow> (case group_thread (g_id g) d of
                None \<Rightarrow> Inl IsolationError
              | Some t \<Rightarrow> Inr (GroupTarget (g_id g) (t_id t) (g_name g) (map (member_view d) (active_bots g d)))))
      else Inl IsolationError)"

datatype mention_input = MBare id | MBot id | MGroup id | MRoutine id | MConnector id

record mention_targets =
  mt_bots :: "id list"
  mt_groups :: "id list"
  mt_routines :: "id list"
  mt_connectors :: "id list"

definition splitMentionTargets :: "mention_input list option \<Rightarrow> mention_targets" where
  "splitMentionTargets mentions =
     (let ms = (case mentions of None \<Rightarrow> [] | Some ms \<Rightarrow> ms);
          pick = (\<lambda>f. uniq (concat (map f ms)))
      in \<lparr>mt_bots = pick (\<lambda>m. case m of MBare i \<Rightarrow> [i] | MBot i \<Rightarrow> [i] | _ \<Rightarrow> []),
          mt_groups = pick (\<lambda>m. case m of MGroup i \<Rightarrow> [i] | _ \<Rightarrow> []),
          mt_routines = pick (\<lambda>m. case m of MRoutine i \<Rightarrow> [i] | _ \<Rightarrow> []),
          mt_connectors = pick (\<lambda>m. case m of MConnector i \<Rightarrow> [i] | _ \<Rightarrow> [])\<rparr>)"

record connection_row =
  cn_id :: id
  cn_workspaceId :: id
  cn_userId :: id
  cn_status :: jstring
  cn_displayName :: jstring

definition resolveOwnedConnectorDisplayNames ::
  "actor \<Rightarrow> id list \<Rightarrow> connection_row list \<Rightarrow> db_error + jstring list" where
  "resolveOwnedConnectorDisplayNames actor ids connections =
     (if ids = [] then Inr []
      else
        let rows = filter (\<lambda>c. cn_id c \<in> set ids \<and> cn_workspaceId c = ac_workspaceId actor \<and>
              cn_userId c = ac_userId actor \<and> cn_status c = js ''connected'') connections
        in if length rows \<noteq> length ids then Inl IsolationError
           else Inr (map (\<lambda>i. case List.find (\<lambda>c. cn_id c = i) rows of
                  Some c \<Rightarrow> cn_displayName c | None \<Rightarrow> js ''connector'') ids))"

subsection \<open>Pieces of a send\<close>

record send_input =
  si_text :: "jstring option"
  si_artifactIds :: "id list option"
  si_mentions :: "mention_input list option"
  si_replyToMessageId :: "id option"
  si_clientNonce :: "jstring option"

record send_reads =
  rd_artifacts :: "artifact_row list"
  rd_connections :: "connection_row list"

record send_new_ids =
  sn_messageId :: id
  sn_eventId :: id
  sn_taskId :: "id \<Rightarrow> id"
  sn_runId :: "id \<Rightarrow> id"

record thread_send_result =
  tr_taskId :: id
  tr_runId :: id
  tr_seq :: int
  tr_runIds :: "id list"

definition sendRunClientNonce :: "jstring option \<Rightarrow> id \<Rightarrow> id option \<Rightarrow> jstring option" where
  "sendRunClientNonce clientNonce messageId botId =
     (if \<not> truthy clientNonce then None
      else Some (js ''send:'' @ messageId @ (if truthy botId then 58 # the botId else [])))"

text \<open>The runs that are enqueued: the ones that are queued.\<close>

definition enqueueRunsNeedingContinue :: "run_row list \<Rightarrow> id list" where
  "enqueueRunsNeedingContinue runs = map r_id (filter (\<lambda>r. r_status r = Queued) runs)"

definition sendResult :: "int \<Rightarrow> run_row list \<Rightarrow> db_error + thread_send_result" where
  "sendResult seq runs =
     (case runs of
        [] \<Rightarrow> Inl (AppError ''Send did not create a run'')
      | first # _ \<Rightarrow> Inr \<lparr>tr_taskId = r_taskId first, tr_runId = r_id first, tr_seq = seq,
                          tr_runIds = map r_id runs\<rparr>)"

definition findSendReceipt :: "id \<Rightarrow> jstring \<Rightarrow> db \<Rightarrow> (message_row \<times> run_row list) option" where
  "findSendReceipt tid clientNonce d =
     map_option (\<lambda>m. (m, sort_key r_createdAt (sort_key r_id
           (filter (\<lambda>r. r_sourceMessageId r = Some (m_id m)) (db_runs d)))))
       (List.find (\<lambda>m. m_threadId m = tid \<and> m_clientNonce m = Some clientNonce) (db_messages d))"

text \<open>A replay answers the stored send and the runs that are enqueued again.\<close>

definition replayExistingSend ::
  "id \<Rightarrow> jstring option \<Rightarrow> db \<Rightarrow> (thread_send_result \<times> id list) option" where
  "replayExistingSend tid clientNonce d =
     (if \<not> truthy clientNonce then None
      else case findSendReceipt tid (the clientNonce) d of
             None \<Rightarrow> None
           | Some (m, runs) \<Rightarrow>
               (case sendResult (m_seq m) runs of
                  Inl _ \<Rightarrow> None
                | Inr r \<Rightarrow> Some (r, enqueueRunsNeedingContinue runs)))"

definition superseded :: "id \<Rightarrow> id list \<Rightarrow> id list \<Rightarrow> run_row \<Rightarrow> bool" where
  "superseded tid botIds keep r \<longleftrightarrow>
     r_threadId r = tid \<and> r_botId r \<in> set botIds \<and> r_status r = Queued \<and> r_id r \<notin> set keep"

definition supersede_run :: "time \<Rightarrow> run_row \<Rightarrow> run_row" where
  "supersede_run now r = r\<lparr>r_status := Cancelled, r_completedAt := Some now\<rparr>"

definition cancelSupersededQueuedRuns :: "time \<Rightarrow> id \<Rightarrow> id list \<Rightarrow> id list \<Rightarrow> unit dbtx" where
  "cancelSupersededQueuedRuns now tid botIds keep =
     tx_bind (tx_get (\<lambda>d. filter (superseded tid botIds keep) (db_runs d))) (\<lambda>runs.
     if runs = [] then tx_skip
     else tx_then (update_runs (\<lambda>r. r_id r \<in> set (map r_id runs)) (supersede_run now))
         (tx_then (update_tasks (\<lambda>k. k_id k \<in> set (map r_taskId runs)) (\<lambda>k. k\<lparr>k_status := Cancelled\<rparr>))
            tx_skip))"

definition lockAndLoadGroupMembers :: "actor \<Rightarrow> id \<Rightarrow> id \<Rightarrow> bot_row list dbtx" where
  "lockAndLoadGroupMembers actor groupId tid =
     tx_then (lockOwnedGroup actor groupId)
     (tx_bind (tx_get (\<lambda>d. map_option (\<lambda>g. active_bots g d)
         (find_group (\<lambda>g. g_id g = groupId \<and> owned_group actor g \<and> g_archivedAt g = None \<and>
            (\<exists>t \<in> set (db_threads d). t_groupId t = Some (g_id g) \<and> t_id t = tid)) d))) (\<lambda>found.
      case found of
        None \<Rightarrow> tx_throw IsolationError
      | Some members \<Rightarrow> if length members < GROUP_MEMBER_MIN then tx_throw IsolationError else tx_return members))"

fun create_send_runs ::
  "send_new_ids \<Rightarrow> time \<Rightarrow> actor \<Rightarrow> id \<Rightarrow> id \<Rightarrow> jstring \<Rightarrow> (id \<Rightarrow> jstring option) \<Rightarrow> id list \<Rightarrow> run_row list dbtx" where
  "create_send_runs ids now actor tid mid prompt nonce [] = tx_return []"
| "create_send_runs ids now actor tid mid prompt nonce (botId # bots) =
     tx_bind (create_task (new_task (sn_taskId ids botId) (ac_workspaceId actor) botId tid (ac_userId actor) prompt)) (\<lambda>task.
     tx_bind (create_run ((new_run (sn_runId ids botId) now (ac_workspaceId actor) botId tid (k_id task)
                (ac_userId actor) TrigUser)\<lparr>r_clientNonce := nonce botId, r_sourceMessageId := Some mid\<rparr>)) (\<lambda>run.
     tx_bind (create_send_runs ids now actor tid mid prompt nonce bots) (\<lambda>runs.
     tx_return (run # runs))))"

subsection \<open>sendThreadMessage\<close>

definition check_reply :: "id option \<Rightarrow> id \<Rightarrow> unit dbtx" where
  "check_reply replyTo tid =
     (if \<not> truthy replyTo then tx_skip
      else tx_bind (tx_get (\<lambda>d. \<exists>m \<in> set (db_messages d). Some (m_id m) = replyTo \<and> m_threadId m = tid)) (\<lambda>ok.
        if ok then tx_skip else tx_throw IsolationError))"

definition send_payload :: "id \<Rightarrow> message_block list \<Rightarrow> id option \<Rightarrow> event_payload" where
  "send_payload mid blocks replyTo =
     (message_payload mid RUser blocks)\<lparr>p_fields := (case replyTo of None \<Rightarrow> []
        | Some r \<Rightarrow> [(js ''replyToMessageId'', JStr r)])\<rparr>"

text \<open>The writes of a send, the same for a bot and for a group: the message, a run for each bot, and the rest.\<close>

definition finish_send ::
  "send_new_ids \<Rightarrow> time \<Rightarrow> actor \<Rightarrow> id \<Rightarrow> send_input \<Rightarrow> message_block list \<Rightarrow> id list \<Rightarrow> unit dbtx \<Rightarrow>
   message_row \<Rightarrow> run_row list \<Rightarrow> (message_row \<times> run_row list \<times> int) dbtx" where
  "finish_send ids now actor tid i blocks bots touch message runs =
     (case runs of
       [] \<Rightarrow> tx_throw (AppError ''Group send did not resolve a target'')
     | first # _ \<Rightarrow>
         tx_then (update_message (\<lambda>m. m_id m = m_id message) (\<lambda>m. m\<lparr>m_runId := Some (r_id first)\<rparr>))
         (tx_then (cancelSupersededQueuedRuns now tid bots (map r_id runs))
         (tx_then touch
         (tx_bind (appendEventInTransaction (sn_eventId ids) now
            \<lparr>ae_workspaceId = ac_workspaceId actor, ae_threadId = tid, ae_botId = r_botId first,
             ae_type = ThreadMessageCreated,
             ae_payload = send_payload (m_id message) blocks (si_replyToMessageId i),
             ae_runId = Some (r_id first)\<rparr>) (\<lambda>event.
          tx_return (message, runs, e_seq event))))))"

definition commit_send ::
  "send_new_ids \<Rightarrow> time \<Rightarrow> actor \<Rightarrow> id \<Rightarrow> send_input \<Rightarrow> message_block list \<Rightarrow> jstring \<Rightarrow> (id \<Rightarrow> id option) \<Rightarrow>
   id list \<Rightarrow> unit dbtx \<Rightarrow> (message_row \<times> run_row list \<times> int) dbtx" where
  "commit_send ids now actor tid i blocks prompt nonceBot bots touch =
     tx_bind (createThreadMessageInTransaction (sn_messageId ids) now
        \<lparr>cm_threadId = tid, cm_role = RUser, cm_blocks = blocks, cm_botId = None,
         cm_replyToMessageId = si_replyToMessageId i, cm_runId = None, cm_clientNonce = si_clientNonce i\<rparr>) (\<lambda>message.
     tx_bind (create_send_runs ids now actor tid (m_id message) prompt
        (\<lambda>b. sendRunClientNonce (si_clientNonce i) (m_id message) (nonceBot b)) bots)
       (finish_send ids now actor tid i blocks bots touch message))"

definition attachment_failure :: "artifact_error \<Rightarrow> db_error" where
  "attachment_failure e = (case e of RowError f \<Rightarrow> f | _ \<Rightarrow> AppError ''At most 4 attachments per message'')"

text \<open>What a send reads before it writes: its blocks and the prompt of its tasks.\<close>

definition send_content ::
  "actor \<Rightarrow> send_reads \<Rightarrow> send_input \<Rightarrow> artifact_error + (message_block list \<times> artifact_row list) \<Rightarrow>
   db_error + (message_block list \<times> jstring)" where
  "send_content actor reads i attachments =
     (case attachments of
        Inl e \<Rightarrow> Inl (attachment_failure e)
      | Inr (attachmentBlocks, artifacts) \<Rightarrow>
          (case resolveOwnedConnectorDisplayNames actor (mt_connectors (splitMentionTargets (si_mentions i)))
                  (rd_connections reads) of
             Inl e \<Rightarrow> Inl e
           | Inr names \<Rightarrow> Inr (buildUserMessageBlocks (si_text i) attachmentBlocks,
               buildSendPrompt (si_text i) artifacts names)))"

definition send_tx ::
  "(nat \<Rightarrow> bool) \<Rightarrow> (nat \<Rightarrow> nat) \<Rightarrow> send_new_ids \<Rightarrow> time \<Rightarrow> actor \<Rightarrow> thread_target \<Rightarrow> send_reads \<Rightarrow> send_input \<Rightarrow>
   (message_row \<times> run_row list \<times> int) dbtx" where
  "send_tx word fold1 ids now actor target reads i =
     tx_then (check_reply (si_replyToMessageId i) (target_thread target))
     (case target of
        BotTarget b tid \<Rightarrow>
          tx_bind (lift_result (send_content actor reads i
             (resolveSendAttachments actor (b_id b) (si_artifactIds i) (rd_artifacts reads)))) (\<lambda>(blocks, prompt).
          commit_send ids now actor tid i blocks prompt (\<lambda>b. None) [b_id b] tx_skip)
      | GroupTarget gid tid name members \<Rightarrow>
          tx_bind (lockAndLoadGroupMembers actor gid tid) (\<lambda>bots.
          let targetBotIds = resolveGroupTargetBotIds word fold1 (case si_text i of None \<Rightarrow> [] | Some s \<Rightarrow> s)
                (map (\<lambda>b. \<lparr>mr_id = b_id b, mr_name = b_name b\<rparr>) bots) (mt_bots (splitMentionTargets (si_mentions i)))
          in tx_bind (lift_result (send_content actor reads i
               (resolveGroupSendAttachments actor gid (map b_id bots) (si_artifactIds i) (rd_artifacts reads))))
             (\<lambda>(blocks, prompt).
             commit_send ids now actor tid i blocks prompt Some targetBotIds (touchGroupUpdatedAt gid now))))"

text \<open>
  The whole send, as for \<open>sendUserMessage\<close>: \<open>before\<close> is the database of the first look-up, \<open>d\<close>
  the one the transaction commits on. The answer comes with the runs that are enqueued.
\<close>

definition sendThreadMessage ::
  "(nat \<Rightarrow> bool) \<Rightarrow> (nat \<Rightarrow> nat) \<Rightarrow> send_new_ids \<Rightarrow> time \<Rightarrow> actor \<Rightarrow> thread_target \<Rightarrow> send_reads \<Rightarrow> send_input \<Rightarrow>
   db \<Rightarrow> db \<Rightarrow> (db_error + (thread_send_result \<times> id list)) \<times> db" where
  "sendThreadMessage word fold1 ids now actor target reads i before d =
     (case replayExistingSend (target_thread target) (si_clientNonce i) before of
        Some r \<Rightarrow> (Inr r, d)
      | None \<Rightarrow>
          (case run_transaction (send_tx word fold1 ids now actor target reads i) d of
             (Inr (message, runs, seq), d') \<Rightarrow>
               (map_sum id (\<lambda>r. (r, enqueueRunsNeedingContinue runs)) (sendResult (m_seq message) runs), d')
           | (Inl err, d') \<Rightarrow>
               (case replayExistingSend (target_thread target) (si_clientNonce i) d' of
                  Some winner \<Rightarrow> (Inr winner, d')
                | None \<Rightarrow> (Inl err, d'))))"

subsection \<open>Stopping a thread and marking it read\<close>

text \<open>
  \<open>stopThreadRuns\<close> is not a transaction: the runs to stop are read from \<open>seen\<close>, an earlier state
  than the state \<open>d\<close> its statements change. The screens that are released are returned.
\<close>

definition stop_targets :: "id \<Rightarrow> db \<Rightarrow> id list" where
  "stop_targets tid seen = map r_id (filter (\<lambda>r. r_threadId r = tid \<and> isActive (r_status r)) (db_runs seen))"

definition stop_run :: "time \<Rightarrow> run_row \<Rightarrow> run_row" where
  "stop_run now r = r\<lparr>r_status := Cancelled, r_completedAt := Some now\<rparr>"

definition stopThreadRuns :: "time \<Rightarrow> id \<Rightarrow> db \<Rightarrow> db \<Rightarrow> computer_row list \<times> db" where
  "stopThreadRuns now tid seen d =
     (let runIds = stop_targets tid seen;
          held = (\<lambda>c. \<exists>r \<in> set runIds. c_executionRunId c = Some r);
          computers = (if runIds = [] then [] else filter held (db_computers d))
      in (filter (\<lambda>c. truthy (c_providerRef c) \<and> truthy (c_executionBotId c)) computers,
          d\<lparr>db_runs := update_where (\<lambda>r. r_id r \<in> set runIds) (stop_run now) (db_runs d),
            db_leases := delete_where (\<lambda>l. l_runId l \<in> set runIds) (db_leases d),
            db_computers := update_where held clear_computer (db_computers d),
            db_events := delete_where (\<lambda>e. e_type e = ThreadProgress \<and> (\<exists>r \<in> set runIds. e_runId e = Some r))
              (db_events d)\<rparr>))"

definition setThreadUnreadState :: "actor \<Rightarrow> thread_target \<Rightarrow> bool \<Rightarrow> db \<Rightarrow> (db_error + unit) \<times> db" where
  "setThreadUnreadState actor target unread d =
     (let p = (\<lambda>t. t_id t = target_thread target \<and> t_workspaceId t = ac_workspaceId actor \<and>
             t_userId t = ac_userId actor \<and> t_unread t \<noteq> unread)
      in (if count_where p (db_threads d) > 1 then Inl IsolationError else Inr (),
          d\<lparr>db_threads := update_where p (\<lambda>t. t\<lparr>t_unread := unread\<rparr>) (db_threads d)\<rparr>))"

subsection \<open>What a send leaves in the queue\<close>

definition addressed :: "actor \<Rightarrow> thread_target \<Rightarrow> db \<Rightarrow> id set" where
  "addressed actor target d =
     (case target of
        BotTarget b _ \<Rightarrow> {b_id b}
      | GroupTarget gid tid _ _ \<Rightarrow>
          (case find_group (\<lambda>g. g_id g = gid \<and> owned_group actor g \<and> g_archivedAt g = None \<and>
                  (\<exists>t \<in> set (db_threads d). t_groupId t = Some (g_id g) \<and> t_id t = tid)) d of
             None \<Rightarrow> {} | Some g \<Rightarrow> b_id ` set (active_bots g d)))"

lemma create_send_runs_run:
  assumes "create_send_runs ids now actor tid mid prompt nonce bots d = Inr (runs, d')"
  shows "db_runs d' = db_runs d @ runs \<and> map r_botId runs = bots \<and>
     (\<forall>r \<in> set runs. r_threadId r = tid \<and> r_status r = Queued \<and> r_sourceMessageId r = Some mid) \<and>
     (distinct (map r_id (db_runs d)) \<longrightarrow> distinct (map r_id (db_runs d')))"
  using assms
proof (induction bots arbitrary: d runs d')
  case Nil
  then show ?case by simp
next
  case (Cons b bots)
  from Cons.prems obtain task run d1 d2 rs where t: "create_task (new_task (sn_taskId ids b) (ac_workspaceId actor) b tid (ac_userId actor) prompt) d = Inr (task, d1)"
    and r: "create_run ((new_run (sn_runId ids b) now (ac_workspaceId actor) b tid (k_id task)
                (ac_userId actor) TrigUser)\<lparr>r_clientNonce := nonce b, r_sourceMessageId := Some mid\<rparr>) d1 = Inr (run, d2)"
    and rest: "create_send_runs ids now actor tid mid prompt nonce bots d2 = Inr (rs, d')" and runs: "runs = run # rs"
    by (auto simp del: tx_get_run)
  from t have d1: "db_runs d1 = db_runs d" by (auto simp: create_task_def split: if_splits)
  from r have d2: "db_runs d2 = db_runs d @ [run]" and new: "r_id run \<notin> set (map r_id (db_runs d))"
    and run: "r_botId run = b" "r_threadId run = tid" "r_status run = Queued" "r_sourceMessageId run = Some mid"
    by (auto simp: create_run_def new_run_def d1 split: if_splits)
  note ih = Cons.IH [OF rest]
  have "distinct (map r_id (db_runs d)) \<Longrightarrow> distinct (map r_id (db_runs d'))"
  proof -
    assume "distinct (map r_id (db_runs d))"
    then have "distinct (map r_id (db_runs d2))" using new by (simp add: d2)
    then show "distinct (map r_id (db_runs d'))" using ih by blast
  qed
  with ih d2 run show ?case by (simp add: runs)
qed

lemma cancelSuperseded_run:
  assumes "cancelSupersededQueuedRuns now tid bots keep d = Inr (u, d')" and "distinct (map r_id (db_runs d))"
  shows "db_runs d' = update_where (superseded tid bots keep) (supersede_run now) (db_runs d)"
proof (cases "filter (superseded tid bots keep) (db_runs d) = []")
  case True
  then have "update_where (superseded tid bots keep) (supersede_run now) (db_runs d) = db_runs d"
    by (intro update_where_none) (simp add: count_where_def)
  then show ?thesis using assms(1) True by (simp add: cancelSupersededQueuedRuns_def)
next
  case False
  then show ?thesis
    using assms(1) update_by_ids [OF assms(2), of "superseded tid bots keep"]
    by (auto simp: cancelSupersededQueuedRuns_def update_runs_def update_tasks_def)
qed

lemma commit_send_run:
  assumes "commit_send ids now actor tid i blocks prompt nonceBot bots touch d = Inr ((m, runs, seq), d')"
    and "distinct (map r_id (db_runs d))" and "\<And>v. tx_pres (\<lambda>d. db_runs d = v) touch"
  shows "runs \<noteq> []" and "map r_botId runs = bots"
    and "\<forall>r \<in> set runs. r_threadId r = tid \<and> r_status r = Queued \<and> r_sourceMessageId r = Some (m_id m)"
    and "distinct (map r_id (db_runs d @ runs))"
    and "db_runs d' = update_where (superseded tid bots (map r_id runs)) (supersede_run now) (db_runs d @ runs)"
proof -
  from assms(1) obtain m0 runs0 d1 d2 where
    s1: "createThreadMessageInTransaction (sn_messageId ids) now
        \<lparr>cm_threadId = tid, cm_role = RUser, cm_blocks = blocks, cm_botId = None,
         cm_replyToMessageId = si_replyToMessageId i, cm_runId = None, cm_clientNonce = si_clientNonce i\<rparr> d = Inr (m0, d1)"
    and s2: "create_send_runs ids now actor tid (m_id m0) prompt
        (\<lambda>b. sendRunClientNonce (si_clientNonce i) (m_id m0) (nonceBot b)) bots d1 = Inr (runs0, d2)"
    and fin: "finish_send ids now actor tid i blocks bots touch m0 runs0 d2 = Inr ((m, runs, seq), d')"
    unfolding commit_send_def by auto
  from fin obtain first rest where runs0: "runs0 = first # rest"
    by (cases runs0) (auto simp: finish_send_def)
  with fin have same: "m0 = m" "runs0 = runs" by (auto simp: finish_send_def)
  note s1 = s1 [unfolded same] and s2 = s2 [unfolded same] and runs = runs0 [unfolded same]
  from fin [unfolded same] obtain d3 d4 d5 u v w e where
    s3: "update_message (\<lambda>q. m_id q = m_id m) (\<lambda>m. m\<lparr>m_runId := Some (r_id first)\<rparr>) d2 = Inr (u, d3)"
    and s4: "cancelSupersededQueuedRuns now tid bots (map r_id runs) d3 = Inr (v, d4)"
    and s5: "touch d4 = Inr (w, d5)"
    and s6: "appendEventInTransaction (sn_eventId ids) now
            \<lparr>ae_workspaceId = ac_workspaceId actor, ae_threadId = tid, ae_botId = r_botId first,
             ae_type = ThreadMessageCreated,
             ae_payload = send_payload (m_id m) blocks (si_replyToMessageId i),
             ae_runId = Some (r_id first)\<rparr> d5 = Inr (e, d')"
    unfolding finish_send_def by (auto simp: runs)
  have d1: "db_runs d1 = db_runs d" using s1 by (auto elim!: createMessage_run)
  note c = create_send_runs_run [OF s2, unfolded d1]
  have d3: "db_runs d3 = db_runs d @ runs" using s3 c by (auto simp: update_message_def split: if_splits)
  have "distinct (map r_id (db_runs d2))" using c assms(2) by blast
  then have dist: "distinct (map r_id (db_runs d @ runs))" using c by (simp only: c)
  have "db_runs d4 = update_where (superseded tid bots (map r_id runs)) (supersede_run now) (db_runs d @ runs)"
    using cancelSuperseded_run [OF s4] d3 dist by simp
  moreover have "db_runs d5 = db_runs d4" using tx_presD [OF assms(3) _ s5] by blast
  moreover have "db_runs d' = db_runs d5" using s6 by (auto elim!: appendEvent_run)
  ultimately show "db_runs d' = update_where (superseded tid bots (map r_id runs)) (supersede_run now) (db_runs d @ runs)"
    by simp
  show "runs \<noteq> []" by (simp add: runs)
  show "map r_botId runs = bots"
    and "\<forall>r \<in> set runs. r_threadId r = tid \<and> r_status r = Queued \<and> r_sourceMessageId r = Some (m_id m)"
    using c by blast+
  show "distinct (map r_id (db_runs d @ runs))" by (rule dist)
qed

lemma lift_result_run: "lift_result r d = Inr (y, e) \<longleftrightarrow> r = Inr y \<and> e = d"
  by (cases r) (auto simp: lift_result_def)

text \<open>Every send is one such commit.\<close>

lemma send_commits:
  assumes "send_tx word fold1 ids now actor target reads i d = Inr ((m, runs, seq), d')"
  obtains blocks prompt nonceBot bots touch where
    "commit_send ids now actor (target_thread target) i blocks prompt nonceBot bots touch d = Inr ((m, runs, seq), d')"
    and "distinct bots" and "set bots \<subseteq> addressed actor target d" and "\<And>v. tx_pres (\<lambda>d. db_runs d = v) touch"
proof -
  have reply: "check_reply r tid d = Inr (u, e) \<Longrightarrow> e = d" for r tid u e
    by (auto simp: check_reply_def split: if_splits)
  show thesis
  proof (cases target)
    case (BotTarget b tid)
    from assms obtain blocks prompt where
      "commit_send ids now actor tid i blocks prompt (\<lambda>b. None) [b_id b] tx_skip d = Inr ((m, runs, seq), d')"
      by (auto simp: send_tx_def BotTarget target_thread_def lift_result_run dest!: reply)
    then show thesis
      by (intro that) (auto simp: BotTarget target_thread_def addressed_def intro: tx_intros)
  next
    case (GroupTarget gid tid name members)
    let ?refs = "map (\<lambda>b. \<lparr>mr_id = b_id b, mr_name = b_name b\<rparr>)"
    let ?bots = "\<lambda>bs. resolveGroupTargetBotIds word fold1 (case si_text i of None \<Rightarrow> [] | Some s \<Rightarrow> s)
                (?refs bs) (mt_bots (splitMentionTargets (si_mentions i)))"
    from assms obtain bs blocks prompt d1 where l: "lockAndLoadGroupMembers actor gid tid d = Inr (bs, d1)"
      and c: "commit_send ids now actor tid i blocks prompt Some (?bots bs) (touchGroupUpdatedAt gid now) d1 =
        Inr ((m, runs, seq), d')"
      by (auto simp: send_tx_def GroupTarget target_thread_def lift_result_run Let_def dest!: reply)
    from l have "d1 = d" "b_id ` set bs = addressed actor target d"
      by (auto simp: lockAndLoadGroupMembers_def lockOwnedGroup_def GroupTarget addressed_def
          split: option.splits if_splits)
    moreover have "set (?bots bs) \<subseteq> b_id ` set bs"
      using resolved_targets_are_members [of word fold1 _ "?refs bs"] by (auto simp: image_image)
    ultimately show thesis
      using c by (intro that) (auto simp: GroupTarget target_thread_def resolved_targets_distinct touchGroupUpdatedAt_def
          intro: tx_intros)
  qed
qed

lemma superseded_old:
  assumes "\<forall>r \<in> set rs. r_id r \<notin> set keep"
    and "r' \<in> set (update_where (superseded tid bots keep) (supersede_run now) rs)"
  obtains r where "r \<in> set rs" and "r_id r' = r_id r"
    and "r' = r \<or> (r_status r = Queued \<and> r_status r' = Cancelled)"
    and "r_threadId r' = tid \<Longrightarrow> r_botId r' \<in> set bots \<Longrightarrow> r_status r' \<noteq> Queued"
proof -
  let ?p = "superseded tid bots keep"
  obtain r where r: "r \<in> set rs" and r': "r' = (if ?p r then supersede_run now r else r)"
    using assms(2) by (auto simp: set_update_where)
  show thesis
  proof (cases "?p r")
    case True
    then have "r' = supersede_run now r" using r' by simp
    with True r show thesis by (intro that [of r]) (simp_all add: superseded_def supersede_run_def)
  next
    case False
    then have "r' = r" using r' by simp
    with False assms(1) r show thesis by (intro that [of r]) (auto simp: superseded_def)
  qed
qed

lemma filter_update_others:
  assumes "\<And>r. p r \<Longrightarrow> \<not> q r \<and> \<not> q (f r)"
  shows "filter q (update_where p f rs) = filter q rs"
  using assms by (induction rs) (simp_all add: update_where_def)

lemma only_with_key: "distinct (map k xs) \<Longrightarrow> x \<in> set xs \<Longrightarrow> filter (\<lambda>y. k y = k x) xs = [x]"
proof (induction xs)
  case (Cons y xs)
  show ?case
  proof (cases "x = y")
    case True
    with Cons.prems have "k x \<notin> k ` set xs" by simp
    then have "\<forall>z \<in> set xs. k z \<noteq> k x" by (metis imageI)
    then show ?thesis using True by (simp add: filter_empty_conv)
  next
    case False
    then have "x \<in> set xs" "k y \<noteq> k x" using Cons.prems by auto
    then show ?thesis using Cons by simp
  qed
qed simp

lemma superseded_new_kept:
  "update_where (superseded tid bots (map r_id new)) f new = new"
  by (rule update_where_none) (auto simp: count_where_def superseded_def filter_empty_conv)

text \<open>The queue after a send: \<open>rs\<close> are the runs before it and \<open>new\<close> the runs it starts.\<close>

definition queue_after :: "time \<Rightarrow> id \<Rightarrow> run_row list \<Rightarrow> run_row list \<Rightarrow> run_row list" where
  "queue_after now tid rs new =
     update_where (superseded tid (map r_botId new) (map r_id new)) (supersede_run now) rs @ new"

lemma queue_one:
  assumes "\<forall>r \<in> set rs. r_id r \<notin> set (map r_id new)" and "distinct (map r_botId new)"
    and "\<forall>r \<in> set new. r_threadId r = tid \<and> r_status r = Queued" and "r \<in> set new"
  shows "filter (\<lambda>q. r_threadId q = tid \<and> r_botId q = r_botId r \<and> r_status q = Queued) (queue_after now tid rs new) = [r]"
proof -
  let ?q = "\<lambda>q. r_threadId q = tid \<and> r_botId q = r_botId r \<and> r_status q = Queued"
  let ?old = "update_where (superseded tid (map r_botId new) (map r_id new)) (supersede_run now) rs"
  have b: "r_botId r \<in> set (map r_botId new)" using assms(4) by simp
  have "\<not> ?q q" if q: "q \<in> set ?old" for q
    by (rule superseded_old [OF assms(1) q]) (use b in auto)
  then have "filter ?q ?old = []" by (simp only: filter_empty_conv) blast
  moreover have "filter ?q new = filter (\<lambda>q. r_botId q = r_botId r) new"
    using assms(3) by (intro filter_cong) auto
  ultimately show ?thesis using only_with_key [OF assms(2,4)] by (simp add: queue_after_def)
qed

lemma queue_others:
  assumes "\<forall>r \<in> set new. r_threadId r = tid"
  shows "filter (\<lambda>q. r_threadId q \<noteq> tid \<or> r_botId q \<notin> set (map r_botId new)) (queue_after now tid rs new) =
     filter (\<lambda>q. r_threadId q \<noteq> tid \<or> r_botId q \<notin> set (map r_botId new)) rs"
proof -
  let ?q = "\<lambda>q. r_threadId q \<noteq> tid \<or> r_botId q \<notin> set (map r_botId new)"
  have "filter ?q (update_where (superseded tid (map r_botId new) (map r_id new)) (supersede_run now) rs) = filter ?q rs"
    by (rule filter_update_others) (auto simp: superseded_def supersede_run_def)
  moreover have "filter ?q new = []" using assms by (simp only: filter_empty_conv) auto
  ultimately show ?thesis by (simp add: queue_after_def)
qed

lemma queue_legal:
  assumes "\<forall>r \<in> set (db_runs d). r_id r \<notin> set (map r_id new)" and "\<forall>r \<in> set new. r_status r = Queued"
    and "db_runs d' = queue_after now tid (db_runs d) new"
  shows "legal_change (statuses d) (statuses d')"
  unfolding legal_change_def
proof (intro conjI ballI)
  have ids: "fst ` set (statuses e) = set (map r_id (db_runs e))" for e by (simp add: statuses_def image_image)
  have "map r_id (db_runs d') = map r_id (db_runs d) @ map r_id new"
    by (simp add: assms(3) queue_after_def update_where_def superseded_def supersede_run_def)
  then show "fst ` set (statuses d) \<subseteq> fst ` set (statuses d')" by (simp add: ids)
  fix x assume "x \<in> set (statuses d')"
  then obtain q where q: "q \<in> set (queue_after now tid (db_runs d) new)" "x = (r_id q, r_status q)"
    by (auto simp: statuses_def assms(3))
  consider "q \<in> set (update_where (superseded tid (map r_botId new) (map r_id new)) (supersede_run now) (db_runs d))"
    | "q \<in> set new"
    using q(1) by (auto simp: queue_after_def)
  then have "(\<exists>s. (r_id q, s) \<in> set (statuses d) \<and> (s = r_status q \<or> canTransition s (r_status q))) \<or>
      (r_id q \<notin> fst ` set (statuses d) \<and> r_status q = Queued)"
  proof cases
    case 1
    then obtain r where r: "r \<in> set (db_runs d)" "r_id q = r_id r"
      "q = r \<or> (r_status r = Queued \<and> r_status q = Cancelled)" by (rule superseded_old [OF assms(1)])
    then have "(r_id q, r_status r) \<in> set (statuses d)" by (auto simp: statuses_def)
    moreover have "r_status r = r_status q \<or> canTransition (r_status r) (r_status q)"
      using r(3) by (auto simp: run_state_defs)
    ultimately show ?thesis by blast
  next
    case 2
    then have "r_id q \<in> set (map r_id new)" by simp
    then have "r_id q \<notin> fst ` set (statuses d)" using assms(1) by (auto simp: ids)
    then show ?thesis using 2 assms(2) by blast
  qed
  then show "case x of (i, s') \<Rightarrow> (\<exists>s. (i, s) \<in> set (statuses d) \<and> (s = s' \<or> canTransition s s')) \<or>
      (i \<notin> fst ` set (statuses d) \<and> s' = Queued)" by (simp add: q(2))
qed

text \<open>
  C25. A send leaves exactly one queued run for each bot it wakes: the runs it starts go to
  different bots, all of them addressed by the target (the bot itself, or members of the group
  that are not archived), at least one; in the thread each of these bots has no other run in the
  queue; the runs of other threads and of bots that are not woken are exactly the same; and
  every change of a status is allowed by the table of the run states.
\<close>

theorem send_leaves_one_queued_run_per_bot:
  assumes "distinct (map r_id (db_runs d))"
    and "send_tx word fold1 ids now actor target reads i d = Inr ((m, runs, seq), d')"
  shows "runs \<noteq> [] \<and> distinct (map r_botId runs) \<and> set (map r_botId runs) \<subseteq> addressed actor target d \<and>
      (\<forall>r \<in> set runs. filter (\<lambda>q. r_threadId q = target_thread target \<and> r_botId q = r_botId r \<and>
                        r_status q = Queued) (db_runs d') = [r]) \<and>
      filter (\<lambda>q. r_threadId q \<noteq> target_thread target \<or> r_botId q \<notin> set (map r_botId runs)) (db_runs d') =
        filter (\<lambda>q. r_threadId q \<noteq> target_thread target \<or> r_botId q \<notin> set (map r_botId runs)) (db_runs d) \<and>
      legal_change (statuses d) (statuses d')"
  using assms(2)
proof (rule send_commits)
  fix blocks prompt nonceBot bots touch
  let ?tid = "target_thread target"
  assume "commit_send ids now actor ?tid i blocks prompt nonceBot bots touch d = Inr ((m, runs, seq), d')"
    and bots: "distinct bots" "set bots \<subseteq> addressed actor target d" and "\<And>v. tx_pres (\<lambda>d. db_runs d = v) touch"
  note c = commit_send_run [OF this(1) assms(1) this(4)]
  have d': "db_runs d' = queue_after now ?tid (db_runs d) runs"
    using c(2,5) superseded_new_kept [of ?tid bots runs] by (simp add: queue_after_def update_where_def)
  have old: "\<forall>r \<in> set (db_runs d). r_id r \<notin> set (map r_id runs)" using c(4) by auto
  have new: "distinct (map r_botId runs)" "\<forall>r \<in> set runs. r_threadId r = ?tid \<and> r_status r = Queued"
    using c(2,3) bots(1) by simp_all
  show ?thesis
    using c(1,2) bots new queue_one [OF old new, of _ now] queue_others [of runs ?tid now "db_runs d"]
      queue_legal [OF old _ d'] by (simp add: d')
qed

definition group_send :: send_input where
  "group_send = \<lparr>si_text = Some (js ''hi''), si_artifactIds = None, si_mentions = Some [MBot bot2],
     si_replyToMessageId = None, si_clientNonce = None\<rparr>"

definition group_send_ids :: send_new_ids where
  "group_send_ids = \<lparr>sn_messageId = js ''m9'', sn_eventId = js ''e9'', sn_taskId = (\<lambda>b. js ''k'' @ b),
     sn_runId = (\<lambda>b. js ''r'' @ b)\<rparr>"

definition group_target :: thread_target where
  "group_target = GroupTarget group1 th2 (js ''G'') []"

text \<open>The group with a run of its second bot still in the queue.\<close>

definition queue_db :: db where
  "queue_db = group_db\<lparr>db_runs := [(example_run run_live (js ''k1'') Queued)\<lparr>r_threadId := th2, r_botId := bot2\<rparr>]\<rparr>"

definition no_reads :: send_reads where
  "no_reads = \<lparr>rd_artifacts = [], rd_connections = []\<rparr>"

lemma example_members:
  "\<exists>b c. lockAndLoadGroupMembers owner1 group1 th2 queue_db = Inr ([b, c], queue_db) \<and> b_id b = bot1 \<and> b_id c = bot2 \<and>
     b_name b = js ''B'' \<and> b_name c = js ''C''"
  by (simp del: tx_bind_run tx_then_run tx_get_run tx_return_run
      add: tx_eval lockAndLoadGroupMembers_def lockOwnedGroup_def find_group_def owned_group_def active_bots_def
        find_bot_def count_where_def GROUP_MEMBER_MIN_def owner1_def queue_db_def group_db_def group1_def
        sample_defs example_defs ids)

lemma example_woken:
  assumes "b_id b = bot1" "b_id c = bot2" "b_name b = js ''B''" "b_name c = js ''C''"
  shows "resolveGroupTargetBotIds (\<lambda>c. False) id (js ''hi'') (map (\<lambda>b. \<lparr>mr_id = b_id b, mr_name = b_name b\<rparr>) [b, c])
     (mt_bots (splitMentionTargets (Some [MBot bot2]))) = [bot2]"
  using assms by (simp add: resolveGroupTargetBotIds_def hasMentionToken_def splitMentionTargets_def js_def bot2_def ids)

lemma example_content:
  "send_content owner1 no_reads group_send (resolveGroupSendAttachments owner1 group1 bots None []) =
     Inr (buildUserMessageBlocks (Some (js ''hi'')) [], buildSendPrompt (Some (js ''hi'')) [] [])"
  by (simp add: send_content_def resolveGroupSendAttachments_def resolve_attachments_def normalizeAttachmentIds_def
      toAttachmentResolution_def resolveOwnedConnectorDisplayNames_def splitMentionTargets_def group_send_def no_reads_def
      ATTACHMENT_MAX_COUNT_def)

lemma example_commit:
  "\<exists>m runs seq d'. commit_send group_send_ids 30 owner1 th2 group_send blocks prompt Some [bot2]
     (touchGroupUpdatedAt group1 30) queue_db = Inr ((m, runs, seq), d')"
  by (simp del: tx_bind_run tx_then_run tx_get_run tx_return_run
      add: tx_eval commit_send_def finish_send_def cancelSupersededQueuedRuns_def superseded_def supersede_run_def js_append touchGroupUpdatedAt_def
        update_group_def createThreadMessageInTransaction_def assertRunCanWriteHistory_def appendEventInTransaction_def
        create_message_def create_event_def create_task_def create_run_def update_thread_def update_message_def
        update_runs_def update_tasks_def find_run_def count_where_def new_run_def new_task_def sendRunClientNonce_def
        group_send_def group_send_ids_def owner1_def queue_db_def group_db_def group1_def sample_defs example_defs ids)

lemma group_send_commits:
  "\<exists>m runs seq d'. send_tx (\<lambda>c. False) id group_send_ids 30 owner1 group_target no_reads group_send queue_db =
     Inr ((m, runs, seq), d')"
proof -
  obtain b c where l: "lockAndLoadGroupMembers owner1 group1 th2 queue_db = Inr ([b, c], queue_db)"
    and bc: "b_id b = bot1" "b_id c = bot2" "b_name b = js ''B''" "b_name c = js ''C''"
    using example_members by blast
  have reply: "check_reply (si_replyToMessageId group_send) th2 queue_db = Inr ((), queue_db)"
    by (simp add: check_reply_def group_send_def)
  have g: "si_text group_send = Some (js ''hi'')" "si_mentions group_send = Some [MBot bot2]"
    "si_artifactIds group_send = None" "rd_artifacts no_reads = []"
    by (simp_all add: group_send_def no_reads_def)
  show ?thesis
    using example_commit reply example_woken [OF bc] l
    by (simp del: tx_bind_run tx_then_run tx_get_run tx_return_run
        add: tx_eval send_tx_def group_target_def target_thread_def g example_content lift_result_def)
qed

theorem send_leaves_one_queued_run_per_bot_witness:
  "\<exists>m runs seq d'. send_tx (\<lambda>c. False) id group_send_ids 30 owner1 group_target no_reads group_send queue_db =
     Inr ((m, runs, seq), d') \<and>
     (\<forall>r \<in> set runs. filter (\<lambda>q. r_threadId q = th2 \<and> r_botId q = r_botId r \<and> r_status q = Queued) (db_runs d') = [r])"
proof -
  obtain m runs seq d' where step: "send_tx (\<lambda>c. False) id group_send_ids 30 owner1 group_target no_reads group_send
      queue_db = Inr ((m, runs, seq), d')"
    using group_send_commits by blast
  have "distinct (map r_id (db_runs queue_db))" by (simp add: queue_db_def)
  from send_leaves_one_queued_run_per_bot [OF this step] step show ?thesis
    by (auto simp: group_target_def target_thread_def)
qed

subsection \<open>Stopping a thread\<close>

text \<open>Without a change in between, no run of the stopped thread stays active.\<close>

lemma stopped_thread_is_at_rest:
  assumes "r \<in> set (db_runs (snd (stopThreadRuns now tid d d)))" and "r_threadId r = tid"
  shows "\<not> isActive (r_status r)"
proof -
  have "r \<in> set (update_where (\<lambda>r. r_id r \<in> set (stop_targets tid d)) (stop_run now) (db_runs d))"
    using assms(1) by (simp add: stopThreadRuns_def Let_def)
  then obtain q where q: "q \<in> set (db_runs d)"
    and r: "r = (if r_id q \<in> set (stop_targets tid d) then stop_run now q else q)"
    by (auto simp: set_update_where)
  show ?thesis
  proof (cases "r_id q \<in> set (stop_targets tid d)")
    case True
    then show ?thesis using r by (simp add: stop_run_def isActive_def ACTIVE_RUN_STATUSES_def)
  next
    case False
    then show ?thesis using r q assms(2) by (auto simp: stop_targets_def)
  qed
qed

text \<open>
  A run that finishes after the runs to stop were read and before they are updated is recorded as
  cancelled, a change the table of the run states does not allow.
\<close>

lemma stop_overwrites_finished_run:
  assumes "r \<in> set (db_runs d)" and "r_status r = Completed" and "r_id r \<in> set (stop_targets tid seen)"
  shows "stop_run now r \<in> set (db_runs (snd (stopThreadRuns now tid seen d))) \<and> r_status (stop_run now r) = Cancelled \<and>
     \<not> canTransition Completed Cancelled"
proof -
  have "stop_run now r \<in> set (update_where (\<lambda>r. r_id r \<in> set (stop_targets tid seen)) (stop_run now) (db_runs d))"
    using assms(1,3) by (force simp: set_update_where)
  then show ?thesis by (simp add: stopThreadRuns_def Let_def stop_run_def run_state_defs)
qed

end
