(* ===== verification/ThreadSnapshot.thy ===== *)
theory ThreadSnapshot
  imports ThreadTarget
begin

text \<open>
  The snapshot a client starts from: \<open>threadSnapshot\<close> of \<open>apps/api/src/thread-target.ts\<close>, read from one
  commit, and the status of the computer, \<open>apps/api/src/computer-status.ts\<close>. \<open>cols\<close> gives the
  columns of a run that the rows of \<open>Db\<close> leave out; the bot and the computer of the target are those
  the target was resolved with. The look-up of the busy bot runs beside the transaction and is
  taken on the same state here.
\<close>

subsection \<open>The status of a computer\<close>

definition executionBlocksUserTakeover :: "bool \<Rightarrow> time option \<Rightarrow> run_status option \<Rightarrow> time \<Rightarrow> bool" where
  "executionBlocksUserTakeover hasLease leaseExpiresAt runStatus now =
     (if \<not> hasLease then False
      else if runStatus = Some WaitingTakeover then False
      else (case leaseExpiresAt of Some x \<Rightarrow> x > now | None \<Rightarrow> False) \<or>
           (case runStatus of Some s \<Rightarrow> s \<in> set ACTIVE_RUN_STATUSES | None \<Rightarrow> False))"

definition resolveBusyBotName :: "db \<Rightarrow> time \<Rightarrow> id option \<Rightarrow> id \<Rightarrow> jstring \<Rightarrow> jstring option" where
  "resolveBusyBotName d now computerId botId botName =
     (if \<not> truthy computerId then None
      else case List.find (\<lambda>l. Some (l_computerId l) = computerId \<and> l_botId l = botId) (db_leases d) of
             None \<Rightarrow> None
           | Some l \<Rightarrow>
               if executionBlocksUserTakeover True (Some (l_expiresAt l)) (map_option r_status (find_run (l_runId l) d)) now
               then Some botName else None)"

definition computerScreenSize :: "jstring option \<Rightarrow> nat \<times> nat" where
  "computerScreenSize kind = (if kind = Some (js ''box'') then (1920, 1080) else (1280, 800))"

definition view_state_of :: "computer_state option \<Rightarrow> view_state" where
  "view_state_of s = (case s of Some Suspending \<Rightarrow> ViewRunning | Some Booting \<Rightarrow> ViewBooting
     | Some PoweredOn \<Rightarrow> ViewRunning | Some Suspended \<Rightarrow> ViewSuspended | Some Errored \<Rightarrow> ViewError
     | _ \<Rightarrow> ViewStopped)"

definition toComputerStatus :: "id \<Rightarrow> computer_row option \<Rightarrow> jstring option \<Rightarrow> computer_view" where
  "toComputerStatus botId computer busyBotName =
     (let state = view_state_of (map_option c_state computer);
          screen = computerScreenSize (map_option c_kind computer);
          kind = (case computer of Some c \<Rightarrow> c_kind c | None \<Rightarrow> js ''fake'')
      in \<lparr>cv_botId = botId,
          cv_mode = (if map_option c_scope computer = Some ScopeDedicated then js ''dedicated'' else js ''team''),
          cv_kind = kind, cv_state = state,
          cv_controlHolder = (case computer of Some c \<Rightarrow> c_controlHolder c | None \<Rightarrow> HolderNone),
          cv_controlBotId = Option.bind computer c_controlBotId,
          cv_takeoverRequested = truthy (Option.bind computer c_controlRunId),
          cv_screenAvailable = (state = ViewRunning \<or> state = ViewBooting),
          cv_screenWidth = fst screen, cv_screenHeight = snd screen,
          cv_homeRevision = map_option c_homeRevision computer, cv_busyBotName = busyBotName,
          cv_updateAvailable = (kind \<noteq> js ''desktop'')\<rparr>)"

subsection \<open>Runs\<close>

record run_columns =
  rc_modelProvider :: "jstring option"
  rc_modelId :: "jstring option"
  rc_updatedAt :: time

text \<open>The display clamp of a stored error is that of the \<open>run.failed\<close> event it came with.\<close>

definition stored_failure :: "jstring option \<Rightarrow> event_row" where
  "stored_failure err = \<lparr>e_id = [], e_workspaceId = [], e_threadId = [], e_botId = [], e_seq = 0, e_type = RunFailed,
     e_payload = fields_payload [(js ''error'', case err of Some s \<Rightarrow> JStr s | None \<Rightarrow> JNull)],
     e_runId = None, e_createdAt = 0\<rparr>"

definition mapRun :: "(id \<Rightarrow> run_columns) \<Rightarrow> run_row \<Rightarrow> client_run" where
  "mapRun cols r =
     \<lparr>nv_id = r_id r, nv_botId = r_botId r, nv_threadId = r_threadId r, nv_taskId = r_taskId r,
      nv_status = r_status r, nv_trigger = r_trigger r, nv_routineId = r_routineId r,
      nv_modelProvider = rc_modelProvider (cols (r_id r)), nv_modelId = rc_modelId (cols (r_id r)),
      nv_error = (if r_status r = Failed then runFailureError (stored_failure (r_error r)) else r_error r),
      nv_startedAt = r_startedAt r, nv_completedAt = r_completedAt r, nv_createdAt = r_createdAt r\<rparr>"

definition run_end :: "run_row \<Rightarrow> time" where
  "run_end r = (case r_completedAt r of Some c \<Rightarrow> c | None \<Rightarrow> r_createdAt r)"

definition later_terminal :: "run_row \<Rightarrow> run_row \<Rightarrow> run_row" where
  "later_terminal best run =
     (if run_end run \<noteq> run_end best then (if run_end run > run_end best then run else best)
      else if r_createdAt run \<noteq> r_createdAt best
      then (if r_createdAt run > r_createdAt best then run else best)
      else if r_id run > r_id best then run else best)"

definition pickLatestTerminalRun :: "run_row list \<Rightarrow> run_row option" where
  "pickLatestTerminalRun runs =
     (case runs of [] \<Rightarrow> None | r # rs \<Rightarrow> Some (foldl later_terminal r rs))"

definition newest_runs :: "(run_row \<Rightarrow> bool) \<Rightarrow> db \<Rightarrow> run_row list" where
  "newest_runs p d = rev (sort_key r_createdAt (filter p (db_runs d)))"

definition recent_terminals :: "(id \<Rightarrow> run_columns) \<Rightarrow> id \<Rightarrow> db \<Rightarrow> run_row list" where
  "recent_terminals cols tid d =
     take 50 (rev (sort_key (\<lambda>r. rc_updatedAt (cols (r_id r))) (sort_key r_id
       (filter (\<lambda>r. r_threadId r = tid \<and> r_status r \<in> set [Failed, Completed, Cancelled]) (db_runs d)))))"

subsection \<open>Messages\<close>

definition last_event_seq :: "id \<Rightarrow> db \<Rightarrow> int" where
  "last_event_seq tid d =
     (case rev (sort_key e_seq (filter (\<lambda>e. e_threadId e = tid) (db_events d))) of [] \<Rightarrow> - 1 | e # _ \<Rightarrow> e_seq e)"

definition live_events :: "id \<Rightarrow> id list \<Rightarrow> db \<Rightarrow> event_row list" where
  "live_events tid runIds d =
     sort_key e_seq (filter (\<lambda>e. e_threadId e = tid \<and> (\<exists>r \<in> set runIds. e_runId e = Some r) \<and>
        e_type e \<in> set [ThreadProgress, ThreadSubagent, AgentToolCalled]) (db_events d))"

definition unfinished_block :: "message_block \<Rightarrow> bool" where
  "unfinished_block b = (case b of BProgress _ _ \<Rightarrow> True | BSteps _ \<Rightarrow> True | _ \<Rightarrow> False)"

definition messagesWithLiveEvents ::
  "(jstring \<Rightarrow> jstring) \<Rightarrow> (jstring \<Rightarrow> jstring) \<Rightarrow> (json \<Rightarrow> jstring) \<Rightarrow> thread_message list \<Rightarrow> event_row list \<Rightarrow>
   thread_message list" where
  "messagesWithLiveEvents lc uc text_of persisted liveEvents =
     persisted @ filter (\<lambda>m.
       if list_ex unfinished_block (tm_blocks m) then True
       else prefix (js ''subagent:'') (tm_id m) \<and>
         \<not> list_ex (\<lambda>row. list_ex (\<lambda>i. tm_id m = js ''subagent:'' @ i) (subagent_ids (tm_blocks row))) persisted)
       (projectMessages lc uc text_of liveEvents)"

definition THREAD_MESSAGE_PAGE_SIZE :: nat where "THREAD_MESSAGE_PAGE_SIZE = 100"

subsection \<open>The snapshot\<close>

definition threadSnapshot ::
  "(jstring \<Rightarrow> jstring) \<Rightarrow> (jstring \<Rightarrow> jstring) \<Rightarrow> (json \<Rightarrow> jstring) \<Rightarrow> (id \<Rightarrow> run_columns) \<Rightarrow> time \<Rightarrow>
   computer_row option \<Rightarrow> thread_target \<Rightarrow> db \<Rightarrow> snapshot" where
  "threadSnapshot lc uc text_of cols now computer target d =
     (let tid = target_thread target; page = loadMessagePage d tid None THREAD_MESSAGE_PAGE_SIZE None in
      case target of
        BotTarget b _ \<Rightarrow>
          let run = (case newest_runs (\<lambda>r. r_botId r = b_id b \<and> r_threadId r = tid \<and>
                       (isActive (r_status r) \<or> r_status r = Failed)) d of [] \<Rightarrow> None | r # _ \<Rightarrow> Some r);
              live = (case run of Some r \<Rightarrow> if isActive (r_status r) then live_events tid [r_id r] d else []
                      | None \<Rightarrow> []);
              busy = resolveBusyBotName d now (map_option c_id computer) (b_id b) (b_name b)
          in \<lparr>hi_threadId = tid, hi_messages = messagesWithLiveEvents lc uc text_of (hi_messages page) live,
              hi_olderCursor = hi_olderCursor page, sn_cursor = last_event_seq tid d, sn_botId = Some (b_id b),
              sn_groupId = None, sn_groupName = None, sn_members = None, sn_run = map_option (mapRun cols) run,
              sn_activeRuns = None, sn_computer = Some (toComputerStatus (b_id b) computer busy)\<rparr>
      | GroupTarget gid _ name members \<Rightarrow>
          let activeRuns = newest_runs (\<lambda>r. r_threadId r = tid \<and> isActive (r_status r)) d;
              live = (if activeRuns = [] then [] else live_events tid (map r_id activeRuns) d);
              terminalRun = pickLatestTerminalRun (recent_terminals cols tid d)
          in \<lparr>hi_threadId = tid, hi_messages = messagesWithLiveEvents lc uc text_of (hi_messages page) live,
              hi_olderCursor = hi_olderCursor page, sn_cursor = last_event_seq tid d, sn_botId = None,
              sn_groupId = Some gid, sn_groupName = Some name, sn_members = Some members,
              sn_run = (if map_option r_status terminalRun = Some Failed then map_option (mapRun cols) terminalRun
                        else (case activeRuns of r # _ \<Rightarrow> Some (mapRun cols r) | [] \<Rightarrow> None)),
              sn_activeRuns = Some (map (mapRun cols) activeRuns), sn_computer = None\<rparr>)"

subsection \<open>The snapshot fits the client\<close>

definition projection_keys :: "projection \<Rightarrow> bool" where
  "projection_keys p \<longleftrightarrow>
     (\<forall>(k, m) \<in> set (pr_live p). tm_id m = k \<and> prefix (js ''progress:'') k) \<and>
     (\<forall>(k, m) \<in> set (pr_subagents p). tm_id m = js ''subagent:'' @ k)"

lemma project_event_keys:
  assumes "projection_keys p"
  shows "projection_keys (project_event lc uc text_of e p)"
proof -
  have empty: "projection_keys empty_projection" by (simp add: projection_keys_def empty_projection_def)
  have clear: "projection_keys (clear_live e p)"
    using assms by (auto simp: projection_keys_def clear_live_def)
  have live: "projection_keys (update_live lc uc text_of e u p)" for u
    using assms unfolding update_live_def Let_def
    by (auto simp: projection_keys_def progressMessageId_def event_message_def dest!: set_put map_of_SomeD
        split: option.splits)
  have created: "projection_keys (project_created e p)"
    using clear unfolding project_created_def Let_def by (auto simp: projection_keys_def fold_drop)
  have sub: "projection_keys (project_subagent text_of e p)"
    using assms unfolding project_subagent_def Let_def
    by (auto simp: projection_keys_def event_message_def dest!: set_put)
  show ?thesis using assms empty clear live created sub
    by (simp add: project_event_def split: event_type.split)
qed

lemma project_all_keys: "projection_keys (project_all lc uc text_of events)"
proof -
  have "projection_keys p \<Longrightarrow> projection_keys (fold (project_event lc uc text_of) es p)" for es p
    by (induction es arbitrary: p) (simp_all add: project_event_keys)
  moreover have "projection_keys empty_projection" by (simp add: projection_keys_def empty_projection_def)
  ultimately show ?thesis by (simp add: project_all_def)
qed

lemma sort_key_max:
  fixes k :: "'a \<Rightarrow> int"
  assumes "rev (sort_key k xs) = y # ys" and "x \<in> set xs"
  shows "k x \<le> k y"
proof -
  have "sort_key k xs = rev ys @ [y]" using assms(1) by (metis rev.simps(2) rev_rev_ident)
  moreover have "sorted (map k (sort_key k xs))" by simp
  moreover have "x \<in> set (sort_key k xs)" using assms(2) by simp
  ultimately show ?thesis by (auto simp: sorted_append)
qed

lemma last_event_bound:
  assumes "e \<in> set (db_events d)" and "e_threadId e = tid"
  shows "e_seq e \<le> last_event_seq tid d"
proof -
  let ?xs = "filter (\<lambda>e. e_threadId e = tid) (db_events d)"
  have x: "e \<in> set ?xs" using assms by simp
  show ?thesis
  proof (cases "rev (sort_key e_seq ?xs)")
    case Nil
    then have "?xs = []" by (metis rev_is_Nil_conv set_sort set_empty)
    with x show ?thesis by simp
  next
    case (Cons y ys)
    from sort_key_max [OF Cons x] show ?thesis using Cons by (simp add: last_event_seq_def)
  qed
qed

lemma live_events_created: "filter (\<lambda>e. e_type e = ThreadMessageCreated) (since_clear (live_events tid rs d)) = []"
proof -
  have "set (since_clear es) \<subseteq> set es" for es
    by (auto simp: since_clear_def dest: set_takeWhileD)
  then show ?thesis by (fastforce simp: filter_empty_conv live_events_def)
qed

lemma live_messages_distinct:
  assumes "filter (\<lambda>e. e_type e = ThreadMessageCreated) (since_clear es) = []"
  shows "distinct (map tm_id (projectMessages lc uc text_of es))"
    and "m \<in> set (projectMessages lc uc text_of es) \<Longrightarrow>
      prefix (js ''progress:'') (tm_id m) \<or> prefix (js ''subagent:'') (tm_id m)"
proof -
  let ?p = "project_all lc uc text_of es"
  have none: "pr_messages ?p = []" using assms by (simp add: project_all_messages created_since_clear_def)
  have dist: "distinct (map fst (pr_live ?p))" "distinct (map fst (pr_subagents ?p))"
    using project_all_ok [of lc uc text_of es] by (simp_all add: projection_ok_def)
  have keys: "map tm_id (map snd (pr_live ?p)) = map fst (pr_live ?p)"
    "map tm_id (map snd (pr_subagents ?p)) = map (\<lambda>k. js ''subagent:'' @ k) (map fst (pr_subagents ?p))"
    using project_all_keys [of lc uc text_of es] by (auto simp: projection_keys_def)
  have live: "\<forall>m \<in> set (map snd (pr_live ?p)). prefix (js ''progress:'') (tm_id m)"
    and sub: "\<forall>m \<in> set (map snd (pr_subagents ?p)). prefix (js ''subagent:'') (tm_id m)"
    using project_all_keys [of lc uc text_of es] by (auto simp: projection_keys_def)
  have apart: "\<not> (prefix (js ''progress:'') s \<and> prefix (js ''subagent:'') s)" for s
    by (auto simp: js_def prefix_def)
  have pm: "projectMessages lc uc text_of es =
      map snd (pr_subagents ?p) @ filter (\<lambda>m. tm_blocks m \<noteq> []) (map snd (pr_live ?p))"
    by (simp add: projectMessages_def Let_def none)
  have "distinct (map tm_id (map snd (pr_live ?p)))" unfolding keys by (rule dist)
  then have d1: "distinct (map tm_id (filter (\<lambda>m. tm_blocks m \<noteq> []) (map snd (pr_live ?p))))"
    by (rule distinct_map_filter)
  have d2: "distinct (map tm_id (map snd (pr_subagents ?p)))"
    unfolding keys by (subst distinct_map) (use dist in \<open>auto simp: inj_on_def\<close>)
  show "distinct (map tm_id (projectMessages lc uc text_of es))"
    unfolding pm map_append distinct_append
  proof (intro conjI d1 d2)
    let ?A = "map tm_id (map snd (pr_subagents ?p))"
    let ?B = "map tm_id (filter (\<lambda>m. tm_blocks m \<noteq> []) (map snd (pr_live ?p)))"
    have "x \<notin> set ?B" if "x \<in> set ?A" for x
    proof
      assume "x \<in> set ?B"
      then have "prefix (js ''progress:'') x" using live by auto
      moreover have "prefix (js ''subagent:'') x" using sub that by auto
      ultimately show False using apart by blast
    qed
    then show "set ?A \<inter> set ?B = {}" by blast
  qed
  show "m \<in> set (projectMessages lc uc text_of es) \<Longrightarrow>
      prefix (js ''progress:'') (tm_id m) \<or> prefix (js ''subagent:'') (tm_id m)"
    unfolding pm using live sub by auto
qed

lemma page_ids:
  assumes "distinct (map m_id (db_messages d))"
  shows "distinct (map tm_id (hi_messages (loadMessagePage d tid None n None)))"
    and "m \<in> set (hi_messages (loadMessagePage d tid None n None)) \<Longrightarrow> tm_id m \<in> set (map m_id (db_messages d))"
proof -
  let ?page = "rev (take n (take (n + 1) (rev (thread_rows tid (before_ok None) d))))"
  have page: "hi_messages (loadMessagePage d tid None n None) = map toThreadMessage ?page"
    by (simp add: loadMessagePage_def page_before_def Let_def)
  have id: "tm_id (toThreadMessage r) = m_id r" for r by (simp add: toThreadMessage_def)
  have "distinct (map m_id (thread_rows tid (before_ok None) d))"
  proof -
    have "distinct (map m_id (filter (\<lambda>m. m_threadId m = tid \<and> before_ok None m) (db_messages d)))"
      using assms by (rule distinct_map_filter)
    then show ?thesis by (simp add: thread_rows_def distinct_map)
  qed
  then have "distinct (rev (take n (take (n + 1) (rev (map m_id (thread_rows tid (before_ok None) d))))))"
    by (simp only: distinct_rev distinct_take)
  then show "distinct (map tm_id (hi_messages (loadMessagePage d tid None n None)))"
    by (simp add: page comp_def id rev_map take_map)
  assume "m \<in> set (hi_messages (loadMessagePage d tid None n None))"
  then obtain r where "r \<in> set ?page" "m = toThreadMessage r" by (auto simp: page)
  moreover have "set ?page \<subseteq> set (db_messages d)"
    by (auto simp: thread_rows_def dest!: in_set_takeD)
  ultimately show "tm_id m \<in> set (map m_id (db_messages d))" using id by auto
qed

lemma with_live_distinct:
  assumes "distinct (map tm_id persisted)"
    and "\<forall>m \<in> set persisted. \<not> prefix (js ''progress:'') (tm_id m) \<and> \<not> prefix (js ''subagent:'') (tm_id m)"
    and "filter (\<lambda>e. e_type e = ThreadMessageCreated) (since_clear es) = []"
  shows "distinct (map tm_id (messagesWithLiveEvents lc uc text_of persisted es))"
proof -
  note live = live_messages_distinct [where lc = lc and uc = uc and text_of = text_of, OF assms(3)]
  have "x \<notin> set (map tm_id (filter q (projectMessages lc uc text_of es)))" if "x \<in> set (map tm_id persisted)" for x q
  proof
    assume "x \<in> set (map tm_id (filter q (projectMessages lc uc text_of es)))"
    then obtain m where "m \<in> set (projectMessages lc uc text_of es)" "x = tm_id m" by auto
    then have "prefix (js ''progress:'') x \<or> prefix (js ''subagent:'') x" using live(2) by blast
    moreover have "\<not> prefix (js ''progress:'') x \<and> \<not> prefix (js ''subagent:'') x" using assms(2) that by auto
    ultimately show False by blast
  qed
  then show ?thesis
    using assms(1) distinct_map_filter [OF live(1)]
    unfolding messagesWithLiveEvents_def map_append distinct_append by blast
qed

text \<open>
  The snapshot the server takes is one a client can go on from: no two of its messages and no
  two of its active runs share an id, its cursor covers every event of the thread, so that a
  subscription from the cursor continues exactly after it, and it holds the newest page of the
  thread's messages as its first messages, in order.
\<close>

theorem server_snapshot_fits_the_client:
  assumes "db_ok d"
    and "\<forall>m \<in> set (db_messages d). \<not> prefix (js ''progress:'') (m_id m) \<and> \<not> prefix (js ''subagent:'') (m_id m)"
  shows "client_ok (threadSnapshot lc uc text_of cols now computer target d) \<and>
      (\<forall>e \<in> set (db_events d). e_threadId e = target_thread target \<longrightarrow>
         e_seq e \<le> sn_cursor (threadSnapshot lc uc text_of cols now computer target d)) \<and>
      prefix (hi_messages (loadMessagePage d (target_thread target) None THREAD_MESSAGE_PAGE_SIZE None))
        (hi_messages (threadSnapshot lc uc text_of cols now computer target d))"
proof -
  let ?s = "threadSnapshot lc uc text_of cols now computer target d"
  let ?tid = "target_thread target"
  let ?page = "loadMessagePage d ?tid None THREAD_MESSAGE_PAGE_SIZE None"
  obtain es where ms: "hi_messages ?s = messagesWithLiveEvents lc uc text_of (hi_messages ?page) es"
    and es: "filter (\<lambda>e. e_type e = ThreadMessageCreated) (since_clear es) = []"
  proof -
    have nil: "filter (\<lambda>e. e_type e = ThreadMessageCreated) (since_clear []) = []" by (simp add: since_clear_def)
    have "\<exists>es. hi_messages ?s = messagesWithLiveEvents lc uc text_of (hi_messages ?page) es \<and>
        (es = [] \<or> (\<exists>rs. es = live_events ?tid rs d))"
      by (cases target) (auto simp: threadSnapshot_def Let_def split: list.splits)
    then show thesis using that nil live_events_created by blast
  qed
  have dist: "distinct (map m_id (db_messages d))" "distinct (map r_id (db_runs d))"
    using assms(1) by (simp_all add: db_ok_def messages_ok_def runs_ok_def)
  have plain: "\<forall>m \<in> set (hi_messages ?page). \<not> prefix (js ''progress:'') (tm_id m) \<and> \<not> prefix (js ''subagent:'') (tm_id m)"
    using page_ids(2) [OF dist(1)] assms(2) by fastforce
  have "distinct (map tm_id (hi_messages ?s))"
    unfolding ms by (rule with_live_distinct [OF page_ids(1) [OF dist(1)] plain es])
  moreover have "distinct (map r_id (newest_runs p d))" for p
  proof -
    have "distinct (map r_id (filter p (db_runs d)))" using dist(2) by (rule distinct_map_filter)
    then have "distinct (map r_id (sort_key r_createdAt (filter p (db_runs d))))" by (simp add: distinct_map)
    then show ?thesis by (simp only: newest_runs_def rev_map [symmetric] distinct_rev)
  qed
  then have "distinct (active_ids ?s)"
    by (cases target) (simp_all add: threadSnapshot_def Let_def active_ids_def comp_def mapRun_def)
  moreover have "sn_cursor ?s = last_event_seq ?tid d"
    by (cases target) (simp_all add: threadSnapshot_def Let_def)
  moreover have "prefix (hi_messages ?page) (hi_messages ?s)"
    unfolding ms by (simp add: messagesWithLiveEvents_def)
  ultimately show ?thesis using last_event_bound [of _ d ?tid] by (simp add: client_ok_def)
qed

theorem server_snapshot_fits_the_client_witness:
  "client_ok (threadSnapshot id id (\<lambda>_. []) (\<lambda>_. \<lparr>rc_modelProvider = None, rc_modelId = None, rc_updatedAt = 0\<rparr>) 5 None
     group_target example_db)"
proof -
  have "\<forall>m \<in> set (db_messages example_db). \<not> prefix (js ''progress:'') (m_id m) \<and> \<not> prefix (js ''subagent:'') (m_id m)"
    by (simp add: example_defs)
  from server_snapshot_fits_the_client [OF example_ok this] show ?thesis by blast
qed

end
