(* ===== verification/CompactionRuns.thy ===== *)
theory CompactionRuns
  imports HistoryCompaction Example
begin

text \<open>
  Compaction jobs, the transactions of a thread, its clearing and the runs that read its history,
  in any order: the steps of a job are those of \<open>compactHistory\<close> in
  \<open>packages/adapters/src/history-compaction.ts\<close>, one step per access to the database. First what
  the other transactions keep of a history, then the invariant, then what a run is shown and that
  nothing of a cleared thread comes back.
\<close>

subsection \<open>What other transactions do to a history\<close>

definition compaction_state :: "thread_row \<Rightarrow> int option \<times> jstring option \<times> int" where
  "compaction_state t =
     (t_historyCompactedUpToSeq t, t_historyCompactionSummary t, t_historyCompactionGeneration t)"

definition history_frame ::
    "id \<Rightarrow> int option \<times> jstring option \<times> int \<Rightarrow> int \<Rightarrow> int set \<Rightarrow> db \<Rightarrow> bool" where
  "history_frame tid h n seqs d \<longleftrightarrow>
     (\<exists>t. find_thread tid d = Some t \<and> compaction_state t = h \<and> n \<le> t_nextMessageSeq t) \<and>
     (\<forall>m \<in> set (db_messages d). m_threadId m = tid \<longrightarrow> m_seq m \<in> seqs \<or> n \<le> m_seq m)"

lemma history_frame_cong:
  "db_threads d' = db_threads d \<Longrightarrow> db_messages d' = db_messages d \<Longrightarrow>
   history_frame tid h n seqs d' = history_frame tid h n seqs d"
  by (simp add: history_frame_def find_thread_def)

lemma frame_other [tx_intros]:
  "tx_pres (history_frame tid h n seqs) (update_runs pr fr)"
  "tx_pres (history_frame tid h n seqs) (update_attempts pa fa)"
  "tx_pres (history_frame tid h n seqs) (update_tasks pk fk)"
  "tx_pres (history_frame tid h n seqs) (update_effects px fx)"
  "tx_pres (history_frame tid h n seqs) (update_effect px fx)"
  "tx_pres (history_frame tid h n seqs) (update_computers pc fc)"
  "tx_pres (history_frame tid h n seqs) (update_computer pc fc)"
  "tx_pres (history_frame tid h n seqs) (delete_leases pl)"
  "tx_pres (history_frame tid h n seqs) (delete_events pe)"
  "tx_pres (history_frame tid h n seqs) (touch_bot pb now)"
  "tx_pres (history_frame tid h n seqs) (touch_group gid now)"
  "tx_pres (history_frame tid h n seqs) (create_secret sec)"
  "tx_pres (history_frame tid h n seqs) (create_task k)"
  "tx_pres (history_frame tid h n seqs) (create_run r)"
  "tx_pres (history_frame tid h n seqs) (create_attempt a)"
  "tx_pres (history_frame tid h n seqs) (create_effect x)"
  "tx_pres (history_frame tid h n seqs) (upsert_rule u)"
  by (rule tx_presI,
      auto simp: bulk_defs create_defs upsert_rule_def history_frame_def find_thread_def
        split: if_splits)+

lemma history_frame_step:
  assumes fr: "history_frame tid h n seqs d"
    and f: "\<And>x. t_id (f x) = t_id x" "\<And>x. compaction_state (f x) = compaction_state x"
      "\<And>x. t_nextMessageSeq x \<le> t_nextMessageSeq (f x)"
    and threads: "db_threads d' = update_where p f (db_threads d)"
    and msgs: "\<And>m. m \<in> set (db_messages d') \<Longrightarrow> m_threadId m = tid \<Longrightarrow>
      (\<exists>m0 \<in> set (db_messages d). m_threadId m0 = tid \<and> m_seq m0 = m_seq m) \<or> n \<le> m_seq m"
  shows "history_frame tid h n seqs d'"
proof -
  obtain t where t: "find_thread tid d = Some t" "compaction_state t = h" "n \<le> t_nextMessageSeq t"
    using fr by (auto simp: history_frame_def)
  have "find_thread tid d' = Some (if p t then f t else t)"
    using t(1) by (simp add: find_thread_def threads find_update_where f(1))
  moreover have "compaction_state (if p t then f t else t) = h"
    "n \<le> t_nextMessageSeq (if p t then f t else t)"
    using t(2,3) f(2) f(3) [of t] by auto
  moreover have "m_seq m \<in> seqs \<or> n \<le> m_seq m" if "m \<in> set (db_messages d')" "m_threadId m = tid" for m
    using msgs [OF that] fr by (auto simp: history_frame_def)
  ultimately show ?thesis unfolding history_frame_def by blast
qed

lemma frame_update_message [tx_intros]:
  assumes "\<And>m. m_threadId (f m) = m_threadId m" "\<And>m. m_seq (f m) = m_seq m"
  shows "tx_pres (history_frame tid h n seqs) (update_message p f)"
proof (rule tx_presI)
  fix d x d'
  assume fr: "history_frame tid h n seqs d" and step: "update_message p f d = Inr (x, d')"
  then have d': "d' = d\<lparr>db_messages := update_where p f (db_messages d)\<rparr>"
    by (auto simp: update_message_def split: if_splits)
  show "history_frame tid h n seqs d'"
  proof (rule history_frame_step [OF fr, where f = "\<lambda>x. x" and p = "\<lambda>x. False"])
    show "db_threads d' = update_where (\<lambda>x. False) (\<lambda>x. x) (db_threads d)"
      by (simp add: d' update_where_def)
    fix m assume "m \<in> set (db_messages d')" and "m_threadId m = tid"
    then show "(\<exists>m0 \<in> set (db_messages d). m_threadId m0 = tid \<and> m_seq m0 = m_seq m) \<or> n \<le> m_seq m"
      by (auto simp: d' set_update_where assms split: if_splits)
  qed simp_all
qed

lemma frame_append [tx_intros]:
  "tx_pres (history_frame tid h n seqs) (appendEventInTransaction eid now i)"
proof (rule tx_presI)
  fix d e d'
  assume fr: "history_frame tid h n seqs d" and step: "appendEventInTransaction eid now i d = Inr (e, d')"
  from step show "history_frame tid h n seqs d'"
    by (rule appendEvent_run)
      (rule history_frame_step [OF fr, where f = "\<lambda>t. t\<lparr>t_nextEventSeq := t_nextEventSeq t + 1\<rparr>"
        and p = "\<lambda>t. t_id t = ae_threadId i"], auto simp: compaction_state_def)
qed

lemma frame_create_message [tx_intros]:
  "tx_pres (history_frame tid h n seqs) (createThreadMessageInTransaction mid now i)"
proof (rule tx_presI)
  fix d m d'
  assume fr: "history_frame tid h n seqs d"
    and step: "createThreadMessageInTransaction mid now i d = Inr (m, d')"
  from step show "history_frame tid h n seqs d'"
  proof (rule createMessage_run)
    fix t
    let ?p = "\<lambda>t. t_id t = cm_threadId i" and ?f = "\<lambda>t. t\<lparr>t_nextMessageSeq := t_nextMessageSeq t + 1,
       t_unread := (if cm_role i = RBot then True else t_unread t)\<rparr>"
    assume t: "find_thread (cm_threadId i) d = Some t"
      and m: "m = \<lparr>m_id = mid, m_threadId = cm_threadId i, m_seq = t_nextMessageSeq t,
              m_role = cm_role i, m_blocks = cm_blocks i, m_botId = cm_botId i,
              m_replyToMessageId = cm_replyToMessageId i, m_runId = cm_runId i,
              m_clientNonce = cm_clientNonce i, m_createdAt = now\<rparr>"
      and d': "d' = d\<lparr>db_threads := update_where ?p ?f (db_threads d), db_messages := db_messages d @ [m]\<rparr>"
    have "n \<le> t_nextMessageSeq t" if "cm_threadId i = tid"
      using fr t that by (auto simp: history_frame_def)
    then show ?thesis
      by (intro history_frame_step [OF fr, where f = ?f and p = ?p])
        (auto simp: d' m compaction_state_def)
  qed
qed

lemma frame_update_thread:
  assumes "\<And>t. t_id (f t) = t_id t" and "\<And>t. t_id t = tid \<Longrightarrow> \<not> p t"
  shows "tx_pres (history_frame tid h n seqs) (update_thread p f)"
proof (rule tx_presI)
  fix d x d'
  assume fr: "history_frame tid h n seqs d" and step: "update_thread p f d = Inr (x, d')"
  from step have d': "d' = d\<lparr>db_threads := update_where p f (db_threads d)\<rparr>"
    by (auto simp: update_thread_def split: option.splits)
  have "find_thread tid d' = find_thread tid d"
    unfolding d' find_thread_def using assms
    by (cases "List.find (\<lambda>t. t_id t = tid) (db_threads d)")
      (auto simp: find_update_where dest: find_SomeD)
  with fr d' show "history_frame tid h n seqs d'" by (simp add: history_frame_def)
qed

lemma frame_delete_messages:
  "tx_pres (history_frame tid h n seqs) (delete_messages p)"
  by (rule tx_presI)
    (auto simp: delete_messages_def Let_def history_frame_def find_thread_def)

lemma frame_assert [tx_intros]: "tx_pres (history_frame tid h n seqs) (assertRunCanWriteHistory runId)"
  by (rule tx_presI) simp

text \<open>Every transaction but the clearing of the thread itself.\<close>

lemma frame_send [tx_intros]: "tx_pres (history_frame tid h n seqs) (sendUserMessage_tx ids now i)"
  unfolding sendUserMessage_tx_def send_start_run_def
  by (intro tx_intros) simp_all

lemma frame_answer [tx_intros]: "tx_pres (history_frame tid h n seqs) (answerRunInput_tx eid now w i)"
  unfolding answerRunInput_tx_def answer_commit_def answer_approval_def answer_secret_def
    answer_prompt_def store_run_secret_def Let_def
  by (intro tx_intros) simp_all

lemma frame_pauses [tx_intros]:
  "tx_pres (history_frame tid h n seqs) (pauseRunForInput_tx mid e1 e2 now i bs)"
  "tx_pres (history_frame tid h n seqs) (pauseRunForTakeover_tx e1 now i reason)"
  "tx_pres (history_frame tid h n seqs) (finalizeComputerControlRelease_tx e1 now j)"
  unfolding pauseRunForInput_tx_def delete_progress_def pauseRunForTakeover_tx_def
    finalizeComputerControlRelease_tx_def release_resume_def release_event_def
  by (intro tx_intros)+

lemma frame_finalize [tx_intros]:
  "tx_pres (history_frame tid h n seqs) (finalizeRun_tx mid e1 e2 now i kid oc)"
proof -
  have "tx_pres (history_frame tid h n seqs) (finish_message mid e1 now i oc)"
    unfolding finish_message_def by (cases oc) (auto intro!: tx_intros)
  then show ?thesis
    unfolding finalizeRun_tx_def finish_rest_def delete_progress_def
    by (intro tx_intros)
qed

lemma frame_clear_rows [tx_intros]:
  "tx_pres (history_frame tid h n seqs) (clear_rows rids kids now c)"
  unfolding clear_rows_def cancel_runs_def by (intro tx_intros frame_delete_messages)

lemma frame_clear:
  assumes "ct_threadId i \<noteq> tid"
  shows "tx_pres (history_frame tid h n seqs) (clearThread_tx eid now i)"
  unfolding clearThread_tx_def
  by (intro tx_intros frame_update_thread frame_clear_rows)
    (use assms in \<open>simp_all add: clear_target_def\<close>)

lemma frame_run:
  "history_frame tid h n seqs d \<Longrightarrow> tx_pres (history_frame tid h n seqs) m \<Longrightarrow>
   history_frame tid h n seqs (snd (run_transaction m d))"
  by (rule run_transaction_pres)

lemma frame_exec_op:
  assumes fr: "history_frame tid h n seqs d"
    and other: "\<And>eid now i. op = OpClear eid now i \<Longrightarrow> ct_threadId i \<noteq> tid"
  shows "history_frame tid h n seqs (exec_op op d)"
  using other
  by (cases op)
    (auto simp del: run_transaction.simps simp: appendEvent_def createThreadMessage_def send_snd
      answer_snd fr intro!: frame_run [OF fr] tx_intros frame_clear)

text \<open>
  Clearing the thread: its generation moves on, its summary and its messages are gone.
\<close>

lemma clear_history:
  assumes ok: "db_ok d" and t: "find_thread (ct_threadId i) d = Some t"
    and step: "clearThread_tx eid now i d = Inr (x, d')"
  shows "\<exists>t'. find_thread (ct_threadId i) d' = Some t' \<and>
           t_historyCompactionSummary t' = None \<and>
           t_historyCompactionGeneration t' = t_historyCompactionGeneration t + 1 \<and>
           t_nextMessageSeq t \<le> t_nextMessageSeq t' \<and>
           (t_historyCompactedUpToSeq t' = None \<longrightarrow> t_historyCompactedUpToSeq t = None)" (is ?thread)
    and "\<forall>m \<in> set (db_messages d'). m_threadId m \<noteq> ct_threadId i"
proof -
  obtain q d1 d2 d3 d4 where q: "q \<in> set (db_threads d)" "clear_target i q"
    and d1: "d1 = d\<lparr>db_threads := update_where (clear_target i) (\<lambda>t. t\<lparr>t_unread := False\<rparr>) (db_threads d)\<rparr>"
    and s2: "clear_rows (map r_id (filter (clear_active i) (db_runs d1)))
       (map r_taskId (filter (clear_active i) (db_runs d1))) now (ct_threadId i) d1 = Inr ((), d2)"
    and d3: "d3 = d2\<lparr>db_threads := update_where (\<lambda>t. t_id t = ct_threadId i)
       (close_history (q\<lparr>t_unread := False\<rparr>)) (db_threads d2)\<rparr>"
    and d4: "db_threads d4 = db_threads d3" "db_events d4 = db_events d3"
      "db_messages d4 = db_messages d3" "db_runs d4 = db_runs d3"
    and ap: "appendEventInTransaction eid now
       \<lparr>ae_workspaceId = ct_workspaceId i, ae_threadId = ct_threadId i,
        ae_botId = ct_botId i, ae_type = ThreadCleared, ae_payload = no_payload,
        ae_runId = None\<rparr> d4 = Inr (cr_event x, d')"
    using clearThread_run [OF step] by blast
  have "distinct (map r_id (db_runs d1))" using ok d1 by (simp add: db_ok_def runs_ok_def)
  note eff = clear_rows_effect [OF s2 refl this]
  have gone: "\<forall>m \<in> set (db_messages d4). m_threadId m \<noteq> ct_threadId i"
    using eff(4) d3 d4(3) by simp
  show "\<forall>m \<in> set (db_messages d'). m_threadId m \<noteq> ct_threadId i"
    by (rule appendEvent_run [OF ap]) (use gone in simp)
  let ?t1 = "if clear_target i t then t\<lparr>t_unread := False\<rparr> else t"
  let ?t2 = "close_history (q\<lparr>t_unread := False\<rparr>) ?t1"
  have "find_thread (ct_threadId i) d1 = Some ?t1"
    using t by (simp add: d1 find_thread_def find_update_where)
  moreover have "t_id ?t1 = ct_threadId i"
    using t by (auto dest: find_thread_SomeD)
  ultimately have t4: "find_thread (ct_threadId i) d4 = Some ?t2"
    by (simp add: find_thread_def d4(1) d3 eff(2) find_update_where)
  have "find_thread (ct_threadId i) d' = Some (?t2\<lparr>t_nextEventSeq := t_nextEventSeq ?t2 + 1\<rparr>)"
  proof (rule appendEvent_run [OF ap])
    assume "d' = d4\<lparr>db_threads := update_where (\<lambda>t. t_id t = ae_threadId \<lparr>ae_workspaceId = ct_workspaceId i,
        ae_threadId = ct_threadId i, ae_botId = ct_botId i, ae_type = ThreadCleared,
        ae_payload = no_payload, ae_runId = None\<rparr>)
        (\<lambda>t. t\<lparr>t_nextEventSeq := t_nextEventSeq t + 1\<rparr>) (db_threads d4), db_events := db_events d4 @ [cr_event x]\<rparr>"
    then show ?thesis
      using t4 find_thread_SomeD [OF t4] by (simp add: find_thread_def find_update_where)
  qed
  then show ?thread by (simp add: close_history_def)
qed

subsection \<open>Jobs, clearings and runs together\<close>

text \<open>
  The system for one thread: the database, the numbers of the messages whose text went into the
  stored summary (kept for the statement only, no code reads it), and the jobs with what they have
  read so far. A job that crashed or is retried stays in the list and may go on at any time.
\<close>

datatype compaction_job =
    ThreadRead history_read "int set"
  | EventsRead history_read bool "int set"
  | Planned history_read batch_plan "int set"

record compaction_sys =
  cy_db :: db
  cy_covered :: "int set"
  cy_jobs :: "compaction_job set"

definition generation_of :: "id \<Rightarrow> db \<Rightarrow> int option" where
  "generation_of tid d = map_option t_historyCompactionGeneration (find_thread tid d)"

definition batch_seqs :: "batch_plan \<Rightarrow> int set" where
  "batch_seqs p = set (map m_seq (pl_batch p))"

text \<open>What a summary made from a plan covers: the batch, and what the summary before it did.\<close>

definition plan_covers :: "history_read \<Rightarrow> batch_plan \<Rightarrow> int set \<Rightarrow> int set" where
  "plan_covers r p before = (if hr_summary r = None then {} else before) \<union> batch_seqs p"

inductive compaction_step :: "id \<Rightarrow> compaction_sys \<Rightarrow> compaction_sys \<Rightarrow> bool" for tid where
  other_op: "d' = exec_op op (cy_db s) \<Longrightarrow>
     compaction_step tid s
       (s\<lparr>cy_db := d',
          cy_covered := (if generation_of tid d' = generation_of tid (cy_db s) then cy_covered s else {})\<rparr>)"
| job_reads_thread: "find_thread tid (cy_db s) = Some t \<Longrightarrow> read_history t = Inr r \<Longrightarrow>
     compaction_step tid s (s\<lparr>cy_jobs := insert (ThreadRead r (cy_covered s)) (cy_jobs s)\<rparr>)"
| job_reads_events: "ThreadRead r c \<in> cy_jobs s \<Longrightarrow>
     compaction_step tid s
       (s\<lparr>cy_jobs := insert (EventsRead r (was_cleared tid r (cy_db s)) c) (cy_jobs s)\<rparr>)"
| job_plans: "EventsRead r w c \<in> cy_jobs s \<Longrightarrow> compaction_plan tid r w (cy_db s) = Inr p \<Longrightarrow>
     compaction_step tid s (s\<lparr>cy_jobs := insert (Planned r p c) (cy_jobs s)\<rparr>)"
| job_commits: "Planned r p c \<in> cy_jobs s \<Longrightarrow> summarizer_result events = Inr summary \<Longrightarrow>
     commit_summary tid r (m_seq (last (pl_batch p))) summary (cy_db s) = (n, d') \<Longrightarrow>
     compaction_step tid s
       (s\<lparr>cy_db := d', cy_covered := (if n = 0 then cy_covered s else plan_covers r p c)\<rparr>)"

inductive_cases compaction_stepE: "compaction_step tid s s'"

text \<open>Every message of the thread up to a number is among the covered ones.\<close>

definition covered_upto :: "id \<Rightarrow> db \<Rightarrow> int \<Rightarrow> int set \<Rightarrow> bool" where
  "covered_upto tid d n c \<longleftrightarrow>
     (\<forall>m \<in> set (db_messages d). m_threadId m = tid \<and> m_seq m \<le> n \<longrightarrow> m_seq m \<in> c)"

definition read_covers :: "id \<Rightarrow> db \<Rightarrow> history_read \<Rightarrow> int set \<Rightarrow> bool" where
  "read_covers tid d r c \<longleftrightarrow>
     (hr_summary r \<noteq> None \<longrightarrow> covered_upto tid d (cursor_or_start (hr_cursor r)) c) \<and>
     (hr_summary r = None \<and> (hr_generation r \<noteq> 0 \<or> hr_cursor r = None) \<longrightarrow>
        covered_upto tid d (cursor_or_start (hr_cursor r)) {})"

definition row_read :: "thread_row \<Rightarrow> history_read" where
  "row_read t = \<lparr>hr_cursor = t_historyCompactedUpToSeq t,
     hr_generation = t_historyCompactionGeneration t,
     hr_summary = trimmed (t_historyCompactionSummary t)\<rparr>"

text \<open>What a job knows still holds, as long as the thread is of the generation it read.\<close>

definition read_ok :: "id \<Rightarrow> db \<Rightarrow> thread_row \<Rightarrow> history_read \<Rightarrow> int set \<Rightarrow> bool" where
  "read_ok tid d t r c \<longleftrightarrow>
     hr_generation r \<le> t_historyCompactionGeneration t \<and>
     (hr_generation r = t_historyCompactionGeneration t \<longrightarrow>
        cursor_or_start (hr_cursor r) < t_nextMessageSeq t \<and> read_covers tid d r c)"

definition plan_ok :: "id \<Rightarrow> db \<Rightarrow> thread_row \<Rightarrow> history_read \<Rightarrow> batch_plan \<Rightarrow> int set \<Rightarrow> bool" where
  "plan_ok tid d t r p c \<longleftrightarrow>
     hr_generation r \<le> t_historyCompactionGeneration t \<and>
     (hr_generation r = t_historyCompactionGeneration t \<longrightarrow>
        m_seq (last (pl_batch p)) < t_nextMessageSeq t \<and>
        covered_upto tid d (m_seq (last (pl_batch p))) (plan_covers r p c))"

definition job_ok :: "id \<Rightarrow> db \<Rightarrow> thread_row \<Rightarrow> compaction_job \<Rightarrow> bool" where
  "job_ok tid d t j =
     (case j of
        ThreadRead r c \<Rightarrow> read_ok tid d t r c
      | EventsRead r w c \<Rightarrow> read_ok tid d t r c
      | Planned r p c \<Rightarrow> plan_ok tid d t r p c)"

definition compaction_ok :: "id \<Rightarrow> compaction_sys \<Rightarrow> bool" where
  "compaction_ok tid s \<longleftrightarrow> db_ok (cy_db s) \<and>
     (\<exists>t. find_thread tid (cy_db s) = Some t \<and> 0 \<le> t_historyCompactionGeneration t \<and>
        read_ok tid (cy_db s) t (row_read t) (cy_covered s) \<and>
        (\<forall>j \<in> cy_jobs s. job_ok tid (cy_db s) t j))"

lemma compaction_okE:
  assumes "compaction_ok tid s"
  obtains t where "db_ok (cy_db s)" and "find_thread tid (cy_db s) = Some t"
    and "0 \<le> t_historyCompactionGeneration t"
    and "read_ok tid (cy_db s) t (row_read t) (cy_covered s)"
    and "\<forall>j \<in> cy_jobs s. job_ok tid (cy_db s) t j"
  using assms unfolding compaction_ok_def by blast

lemma read_history_row: "read_history t = Inr r \<Longrightarrow> r = row_read t"
  by (auto simp: read_history_def row_read_def split: if_splits)

text \<open>A transaction that keeps the history frame keeps what is covered.\<close>

definition thread_seqs :: "id \<Rightarrow> db \<Rightarrow> int set" where
  "thread_seqs tid d = m_seq ` {m \<in> set (db_messages d). m_threadId m = tid}"

lemma history_frame_now:
  "find_thread tid d = Some t \<Longrightarrow>
   history_frame tid (compaction_state t) (t_nextMessageSeq t) (thread_seqs tid d) d"
  by (auto simp: history_frame_def thread_seqs_def)

lemma covered_frame:
  assumes "history_frame tid h n (thread_seqs tid d) d'" and "covered_upto tid d k c" and "k < n"
  shows "covered_upto tid d' k c"
  using assms by (fastforce simp: history_frame_def covered_upto_def thread_seqs_def)

lemma read_ok_frame:
  assumes ok: "read_ok tid d t r c" and t': "compaction_state t' = compaction_state t"
    and next_le: "t_nextMessageSeq t \<le> t_nextMessageSeq t'"
    and fr: "history_frame tid h (t_nextMessageSeq t) (thread_seqs tid d) d'"
  shows "read_ok tid d' t' r c"
  using ok t' next_le covered_frame [OF fr]
  by (auto simp: read_ok_def read_covers_def compaction_state_def)

lemma plan_ok_frame:
  assumes ok: "plan_ok tid d t r p c" and t': "compaction_state t' = compaction_state t"
    and next_le: "t_nextMessageSeq t \<le> t_nextMessageSeq t'"
    and fr: "history_frame tid h (t_nextMessageSeq t) (thread_seqs tid d) d'"
  shows "plan_ok tid d' t' r p c"
  using ok t' next_le covered_frame [OF fr]
  by (auto simp: plan_ok_def compaction_state_def)

lemma job_ok_frame:
  assumes "job_ok tid d t j" and "compaction_state t' = compaction_state t"
    and "t_nextMessageSeq t \<le> t_nextMessageSeq t'"
    and "history_frame tid h (t_nextMessageSeq t) (thread_seqs tid d) d'"
  shows "job_ok tid d' t' j"
  using assms read_ok_frame [OF _ assms(2-4)] plan_ok_frame [OF _ assms(2-4)]
  by (cases j) (auto simp: job_ok_def)

lemma row_read_state: "compaction_state t' = compaction_state t \<Longrightarrow> row_read t' = row_read t"
  by (simp add: compaction_state_def row_read_def)

subsection \<open>A batch covers what it claims\<close>

lemma thread_messages_filter:
  assumes "db_ok d"
  shows "thread_messages tid d = filter (\<lambda>m. m_threadId m = tid) (db_messages d)"
    and "sorted_wrt (\<lambda>a b. m_seq a < m_seq b) (thread_messages tid d)"
proof -
  have s: "sorted_wrt (\<lambda>a b. m_seq a < m_seq b) (filter (\<lambda>m. m_threadId m = tid) (db_messages d))"
    using assms by (simp add: db_ok_def messages_ok_def)
  then have "sorted (map m_seq (filter (\<lambda>m. m_threadId m = tid) (db_messages d)))"
    unfolding sorted_map by (rule sorted_wrt_mono_rel [rotated]) simp
  then show f: "thread_messages tid d = filter (\<lambda>m. m_threadId m = tid) (db_messages d)"
    by (simp add: thread_messages_def sort_key_id_if_sorted)
  show "sorted_wrt (\<lambda>a b. m_seq a < m_seq b) (thread_messages tid d)"
    unfolding f by (rule s)
qed

lemma set_thread_messages: "set (thread_messages tid d) = {m \<in> set (db_messages d). m_threadId m = tid}"
  by (auto simp: thread_messages_def)

lemma take_covers:
  assumes "sorted_wrt (\<lambda>a b. m_seq a < m_seq b) ys" and "m \<in> set ys" and "take k ys \<noteq> []"
    and "m_seq m \<le> m_seq (last (take k ys))"
  shows "m \<in> set (take k ys)"
proof (rule ccontr)
  assume "m \<notin> set (take k ys)"
  with assms(2) have "m \<in> set (drop k ys)"
    by (metis UnE append_take_drop_id set_append)
  moreover have "sorted_wrt (\<lambda>a b. m_seq a < m_seq b) (take k ys @ drop k ys)"
    using assms(1) by simp
  ultimately have "m_seq (last (take k ys)) < m_seq m"
    unfolding sorted_wrt_append using last_in_set [OF assms(3)] by blast
  with assms(4) show False by simp
qed

lemma newest_drop: "newest n xs = drop (length xs - n) xs"
  by (simp add: newest_def take_rev)

lemma newest_all: "length (newest (Suc n) xs) \<le> n \<Longrightarrow> newest (Suc n) xs = xs"
  by (simp add: newest_drop split: if_splits)

lemma next_batch_covers:
  assumes ok: "db_ok d" and b: "next_batch tid r d = Inr batch" and ne: "take k batch \<noteq> []"
  shows "\<forall>m \<in> set (db_messages d). m_threadId m = tid \<and> cursor_or_start (hr_cursor r) < m_seq m \<and>
           m_seq m \<le> m_seq (last (take k batch)) \<longrightarrow> m_seq m \<in> set (map m_seq (take k batch))"
proof -
  let ?ys = "filter (\<lambda>m. m_seq m > cursor_or_start (hr_cursor r)) (thread_messages tid d)"
  have eq: "take k batch = take (min k COMPACTION_BATCH_SIZE) ?ys"
    using b by (auto simp: next_batch_def nextCompactionBatchRange_def Let_def min.commute split: if_splits)
  have sorted: "sorted_wrt (\<lambda>a b. m_seq a < m_seq b) ?ys"
    by (rule sorted_wrt_filter [OF thread_messages_filter(2) [OF ok]])
  show ?thesis
    using take_covers [OF sorted, of _ "min k COMPACTION_BATCH_SIZE"] ne
    unfolding eq by (auto simp: set_thread_messages)
qed

lemma legacy_batch_covers:
  assumes "legacy_batch tid cursor w d = Inr batch"
  shows "\<forall>m \<in> set (db_messages d). m_threadId m = tid \<and> m_seq m \<le> cursor \<longrightarrow> m \<in> set batch"
    and "batch \<noteq> [] \<Longrightarrow> m_seq (last batch) = cursor"
proof -
  let ?ys = "filter (\<lambda>m. m_seq m \<le> cursor) (thread_messages tid d)"
  have n: "length (newest (Suc LEGACY_HISTORY_WINDOW_SIZE) ?ys) \<le> LEGACY_HISTORY_WINDOW_SIZE"
    and batch: "batch = newest (Suc LEGACY_HISTORY_WINDOW_SIZE) ?ys"
    and last: "batch \<noteq> [] \<Longrightarrow> m_seq (last batch) = cursor"
    using assms by (auto simp: legacy_batch_def Let_def split: if_splits)
  have "batch = ?ys" using newest_all [OF n] batch by simp
  then show "\<forall>m \<in> set (db_messages d). m_threadId m = tid \<and> m_seq m \<le> cursor \<longrightarrow> m \<in> set batch"
    by (auto simp: set_thread_messages)
  show "batch \<noteq> [] \<Longrightarrow> m_seq (last batch) = cursor" by (rule last)
qed

lemma batch_member_next:
  assumes ok: "db_ok d" and t: "find_thread tid d = Some t" and "m \<in> set (db_messages d)" "m_threadId m = tid"
  shows "m_seq m < t_nextMessageSeq t"
proof -
  obtain q where q: "q \<in> set (db_threads d)" "t_id q = tid" "m_seq m < t_nextMessageSeq q"
    using assms by (fastforce simp: db_ok_def messages_ok_def)
  have "q = t"
    using find_thread_SomeD [OF t] q ok distinct_key_eq [of t_id "db_threads d" q t]
    by (simp add: db_ok_def threads_ok_def)
  with q(3) show ?thesis by simp
qed

lemma batch_set:
  assumes "compaction_batch tid r w d = Inr (batch, boot)"
  shows "set batch \<subseteq> {m \<in> set (db_messages d). m_threadId m = tid}"
proof -
  let ?old = "legacy_batch tid (the (hr_cursor r)) w d"
  have rows: "set (newest k (filter P (thread_messages tid d))) \<subseteq> {m \<in> set (db_messages d). m_threadId m = tid}"
    "set (take k (filter P (thread_messages tid d))) \<subseteq> {m \<in> set (db_messages d). m_threadId m = tid}" for k P
    by (auto simp: newest_drop set_thread_messages dest!: in_set_dropD in_set_takeD)
  have old: "set b \<subseteq> {m \<in> set (db_messages d). m_threadId m = tid}" if "?old = Inr b" for b
    using that rows(1) by (simp add: legacy_batch_def Let_def split: if_splits) blast
  have nxt: "set b \<subseteq> {m \<in> set (db_messages d). m_threadId m = tid}" if "next_batch tid r d = Inr b" for b
    using that rows(2) by (simp add: next_batch_def Let_def split: if_splits prod.splits) blast
  have "?old = Inr batch \<or> next_batch tid r d = Inr batch"
    using assms by (auto simp: compaction_batch_def split: if_splits sum.splits list.splits)
  with old nxt show ?thesis by blast
qed

lemma compaction_batch_cases:
  assumes "compaction_batch tid r w d = Inr (batch, boot)"
  shows "boot \<Longrightarrow> \<exists>cursor. hr_cursor r = Some cursor \<and> legacy_batch tid cursor w d = Inr batch"
    and "\<not> boot \<Longrightarrow> next_batch tid r d = Inr batch"
    and "\<not> boot \<Longrightarrow> needsLocalBootstrap r \<Longrightarrow> legacy_batch tid (the (hr_cursor r)) w d = Inr []"
  using assms
  by (auto simp: compaction_batch_def needsLocalBootstrap_def split: if_splits sum.splits list.splits)

lemma uncovered_below_cursor:
  assumes "read_covers tid d r c" and "hr_summary r = None"
    and "needsLocalBootstrap r \<Longrightarrow> legacy_batch tid (the (hr_cursor r)) w d = Inr []"
  shows "covered_upto tid d (cursor_or_start (hr_cursor r)) {}"
proof (cases "needsLocalBootstrap r")
  case True
  then obtain n where n: "hr_cursor r = Some n" by (auto simp: needsLocalBootstrap_def)
  with assms(3) [OF True] legacy_batch_covers(1) [of tid n w d "[]"] show ?thesis
    by (auto simp: covered_upto_def cursor_or_start_def)
next
  case False
  with assms(1,2) show ?thesis by (auto simp: read_covers_def needsLocalBootstrap_def)
qed

lemma plan_covers_batch:
  assumes ok: "db_ok d" and r: "read_covers tid d r c" and p: "compaction_plan tid r w d = Inr p"
  shows "covered_upto tid d (m_seq (last (pl_batch p))) (plan_covers r p c)"
proof -
  obtain batch boot k where b: "compaction_batch tid r w d = Inr (batch, boot)"
    and k: "pl_batch p = take k batch" "pl_batch p \<noteq> []" "boot \<longrightarrow> pl_batch p = batch"
    using plan_batch [OF p] by metis
  show ?thesis
  proof (cases boot)
    case True
    then obtain n where "legacy_batch tid n w d = Inr batch"
      using compaction_batch_cases(1) [OF b] by blast
    from legacy_batch_covers [OF this] k True show ?thesis
      by (auto simp: covered_upto_def plan_covers_def batch_seqs_def)
  next
    case False
    let ?from = "cursor_or_start (hr_cursor r)"
    have above: "m_seq m \<in> batch_seqs p"
      if "m \<in> set (db_messages d)" "m_threadId m = tid" "?from < m_seq m"
        "m_seq m \<le> m_seq (last (pl_batch p))" for m
      using next_batch_covers [OF ok compaction_batch_cases(2) [OF b False], of k] that k
      by (auto simp: batch_seqs_def)
    have below: "covered_upto tid d ?from (if hr_summary r = None then {} else c)"
      using uncovered_below_cursor [OF r _ compaction_batch_cases(3) [OF b False]] r
      by (simp add: read_covers_def)
    show ?thesis unfolding covered_upto_def plan_covers_def
    proof (intro ballI impI, elim conjE)
      fix m assume m: "m \<in> set (db_messages d)" "m_threadId m = tid" "m_seq m \<le> m_seq (last (pl_batch p))"
      show "m_seq m \<in> (if hr_summary r = None then {} else c) \<union> batch_seqs p"
      proof (cases "?from < m_seq m")
        case True
        with above m show ?thesis by blast
      next
        case False
        with below m(1,2) have "m_seq m \<in> (if hr_summary r = None then {} else c)"
          unfolding covered_upto_def by fastforce
        then show ?thesis by blast
      qed
    qed
  qed
qed

lemma plan_last_next:
  assumes ok: "db_ok d" and t: "find_thread tid d = Some t" and p: "compaction_plan tid r w d = Inr p"
  shows "m_seq (last (pl_batch p)) < t_nextMessageSeq t"
proof -
  obtain batch boot k where b: "compaction_batch tid r w d = Inr (batch, boot)"
    and k: "pl_batch p = take k batch" "pl_batch p \<noteq> []"
    using plan_batch [OF p] by metis
  have "last (pl_batch p) \<in> set batch"
    using last_in_set [OF k(2)] unfolding k(1) by (rule in_set_takeD)
  then show ?thesis
    using batch_set [OF b] batch_member_next [OF ok t] by blast
qed

lemma plan_makes_ok:
  assumes "db_ok d" and "find_thread tid d = Some t" and "read_ok tid d t r c"
    and "compaction_plan tid r w d = Inr p"
  shows "plan_ok tid d t r p c"
  using assms(3) plan_covers_batch [OF assms(1) _ assms(4)] plan_last_next [OF assms(1,2,4)]
  by (simp add: read_ok_def plan_ok_def)

subsection \<open>The invariant of the system\<close>

text \<open>Moving the cursor within what the thread has: one more update of thread rows.\<close>

interpretation advance_cursor: thread_update
  "\<lambda>t. if n < t_nextMessageSeq t
        then t\<lparr>t_historyCompactedUpToSeq := Some n, t_historyCompactionSummary := s\<rparr> else t"
  for n s
  by unfold_locales (auto split: if_splits)

definition commit_matches :: "id \<Rightarrow> history_read \<Rightarrow> thread_row \<Rightarrow> bool" where
  "commit_matches tid r t \<longleftrightarrow> t_id t = tid \<and> t_historyCompactedUpToSeq t = hr_cursor r \<and>
     t_historyCompactionGeneration t = hr_generation r"

lemma commit_summary_run:
  assumes ok: "db_ok d" and t: "find_thread tid d = Some t"
    and commit: "commit_summary tid r L summary d = (n, d')"
  shows "n \<noteq> 0 \<longleftrightarrow> commit_matches tid r t"
    and "n = 0 \<Longrightarrow> d' = d"
    and "n \<noteq> 0 \<Longrightarrow> L < t_nextMessageSeq t \<Longrightarrow> d' = d\<lparr>db_threads := update_where (commit_matches tid r)
           (\<lambda>t. if L < t_nextMessageSeq t
             then t\<lparr>t_historyCompactedUpToSeq := Some L, t_historyCompactionSummary := Some summary\<rparr> else t)
           (db_threads d)\<rparr>"
proof -
  have n: "n = count_where (commit_matches tid r) (db_threads d)"
    and d': "d' = d\<lparr>db_threads := update_where (commit_matches tid r)
      (\<lambda>t. t\<lparr>t_historyCompactedUpToSeq := Some L, t_historyCompactionSummary := Some summary\<rparr>) (db_threads d)\<rparr>"
    using commit by (auto simp: commit_summary_def Let_def commit_matches_def [abs_def])
  have only: "q = t" if "q \<in> set (db_threads d)" "t_id q = tid" for q
    using that find_thread_SomeD [OF t] ok distinct_key_eq [of t_id "db_threads d" q t]
    by (simp add: db_ok_def threads_ok_def)
  then have match: "commit_matches tid r q \<Longrightarrow> q \<in> set (db_threads d) \<Longrightarrow> q = t" for q
    by (simp add: commit_matches_def)
  show "n \<noteq> 0 \<longleftrightarrow> commit_matches tid r t"
    unfolding n count_where_pos using match find_thread_SomeD [OF t] by blast
  show "n = 0 \<Longrightarrow> d' = d" by (simp add: n d' update_where_none)
  show "L < t_nextMessageSeq t \<Longrightarrow> d' = d\<lparr>db_threads := update_where (commit_matches tid r)
      (\<lambda>t. if L < t_nextMessageSeq t
        then t\<lparr>t_historyCompactedUpToSeq := Some L, t_historyCompactionSummary := Some summary\<rparr> else t)
      (db_threads d)\<rparr>"
    unfolding d' update_where_def using match by (auto intro!: arg_cong [where f = "\<lambda>ts. d\<lparr>db_threads := ts\<rparr>"] map_cong)
qed

lemma commit_summary_ok:
  assumes ok: "db_ok d" and t: "find_thread tid d = Some t" and p: "plan_ok tid d t r p c"
    and commit: "commit_summary tid r (m_seq (last (pl_batch p))) summary d = (n, d')"
    and s: "trim summary = summary" "summary \<noteq> []" and "n \<noteq> 0"
  shows "db_ok d' \<and> db_messages d' = db_messages d \<and>
    (\<exists>t'. find_thread tid d' = Some t' \<and> t_nextMessageSeq t' = t_nextMessageSeq t \<and>
           t_historyCompactionGeneration t' = t_historyCompactionGeneration t \<and>
           read_ok tid d' t' (row_read t') (plan_covers r p c))"
proof -
  let ?L = "m_seq (last (pl_batch p))"
  let ?t' = "t\<lparr>t_historyCompactedUpToSeq := Some ?L, t_historyCompactionSummary := Some summary\<rparr>"
  note run = commit_summary_run [OF ok t commit]
  have m: "commit_matches tid r t" using run(1) \<open>n \<noteq> 0\<close> by blast
  then have L: "?L < t_nextMessageSeq t"
    and c: "covered_upto tid d ?L (plan_covers r p c)"
    using p by (simp_all add: plan_ok_def commit_matches_def)
  note d' = run(3) [OF \<open>n \<noteq> 0\<close> L]
  have "db_ok d'" unfolding d' by (rule advance_cursor.update_db_ok [OF ok])
  moreover have msgs: "db_messages d' = db_messages d" by (simp add: d')
  moreover have "find_thread tid d' = Some ?t'"
    using t m L unfolding d' find_thread_def by (simp add: find_update_where)
  moreover have "read_ok tid d' ?t' (row_read ?t') (plan_covers r p c)"
    using c L s by (simp add: read_ok_def row_read_def read_covers_def cursor_or_start_def trimmed_def
        covered_upto_def msgs)
  ultimately show ?thesis by simp
qed

lemma job_ok_same:
  assumes "job_ok tid d t j" and "db_messages d' = db_messages d"
    and "t_nextMessageSeq t' = t_nextMessageSeq t"
    and "t_historyCompactionGeneration t' = t_historyCompactionGeneration t"
  shows "job_ok tid d' t' j"
  using assms by (cases j) (simp_all add: job_ok_def read_ok_def plan_ok_def read_covers_def covered_upto_def)

lemma job_ok_older:
  assumes "job_ok tid d t j" and "t_historyCompactionGeneration t < t_historyCompactionGeneration t'"
  shows "job_ok tid d' t' j"
  using assms by (cases j) (auto simp: job_ok_def read_ok_def plan_ok_def)

text \<open>A clearing empties what jobs of the old generation know, and nothing is covered any more.\<close>

lemma clear_keeps_compaction:
  assumes inv: "compaction_ok tid s" and i: "ct_threadId i = tid"
    and d': "d' = exec_op (OpClear eid now i) (cy_db s)"
  shows "compaction_ok tid (s\<lparr>cy_db := d',
           cy_covered := (if generation_of tid d' = generation_of tid (cy_db s) then cy_covered s else {})\<rparr>)"
proof -
  obtain t where ok: "db_ok (cy_db s)" and t: "find_thread tid (cy_db s) = Some t"
    and g: "0 \<le> t_historyCompactionGeneration t"
    and row: "read_ok tid (cy_db s) t (row_read t) (cy_covered s)"
    and jobs: "\<forall>j \<in> cy_jobs s. job_ok tid (cy_db s) t j"
    using inv by (rule compaction_okE)
  show ?thesis
  proof (cases "clearThread_tx eid now i (cy_db s)")
    case (Inl e)
    then have "d' = cy_db s" by (simp add: d')
    with inv show ?thesis by simp
  next
    case (Inr res)
    obtain x d1 where step: "clearThread_tx eid now i (cy_db s) = Inr (x, d1)"
      using Inr by (cases res) simp
    then have d1: "d' = d1" by (simp add: d')
    obtain t' where t': "find_thread tid d' = Some t'" "t_historyCompactionSummary t' = None"
      "t_historyCompactionGeneration t' = t_historyCompactionGeneration t + 1"
      "t_nextMessageSeq t \<le> t_nextMessageSeq t'"
      "t_historyCompactedUpToSeq t' = None \<longrightarrow> t_historyCompactedUpToSeq t = None"
      and gone: "\<forall>m \<in> set (db_messages d'). m_threadId m \<noteq> tid"
      using clear_history [OF ok _ step] t i d1 by auto
    have ok': "db_ok d'" using exec_op_ok [OF ok] by (simp only: d')
    have none: "covered_upto tid d' k c" for k c using gone by (simp add: covered_upto_def)
    have "cursor_or_start (t_historyCompactedUpToSeq t') < t_nextMessageSeq t'"
    proof (cases "t_historyCompactedUpToSeq t'")
      case None
      with t'(4,5) row show ?thesis by (simp add: read_ok_def row_read_def cursor_or_start_def)
    next
      case (Some n)
      with ok' find_thread_SomeD [OF t'(1)] show ?thesis
        by (auto simp: db_ok_def threads_ok_def cursor_or_start_def)
    qed
    then have "read_ok tid d' t' (row_read t') {}"
      by (simp add: read_ok_def row_read_def read_covers_def none)
    moreover have "\<forall>j \<in> cy_jobs s. job_ok tid d' t' j"
      using jobs job_ok_older t'(3) by fastforce
    moreover have "generation_of tid d' \<noteq> generation_of tid (cy_db s)"
      using t t'(1,3) by (simp add: generation_of_def)
    ultimately show ?thesis
      using ok' t'(1,3) g unfolding compaction_ok_def by simp
  qed
qed

text \<open>Every other transaction keeps it.\<close>

lemma frame_keeps_compaction:
  assumes inv: "compaction_ok tid s" and d': "d' = exec_op op (cy_db s)"
    and other: "\<And>eid now i. op = OpClear eid now i \<Longrightarrow> ct_threadId i \<noteq> tid"
  shows "compaction_ok tid (s\<lparr>cy_db := d',
           cy_covered := (if generation_of tid d' = generation_of tid (cy_db s) then cy_covered s else {})\<rparr>)"
proof -
  obtain t where ok: "db_ok (cy_db s)" and t: "find_thread tid (cy_db s) = Some t"
    and g: "0 \<le> t_historyCompactionGeneration t"
    and row: "read_ok tid (cy_db s) t (row_read t) (cy_covered s)"
    and jobs: "\<forall>j \<in> cy_jobs s. job_ok tid (cy_db s) t j"
    using inv by (rule compaction_okE)
  have ok': "db_ok d'" using exec_op_ok [OF ok] by (simp only: d')
  have fr: "history_frame tid (compaction_state t) (t_nextMessageSeq t) (thread_seqs tid (cy_db s)) d'"
    unfolding d' by (rule frame_exec_op [OF history_frame_now [OF t]]) (rule other)
  then obtain t' where t': "find_thread tid d' = Some t'" "compaction_state t' = compaction_state t"
    "t_nextMessageSeq t \<le> t_nextMessageSeq t'"
    by (auto simp: history_frame_def)
  have "generation_of tid d' = generation_of tid (cy_db s)" "0 \<le> t_historyCompactionGeneration t'"
    using t t' g by (simp_all add: generation_of_def compaction_state_def)
  moreover have "read_ok tid d' t' (row_read t') (cy_covered s)"
    using read_ok_frame [OF row t'(2,3) fr] by (simp add: row_read_state [OF t'(2)])
  moreover have "\<forall>j \<in> cy_jobs s. job_ok tid d' t' j"
    using jobs job_ok_frame [OF _ t'(2,3) fr] by blast
  ultimately show ?thesis using ok' t'(1) unfolding compaction_ok_def by simp
qed

text \<open>What the steps of a job add.\<close>

lemma add_job_ok:
  assumes "compaction_ok tid s" and "find_thread tid (cy_db s) = Some t" and "job_ok tid (cy_db s) t j"
  shows "compaction_ok tid (s\<lparr>cy_jobs := insert j (cy_jobs s)\<rparr>)"
  using assms unfolding compaction_ok_def by simp

lemma job_steps_ok:
  assumes inv: "compaction_ok tid s"
  shows "find_thread tid (cy_db s) = Some t \<Longrightarrow> read_history t = Inr r \<Longrightarrow>
      compaction_ok tid (s\<lparr>cy_jobs := insert (ThreadRead r (cy_covered s)) (cy_jobs s)\<rparr>)"
    and "ThreadRead r c \<in> cy_jobs s \<Longrightarrow>
      compaction_ok tid (s\<lparr>cy_jobs := insert (EventsRead r w c) (cy_jobs s)\<rparr>)"
    and "EventsRead r w c \<in> cy_jobs s \<Longrightarrow> compaction_plan tid r w (cy_db s) = Inr p \<Longrightarrow>
      compaction_ok tid (s\<lparr>cy_jobs := insert (Planned r p c) (cy_jobs s)\<rparr>)"
proof -
  obtain q where ok: "db_ok (cy_db s)" and q: "find_thread tid (cy_db s) = Some q"
    and row: "read_ok tid (cy_db s) q (row_read q) (cy_covered s)"
    and jobs: "\<forall>j \<in> cy_jobs s. job_ok tid (cy_db s) q j"
    using inv by (rule compaction_okE)
  note add = add_job_ok [OF inv q]
  show "compaction_ok tid (s\<lparr>cy_jobs := insert (ThreadRead r (cy_covered s)) (cy_jobs s)\<rparr>)"
    if "find_thread tid (cy_db s) = Some t" "read_history t = Inr r"
    by (rule add) (use that q row in \<open>auto simp: job_ok_def dest: read_history_row\<close>)
  show "compaction_ok tid (s\<lparr>cy_jobs := insert (EventsRead r w c) (cy_jobs s)\<rparr>)"
    if "ThreadRead r c \<in> cy_jobs s"
    by (rule add) (use that jobs in \<open>auto simp: job_ok_def\<close>)
  show "compaction_ok tid (s\<lparr>cy_jobs := insert (Planned r p c) (cy_jobs s)\<rparr>)"
    if "EventsRead r w c \<in> cy_jobs s" "compaction_plan tid r w (cy_db s) = Inr p"
    by (rule add) (use that jobs plan_makes_ok [OF ok q _ that(2)] in \<open>auto simp: job_ok_def\<close>)
qed

lemma job_commit_ok:
  assumes inv: "compaction_ok tid s" and job: "Planned r p c \<in> cy_jobs s"
    and sum: "summarizer_result events = Inr summary"
    and commit: "commit_summary tid r (m_seq (last (pl_batch p))) summary (cy_db s) = (n, d')"
  shows "compaction_ok tid (s\<lparr>cy_db := d', cy_covered := (if n = 0 then cy_covered s else plan_covers r p c)\<rparr>)"
proof -
  obtain t where ok: "db_ok (cy_db s)" and t: "find_thread tid (cy_db s) = Some t"
    and g: "0 \<le> t_historyCompactionGeneration t"
    and jobs: "\<forall>j \<in> cy_jobs s. job_ok tid (cy_db s) t j"
    using inv by (rule compaction_okE)
  have p: "plan_ok tid (cy_db s) t r p c" using jobs job by (force simp: job_ok_def)
  note s = summarizer_summary [OF sum]
  show ?thesis
  proof (cases "n = 0")
    case True
    with commit_summary_run(2) [OF ok t commit] inv show ?thesis by simp
  next
    case False
    obtain t' where t': "db_ok d'" "db_messages d' = db_messages (cy_db s)" "find_thread tid d' = Some t'"
      "t_nextMessageSeq t' = t_nextMessageSeq t"
      "t_historyCompactionGeneration t' = t_historyCompactionGeneration t"
      "read_ok tid d' t' (row_read t') (plan_covers r p c)"
      using commit_summary_ok [OF ok t p commit _ _ False] s by blast
    have "\<forall>j \<in> cy_jobs s. job_ok tid d' t' j"
      using jobs job_ok_same [OF _ t'(2,4,5)] by blast
    with t' g False show ?thesis unfolding compaction_ok_def by simp
  qed
qed

lemma compaction_step_ok: "compaction_step tid s s' \<Longrightarrow> compaction_ok tid s \<Longrightarrow> compaction_ok tid s'"
proof (induction rule: compaction_step.induct)
  case (other_op d' op s)
  show ?case
  proof (cases "\<exists>eid now i. op = OpClear eid now i \<and> ct_threadId i = tid")
    case True
    then show ?thesis using clear_keeps_compaction [OF other_op(2)] other_op(1) by blast
  next
    case False
    then show ?thesis by (intro frame_keeps_compaction [OF other_op(2,1)]) blast
  qed
qed (blast intro: job_steps_ok job_commit_ok)+

subsection \<open>What a run is shown\<close>

definition compaction_start :: "id \<Rightarrow> db \<Rightarrow> bool" where
  "compaction_start tid d \<longleftrightarrow> db_ok d \<and>
     (\<exists>t. find_thread tid d = Some t \<and> t_historyCompactionGeneration t = 0 \<and>
        trimmed (t_historyCompactionSummary t) = None \<and> 0 \<le> t_nextMessageSeq t) \<and>
     (\<forall>m \<in> set (db_messages d). m_threadId m = tid \<longrightarrow> 0 \<le> m_seq m)"

definition compaction_begin :: "db \<Rightarrow> compaction_sys" where
  "compaction_begin d = \<lparr>cy_db = d, cy_covered = {}, cy_jobs = {}\<rparr>"

lemma compaction_start_ok:
  assumes "compaction_start tid d" shows "compaction_ok tid (compaction_begin d)"
proof -
  obtain t where ok: "db_ok d" and t: "find_thread tid d = Some t" "t_historyCompactionGeneration t = 0"
    "trimmed (t_historyCompactionSummary t) = None" "0 \<le> t_nextMessageSeq t"
    and m: "\<forall>m \<in> set (db_messages d). m_threadId m = tid \<longrightarrow> 0 \<le> m_seq m"
    using assms by (auto simp: compaction_start_def)
  have "cursor_or_start (t_historyCompactedUpToSeq t) < t_nextMessageSeq t"
    using ok t find_thread_SomeD [OF t(1)]
    by (auto simp: cursor_or_start_def NOTHING_COMPACTED_def db_ok_def threads_ok_def split: option.splits)
  moreover have "covered_upto tid d (cursor_or_start None) {}"
    using m by (fastforce simp: covered_upto_def cursor_or_start_def NOTHING_COMPACTED_def)
  ultimately show ?thesis
    using ok t by (auto simp: compaction_ok_def compaction_begin_def read_ok_def row_read_def read_covers_def)
qed

lemma compaction_reachable_ok:
  assumes "(compaction_step tid)\<^sup>*\<^sup>* (compaction_begin d) s" and "compaction_start tid d"
  shows "compaction_ok tid s"
  using assms(1) compaction_start_ok [OF assms(2)]
  by (induction rule: rtranclp_induct) (auto intro: compaction_step_ok)

lemma contiguous_hd: "contiguous_from n (x # xs) \<Longrightarrow> x = n"
  by (simp add: contiguous_from_def)

text \<open>The newest messages, from the cursor on without a gap, are all messages after the cursor.\<close>

lemma newest_after_cursor:
  assumes sorted: "sorted_wrt (\<lambda>a b. m_seq a < m_seq b) xs" and "0 < n"
    and gap: "contiguous_from (c + 1) (map m_seq (filter (\<lambda>m. m_seq m > c) (newest n xs)))"
    and m: "m \<in> set xs" "m_seq m > c"
  shows "m \<in> set (newest n xs)"
proof (rule ccontr)
  let ?k = "length xs - n"
  assume "m \<notin> set (newest n xs)"
  with m(1) have old: "m \<in> set (take ?k xs)"
    unfolding newest_drop by (metis UnE append_take_drop_id set_append)
  have "sorted_wrt (\<lambda>a b. m_seq a < m_seq b) (take ?k xs @ drop ?k xs)" using sorted by simp
  then have later: "m_seq m < m_seq q" if "q \<in> set (newest n xs)" for q
    using old that unfolding newest_drop sorted_wrt_append by blast
  then have all: "filter (\<lambda>m. m_seq m > c) (newest n xs) = newest n xs"
    using m(2) by (fastforce intro: filter_True)
  have "newest n xs \<noteq> []" using old \<open>0 < n\<close> by (cases xs) (auto simp: newest_drop)
  then obtain q qs where q: "newest n xs = q # qs" by (cases "newest n xs") auto
  with gap all have "m_seq q = c + 1" by (auto dest: contiguous_hd)
  with later [of q] q m(2) show False by simp
qed

lemma sort_history_messages:
  assumes "sorted_wrt (\<lambda>a b. m_seq a < m_seq b) xs"
  shows "sort_key hm_seq (map history_message_of xs) = map history_message_of xs"
proof -
  have "sorted (map hm_seq (map history_message_of xs))"
    unfolding sorted_map sorted_wrt_map
    by (rule sorted_wrt_mono_rel [OF _ assms]) (simp add: history_message_of_def)
  then show ?thesis by (rule sort_key_id_if_sorted)
qed

lemma run_history_local:
  assumes ok: "db_ok d" and used: "hs_usedLocalSummary (run_history tid t d)"
  obtains c s where "t_historyCompactedUpToSeq t = Some c"
    and "trimmed (t_historyCompactionSummary t) = Some s" and "hs_summary (run_history tid t d) = Some s"
    and "\<And>m. m \<in> set (db_messages d) \<Longrightarrow> m_threadId m = tid \<Longrightarrow> m_seq m > c \<Longrightarrow>
           history_message_of m \<in> set (hs_history (run_history tid t d))"
proof -
  let ?xs = "newest LEGACY_HISTORY_WINDOW_SIZE (thread_messages tid d)"
  have sorted: "sorted_wrt (\<lambda>a b. m_seq a < m_seq b) (thread_messages tid d)"
    by (rule thread_messages_filter(2) [OF ok])
  then have "sorted_wrt (\<lambda>a b. m_seq a < m_seq b) ?xs"
    unfolding newest_drop by (rule sorted_wrt_drop)
  note srt = sort_history_messages [OF this]
  obtain c s where c: "t_historyCompactedUpToSeq t = Some c" "trimmed (t_historyCompactionSummary t) = Some s"
    using used by (auto simp: run_history_def selectCompactedHistory_def Let_def split: option.splits)
  have filter_map: "filter (\<lambda>h. hm_seq h > c) (map history_message_of ?xs) =
      map history_message_of (filter (\<lambda>m. m_seq m > c) ?xs)"
    by (simp add: filter_map o_def history_message_of_def)
  have seqs: "map hm_seq (map history_message_of ys) = map m_seq ys" for ys
    by (simp add: history_message_of_def)
  have gap: "contiguous_from (c + 1) (map m_seq (filter (\<lambda>m. m_seq m > c) ?xs))"
    and h: "run_history tid t d = \<lparr>hs_history = map history_message_of (filter (\<lambda>m. m_seq m > c) ?xs),
      hs_summary = Some s, hs_usedLocalSummary = True\<rparr>"
    using used c
    by (auto simp: run_history_def selectCompactedHistory_def Let_def srt filter_map seqs
        simp del: map_map split: if_splits)
  have "history_message_of m \<in> set (hs_history (run_history tid t d))"
    if "m \<in> set (db_messages d)" "m_threadId m = tid" "m_seq m > c" for m
    using newest_after_cursor [OF sorted _ gap, of m] that
    by (auto simp: h set_thread_messages LEGACY_HISTORY_WINDOW_SIZE_def)
  with c h that show thesis by simp
qed

lemma run_history_members:
  "h \<in> set (hs_history (run_history tid t d)) \<Longrightarrow>
   \<exists>m \<in> set (db_messages d). m_threadId m = tid \<and> h = history_message_of m"
  by (auto simp: run_history_def selectCompactedHistory_def Let_def newest_drop set_thread_messages
      split: option.splits if_splits dest!: in_set_dropD)


subsection \<open>Nothing of a cleared thread comes back\<close>

text \<open>The numbers a job would put under a summary, if the thread is of the generation it read.\<close>

definition job_recent :: "int \<Rightarrow> thread_row \<Rightarrow> compaction_job \<Rightarrow> bool" where
  "job_recent n t j =
     (case j of
        ThreadRead r c \<Rightarrow> hr_generation r = t_historyCompactionGeneration t \<longrightarrow> c \<subseteq> {n..}
      | EventsRead r w c \<Rightarrow> hr_generation r = t_historyCompactionGeneration t \<longrightarrow> c \<subseteq> {n..}
      | Planned r p c \<Rightarrow> hr_generation r = t_historyCompactionGeneration t \<longrightarrow> c \<union> batch_seqs p \<subseteq> {n..})"

definition since_clearing :: "id \<Rightarrow> int \<Rightarrow> compaction_sys \<Rightarrow> bool" where
  "since_clearing tid n s \<longleftrightarrow> compaction_ok tid s \<and>
     (\<exists>t. find_thread tid (cy_db s) = Some t \<and> n \<le> t_nextMessageSeq t \<and>
        (\<forall>j \<in> cy_jobs s. job_recent n t j)) \<and>
     (\<forall>m \<in> set (db_messages (cy_db s)). m_threadId m = tid \<longrightarrow> n \<le> m_seq m) \<and>
     cy_covered s \<subseteq> {n..}"

lemma since_clearingD:
  assumes "since_clearing tid n s" and "find_thread tid (cy_db s) = Some t"
  shows "compaction_ok tid s" and "n \<le> t_nextMessageSeq t" and "\<forall>j \<in> cy_jobs s. job_recent n t j"
    and "\<forall>m \<in> set (db_messages (cy_db s)). m_threadId m = tid \<longrightarrow> n \<le> m_seq m"
    and "cy_covered s \<subseteq> {n..}"
  using assms by (simp_all add: since_clearing_def)

lemma job_recent_generation:
  "t_historyCompactionGeneration t' = t_historyCompactionGeneration t \<Longrightarrow>
   job_recent n t' j = job_recent n t j"
  by (simp add: job_recent_def split: compaction_job.split)

text \<open>No job has read a generation the thread is yet to have.\<close>

lemma jobs_stale:
  assumes "job_ok tid d t j" and "t_historyCompactionGeneration t < t_historyCompactionGeneration t'"
  shows "job_recent n t' j"
  using assms by (cases j) (auto simp: job_ok_def job_recent_def read_ok_def plan_ok_def)

lemma clearing_begins:
  assumes inv: "compaction_ok tid s" and t: "find_thread tid (cy_db s) = Some t" and n: "n \<le> t_nextMessageSeq t"
    and i: "ct_threadId i = tid" and step: "clearThread_tx eid now i (cy_db s) = Inr (x, d')"
  shows "since_clearing tid n (s\<lparr>cy_db := d', cy_covered := {}\<rparr>)"
    and "generation_of tid d' \<noteq> generation_of tid (cy_db s)"
proof -
  obtain q where ok: "db_ok (cy_db s)" and q: "find_thread tid (cy_db s) = Some q"
    and jobs: "\<forall>j \<in> cy_jobs s. job_ok tid (cy_db s) q j"
    using inv by (rule compaction_okE)
  have "q = t" using t q by simp
  obtain t' where t': "find_thread tid d' = Some t'"
    "t_historyCompactionGeneration t' = t_historyCompactionGeneration t + 1"
    "t_nextMessageSeq t \<le> t_nextMessageSeq t'"
    and gone: "\<forall>m \<in> set (db_messages d'). m_threadId m \<noteq> tid"
    using clear_history [OF ok _ step] t i by auto
  show gen: "generation_of tid d' \<noteq> generation_of tid (cy_db s)"
    using t t'(1,2) by (simp add: generation_of_def)
  have d': "d' = exec_op (OpClear eid now i) (cy_db s)" by (simp add: step)
  have ok': "compaction_ok tid (s\<lparr>cy_db := d', cy_covered := {}\<rparr>)"
    using clear_keeps_compaction [OF inv i d'] gen by simp
  have "\<forall>j \<in> cy_jobs s. job_recent n t' j"
    using jobs jobs_stale t'(2) \<open>q = t\<close> by fastforce
  moreover have "n \<le> t_nextMessageSeq t'" using n t'(3) by simp
  ultimately show "since_clearing tid n (s\<lparr>cy_db := d', cy_covered := {}\<rparr>)"
    unfolding since_clearing_def using ok' t'(1) gone by auto
qed

text \<open>The new text of a summary is that of messages there are.\<close>

lemma plan_batch_members:
  assumes "compaction_plan tid r w d = Inr p"
  shows "set (pl_batch p) \<subseteq> {m \<in> set (db_messages d). m_threadId m = tid}"
proof -
  obtain batch boot k where b: "compaction_batch tid r w d = Inr (batch, boot)" "pl_batch p = take k batch"
    using plan_batch [OF assms] by metis
  show ?thesis using batch_set [OF b(1)] set_take_subset [of k batch] unfolding b(2) by blast
qed

lemma recent_other_op:
  assumes rec: "since_clearing tid n s" and d': "d' = exec_op op (cy_db s)"
    and ok': "compaction_ok tid (s\<lparr>cy_db := d',
      cy_covered := (if generation_of tid d' = generation_of tid (cy_db s) then cy_covered s else {})\<rparr>)"
  shows "since_clearing tid n (s\<lparr>cy_db := d',
      cy_covered := (if generation_of tid d' = generation_of tid (cy_db s) then cy_covered s else {})\<rparr>)"
proof -
  obtain t where t: "find_thread tid (cy_db s) = Some t" using rec by (auto simp: since_clearing_def)
  note D = since_clearingD [OF rec t]
  show ?thesis
  proof (cases "\<exists>eid now i x. op = OpClear eid now i \<and> ct_threadId i = tid \<and>
      clearThread_tx eid now i (cy_db s) = Inr (x, d')")
    case True
    then show ?thesis using clearing_begins [OF D(1) t D(2)] by auto
  next
    case False
    have "d' = cy_db s \<or> history_frame tid (compaction_state t) (t_nextMessageSeq t) (thread_seqs tid (cy_db s)) d'"
    proof (cases "\<exists>eid now i. op = OpClear eid now i \<and> ct_threadId i = tid")
      case True
      with False show ?thesis by (auto simp: d' split: sum.splits)
    next
      case False
      show ?thesis unfolding d' by (intro disjI2 frame_exec_op [OF history_frame_now [OF t]]) (use False in blast)
    qed
    then have fr: "history_frame tid (compaction_state t) (t_nextMessageSeq t) (thread_seqs tid (cy_db s)) d'"
      using history_frame_now [OF t] by blast
    then obtain t' where t': "find_thread tid d' = Some t'" "compaction_state t' = compaction_state t"
      "t_nextMessageSeq t \<le> t_nextMessageSeq t'"
      by (auto simp: history_frame_def)
    have "\<forall>j \<in> cy_jobs s. job_recent n t' j"
      using D(3) t'(2) job_recent_generation [of t' t n] by (simp add: compaction_state_def)
    moreover have "n \<le> t_nextMessageSeq t'" using D(2) t'(3) by simp
    moreover have "\<forall>m \<in> set (db_messages d'). m_threadId m = tid \<longrightarrow> n \<le> m_seq m"
      using fr D(2,4) by (force simp: history_frame_def thread_seqs_def)
    ultimately show ?thesis unfolding since_clearing_def using ok' t'(1) D(5) by auto
  qed
qed

lemma since_clearing_step:
  assumes "compaction_step tid s s'" and "since_clearing tid n s"
  shows "since_clearing tid n s'"
proof -
  obtain t where t: "find_thread tid (cy_db s) = Some t" using assms(2) by (auto simp: since_clearing_def)
  note D = since_clearingD [OF assms(2) t]
  have ok': "compaction_ok tid s'" by (rule compaction_step_ok [OF assms(1) D(1)])
  have add: "since_clearing tid n (s\<lparr>cy_jobs := insert j (cy_jobs s)\<rparr>)"
    if "job_recent n t j" "s' = s\<lparr>cy_jobs := insert j (cy_jobs s)\<rparr>" for j
    unfolding since_clearing_def using that D ok' t by simp
  show ?thesis using assms(1)
  proof (cases rule: compaction_step.cases)
    case (other_op d' op)
    show ?thesis unfolding other_op(1)
      by (rule recent_other_op [OF assms(2) other_op(2)]) (use ok' other_op(1) in simp)
  next
    case (job_reads_thread t1 r)
    with add show ?thesis using D(5) by (simp add: job_recent_def)
  next
    case (job_reads_events r c)
    with add show ?thesis using D(3) by (force simp: job_recent_def)
  next
    case (job_plans r w c p)
    have "batch_seqs p \<subseteq> {n..}"
      using plan_batch_members [OF job_plans(3)] D(4) by (auto simp: batch_seqs_def)
    with job_plans add show ?thesis using D(3) by (force simp: job_recent_def)
  next
    case (job_commits r p c events summary k d')
    have ok: "db_ok (cy_db s)" using D(1) by (simp add: compaction_ok_def)
    note run = commit_summary_run [OF ok t job_commits(4)]
    show ?thesis
    proof (cases "k = 0")
      case True
      with run(2) job_commits(1) assms(2) show ?thesis by simp
    next
      case False
      then have gen: "hr_generation r = t_historyCompactionGeneration t"
        using run(1) by (simp add: commit_matches_def)
      have p: "plan_ok tid (cy_db s) t r p c"
        using D(1) t job_commits(2) by (force simp: compaction_ok_def job_ok_def)
      note sum = summarizer_summary [OF job_commits(3)]
      obtain t' where t': "db_messages d' = db_messages (cy_db s)" "find_thread tid d' = Some t'"
        "t_nextMessageSeq t' = t_nextMessageSeq t"
        "t_historyCompactionGeneration t' = t_historyCompactionGeneration t"
        using commit_summary_ok [OF ok t p job_commits(4) _ _ False] sum by blast
      have "job_recent n t (Planned r p c)" using D(3) job_commits(2) by blast
      then have "plan_covers r p c \<subseteq> {n..}"
        using gen by (auto simp: job_recent_def plan_covers_def)
      then show ?thesis
        unfolding since_clearing_def using ok' False D t' job_recent_generation [OF t'(4)]
        by (simp add: job_commits(1))
    qed
  qed
qed

lemma since_clearing_steps:
  "(compaction_step tid)\<^sup>*\<^sup>* s s' \<Longrightarrow> since_clearing tid n s \<Longrightarrow> since_clearing tid n s'"
  by (induction rule: rtranclp_induct) (auto intro: since_clearing_step)


definition example_read :: history_read where
  "example_read = \<lparr>hr_cursor = None, hr_generation = 0, hr_summary = None\<rparr>"

definition example_plan :: batch_plan where
  "example_plan = \<lparr>pl_batch = db_messages example_db,
     pl_transcript = join_paragraphs (map transcript_part (db_messages example_db))\<rparr>"

definition example_compacted :: compaction_sys where
  "example_compacted = \<lparr>cy_db = snd (commit_summary th1 example_read 1 (js ''s'') example_db), cy_covered = {0, 1},
     cy_jobs = {Planned example_read example_plan {}, EventsRead example_read False {}, ThreadRead example_read {}}\<rparr>"

lemma example_plan_made: "compaction_plan th1 example_read False example_db = Inr example_plan"
  by code_simp

lemma example_summary: "summarizer_result [AgentDone (js ''s'')] = Inr (js ''s'')"
  by code_simp

lemma example_local: "map_option (\<lambda>t. hs_usedLocalSummary (run_history th1 t (cy_db example_compacted)))
    (find_thread th1 (cy_db example_compacted)) = Some True"
  by code_simp

lemma example_compaction_run: "(compaction_step th1)\<^sup>*\<^sup>* (compaction_begin example_db) example_compacted"
proof -
  let ?s0 = "compaction_begin example_db"
  let ?s1 = "?s0\<lparr>cy_jobs := {ThreadRead example_read {}}\<rparr>"
  let ?s2 = "?s0\<lparr>cy_jobs := {EventsRead example_read False {}, ThreadRead example_read {}}\<rparr>"
  let ?s3 = "?s0\<lparr>cy_jobs := {Planned example_read example_plan {}, EventsRead example_read False {},
    ThreadRead example_read {}}\<rparr>"
  have row: "find_thread th1 example_db = Some (hd (db_threads example_db))"
    "read_history (hd (db_threads example_db)) = Inr example_read"
    by code_simp+
  have "compaction_step th1 ?s0 ?s1"
    using compaction_step.job_reads_thread [of th1 ?s0, OF _ row(2)] row(1) by (simp add: compaction_begin_def)
  moreover have "compaction_step th1 ?s1 ?s2"
    using compaction_step.job_reads_events [of example_read "{}" ?s1 th1]
    by (simp add: compaction_begin_def was_cleared_def needsLocalBootstrap_def example_read_def)
  moreover have "compaction_step th1 ?s2 ?s3"
    using compaction_step.job_plans [of example_read False "{}" ?s2 th1 example_plan] example_plan_made
    by (simp add: compaction_begin_def)
  moreover have "compaction_step th1 ?s3 example_compacted"
  proof -
    have "commit_summary th1 example_read (m_seq (last (pl_batch example_plan))) (js ''s'') example_db =
        (1, cy_db example_compacted)"
      by code_simp
    then have "compaction_step th1 ?s3 (?s3\<lparr>cy_db := cy_db example_compacted,
        cy_covered := plan_covers example_read example_plan {}\<rparr>)"
      using compaction_step.job_commits [of example_read example_plan "{}" ?s3 _ _ th1 1, OF _ example_summary]
      by (simp add: compaction_begin_def)
    moreover have "plan_covers example_read example_plan {} = {0, 1}"
      by (simp add: plan_covers_def batch_seqs_def example_read_def example_plan_def example_defs)
    ultimately show ?thesis by (simp add: compaction_begin_def example_compacted_def)
  qed
  ultimately show ?thesis by (meson rtranclp.rtrancl_into_rtrancl rtranclp.rtrancl_refl)
qed

lemma example_starts: "compaction_start th1 example_db"
proof -
  have "find_thread th1 example_db = Some (hd (db_threads example_db))" by code_simp
  then show ?thesis
    using example_ok by (simp add: compaction_start_def example_defs trimmed_def)
qed


text \<open>The compacted thread is cleared while the job that compacted it may run again.\<close>

definition example_clearing :: clear_thread_input where
  "example_clearing = \<lparr>ct_workspaceId = ws1, ct_threadId = th1, ct_botId = bot1, ct_groupId = None\<rparr>"

lemma example_clears:
  "map_option (\<lambda>t. case clearThread_tx (js ''e9'') 20 example_clearing (cy_db example_compacted) of
      Inl e \<Rightarrow> False | Inr r \<Rightarrow> db_messages (snd r) = [])
    (find_thread th1 (cy_db example_compacted)) = Some True"
  by code_simp


end
