(* ===== verification/ScreenLease.thy ===== *)
theory ScreenLease
  imports Contracts Numbers "HOL-Library.AList"
begin

text \<open>
  Screen leases: the identifiers of \<open>packages/core/src/screen-lease.ts\<close>, which order the
  executions that use one screen, and \<open>packages/adapters/src/computer-screens.ts\<close>, the claims on
  the only screen of a computer whose provider has no more. A \<open>Map\<close> of the language is an
  association list with distinct keys. \<open>Number\<close> on the text after the last colon is the argument
  \<open>number\<close>: the integer it reads, if it reads one.
\<close>

subsection \<open>Lease identifiers\<close>

definition screenLeaseId :: "jstring \<Rightarrow> nat \<Rightarrow> jstring" where
  "screenLeaseId runId fence = runId @ js '':'' @ dec fence"

fun last_index_of :: "'a \<Rightarrow> 'a list \<Rightarrow> nat option" where
  "last_index_of c [] = None"
| "last_index_of c (x # xs) =
     (case last_index_of c xs of
        Some i \<Rightarrow> Some (Suc i)
      | None \<Rightarrow> if x = c then Some 0 else None)"

definition parseScreenLeaseId :: "(jstring \<Rightarrow> int option) \<Rightarrow> jstring \<Rightarrow> jstring \<times> int" where
  "parseScreenLeaseId number leaseId =
     (case last_index_of 58 leaseId of
        None \<Rightarrow> (leaseId, 0)
      | Some separator \<Rightarrow>
          if separator = 0 then (leaseId, 0)
          else
            (case number (drop (separator + 1) leaseId) of
               None \<Rightarrow> (leaseId, 0)
             | Some fence \<Rightarrow>
                 if fence < 0 then (leaseId, 0) else (take separator leaseId, fence)))"

definition canTakeScreenLease ::
    "(jstring \<Rightarrow> int option) \<Rightarrow> jstring option \<Rightarrow> jstring option \<Rightarrow> bool" where
  "canTakeScreenLease number existing incoming =
     (if \<not> truthy incoming then False
      else if \<not> truthy existing \<or> existing = incoming then True
      else snd (parseScreenLeaseId number (the incoming))
             > snd (parseScreenLeaseId number (the existing)))"

definition canReleaseScreenLease ::
    "(jstring \<Rightarrow> int option) \<Rightarrow> jstring option \<Rightarrow> jstring option \<Rightarrow> bool" where
  "canReleaseScreenLease number existing incoming =
     (if \<not> truthy incoming \<or> \<not> truthy existing \<or> existing = incoming then True
      else
        let current = parseScreenLeaseId number (the existing);
            incoming' = parseScreenLeaseId number (the incoming)
        in fst incoming' = fst current \<and> snd incoming' \<ge> snd current)"

lemma last_index_of_append_none: "last_index_of c ys = None \<Longrightarrow>
    last_index_of c (xs @ ys) = last_index_of c xs"
  by (induction xs) simp_all

lemma last_index_of_absent [simp]: "c \<notin> set xs \<Longrightarrow> last_index_of c xs = None"
  by (induction xs) auto

lemma last_index_of_last:
  "c \<notin> set ys \<Longrightarrow> last_index_of c (xs @ c # ys) = Some (length xs)"
  by (induction xs) simp_all

lemma colon_not_in_dec: "58 \<notin> set (dec n)"
  using dec_digits [of n] by (auto simp: list_all_iff is_digit_def)

text \<open>An identifier is read back, colons of the run included.\<close>

lemma parse_lease_id:
  assumes "runId \<noteq> []" and "number (dec fence) = Some (int fence)"
  shows "parseScreenLeaseId number (screenLeaseId runId fence) = (runId, int fence)"
proof -
  have "screenLeaseId runId fence = runId @ 58 # dec fence"
    by (simp add: screenLeaseId_def js_def)
  then show ?thesis
    using assms by (simp add: parseScreenLeaseId_def last_index_of_last colon_not_in_dec)
qed

lemma example_lease_ids:
  "parseScreenLeaseId js_number (screenLeaseId (js ''boot:abc'') 3) = (js ''boot:abc'', 3)"
  "parseScreenLeaseId js_number (js ''run-1'') = (js ''run-1'', 0)"
  by (simp add: parse_lease_id) (simp add: parseScreenLeaseId_def js_def)

subsection \<open>The fence of a lease\<close>

definition lease_fence :: "(jstring \<Rightarrow> int option) \<Rightarrow> jstring option \<Rightarrow> int" where
  "lease_fence number l = (if truthy l then snd (parseScreenLeaseId number (the l)) else -1)"

lemma parse_fence_nonneg: "0 \<le> snd (parseScreenLeaseId number s)"
  by (simp add: parseScreenLeaseId_def split: option.splits)

lemma lease_fence_lower: "-1 \<le> lease_fence number l"
  using parse_fence_nonneg [of number "the l"] by (simp add: lease_fence_def)

lemma take_raises_fence:
  "canTakeScreenLease number l l' \<Longrightarrow> lease_fence number l \<le> lease_fence number l'"
  using lease_fence_lower [of number l']
  by (auto simp: canTakeScreenLease_def lease_fence_def split: if_splits)

lemma take_truthy: "canTakeScreenLease number l l' \<Longrightarrow> truthy l'"
  by (simp add: canTakeScreenLease_def split: if_splits)

lemma take_unowned: "\<not> truthy l \<Longrightarrow> canTakeScreenLease number l l' \<longleftrightarrow> truthy l'"
  by (simp add: canTakeScreenLease_def)

lemma take_distinct_fence:
  "canTakeScreenLease number l l' \<Longrightarrow> truthy l \<Longrightarrow> l \<noteq> l' \<Longrightarrow>
   lease_fence number l < lease_fence number l'"
  by (simp add: canTakeScreenLease_def lease_fence_def split: if_splits)

subsection \<open>Claims on a single screen\<close>

datatype screen_error = ComputerScreenUnavailable | ScreenReleasing | OwnedByNewer | NoScreenLeft nat
  | ScreenIndexOutOfRange int

record screen_owner =
  so_screenKey :: jstring
  so_leaseId :: "jstring option"

type_synonym owners = "(jstring \<times> screen_owner) list"

record screen_context =
  sc_botId :: "jstring option"
  sc_screenLeaseId :: "jstring option"

definition screenSessionKey :: "screen_context \<Rightarrow> jstring" where
  "screenSessionKey context = (case sc_botId context of Some b \<Rightarrow> b | None \<Rightarrow> js ''default'')"

definition claim_single ::
    "(jstring \<Rightarrow> int option) \<Rightarrow> jstring \<Rightarrow> screen_context \<Rightarrow> owners \<Rightarrow> screen_error + owners" where
  "claim_single number computerId context owners =
     (let key = screenSessionKey context;
          owner = map_of owners computerId;
          held = (case owner of Some w \<Rightarrow> so_leaseId w | None \<Rightarrow> None);
          asked = sc_screenLeaseId context
      in if owner \<noteq> None \<and> so_screenKey (the owner) \<noteq> key then Inl ComputerScreenUnavailable
         else if owner \<noteq> None \<and> \<not> canTakeScreenLease number held asked \<and>
                 truthy asked \<and> truthy held \<and> asked \<noteq> held
         then Inl ComputerScreenUnavailable
         else Inr (AList.update computerId
                (\<lparr>so_screenKey = key,
                  so_leaseId = (if canTakeScreenLease number held asked then asked
                                else if held \<noteq> None then held else asked)\<rparr>) owners))"

definition release_single ::
    "(jstring \<Rightarrow> int option) \<Rightarrow> jstring \<Rightarrow> screen_context option \<Rightarrow> owners \<Rightarrow> owners" where
  "release_single number computerId context owners =
     (case context of
        None \<Rightarrow> AList.delete computerId owners
      | Some c \<Rightarrow>
          (case map_of owners computerId of
             None \<Rightarrow> owners
           | Some w \<Rightarrow>
               if so_screenKey w = screenSessionKey c \<and>
                  canReleaseScreenLease number (so_leaseId w) (sc_screenLeaseId c)
               then AList.delete computerId owners else owners))"

lemma map_of_alist_delete: "map_of (AList.delete k m) k' = (if k' = k then None else map_of m k')"
  by (simp add: AList.delete_conv')

lemma map_of_alist_update:
  "map_of (AList.update k v m) k' = (if k' = k then Some v else map_of m k')"
  by (simp add: AList.update_conv')

text \<open>
  While a bot holds the screen no other bot gets it, and a claim of its own keeps or raises the
  fence: a delayed execution never takes the screen back from a newer one.
\<close>

lemma claim_keeps_owner:
  assumes held: "map_of ws c = Some w" and ok: "claim_single number c x ws = Inr ws'"
  shows "\<exists>w'. map_of ws' c = Some w' \<and> so_screenKey w' = so_screenKey w \<and>
              lease_fence number (so_leaseId w) \<le> lease_fence number (so_leaseId w')"
proof -
  have key: "so_screenKey w = screenSessionKey x"
    using held ok by (auto simp: claim_single_def Let_def split: if_splits)
  let ?l = "so_leaseId w" and ?a = "sc_screenLeaseId x"
  have eq: "ws' = AList.update c \<lparr>so_screenKey = screenSessionKey x,
      so_leaseId = (if canTakeScreenLease number ?l ?a then ?a else if ?l \<noteq> None then ?l else ?a)\<rparr> ws"
    using held ok by (auto simp: claim_single_def Let_def split: if_splits)
  have "lease_fence number ?l \<le> lease_fence number
      (if canTakeScreenLease number ?l ?a then ?a else if ?l \<noteq> None then ?l else ?a)"
    using take_raises_fence [of number ?l ?a] lease_fence_lower [of number ?a]
    by (auto simp: lease_fence_def)
  with eq key show ?thesis by (simp add: map_of_alist_update)
qed

lemma claim_of_other_fails:
  "map_of ws c = Some w \<Longrightarrow> so_screenKey w \<noteq> screenSessionKey x \<Longrightarrow>
   claim_single number c x ws = Inl ComputerScreenUnavailable"
  by (simp add: claim_single_def Let_def)

lemma release_of_other_keeps:
  "map_of ws c = Some w \<Longrightarrow> so_screenKey w \<noteq> screenSessionKey x \<Longrightarrow>
   release_single number c (Some x) ws = ws"
  by (simp add: release_single_def)

lemma stale_release_keeps:
  assumes "map_of ws c = Some w" and "truthy (so_leaseId w)" and "truthy (sc_screenLeaseId x)"
    and "lease_fence number (sc_screenLeaseId x) < lease_fence number (so_leaseId w)"
  shows "release_single number c (Some x) ws = ws"
  using assms by (auto simp: release_single_def canReleaseScreenLease_def lease_fence_def Let_def)

end
