(* ===== verification/SandboxScreens.thy ===== *)
theory SandboxScreens
  imports ScreenLease
begin

text \<open>
  The screens of a team computer, \<open>infra/sandboxes/supervisor/src\<close>: \<open>supervisor-logic.ts\<close>
  assigns each bot a screen index, \<open>computer-spec.ts\<close> gives an index its display and ports, and
  \<open>index.ts\<close> keeps the registry of assignments. The maps of the registry are shared: a request
  that waits for a command in the container goes on with the map it found before, whatever the
  registry holds by then. They live in a store, a list of maps addressed by their position.
\<close>

subsection \<open>Indexes, displays and ports\<close>

definition TEAM_SCREEN_LIMIT :: nat where "TEAM_SCREEN_LIMIT = 8"

record screen_layout =
  ly_display :: jstring
  ly_displayNumber :: nat
  ly_viewPort :: jstring
  ly_controlPort :: jstring
  ly_viewVncPort :: nat
  ly_controlVncPort :: nat

definition screenPorts :: "nat \<Rightarrow> screen_error + screen_layout" where
  "screenPorts index =
     (if index \<ge> TEAM_SCREEN_LIMIT then Inl (ScreenIndexOutOfRange (int index))
      else Inr \<lparr>ly_display = js '':'' @ dec (index + 1),
                ly_displayNumber = index + 1,
                ly_viewPort = dec (6080 + index * 2),
                ly_controlPort = dec (6081 + index * 2),
                ly_viewVncPort = 5900 + index * 2,
                ly_controlVncPort = 5901 + index * 2\<rparr>)"

text \<open>Everything of a layout that two screens of one computer would fight over.\<close>

definition layout_ports :: "screen_layout \<Rightarrow> jstring list" where
  "layout_ports l = [ly_viewPort l, ly_controlPort l, dec (ly_viewVncPort l), dec (ly_controlVncPort l)]"

lemma screenPorts_ok: "index < TEAM_SCREEN_LIMIT \<Longrightarrow> \<exists>l. screenPorts index = Inr l"
  by (simp add: screenPorts_def)

lemma screenPorts_disjoint:
  assumes "screenPorts i = Inr a" and "screenPorts j = Inr b" and "i \<noteq> j"
  shows "ly_display a \<noteq> ly_display b" and "set (layout_ports a) \<inter> set (layout_ports b) = {}"
proof -
  have ij: "i < 8" "j < 8"
    using assms by (auto simp: screenPorts_def TEAM_SCREEN_LIMIT_def split: if_splits)
  have a: "a = \<lparr>ly_display = js '':'' @ dec (i + 1), ly_displayNumber = i + 1,
      ly_viewPort = dec (6080 + i * 2), ly_controlPort = dec (6081 + i * 2),
      ly_viewVncPort = 5900 + i * 2, ly_controlVncPort = 5901 + i * 2\<rparr>"
    and b: "b = \<lparr>ly_display = js '':'' @ dec (j + 1), ly_displayNumber = j + 1,
      ly_viewPort = dec (6080 + j * 2), ly_controlPort = dec (6081 + j * 2),
      ly_viewVncPort = 5900 + j * 2, ly_controlVncPort = 5901 + j * 2\<rparr>"
    using assms by (simp_all add: screenPorts_def split: if_splits)
  show "ly_display a \<noteq> ly_display b" using \<open>i \<noteq> j\<close> by (simp add: a b)
  have "6080 + i * 2 \<noteq> 6081 + j * 2" "6081 + i * 2 \<noteq> 6080 + j * 2"
    "5900 + i * 2 \<noteq> 5901 + j * 2" "5901 + i * 2 \<noteq> 5900 + j * 2"
    by presburger+
  with \<open>i \<noteq> j\<close> ij show "set (layout_ports a) \<inter> set (layout_ports b) = {}"
    by (simp add: a b layout_ports_def)
qed

subsection \<open>Assignments of one computer\<close>

record screen_assignment =
  sa_index :: nat
  sa_leaseId :: "jstring option"
  sa_releasing :: bool

type_synonym assignments = "(jstring \<times> screen_assignment) list"

definition used_indexes :: "assignments \<Rightarrow> nat list" where
  "used_indexes assigned = map (\<lambda>entry. sa_index (snd entry)) assigned"

definition nextScreenIndex ::
    "(jstring \<Rightarrow> int option) \<Rightarrow> nat \<Rightarrow> jstring \<Rightarrow> jstring option \<Rightarrow> assignments \<Rightarrow>
     screen_error + nat \<times> assignments" where
  "nextScreenIndex number limit screenId leaseId assigned =
     (case map_of assigned screenId of
        Some existing \<Rightarrow>
          if sa_releasing existing then Inl ScreenReleasing
          else if truthy leaseId \<and> truthy (sa_leaseId existing) \<and> sa_leaseId existing \<noteq> leaseId \<and>
                  \<not> canTakeScreenLease number (sa_leaseId existing) leaseId
          then Inl OwnedByNewer
          else Inr (sa_index existing,
                 if truthy leaseId \<and> canTakeScreenLease number (sa_leaseId existing) leaseId
                 then AList.update screenId (existing\<lparr>sa_leaseId := leaseId\<rparr>) assigned
                 else assigned)
      | None \<Rightarrow>
          (case List.find (\<lambda>index. index \<notin> set (used_indexes assigned)) [0..<limit] of
             None \<Rightarrow> Inl (NoScreenLeft limit)
           | Some index \<Rightarrow>
               Inr (index, AList.update screenId
                 \<lparr>sa_index = index, sa_leaseId = leaseId, sa_releasing = False\<rparr> assigned)))"

definition releaseAssignedScreen ::
    "(jstring \<Rightarrow> int option) \<Rightarrow> jstring \<Rightarrow> jstring option \<Rightarrow> assignments \<Rightarrow>
     nat option \<times> assignments" where
  "releaseAssignedScreen number screenId leaseId assigned =
     (case map_of assigned screenId of
        None \<Rightarrow> (None, assigned)
      | Some slot \<Rightarrow>
          if sa_releasing slot \<or>
             (truthy leaseId \<and> \<not> canReleaseScreenLease number (sa_leaseId slot) leaseId)
          then (None, assigned)
          else (Some (sa_index slot),
                AList.update screenId (slot\<lparr>sa_releasing := True\<rparr>) assigned))"

definition completeReleasedScreen :: "jstring \<Rightarrow> nat \<Rightarrow> assignments \<Rightarrow> assignments" where
  "completeReleasedScreen screenId index assigned =
     (case map_of assigned screenId of
        None \<Rightarrow> assigned
      | Some slot \<Rightarrow>
          if sa_releasing slot \<and> sa_index slot = index then AList.delete screenId assigned
          else assigned)"

text \<open>The invariant of an assignment map: one entry for a screen, one screen for an index.\<close>

definition assigned_ok :: "nat \<Rightarrow> assignments \<Rightarrow> bool" where
  "assigned_ok limit assigned \<longleftrightarrow>
     distinct (map fst assigned) \<and> distinct (used_indexes assigned) \<and>
     list_all (\<lambda>i. i < limit) (used_indexes assigned)"

lemma assigned_ok_Nil [simp]: "assigned_ok limit []"
  by (simp add: assigned_ok_def used_indexes_def)

lemma used_append: "used_indexes (xs @ ys) = used_indexes xs @ used_indexes ys"
  by (simp add: used_indexes_def)

lemma update_fresh: "map_of m k = None \<Longrightarrow> AList.update k v m = m @ [(k, v)]"
  by (induction m) (auto split: if_splits)

lemma used_update_same:
  "map_of m k = Some v \<Longrightarrow> sa_index v' = sa_index v \<Longrightarrow>
   used_indexes (AList.update k v' m) = used_indexes m"
  by (induction m) (auto simp: used_indexes_def split: if_splits)

lemma assigned_ok_update_same:
  "assigned_ok limit m \<Longrightarrow> map_of m k = Some v \<Longrightarrow> sa_index v' = sa_index v \<Longrightarrow>
   assigned_ok limit (AList.update k v' m)"
  by (simp add: assigned_ok_def used_update_same AList.distinct_update)

lemma assigned_ok_add:
  "assigned_ok limit m \<Longrightarrow> map_of m k = None \<Longrightarrow> i \<notin> set (used_indexes m) \<Longrightarrow> i < limit \<Longrightarrow>
   sa_index v = i \<Longrightarrow> assigned_ok limit (AList.update k v m)"
  by (auto simp: assigned_ok_def update_fresh used_append map_of_eq_None_iff)
    (auto simp: used_indexes_def)

lemma assigned_ok_delete: "assigned_ok limit m \<Longrightarrow> assigned_ok limit (AList.delete k m)"
  by (auto simp: assigned_ok_def used_indexes_def AList.delete_eq distinct_map_filter list_all_iff)

lemma assigned_ok_index:
  "assigned_ok limit m \<Longrightarrow> map_of m k = Some v \<Longrightarrow> sa_index v < limit"
  by (auto simp: assigned_ok_def used_indexes_def list_all_iff dest!: map_of_SomeD)

lemma assigned_ok_distinct:
  assumes "assigned_ok limit m" and "map_of m k = Some v" and "map_of m k' = Some v'" and "k \<noteq> k'"
  shows "sa_index v \<noteq> sa_index v'"
proof
  assume eq: "sa_index v = sa_index v'"
  have "inj_on (\<lambda>entry. sa_index (snd entry)) (set m)"
    using assms(1) by (simp add: assigned_ok_def used_indexes_def distinct_map)
  moreover have "(k, v) \<in> set m" "(k', v') \<in> set m"
    using assms(2,3) by (auto dest: map_of_SomeD)
  ultimately have "(k, v) = (k', v')" using eq unfolding inj_on_def by fastforce
  with \<open>k \<noteq> k'\<close> show False by simp
qed

lemma next_index_ok:
  assumes ok: "assigned_ok limit m" and r: "nextScreenIndex number limit k l m = Inr (i, m')"
  shows "assigned_ok limit m'" and "\<exists>v. map_of m' k = Some v \<and> sa_index v = i \<and> \<not> sa_releasing v"
proof -
  show "assigned_ok limit m'"
  proof (cases "map_of m k")
    case None
    then obtain j where f: "List.find (\<lambda>index. index \<notin> set (used_indexes m)) [0..<limit] = Some j"
        and m': "m' = AList.update k \<lparr>sa_index = j, sa_leaseId = l, sa_releasing = False\<rparr> m"
      using r by (auto simp: nextScreenIndex_def split: option.splits)
    from find_SomeD [OF f] None ok show ?thesis
      unfolding m' by (intro assigned_ok_add) auto
  next
    case (Some v)
    then show ?thesis
      using r ok by (auto simp: nextScreenIndex_def split: if_splits intro!: assigned_ok_update_same)
  qed
  show "\<exists>v. map_of m' k = Some v \<and> sa_index v = i \<and> \<not> sa_releasing v"
    using r by (auto simp: nextScreenIndex_def map_of_alist_update split: option.splits if_splits)
qed

lemma next_index_others:
  "nextScreenIndex number limit k l m = Inr (i, m') \<Longrightarrow> k' \<noteq> k \<Longrightarrow> map_of m' k' = map_of m k'"
  by (auto simp: nextScreenIndex_def map_of_alist_update split: option.splits if_splits)

lemma release_ok:
  "assigned_ok limit m \<Longrightarrow> assigned_ok limit (snd (releaseAssignedScreen number k l m))"
  by (auto simp: releaseAssignedScreen_def split: option.splits intro!: assigned_ok_update_same)

lemma complete_ok: "assigned_ok limit m \<Longrightarrow> assigned_ok limit (completeReleasedScreen k i m)"
  by (auto simp: completeReleasedScreen_def assigned_ok_delete split: option.splits)

lemma next_index_fence:
  assumes "map_of m k = Some v" and "nextScreenIndex number limit k l m = Inr (i, m')"
  shows "\<exists>v'. map_of m' k = Some v' \<and> sa_index v' = sa_index v \<and>
              lease_fence number (sa_leaseId v) \<le> lease_fence number (sa_leaseId v')"
  using assms take_raises_fence [of number "sa_leaseId v" l]
  by (auto simp: nextScreenIndex_def map_of_alist_update split: if_splits)

text \<open>
  A delayed request of an older execution gets nothing: asking for the screen is refused and
  giving it back changes nothing, once the screen belongs to a lease with a higher fence.
\<close>

lemma stale_request_refused:
  assumes "map_of m k = Some v" and "truthy (sa_leaseId v)" and "truthy l"
    and "lease_fence number l < lease_fence number (sa_leaseId v)"
  shows "\<exists>e. nextScreenIndex number limit k l m = Inl e"
    and "releaseAssignedScreen number k l m = (None, m)"
proof -
  have ne: "sa_leaseId v \<noteq> l" using assms(4) by auto
  have "\<not> canTakeScreenLease number (sa_leaseId v) l"
    using assms(4) take_raises_fence [of number "sa_leaseId v" l] by auto
  with assms ne show "\<exists>e. nextScreenIndex number limit k l m = Inl e"
    by (simp add: nextScreenIndex_def)
  have "\<not> canReleaseScreenLease number (sa_leaseId v) l"
    using assms ne by (auto simp: canReleaseScreenLease_def lease_fence_def Let_def)
  with assms show "releaseAssignedScreen number k l m = (None, m)"
    by (simp add: releaseAssignedScreen_def)
qed

subsection \<open>The registry of the supervisor\<close>

record supervisor =
  sv_registry :: "(jstring \<times> nat) list"
  sv_maps :: "assignments list"
  sv_ensuring :: "(nat \<times> jstring \<times> nat) list"
  sv_stopping :: "(jstring \<times> nat \<times> jstring \<times> nat) list"

definition new_supervisor :: supervisor where
  "new_supervisor = \<lparr>sv_registry = [], sv_maps = [], sv_ensuring = [], sv_stopping = []\<rparr>"

definition clearComputerScreenRegistry :: "jstring \<Rightarrow> supervisor \<Rightarrow> supervisor" where
  "clearComputerScreenRegistry containerId sv =
     sv\<lparr>sv_registry := AList.delete containerId (sv_registry sv)\<rparr>"

definition screen_key :: "jstring option \<Rightarrow> jstring option \<Rightarrow> jstring \<Rightarrow> jstring" where
  "screen_key screenId botId computerId =
     (if truthy screenId then the screenId else if truthy botId then the botId else computerId)"

definition set_map :: "nat \<Rightarrow> assignments \<Rightarrow> supervisor \<Rightarrow> supervisor" where
  "set_map ref m sv = sv\<lparr>sv_maps := (sv_maps sv)[ref := m]\<rparr>"

text \<open>The map of a computer, a new one when the registry holds none.\<close>

definition open_map :: "jstring \<Rightarrow> supervisor \<Rightarrow> nat \<times> supervisor" where
  "open_map computerId sv =
     (case map_of (sv_registry sv) computerId of
        Some ref \<Rightarrow> (ref, sv)
      | None \<Rightarrow>
          (length (sv_maps sv),
           sv\<lparr>sv_maps := sv_maps sv @ [[]],
              sv_registry := AList.update computerId (length (sv_maps sv)) (sv_registry sv)\<rparr>))"

text \<open>
  \<open>managedScreen\<close> up to its first command in the container, and what follows the command: the
  layout when the screen is up, the assignment dropped when it is not.
\<close>

definition managedScreen_begin ::
    "(jstring \<Rightarrow> int option) \<Rightarrow> jstring \<Rightarrow> jstring \<Rightarrow> jstring option \<Rightarrow> supervisor \<Rightarrow>
     (screen_error + nat \<times> jstring \<times> nat) \<times> supervisor" where
  "managedScreen_begin number computerId key leaseId sv =
     (let (ref, sv1) = open_map computerId sv in
      case nextScreenIndex number TEAM_SCREEN_LIMIT key leaseId (sv_maps sv1 ! ref) of
        Inl e \<Rightarrow> (Inl e, sv1)
      | Inr (index, m) \<Rightarrow>
          (case screenPorts index of
             Inl e \<Rightarrow> (Inl e, set_map ref m sv1)
           | Inr layout \<Rightarrow> (Inr (ref, key, index), set_map ref m sv1)))"

definition managedScreen_end :: "bool \<Rightarrow> nat \<times> jstring \<times> nat \<Rightarrow> supervisor \<Rightarrow>
    screen_layout option \<times> supervisor" where
  "managedScreen_end ensured request sv =
     (case request of (ref, key, index) \<Rightarrow>
        if ensured
        then (case screenPorts index of Inl _ \<Rightarrow> None | Inr layout \<Rightarrow> Some layout, sv)
        else (None, set_map ref (AList.delete key (sv_maps sv ! ref)) sv))"

text \<open>
  The release of a screen: the screen is marked, the processes of an extra screen are stopped, then
  the entry goes, and a map without entries leaves the registry.
\<close>

definition release_end ::
    "jstring \<Rightarrow> nat \<Rightarrow> jstring \<Rightarrow> nat option \<Rightarrow> supervisor \<Rightarrow> supervisor" where
  "release_end computerId ref key index sv =
     (let m = (case index of
                 None \<Rightarrow> sv_maps sv ! ref
               | Some i \<Rightarrow> completeReleasedScreen key i (sv_maps sv ! ref));
          sv1 = set_map ref m sv
      in if m = [] then sv1\<lparr>sv_registry := AList.delete computerId (sv_registry sv1)\<rparr> else sv1)"

definition release_begin ::
    "(jstring \<Rightarrow> int option) \<Rightarrow> jstring \<Rightarrow> jstring \<Rightarrow> jstring option \<Rightarrow> supervisor \<Rightarrow>
     supervisor" where
  "release_begin number computerId key leaseId sv =
     (case map_of (sv_registry sv) computerId of
        None \<Rightarrow> sv
      | Some ref \<Rightarrow>
          (case releaseAssignedScreen number key leaseId (sv_maps sv ! ref) of
             (index, m) \<Rightarrow>
               (case index of
                  Some (Suc i) \<Rightarrow>
                    (set_map ref m sv)
                      \<lparr>sv_stopping := (computerId, ref, key, Suc i) # sv_stopping sv\<rparr>
                | _ \<Rightarrow> release_end computerId ref key index (set_map ref m sv))))"

text \<open>The assignment a command of \<open>/exec\<close> looks up, and the display it runs on.\<close>

definition screen_of :: "supervisor \<Rightarrow> jstring \<Rightarrow> jstring \<Rightarrow> screen_assignment option" where
  "screen_of sv computerId key =
     (case map_of (sv_registry sv) computerId of
        None \<Rightarrow> None
      | Some ref \<Rightarrow> map_of (sv_maps sv ! ref) key)"

definition exec_layout :: "supervisor \<Rightarrow> jstring \<Rightarrow> jstring \<Rightarrow> screen_error + screen_layout" where
  "exec_layout sv computerId key =
     screenPorts (case screen_of sv computerId key of None \<Rightarrow> 0 | Some slot \<Rightarrow> sa_index slot)"

text \<open>What requests do to the registry, each step one turn of the event loop.\<close>

inductive supervisor_step :: "(jstring \<Rightarrow> int option) \<Rightarrow> supervisor \<Rightarrow> supervisor \<Rightarrow> bool"
  for number where
  refused: "managedScreen_begin number c (screen_key screenId botId c) l sv = (Inl e, sv') \<Longrightarrow>
     supervisor_step number sv sv'"
| asked: "managedScreen_begin number c (screen_key screenId botId c) l sv = (Inr request, sv') \<Longrightarrow>
     supervisor_step number sv (sv'\<lparr>sv_ensuring := request # sv_ensuring sv'\<rparr>)"
| ensured: "sv_ensuring sv = before @ request # after \<Longrightarrow>
     managedScreen_end ok request (sv\<lparr>sv_ensuring := before @ after\<rparr>) = (answer, sv') \<Longrightarrow>
     supervisor_step number sv sv'"
| released: "release_begin number c (screen_key screenId botId c) l sv = sv' \<Longrightarrow>
     supervisor_step number sv sv'"
| stopped: "sv_stopping sv = before @ (c, ref, key, i) # after \<Longrightarrow>
     release_end c ref key (Some i) (sv\<lparr>sv_stopping := before @ after\<rparr>) = sv' \<Longrightarrow>
     supervisor_step number sv sv'"
| cleared: "supervisor_step number sv (clearComputerScreenRegistry c sv)"

inductive_cases supervisor_stepE: "supervisor_step number sv sv'"

subsection \<open>Assignments stay disjoint\<close>

definition supervisor_ok :: "supervisor \<Rightarrow> bool" where
  "supervisor_ok sv \<longleftrightarrow>
     list_all (assigned_ok TEAM_SCREEN_LIMIT) (sv_maps sv) \<and>
     list_all (\<lambda>entry. snd entry < length (sv_maps sv)) (sv_registry sv) \<and>
     list_all (\<lambda>request. fst request < length (sv_maps sv)) (sv_ensuring sv) \<and>
     list_all (\<lambda>entry. fst (snd entry) < length (sv_maps sv)) (sv_stopping sv)"

lemma supervisor_ok_new: "supervisor_ok new_supervisor"
  by (simp add: supervisor_ok_def new_supervisor_def)

lemma supervisor_ok_set_map:
  "supervisor_ok sv \<Longrightarrow> assigned_ok TEAM_SCREEN_LIMIT m \<Longrightarrow> supervisor_ok (set_map ref m sv)"
  by (auto simp: supervisor_ok_def set_map_def list_all_iff dest: set_update_subset_insert [THEN subsetD])

lemma supervisor_ok_map:
  "supervisor_ok sv \<Longrightarrow> ref < length (sv_maps sv) \<Longrightarrow>
   assigned_ok TEAM_SCREEN_LIMIT (sv_maps sv ! ref)"
  by (simp add: supervisor_ok_def list_all_length)

lemma supervisor_ok_ref:
  "supervisor_ok sv \<Longrightarrow> map_of (sv_registry sv) c = Some ref \<Longrightarrow> ref < length (sv_maps sv)"
  by (auto simp: supervisor_ok_def list_all_iff dest!: map_of_SomeD)

lemma supervisor_ok_forget:
  "supervisor_ok sv \<Longrightarrow> supervisor_ok (sv\<lparr>sv_registry := AList.delete c (sv_registry sv)\<rparr>)"
  by (auto simp: supervisor_ok_def list_all_iff AList.delete_eq)

lemma set_alist_update: "set (AList.update k v m) \<subseteq> insert (k, v) (set m)"
  by (induction m) auto

lemma open_map_ok:
  assumes "supervisor_ok sv" and "open_map c sv = (ref, sv1)"
  shows "supervisor_ok sv1 \<and> ref < length (sv_maps sv1)"
proof (cases "map_of (sv_registry sv) c")
  case None
  then show ?thesis
    using assms set_alist_update [of c "length (sv_maps sv)" "sv_registry sv"]
    by (fastforce simp: open_map_def supervisor_ok_def list_all_iff)
next
  case (Some r)
  then show ?thesis
    using assms supervisor_ok_ref [of sv c r] by (auto simp: open_map_def)
qed

lemma managedScreen_begin_ok:
  assumes "supervisor_ok sv" and "managedScreen_begin number c k l sv = (r, sv')"
  shows "supervisor_ok sv' \<and>
         (\<forall>request. r = Inr request \<longrightarrow> fst request < length (sv_maps sv'))"
proof -
  obtain ref sv1 where o: "open_map c sv = (ref, sv1)" by fastforce
  from open_map_ok [OF assms(1) o] have ok: "supervisor_ok sv1" and ref: "ref < length (sv_maps sv1)"
    by auto
  note m = supervisor_ok_map [OF ok ref]
  from assms(2) show ?thesis
    using ok ref next_index_ok(1) [OF m, of number k l] supervisor_ok_set_map [OF ok]
    by (auto simp: managedScreen_begin_def o set_map_def split: sum.splits)
qed

lemma managedScreen_end_ok:
  assumes "supervisor_ok sv" and "fst request < length (sv_maps sv)"
    and "managedScreen_end ok request sv = (answer, sv')"
  shows "supervisor_ok sv'"
  using assms assigned_ok_delete [OF supervisor_ok_map [OF assms(1,2)]]
  by (auto simp: managedScreen_end_def supervisor_ok_set_map split: prod.splits if_splits)

lemma release_end_ok:
  assumes "supervisor_ok sv" and "ref < length (sv_maps sv)"
  shows "supervisor_ok (release_end c ref k index sv)"
  using assms supervisor_ok_map [OF assms] supervisor_ok_forget [OF supervisor_ok_set_map [OF assms(1)]]
  by (auto simp: release_end_def Let_def supervisor_ok_set_map complete_ok split: option.splits)

lemma release_begin_ok:
  assumes ok: "supervisor_ok sv"
  shows "supervisor_ok (release_begin number c k l sv)"
proof (cases "map_of (sv_registry sv) c")
  case (Some ref)
  have ref: "ref < length (sv_maps sv)" using ok Some by (rule supervisor_ok_ref)
  obtain index m where r: "releaseAssignedScreen number k l (sv_maps sv ! ref) = (index, m)"
    by fastforce
  have "assigned_ok TEAM_SCREEN_LIMIT m"
    using release_ok [OF supervisor_ok_map [OF ok ref], of number k l] by (simp add: r)
  then have set: "supervisor_ok (set_map ref m sv)" by (rule supervisor_ok_set_map [OF ok])
  have len: "ref < length (sv_maps (set_map ref m sv))" using ref by (simp add: set_map_def)
  have push: "supervisor_ok ((set_map ref m sv)\<lparr>sv_stopping := (c, ref, k, i) # sv_stopping sv\<rparr>)" for i
    using set len ok by (simp add: supervisor_ok_def set_map_def)
  show ?thesis
    using release_end_ok [OF set len] push
    by (auto simp: release_begin_def Some r split: option.splits nat.splits)
qed (simp add: release_begin_def ok)

lemma supervisor_step_ok:
  assumes "supervisor_step number sv sv'" and ok: "supervisor_ok sv"
  shows "supervisor_ok sv'"
  using assms(1)
proof cases
  case (refused c screenId botId l e)
  then show ?thesis using managedScreen_begin_ok [OF ok] by blast
next
  case (asked c screenId botId l request sv1)
  then have "supervisor_ok sv1" "fst request < length (sv_maps sv1)"
    using managedScreen_begin_ok [OF ok asked(2)] by auto
  then show ?thesis by (simp add: asked(1) supervisor_ok_def)
next
  case (ensured before request after ok' answer)
  have "supervisor_ok (sv\<lparr>sv_ensuring := before @ after\<rparr>)" "fst request < length (sv_maps sv)"
    using ok by (simp_all add: supervisor_ok_def ensured(1))
  then show ?thesis using managedScreen_end_ok [OF _ _ ensured(2)] by simp
next
  case (released c screenId botId l)
  then show ?thesis using release_begin_ok [OF ok] by blast
next
  case (stopped before c ref key i after)
  have "supervisor_ok (sv\<lparr>sv_stopping := before @ after\<rparr>)" "ref < length (sv_maps sv)"
    using ok by (simp_all add: supervisor_ok_def stopped(1))
  then show ?thesis using release_end_ok [of "sv\<lparr>sv_stopping := before @ after\<rparr>" ref c key "Some i"]
    by (simp add: stopped(2) [symmetric])
next
  case (cleared c)
  then show ?thesis by (simp add: clearComputerScreenRegistry_def supervisor_ok_forget ok)
qed

lemma supervisor_reachable_ok:
  "(supervisor_step number)\<^sup>*\<^sup>* new_supervisor sv \<Longrightarrow> supervisor_ok sv"
  by (induction rule: rtranclp_induct) (auto intro: supervisor_ok_new supervisor_step_ok)

lemma screen_of_ok:
  assumes "supervisor_ok sv" and "screen_of sv c k = Some a"
  shows "\<exists>l. screenPorts (sa_index a) = Inr l \<and> exec_layout sv c k = Inr l"
proof -
  obtain ref where ref: "map_of (sv_registry sv) c = Some ref" "map_of (sv_maps sv ! ref) k = Some a"
    using assms(2) by (auto simp: screen_of_def split: option.splits)
  have "sa_index a < TEAM_SCREEN_LIMIT"
    using assigned_ok_index [OF supervisor_ok_map [OF assms(1) supervisor_ok_ref [OF assms(1) ref(1)]] ref(2)] .
  then show ?thesis using screenPorts_ok by (simp add: exec_layout_def assms(2))
qed

text \<open>
  C30. Two screens of a team computer never collide: in every interleaving of requests that ask for
  a screen, wait for it, find it broken, give it back, or stop the computer, two different screens
  assigned on one computer have layouts of their own, with different displays and no port in
  common; this includes a screen that is still being released, and the commands each of them runs
  go to its own display.
\<close>

theorem team_screens_do_not_collide:
  assumes "(supervisor_step number)\<^sup>*\<^sup>* new_supervisor sv"
    and "screen_of sv computer k = Some a" and "screen_of sv computer k' = Some b" and "k \<noteq> k'"
  shows "\<exists>la lb. exec_layout sv computer k = Inr la \<and> exec_layout sv computer k' = Inr lb \<and>
           screenPorts (sa_index a) = Inr la \<and> screenPorts (sa_index b) = Inr lb \<and>
           ly_display la \<noteq> ly_display lb \<and> set (layout_ports la) \<inter> set (layout_ports lb) = {}"
proof -
  have ok: "supervisor_ok sv" using assms(1) by (rule supervisor_reachable_ok)
  obtain ref where reg: "map_of (sv_registry sv) computer = Some ref"
    and m: "map_of (sv_maps sv ! ref) k = Some a" "map_of (sv_maps sv ! ref) k' = Some b"
    using assms(2,3) by (auto simp: screen_of_def split: option.splits)
  have "sa_index a \<noteq> sa_index b"
    using assigned_ok_distinct [OF supervisor_ok_map [OF ok supervisor_ok_ref [OF ok reg]] m \<open>k \<noteq> k'\<close>] .
  then show ?thesis
    using screen_of_ok [OF ok assms(2)] screen_of_ok [OF ok assms(3)] screenPorts_disjoint by blast
qed

subsection \<open>Two bots on one computer\<close>

definition ask_screen :: "jstring \<Rightarrow> jstring option \<Rightarrow> supervisor \<Rightarrow> supervisor" where
  "ask_screen key l sv =
     (case managedScreen_begin js_number (js ''pc'') key l sv of
        (Inl e, sv') \<Rightarrow> sv'
      | (Inr request, sv') \<Rightarrow> sv'\<lparr>sv_ensuring := request # sv_ensuring sv'\<rparr>)"

definition answer_screen :: "bool \<Rightarrow> supervisor \<Rightarrow> screen_layout option \<times> supervisor" where
  "answer_screen ok sv =
     managedScreen_end ok (hd (sv_ensuring sv)) (sv\<lparr>sv_ensuring := tl (sv_ensuring sv)\<rparr>)"

lemma ask_step:
  assumes "key \<noteq> []"
  shows "supervisor_step js_number sv (ask_screen key l sv)"
proof -
  have key: "screen_key (Some key) None (js ''pc'') = key" using assms by (simp add: screen_key_def)
  obtain r sv' where r: "managedScreen_begin js_number (js ''pc'') key l sv = (r, sv')" by fastforce
  show ?thesis
  proof (cases r)
    case (Inl e)
    with r key show ?thesis
      using supervisor_step.refused [of js_number "js ''pc''" "Some key" None l sv e sv']
      by (simp add: ask_screen_def)
  next
    case (Inr request)
    with r key show ?thesis
      using supervisor_step.asked [of js_number "js ''pc''" "Some key" None l sv request sv']
      by (simp add: ask_screen_def)
  qed
qed

lemma two_asks_reachable:
  "k \<noteq> [] \<Longrightarrow> k' \<noteq> [] \<Longrightarrow>
   (supervisor_step js_number)\<^sup>*\<^sup>* new_supervisor (ask_screen k' l' (ask_screen k l new_supervisor))"
  using ask_step [of k new_supervisor l] ask_step [of k' "ask_screen k l new_supervisor" l']
  by (meson converse_rtranclp_into_rtranclp rtranclp.rtrancl_refl)

lemma answer_step:
  assumes "sv_ensuring sv \<noteq> []"
  shows "supervisor_step js_number sv (snd (answer_screen ok sv))"
  using assms
  by (intro supervisor_step.ensured [of sv "[]" "hd (sv_ensuring sv)" "tl (sv_ensuring sv)" ok
        "fst (answer_screen ok sv)"])
    (simp_all add: answer_screen_def)

lemmas screen_eval = ask_screen_def answer_screen_def managedScreen_begin_def managedScreen_end_def
  open_map_def nextScreenIndex_def used_indexes_def set_map_def screen_of_def new_supervisor_def
  screenPorts_def TEAM_SCREEN_LIMIT_def upt_rec js_def

definition two_screens :: supervisor where
  "two_screens = ask_screen (js ''b'') None (ask_screen (js ''a'') None new_supervisor)"

lemma two_screens_reachable: "(supervisor_step js_number)\<^sup>*\<^sup>* new_supervisor two_screens"
  unfolding two_screens_def
  by (rule two_asks_reachable) simp_all

lemma two_screens_of:
  "screen_of two_screens (js ''pc'') (js ''a'') =
     Some \<lparr>sa_index = 0, sa_leaseId = None, sa_releasing = False\<rparr>"
  "screen_of two_screens (js ''pc'') (js ''b'') =
     Some \<lparr>sa_index = 1, sa_leaseId = None, sa_releasing = False\<rparr>"
  by (simp_all add: two_screens_def screen_eval)

theorem team_screens_do_not_collide_witness:
  "\<exists>la lb. exec_layout two_screens (js ''pc'') (js ''a'') = Inr la \<and>
     exec_layout two_screens (js ''pc'') (js ''b'') = Inr lb \<and> ly_display la \<noteq> ly_display lb"
  using team_screens_do_not_collide [OF two_screens_reachable two_screens_of] by auto

text \<open>
  The assignments are disjoint, the layouts handed out need not be: a request whose command fails
  drops the assignment of its screen even when an earlier request for the same screen was
  answered. The index is free again while the first bot still works on the display, and the next
  bot that asks is answered with the same display.
\<close>

definition asked_twice :: supervisor where
  "asked_twice = ask_screen (js ''a'') None (ask_screen (js ''a'') None new_supervisor)"

definition first_answered :: supervisor where
  "first_answered = snd (answer_screen True asked_twice)"

definition second_failed :: supervisor where
  "second_failed = snd (answer_screen False first_answered)"

definition other_bot :: supervisor where
  "other_bot = ask_screen (js ''b'') None second_failed"

lemma failed_request_frees_display_in_use:
  "map_option ly_display (fst (answer_screen True asked_twice)) = Some (js '':1'')"
  "map_option ly_display (fst (answer_screen True other_bot)) = Some (js '':1'')"
  by (simp_all add: asked_twice_def first_answered_def second_failed_def other_bot_def screen_eval
      dec_below_10 digit_def)

lemma other_bot_reachable: "(supervisor_step js_number)\<^sup>*\<^sup>* new_supervisor other_bot"
proof -
  let ?step = "supervisor_step js_number"
  have "?step\<^sup>*\<^sup>* new_supervisor asked_twice"
    unfolding asked_twice_def
    by (rule two_asks_reachable) simp_all
  moreover have "?step asked_twice first_answered"
    unfolding first_answered_def by (rule answer_step) (simp add: asked_twice_def screen_eval)
  moreover have "?step first_answered second_failed"
    unfolding second_failed_def
    by (rule answer_step) (simp add: first_answered_def asked_twice_def screen_eval)
  moreover have "?step second_failed other_bot"
    unfolding other_bot_def by (rule ask_step) simp
  ultimately show ?thesis by (metis rtranclp.rtrancl_into_rtrancl)
qed

end
