(* ===== verification/Utf8.thy ===== *)
theory Utf8
  imports Prelude
begin

text \<open>
  Texts as bytes. \<open>utf8_string\<close> is the decoder of the language (\<open>toString("utf8")\<close> of a
  buffer): an ill-formed sequence becomes the replacement character, one for each maximal part of
  it that could have begun a character. \<open>buffer_from\<close> is the encoder (\<open>Buffer.from\<close>,
  \<open>TextEncoder\<close>), which replaces a lone surrogate. A text without lone surrogates is read back.
\<close>

type_synonym byte = "8 word"

subsection \<open>Decoding UTF-8\<close>

definition byte :: "nat \<Rightarrow> byte" where
  "byte n = word_of_nat n"

text \<open>
  A lead byte says how many continuation bytes follow, in which range the first of them must be
  and which bits of the code point it carries itself.
\<close>

definition utf8_lead :: "nat \<Rightarrow> (nat \<times> nat \<times> nat \<times> nat) option" where
  "utf8_lead b =
     (if 0xC2 \<le> b \<and> b \<le> 0xDF then Some (1, 0x80, 0xBF, b - 0xC0)
      else if b = 0xE0 then Some (2, 0xA0, 0xBF, 0)
      else if b = 0xED then Some (2, 0x80, 0x9F, 0xD)
      else if 0xE1 \<le> b \<and> b \<le> 0xEF then Some (2, 0x80, 0xBF, b - 0xE0)
      else if b = 0xF0 then Some (3, 0x90, 0xBF, 0)
      else if b = 0xF4 then Some (3, 0x80, 0x8F, 4)
      else if 0xF1 \<le> b \<and> b \<le> 0xF3 then Some (3, 0x80, 0xBF, b - 0xF0)
      else None)"

text \<open>The continuation bytes in front of a text: the code point, if none of them is missing.\<close>

fun utf8_tail :: "nat \<Rightarrow> nat \<Rightarrow> nat \<Rightarrow> nat \<Rightarrow> byte list \<Rightarrow> nat option \<times> byte list" where
  "utf8_tail 0 lo hi cp bs = (Some cp, bs)"
| "utf8_tail (Suc n) lo hi cp [] = (None, [])"
| "utf8_tail (Suc n) lo hi cp (b # bs) =
     (if lo \<le> unat b \<and> unat b \<le> hi then utf8_tail n 0x80 0xBF (cp * 64 + (unat b - 0x80)) bs
      else (None, b # bs))"

lemma length_utf8_tail: "length (snd (utf8_tail n lo hi cp bs)) \<le> length bs"
  by (induction n lo hi cp bs rule: utf8_tail.induct) auto

definition code_units :: "nat \<Rightarrow> jstring" where
  "code_units cp =
     (if cp < 0x10000 then [word_of_nat cp]
      else [word_of_nat (0xD800 + (cp - 0x10000) div 0x400),
            word_of_nat (0xDC00 + (cp - 0x10000) mod 0x400)])"

lemma utf8_tail_less: "utf8_tail n lo hi cp bs = (r, bs') \<Longrightarrow> length bs' < Suc (length bs)"
  using length_utf8_tail [of n lo hi cp bs] by simp

function utf8_string :: "byte list \<Rightarrow> jstring" where
  "utf8_string [] = []"
| "utf8_string (b # bs) =
     (if unat b < 0x80 then code_units (unat b) @ utf8_string bs
      else
        (case utf8_lead (unat b) of
           None \<Rightarrow> 0xFFFD # utf8_string bs
         | Some (n, lo, hi, cp) \<Rightarrow>
             (case utf8_tail n lo hi cp bs of
                (Some cp', bs') \<Rightarrow> code_units cp' @ utf8_string bs'
              | (None, bs') \<Rightarrow> 0xFFFD # utf8_string bs')))"
  by pat_completeness auto
termination
  by (relation "measure length") (auto dest: utf8_tail_less [OF sym])

text \<open>The bytes of a character, for any Unicode scalar value (a code point but no surrogate).\<close>

definition utf8_bytes :: "nat \<Rightarrow> byte list" where
  "utf8_bytes cp =
     (if cp < 0x80 then [byte cp]
      else if cp < 0x800 then [byte (0xC0 + cp div 64), byte (0x80 + cp mod 64)]
      else if cp < 0x10000
      then [byte (0xE0 + cp div 4096), byte (0x80 + cp div 64 mod 64), byte (0x80 + cp mod 64)]
      else [byte (0xF0 + cp div 262144), byte (0x80 + cp div 4096 mod 64),
            byte (0x80 + cp div 64 mod 64), byte (0x80 + cp mod 64)])"

definition scalar :: "nat \<Rightarrow> bool" where
  "scalar cp \<longleftrightarrow> cp < 0xD800 \<or> (0xE000 \<le> cp \<and> cp < 0x110000)"

lemma unat_byte [simp]: "n < 256 \<Longrightarrow> unat (byte n) = n"
  by (simp add: byte_def unat_of_nat)

lemma utf8_tail_one:
  "m < 64 \<Longrightarrow> lo \<le> 0x80 + m \<Longrightarrow> 0x80 + m \<le> hi \<Longrightarrow>
   utf8_tail 1 lo hi c (byte (0x80 + m) # bs) = (Some (c * 64 + m), bs)"
  by simp

lemma utf8_tail_two:
  "m < 64 \<Longrightarrow> m' < 64 \<Longrightarrow> lo \<le> 0x80 + m \<Longrightarrow> 0x80 + m \<le> hi \<Longrightarrow>
   utf8_tail 2 lo hi c (byte (0x80 + m) # byte (0x80 + m') # bs) = (Some ((c * 64 + m) * 64 + m'), bs)"
  by (simp add: numeral_2_eq_2)

lemma utf8_tail_three:
  "m < 64 \<Longrightarrow> m' < 64 \<Longrightarrow> m'' < 64 \<Longrightarrow> lo \<le> 0x80 + m \<Longrightarrow> 0x80 + m \<le> hi \<Longrightarrow>
   utf8_tail 3 lo hi c (byte (0x80 + m) # byte (0x80 + m') # byte (0x80 + m'') # bs) =
     (Some (((c * 64 + m) * 64 + m') * 64 + m''), bs)"
  by (simp add: numeral_3_eq_3)

lemma div_4096: "(cp::nat) div 4096 * 64 + cp div 64 mod 64 = cp div 64"
  using div_mult_mod_eq [of "cp div 64" 64] by (simp add: div_mult2_eq [symmetric])

lemma div_262144: "(cp::nat) div 262144 * 64 + cp div 4096 mod 64 = cp div 4096"
  using div_mult_mod_eq [of "cp div 4096" 64] by (simp add: div_mult2_eq [symmetric])

lemma cp3: "((cp::nat) div 4096 * 64 + cp div 64 mod 64) * 64 + cp mod 64 = cp"
  unfolding div_4096 by (rule div_mult_mod_eq)

lemma cp4:
  "(((cp::nat) div 262144 * 64 + cp div 4096 mod 64) * 64 + cp div 64 mod 64) * 64 + cp mod 64 = cp"
  unfolding div_262144 by (rule cp3)

lemma utf8_multi:
  assumes "b < 256" and "0x80 \<le> b" and "utf8_lead b = Some (n, lo, hi, cp0)"
    and "utf8_tail n lo hi cp0 (ts @ bs) = (Some cp, bs)"
  shows "utf8_string (byte b # ts @ bs) = code_units cp @ utf8_string bs"
  using assms by simp

lemma utf8_two:
  assumes "0x80 \<le> cp" and "cp < 0x800"
  shows "utf8_string (utf8_bytes cp @ bs) = code_units cp @ utf8_string bs"
proof -
  have d: "2 \<le> cp div 64" "cp div 64 < 32" using assms by auto
  have "utf8_lead (0xC0 + cp div 64) = Some (1, 0x80, 0xBF, cp div 64)"
    using d by (simp add: utf8_lead_def)
  moreover have "utf8_tail 1 0x80 0xBF (cp div 64) ([byte (0x80 + cp mod 64)] @ bs) = (Some cp, bs)"
    using utf8_tail_one [of "cp mod 64" 128 191 "cp div 64" bs] by simp
  ultimately show ?thesis
    using utf8_multi [of "0xC0 + cp div 64"] d assms by (simp add: utf8_bytes_def)
qed

lemma utf8_three:
  assumes "0x800 \<le> cp" and "cp < 0x10000" and "scalar cp"
  shows "utf8_string (utf8_bytes cp @ bs) = code_units cp @ utf8_string bs"
proof -
  let ?m = "cp div 64 mod 64"
  have d: "cp div 4096 < 16" using assms by auto
  note q = div_4096 [of cp]
  obtain lo hi where lead: "utf8_lead (0xE0 + cp div 4096) = Some (2, lo, hi, cp div 4096)"
    and "lo \<le> 0x80 + ?m" "0x80 + ?m \<le> hi"
  proof -
    consider "cp div 4096 = 0" | "cp div 4096 = 13" | "cp div 4096 \<noteq> 0" "cp div 4096 \<noteq> 13" by blast
    then show thesis
    proof cases
      case 1
      then have "32 \<le> ?m" using q div_le_mono [OF assms(1), of 64] by simp
      with 1 show ?thesis by (intro that [of 160 191]) (simp_all add: utf8_lead_def)
    next
      case 2
      then have "cp < 0xE000" by linarith
      then have "cp \<le> 0xD7FF" using assms(3) by (auto simp: scalar_def)
      with 2 have "?m < 32" using q div_le_mono [of cp 55295 64] by simp
      with 2 show ?thesis by (intro that [of 128 159]) (simp_all add: utf8_lead_def)
    next
      case 3
      with d show ?thesis by (intro that [of 128 191]) (simp_all add: utf8_lead_def)
    qed
  qed
  then have "utf8_tail 2 lo hi (cp div 4096) ([byte (0x80 + ?m), byte (0x80 + cp mod 64)] @ bs) = (Some cp, bs)"
    using utf8_tail_two [of ?m "cp mod 64" lo hi "cp div 4096" bs] unfolding cp3 by simp
  then show ?thesis
    using d assms lead by (simp add: utf8_bytes_def)
qed

lemma utf8_four:
  assumes "0x10000 \<le> cp" and "scalar cp"
  shows "utf8_string (utf8_bytes cp @ bs) = code_units cp @ utf8_string bs"
proof -
  let ?m = "cp div 4096 mod 64" and ?m' = "cp div 64 mod 64"
  have d: "cp div 262144 < 5" using assms by (auto simp: scalar_def)
  note q = div_262144 [of cp]
  obtain lo hi where lead: "utf8_lead (0xF0 + cp div 262144) = Some (3, lo, hi, cp div 262144)"
    and m: "lo \<le> 0x80 + ?m" "0x80 + ?m \<le> hi"
  proof -
    consider "cp div 262144 = 0" | "cp div 262144 = 4" | "cp div 262144 \<in> {1, 2, 3}"
      using d by fastforce
    then show thesis
    proof cases
      case 1
      then have "16 \<le> ?m" using q div_le_mono [OF assms(1), of 4096] by simp
      with 1 show ?thesis by (intro that [of 144 191]) (simp_all add: utf8_lead_def)
    next
      case 2
      moreover have "cp \<le> 0x10FFFF" using assms by (auto simp: scalar_def)
      ultimately have "?m < 16" using q div_le_mono [of cp 1114111 4096] by simp
      with 2 show ?thesis by (intro that [of 128 143]) (simp_all add: utf8_lead_def)
    next
      case 3
      then show ?thesis by (intro that [of 128 191]) (auto simp: utf8_lead_def)
    qed
  qed
  have "utf8_tail 3 lo hi (cp div 262144)
      ([byte (0x80 + ?m), byte (0x80 + ?m'), byte (0x80 + cp mod 64)] @ bs) = (Some cp, bs)"
    using utf8_tail_three [of ?m ?m' "cp mod 64" lo hi "cp div 262144" bs] m unfolding cp4 by simp
  then show ?thesis
    using d assms lead by (simp add: utf8_bytes_def)
qed

lemma utf8_char:
  assumes "scalar cp"
  shows "utf8_string (utf8_bytes cp @ bs) = code_units cp @ utf8_string bs"
proof -
  consider "cp < 0x80" | "0x80 \<le> cp" "cp < 0x800" | "0x800 \<le> cp" "cp < 0x10000" | "0x10000 \<le> cp"
    by linarith
  then show ?thesis
  proof cases
    case 1
    then show ?thesis by (simp add: utf8_bytes_def)
  qed (simp_all add: utf8_two utf8_three utf8_four assms)
qed

text \<open>Decoding what was encoded gives the text back.\<close>

lemma utf8_text:
  "list_all scalar cps \<Longrightarrow> utf8_string (concat (map utf8_bytes cps)) = concat (map code_units cps)"
  by (induction cps) (simp_all add: utf8_char)

lemma byte_unat [simp]: "byte (unat b) = b"
  by (simp add: byte_def)

lemma unat_lt_256: "unat (b :: byte) < 256"
  using unsigned_less [of b] by simp

subsection \<open>Encoding UTF-8\<close>

definition high_surrogate :: "jchar \<Rightarrow> bool" where
  "high_surrogate c \<longleftrightarrow> 0xD800 \<le> unat c \<and> unat c \<le> 0xDBFF"

definition low_surrogate :: "jchar \<Rightarrow> bool" where
  "low_surrogate c \<longleftrightarrow> 0xDC00 \<le> unat c \<and> unat c \<le> 0xDFFF"

definition surrogate_pair :: "jchar \<Rightarrow> jchar \<Rightarrow> nat" where
  "surrogate_pair c d = 0x10000 + (unat c - 0xD800) * 0x400 + (unat d - 0xDC00)"

fun code_points :: "jstring \<Rightarrow> nat list" where
  "code_points [] = []"
| "code_points [c] = [if high_surrogate c \<or> low_surrogate c then 0xFFFD else unat c]"
| "code_points (c # d # s) =
     (if high_surrogate c \<and> low_surrogate d then surrogate_pair c d # code_points s
      else (if high_surrogate c \<or> low_surrogate c then 0xFFFD else unat c) # code_points (d # s))"

fun well_formed :: "jstring \<Rightarrow> bool" where
  "well_formed [] = True"
| "well_formed [c] = (\<not> high_surrogate c \<and> \<not> low_surrogate c)"
| "well_formed (c # d # s) =
     (if high_surrogate c \<and> low_surrogate d then well_formed s
      else \<not> high_surrogate c \<and> \<not> low_surrogate c \<and> well_formed (d # s))"

definition buffer_from :: "jstring \<Rightarrow> byte list" where
  "buffer_from s = concat (map utf8_bytes (code_points s))"

lemma unat_jchar: "unat (c :: jchar) < 65536"
  using unsigned_less [of c] by simp

lemma surrogate_pair_bounds:
  assumes "high_surrogate c" and "low_surrogate d"
  shows "0x10000 \<le> surrogate_pair c d" and "surrogate_pair c d < 0x110000"
    and "(surrogate_pair c d - 0x10000) div 0x400 = unat c - 0xD800"
    and "(surrogate_pair c d - 0x10000) mod 0x400 = unat d - 0xDC00"
proof -
  obtain m n where m: "unat c = 0xD800 + m" "m < 0x400" and n: "unat d = 0xDC00 + n" "n < 0x400"
    using assms nat_le_iff_add [of 55296 "unat c"] nat_le_iff_add [of 56320 "unat d"]
    by (auto simp: high_surrogate_def low_surrogate_def)
  have e: "surrogate_pair c d = 0x10000 + (m * 0x400 + n)"
    by (simp add: surrogate_pair_def m n)
  show "0x10000 \<le> surrogate_pair c d" "surrogate_pair c d < 0x110000"
    using m n by (simp_all add: e)
  show "(surrogate_pair c d - 0x10000) div 0x400 = unat c - 0xD800"
    "(surrogate_pair c d - 0x10000) mod 0x400 = unat d - 0xDC00"
    using m n by (simp_all add: e)
qed

lemma code_units_pair:
  assumes "high_surrogate c" and "low_surrogate d"
  shows "code_units (surrogate_pair c d) = [c, d]"
proof -
  have "0xD800 + (surrogate_pair c d - 0x10000) div 0x400 = unat c"
    "0xDC00 + (surrogate_pair c d - 0x10000) mod 0x400 = unat d"
    using surrogate_pair_bounds(3,4) [OF assms] assms
    by (simp_all add: high_surrogate_def low_surrogate_def)
  then show ?thesis
    using surrogate_pair_bounds(1) [OF assms] by (simp add: code_units_def del: of_nat_add)
qed

lemma code_units_single: "code_units (unat c) = [c]"
  using unat_jchar [of c] by (simp add: code_units_def)

lemma scalar_single: "\<not> high_surrogate c \<Longrightarrow> \<not> low_surrogate c \<Longrightarrow> scalar (unat c)"
  using unat_jchar [of c] by (auto simp: scalar_def high_surrogate_def low_surrogate_def)

lemma scalar_pair: "high_surrogate c \<Longrightarrow> low_surrogate d \<Longrightarrow> scalar (surrogate_pair c d)"
  using surrogate_pair_bounds(1,2) [of c d] by (simp add: scalar_def)

lemma scalar_replacement: "scalar 0xFFFD"
  by (simp add: scalar_def)

lemma code_points_scalar: "list_all scalar (code_points s)"
  by (induction s rule: code_points.induct)
    (simp_all add: scalar_single scalar_pair scalar_replacement)

lemma code_points_units: "well_formed s \<Longrightarrow> concat (map code_units (code_points s)) = s"
  by (induction s rule: code_points.induct)
    (auto simp: code_units_single code_units_pair split: if_splits)

text \<open>What was encoded is read back, so no two well-formed texts have the same bytes.\<close>

lemma utf8_read_back: "well_formed s \<Longrightarrow> utf8_string (buffer_from s) = s"
  by (simp add: buffer_from_def utf8_text code_points_scalar code_points_units)

lemma buffer_from_inject:
  "well_formed s \<Longrightarrow> well_formed t \<Longrightarrow> buffer_from s = buffer_from t \<longleftrightarrow> s = t"
  by (metis utf8_read_back)

lemma well_formed_plain:
  "(\<And>c. c \<in> set s \<Longrightarrow> \<not> high_surrogate c \<and> \<not> low_surrogate c) \<Longrightarrow> well_formed s"
  by (induction s rule: well_formed.induct) auto

end
