(* ===== verification/DockerStream.thy ===== *)
theory DockerStream
  imports Utf8
begin

text \<open>
  The output of a command in a container, \<open>demuxDockerStream\<close> of
  \<open>infra/sandboxes/supervisor/src/supervisor-logic.ts\<close> and \<open>runContainerCommand\<close> of
  \<open>index.ts\<close>: without a terminal the container engine sends frames, a header of eight bytes and
  a payload, and the supervisor splits them into the two outputs.
\<close>

subsection \<open>Frames\<close>

definition readUInt32BE :: "byte list \<Rightarrow> nat \<Rightarrow> nat" where
  "readUInt32BE buffer offset =
     ((unat (buffer ! offset) * 256 + unat (buffer ! (offset + 1))) * 256
       + unat (buffer ! (offset + 2))) * 256 + unat (buffer ! (offset + 3))"

text \<open>
  The two loops of the code run over an offset; here they run over the bytes that are left, so
  that position \<open>i\<close> of the rest is position \<open>offset + i\<close> of the buffer.
\<close>

function isCompleteDockerMultiplexedStream :: "byte list \<Rightarrow> bool" where
  "isCompleteDockerMultiplexedStream buffer =
     (if buffer = [] then True
      else if 8 > length buffer then False
      else if buffer ! 0 \<noteq> 0 \<and> buffer ! 0 \<noteq> 1 \<and> buffer ! 0 \<noteq> 2 then False
      else if buffer ! 1 \<noteq> 0 \<or> buffer ! 2 \<noteq> 0 \<or> buffer ! 3 \<noteq> 0 then False
      else
        let size = readUInt32BE buffer 4 in
        if 8 + size > length buffer then False
        else isCompleteDockerMultiplexedStream (drop (8 + size) buffer))"
  by pat_completeness auto
termination by (relation "measure length") auto

declare isCompleteDockerMultiplexedStream.simps [simp del]

text \<open>The payloads in their order, marked with whether they are of the error output.\<close>

function demux_payloads :: "byte list \<Rightarrow> (bool \<times> byte list) list" where
  "demux_payloads buffer =
     (if buffer = [] then []
      else
        let size = readUInt32BE buffer 4;
            payload = take size (drop 8 buffer)
        in (buffer ! 0 = 2, payload) # demux_payloads (drop (8 + size) buffer))"
  by pat_completeness auto
termination by (relation "measure length") auto

declare demux_payloads.simps [simp del]

record command_output =
  co_stdout :: jstring
  co_stderr :: jstring

definition demuxDockerStream :: "byte list \<Rightarrow> command_output" where
  "demuxDockerStream buffer =
     (if \<not> isCompleteDockerMultiplexedStream buffer
      then \<lparr>co_stdout = utf8_string buffer, co_stderr = []\<rparr>
      else
        let payloads = demux_payloads buffer
        in \<lparr>co_stdout = utf8_string (concat (map snd (filter (\<lambda>p. \<not> fst p) payloads))),
            co_stderr = utf8_string (concat (map snd (filter fst payloads)))\<rparr>)"

text \<open>The frames of the engine: what it documents, a stream byte, padding, size and payload.\<close>

record frame =
  fr_type :: byte
  fr_payload :: "byte list"

definition frame_bytes :: "frame \<Rightarrow> byte list" where
  "frame_bytes f =
     (let n = length (fr_payload f) in
      [fr_type f, 0, 0, 0, byte (n div 16777216), byte (n div 65536 mod 256),
       byte (n div 256 mod 256), byte (n mod 256)] @ fr_payload f)"

definition frame_ok :: "frame \<Rightarrow> bool" where
  "frame_ok f \<longleftrightarrow> fr_type f \<in> {0, 1, 2} \<and> length (fr_payload f) < 4294967296"

definition stream_bytes :: "frame list \<Rightarrow> byte list" where
  "stream_bytes fs = concat (map frame_bytes fs)"

lemma four_bytes:
  fixes n :: nat
  shows "((n div 16777216 * 256 + n div 65536 mod 256) * 256 + n div 256 mod 256) * 256 + n mod 256 = n"
proof -
  have 1: "n div 16777216 * 256 + n div 65536 mod 256 = n div 65536"
    using div_mult_mod_eq [of "n div 65536" 256] by (simp add: div_mult2_eq [symmetric])
  have 2: "n div 65536 * 256 + n div 256 mod 256 = n div 256"
    using div_mult_mod_eq [of "n div 256" 256] by (simp add: div_mult2_eq [symmetric])
  show ?thesis unfolding 1 2 by (rule div_mult_mod_eq)
qed

lemma frame_size:
  assumes "frame_ok f"
  shows "readUInt32BE (frame_bytes f @ bs) 4 = length (fr_payload f)"
proof -
  let ?n = "length (fr_payload f)"
  have n: "?n div 16777216 < 256" using assms by (simp add: frame_ok_def less_mult_imp_div_less)
  have "readUInt32BE (frame_bytes f @ bs) 4 =
      ((?n div 16777216 * 256 + ?n div 65536 mod 256) * 256 + ?n div 256 mod 256) * 256 + ?n mod 256"
    using n by (simp add: readUInt32BE_def frame_bytes_def Let_def)
  then show ?thesis by (simp only: four_bytes)
qed

lemma length_frame_bytes [simp]: "length (frame_bytes f) = 8 + length (fr_payload f)"
  by (simp add: frame_bytes_def Let_def)

lemma frame_head:
  "(frame_bytes f @ bs) ! 0 = fr_type f" "(frame_bytes f @ bs) ! 1 = 0"
  "(frame_bytes f @ bs) ! 2 = 0" "(frame_bytes f @ bs) ! 3 = 0"
  by (simp_all add: frame_bytes_def Let_def)

lemma frame_payload [simp]: "drop 8 (frame_bytes f) = fr_payload f"
  by (simp add: frame_bytes_def Let_def)

lemma frame_not_Nil [simp]: "frame_bytes f \<noteq> []"
  by (simp add: frame_bytes_def Let_def)

lemma complete_frame:
  "frame_ok f \<Longrightarrow> isCompleteDockerMultiplexedStream (frame_bytes f @ bs) =
     isCompleteDockerMultiplexedStream bs"
  by (subst isCompleteDockerMultiplexedStream.simps)
    (auto simp: frame_size frame_head Let_def frame_ok_def simp del: One_nat_def)

lemma complete_stream:
  "list_all frame_ok fs \<Longrightarrow> isCompleteDockerMultiplexedStream (stream_bytes fs)"
  by (induction fs)
    (simp_all add: stream_bytes_def complete_frame isCompleteDockerMultiplexedStream.simps [of "[]"])

lemma payloads_frame:
  "frame_ok f \<Longrightarrow> demux_payloads (frame_bytes f @ bs) =
     (fr_type f = 2, fr_payload f) # demux_payloads bs"
  by (subst demux_payloads.simps)
    (simp add: frame_size frame_head(1) Let_def)

lemma payloads_stream:
  "list_all frame_ok fs \<Longrightarrow>
   demux_payloads (stream_bytes fs) = map (\<lambda>f. (fr_type f = 2, fr_payload f)) fs"
  by (induction fs) (simp_all add: stream_bytes_def payloads_frame demux_payloads.simps [of "[]"])

text \<open>Whatever passes the check is a sequence of frames, and of one sequence only.\<close>

lemma size_bytes:
  fixes a b c d :: byte
  defines "n \<equiv> ((unat a * 256 + unat b) * 256 + unat c) * 256 + unat d"
  shows "n < 4294967296" and "byte (n div 16777216) = a" and "byte (n div 65536 mod 256) = b"
    and "byte (n div 256 mod 256) = c" and "byte (n mod 256) = d"
proof -
  note lt = unat_lt_256 [of a] unat_lt_256 [of b] unat_lt_256 [of c] unat_lt_256 [of d]
  have 1: "n div 256 = (unat a * 256 + unat b) * 256 + unat c" using lt by (simp add: n_def)
  have 2: "n div 65536 = unat a * 256 + unat b"
    using div_mult2_eq [of n 256 256] lt by (simp add: 1)
  have 3: "n div 16777216 = unat a" using div_mult2_eq [of n 65536 256] lt by (simp add: 2)
  show "n < 4294967296" using lt by (simp add: n_def)
  show "byte (n div 16777216) = a" by (simp add: 3)
  show "byte (n div 65536 mod 256) = b" using lt by (simp add: 2)
  have "n div 256 mod 256 = unat c" unfolding 1 using lt by (simp only: mod_mult_self3 mod_less)
  then show "byte (n div 256 mod 256) = c" by simp
  have "n mod 256 = unat d" unfolding n_def using lt by (simp only: mod_mult_self3 mod_less)
  then show "byte (n mod 256) = d" by simp
qed

lemma eight_bytes:
  "8 \<le> length bs \<Longrightarrow> \<exists>t x y z a b c d rest. bs = [t, x, y, z, a, b, c, d] @ rest"
  by (auto simp: numeral_eq_Suc Suc_le_length_iff)

lemma complete_is_stream:
  "isCompleteDockerMultiplexedStream buffer \<Longrightarrow>
   \<exists>fs. list_all frame_ok fs \<and> buffer = stream_bytes fs"
proof (induction buffer rule: isCompleteDockerMultiplexedStream.induct)
  case (1 buffer)
  show ?case
  proof (cases "buffer = []")
    case True
    then show ?thesis by (intro exI [of _ "[]"]) (simp add: stream_bytes_def)
  next
    case False
    let ?n = "readUInt32BE buffer 4"
    note c = 1(2) [unfolded isCompleteDockerMultiplexedStream.simps [of buffer]]
    have len: "8 \<le> length buffer" using c False by (auto split: if_splits)
    then obtain t x y z a b c' d rest where eq: "buffer = [t, x, y, z, a, b, c', d] @ rest"
      using eight_bytes by blast
    have n: "?n = ((unat a * 256 + unat b) * 256 + unat c') * 256 + unat d"
      by (simp add: eq readUInt32BE_def)
    have t: "t \<in> {0, 1, 2}" and pad: "x = 0" "y = 0" "z = 0" and fit: "?n \<le> length rest"
      and rest: "isCompleteDockerMultiplexedStream (drop (8 + ?n) buffer)"
      using c False len by (auto simp: eq Let_def split: if_splits)
    obtain fs where fs: "list_all frame_ok fs" "drop (8 + ?n) buffer = stream_bytes fs"
      using 1(1) [OF False] c False len rest by (auto simp: Let_def split: if_splits)
    have drop_header: "drop (8 + k) buffer = drop k rest" for k
    proof -
      have "drop (8 + k) buffer = drop k (drop 8 buffer)" by (simp add: add.commute)
      then show ?thesis by (simp add: eq)
    qed
    let ?f = "\<lparr>fr_type = t, fr_payload = take ?n rest\<rparr>"
    have "frame_bytes ?f = [t, 0, 0, 0, a, b, c', d] @ take ?n rest"
      using fit size_bytes [of a b c' d] by (simp add: frame_bytes_def Let_def n)
    moreover have "drop ?n rest = stream_bytes fs" using fs(2) by (simp add: drop_header)
    moreover have "rest = take ?n rest @ drop ?n rest" by simp
    ultimately have "buffer = stream_bytes (?f # fs)"
      by (simp add: eq pad stream_bytes_def)
    moreover have "frame_ok ?f"
      using t fit size_bytes(1) [of a b c' d] by (simp add: frame_ok_def n)
    ultimately show ?thesis using fs(1) by (intro exI [of _ "?f # fs"]) simp
  qed
qed

definition stream_output :: "bool \<Rightarrow> frame list \<Rightarrow> byte list" where
  "stream_output err fs = concat (map fr_payload (filter (\<lambda>f. (fr_type f = 2) = err) fs))"

lemma demux_frames:
  assumes "list_all frame_ok fs"
  shows "demuxDockerStream (stream_bytes fs) =
    \<lparr>co_stdout = utf8_string (stream_output False fs), co_stderr = utf8_string (stream_output True fs)\<rparr>"
  using complete_stream [OF assms]
  by (simp add: demuxDockerStream_def payloads_stream [OF assms] stream_output_def filter_map comp_def)

lemma demux_raw:
  "(\<And>fs. list_all frame_ok fs \<Longrightarrow> buffer \<noteq> stream_bytes fs) \<Longrightarrow>
   demuxDockerStream buffer = \<lparr>co_stdout = utf8_string buffer, co_stderr = []\<rparr>"
  using complete_is_stream [of buffer] by (auto simp: demuxDockerStream_def)

text \<open>
  C31. The outputs of a command are read back: when the engine sends the bytes of two texts, one on
  each output, cut into frames anywhere, also in the middle of a character, and interleaved in any
  order, the supervisor returns exactly the two texts; and bytes that are no sequence of frames (a
  terminal) are returned whole as standard output.
\<close>

theorem docker_stream_round_trip:
  assumes "list_all frame_ok fs" and "list_all scalar out" and "list_all scalar err"
    and "stream_output False fs = concat (map utf8_bytes out)"
    and "stream_output True fs = concat (map utf8_bytes err)"
    and "\<And>fs'. list_all frame_ok fs' \<Longrightarrow> raw \<noteq> stream_bytes fs'"
  shows "demuxDockerStream (stream_bytes fs) =
           \<lparr>co_stdout = concat (map code_units out), co_stderr = concat (map code_units err)\<rparr> \<and>
         demuxDockerStream raw = \<lparr>co_stdout = utf8_string raw, co_stderr = []\<rparr>"
  using demux_frames [OF assms(1)] demux_raw [OF assms(6)] assms(2-5) by (simp add: utf8_text)

text \<open>A euro sign of the standard output, cut in two by a frame of the error output.\<close>

definition cut_frames :: "frame list" where
  "cut_frames =
     [\<lparr>fr_type = 1, fr_payload = [0x31, 0xE2]\<rparr>, \<lparr>fr_type = 2, fr_payload = [0x21]\<rparr>,
      \<lparr>fr_type = 1, fr_payload = [0x82, 0xAC]\<rparr>]"

lemma one_byte_no_stream: "list_all frame_ok fs \<Longrightarrow> [0x31] \<noteq> stream_bytes fs"
  by (cases fs) (auto simp: stream_bytes_def frame_bytes_def Let_def)

theorem docker_stream_round_trip_witness:
  "demuxDockerStream (stream_bytes cut_frames) =
     \<lparr>co_stdout = [0x31, 0x20AC], co_stderr = [0x21]\<rparr> \<and>
   demuxDockerStream [0x31] = \<lparr>co_stdout = [0x31], co_stderr = []\<rparr>"
  using docker_stream_round_trip [of cut_frames "[0x31, 0x20AC]" "[0x21]", OF _ _ _ _ _ one_byte_no_stream]
  by (simp add: cut_frames_def frame_ok_def scalar_def stream_output_def utf8_bytes_def byte_def
      code_units_def)

end
