(* ===== verification/LifecycleLock.thy ===== *)
theory LifecycleLock
  imports Prelude "HOL-Library.AList"
begin

text \<open>
  The lock that serializes what creates and deletes the computer of a bot,
  \<open>withBotLifecycleLock\<close> of \<open>infra/sandboxes/supervisor/src/index.ts\<close>: a map from a bot to the
  promise of its last caller, and every caller waits for the promise it found. A call is a ticket,
  its position in the list of calls; its promise is settled when the promise before it is and its
  task has ended.
\<close>

datatype call_phase = WaitingTurn | RunningTask | TaskEnded

record lock_call =
  lc_botId :: jstring
  lc_previous :: "nat option"
  lc_phase :: call_phase

record locks =
  lk_calls :: "lock_call list"
  lk_map :: "(jstring \<times> nat) list"

definition no_locks :: locks where
  "no_locks = \<lparr>lk_calls = [], lk_map = []\<rparr>"

text \<open>A promise found in the map is older than the call that waits for it.\<close>

function settled :: "lock_call list \<Rightarrow> nat \<Rightarrow> bool" where
  "settled calls i =
     (i < length calls \<and> lc_phase (calls ! i) = TaskEnded \<and>
      (case lc_previous (calls ! i) of
         None \<Rightarrow> True
       | Some j \<Rightarrow> if j < i then settled calls j else False))"
  by pat_completeness auto
termination by (relation "measure snd") auto

declare settled.simps [simp del]

text \<open>A call registers its promise, starts its task on its turn, and releases the next.\<close>

definition arrive :: "jstring \<Rightarrow> locks \<Rightarrow> locks" where
  "arrive botId s =
     s\<lparr>lk_calls := lk_calls s @
         [\<lparr>lc_botId = botId, lc_previous = map_of (lk_map s) botId, lc_phase = WaitingTurn\<rparr>],
       lk_map := AList.update botId (length (lk_calls s)) (lk_map s)\<rparr>"

definition may_enter :: "locks \<Rightarrow> nat \<Rightarrow> bool" where
  "may_enter s i \<longleftrightarrow>
     i < length (lk_calls s) \<and> lc_phase (lk_calls s ! i) = WaitingTurn \<and>
     (case lc_previous (lk_calls s ! i) of None \<Rightarrow> True | Some j \<Rightarrow> settled (lk_calls s) j)"

definition set_phase :: "nat \<Rightarrow> call_phase \<Rightarrow> lock_call list \<Rightarrow> lock_call list" where
  "set_phase i p calls = calls[i := (calls ! i)\<lparr>lc_phase := p\<rparr>]"

definition enter :: "nat \<Rightarrow> locks \<Rightarrow> locks" where
  "enter i s = s\<lparr>lk_calls := set_phase i RunningTask (lk_calls s)\<rparr>"

definition leave :: "nat \<Rightarrow> locks \<Rightarrow> locks" where
  "leave i s =
     (let botId = lc_botId (lk_calls s ! i) in
      s\<lparr>lk_calls := set_phase i TaskEnded (lk_calls s),
        lk_map := (if map_of (lk_map s) botId = Some i then AList.delete botId (lk_map s)
                   else lk_map s)\<rparr>)"

inductive lock_step :: "locks \<Rightarrow> locks \<Rightarrow> bool" where
  "lock_step s (arrive botId s)"
| "may_enter s i \<Longrightarrow> lock_step s (enter i s)"
| "i < length (lk_calls s) \<Longrightarrow> lc_phase (lk_calls s ! i) = RunningTask \<Longrightarrow>
   lock_step s (leave i s)"

inductive_cases lock_stepE: "lock_step s s'"

subsection \<open>The order of the calls\<close>

text \<open>The calls of a bot before the one with ticket \<open>n\<close> have all ended.\<close>

definition ended_before :: "lock_call list \<Rightarrow> jstring \<Rightarrow> nat \<Rightarrow> bool" where
  "ended_before calls b n \<longleftrightarrow>
     (\<forall>k < length calls. k < n \<longrightarrow> lc_botId (calls ! k) = b \<longrightarrow> lc_phase (calls ! k) = TaskEnded)"

definition latest_before :: "lock_call list \<Rightarrow> jstring \<Rightarrow> nat \<Rightarrow> nat \<Rightarrow> bool" where
  "latest_before calls b n i \<longleftrightarrow>
     i < n \<and> i < length calls \<and> lc_botId (calls ! i) = b \<and>
     (\<forall>k < length calls. k < n \<longrightarrow> lc_botId (calls ! k) = b \<longrightarrow> k \<le> i)"

definition call_ok :: "lock_call list \<Rightarrow> nat \<Rightarrow> bool" where
  "call_ok calls j \<longleftrightarrow>
     (case lc_previous (calls ! j) of
        None \<Rightarrow> ended_before calls (lc_botId (calls ! j)) j
      | Some i \<Rightarrow> latest_before calls (lc_botId (calls ! j)) j i) \<and>
     (lc_phase (calls ! j) \<noteq> WaitingTurn \<longrightarrow> ended_before calls (lc_botId (calls ! j)) j)"

definition locks_ok :: "locks \<Rightarrow> bool" where
  "locks_ok s \<longleftrightarrow>
     (\<forall>j < length (lk_calls s). call_ok (lk_calls s) j) \<and>
     (\<forall>b. case map_of (lk_map s) b of
            None \<Rightarrow> ended_before (lk_calls s) b (length (lk_calls s))
          | Some i \<Rightarrow> latest_before (lk_calls s) b (length (lk_calls s)) i)"

lemma locks_okD:
  assumes "locks_ok s"
  shows "j < length (lk_calls s) \<Longrightarrow> call_ok (lk_calls s) j"
    and "map_of (lk_map s) b = None \<Longrightarrow> ended_before (lk_calls s) b (length (lk_calls s))"
    and "map_of (lk_map s) b = Some i \<Longrightarrow> latest_before (lk_calls s) b (length (lk_calls s)) i"
  using assms by (auto simp: locks_ok_def dest: spec [of _ b])

lemma settled_ended: "settled calls i \<Longrightarrow> lc_phase (calls ! i) = TaskEnded"
  by (subst (asm) settled.simps) simp

lemma ended_through:
  assumes "latest_before calls b n i" and "lc_phase (calls ! i) = TaskEnded" and "ended_before calls b i"
  shows "ended_before calls b n"
  using assms by (auto simp: ended_before_def latest_before_def dest: le_neq_implies_less)

lemma ended_append:
  "n \<le> length calls \<Longrightarrow> ended_before (calls @ [c]) b n \<longleftrightarrow> ended_before calls b n"
  by (auto simp: ended_before_def nth_append)

lemma latest_append:
  "n \<le> length calls \<Longrightarrow> latest_before (calls @ [c]) b n i \<longleftrightarrow> latest_before calls b n i"
  by (auto simp: latest_before_def nth_append)

lemma call_ok_append: "j < length calls \<Longrightarrow> call_ok (calls @ [c]) j \<longleftrightarrow> call_ok calls j"
  by (simp add: call_ok_def ended_append latest_append nth_append split: option.split)

lemma arrive_ok:
  assumes ok: "locks_ok s"
  shows "locks_ok (arrive b s)"
proof -
  let ?n = "length (lk_calls s)"
  let ?c = "\<lparr>lc_botId = b, lc_previous = map_of (lk_map s) b, lc_phase = WaitingTurn\<rparr>"
  have new: "call_ok (lk_calls s @ [?c]) ?n"
    using locks_okD [OF ok]
    by (auto simp: call_ok_def ended_append latest_append split: option.splits)
  have "latest_before (lk_calls s @ [?c]) b (Suc ?n) ?n"
    by (simp add: latest_before_def)
  moreover have "ended_before (lk_calls s @ [?c]) b' (Suc ?n)"
    if "b' \<noteq> b" "map_of (lk_map s) b' = None" for b'
    using that(1) locks_okD(2) [OF ok that(2)]
    by (auto simp: ended_before_def nth_append less_Suc_eq)
  moreover have "latest_before (lk_calls s @ [?c]) b' (Suc ?n) i"
    if "b' \<noteq> b" "map_of (lk_map s) b' = Some i" for b' i
    using that(1) locks_okD(3) [OF ok that(2)]
    by (auto simp: latest_before_def nth_append less_Suc_eq)
  moreover have "call_ok (lk_calls s @ [?c]) j" if "j < Suc ?n" for j
    using that new locks_okD(1) [OF ok] by (cases "j = ?n") (simp_all add: call_ok_append)
  ultimately show ?thesis
    by (simp add: locks_ok_def arrive_def AList.update_conv' split: option.split)
qed

text \<open>A call that goes on to a later phase, with everything before it ended.\<close>

lemma set_phase_nth [simp]:
  "length (set_phase i p calls) = length calls"
  "lc_botId (set_phase i p calls ! j) = lc_botId (calls ! j)"
  "lc_previous (set_phase i p calls ! j) = lc_previous (calls ! j)"
  "lc_phase (set_phase i p calls ! j) =
     (if j = i \<and> i < length calls then p else lc_phase (calls ! j))"
  by (cases "i < length calls"; auto simp: set_phase_def nth_list_update list_update_beyond)+

lemma ended_update:
  assumes "ended_before calls b n" and "p = RunningTask \<longrightarrow> lc_phase (calls ! i) = WaitingTurn"
    and "p \<noteq> WaitingTurn"
  shows "ended_before (set_phase i p calls) b n"
  using assms by (cases p) (auto simp: ended_before_def)

lemma latest_update: "latest_before (set_phase i p calls) b n k \<longleftrightarrow> latest_before calls b n k"
  by (simp add: latest_before_def)

lemma call_ok_update:
  assumes ok: "call_ok calls j" and j: "j < length calls"
    and p: "p = RunningTask \<longrightarrow> lc_phase (calls ! i) = WaitingTurn" "p \<noteq> WaitingTurn"
    and e: "ended_before calls (lc_botId (calls ! i)) i"
  shows "call_ok (set_phase i p calls) j"
proof (cases "j = i")
  case True
  then show ?thesis
    using ok j ended_update [OF e p]
    by (simp add: call_ok_def latest_update split: option.splits)
next
  case False
  then show ?thesis
    using ok ended_update [OF _ p, of "lc_botId (calls ! j)" j]
    by (simp add: call_ok_def latest_update split: option.splits)
qed

lemma enter_ended:
  assumes "locks_ok s" and "may_enter s i"
  shows "ended_before (lk_calls s) (lc_botId (lk_calls s ! i)) i"
proof -
  have ok: "call_ok (lk_calls s) i" using assms by (simp add: may_enter_def locks_okD(1))
  show ?thesis
  proof (cases "lc_previous (lk_calls s ! i)")
    case None
    with ok show ?thesis by (simp add: call_ok_def)
  next
    case (Some j)
    with ok have l: "latest_before (lk_calls s) (lc_botId (lk_calls s ! i)) i j"
      by (simp add: call_ok_def)
    have e: "lc_phase (lk_calls s ! j) = TaskEnded"
      using assms(2) Some by (simp add: may_enter_def settled_ended)
    have "call_ok (lk_calls s) j"
      using l assms(1) by (auto simp: latest_before_def intro: locks_okD(1))
    then have "ended_before (lk_calls s) (lc_botId (lk_calls s ! i)) j"
      using e l by (simp add: call_ok_def latest_before_def)
    with l e show ?thesis by (rule ended_through)
  qed
qed

lemma enter_ok:
  assumes ok: "locks_ok s" and may: "may_enter s i"
  shows "locks_ok (enter i s)"
proof -
  have w: "lc_phase (lk_calls s ! i) = WaitingTurn" using may by (simp add: may_enter_def)
  have "call_ok (set_phase i RunningTask (lk_calls s)) j" if "j < length (lk_calls s)" for j
    using w by (intro call_ok_update locks_okD(1) [OF ok that] that enter_ended [OF ok may]) simp_all
  moreover have "ended_before (set_phase i RunningTask (lk_calls s)) b (length (lk_calls s))"
    if "map_of (lk_map s) b = None" for b
    using locks_okD(2) [OF ok that] w by (intro ended_update) simp_all
  ultimately show ?thesis
    using locks_okD(3) [OF ok] by (simp add: locks_ok_def enter_def latest_update split: option.split)
qed

lemma leave_ok:
  assumes ok: "locks_ok s" and i: "i < length (lk_calls s)" "lc_phase (lk_calls s ! i) = RunningTask"
  shows "locks_ok (leave i s)"
proof -
  let ?b = "lc_botId (lk_calls s ! i)" and ?n = "length (lk_calls s)"
  let ?calls = "set_phase i TaskEnded (lk_calls s)"
  have e: "ended_before (lk_calls s) ?b i"
    using locks_okD(1) [OF ok i(1)] i(2) by (simp add: call_ok_def)
  have calls: "call_ok ?calls j" if "j < ?n" for j
    using locks_okD(1) [OF ok that] that e by (intro call_ok_update) simp_all
  have last: "ended_before ?calls ?b ?n" if "latest_before (lk_calls s) ?b ?n i"
  proof (rule ended_through)
    show "latest_before ?calls ?b ?n i" using that by (simp add: latest_update)
    show "lc_phase (?calls ! i) = TaskEnded" using i by simp
    show "ended_before ?calls ?b i" by (rule ended_update [OF e]) simp_all
  qed
  have "ended_before ?calls b ?n" if "map_of (lk_map s) b = None" for b
    using locks_okD(2) [OF ok that] by (rule ended_update) simp_all
  moreover have "latest_before ?calls b ?n k" if "map_of (lk_map s) b = Some k" for b k
    using locks_okD(3) [OF ok that] by (simp add: latest_update)
  ultimately show ?thesis
    using calls last locks_okD(3) [OF ok, of ?b i]
    by (simp add: locks_ok_def leave_def Let_def AList.delete_conv' split: option.split)
qed

lemma lock_step_ok: "lock_step s s' \<Longrightarrow> locks_ok s \<Longrightarrow> locks_ok s'"
  by (erule lock_stepE) (auto intro: arrive_ok enter_ok leave_ok)

lemma no_locks_ok: "locks_ok no_locks"
  by (simp add: locks_ok_def no_locks_def ended_before_def)

lemma locks_reachable: "lock_step\<^sup>*\<^sup>* no_locks s \<Longrightarrow> locks_ok s"
  by (induction rule: rtranclp_induct) (auto intro: lock_step_ok no_locks_ok)

text \<open>The promise of a task that has ended is settled, and the next in line may enter.\<close>

lemma ended_settled:
  assumes ok: "locks_ok s"
  shows "i < length (lk_calls s) \<Longrightarrow> lc_phase (lk_calls s ! i) = TaskEnded \<Longrightarrow> settled (lk_calls s) i"
proof (induction i rule: less_induct)
  case (less i)
  note c = locks_okD(1) [OF ok less.prems(1)]
  have "settled (lk_calls s) j" "j < i" if "lc_previous (lk_calls s ! i) = Some j" for j
  proof -
    have l: "latest_before (lk_calls s) (lc_botId (lk_calls s ! i)) i j"
      and e: "ended_before (lk_calls s) (lc_botId (lk_calls s ! i)) i"
      using c that less.prems(2) by (simp_all add: call_ok_def)
    then show "settled (lk_calls s) j" "j < i"
      using less.IH [of j] by (auto simp: latest_before_def ended_before_def)
  qed
  with less.prems show ?case
    by (subst settled.simps) (simp split: option.split)
qed

lemma first_may_enter:
  assumes ok: "locks_ok s" and i: "i < length (lk_calls s)" "lc_phase (lk_calls s ! i) = WaitingTurn"
    and e: "ended_before (lk_calls s) (lc_botId (lk_calls s ! i)) i"
  shows "may_enter s i"
proof -
  have "settled (lk_calls s) j" if "lc_previous (lk_calls s ! i) = Some j" for j
    using locks_okD(1) [OF ok i(1)] that e
    by (auto simp: call_ok_def latest_before_def ended_before_def intro!: ended_settled [OF ok])
  with i show ?thesis by (simp add: may_enter_def split: option.split)
qed

lemma some_may_enter:
  assumes ok: "locks_ok s" and j: "j < length (lk_calls s)" "lc_phase (lk_calls s ! j) = WaitingTurn"
    and idle: "\<forall>k < length (lk_calls s). lc_botId (lk_calls s ! k) = lc_botId (lk_calls s ! j) \<longrightarrow>
                  lc_phase (lk_calls s ! k) \<noteq> RunningTask"
  shows "\<exists>k \<le> j. lc_botId (lk_calls s ! k) = lc_botId (lk_calls s ! j) \<and> may_enter s k"
proof -
  let ?P = "\<lambda>k. k < length (lk_calls s) \<and> lc_botId (lk_calls s ! k) = lc_botId (lk_calls s ! j) \<and>
                  lc_phase (lk_calls s ! k) = WaitingTurn"
  obtain k where P: "?P k" and first: "\<And>m. m < k \<Longrightarrow> \<not> ?P m"
    using exists_least_iff [of ?P] j by blast
  have "lc_phase (lk_calls s ! m) = TaskEnded"
    if "m < length (lk_calls s)" "m < k" "lc_botId (lk_calls s ! m) = lc_botId (lk_calls s ! j)" for m
    using that idle first [of m] by (cases "lc_phase (lk_calls s ! m)") auto
  then have "ended_before (lk_calls s) (lc_botId (lk_calls s ! k)) k"
    using P by (simp add: ended_before_def)
  then have "may_enter s k" using P by (intro first_may_enter [OF ok]) simp_all
  moreover have "k \<le> j" using first [of j] j by (meson not_le)
  ultimately show ?thesis using P by blast
qed

text \<open>
  Creating and deleting the computer of a bot take turns: whatever calls arrive, for whatever
  bots, a task starts only when every earlier call for the same bot has ended, so that two of them
  never overlap; and no call is stuck, for while none of the tasks of a bot runs, the first call in
  line may start.
\<close>

theorem lifecycle_tasks_take_turns:
  assumes "lock_step\<^sup>*\<^sup>* no_locks s" and "j < length (lk_calls s)"
  shows "(lc_phase (lk_calls s ! j) \<noteq> WaitingTurn \<longrightarrow>
            (\<forall>i < j. lc_botId (lk_calls s ! i) = lc_botId (lk_calls s ! j) \<longrightarrow>
                       lc_phase (lk_calls s ! i) = TaskEnded)) \<and>
         (lc_phase (lk_calls s ! j) = WaitingTurn \<longrightarrow>
            (\<exists>k \<le> j. lc_botId (lk_calls s ! k) = lc_botId (lk_calls s ! j) \<and> may_enter s k) \<or>
            (\<exists>k < length (lk_calls s). lc_botId (lk_calls s ! k) = lc_botId (lk_calls s ! j) \<and>
                       lc_phase (lk_calls s ! k) = RunningTask))"
proof -
  have ok: "locks_ok s" using assms(1) by (rule locks_reachable)
  let ?runs = "\<lambda>k. k < length (lk_calls s) \<and> lc_botId (lk_calls s ! k) = lc_botId (lk_calls s ! j) \<and>
                    lc_phase (lk_calls s ! k) = RunningTask"
  have "ended_before (lk_calls s) (lc_botId (lk_calls s ! j)) j"
    if "lc_phase (lk_calls s ! j) \<noteq> WaitingTurn"
    using locks_okD(1) [OF ok assms(2)] that by (simp add: call_ok_def)
  then have started: "lc_phase (lk_calls s ! j) \<noteq> WaitingTurn \<longrightarrow>
      (\<forall>i < j. lc_botId (lk_calls s ! i) = lc_botId (lk_calls s ! j) \<longrightarrow>
               lc_phase (lk_calls s ! i) = TaskEnded)"
    using assms(2) by (simp add: ended_before_def)
  show ?thesis
  proof (cases "\<exists>k. ?runs k")
    case True
    with started show ?thesis by blast
  next
    case False
    then have "lc_phase (lk_calls s ! j) = WaitingTurn \<longrightarrow>
        (\<exists>k \<le> j. lc_botId (lk_calls s ! k) = lc_botId (lk_calls s ! j) \<and> may_enter s k)"
      using some_may_enter [OF ok assms(2)] by blast
    with started show ?thesis by blast
  qed
qed

definition two_calls :: locks where
  "two_calls = enter 0 (arrive (js ''b'') (arrive (js ''b'') no_locks))"

lemma two_calls_reachable: "lock_step\<^sup>*\<^sup>* no_locks two_calls"
proof -
  let ?s = "arrive (js ''b'') no_locks"
  have "lock_step no_locks ?s" "lock_step ?s (arrive (js ''b'') ?s)" by (rule lock_step.intros)+
  moreover have "lock_step (arrive (js ''b'') ?s) two_calls"
    unfolding two_calls_def
    by (rule lock_step.intros) (simp add: may_enter_def arrive_def no_locks_def)
  ultimately show ?thesis by (meson converse_rtranclp_into_rtranclp rtranclp.rtrancl_refl)
qed

theorem lifecycle_tasks_take_turns_witness:
  "lc_phase (lk_calls two_calls ! 0) = RunningTask \<and> lc_phase (lk_calls two_calls ! 1) = WaitingTurn \<and>
   \<not> may_enter two_calls 1 \<and>
   (\<exists>k < length (lk_calls two_calls). lc_phase (lk_calls two_calls ! k) = RunningTask)"
proof -
  have calls: "lk_calls two_calls =
      [\<lparr>lc_botId = js ''b'', lc_previous = None, lc_phase = RunningTask\<rparr>,
       \<lparr>lc_botId = js ''b'', lc_previous = Some 0, lc_phase = WaitingTurn\<rparr>]"
    by (simp add: two_calls_def enter_def set_phase_def arrive_def no_locks_def)
  have phases: "lc_phase (lk_calls two_calls ! 0) = RunningTask"
    "lc_phase (lk_calls two_calls ! 1) = WaitingTurn" by (simp_all add: calls)
  have "\<not> may_enter two_calls 1"
    by (simp add: may_enter_def calls settled.simps)
  moreover have "\<not> may_enter two_calls 0" by (simp add: may_enter_def calls)
  moreover have "(\<exists>k \<le> 1. may_enter two_calls k) \<or>
      (\<exists>k < length (lk_calls two_calls). lc_phase (lk_calls two_calls ! k) = RunningTask)"
    using lifecycle_tasks_take_turns [OF two_calls_reachable, of 1] phases(2) by (simp add: calls) blast
  ultimately show ?thesis using phases by (auto simp: le_Suc_eq)
qed

end
