(* ===== verification/SecretsGuard.thy ===== *)
theory SecretsGuard
  imports Utf8
begin

text \<open>
  The credentials of the services, \<open>packages/core/src/secrets-guard.ts\<close> (and the bearer check of
  \<open>infra/sandboxes/supervisor/src/supervisor-logic.ts\<close>): how each is read from the environment, what is
  refused outside development, and the comparison of a bearer token. An environment is a map from
  names to texts; an error is a constructor, not its message.
\<close>

unbundle bit_operations_syntax

type_synonym process_env = "string \<Rightarrow> jstring option"

datatype secret_error = MissingSecret string | PlaceholderSecret string | ConflictingSecret string
  | ShortSecret string

subsection \<open>Reading the credentials\<close>

definition DEV_AUTH_SECRET_PLACEHOLDER :: jstring where
  "DEV_AUTH_SECRET_PLACEHOLDER = js ''dev-secret-change-me-please-32chars''"
definition DEV_ENCRYPTION_KEY_PLACEHOLDER :: jstring where
  "DEV_ENCRYPTION_KEY_PLACEHOLDER = js ''dev-encryption-key''"
definition DEV_SUPERVISOR_TOKEN_PLACEHOLDER :: jstring where
  "DEV_SUPERVISOR_TOKEN_PLACEHOLDER = js ''dev-supervisor-token-change-me-32chars''"
definition DEV_SCREEN_PROXY_SECRET_PLACEHOLDER :: jstring where
  "DEV_SCREEN_PROXY_SECRET_PLACEHOLDER = js ''dev-screen-proxy-secret-change-me-32chars''"
definition EXAMPLE_SUPERVISOR_TOKEN_PLACEHOLDER :: jstring where
  "EXAMPLE_SUPERVISOR_TOKEN_PLACEHOLDER = js ''replace-with-32-plus-character-supervisor-token''"
definition EXAMPLE_SCREEN_PROXY_SECRET_PLACEHOLDER :: jstring where
  "EXAMPLE_SCREEN_PROXY_SECRET_PLACEHOLDER = js ''replace-with-32-plus-character-screen-proxy-secret''"

definition DEDICATED_SECRET_PLACEHOLDERS :: "jstring list" where
  "DEDICATED_SECRET_PLACEHOLDERS =
     [DEV_SUPERVISOR_TOKEN_PLACEHOLDER, DEV_SCREEN_PROXY_SECRET_PLACEHOLDER,
      EXAMPLE_SUPERVISOR_TOKEN_PLACEHOLDER, EXAMPLE_SCREEN_PROXY_SECRET_PLACEHOLDER]"

definition isDevSecretAllowed :: "process_env \<Rightarrow> bool" where
  "isDevSecretAllowed env \<longleftrightarrow>
     env ''RAKAZO_ALLOW_DEV_SECRETS'' = Some (js ''1'') \<or> truthy (env ''VITEST'') \<or>
     env ''NODE_ENV'' = Some (js ''development'') \<or> env ''NODE_ENV'' = Some (js ''test'')"

definition resolveAuthSecret :: "process_env \<Rightarrow> secret_error + jstring" where
  "resolveAuthSecret env =
     (case env ''BETTER_AUTH_SECRET'' of
        Some (c # s) \<Rightarrow>
          if \<not> isDevSecretAllowed env \<and> c # s = DEV_AUTH_SECRET_PLACEHOLDER
          then Inl (PlaceholderSecret ''BETTER_AUTH_SECRET'') else Inr (c # s)
      | _ \<Rightarrow>
          if isDevSecretAllowed env then Inr DEV_AUTH_SECRET_PLACEHOLDER
          else Inl (MissingSecret ''BETTER_AUTH_SECRET''))"

definition resolveEncryptionKey :: "process_env \<Rightarrow> secret_error + jstring" where
  "resolveEncryptionKey env =
     (case env ''ENCRYPTION_KEY'' of
        Some (c # s) \<Rightarrow>
          if \<not> isDevSecretAllowed env \<and> c # s = DEV_ENCRYPTION_KEY_PLACEHOLDER
          then Inl (PlaceholderSecret ''ENCRYPTION_KEY'') else Inr (c # s)
      | _ \<Rightarrow>
          if isDevSecretAllowed env then Inr DEV_ENCRYPTION_KEY_PLACEHOLDER
          else Inl (MissingSecret ''ENCRYPTION_KEY''))"

definition resolveDedicatedSecret ::
    "process_env \<Rightarrow> string \<Rightarrow> string list \<Rightarrow> jstring option \<Rightarrow> secret_error + jstring" where
  "resolveDedicatedSecret env name conflicts developmentFallback =
     (let read = (case env name of None \<Rightarrow> [] | Some v \<Rightarrow> trim v) in
      if read = []
      then (if truthy developmentFallback \<and> isDevSecretAllowed env
            then Inr (the developmentFallback) else Inl (MissingSecret name))
      else if \<not> isDevSecretAllowed env \<and> read \<in> set DEDICATED_SECRET_PLACEHOLDERS
      then Inl (PlaceholderSecret name)
      else if list_ex (\<lambda>c. env c = Some read) conflicts then Inl (ConflictingSecret name)
      else if \<not> isDevSecretAllowed env \<and> length read < 32 then Inl (ShortSecret name)
      else Inr read)"

definition resolveSupervisorToken :: "process_env \<Rightarrow> secret_error + jstring" where
  "resolveSupervisorToken env =
     resolveDedicatedSecret env ''SANDBOX_SUPERVISOR_TOKEN''
       [''BETTER_AUTH_SECRET'', ''SCREEN_PROXY_SECRET''] (Some DEV_SUPERVISOR_TOKEN_PLACEHOLDER)"

definition resolveScreenProxySecret :: "process_env \<Rightarrow> secret_error + jstring" where
  "resolveScreenProxySecret env =
     resolveDedicatedSecret env ''SCREEN_PROXY_SECRET''
       [''BETTER_AUTH_SECRET'', ''SANDBOX_SUPERVISOR_TOKEN'']
       (Some DEV_SCREEN_PROXY_SECRET_PLACEHOLDER)"

definition resolveUpdaterToken :: "process_env \<Rightarrow> secret_error + jstring" where
  "resolveUpdaterToken env =
     resolveDedicatedSecret env ''RAKAZO_UPDATER_TOKEN''
       [''BETTER_AUTH_SECRET'', ''SANDBOX_SUPERVISOR_TOKEN'', ''SCREEN_PROXY_SECRET''] None"

lemma dedicated_secret:
  assumes "resolveDedicatedSecret env name conflicts fb = Inr s" and "\<not> isDevSecretAllowed env"
  shows "\<exists>v. env name = Some v \<and> s = trim v \<and> 32 \<le> length s \<and>
             s \<notin> set DEDICATED_SECRET_PLACEHOLDERS \<and> (\<forall>c \<in> set conflicts. env c \<noteq> Some s)"
  using assms
  by (auto simp: resolveDedicatedSecret_def Let_def list_ex_iff not_less split: if_splits option.splits)

lemma auth_secret:
  assumes "resolveAuthSecret env = Inr s" and "\<not> isDevSecretAllowed env"
  shows "env ''BETTER_AUTH_SECRET'' = Some s" and "s \<noteq> DEV_AUTH_SECRET_PLACEHOLDER"
  using assms by (auto simp: resolveAuthSecret_def split: option.splits list.splits if_splits)

subsection \<open>The bearer token\<close>

definition bearer :: jstring where "bearer = js ''Bearer ''"

definition supplied_token :: "jstring option \<Rightarrow> jstring" where
  "supplied_token authorization =
     (case authorization of
        None \<Rightarrow> []
      | Some a \<Rightarrow> if prefix bearer a then drop 7 a else [])"

definition byte_at :: "byte list \<Rightarrow> nat \<Rightarrow> byte" where
  "byte_at bs i = (if i < length bs then bs ! i else 0)"

text \<open>The loop of the comparison: every byte is looked at, wherever the first difference is.\<close>

fun difference_loop :: "byte list \<Rightarrow> byte list \<Rightarrow> nat \<Rightarrow> nat \<Rightarrow> byte \<Rightarrow> byte" where
  "difference_loop a c index 0 difference = difference"
| "difference_loop a c index (Suc n) difference =
     difference_loop a c (index + 1) n (difference OR (byte_at a index XOR byte_at c index))"

definition hasValidBearerToken :: "jstring option \<Rightarrow> jstring \<Rightarrow> bool" where
  "hasValidBearerToken authorization expectedToken =
     (let actual = buffer_from expectedToken;
          candidate = buffer_from (supplied_token authorization)
      in if length actual \<noteq> length candidate then False
         else difference_loop actual candidate 0 (length actual) 0 = 0)"

text \<open>The supervisor has its own copy, over the comparison of the standard library.\<close>

definition supervisor_hasValidBearerToken :: "jstring option \<Rightarrow> jstring \<Rightarrow> bool" where
  "supervisor_hasValidBearerToken authorization expectedToken =
     (let actual = buffer_from expectedToken;
          candidate = buffer_from (supplied_token authorization)
      in length actual = length candidate \<and> actual = candidate)"

lemma or_zero: "(x :: byte) OR y = 0 \<longleftrightarrow> x = 0 \<and> y = 0"
  by (rule or_eq_0_iff)

lemma xor_zero: "(x :: byte) XOR y = 0 \<longleftrightarrow> x = y"
proof
  assume "x XOR y = 0"
  then have "(x XOR y) XOR y = y" by simp
  then show "x = y" by (simp add: xor.assoc)
qed simp

lemma difference_loop_zero:
  "difference_loop a c index n d = 0 \<longleftrightarrow>
   d = 0 \<and> (\<forall>i. index \<le> i \<and> i < index + n \<longrightarrow> byte_at a i = byte_at c i)"
proof (induction n arbitrary: index d)
  case (Suc n)
  have "(\<forall>i. index \<le> i \<and> i < index + Suc n \<longrightarrow> byte_at a i = byte_at c i) \<longleftrightarrow>
      byte_at a index = byte_at c index \<and>
      (\<forall>i. Suc index \<le> i \<and> i < Suc index + n \<longrightarrow> byte_at a i = byte_at c i)"
    by (auto simp: less_Suc_eq_le Suc_le_eq dest: le_neq_implies_less)
  then show ?case by (simp add: Suc.IH or_zero xor_zero)
qed auto

lemma bearer_iff:
  "hasValidBearerToken a t \<longleftrightarrow> buffer_from t = buffer_from (supplied_token a)"
  by (auto simp: hasValidBearerToken_def Let_def difference_loop_zero byte_at_def intro: nth_equalityI)

text \<open>The two copies of the check agree.\<close>

lemma supervisor_bearer: "supervisor_hasValidBearerToken a t \<longleftrightarrow> hasValidBearerToken a t"
  by (auto simp: bearer_iff supervisor_hasValidBearerToken_def Let_def)

lemma bearer_exact:
  assumes "well_formed t" and "well_formed (supplied_token a)" and "t \<noteq> []"
  shows "hasValidBearerToken a t \<longleftrightarrow> a = Some (bearer @ t)"
proof -
  have "hasValidBearerToken a t \<longleftrightarrow> t = supplied_token a"
    using assms by (simp add: bearer_iff buffer_from_inject)
  moreover have "length bearer = 7" by (simp add: bearer_def)
  ultimately show ?thesis
    using assms(3) by (auto simp: supplied_token_def prefix_def split: option.splits)
qed

subsection \<open>One credential, one service\<close>

lemma supplied_bearer [simp]: "supplied_token (Some (bearer @ x)) = x"
  by (simp add: supplied_token_def bearer_def)

lemma bearer_of: "well_formed x \<Longrightarrow> well_formed t \<Longrightarrow>
    hasValidBearerToken (Some (bearer @ x)) t \<longleftrightarrow> x = t"
  by (auto simp: bearer_iff buffer_from_inject)

text \<open>
  Outside development a service starts only with a credential of its own: the tokens of the
  supervisor, the screen proxy and the updater are at least 32 characters long, none of them is a
  placeholder of the repository, they differ from each other and from the secret that signs the
  sessions, and so each opens its own service and no other. The tokens of the first two must be
  written without surrounding white space for this.
\<close>

theorem credential_opens_one_service:
  assumes "\<not> isDevSecretAllowed env" and "resolveAuthSecret env = Inr auth"
    and "resolveSupervisorToken env = Inr supervisor" and "resolveScreenProxySecret env = Inr screen"
    and "resolveUpdaterToken env = Inr updater"
    and "env ''SANDBOX_SUPERVISOR_TOKEN'' = Some supervisor" and "env ''SCREEN_PROXY_SECRET'' = Some screen"
    and "list_all well_formed [auth, supervisor, screen, updater]"
  shows "distinct [auth, supervisor, screen, updater] \<and>
         (\<forall>t \<in> {supervisor, screen, updater}. 32 \<le> length t \<and> t \<notin> set DEDICATED_SECRET_PLACEHOLDERS \<and>
            (\<forall>x \<in> {auth, supervisor, screen, updater}. hasValidBearerToken (Some (bearer @ x)) t \<longleftrightarrow> x = t))"
proof -
  have a: "env ''BETTER_AUTH_SECRET'' = Some auth" by (rule auth_secret [OF assms(2,1)])
  note d = dedicated_secret [OF _ assms(1)]
  have s: "32 \<le> length supervisor" "supervisor \<notin> set DEDICATED_SECRET_PLACEHOLDERS" "auth \<noteq> supervisor" "screen \<noteq> supervisor"
    using d [OF assms(3) [unfolded resolveSupervisorToken_def]] a assms(7) by auto
  have p: "32 \<le> length screen" "screen \<notin> set DEDICATED_SECRET_PLACEHOLDERS" "auth \<noteq> screen"
    using d [OF assms(4) [unfolded resolveScreenProxySecret_def]] a by auto
  have u: "32 \<le> length updater" "updater \<notin> set DEDICATED_SECRET_PLACEHOLDERS" "auth \<noteq> updater" "supervisor \<noteq> updater"
    "screen \<noteq> updater"
    using d [OF assms(5) [unfolded resolveUpdaterToken_def]] a assms(6,7) by auto
  have wf: "well_formed auth" "well_formed supervisor" "well_formed screen" "well_formed updater"
    using assms(8) by simp_all
  show ?thesis
    using s p u by (auto simp: bearer_of wf)
qed

definition token_of :: "char \<Rightarrow> jstring" where
  "token_of c = js (replicate 32 c)"

definition example_env :: process_env where
  "example_env =
     [''BETTER_AUTH_SECRET'' \<mapsto> token_of CHR ''a'', ''SANDBOX_SUPERVISOR_TOKEN'' \<mapsto> token_of CHR ''b'',
      ''SCREEN_PROXY_SECRET'' \<mapsto> token_of CHR ''c'', ''RAKAZO_UPDATER_TOKEN'' \<mapsto> token_of CHR ''d'']"

lemmas secret_eval = isDevSecretAllowed_def resolveAuthSecret_def resolveSupervisorToken_def
  resolveScreenProxySecret_def resolveUpdaterToken_def resolveDedicatedSecret_def
  DEDICATED_SECRET_PLACEHOLDERS_def DEV_AUTH_SECRET_PLACEHOLDER_def
  DEV_SUPERVISOR_TOKEN_PLACEHOLDER_def DEV_SCREEN_PROXY_SECRET_PLACEHOLDER_def
  EXAMPLE_SUPERVISOR_TOKEN_PLACEHOLDER_def EXAMPLE_SCREEN_PROXY_SECRET_PLACEHOLDER_def

lemma token_of_facts [simp]:
  "length (token_of c) = 32" "token_of c = token_of d \<longleftrightarrow> c = d" "token_of c \<noteq> []"
  by (simp_all add: token_of_def replicate_eq_replicate)

lemma js_unat: "c \<in> set (js s) \<Longrightarrow> unat c < 256"
  by (auto simp: js_def unat_of_nat less_trans [OF nat_of_char_less_256])

lemma well_formed_js [simp]: "well_formed (js s)"
  by (rule well_formed_plain) (use js_unat in \<open>fastforce simp: high_surrogate_def low_surrogate_def\<close>)

lemma well_formed_token [simp]: "well_formed (token_of c)"
  by (simp add: token_of_def)

lemma token_of_neq_js: "length t \<noteq> 32 \<Longrightarrow> token_of c \<noteq> js t"
proof
  assume "length t \<noteq> 32" and "token_of c = js t"
  from this(2) have "length (token_of c) = length (js t)" by (rule arg_cong)
  with \<open>length t \<noteq> 32\<close> show False by simp
qed

lemma token_not_placeholder:
  "token_of c \<notin> set DEDICATED_SECRET_PLACEHOLDERS" "token_of c \<noteq> DEV_AUTH_SECRET_PLACEHOLDER"
  by (simp_all add: DEDICATED_SECRET_PLACEHOLDERS_def DEV_AUTH_SECRET_PLACEHOLDER_def
      DEV_SUPERVISOR_TOKEN_PLACEHOLDER_def DEV_SCREEN_PROXY_SECRET_PLACEHOLDER_def
      EXAMPLE_SUPERVISOR_TOKEN_PLACEHOLDER_def EXAMPLE_SCREEN_PROXY_SECRET_PLACEHOLDER_def
      token_of_neq_js)

lemma token_chars: "c \<in> set (token_of d) \<Longrightarrow> c = word_of_nat (of_char d)"
  by (auto simp: token_of_def js_def)

lemma trim_token:
  assumes "\<not> is_ws (word_of_nat (of_char c))"
  shows "trim (token_of c) = token_of c"
  using assms token_chars [OF hd_in_set [of "token_of c"]] token_chars [OF last_in_set [of "token_of c"]]
  by (intro trim_idem_if) simp

lemma example_trims [simp]:
  "trim (token_of CHR ''b'') = token_of CHR ''b''" "trim (token_of CHR ''c'') = token_of CHR ''c''"
  "trim (token_of CHR ''d'') = token_of CHR ''d''"
  by (rule trim_token, simp add: is_ws_def)+

lemma example_env_production: "\<not> isDevSecretAllowed example_env"
  by (simp add: isDevSecretAllowed_def example_env_def)

lemma auth_secret_given:
  "env ''BETTER_AUTH_SECRET'' = Some (token_of c) \<Longrightarrow> resolveAuthSecret env = Inr (token_of c)"
  by (cases "token_of c") (simp_all add: resolveAuthSecret_def token_not_placeholder(2) [of c, symmetric],
      metis list.discI token_of_facts(3) token_not_placeholder(2))

lemma dedicated_given:
  assumes "env name = Some v" and "trim v = token_of c" and "\<forall>n \<in> set conflicts. env n \<noteq> Some (token_of c)"
  shows "resolveDedicatedSecret env name conflicts fb = Inr (token_of c)"
  using assms by (simp add: resolveDedicatedSecret_def Let_def token_not_placeholder list_ex_iff)

theorem credential_opens_one_service_witness:
  "resolveUpdaterToken example_env = Inr (token_of CHR ''d'') \<and>
   \<not> hasValidBearerToken (Some (bearer @ token_of CHR ''b'')) (token_of CHR ''d'') \<and>
   hasValidBearerToken (Some (bearer @ token_of CHR ''d'')) (token_of CHR ''d'')"
proof -
  have r: "resolveAuthSecret example_env = Inr (token_of CHR ''a'')"
    "resolveSupervisorToken example_env = Inr (token_of CHR ''b'')"
    "resolveScreenProxySecret example_env = Inr (token_of CHR ''c'')"
    "resolveUpdaterToken example_env = Inr (token_of CHR ''d'')"
    unfolding resolveSupervisorToken_def resolveScreenProxySecret_def resolveUpdaterToken_def
    by (simp add: auth_secret_given example_env_def)
      (simp_all add: dedicated_given [OF _ example_trims(1)] dedicated_given [OF _ example_trims(2)]
        dedicated_given [OF _ example_trims(3)] example_env_def)
  show ?thesis
    using credential_opens_one_service [OF example_env_production r] r(4) by (simp add: example_env_def)
qed

text \<open>
  Without the condition on white space the guarantee is lost: the credential is trimmed before use
  and the text it is compared with is not, so one blank at the end of a variable hides that the
  supervisor and the updater share a credential.
\<close>

definition blank_env :: process_env where
  "blank_env =
     [''BETTER_AUTH_SECRET'' \<mapsto> token_of CHR ''a'',
      ''SANDBOX_SUPERVISOR_TOKEN'' \<mapsto> token_of CHR ''b'' @ js '' '',
      ''SCREEN_PROXY_SECRET'' \<mapsto> token_of CHR ''c'', ''RAKAZO_UPDATER_TOKEN'' \<mapsto> token_of CHR ''b'']"

lemma trim_blank: "trim (token_of CHR ''b'' @ js '' '') = token_of CHR ''b''"
proof -
  have "is_ws (hd (js '' ''))" and "js '' '' = [hd (js '' '')]" by (simp_all add: js_def is_ws_def)
  then have "trim_end (xs @ js '' '') = trim_end xs" for xs
    by (metis append_Nil dropWhile.simps(2) rev.simps(2) rev_append trim_end_def append_Cons rev.simps(1))
  moreover have "trim_start (token_of CHR ''b'' @ ys) = trim_start (token_of CHR ''b'') @ ys" for ys
  proof -
    have "\<not> is_ws (hd (token_of CHR ''b''))"
      using token_chars [OF hd_in_set [of "token_of CHR ''b''"]] by (simp add: is_ws_def)
    then show ?thesis
      using token_of_facts(3) [of "CHR ''b''"] by (cases "token_of CHR ''b''") (auto simp: trim_start_def)
  qed
  ultimately show ?thesis
    using example_trims(1) by (simp add: trim_def)
qed

lemma blank_hides_shared_credential:
  "\<not> isDevSecretAllowed blank_env"
  "resolveSupervisorToken blank_env = Inr (token_of CHR ''b'')"
  "resolveUpdaterToken blank_env = Inr (token_of CHR ''b'')"
proof -
  have ne: "token_of CHR ''b'' @ js '' '' \<noteq> token_of CHR ''b''" by simp
  show "\<not> isDevSecretAllowed blank_env" by (simp add: isDevSecretAllowed_def blank_env_def)
  show "resolveSupervisorToken blank_env = Inr (token_of CHR ''b'')"
    unfolding resolveSupervisorToken_def
    by (rule dedicated_given [OF _ trim_blank]) (simp_all add: blank_env_def)
  show "resolveUpdaterToken blank_env = Inr (token_of CHR ''b'')"
    unfolding resolveUpdaterToken_def
    by (rule dedicated_given [OF _ example_trims(1)]) (simp_all add: blank_env_def)
qed

end
