(* ===== verification/SandboxActions.thy ===== *)
theory SandboxActions
  imports Complex_Main WorkspacePaths SandboxScreens DockerStream
begin

text \<open>
  What the supervisor does in a container, \<open>infra/sandboxes/supervisor/src\<close>: the actions on a
  desktop and the commands they become (\<open>supervisor-logic.ts\<close>, \<open>computer-spec.ts\<close>), the choice
  between the control service and a command in the container, paths of files, commands with a
  time limit and their output (\<open>index.ts\<close>), and where a screen is published. Numbers of a
  request are rationals, as every finite number of the language is; \<open>number_text\<close> is \<open>String\<close>
  on numbers, \<open>lower\<close> is \<open>toLowerCase\<close>.
\<close>

subsection \<open>Actions\<close>

datatype mouse_button = LeftButton | RightButton
datatype pointer_type = PointerMove | PointerDown | PointerUp | PointerClick

datatype computer_action =
    KeyAction jstring "jstring list option"
  | PointerAction rat rat "mouse_button option" pointer_type
  | ClipboardAction jstring
  | ScrollAction bool "rat option"
  | WaitAction rat
  | OpenAction jstring
  | LaunchAction jstring "jstring option"

datatype sandbox_input =
    KeyInput jstring "jstring list option"
  | PointerInput rat rat "mouse_button option" pointer_type
  | ClipboardInput jstring

text \<open>\<open>toSandboxInput\<close> on the members of an action that is a key, a pointer or a clipboard.\<close>

record input_body =
  ib_key :: "jstring option"
  ib_modifiers :: "jstring list option"
  ib_x :: "rat option"
  ib_y :: "rat option"
  ib_button :: "mouse_button option"
  ib_type :: "pointer_type option"
  ib_text :: "jstring option"

datatype input_kind = KeyKind | PointerKind | ClipboardKind

definition or_default :: "'a option \<Rightarrow> 'a \<Rightarrow> 'a" where
  "or_default v d = (case v of None \<Rightarrow> d | Some x \<Rightarrow> x)"

definition toSandboxInput :: "input_kind \<Rightarrow> input_body \<Rightarrow> sandbox_input" where
  "toSandboxInput kind b =
     (case kind of
        KeyKind \<Rightarrow> KeyInput (or_default (ib_key b) []) (ib_modifiers b)
      | ClipboardKind \<Rightarrow> ClipboardInput (or_default (ib_text b) [])
      | PointerKind \<Rightarrow>
          PointerInput (or_default (ib_x b) 0) (or_default (ib_y b) 0) (ib_button b)
            (or_default (ib_type b) PointerClick))"

definition mapKey :: "(jstring \<Rightarrow> jstring) \<Rightarrow> jstring \<Rightarrow> jstring" where
  "mapKey lower key =
     (let l = lower key in
      if l = js ''enter'' \<or> l = js ''return'' then js ''Return''
      else if l = js ''esc'' \<or> l = js ''escape'' then js ''Escape''
      else if l = js ''space'' then js ''space''
      else if l = js ''tab'' then js ''Tab''
      else if l = js ''backspace'' then js ''BackSpace''
      else if l = js ''ctrl'' \<or> l = js ''control'' then js ''ctrl''
      else if l = js ''alt'' then js ''alt''
      else if l = js ''shift'' then js ''shift''
      else if l = js ''meta'' \<or> l = js ''cmd'' \<or> l = js ''super'' then js ''super''
      else key)"

definition button_code :: "mouse_button option \<Rightarrow> jstring" where
  "button_code b = (if b = Some RightButton then js ''3'' else js ''1'')"

fun xdotoolCommand :: "(jstring \<Rightarrow> jstring) \<Rightarrow> (rat \<Rightarrow> jstring) \<Rightarrow> sandbox_input \<Rightarrow> jstring list" where
  "xdotoolCommand lower number_text (KeyInput key modifiers) =
     (let mods = map (mapKey lower) (or_default modifiers []);
          combo = join_with (js ''+'') (mods @ [mapKey lower key])
      in [js ''xdotool'', js ''key'', js ''--clearmodifiers'', combo])"
| "xdotoolCommand lower number_text (PointerInput x y button type) =
     (case type of
        PointerMove \<Rightarrow>
          [js ''xdotool'', js ''mousemove'', js ''--'', number_text x, number_text y]
      | PointerDown \<Rightarrow>
          [js ''xdotool'', js ''mousemove'', js ''--'', number_text x, number_text y,
           js ''mousedown'', button_code button]
      | PointerUp \<Rightarrow> [js ''xdotool'', js ''mouseup'', button_code button]
      | PointerClick \<Rightarrow>
          [js ''xdotool'', js ''mousemove'', js ''--'', number_text x, number_text y,
           js ''click'', button_code button])"
| "xdotoolCommand lower number_text (ClipboardInput t) =
     [js ''xdotool'', js ''type'', js ''--clearmodifiers'', js ''--'', t]"

text \<open>Files of the workspace; the check is the one of the adapters with an error text of its own.\<close>

definition normalizeWorkspaceRelative :: "jstring \<Rightarrow> jstring + jstring" where
  "normalizeWorkspaceRelative s =
     (let segs = path_segments s in
      if list_ex (\<lambda>t. t = dot \<or> t = dotdot) segs
      then Inl (js ''path escapes the computer workspace'') else Inr (join_path segs))"

definition computer_home :: jstring where "computer_home = js ''/home/rakazo''"

definition workspaceTarget :: "jstring \<Rightarrow> jstring" where
  "workspaceTarget relative =
     (if relative \<noteq> [] then posix_join computer_home relative else computer_home)"

definition is_web_url :: "jstring \<Rightarrow> bool" where
  "is_web_url s \<longleftrightarrow>
     prefix (js ''http://'') (ascii_lower s) \<or> prefix (js ''https://'') (ascii_lower s)"

text \<open>A step of a desktop: a pause, or a command line.\<close>

datatype container_step = WaitMs rat | Argv "jstring list"

definition clamp_wait :: "rat \<Rightarrow> rat" where
  "clamp_wait ms = min (max ms 0) 5000"

definition js_round :: "rat \<Rightarrow> int" where
  "js_round x = \<lfloor>x + 1 / 2\<rfloor>"

definition action_input :: "computer_action \<Rightarrow> sandbox_input option" where
  "action_input a =
     (case a of
        KeyAction k m \<Rightarrow> Some (KeyInput k m)
      | PointerAction x y b t \<Rightarrow> Some (PointerInput x y b t)
      | ClipboardAction t \<Rightarrow> Some (ClipboardInput t)
      | _ \<Rightarrow> None)"

definition containerActionStep ::
    "(jstring \<Rightarrow> jstring) \<Rightarrow> (rat \<Rightarrow> jstring) \<Rightarrow> jstring \<Rightarrow> computer_action \<Rightarrow>
     jstring + container_step" where
  "containerActionStep lower number_text display a =
     (let env = [js ''env'', js ''DISPLAY='' @ display] in
      case a of
        WaitAction ms \<Rightarrow> Inr (WaitMs (clamp_wait ms))
      | ScrollAction up amount \<Rightarrow>
          Inr (Argv (env @ [js ''xdotool'', js ''click'', js ''--repeat'',
            int_text (min (max (js_round (or_default amount 3)) 1) 20),
            if up then js ''4'' else js ''5'']))
      | OpenAction path \<Rightarrow>
          (if is_web_url path then Inr (Argv (env @ [js ''xdg-open'', path]))
           else (case normalizeWorkspaceRelative path of
                Inl e \<Rightarrow> Inl e
              | Inr relative \<Rightarrow> Inr (Argv (env @ [js ''xdg-open'', workspaceTarget relative]))))
      | LaunchAction application uri \<Rightarrow>
          Inr (Argv (env @ [application] @ (if truthy uri then [the uri] else [])))
      | _ \<Rightarrow>
          (case action_input a of
             Some i \<Rightarrow> Inr (Argv (env @ xdotoolCommand lower number_text i))
           | None \<Rightarrow> Inr (Argv env)))"

subsection \<open>The deadline of the control service\<close>

definition CONTROL_BASE_TIMEOUT_MS :: rat where "CONTROL_BASE_TIMEOUT_MS = 15000"
definition CONTROL_MAX_TIMEOUT_MS :: rat where "CONTROL_MAX_TIMEOUT_MS = 60000"

definition action_wait :: "computer_action \<Rightarrow> rat" where
  "action_wait a = (case a of WaitAction ms \<Rightarrow> clamp_wait ms | _ \<Rightarrow> 0)"

definition computerControlTimeoutMs :: "computer_action list \<Rightarrow> rat \<Rightarrow> rat" where
  "computerControlTimeoutMs actions settleMs =
     (let waits = foldl (\<lambda>w a. w + action_wait a) 0 actions in
      min CONTROL_MAX_TIMEOUT_MS (CONTROL_BASE_TIMEOUT_MS + waits + clamp_wait settleMs))"

text \<open>The time the service itself spends waiting for the same request.\<close>

definition mapped_pauses ::
    "(jstring \<Rightarrow> jstring) \<Rightarrow> (rat \<Rightarrow> jstring) \<Rightarrow> jstring \<Rightarrow> computer_action list \<Rightarrow> rat" where
  "mapped_pauses lower number_text display actions =
     sum_list (map (\<lambda>a. case containerActionStep lower number_text display a of
                          Inr (WaitMs ms) \<Rightarrow> ms | _ \<Rightarrow> 0) actions)"

lemma clamp_wait_bounds: "0 \<le> clamp_wait ms" "clamp_wait ms \<le> 5000"
  by (auto simp: clamp_wait_def)

lemma action_wait_bounds: "0 \<le> action_wait a" "action_wait a \<le> 5000"
  by (auto simp: action_wait_def clamp_wait_bounds split: computer_action.split)

lemma foldl_waits: "foldl (\<lambda>w a. w + action_wait a) w actions = w + sum_list (map action_wait actions)"
  by (induction actions arbitrary: w) (simp_all add: algebra_simps)

lemma mapped_pause:
  "(case containerActionStep lower number_text display a of Inr (WaitMs ms) \<Rightarrow> ms | _ \<Rightarrow> 0) =
     action_wait a"
  by (auto simp: containerActionStep_def action_wait_def Let_def action_input_def
      split: computer_action.split sum.split)

lemma mapped_pauses_sum: "mapped_pauses lower number_text display actions = sum_list (map action_wait actions)"
  by (simp add: mapped_pauses_def mapped_pause)

lemma sum_waits_nonneg: "0 \<le> sum_list (map action_wait actions)"
  by (rule sum_list_nonneg) (auto simp: action_wait_bounds)

lemma sum_waits_le: "sum_list (map action_wait actions) \<le> 5000 * of_nat (length actions)"
proof (induction actions)
  case (Cons a actions)
  then show ?case using action_wait_bounds [of a] by (simp add: algebra_simps)
qed simp

text \<open>
  The deadline is between fifteen and sixty seconds, and with at most eight actions it leaves the
  service fifteen seconds beyond the pauses it was asked to make.
\<close>

lemma control_deadline:
  "15000 \<le> computerControlTimeoutMs actions settleMs"
  "computerControlTimeoutMs actions settleMs \<le> 60000"
  "length actions \<le> 8 \<Longrightarrow>
     mapped_pauses lower number_text display actions + clamp_wait settleMs + 15000
       \<le> computerControlTimeoutMs actions settleMs"
proof -
  note s = sum_waits_nonneg [of actions] clamp_wait_bounds [of settleMs]
  have t: "computerControlTimeoutMs actions settleMs =
      min 60000 (15000 + sum_list (map action_wait actions) + clamp_wait settleMs)"
    by (simp add: computerControlTimeoutMs_def Let_def foldl_waits CONTROL_MAX_TIMEOUT_MS_def
        CONTROL_BASE_TIMEOUT_MS_def)
  show "15000 \<le> computerControlTimeoutMs actions settleMs"
    "computerControlTimeoutMs actions settleMs \<le> 60000"
    using s by (simp_all add: t)
  assume "length actions \<le> 8"
  then have "(of_nat (length actions) :: rat) \<le> of_nat 8" by (rule of_nat_mono)
  then have "sum_list (map action_wait actions) \<le> 40000"
    using sum_waits_le [of actions] by simp
  then show "mapped_pauses lower number_text display actions + clamp_wait settleMs + 15000
       \<le> computerControlTimeoutMs actions settleMs"
    using s by (simp add: t mapped_pauses_sum)
qed

text \<open>Thirteen pauses of five seconds, which a request may ask for, never fit the deadline.\<close>

lemma long_waits_miss_deadline:
  "computerControlTimeoutMs (replicate 13 (WaitAction 5000)) 0
     < mapped_pauses lower number_text display (replicate 13 (WaitAction 5000))"
  by (simp add: computerControlTimeoutMs_def Let_def foldl_waits mapped_pauses_sum action_wait_def
      clamp_wait_def CONTROL_MAX_TIMEOUT_MS_def CONTROL_BASE_TIMEOUT_MS_def sum_list_replicate)

subsection \<open>Files stay in the home\<close>

lemma normalizeWorkspaceRelative_iff:
  "normalizeWorkspaceRelative s = Inr r \<longleftrightarrow> normalizeWorkspacePath s = Inr r"
  by (simp add: normalizeWorkspaceRelative_def normalizeWorkspacePath_def Let_def)

lemma target_in_home:
  assumes "normalizeWorkspaceRelative s = Inr r"
  shows "(workspaceTarget r = computer_home \<or> prefix (computer_home @ [47]) (workspaceTarget r)) \<and>
         dotdot \<notin> set (split_on 47 (workspaceTarget r))"
proof -
  obtain ss where r: "r = join_path ss" and ss: "list_all clean ss"
    using normalize_shape assms by (auto simp: normalizeWorkspaceRelative_iff)
  let ?h = "[js ''home'', js ''rakazo'']"
  have h: "computer_home = 47 # join_path ?h" "list_all clean ?h"
    by (simp_all add: computer_home_def js_def clean_def dot_def dotdot_def)
  have target: "workspaceTarget r = 47 # join_path (?h @ ss)"
    using posix_join_clean(2) [of ?h ss] h ss join_clean_ends(1) [OF ss]
    by (cases "ss = []") (auto simp: workspaceTarget_def r)
  have "workspaceTarget r = computer_home \<or> prefix (computer_home @ [47]) (workspaceTarget r)"
    using join_prefix [of ?h ss] by (auto simp: target h(1))
  moreover have "dotdot \<notin> set (split_on 47 (workspaceTarget r))"
    unfolding target by (rule root_split) (use h(2) ss in simp)
  ultimately show ?thesis by blast
qed

subsection \<open>The control service or a command in the container\<close>

text \<open>A caught value: whether it is an error at all, its class, name, message and cause.\<close>

record caught =
  ca_unavailable :: bool
  ca_error :: bool
  ca_name :: jstring
  ca_message :: jstring
  ca_cause :: "jstring option"

definition errorText :: "(jstring \<Rightarrow> jstring) \<Rightarrow> caught \<Rightarrow> jstring" where
  "errorText lower e =
     (if \<not> ca_error e then lower (ca_message e)
      else lower (ca_message e @ (case ca_cause e of None \<Rightarrow> [] | Some m \<Rightarrow> js '' '' @ m)))"

definition isComputerControlUnavailable :: "(jstring \<Rightarrow> jstring) \<Rightarrow> caught \<Rightarrow> bool" where
  "isComputerControlUnavailable lower e =
     (if ca_unavailable e then True
      else if \<not> ca_error e then False
      else if ca_name e = js ''TimeoutError'' \<or> ca_name e = js ''AbortError'' then False
      else
        list_ex (\<lambda>code. contains_sub code (errorText lower e))
          [js ''econnrefused'', js ''enotfound'', js ''ehostunreach'', js ''enetunreach'',
           js ''eai_again''])"

datatype 'a control_attempt = AttemptOk 'a | AttemptUnavailable | AttemptFailed caught

definition attemptComputerControl ::
    "(jstring \<Rightarrow> jstring) \<Rightarrow> (caught + 'a) option \<Rightarrow> 'a control_attempt" where
  "attemptComputerControl lower run =
     (case run of
        None \<Rightarrow> AttemptUnavailable
      | Some (Inr v) \<Rightarrow> AttemptOk v
      | Some (Inl e) \<Rightarrow>
          if isComputerControlUnavailable lower e then AttemptUnavailable
          else AttemptFailed (if ca_error e then e else e\<lparr>ca_error := True\<rparr>))"

definition shouldReplayComputerActions :: "'a control_attempt \<Rightarrow> bool" where
  "shouldReplayComputerActions a = (case a of AttemptUnavailable \<Rightarrow> True | _ \<Rightarrow> False)"

definition preferComputerControl :: "(caught + 'a) option \<Rightarrow> caught + 'a \<Rightarrow> caught + 'a" where
  "preferComputerControl run fallback =
     (case run of None \<Rightarrow> fallback | Some (Inl e) \<Rightarrow> fallback | Some (Inr v) \<Rightarrow> Inr v)"

text \<open>
  The request for actions: the answer of the control service if there is one, whether a command
  in the container applies the actions, and how the command and the observation would end. The
  first component of the result says whether the actions were applied in the container.
\<close>

definition post_actions ::
    "(jstring \<Rightarrow> jstring) \<Rightarrow> (caught + int \<times> 'o option) option \<Rightarrow> caught option \<Rightarrow> caught + 'o \<Rightarrow>
     computer_action list \<Rightarrow> bool option \<Rightarrow> bool \<times> (caught + int \<times> 'o option)" where
  "post_actions lower control apply_error observed actions observe =
     (case attemptComputerControl lower control of
        AttemptFailed e \<Rightarrow> (False, Inl e)
      | attempt \<Rightarrow>
          let result = (case attempt of AttemptOk v \<Rightarrow> Some v | _ \<Rightarrow> None);
              replay = (shouldReplayComputerActions attempt \<and> actions \<noteq> []);
              completed = (case result of Some (n, _) \<Rightarrow> n | None \<Rightarrow> int (length actions));
              seen = (case result of Some (_, ob) \<Rightarrow> ob | None \<Rightarrow> None)
          in if replay \<and> apply_error \<noteq> None then (True, Inl (the apply_error))
             else if observe = Some False then (replay, Inr (completed, None))
             else (replay,
               (case seen of
                  Some v \<Rightarrow> Inr (completed, Some v)
                | None \<Rightarrow> (case observed of Inl e \<Rightarrow> Inl e | Inr v \<Rightarrow> Inr (completed, Some v)))))"

text \<open>
  Actions are applied by one of the two ways only: by a command in the container exactly when the
  service was never reached, and a service that failed after it was reached is an error.
\<close>

definition service_reached :: "(jstring \<Rightarrow> jstring) \<Rightarrow> (caught + 'a) option \<Rightarrow> bool" where
  "service_reached lower control =
     (case control of None \<Rightarrow> False | Some (Inr v) \<Rightarrow> True
      | Some (Inl e) \<Rightarrow> \<not> isComputerControlUnavailable lower e)"

lemma actions_applied_one_way:
  "fst (post_actions lower control err obs actions observe) \<longleftrightarrow>
     \<not> service_reached lower control \<and> actions \<noteq> []"
  "control = Some (Inl e) \<Longrightarrow> service_reached lower control \<Longrightarrow>
     \<exists>e'. snd (post_actions lower control err obs actions observe) = Inl e'"
  by (auto simp: post_actions_def attemptComputerControl_def service_reached_def Let_def
      shouldReplayComputerActions_def split: option.splits sum.splits if_splits)

subsection \<open>Commands with a time limit\<close>

definition sandboxTimeoutCommand ::
    "(rat \<Rightarrow> jstring) \<Rightarrow> jstring list \<Rightarrow> rat \<Rightarrow> jstring \<Rightarrow> jstring list" where
  "sandboxTimeoutCommand number_text argv timeoutMs completionMarker =
     [js ''timeout'', js ''--kill-after=1s'', number_text (timeoutMs / 1000) @ js ''s'', js ''sh'',
      js ''-c'',
      js ''\"$@\"; status=$?; if [ \"$status\" -eq 124 ]; then : > \"$0\"; fi; exit \"$status\"'',
      completionMarker] @ argv"

definition sandboxCommandTimedOut :: "int \<Rightarrow> bool \<Rightarrow> bool" where
  "sandboxCommandTimedOut exitCode completedWithExit124 \<longleftrightarrow> exitCode = 124 \<and> \<not> completedWithExit124"

text \<open>
  \<open>runContainerCommand\<close> once the command has ended: its output, its exit code and whether the
  completion marker was found in the container.
\<close>

definition command_line ::
    "(rat \<Rightarrow> jstring) \<Rightarrow> jstring \<Rightarrow> jstring list \<Rightarrow> rat option \<Rightarrow> jstring list" where
  "command_line number_text marker argv timeoutMs =
     (case timeoutMs of
        None \<Rightarrow> argv
      | Some t \<Rightarrow> if t = 0 then argv else sandboxTimeoutCommand number_text argv t marker)"

definition command_result ::
    "(rat \<Rightarrow> jstring) \<Rightarrow> rat option \<Rightarrow> bool \<Rightarrow> byte list list \<Rightarrow> int option \<Rightarrow>
     jstring \<times> jstring \<times> int" where
  "command_result number_text timeoutMs marker_found chunks exitCode =
     (let code = or_default exitCode 0;
          marked = (timeoutMs \<noteq> None \<and> timeoutMs \<noteq> Some 0);
          completedWithExit124 = (code = 124 \<and> marked \<and> marker_found);
          timedOut = sandboxCommandTimedOut code completedWithExit124;
          out = demuxDockerStream (concat chunks);
          err = co_stderr out
      in (co_stdout out,
          if timedOut
          then err @ (if (err \<noteq> [] \<and> last err = 10) \<or> err = [] then [] else [10]) @
               js ''command timed out after '' @
               (case timeoutMs of None \<Rightarrow> js ''undefined'' | Some t \<Rightarrow> number_text t) @ js '' ms'' @ [10]
          else err,
          code))"

lemma command_result_output:
  assumes "list_all frame_ok fs" and "concat chunks = stream_bytes fs"
    and "exitCode = Some 124 \<longrightarrow> timeoutMs \<noteq> None \<and> timeoutMs \<noteq> Some 0 \<and> marker_found"
  shows "command_result number_text timeoutMs marker_found chunks exitCode =
           (utf8_string (stream_output False fs), utf8_string (stream_output True fs),
            or_default exitCode 0)"
  using assms(3)
  by (cases exitCode)
    (auto simp: command_result_def Let_def assms(2) demux_frames [OF assms(1)] sandboxCommandTimedOut_def
      or_default_def)

text \<open>The limit of a command, \<open>packages/core/src/sandbox-command.ts\<close>; no number stands for \<open>NaN\<close>.\<close>

definition DEFAULT_SANDBOX_COMMAND_TIMEOUT_MS :: rat where
  "DEFAULT_SANDBOX_COMMAND_TIMEOUT_MS = 5 * 60000"
definition MAX_SANDBOX_COMMAND_TIMEOUT_MS :: rat where
  "MAX_SANDBOX_COMMAND_TIMEOUT_MS = 60 * 60000"

definition validSandboxCommandTimeout :: "rat option \<Rightarrow> bool" where
  "validSandboxCommandTimeout v =
     (case v of
        None \<Rightarrow> False
      | Some t \<Rightarrow> t = of_int \<lfloor>t\<rfloor> \<and> t > 0 \<and> t \<le> MAX_SANDBOX_COMMAND_TIMEOUT_MS)"

definition sandboxCommandTimeoutMs :: "rat option \<Rightarrow> rat" where
  "sandboxCommandTimeoutMs configured =
     (if validSandboxCommandTimeout configured then the configured
      else DEFAULT_SANDBOX_COMMAND_TIMEOUT_MS)"

definition boundedSandboxCommandTimeoutMs :: "rat option \<Rightarrow> rat option \<Rightarrow> rat option option \<Rightarrow> rat" where
  "boundedSandboxCommandTimeoutMs configured requested fallback =
     (if validSandboxCommandTimeout requested then the requested
      else
        (case fallback of
           None \<Rightarrow> sandboxCommandTimeoutMs configured
         | Some f \<Rightarrow> if validSandboxCommandTimeout f then the f else DEFAULT_SANDBOX_COMMAND_TIMEOUT_MS))"

lemma valid_timeout_bounds:
  "validSandboxCommandTimeout v \<Longrightarrow> 0 < the v \<and> the v \<le> 3600000 \<and> the v = of_int \<lfloor>the v\<rfloor>"
  by (auto simp: validSandboxCommandTimeout_def MAX_SANDBOX_COMMAND_TIMEOUT_MS_def split: option.splits)

lemma default_timeout_bounds:
  "0 < DEFAULT_SANDBOX_COMMAND_TIMEOUT_MS \<and> DEFAULT_SANDBOX_COMMAND_TIMEOUT_MS \<le> 3600000 \<and>
   DEFAULT_SANDBOX_COMMAND_TIMEOUT_MS = of_int \<lfloor>DEFAULT_SANDBOX_COMMAND_TIMEOUT_MS\<rfloor>"
  by (simp add: DEFAULT_SANDBOX_COMMAND_TIMEOUT_MS_def)

lemma command_timeout_bounds:
  "0 < boundedSandboxCommandTimeoutMs configured requested fallback \<and>
   boundedSandboxCommandTimeoutMs configured requested fallback \<le> 3600000 \<and>
   boundedSandboxCommandTimeoutMs configured requested fallback =
     of_int \<lfloor>boundedSandboxCommandTimeoutMs configured requested fallback\<rfloor>"
  using valid_timeout_bounds default_timeout_bounds
  by (simp add: boundedSandboxCommandTimeoutMs_def sandboxCommandTimeoutMs_def split: option.split)

end
