(* ===== verification/SandboxNetwork.thy ===== *)
theory SandboxNetwork
  imports SandboxScreens
begin

text \<open>
  Names, networks and addresses of the containers, \<open>computer-spec.ts\<close>, \<open>supervisor-logic.ts\<close> and
  \<open>index.ts\<close> of \<open>infra/sandboxes/supervisor/src\<close>. \<open>hash\<close> is the hexadecimal digest of the code. The
  container engine is a state of networks with the containers attached to them; what it may refuse
  to do is the argument \<open>works\<close>.
\<close>

subsection \<open>Who a request is from\<close>

definition assertRequestIdentity ::
    "jstring option \<Rightarrow> jstring option \<Rightarrow> jstring \<Rightarrow> jstring \<Rightarrow> bool" where
  "assertRequestIdentity botId workspaceId expectedBot expectedWorkspace \<longleftrightarrow>
     \<not> (botId \<noteq> Some expectedBot \<or> workspaceId \<noteq> Some expectedWorkspace)"

record container_info =
  ct_image :: jstring
  ct_labels :: "(jstring \<times> jstring) list"

definition label_of :: "container_info \<Rightarrow> string \<Rightarrow> jstring option" where
  "label_of info name = map_of (ct_labels info) (js name)"

definition isRakazoContainer ::
    "jstring \<Rightarrow> container_info \<Rightarrow> jstring \<Rightarrow> jstring \<Rightarrow> bool" where
  "isRakazoContainer computerImage info botId workspaceId \<longleftrightarrow>
     (label_of info ''rakazo.managed'' = Some (js ''true'') \<or> ct_image info = computerImage) \<and>
     label_of info ''rakazo.botId'' = Some botId \<and>
     label_of info ''rakazo.workspaceId'' = Some workspaceId"

datatype managed_error = MissingIdentity | IdentityMismatch

definition managedContainer ::
    "jstring \<Rightarrow> container_info \<Rightarrow> jstring option \<Rightarrow> jstring option \<Rightarrow> managed_error + container_info" where
  "managedContainer computerImage info botId workspaceId =
     (if \<not> truthy botId \<or> \<not> truthy workspaceId then Inl MissingIdentity
      else if \<not> isRakazoContainer computerImage info (the botId) (the workspaceId)
      then Inl IdentityMismatch
      else Inr info)"

lemma managed_container_owner:
  "managedContainer img info botId workspaceId = Inr r \<Longrightarrow>
   label_of info ''rakazo.botId'' = botId \<and> label_of info ''rakazo.workspaceId'' = workspaceId \<and>
   truthy botId \<and> truthy workspaceId"
  by (cases botId; cases workspaceId)
    (auto simp: managedContainer_def isRakazoContainer_def split: if_splits)

subsection \<open>Names\<close>

definition name_char :: "jchar \<Rightarrow> bool" where
  "name_char c \<longleftrightarrow>
     (97 \<le> c \<and> c \<le> 122) \<or> (65 \<le> c \<and> c \<le> 90) \<or> (48 \<le> c \<and> c \<le> 57) \<or> c = 95 \<or> c = 46 \<or> c = 45"

definition sanitizeIdentifier :: "jstring \<Rightarrow> jstring" where
  "sanitizeIdentifier botId =
     (let safe = take 40 (filter name_char botId) in if safe \<noteq> [] then safe else js ''box'')"

definition containerNameFor :: "jstring \<Rightarrow> jstring" where
  "containerNameFor botId = js ''rakazo-bot-'' @ sanitizeIdentifier botId"

definition computerNetworkNameFor :: "(jstring \<Rightarrow> jstring) \<Rightarrow> jstring \<Rightarrow> jstring" where
  "computerNetworkNameFor hash botId =
     js ''rakazo-computer-'' @ take 32 (sanitizeIdentifier botId) @ js ''-'' @ take 32 (hash botId)"

definition computerNetworkNamesForCleanup :: "(jstring \<Rightarrow> jstring) \<Rightarrow> jstring \<Rightarrow> jstring list" where
  "computerNetworkNamesForCleanup hash botId =
     (let safe = sanitizeIdentifier botId; digest = hash botId in
      [computerNetworkNameFor hash botId,
       js ''rakazo-computer-'' @ safe,
       js ''rakazo-computer-'' @ take 32 safe @ js ''-'' @ take 8 digest])"

definition legacyNetworkOwnedSolelyBy :: "jstring \<Rightarrow> jstring option list \<Rightarrow> bool" where
  "legacyNetworkOwnedSolelyBy botId owners = list_all (\<lambda>x. x = Some botId) owners"

lemma container_name_chars:
  "c \<in> set (containerNameFor botId) \<Longrightarrow> name_char c" and "length (containerNameFor botId) \<le> 51"
proof -
  have "list_all name_char (js ''rakazo-bot-'')" "list_all name_char (js ''box'')"
    by (simp_all add: js_def name_char_def)
  then show "c \<in> set (containerNameFor botId) \<Longrightarrow> name_char c"
    by (auto simp: containerNameFor_def sanitizeIdentifier_def Let_def list_all_iff dest!: in_set_takeD
        split: if_splits)
  show "length (containerNameFor botId) \<le> 51"
    by (simp add: containerNameFor_def sanitizeIdentifier_def Let_def)
qed

subsection \<open>Removing the networks of a bot\<close>

type_synonym networks = "(jstring \<times> jstring list) list"

datatype engine_call = Disconnect jstring jstring | RemoveNetwork jstring

definition disconnect :: "(engine_call \<Rightarrow> bool) \<Rightarrow> jstring \<Rightarrow> jstring \<Rightarrow> networks \<Rightarrow> networks" where
  "disconnect works name container nets =
     (if works (Disconnect name container)
      then map (\<lambda>(n, cs). (n, if n = name then filter (\<lambda>c. c \<noteq> container) cs else cs)) nets
      else nets)"

text \<open>The engine removes only a network without containers.\<close>

definition remove_network :: "(engine_call \<Rightarrow> bool) \<Rightarrow> jstring \<Rightarrow> networks \<Rightarrow> networks" where
  "remove_network works name nets =
     (if works (RemoveNetwork name) \<and> map_of nets name = Some []
      then filter (\<lambda>(n, cs). n \<noteq> name) nets else nets)"

definition attached :: "networks \<Rightarrow> jstring \<Rightarrow> jstring list" where
  "attached nets name = (case map_of nets name of None \<Rightarrow> [] | Some cs \<Rightarrow> cs)"

text \<open>The label of a container, none when it cannot be inspected.\<close>

definition remove_one_network ::
    "(engine_call \<Rightarrow> bool) \<Rightarrow> (jstring \<Rightarrow> jstring option) \<Rightarrow> jstring \<Rightarrow> jstring \<Rightarrow> jstring \<Rightarrow>
     networks \<Rightarrow> networks" where
  "remove_one_network works bot_label botId currentName name nets =
     (case map_of nets name of
        None \<Rightarrow> nets
      | Some containerIds \<Rightarrow>
          let legacy = (name \<noteq> currentName);
              owners = map bot_label containerIds;
              own = filter (\<lambda>c. bot_label c = Some botId) containerIds;
              nets1 = (if legacy then fold (disconnect works name) own nets else nets)
          in if legacy \<and> \<not> legacyNetworkOwnedSolelyBy botId owners then nets1
             else remove_network works name (fold (disconnect works name) (attached nets1 name) nets1))"

definition removeBotNetwork ::
    "(engine_call \<Rightarrow> bool) \<Rightarrow> (jstring \<Rightarrow> jstring option) \<Rightarrow> (jstring \<Rightarrow> jstring) \<Rightarrow> jstring \<Rightarrow>
     networks \<Rightarrow> networks" where
  "removeBotNetwork works bot_label hash botId nets =
     fold (remove_one_network works bot_label botId (computerNetworkNameFor hash botId))
       (computerNetworkNamesForCleanup hash botId) nets"

text \<open>The name of the network a new container of a bot gets.\<close>

datatype screen_network_mode = Published | Internal | Isolated

definition resolveScreenNetworkMode :: "jstring option \<Rightarrow> jstring + screen_network_mode" where
  "resolveScreenNetworkMode v =
     (if \<not> truthy v \<or> v = Some (js ''published'') then Inr Published
      else if v = Some (js ''internal'') then Inr Internal
      else if v = Some (js ''isolated'') then Inr Isolated
      else Inl (js ''Unsupported SANDBOX_SCREEN_NETWORK value: '' @ the v))"

definition computerNetworkName ::
    "(jstring \<Rightarrow> jstring) \<Rightarrow> screen_network_mode \<Rightarrow> jstring \<Rightarrow> jstring list option \<Rightarrow>
     jstring + jstring option" where
  "computerNetworkName hash mode botId own_networks =
     (if mode = Internal
      then Inr (case own_networks of None \<Rightarrow> None | Some ns \<Rightarrow> if ns = [] then None else Some (hd ns))
      else if mode = Isolated \<and> own_networks = None
      then Inl (js ''isolated Compose screens require a containerized supervisor'')
      else Inr (Some (computerNetworkNameFor hash botId)))"

lemma map_of_disconnect:
  "map_of (disconnect works name c nets) n =
     (if works (Disconnect name c) \<and> n = name then map_option (filter (\<lambda>x. x \<noteq> c)) (map_of nets n)
      else map_of nets n)"
  by (induction nets) (auto simp: disconnect_def)

lemma map_of_remove_network:
  "map_of (remove_network works name nets) n =
     (if works (RemoveNetwork name) \<and> map_of nets name = Some [] \<and> n = name then None
      else map_of nets n)"
proof -
  have f: "map_of (filter (\<lambda>(n, cs). n \<noteq> name) nets) n = (if n = name then None else map_of nets n)" for n
    by (induction nets) auto
  then show ?thesis by (simp add: remove_network_def f)
qed

lemma disconnect_keeps: "c \<noteq> c' \<Longrightarrow>
    c \<in> set (attached (disconnect works name c' nets) n) \<longleftrightarrow> c \<in> set (attached nets n)"
  by (cases "map_of nets n") (auto simp: attached_def map_of_disconnect)

lemma disconnect_other: "n \<noteq> name \<Longrightarrow> attached (disconnect works name c nets) n = attached nets n"
  by (simp add: attached_def map_of_disconnect)

lemma fold_disconnect_keeps:
  "c \<notin> set cs \<Longrightarrow> c \<in> set (attached (fold (disconnect works name) cs nets) n) \<longleftrightarrow> c \<in> set (attached nets n)"
  by (induction cs arbitrary: nets) (auto simp: disconnect_keeps)

lemma fold_disconnect_other:
  "n \<noteq> name \<Longrightarrow> attached (fold (disconnect works name) cs nets) n = attached nets n"
  by (induction cs arbitrary: nets) (auto simp: disconnect_other)

lemma remove_network_keeps:
  "c \<in> set (attached (remove_network works name nets) n) \<longleftrightarrow> c \<in> set (attached nets n)"
  by (auto simp: attached_def map_of_remove_network split: option.splits if_splits)

lemma remove_one_keeps:
  assumes "bot_label c \<noteq> Some botId" and "n = currentName \<longrightarrow> c \<notin> set (attached nets n)"
  shows "c \<in> set (attached (remove_one_network works bot_label botId currentName name nets) n) \<longleftrightarrow>
         c \<in> set (attached nets n)"
proof (cases "map_of nets name")
  case (Some cs)
  let ?own = "filter (\<lambda>x. bot_label x = Some botId) cs"
  let ?nets1 = "if name \<noteq> currentName then fold (disconnect works name) ?own nets else nets"
  have k1: "c \<in> set (attached ?nets1 n') \<longleftrightarrow> c \<in> set (attached nets n')" for n'
    using assms(1) fold_disconnect_keeps [of c ?own] by simp
  show ?thesis
  proof (cases "name \<noteq> currentName \<and> \<not> legacyNetworkOwnedSolelyBy botId (map bot_label cs)")
    case True
    then show ?thesis using k1 by (simp add: remove_one_network_def Some Let_def)
  next
    case False
    have out: "c \<notin> set (attached ?nets1 name)" if "n = name"
    proof (cases "name = currentName")
      case True
      then show ?thesis using assms(2) that by simp
    next
      case False': False
      with False have "c \<notin> set cs"
        using assms(1) by (auto simp: legacyNetworkOwnedSolelyBy_def list_all_iff)
      then show ?thesis using k1 [of name] Some by (simp add: attached_def)
    qed
    have "c \<in> set (attached (fold (disconnect works name) (attached ?nets1 name) ?nets1) n) \<longleftrightarrow>
          c \<in> set (attached ?nets1 n)"
    proof (cases "n = name")
      case True
      then show ?thesis using out by (intro fold_disconnect_keeps) simp
    next
      case False
      then have "attached (fold (disconnect works name) (attached ?nets1 name) ?nets1) n = attached ?nets1 n"
        by (rule fold_disconnect_other)
      then show ?thesis by (rule arg_cong)
    qed
    then have "c \<in> set (attached (remove_network works name
        (fold (disconnect works name) (attached ?nets1 name) ?nets1)) n) \<longleftrightarrow> c \<in> set (attached nets n)"
      using k1 [of n] by (simp only: remove_network_keeps)
    then show ?thesis
      using False by (simp only: remove_one_network_def Some option.case Let_def if_False)
  qed
qed (simp add: remove_one_network_def)

text \<open>
  Deleting the computer of a bot detaches no container of another bot: names of older releases may
  be shared by bots, and only the new name, which carries the digest, is the bot's own.
\<close>

lemma other_bots_stay_attached:
  assumes "bot_label c \<noteq> Some botId"
    and "c \<notin> set (attached nets (computerNetworkNameFor hash botId))"
  shows "c \<in> set (attached (removeBotNetwork works bot_label hash botId nets) n) \<longleftrightarrow>
         c \<in> set (attached nets n)"
proof -
  let ?one = "remove_one_network works bot_label botId (computerNetworkNameFor hash botId)"
  have "\<forall>n. c \<in> set (attached (fold ?one names nets') n) \<longleftrightarrow> c \<in> set (attached nets' n)"
    if "c \<notin> set (attached nets' (computerNetworkNameFor hash botId))" for names nets'
    using that
  proof (induction names arbitrary: nets')
    case (Cons name names)
    have step: "c \<in> set (attached (?one name nets') n) \<longleftrightarrow> c \<in> set (attached nets' n)" for n
      by (rule remove_one_keeps [where bot_label = bot_label and botId = botId, OF assms(1)])
        (use Cons.prems in blast)
    with Cons show ?case by simp
  qed simp
  with assms(2) show ?thesis by (simp add: removeBotNetwork_def)
qed

subsection \<open>Where a screen is published\<close>

type_synonym container_networks = "(jstring \<times> jstring option) list"

definition network_address :: "jstring option \<Rightarrow> container_networks \<Rightarrow> jstring option" where
  "network_address mode nets =
     (if truthy mode then (case map_of nets (the mode) of None \<Rightarrow> None | Some a \<Rightarrow> a) else None)"

definition resolveScreenPublishTarget ::
    "jstring \<Rightarrow> screen_network_mode \<Rightarrow> jstring option \<Rightarrow> container_networks \<Rightarrow> jstring option \<Rightarrow>
     jstring \<Rightarrow> jstring option \<Rightarrow> (jstring \<times> jstring) option" where
  "resolveScreenPublishTarget defaultHost screenNetwork networkMode nets hostPort containerPort screenHost =
     (if screenNetwork = Internal \<or> screenNetwork = Isolated
      then (let address = network_address networkMode nets in
            if truthy address then Some (the address, containerPort) else None)
      else if truthy hostPort
      then Some (case screenHost of Some h \<Rightarrow> h | None \<Rightarrow> defaultHost, the hostPort)
      else None)"

definition resolveComputerControlEndpoint ::
    "jstring option \<Rightarrow> jstring option \<Rightarrow> container_networks \<Rightarrow> (jstring \<times> jstring) option" where
  "resolveComputerControlEndpoint token networkMode nets =
     (if \<not> truthy token then None
      else
        let first = network_address networkMode nets;
            address = (if truthy first then first
                       else (case List.find (\<lambda>(n, a). truthy a) nets of None \<Rightarrow> None | Some (n, a) \<Rightarrow> a))
        in if truthy address
           then Some (js ''http://'' @ the address @ js '':'' @ dec 7070 @ js ''/v1/desktop'', the token)
           else None)"

definition screenUrlFor :: "jstring \<Rightarrow> jstring \<Rightarrow> jstring" where
  "screenUrlFor hostPort host = js ''http://'' @ host @ js '':'' @ hostPort @ js ''/embed.html''"

text \<open>
  An address inside the container network is given out only in the modes whose clients reach it;
  otherwise the published port of the host is.
\<close>

lemma publish_target_mode:
  assumes "resolveScreenPublishTarget dh mode nm nets hp cp sh = Some (host, port)"
  shows "mode = Published \<Longrightarrow> hp = Some port"
    and "mode \<noteq> Published \<Longrightarrow> network_address nm nets = Some host \<and> port = cp"
  using assms
  by (auto simp: resolveScreenPublishTarget_def Let_def dest!: truthy_SomeD split: if_splits)
    (cases mode; auto simp: resolveScreenPublishTarget_def Let_def dest!: truthy_SomeD split: if_splits)+

end
