(* ===== verification/UpdateSource.thy ===== *)
theory UpdateSource
  imports WorkspacePaths
begin

text \<open>
  Where a deployment gets its updates from, \<open>packages/core/src/self-update.ts\<close>: repository
  addresses and branches a user may enter, the state of a checkout, and the steps of an update from
  source. \<open>parse_url\<close> is the constructor \<open>URL\<close> of the platform, the parts it reads; \<open>lower\<close> is
  \<open>toLowerCase\<close>.
\<close>

subsection \<open>Characters\<close>

definition safe_char :: "jchar \<Rightarrow> bool" where
  "safe_char c \<longleftrightarrow> ascii_alnum c \<or> c \<in> set (js ''._-'')"

definition safe_segment :: "jstring \<Rightarrow> bool" where
  "safe_segment s \<longleftrightarrow> s \<noteq> [] \<and> list_all safe_char s"

definition hasUnsafeCharacter :: "jstring \<Rightarrow> bool" where
  "hasUnsafeCharacter s \<longleftrightarrow> list_ex (\<lambda>c. c \<le> 0x20 \<or> c = 0x7f) s"

definition hex_char :: "bool \<Rightarrow> jchar \<Rightarrow> bool" where
  "hex_char upper c \<longleftrightarrow> (48 \<le> c \<and> c \<le> 57) \<or> (97 \<le> c \<and> c \<le> 102) \<or> (upper \<and> 65 \<le> c \<and> c \<le> 70)"

subsection \<open>Repositories\<close>

record url_parts =
  ur_protocol :: jstring
  ur_username :: jstring
  ur_password :: jstring
  ur_hostname :: jstring
  ur_port :: jstring
  ur_pathname :: jstring
  ur_search :: jstring
  ur_hash :: jstring

datatype source_error = UrlRequired | UrlTooLong | UrlUnsafe | UrlDash | BadRepoPath | NotAUrl
  | ProtocolNotAllowed | NoHost | UrlCredentials | BadSshUser | UrlQuery
  | BranchRequired | BranchTooLong | BranchRejected | BranchDash

definition OFFICIAL_REPO_URL :: jstring where
  "OFFICIAL_REPO_URL = js ''https://github.com/elie222/rakazo''"
definition DEFAULT_UPDATE_BRANCH :: jstring where "DEFAULT_UPDATE_BRANCH = js ''main''"
definition DEFAULT_UPDATE_REMOTE :: jstring where "DEFAULT_UPDATE_REMOTE = js ''origin''"

text \<open>\<open>user@host:path\<close>, the parts of an address without a protocol.\<close>

definition scp_like :: "jstring \<Rightarrow> (jstring \<times> jstring \<times> jstring) option" where
  "scp_like s =
     (let user = takeWhile (\<lambda>c. c \<noteq> 64) s; r = drop (Suc (length user)) s;
          host = takeWhile (\<lambda>c. c \<noteq> 58) r; path = drop (Suc (length host)) r
      in if 64 \<in> set s \<and> 58 \<in> set r \<and> safe_segment user \<and> safe_segment host \<and>
            path \<noteq> [] \<and> 58 \<notin> set path
         then Some (user, host, path) else None)"

definition normalizeRepoPath :: "jstring \<Rightarrow> jstring option" where
  "normalizeRepoPath raw =
     (let segs = filter (\<lambda>s. s \<noteq> []) (split_on 47 raw) in
      if length segs < 2 then None
      else if list_ex (\<lambda>s. \<not> safe_segment s \<or> s = dot \<or> s = dotdot) segs then None
      else Some (join_path segs))"

definition normalize_url :: "url_parts \<Rightarrow> source_error + jstring" where
  "normalize_url u =
     (let https = js ''https:''; ssh = js ''ssh:'' in
      if ur_protocol u \<noteq> https \<and> ur_protocol u \<noteq> ssh then Inl ProtocolNotAllowed
      else if ur_hostname u = [] then Inl NoHost
      else if ur_password u \<noteq> [] \<or> (ur_protocol u = https \<and> ur_username u \<noteq> []) then Inl UrlCredentials
      else if ur_protocol u = ssh \<and> ur_username u \<noteq> [] \<and> \<not> safe_segment (ur_username u)
      then Inl BadSshUser
      else if ur_search u \<noteq> [] \<or> ur_hash u \<noteq> [] then Inl UrlQuery
      else (case normalizeRepoPath (ur_pathname u) of
              None \<Rightarrow> Inl BadRepoPath
            | Some path \<Rightarrow>
                let credentials = (if ur_username u = [] then [] else ur_username u @ js ''@'');
                    port = (if ur_port u = [] then [] else js '':'' @ ur_port u)
                in Inr (ur_protocol u @ js ''//'' @ credentials @ ur_hostname u @ port @ js ''/'' @ path)))"

definition normalizeRepoUrl :: "(jstring \<Rightarrow> url_parts option) \<Rightarrow> jstring \<Rightarrow> source_error + jstring" where
  "normalizeRepoUrl parse_url raw =
     (let s = trim raw in
      if s = [] then Inl UrlRequired
      else if length s > 400 then Inl UrlTooLong
      else if hasUnsafeCharacter s then Inl UrlUnsafe
      else if prefix (js ''-'') s then Inl UrlDash
      else (case scp_like s of
              Some (user, host, path) \<Rightarrow>
                (case normalizeRepoPath path of
                   None \<Rightarrow> Inl BadRepoPath
                 | Some p \<Rightarrow> Inr (user @ js ''@'' @ host @ js '':'' @ p))
            | None \<Rightarrow> (case parse_url s of None \<Rightarrow> Inl NotAUrl | Some u \<Rightarrow> normalize_url u)))"

definition strip_suffix :: "jstring \<Rightarrow> jstring \<Rightarrow> jstring" where
  "strip_suffix suf s = (if suffix suf s then take (length s - length suf) s else s)"

definition safeHost :: "(jstring \<Rightarrow> url_parts option) \<Rightarrow> jstring \<Rightarrow> jstring option" where
  "safeHost parse_url url = map_option ur_hostname (parse_url url)"

definition safePath :: "(jstring \<Rightarrow> url_parts option) \<Rightarrow> jstring \<Rightarrow> jstring option" where
  "safePath parse_url url = map_option (\<lambda>u. dropWhile (\<lambda>c. c = 47) (ur_pathname u)) (parse_url url)"

definition repoIdentity ::
    "(jstring \<Rightarrow> url_parts option) \<Rightarrow> (jstring \<Rightarrow> jstring) \<Rightarrow> jstring \<Rightarrow> jstring option" where
  "repoIdentity parse_url lower url =
     (case normalizeRepoUrl parse_url url of
        Inl e \<Rightarrow> None
      | Inr normalized \<Rightarrow>
          let hp = (case scp_like normalized of
                      Some (_, host, path) \<Rightarrow> (Some host, Some path)
                    | None \<Rightarrow> (safeHost parse_url normalized, safePath parse_url normalized))
          in (case hp of
                (Some host, Some path) \<Rightarrow> Some (lower (host @ js ''/'' @ strip_suffix (js ''.git'') path))
              | _ \<Rightarrow> None))"

definition isOfficialRepoUrl ::
    "(jstring \<Rightarrow> url_parts option) \<Rightarrow> (jstring \<Rightarrow> jstring) \<Rightarrow> jstring \<Rightarrow> bool" where
  "isOfficialRepoUrl parse_url lower url \<longleftrightarrow>
     repoIdentity parse_url lower url \<noteq> None \<and>
     repoIdentity parse_url lower url = repoIdentity parse_url lower OFFICIAL_REPO_URL"

subsection \<open>Branches and commits\<close>

definition branch_reject_char :: "jchar \<Rightarrow> bool" where
  "branch_reject_char c \<longleftrightarrow> is_ws c \<or> c \<in> set (js ''~^:?*['') \<or> c = 92"

definition normalizeUpdateBranch :: "jstring \<Rightarrow> source_error + jstring" where
  "normalizeUpdateBranch raw =
     (let branch = trim raw; components = split_on 47 branch in
      if branch = [] then Inl BranchRequired
      else if length branch > 200 then Inl BranchTooLong
      else if hasUnsafeCharacter branch \<or> list_ex branch_reject_char branch then Inl BranchRejected
      else if prefix (js ''-'') branch then Inl BranchDash
      else if contains_sub (js ''..'') branch \<or> contains_sub (js ''@'' @ js ''{'') branch then Inl BranchRejected
      else if branch = js ''@'' \<or> suffix (js ''.'') branch \<or> prefix (js ''/'') branch \<or>
              suffix (js ''/'') branch \<or> contains_sub (js ''//'') branch \<or>
              list_ex (prefix (js ''.'')) components \<or> list_ex (suffix (js ''.lock'')) components
      then Inl BranchRejected
      else Inr branch)"

definition isGitCommit :: "jstring \<Rightarrow> bool" where
  "isGitCommit v \<longleftrightarrow> (length (trim v) = 40 \<or> length (trim v) = 64) \<and> list_all (hex_char True) (trim v)"

definition shortCommit :: "jstring option \<Rightarrow> jstring" where
  "shortCommit c = (if truthy c then take 7 (trim (the c)) else js ''unknown'')"

subsection \<open>The checkout\<close>

record porcelain_status =
  po_clean :: bool
  po_changed :: "jstring list"

definition parseGitStatusPorcelain :: "jstring \<Rightarrow> porcelain_status" where
  "parseGitStatusPorcelain out =
     (let changed = filter (\<lambda>p. p \<noteq> [])
            (map (\<lambda>l. trim (drop 3 l)) (filter (\<lambda>l. trim l \<noteq> []) (map trim_end (split_on 10 out))))
      in \<lparr>po_clean = (changed = []), po_changed = changed\<rparr>)"

datatype update_availability =
    Unavailable "jstring option"
  | Dirty "jstring list"
  | UpToDate jstring
  | Available jstring jstring int

definition decideUpdateAvailability ::
    "jstring option \<Rightarrow> jstring option \<Rightarrow> jstring option \<Rightarrow> int option \<Rightarrow> porcelain_status option \<Rightarrow>
     update_availability" where
  "decideUpdateAvailability checkoutReason commit targetCommit behindBy status =
     (if truthy checkoutReason then Unavailable checkoutReason
      else if \<not> truthy commit \<or> \<not> truthy targetCommit then Unavailable None
      else if status \<noteq> None \<and> \<not> po_clean (the status) then Dirty (po_changed (the status))
      else if commit = targetCommit then UpToDate (the commit)
      else Available (the commit) (the targetCommit) (case behindBy of None \<Rightarrow> 0 | Some n \<Rightarrow> n))"

subsection \<open>The steps of an update from source\<close>

record update_step =
  us_id :: string
  us_label :: jstring
  us_command :: string
  us_args :: "jstring list"

definition words_of :: "string list \<Rightarrow> jstring list" where
  "words_of ws = map js ws"

definition make_step :: "string \<Rightarrow> string \<Rightarrow> string \<Rightarrow> jstring list \<Rightarrow> update_step" where
  "make_step i l c as = \<lparr>us_id = i, us_label = js l, us_command = c, us_args = as\<rparr>"

definition updateSteps ::
    "jstring option \<Rightarrow> jstring \<Rightarrow> jstring \<Rightarrow> jstring \<Rightarrow> bool \<Rightarrow> update_step list option" where
  "updateSteps remote remoteUrl branch targetCommit repointRemote =
     (if \<not> isGitCommit targetCommit then None
      else
        let rem = (case remote of None \<Rightarrow> DEFAULT_UPDATE_REMOTE | Some r \<Rightarrow> r)
        in Some
          ((if repointRemote
            then [make_step ''remote'' ''Point the checkout at the chosen repository'' ''git''
                    (words_of [''remote'', ''set-url''] @ [rem, remoteUrl])] else []) @
           [make_step ''fetch'' ''Fetch the selected branch'' ''git''
              (words_of [''fetch'', ''--no-tags'', ''--prune''] @ [rem, branch]),
            make_step ''merge'' ''Fast-forward to the checked commit'' ''git''
              (words_of [''merge'', ''--ff-only''] @ [targetCommit]),
            make_step ''install'' ''Install dependencies'' ''pnpm''
              (words_of [''install'', ''--frozen-lockfile'']),
            make_step ''generate'' ''Regenerate the database client'' ''pnpm''
              (words_of [''--filter'', ''@rakazo/db'', ''run'', ''generate'']),
            make_step ''build'' ''Build the web app'' ''pnpm''
              (words_of [''--filter'', ''@rakazo/web'', ''run'', ''build'']),
            make_step ''migrate'' ''Apply database migrations'' ''pnpm''
              (words_of [''--filter'', ''@rakazo/db'', ''run'', ''migrate''])]))"

datatype restart_supervisor = DeclaredSupervisor jstring | Systemd | Pm2 | NoSupervisor

definition set_in :: "(string \<Rightarrow> jstring option) \<Rightarrow> string \<Rightarrow> bool" where
  "set_in env name \<longleftrightarrow> (case env name of None \<Rightarrow> False | Some v \<Rightarrow> trim v \<noteq> [])"

definition detectRestartSupervisor :: "(string \<Rightarrow> jstring option) \<Rightarrow> restart_supervisor" where
  "detectRestartSupervisor env =
     (if set_in env ''RAKAZO_UPDATE_RESTART_SUPERVISOR''
      then DeclaredSupervisor (trim (the (env ''RAKAZO_UPDATE_RESTART_SUPERVISOR'')))
      else if set_in env ''INVOCATION_ID'' then Systemd
      else if set_in env ''pm_id'' \<or> set_in env ''PM2_HOME'' then Pm2
      else NoSupervisor)"

subsection \<open>What reaches a command line\<close>

text \<open>
  An accepted repository or branch is one plain argument: it has no white space or control
  character, and it is no option. The one thing needed of \<open>URL\<close> is that its host and port have none
  either, which the URL standard forbids.
\<close>

definition plain_argument :: "jstring \<Rightarrow> bool" where
  "plain_argument s \<longleftrightarrow> s \<noteq> [] \<and> \<not> hasUnsafeCharacter s \<and> \<not> prefix (js ''-'') s"

definition url_parser_ok :: "(jstring \<Rightarrow> url_parts option) \<Rightarrow> bool" where
  "url_parser_ok parse_url \<longleftrightarrow>
     (\<forall>s u. parse_url s = Some u \<longrightarrow>
        \<not> hasUnsafeCharacter (ur_hostname u) \<and> \<not> hasUnsafeCharacter (ur_port u))"

lemma unsafe_append [simp]:
  "hasUnsafeCharacter (s @ t) \<longleftrightarrow> hasUnsafeCharacter s \<or> hasUnsafeCharacter t"
  "hasUnsafeCharacter (c # s) \<longleftrightarrow> (c \<le> 0x20 \<or> c = 0x7f) \<or> hasUnsafeCharacter s"
  "\<not> hasUnsafeCharacter []"
  by (simp_all add: hasUnsafeCharacter_def)

lemma safe_char_plain: "safe_char c \<Longrightarrow> \<not> (c \<le> 0x20 \<or> c = 0x7f)"
  by (auto simp: safe_char_def ascii_alnum_def ascii_lower_letter_def js_def word_le_nat_alt)

lemma safe_segment_plain: "safe_segment s \<Longrightarrow> \<not> hasUnsafeCharacter s"
  using safe_char_plain by (auto simp: safe_segment_def hasUnsafeCharacter_def list_all_iff list_ex_iff)

lemma join_path_plain: "list_all safe_segment ss \<Longrightarrow> \<not> hasUnsafeCharacter (join_path ss)"
  by (induction ss rule: join_path.induct) (simp_all add: safe_segment_plain)

lemma repo_path_plain: "normalizeRepoPath raw = Some p \<Longrightarrow> \<not> hasUnsafeCharacter p"
  by (auto simp: normalizeRepoPath_def Let_def list_ex_iff list_all_iff split: if_splits intro!: join_path_plain)

lemma js_unsafe: "hasUnsafeCharacter (js s) \<longleftrightarrow> list_ex (\<lambda>c. of_char c \<le> (0x20::nat) \<or> of_char c = (0x7f::nat)) s"
proof -
  have "(word_of_nat (of_char c) :: jchar) \<le> 0x20 \<longleftrightarrow> of_char c \<le> (0x20::nat)"
    "(word_of_nat (of_char c) :: jchar) = 0x7f \<longleftrightarrow> of_char c = (0x7f::nat)" for c :: char
  proof -
    have small: "(of_char c :: nat) < 65536"
      using nat_of_char_less_256 [of c] by (rule less_trans) simp
    then have u: "unat (word_of_nat (of_char c) :: jchar) = of_char c" by (simp add: unat_of_nat)
    show "(word_of_nat (of_char c) :: jchar) \<le> 0x20 \<longleftrightarrow> of_char c \<le> (0x20::nat)"
      by (simp add: word_le_nat_alt u)
    show "(word_of_nat (of_char c) :: jchar) = 0x7f \<longleftrightarrow> of_char c = (0x7f::nat)"
      by (simp add: word_unat_eq_iff u)
  qed
  then show ?thesis by (simp add: hasUnsafeCharacter_def js_def list_ex_iff)
qed

lemma prefix_one: "prefix (js [c]) (s @ t) \<longleftrightarrow> (if s = [] then prefix (js [c]) t else prefix (js [c]) s)"
  by (cases s) (auto simp: js_def)

lemma scp_like_parts:
  assumes "scp_like s = Some (user, host, path)"
  shows "safe_segment user" and "safe_segment host" and "s = user @ js ''@'' @ host @ js '':'' @ path"
proof -
  have split: "xs = takeWhile (\<lambda>c. c \<noteq> a) xs @ a # drop (Suc (length (takeWhile (\<lambda>c. c \<noteq> a) xs))) xs"
    if "a \<in> set xs" for a :: jchar and xs
  proof -
    have "dropWhile (\<lambda>c. c \<noteq> a) xs \<noteq> []" using that by (auto simp: dropWhile_eq_Nil_conv)
    then obtain r where r: "dropWhile (\<lambda>c. c \<noteq> a) xs = a # r"
      by (metis (mono_tags, lifting) hd_dropWhile list.collapse)
    then show ?thesis
      by (metis drop_Suc dropWhile_eq_drop list.sel(3) takeWhile_dropWhile_id tl_drop)
  qed
  show "safe_segment user" "safe_segment host"
    using assms by (auto simp: scp_like_def Let_def split: if_splits)
  show "s = user @ js ''@'' @ host @ js '':'' @ path"
    using assms split [of 64 s] split [of 58 "drop (Suc (length (takeWhile (\<lambda>c. c \<noteq> 64) s))) s"]
    by (auto simp: scp_like_def Let_def js_def split: if_splits)
qed

lemma normalized_url_plain:
  assumes "url_parser_ok parse_url" and "normalizeRepoUrl parse_url raw = Inr url"
  shows "plain_argument url"
proof -
  let ?s = "trim raw"
  have ne: "?s \<noteq> []" and plain: "\<not> hasUnsafeCharacter ?s" and nodash: "\<not> prefix (js ''-'') ?s"
    using assms(2) by (auto simp: normalizeRepoUrl_def Let_def split: if_splits)
  consider (scp) user host path p where "scp_like ?s = Some (user, host, path)"
      "normalizeRepoPath path = Some p" "url = user @ js ''@'' @ host @ js '':'' @ p"
    | (url) u where "scp_like ?s = None" "parse_url ?s = Some u" "normalize_url u = Inr url"
    using assms(2) by (auto simp: normalizeRepoUrl_def Let_def split: if_splits option.splits)
  then show ?thesis
  proof cases
    case scp
    note parts = scp_like_parts [OF scp(1)]
    have "user \<noteq> []" using parts(1) by (simp add: safe_segment_def)
    then have "\<not> prefix (js ''-'') url"
      using nodash by (subst (asm) parts(3)) (simp add: scp(3) prefix_one)
    then show ?thesis
      using parts repo_path_plain [OF scp(2)] \<open>user \<noteq> []\<close>
      by (simp add: plain_argument_def scp(3) safe_segment_plain js_unsafe)
  next
    case url
    have h: "\<not> hasUnsafeCharacter (ur_hostname u)" "\<not> hasUnsafeCharacter (ur_port u)"
      using assms(1) url(2) by (auto simp: url_parser_ok_def)
    have pr: "ur_protocol u = js ''https:'' \<or> ur_protocol u = js ''ssh:''"
      and un: "ur_username u = [] \<or> safe_segment (ur_username u)"
      and pa: "\<exists>p. normalizeRepoPath (ur_pathname u) = Some p \<and> url = ur_protocol u @ js ''//'' @
        (if ur_username u = [] then [] else ur_username u @ js ''@'') @ ur_hostname u @
        (if ur_port u = [] then [] else js '':'' @ ur_port u) @ js ''/'' @ p"
      using url(3) by (auto simp: normalize_url_def Let_def split: if_splits option.splits)
    obtain p where p: "normalizeRepoPath (ur_pathname u) = Some p" "url = ur_protocol u @ js ''//'' @
        (if ur_username u = [] then [] else ur_username u @ js ''@'') @ ur_hostname u @
        (if ur_port u = [] then [] else js '':'' @ ur_port u) @ js ''/'' @ p"
      using pa by blast
    have "\<not> prefix (js ''-'') url" "url \<noteq> []"
      using pr by (auto simp: p(2) prefix_one simp del: js_append)
    moreover have "\<not> hasUnsafeCharacter url"
      using pr un h repo_path_plain [OF p(1)] by (auto simp: p(2) js_unsafe safe_segment_plain)
    ultimately show ?thesis by (simp add: plain_argument_def)
  qed
qed

lemma normalized_branch_plain:
  "normalizeUpdateBranch raw = Inr b \<Longrightarrow> plain_argument b \<and> b = trim raw"
  by (auto simp: normalizeUpdateBranch_def Let_def plain_argument_def split: if_splits)

end
