(* ===== verification/ComposeUpdate.thy ===== *)
theory ComposeUpdate
  imports UpdateSource Cron "HOL-Library.AList" "HOL-Library.List_Lexorder"
begin

text \<open>
  Updates of a deployment that runs in containers, \<open>packages/core/src/compose-update.ts\<close>: names and
  tags of images, releases of a repository, the command lines of an update, what an update may do
  here, and where a rollback goes. Numbers in release tags are natural numbers; the source reads
  them as numbers, exact below \<open>2^53\<close>.
\<close>

subsection \<open>Names, tags and commits\<close>

definition PUBLISHED_IMAGE_REPO :: jstring where "PUBLISHED_IMAGE_REPO = js ''elie222/rakazo''"
definition OFFICIAL_SERVER_IMAGE :: jstring where
  "OFFICIAL_SERVER_IMAGE = js ''ghcr.io/'' @ PUBLISHED_IMAGE_REPO @ js ''/app''"
definition LOCAL_IMAGE_TAG :: jstring where "LOCAL_IMAGE_TAG = js ''local''"
definition DEFAULT_IMAGE_TAG :: jstring where "DEFAULT_IMAGE_TAG = LOCAL_IMAGE_TAG"
definition IMAGE_TAG_ENV :: jstring where "IMAGE_TAG_ENV = js ''RAKAZO_IMAGE_TAG''"
definition PREVIOUS_IMAGE_TAG_ENV :: jstring where
  "PREVIOUS_IMAGE_TAG_ENV = js ''RAKAZO_IMAGE_TAG_PREVIOUS''"
definition DEFAULT_COMPOSE_PROJECT_NAME :: jstring where
  "DEFAULT_COMPOSE_PROJECT_NAME = js ''rakazo-prod''"
definition RECREATED_SERVICES :: "jstring list" where
  "RECREATED_SERVICES = words_of [''api'', ''worker'', ''web'']"

definition lower_or_digit :: "jchar \<Rightarrow> bool" where
  "lower_or_digit c \<longleftrightarrow> ascii_lower_letter c \<or> is_digit c"

definition isValidImageTag :: "jstring \<Rightarrow> bool" where
  "isValidImageTag tag \<longleftrightarrow>
     tag \<noteq> [] \<and> length tag \<le> 128 \<and> (ascii_alnum (hd tag) \<or> hd tag = 95) \<and> list_all safe_char tag"

text \<open>Words of one class joined by single separators.\<close>

fun split_any :: "jchar set \<Rightarrow> jstring \<Rightarrow> jstring list" where
  "split_any seps [] = [[]]"
| "split_any seps (c # s) =
     (if c \<in> seps then [] # split_any seps s
      else case split_any seps s of [] \<Rightarrow> [[c]] | w # ws \<Rightarrow> (c # w) # ws)"

definition joined_words :: "jchar set \<Rightarrow> jstring \<Rightarrow> bool" where
  "joined_words seps s \<longleftrightarrow> list_all (\<lambda>w. w \<noteq> [] \<and> list_all lower_or_digit w) (split_any seps s)"

definition image_name_segment :: "jstring \<Rightarrow> bool" where
  "image_name_segment s \<longleftrightarrow> joined_words (set (js ''._-'')) s"

definition image_host :: "jstring \<Rightarrow> bool" where
  "image_host s \<longleftrightarrow>
     (let name = takeWhile (\<lambda>c. c \<noteq> 58) s; port = drop (Suc (length name)) s in
      joined_words (set (js ''.-'')) name \<and>
      (58 \<in> set s \<longrightarrow> port \<noteq> [] \<and> length port \<le> 5 \<and> list_all is_digit port))"

definition isValidImageName :: "jstring \<Rightarrow> bool" where
  "isValidImageName name \<longleftrightarrow>
     name \<noteq> [] \<and> length name \<le> 200 \<and>
     (let segs = split_on 47 name; first_seg = hd segs;
          hasHost = (length segs > 1 \<and> (46 \<in> set first_seg \<or> 58 \<in> set first_seg))
      in (hasHost \<longrightarrow> image_host first_seg) \<and>
         list_all image_name_segment (if hasHost then tl segs else segs))"

definition isValidComposeProjectName :: "jstring \<Rightarrow> bool" where
  "isValidComposeProjectName name \<longleftrightarrow>
     name \<noteq> [] \<and> length name \<le> 64 \<and> ascii_alnum (hd name) \<and>
     list_all (\<lambda>c. ascii_alnum c \<or> c = 95 \<or> c = 45) name"

datatype compose_error = BadProjectName jstring | BadImageName jstring | BadImageTag jstring
  | NoCommit | BadEnvKey jstring | BadEnvValue jstring

definition resolveComposeProjectName :: "(string \<Rightarrow> jstring option) \<Rightarrow> compose_error + jstring" where
  "resolveComposeProjectName env =
     (let read = (\<lambda>n. case env n of None \<Rightarrow> [] | Some v \<Rightarrow> trim v);
          injected = read ''COMPOSE_PROJECT_NAME'';
          candidate = (if injected \<noteq> [] then injected else read ''RAKAZO_COMPOSE_PROJECT_NAME'')
      in if candidate = [] then Inr DEFAULT_COMPOSE_PROJECT_NAME
         else if \<not> isValidComposeProjectName candidate then Inl (BadProjectName candidate)
         else Inr candidate)"

definition imageRef :: "jstring \<Rightarrow> jstring \<Rightarrow> compose_error + jstring" where
  "imageRef name tag =
     (if \<not> isValidImageName name then Inl (BadImageName name)
      else if \<not> isValidImageTag tag then Inl (BadImageTag tag)
      else Inr (name @ js '':'' @ tag))"

definition resolved_commit :: "jstring \<Rightarrow> bool" where
  "resolved_commit c \<longleftrightarrow> 40 \<le> length c \<and> length c \<le> 64 \<and> list_all (hex_char False) c"

definition forkImageTag :: "jstring \<Rightarrow> compose_error + jstring" where
  "forkImageTag commit = (if \<not> resolved_commit commit then Inl NoCommit else Inr (js ''local-'' @ commit))"

definition isLocalImageTag :: "jstring \<Rightarrow> bool" where
  "isLocalImageTag tag \<longleftrightarrow> tag = LOCAL_IMAGE_TAG \<or> prefix (LOCAL_IMAGE_TAG @ js ''-'') tag"

definition commitImageTag :: "jstring \<Rightarrow> compose_error + jstring" where
  "commitImageTag commit = (if \<not> resolved_commit commit then Inl NoCommit else Inr (js ''sha-'' @ commit))"

subsection \<open>Releases\<close>

record release_tag =
  rt_tag :: jstring
  rt_major :: nat
  rt_minor :: nat
  rt_patch :: nat
  rt_prerelease :: "jstring option"

definition read_number :: "jstring \<Rightarrow> (nat \<times> jstring) option" where
  "read_number s =
     (let ds = takeWhile is_digit s in
      if ds = [] then None else Some (digits_value ds, drop (length ds) s))"

definition expect :: "jchar \<Rightarrow> jstring \<Rightarrow> jstring option" where
  "expect c s = (case s of [] \<Rightarrow> None | x # xs \<Rightarrow> if x = c then Some xs else None)"

definition read_prerelease :: "jstring \<Rightarrow> jstring option option" where
  "read_prerelease s =
     (if s = [] then Some None
      else if hd s = 45 \<and> tl s \<noteq> [] \<and> list_all (\<lambda>c. ascii_alnum c \<or> c = 46 \<or> c = 45) (tl s)
      then Some (Some (tl s)) else None)"

definition parseReleaseTag :: "jstring \<Rightarrow> release_tag option" where
  "parseReleaseTag tag =
     Option.bind (expect 118 tag) (\<lambda>r. Option.bind (read_number r) (\<lambda>(major, r).
     Option.bind (expect 46 r) (\<lambda>r. Option.bind (read_number r) (\<lambda>(minor, r).
     Option.bind (expect 46 r) (\<lambda>r. Option.bind (read_number r) (\<lambda>(patch, r).
     Option.bind (read_prerelease r) (\<lambda>pre.
       Some \<lparr>rt_tag = tag, rt_major = major, rt_minor = minor, rt_patch = patch,
             rt_prerelease = pre\<rparr>)))))))"

definition compareReleaseTags :: "release_tag \<Rightarrow> release_tag \<Rightarrow> int" where
  "compareReleaseTags a b =
     (if rt_major a \<noteq> rt_major b then int (rt_major a) - int (rt_major b)
      else if rt_minor a \<noteq> rt_minor b then int (rt_minor a) - int (rt_minor b)
      else if rt_patch a \<noteq> rt_patch b then int (rt_patch a) - int (rt_patch b)
      else if rt_prerelease a = rt_prerelease b then 0
      else if rt_prerelease a = None then 1
      else if rt_prerelease b = None then -1
      else if the (rt_prerelease a) < the (rt_prerelease b) then -1 else 1)"

definition tags_prefix :: jstring where "tags_prefix = js ''refs/tags/''"

definition ref_tag :: "jstring \<Rightarrow> jstring" where
  "ref_tag ref = strip_suffix (js ''^{}'') (drop (length tags_prefix) ref)"

definition uniquePaths :: "jstring list \<Rightarrow> jstring list" where
  "uniquePaths paths = foldl (\<lambda>acc p. if p = [] \<or> p \<in> set acc then acc else acc @ [p]) [] paths"

definition parseLsRemoteTags :: "jstring \<Rightarrow> jstring list" where
  "parseLsRemoteTags out =
     uniquePaths (concat (map (\<lambda>line.
       let fields = split_on 9 line; ref = trim (fields ! 1) in
       if length fields > 1 \<and> prefix tags_prefix ref \<and> ref_tag ref \<noteq> [] \<and> isValidImageTag (ref_tag ref)
       then [ref_tag ref] else []) (split_on 10 out)))"

record remote_release =
  rr_tag :: jstring
  rr_commit :: jstring

type_synonym release_rows = "(jstring \<times> jstring option \<times> jstring option) list"

text \<open>One line of the listing: the direct and the peeled commit of each tag.\<close>

definition add_release_line :: "jstring \<Rightarrow> release_rows \<Rightarrow> release_rows" where
  "add_release_line line rows =
     (let fields = take 2 (split_ws (trim line));
          commit = (if length fields > 0 then fields ! 0 else []);
          ref = (if length fields > 1 then fields ! 1 else []);
          tag = ref_tag ref
      in if \<not> resolved_commit commit \<or> \<not> prefix tags_prefix ref then rows
         else if tag = [] \<or> \<not> isValidImageTag tag then rows
         else (case (case map_of rows tag of None \<Rightarrow> (None, None) | Some e \<Rightarrow> e) of
                 (direct, peeled) \<Rightarrow>
                   AList.update tag
                     (if suffix (js ''^{}'') ref then (direct, Some commit) else (Some commit, peeled)) rows))"

definition parseLsRemoteReleases :: "jstring \<Rightarrow> remote_release list" where
  "parseLsRemoteReleases out =
     concat (map (\<lambda>(tag, direct, peeled).
       case (if peeled \<noteq> None then peeled else direct) of
         None \<Rightarrow> [] | Some c \<Rightarrow> [\<lparr>rr_tag = tag, rr_commit = c\<rparr>])
       (fold add_release_line (split_on 10 out) []))"

definition better_release ::
    "(release_tag \<times> 'a) option \<Rightarrow> release_tag option \<Rightarrow> 'a \<Rightarrow> (release_tag \<times> 'a) option" where
  "better_release best parsed x =
     (case parsed of
        None \<Rightarrow> best
      | Some p \<Rightarrow>
          if rt_prerelease p \<noteq> None then best
          else (case best of
                  None \<Rightarrow> Some (p, x)
                | Some (b, y) \<Rightarrow> if compareReleaseTags p b > 0 then Some (p, x) else Some (b, y)))"

definition selectLatestReleaseTag :: "jstring list \<Rightarrow> jstring option" where
  "selectLatestReleaseTag tags =
     map_option (\<lambda>(b, _). rt_tag b) (foldl (\<lambda>best t. better_release best (parseReleaseTag t) ()) None tags)"

definition selectLatestRelease :: "remote_release list \<Rightarrow> remote_release option" where
  "selectLatestRelease releases =
     map_option (\<lambda>(b, c). \<lparr>rr_tag = rt_tag b, rr_commit = c\<rparr>)
       (foldl (\<lambda>best r. better_release best (parseReleaseTag (rr_tag r)) (rr_commit r)) None releases)"

subsection \<open>What can be updated, and how\<close>

datatype update_strategy = PullImages | BuildImages

definition chooseUpdateStrategy :: "bool \<Rightarrow> update_strategy" where
  "chooseUpdateStrategy official = (if official then PullImages else BuildImages)"

datatype execution_mode = SidecarMode | CheckoutMode | UnavailableMode
datatype install_kind = SidecarInstall | ComposeInstall | SourceInstall

definition resolveExecutionMode :: "bool \<Rightarrow> bool \<Rightarrow> bool \<Rightarrow> execution_mode" where
  "resolveExecutionMode hasUpdater hasCheckout disabled =
     (if disabled then UnavailableMode
      else if hasUpdater then SidecarMode
      else if hasCheckout then CheckoutMode
      else UnavailableMode)"

definition resolveInstallKind :: "bool \<Rightarrow> bool \<Rightarrow> bool \<Rightarrow> bool \<Rightarrow> install_kind \<times> execution_mode" where
  "resolveInstallKind updaterUrlConfigured updaterReachable hasCheckout disabled =
     (if disabled
      then (if updaterUrlConfigured then ComposeInstall
            else if hasCheckout then SourceInstall else ComposeInstall, UnavailableMode)
      else if updaterReachable then (SidecarInstall, SidecarMode)
      else if updaterUrlConfigured then (ComposeInstall, UnavailableMode)
      else if hasCheckout then (SourceInstall, CheckoutMode)
      else (ComposeInstall, UnavailableMode))"

text \<open>What the settings show where the updater cannot act.\<close>

definition COMPOSE_PULL_UPGRADE_COMMANDS :: "jstring list" where
  "COMPOSE_PULL_UPGRADE_COMMANDS = words_of
     [''docker compose --env-file .env -f infra/compose/docker-compose.prod.yml pull api worker web'',
      ''docker compose --env-file .env -f infra/compose/docker-compose.prod.yml up -d --wait --pull never api worker web'']"

definition COMPOSE_LOCAL_BUILD_UPGRADE_COMMANDS :: "jstring list" where
  "COMPOSE_LOCAL_BUILD_UPGRADE_COMMANDS = words_of
     [''git pull'',
      ''GIT_SHA=$(git rev-parse HEAD) docker compose --env-file .env -f infra/compose/docker-compose.prod.yml up -d --wait --pull never --build api worker web'']"

definition SOURCE_MANUAL_UPGRADE_COMMANDS :: "jstring list" where
  "SOURCE_MANUAL_UPGRADE_COMMANDS = words_of
     [''git pull'', ''pnpm --filter @rakazo/db migrate'', ''# Restart the API and worker processes'']"

definition manualUpgradeCommands :: "install_kind \<Rightarrow> jstring option \<Rightarrow> jstring list" where
  "manualUpgradeCommands kind imageTag =
     (let tag = (case imageTag of None \<Rightarrow> [] | Some t \<Rightarrow> trim t) in
      case kind of
        SourceInstall \<Rightarrow> SOURCE_MANUAL_UPGRADE_COMMANDS
      | SidecarInstall \<Rightarrow> []
      | ComposeInstall \<Rightarrow>
          if tag \<noteq> [] \<and> isLocalImageTag tag then COMPOSE_LOCAL_BUILD_UPGRADE_COMMANDS
          else if tag \<noteq> [] then COMPOSE_PULL_UPGRADE_COMMANDS
          else words_of [''# Published release tag''] @ COMPOSE_PULL_UPGRADE_COMMANDS @
               words_of [''# Local tag (rebuild from checkout)''] @ COMPOSE_LOCAL_BUILD_UPGRADE_COMMANDS)"

subsection \<open>Command lines\<close>

record compose_target =
  tg_composeFile :: jstring
  tg_envFiles :: "jstring list"
  tg_projectName :: "jstring option"

definition composeBase :: "compose_target \<Rightarrow> compose_error + jstring list" where
  "composeBase target =
     (let projectName = (case tg_projectName target of None \<Rightarrow> DEFAULT_COMPOSE_PROJECT_NAME | Some p \<Rightarrow> p) in
      if \<not> isValidComposeProjectName projectName then Inl (BadProjectName projectName)
      else Inr (words_of [''compose'', ''-p''] @ [projectName] @
                concat (map (\<lambda>f. [js ''--env-file'', f]) (tg_envFiles target)) @
                [js ''--file'', tg_composeFile target]))"

definition with_base :: "compose_target \<Rightarrow> jstring list \<Rightarrow> compose_error + jstring list" where
  "with_base target as = map_sum id (\<lambda>base. base @ as) (composeBase target)"

definition composePullArgv :: "compose_target \<Rightarrow> compose_error + jstring list" where
  "composePullArgv target = with_base target (words_of [''pull''] @ RECREATED_SERVICES)"

definition composeUpArgv :: "compose_target \<Rightarrow> bool \<Rightarrow> compose_error + jstring list" where
  "composeUpArgv target build =
     with_base target
       (words_of [''up'', ''--detach'', ''--wait'', ''--wait-timeout'', ''300'', ''--pull'', ''never'',
                  if build then ''--build'' else ''--no-build''] @ RECREATED_SERVICES)"

definition composePsArgv :: "compose_target \<Rightarrow> compose_error + jstring list" where
  "composePsArgv target = with_base target (words_of [''ps'', ''--format'', ''json''])"

definition gitStatusArgv :: "jstring list" where
  "gitStatusArgv = words_of [''--no-optional-locks'', ''-c'', ''core.autocrlf=true'', ''status'',
     ''--porcelain'', ''--untracked-files=no'']"

definition gitWorktreeContentDiffArgv :: "jstring list" where
  "gitWorktreeContentDiffArgv = words_of [''--no-optional-locks'', ''-c'', ''core.autocrlf=true'',
     ''diff'', ''--name-only'', ''--ignore-cr-at-eol'']"

definition gitIndexContentDiffArgv :: "jstring list" where
  "gitIndexContentDiffArgv = words_of [''--no-optional-locks'', ''-c'', ''core.autocrlf=true'',
     ''diff'', ''--cached'', ''--name-only'', ''--ignore-cr-at-eol'']"

definition gitUntrackedFilesArgv :: "jstring list" where
  "gitUntrackedFilesArgv = words_of [''--no-optional-locks'', ''ls-files'', ''--others'', ''--exclude-standard'']"

definition parseGitNameOnly :: "jstring \<Rightarrow> jstring list" where
  "parseGitNameOnly out = filter (\<lambda>p. p \<noteq> []) (map trim (split_on 10 out))"

definition resolveTrackedDirtyPaths ::
    "jstring list \<Rightarrow> jstring list \<Rightarrow> bool \<Rightarrow> jstring list \<Rightarrow> bool \<times> jstring list" where
  "resolveTrackedDirtyPaths porcelainChanged contentChanged contentDiffOk untrackedPaths =
     (let dirtyPaths = uniquePaths ((if contentDiffOk then contentChanged else porcelainChanged) @ untrackedPaths)
      in (dirtyPaths \<noteq> [], dirtyPaths))"

definition composeUpdatePlan ::
    "update_strategy \<Rightarrow> compose_target \<Rightarrow> jstring option \<Rightarrow> jstring option \<Rightarrow> bool \<Rightarrow> jstring option \<Rightarrow>
     compose_error + update_step list" where
  "composeUpdatePlan strategy target repoUrl branch repointRemote remote =
     (case strategy of
        BuildImages \<Rightarrow>
          let rem = (case remote of None \<Rightarrow> DEFAULT_UPDATE_REMOTE | Some r \<Rightarrow> r);
              b = (case branch of None \<Rightarrow> js ''main'' | Some x \<Rightarrow> x)
          in (case composeUpArgv target True of
                Inl e \<Rightarrow> Inl e
              | Inr up \<Rightarrow> Inr
                  ((if repointRemote \<and> truthy repoUrl
                    then [make_step ''remote'' ''Point the checkout at the chosen repository'' ''git''
                            (words_of [''remote'', ''set-url''] @ [rem, the repoUrl])] else []) @
                   [make_step ''fetch'' ''Fetch the latest commits'' ''git'' (words_of [''fetch''] @ [rem, b]),
                    \<lparr>us_id = ''checkout'', us_label = js ''Check out '' @ b, us_command = ''git'',
                     us_args = words_of [''checkout''] @ [b]\<rparr>,
                    make_step ''merge'' ''Fast-forward to the fetched commit'' ''git''
                      (words_of [''merge'', ''--ff-only''] @ [rem @ js ''/'' @ b]),
                    make_step ''recreate'' ''Build the new images and recreate the services'' ''docker'' up]))
      | PullImages \<Rightarrow>
          (case (composePullArgv target, composeUpArgv target False) of
             (Inl e, _) \<Rightarrow> Inl e
           | (_, Inl e) \<Rightarrow> Inl e
           | (Inr pull, Inr up) \<Rightarrow> Inr
               [make_step ''pull'' ''Download the new images'' ''docker'' pull,
                make_step ''recreate'' ''Recreate the services'' ''docker'' up]))"

datatype rollback_error = NoPreviousTag | UnusablePreviousTag | PreviousTagRunning

definition rollbackTarget :: "jstring option \<Rightarrow> jstring option \<Rightarrow> rollback_error + jstring" where
  "rollbackTarget currentTag previousTag =
     (if \<not> truthy previousTag then Inl NoPreviousTag
      else if \<not> isValidImageTag (the previousTag) then Inl UnusablePreviousTag
      else if previousTag = currentTag then Inl PreviousTagRunning
      else Inr (the previousTag))"

record update_request =
  uq_repoUrl :: jstring
  uq_branch :: jstring
  uq_official :: bool

datatype request_error = RepoUrlMissing | BranchMissing | BadSource source_error

text \<open>The members of a request are absent where they are no texts.\<close>

definition validateUpdateRequest ::
    "(jstring \<Rightarrow> url_parts option) \<Rightarrow> (jstring \<Rightarrow> jstring) \<Rightarrow> jstring option \<Rightarrow> jstring option \<Rightarrow>
     request_error + update_request" where
  "validateUpdateRequest parse_url lower repoUrl branch =
     (case repoUrl of
        None \<Rightarrow> Inl RepoUrlMissing
      | Some r \<Rightarrow>
        (case branch of
           None \<Rightarrow> Inl BranchMissing
         | Some b \<Rightarrow>
           (case normalizeRepoUrl parse_url r of
              Inl e \<Rightarrow> Inl (BadSource e)
            | Inr url \<Rightarrow>
              (case normalizeUpdateBranch b of
                 Inl e \<Rightarrow> Inl (BadSource e)
               | Inr nb \<Rightarrow> Inr \<lparr>uq_repoUrl = url, uq_branch = nb,
                                uq_official = isOfficialRepoUrl parse_url lower url\<rparr>))))"

subsection \<open>Facts about tags, releases and paths\<close>

lemma hex_safe: "hex_char b c \<Longrightarrow> safe_char c"
  by (auto simp: hex_char_def safe_char_def ascii_alnum_def ascii_lower_letter_def word_le_nat_alt)

lemma made_tag_valid:
  "forkImageTag c = Inr t \<Longrightarrow> isValidImageTag t \<and> isLocalImageTag t"
  "commitImageTag c = Inr t \<Longrightarrow> isValidImageTag t \<and> \<not> isLocalImageTag t"
proof -
  have hex: "resolved_commit c \<Longrightarrow> list_all safe_char c"
    by (auto simp: resolved_commit_def list_all_iff hex_safe)
  have pre: "list_all safe_char (js ''local-'')" "list_all safe_char (js ''sha-'')" by code_simp+
  have hd: "ascii_alnum (hd (js ''local-''))" "ascii_alnum (hd (js ''sha-''))" by code_simp+
  show "forkImageTag c = Inr t \<Longrightarrow> isValidImageTag t \<and> isLocalImageTag t"
    using hex pre hd
    by (auto simp: forkImageTag_def isValidImageTag_def isLocalImageTag_def LOCAL_IMAGE_TAG_def js_append
        resolved_commit_def split: if_splits)
  show "commitImageTag c = Inr t \<Longrightarrow> isValidImageTag t \<and> \<not> isLocalImageTag t"
    using hex pre hd
    by (auto simp: commitImageTag_def isValidImageTag_def isLocalImageTag_def LOCAL_IMAGE_TAG_def
        resolved_commit_def js_def split: if_splits)
qed

lemma uniquePaths_fold:
  "set (foldl (\<lambda>acc p. if p = [] \<or> p \<in> set acc then acc else acc @ [p]) acc paths) =
     set acc \<union> (set paths - {[]})"
  "distinct acc \<Longrightarrow> distinct (foldl (\<lambda>acc p. if p = [] \<or> p \<in> set acc then acc else acc @ [p]) acc paths)"
  by (induction paths arbitrary: acc) auto

lemma uniquePaths_set: "set (uniquePaths paths) = set paths - {[]}" "distinct (uniquePaths paths)"
  by (simp_all add: uniquePaths_def uniquePaths_fold)

text \<open>A checkout counts as clean only if there is no path the readable listings name.\<close>

lemma dirty_when_named:
  "fst (resolveTrackedDirtyPaths porcelain content ok untracked) \<longleftrightarrow>
     (\<exists>p \<in> set (if ok then content else porcelain) \<union> set untracked. p \<noteq> [])"
  using uniquePaths_set(1) [of "(if ok then content else porcelain) @ untracked"]
  by (auto simp: resolveTrackedDirtyPaths_def Let_def simp flip: set_empty)

text \<open>The order of releases, and the newest.\<close>

definition stable_of :: "jstring \<Rightarrow> release_tag option" where
  "stable_of t = (case parseReleaseTag t of
     None \<Rightarrow> None | Some p \<Rightarrow> if rt_prerelease p = None then Some p else None)"

lemma compare_stable:
  assumes "rt_prerelease a = None" and "rt_prerelease b = None" and "rt_prerelease c = None"
  shows "compareReleaseTags a b > 0 \<longleftrightarrow>
      (rt_major a, rt_minor a, rt_patch a) \<noteq> (rt_major b, rt_minor b, rt_patch b) \<and>
      \<not> compareReleaseTags b a > 0"
    and "\<not> compareReleaseTags a b > 0 \<Longrightarrow> \<not> compareReleaseTags b c > 0 \<Longrightarrow> \<not> compareReleaseTags a c > 0"
  using assms by (auto simp: compareReleaseTags_def split: if_splits)

lemma compare_anti:
  "rt_prerelease a = None \<Longrightarrow> rt_prerelease b = None \<Longrightarrow> compareReleaseTags a b > 0 \<Longrightarrow>
   \<not> compareReleaseTags b a > 0"
  by (auto simp: compareReleaseTags_def split: if_splits)

lemma parse_tag: "parseReleaseTag t = Some p \<Longrightarrow> rt_tag p = t"
  by (auto simp: parseReleaseTag_def bind_eq_Some_conv)

lemma better_release_best:
  assumes "\<forall>b y. best = Some (b, y) \<longrightarrow> rt_prerelease b = None"
    and "foldl (\<lambda>best r. better_release best (parseReleaseTag (f r)) (g r)) best rs = Some (b, y)"
  shows "rt_prerelease b = None \<and> (best = Some (b, y) \<or> (\<exists>r \<in> set rs. stable_of (f r) = Some b \<and> y = g r)) \<and>
    (\<forall>b0 y0. best = Some (b0, y0) \<longrightarrow> \<not> compareReleaseTags b0 b > 0) \<and>
    (\<forall>r \<in> set rs. \<forall>q. stable_of (f r) = Some q \<longrightarrow> \<not> compareReleaseTags q b > 0)"
  using assms
proof (induction rs arbitrary: best)
  case Nil
  then show ?case by (simp add: compareReleaseTags_def)
next
  case (Cons r rs)
  let ?best = "better_release best (parseReleaseTag (f r)) (g r)"
  have inv: "\<forall>b y. ?best = Some (b, y) \<longrightarrow> rt_prerelease b = None"
    using Cons.prems(1) by (auto simp: better_release_def split: option.splits if_splits)
  have "foldl (\<lambda>best r. better_release best (parseReleaseTag (f r)) (g r)) ?best rs = Some (b, y)"
    using Cons.prems(2) by simp
  note IH = Cons.IH [OF inv this]
  have src: "?best = best \<or> (\<exists>q. stable_of (f r) = Some q \<and> ?best = Some (q, g r))"
    by (auto simp: better_release_def stable_of_def split: option.splits if_splits)
  have later: "\<not> compareReleaseTags q b > 0"
    if q: "best = Some (q, z) \<or> stable_of (f r) = Some q" for q z
  proof -
    have refl: "\<not> compareReleaseTags q q > 0" by (simp add: compareReleaseTags_def)
    have "\<exists>q' z'. ?best = Some (q', z') \<and> \<not> compareReleaseTags q q' > 0"
      using q
    proof
      assume best: "best = Some (q, z)"
      then have "rt_prerelease q = None" using Cons.prems(1) by simp
      then show ?thesis
        using best refl compare_anti [of _ q]
        by (auto simp: better_release_def split: option.splits)
    next
      assume "stable_of (f r) = Some q"
      then show ?thesis
        using refl by (auto simp: better_release_def stable_of_def split: option.splits if_splits)
    qed
    then obtain q' z' where q': "?best = Some (q', z')" "\<not> compareReleaseTags q q' > 0" by blast
    have "rt_prerelease q = None" using q Cons.prems(1) by (auto simp: stable_of_def split: option.splits if_splits)
    moreover have "rt_prerelease q' = None" "rt_prerelease b = None" "\<not> compareReleaseTags q' b > 0"
      using IH inv q'(1) by auto
    ultimately show ?thesis using compare_stable(2) [of q q' b] q'(2) by blast
  qed
  have "best = Some (b, y) \<or> (\<exists>r' \<in> set (r # rs). stable_of (f r') = Some b \<and> y = g r')"
    using IH src by auto
  with IH later show ?case by (auto simp del: foldl_Cons)
qed

lemma better_release_none:
  "foldl (\<lambda>best r. better_release best (parseReleaseTag (f r)) (g r)) best rs = None \<longleftrightarrow>
     best = None \<and> (\<forall>r \<in> set rs. stable_of (f r) = None)"
proof (induction rs arbitrary: best)
  case (Cons r rs)
  then show ?case
    by (auto simp: better_release_def stable_of_def split: option.splits if_splits)
qed simp

text \<open>The release an update goes to is one of the list, stable, and no stable one is newer.\<close>

lemma latest_release:
  "selectLatestRelease rs = Some r \<Longrightarrow>
     r \<in> set rs \<and> (\<exists>b. stable_of (rr_tag r) = Some b \<and>
       (\<forall>q \<in> set rs. \<forall>p. stable_of (rr_tag q) = Some p \<longrightarrow> \<not> compareReleaseTags p b > 0))"
  "selectLatestRelease rs = None \<longleftrightarrow> (\<forall>r \<in> set rs. stable_of (rr_tag r) = None)"
proof -
  show "selectLatestRelease rs = None \<longleftrightarrow> (\<forall>r \<in> set rs. stable_of (rr_tag r) = None)"
    by (simp add: selectLatestRelease_def better_release_none [where f = rr_tag and g = rr_commit])
  assume "selectLatestRelease rs = Some r"
  then obtain b c where
    b: "foldl (\<lambda>best r. better_release best (parseReleaseTag (rr_tag r)) (rr_commit r)) None rs = Some (b, c)"
    and r: "r = \<lparr>rr_tag = rt_tag b, rr_commit = c\<rparr>"
    by (auto simp: selectLatestRelease_def)
  note best = better_release_best [where f = rr_tag and g = rr_commit, OF _ b]
  then obtain r0 where r0: "r0 \<in> set rs" "stable_of (rr_tag r0) = Some b" "c = rr_commit r0" by auto
  have "rt_tag b = rr_tag r0"
    using r0(2) by (auto simp: stable_of_def dest: parse_tag split: option.splits if_splits)
  then have "r = r0" using r r0(3) by simp
  then show "r \<in> set rs \<and> (\<exists>b. stable_of (rr_tag r) = Some b \<and>
       (\<forall>q \<in> set rs. \<forall>p. stable_of (rr_tag q) = Some p \<longrightarrow> \<not> compareReleaseTags p b > 0))"
    using best r0 by auto
qed

text \<open>The command lines for the container engine know nothing of the request.\<close>

lemma compose_steps_fixed:
  assumes "composeUpdatePlan st target url b repoint rem = Inr steps" and "step \<in> set steps"
    and "us_command step \<noteq> ''git''"
  shows "us_command step = ''docker''" and "st = PullImages \<and> Inr (us_args step) = composePullArgv target \<or>
    Inr (us_args step) = composeUpArgv target (st = BuildImages)"
  using assms
  by (auto simp: composeUpdatePlan_def Let_def make_step_def split: update_strategy.splits sum.splits if_splits)

end
