(* ===== verification/UpdateEnv.thy ===== *)
theory UpdateEnv
  imports ComposeUpdate
begin

text \<open>
  The environment file of a deployment, where the version it runs is pinned: the writer of managed
  assignments (\<open>upsertEnvAssignments\<close> of \<open>packages/core/src/compose-update.ts\<close>) and the reader
  (\<open>infra/updater/src/updater-logic.ts\<close>), with what each takes for an assignment.
\<close>

subsection \<open>The writer\<close>

definition env_key_char :: "jchar \<Rightarrow> bool" where
  "env_key_char c \<longleftrightarrow> (65 \<le> c \<and> c \<le> 90) \<or> is_digit c \<or> c = 95"

definition env_key :: "jstring \<Rightarrow> bool" where
  "env_key k \<longleftrightarrow> k \<noteq> [] \<and> 65 \<le> hd k \<and> hd k \<le> 90 \<and> list_all env_key_char k"

definition env_value_char :: "jchar \<Rightarrow> bool" where
  "env_value_char c \<longleftrightarrow> ascii_alnum c \<or> c \<in> set (js ''._:/@+-'')"

definition env_value :: "jstring \<Rightarrow> bool" where
  "env_value v \<longleftrightarrow> length v \<le> 256 \<and> list_all env_value_char v"

definition managed_key :: "jstring \<Rightarrow> jstring option" where
  "managed_key line =
     (let k = takeWhile env_key_char line in
      if env_key k \<and> prefix (js ''='') (drop (length k) line) then Some k else None)"

definition assignment_line :: "jstring \<Rightarrow> jstring \<Rightarrow> jstring" where
  "assignment_line k v = k @ js ''='' @ v"

definition rewrite_line :: "(jstring \<times> jstring) list \<Rightarrow> jstring \<Rightarrow> jstring" where
  "rewrite_line assignments line =
     (case managed_key line of
        None \<Rightarrow> line
      | Some k \<Rightarrow> (case map_of assignments k of None \<Rightarrow> line | Some v \<Rightarrow> assignment_line k v))"

definition drop_last_empty :: "jstring list \<Rightarrow> jstring list" where
  "drop_last_empty ls = rev (dropWhile (\<lambda>l. l = []) (rev ls))"

definition written_lines :: "(jstring \<times> jstring) list \<Rightarrow> jstring list \<Rightarrow> jstring list" where
  "written_lines assignments lines =
     (let rewritten = map (rewrite_line assignments) lines;
          pending = filter (\<lambda>(k, v). Some k \<notin> set (map managed_key lines)) assignments;
          kept = drop_last_empty rewritten
      in if pending = [] then rewritten
         else (if kept = [] then [] else kept @ [[]]) @ map (\<lambda>(k, v). assignment_line k v) pending)"

definition newline_of :: "jstring \<Rightarrow> jstring" where
  "newline_of contents = (if contains_sub [13, 10] contents then [13, 10] else [10])"

definition upsertEnvAssignments ::
    "jstring \<Rightarrow> (jstring \<times> jstring) list \<Rightarrow> compose_error + jstring" where
  "upsertEnvAssignments contents assignments =
     (case List.find (\<lambda>(k, v). \<not> env_key k \<or> \<not> env_value v) assignments of
        Some (k, v) \<Rightarrow> Inl (if \<not> env_key k then BadEnvKey k else BadEnvValue k)
      | None \<Rightarrow>
          let newline = newline_of contents;
              rendered = join_with newline (written_lines assignments (split_lines contents))
          in Inr (if suffix newline rendered then rendered else rendered @ newline))"

subsection \<open>The reader\<close>

definition unquote :: "jchar \<Rightarrow> jstring \<Rightarrow> jstring" where
  "unquote q v =
     (if length v \<ge> 2 \<and> hd v = q \<and> last v = q \<and> \<not> list_ex line_break_char (butlast (tl v))
      then butlast (tl v) else v)"

definition read_line :: "jstring \<Rightarrow> (jstring \<times> jstring) option" where
  "read_line raw =
     (let line = trim raw; name = takeWhile (\<lambda>c. c \<noteq> 61) line in
      if line = [] \<or> prefix (js ''#'') line \<or> 61 \<notin> set line \<or> name = [] then None
      else Some (trim name, unquote 39 (unquote 34 (trim (drop (Suc (length name)) line)))))"

definition read_lines :: "jstring list \<Rightarrow> jstring \<Rightarrow> jstring option" where
  "read_lines ls key =
     fold (\<lambda>l found. case read_line l of
                       None \<Rightarrow> found | Some (k, v) \<Rightarrow> if k = key then Some v else found) ls None"

definition readEnvAssignment :: "jstring \<Rightarrow> jstring \<Rightarrow> jstring option" where
  "readEnvAssignment contents key = read_lines (split_lines contents) key"

record tag_state =
  ts_currentTag :: jstring
  ts_previousTag :: "jstring option"

definition readTagState :: "jstring \<Rightarrow> tag_state" where
  "readTagState envContents =
     (let usable = (\<lambda>k. case readEnvAssignment envContents k of
                          None \<Rightarrow> None | Some t \<Rightarrow> if isValidImageTag t then Some t else None)
      in \<lparr>ts_currentTag = (case usable IMAGE_TAG_ENV of None \<Rightarrow> DEFAULT_IMAGE_TAG | Some t \<Rightarrow> t),
          ts_previousTag = usable PREVIOUS_IMAGE_TAG_ENV\<rparr>)"

subsection \<open>What a line assigns\<close>

definition assigned :: "jstring \<Rightarrow> jstring \<Rightarrow> jstring option" where
  "assigned key l = (case read_line l of None \<Rightarrow> None | Some (k, v) \<Rightarrow> if k = key then Some v else None)"

fun last_some :: "'a option list \<Rightarrow> 'a option" where
  "last_some [] = None"
| "last_some (x # xs) = (case last_some xs of None \<Rightarrow> x | Some v \<Rightarrow> Some v)"

lemma last_some_append:
  "last_some (xs @ ys) = (case last_some ys of None \<Rightarrow> last_some xs | Some v \<Rightarrow> Some v)"
  by (induction xs) (simp_all split: option.splits)

lemma last_some_None: "last_some xs = None \<longleftrightarrow> (\<forall>x \<in> set xs. x = None)"
  by (induction xs) (auto split: option.splits)

lemma last_some_all:
  assumes "\<forall>x \<in> set xs. x = None \<or> x = Some v" and "Some v \<in> set xs"
  shows "last_some xs = Some v"
proof -
  have "last_some xs \<noteq> None" using assms(2) by (auto simp: last_some_None)
  moreover have "last_some xs = None \<or> last_some xs = Some v"
    using assms(1) by (induction xs) (auto split: option.splits)
  ultimately show ?thesis by (elim disjE) simp_all
qed

lemma read_lines_assigned: "read_lines ls key = last_some (map (assigned key) ls)"
proof -
  have "fold (\<lambda>l found. case read_line l of None \<Rightarrow> found | Some (k, v) \<Rightarrow> if k = key then Some v else found) ls start
      = (case last_some (map (assigned key) ls) of None \<Rightarrow> start | Some v \<Rightarrow> Some v)" for start
    by (induction ls arbitrary: start) (auto simp: assigned_def split: option.splits)
  then show ?thesis by (simp add: read_lines_def split: option.split)
qed

lemma read_line_trim: "trim l = trim l' \<Longrightarrow> read_line l = read_line l'"
  by (simp add: read_line_def)

lemma assigned_cr [simp]: "assigned k (strip_cr l) = assigned k l" "assigned k (l @ [13]) = assigned k l"
  using read_line_trim [OF trim_strip_cr [of l]] read_line_trim [OF trim_snoc_ws [OF ws_cr, of l]]
  by (simp_all add: assigned_def)

lemma assigned_Nil [simp]: "assigned k [] = None"
  by (simp add: assigned_def read_line_def trim_def trim_start_def trim_end_def)

lemma read_assignment:
  assumes k: "k \<noteq> []" "\<forall>c \<in> set k. \<not> is_ws c \<and> c \<noteq> 61" "hd k \<noteq> 35"
  shows "read_line (k @ js ''='' @ r) = Some (k, unquote 39 (unquote 34 (trim r)))"
proof -
  have eq: "js ''='' = [61]" "\<not> is_ws 61" by (simp_all add: js_def is_ws_def)
  obtain c k' where ck: "k = c # k'" using k(1) by (cases k) auto
  have "trim_start (k @ 61 # r) = k @ 61 # r" using k(2) by (simp add: ck trim_start_def)
  then have line: "trim (k @ 61 # r) = k @ 61 # trim_end r"
    by (simp add: trim_def trim_end_keeps eq)
  have name: "takeWhile (\<lambda>c. c \<noteq> 61) (k @ 61 # trim_end r) = k"
    using k(2) by (simp add: takeWhile_tail)
  have "trim k = k" using k(2) by (intro trim_no_ws) simp
  moreover have "\<not> prefix (js ''#'') (k @ 61 # trim_end r)" using k(3) by (simp add: ck js_def)
  ultimately show ?thesis
    using k(1) by (simp add: read_line_def Let_def eq(1) line name trim_of_trim_end)
qed

lemma env_key_plain:
  assumes "env_key k"
  shows "k \<noteq> []" and "\<forall>c \<in> set k. \<not> is_ws c \<and> c \<noteq> 61" and "hd k \<noteq> 35"
    and "takeWhile env_key_char (k @ js ''='' @ r) = k"
proof -
  show "k \<noteq> []" "hd k \<noteq> 35" using assms by (auto simp: env_key_def)
  have plain: "\<not> is_ws c \<and> c \<noteq> 61" if "env_key_char c" for c
    using that by (auto simp: env_key_char_def is_digit_def is_ws_def word_le_nat_alt)
  then show "\<forall>c \<in> set k. \<not> is_ws c \<and> c \<noteq> 61"
    using assms by (auto simp: env_key_def list_all_iff)
  have "\<not> env_key_char 61" by (simp add: env_key_char_def is_digit_def)
  then show "takeWhile env_key_char (k @ js ''='' @ r) = k"
    using assms by (simp add: env_key_def list_all_iff js_def takeWhile_tail)
qed

lemma env_value_plain:
  assumes "env_value v"
  shows "trim v = v" and "unquote 34 v = v" and "unquote 39 v = v" and "10 \<notin> set v"
proof -
  have plain: "\<not> is_ws c \<and> c \<noteq> 34 \<and> c \<noteq> 39 \<and> c \<noteq> 10" if "env_value_char c" for c
    using that
    by (auto simp: env_value_char_def ascii_alnum_def ascii_lower_letter_def is_ws_def js_def word_le_nat_alt)
  have all: "\<forall>c \<in> set v. env_value_char c" using assms by (simp add: env_value_def list_all_iff)
  show "trim v = v" using all plain by (intro trim_no_ws) blast
  show "10 \<notin> set v" using all plain by blast
  have "v = [] \<or> hd v \<noteq> 34 \<and> hd v \<noteq> 39" using all plain [of "hd v"] by (cases v) auto
  then show "unquote 34 v = v" "unquote 39 v = v" by (auto simp: unquote_def)
qed

text \<open>A line the writer takes for a key is one the reader takes for it.\<close>

lemma managed_keyE:
  assumes "managed_key l = Some k"
  obtains r where "env_key k" and "l = k @ js ''='' @ r"
proof -
  have "env_key k" "prefix (js ''='') (drop (length k) l)" "k = takeWhile env_key_char l"
    using assms by (auto simp: managed_key_def Let_def split: if_splits)
  then show thesis
    using that by (metis append_take_drop_id prefixE takeWhile_eq_take)
qed

lemma managed_assigned: "managed_key l = Some k \<Longrightarrow> (assigned k' l \<noteq> None) = (k' = k)"
  by (erule managed_keyE) (simp add: assigned_def read_assignment env_key_plain)

lemma managed_assignment [simp]:
  assumes "env_key k" shows "managed_key (assignment_line k v) = Some k"
  using assms env_key_plain(4) [OF assms, of v]
  by (simp add: managed_key_def assignment_line_def Let_def)

lemma assigned_assignment:
  assumes "env_key k" and "env_value v"
  shows "assigned k' (assignment_line k v) = (if k' = k then Some v else None)"
  using env_key_plain [OF assms(1)] env_value_plain [OF assms(2)]
  by (simp add: assigned_def assignment_line_def read_assignment)

lemma managed_snoc_cr: "managed_key (l @ [13]) = managed_key l"
proof -
  have cr: "\<not> env_key_char 13" by (simp add: env_key_char_def is_digit_def)
  then have t: "takeWhile env_key_char (l @ [13]) = takeWhile env_key_char l"
    by (induction l) simp_all
  have "prefix [61] (xs @ [13]) = prefix [61] xs" for xs :: jstring by (cases xs) auto
  moreover have "drop (length (takeWhile env_key_char l)) (l @ [13]) =
      drop (length (takeWhile env_key_char l)) l @ [13]"
    by (simp add: length_takeWhile_le)
  ultimately show ?thesis by (simp add: managed_key_def t js_def)
qed

lemma managed_cr [simp]: "managed_key (strip_cr l) = managed_key l"
proof (cases "l \<noteq> [] \<and> last l = 13")
  case True
  then have "l = butlast l @ [13]" by (metis append_butlast_last_id)
  with True show ?thesis using managed_snoc_cr [of "butlast l"] by (metis strip_cr_def)
qed (auto simp: strip_cr_def)

subsection \<open>What a write leaves\<close>

text \<open>No assignment the writer does not rewrite follows one that it does.\<close>

fun shadow_free :: "jstring \<Rightarrow> jstring list \<Rightarrow> bool" where
  "shadow_free k [] = True"
| "shadow_free k (l # ls) =
     (if managed_key l = Some k
      then list_all (\<lambda>l'. assigned k l' = None \<or> managed_key l' = Some k) ls
      else shadow_free k ls)"

definition good_assignments :: "(jstring \<times> jstring) list \<Rightarrow> bool" where
  "good_assignments as \<longleftrightarrow> distinct (map fst as) \<and> list_all (\<lambda>(k, v). env_key k \<and> env_value v) as"

lemma good_assignmentsD:
  "good_assignments as \<Longrightarrow> (k, v) \<in> set as \<Longrightarrow> map_of as k = Some v \<and> env_key k \<and> env_value v"
  by (auto simp: good_assignments_def list_all_iff)

lemma rewrite_line_managed:
  assumes "good_assignments as"
  shows "managed_key (rewrite_line as l) = managed_key l"
proof (cases "managed_key l")
  case (Some k)
  show ?thesis
  proof (cases "map_of as k")
    case (Some v)
    have "env_key k" using good_assignmentsD [OF assms map_of_SomeD [OF Some]] by simp
    then show ?thesis using Some \<open>managed_key l = Some k\<close> by (simp add: rewrite_line_def)
  qed (simp add: rewrite_line_def Some)
qed (simp add: rewrite_line_def)

lemma rewrite_line_assigned:
  assumes "good_assignments as"
  shows "assigned k (rewrite_line as l) =
    (case map_of as k of
       Some v \<Rightarrow> if managed_key l = Some k then Some v else assigned k l
     | None \<Rightarrow> assigned k l)"
proof (cases "managed_key l")
  case None
  then show ?thesis by (simp add: rewrite_line_def split: option.split)
next
  case (Some k')
  show ?thesis
  proof (cases "map_of as k'")
    case None
    with Some show ?thesis by (auto simp: rewrite_line_def split: option.split)
  next
    case (Some v)
    have "env_key k'" "env_value v" using good_assignmentsD [OF assms map_of_SomeD [OF Some]] by auto
    then have "assigned k (rewrite_line as l) = (if k = k' then Some v else None)"
      using Some \<open>managed_key l = Some k'\<close> by (simp add: rewrite_line_def assigned_assignment)
    then show ?thesis
      using managed_assigned [OF \<open>managed_key l = Some k'\<close>, of k] Some \<open>managed_key l = Some k'\<close>
      by (auto split: option.split)
  qed
qed

text \<open>The lines of a file that was put together, up to what makes no difference.\<close>

lemma split_lines_join:
  assumes "\<forall>l \<in> set ls. 10 \<notin> set l" and "ls \<noteq> []" and "nl = [10] \<or> nl = [13, 10]"
    and f: "\<And>l. f (strip_cr l) = f l"
  shows "map f (split_lines (join_with nl ls)) = map f ls"
proof (cases "nl = [10]")
  case True
  then have "split_lines (join_with nl ls) = map strip_cr (butlast ls) @ [last ls]"
    by (simp add: split_lines_def split_join_lf [OF assms(1,2)] Let_def)
  then have "map f (split_lines (join_with nl ls)) = map f (butlast ls @ [last ls])" by (simp add: f)
  then show ?thesis using assms(2) by simp
next
  case False
  then have "split_lines (join_with nl ls) = ls"
    using assms(2,3) by (simp add: split_lines_def split_join_crlf [OF assms(1,2)] Let_def o_def)
  then show ?thesis by simp
qed

lemma shadow_free_cong:
  "map (assigned k) ls = map (assigned k) ls' \<Longrightarrow> map managed_key ls = map managed_key ls' \<Longrightarrow>
   shadow_free k ls = shadow_free k ls'"
proof (induction ls arbitrary: ls')
  case (Cons l ls)
  obtain m ms where ls': "ls' = m # ms" using Cons.prems by (cases ls') auto
  have "list_all (\<lambda>l'. assigned k l' = None \<or> managed_key l' = Some k) ls =
      list_all (\<lambda>(a, m). a = None \<or> m = Some k) (zip (map (assigned k) ls) (map managed_key ls))" for ls
    by (induction ls) simp_all
  then show ?case using Cons ls' by simp
qed simp

lemma shadow_free_append:
  "shadow_free k (xs @ ys) \<longleftrightarrow>
     (if \<exists>l \<in> set xs. managed_key l = Some k
      then shadow_free k xs \<and> list_all (\<lambda>l'. assigned k l' = None \<or> managed_key l' = Some k) ys
      else shadow_free k ys)"
  by (induction xs) auto

lemma drop_last_empty: "\<exists>n. ls = drop_last_empty ls @ replicate n []"
proof -
  have "rev ls = takeWhile (\<lambda>l. l = []) (rev ls) @ dropWhile (\<lambda>l. l = []) (rev ls)" by simp
  then have "ls = drop_last_empty ls @ rev (takeWhile (\<lambda>l. l = []) (rev ls))"
    unfolding drop_last_empty_def by (metis rev_append rev_rev_ident)
  moreover have "rev (takeWhile (\<lambda>l. l = []) (rev ls)) =
      replicate (length (takeWhile (\<lambda>l. l = []) (rev ls))) []"
    by (metis (mono_tags, lifting) length_rev replicate_length_same set_rev set_takeWhileD)
  ultimately show ?thesis by metis
qed

lemma upsert_written:
  assumes "upsertEnvAssignments contents as = Inr c'" and "distinct (map fst as)"
  shows "good_assignments as" and "\<exists>nl ls. (nl = [10] \<or> nl = [13, 10]) \<and> c' = join_with nl ls \<and>
    (ls = written_lines as (split_lines contents) \<or> ls = written_lines as (split_lines contents) @ [[]])"
proof -
  show "good_assignments as"
    using assms by (auto simp: upsertEnvAssignments_def good_assignments_def list_all_iff Let_def
        find_None_iff split: option.splits prod.splits)
  let ?nl = "newline_of contents" and ?ls = "written_lines as (split_lines contents)"
  have c': "c' = (if suffix ?nl (join_with ?nl ?ls) then join_with ?nl ?ls else join_with ?nl ?ls @ ?nl)"
    using assms(1) by (auto simp: upsertEnvAssignments_def Let_def split: option.splits prod.splits)
  have "?ls \<noteq> []" using split_lines_plain(2) [of contents] by (simp add: written_lines_def Let_def)
  then have "join_with ?nl ?ls @ ?nl = join_with ?nl (?ls @ [[]])" using join_with_snoc [of ?ls ?nl "[]"] by simp
  with c' show "\<exists>nl ls. (nl = [10] \<or> nl = [13, 10]) \<and> c' = join_with nl ls \<and> (ls = ?ls \<or> ls = ?ls @ [[]])"
    by (metis newline_of_def)
qed

lemma written_plain:
  assumes "good_assignments as" and "\<forall>l \<in> set lines. 10 \<notin> set l"
  shows "\<forall>l \<in> set (written_lines as lines). 10 \<notin> set l"
proof -
  have asg: "10 \<notin> set (assignment_line k v)" if "(k, v) \<in> set as" for k v
    using good_assignmentsD [OF assms(1) that] env_key_plain(2) [of k] env_value_plain(4) [of v] ws_lf
    by (auto simp: assignment_line_def js_def)
  have rw: "10 \<notin> set (rewrite_line as l)" if "l \<in> set lines" for l
    using asg assms(2) that by (auto simp: rewrite_line_def dest: map_of_SomeD split: option.split)
  have kept: "set (drop_last_empty ls) \<subseteq> set ls" for ls
    by (auto simp: drop_last_empty_def dest: set_dropWhileD)
  show ?thesis
  proof
    fix l assume "l \<in> set (written_lines as lines)"
    then have "l = [] \<or> l \<in> rewrite_line as ` set lines \<or> (\<exists>k v. (k, v) \<in> set as \<and> l = assignment_line k v)"
      using kept [of "map (rewrite_line as) lines"]
      by (fastforce simp: written_lines_def Let_def split: if_splits)
    with asg rw show "10 \<notin> set l" by auto
  qed
qed

text \<open>What the lines assign, before and after.\<close>

lemma assigned_padding:
  "last_some (map (assigned k) (ls @ replicate n [])) = last_some (map (assigned k) ls)"
proof -
  have "last_some (replicate n (None :: jstring option)) = None" by (simp add: last_some_None)
  then show ?thesis by (simp add: last_some_append)
qed

lemma assigned_kept: "last_some (map (assigned k) (drop_last_empty ls)) = last_some (map (assigned k) ls)"
  using drop_last_empty [of ls] assigned_padding by metis

lemma assigned_rewritten:
  assumes "good_assignments as"
  shows "map_of as k = None \<Longrightarrow>
      last_some (map (assigned k) (map (rewrite_line as) lines)) = last_some (map (assigned k) lines)"
    and "map_of as k = Some v \<Longrightarrow> shadow_free k lines \<Longrightarrow> Some k \<in> set (map managed_key lines) \<Longrightarrow>
      last_some (map (assigned k) (map (rewrite_line as) lines)) = Some v"
proof -
  show "map_of as k = None \<Longrightarrow>
      last_some (map (assigned k) (map (rewrite_line as) lines)) = last_some (map (assigned k) lines)"
    using rewrite_line_assigned [OF assms, of k] by (simp add: o_def)
  assume v: "map_of as k = Some v" and "shadow_free k lines" "Some k \<in> set (map managed_key lines)"
  then show "last_some (map (assigned k) (map (rewrite_line as) lines)) = Some v"
  proof (induction lines)
    case (Cons l ls)
    have asg: "assigned k (rewrite_line as l') = (if managed_key l' = Some k then Some v else assigned k l')" for l'
      using rewrite_line_assigned [OF assms, of k l'] v by simp
    show ?case
    proof (cases "managed_key l = Some k")
      case True
      then have "\<forall>l' \<in> set ls. assigned k (rewrite_line as l') \<in> {None, Some v}"
        using Cons.prems(2) by (auto simp: asg list_all_iff)
      then have "\<forall>x \<in> set (map (assigned k) (map (rewrite_line as) (l # ls))). x = None \<or> x = Some v"
        "Some v \<in> set (map (assigned k) (map (rewrite_line as) (l # ls)))"
        using asg True by auto
      then show ?thesis by (rule last_some_all)
    next
      case False
      with Cons show ?thesis by (simp split: option.splits)
    qed
  qed simp
qed

lemma assigned_pending:
  assumes "good_assignments as" and "\<forall>p \<in> set ps. p \<in> set as" and "distinct (map fst ps)"
  shows "last_some (map (assigned k) (map (\<lambda>(k, v). assignment_line k v) ps)) = map_of ps k"
  using assms(2,3)
proof (induction ps)
  case (Cons p ps)
  obtain k' v where p: "p = (k', v)" by force
  have "env_key k'" "env_value v" using good_assignmentsD [OF assms(1), of k' v] Cons.prems(1) p by auto
  moreover have "k = k' \<Longrightarrow> map_of ps k = None" using Cons.prems(2) p by (simp add: map_of_eq_None_iff)
  ultimately show ?case
    using Cons p by (auto simp: assigned_assignment split: option.split)
qed simp

lemma assigned_written:
  assumes good: "good_assignments as"
  shows "map_of as k = None \<Longrightarrow>
      last_some (map (assigned k) (written_lines as lines)) = last_some (map (assigned k) lines)"
    and "map_of as k = Some v \<Longrightarrow> shadow_free k lines \<Longrightarrow>
      last_some (map (assigned k) (written_lines as lines)) = Some v"
proof -
  let ?pending = "filter (\<lambda>(k, v). Some k \<notin> set (map managed_key lines)) as"
  let ?rewritten = "map (rewrite_line as) lines"
  have pend: "last_some (map (assigned k) (map (\<lambda>(k, v). assignment_line k v) ?pending)) = map_of ?pending k"
    using good by (intro assigned_pending [OF good]) (auto simp: good_assignments_def distinct_map_filter)
  have look: "map_of ?pending k = (if Some k \<in> set (map managed_key lines) then None else map_of as k)"
    by (induction as) auto
  have w: "last_some (map (assigned k) (written_lines as lines)) =
      (case map_of ?pending k of None \<Rightarrow> last_some (map (assigned k) ?rewritten) | Some v \<Rightarrow> Some v)"
    using pend assigned_kept [of k ?rewritten]
    by (auto simp: written_lines_def Let_def last_some_append split: option.splits)
  show "map_of as k = None \<Longrightarrow>
      last_some (map (assigned k) (written_lines as lines)) = last_some (map (assigned k) lines)"
    using w look assigned_rewritten(1) [OF good] by simp
  show "map_of as k = Some v \<Longrightarrow> shadow_free k lines \<Longrightarrow>
      last_some (map (assigned k) (written_lines as lines)) = Some v"
    using w look assigned_rewritten(2) [OF good] by (auto split: option.splits)
qed

lemma shadow_free_managed:
  "list_all (\<lambda>l. assigned k l = None \<or> managed_key l = Some k) ys \<Longrightarrow> shadow_free k ys"
  by (induction ys) auto

lemma shadow_free_extend:
  "shadow_free k xs \<Longrightarrow> list_all (\<lambda>l. assigned k l = None \<or> managed_key l = Some k) ys \<Longrightarrow>
   shadow_free k (xs @ ys)"
  by (simp add: shadow_free_append shadow_free_managed)

lemma shadow_free_prefix: "shadow_free k (xs @ ys) \<Longrightarrow> shadow_free k xs"
  by (induction xs) (auto split: if_splits)

lemma shadow_free_rewritten:
  assumes "good_assignments as"
  shows "shadow_free k (map (rewrite_line as) lines) = shadow_free k lines"
proof -
  have "(assigned k (rewrite_line as l) = None) = (assigned k l = None)" for l
    using rewrite_line_assigned [OF assms, of k l] managed_assigned [of l k k]
    by (auto split: option.splits if_splits)
  then show ?thesis
    by (induction lines) (simp_all add: rewrite_line_managed [OF assms] list_all_iff)
qed

lemma shadow_free_written:
  assumes good: "good_assignments as" and sf: "shadow_free k lines"
  shows "shadow_free k (written_lines as lines)"
proof -
  let ?rewritten = "map (rewrite_line as) lines"
  have r: "shadow_free k ?rewritten" using shadow_free_rewritten [OF good] sf by simp
  then have kept: "shadow_free k (drop_last_empty ?rewritten)"
    using drop_last_empty [of ?rewritten] shadow_free_prefix by metis
  have new: "assigned k (assignment_line k' v) = None \<or> managed_key (assignment_line k' v) = Some k"
    if "(k', v) \<in> set as" for k' v
    using good_assignmentsD [OF good that] by (simp add: assigned_assignment)
  have tail: "list_all (\<lambda>l. assigned k l = None \<or> managed_key l = Some k)
      (map (\<lambda>(k, v). assignment_line k v) (filter (\<lambda>(k, v). Some k \<notin> set (map managed_key lines)) as))"
    using new by (fastforce simp: list_all_iff)
  have "shadow_free k ((drop_last_empty ?rewritten @ [[]]) @
      map (\<lambda>(k, v). assignment_line k v) (filter (\<lambda>(k, v). Some k \<notin> set (map managed_key lines)) as))"
    using tail by (intro shadow_free_extend kept) simp_all
  with r shadow_free_managed [OF tail] show ?thesis
    by (simp add: written_lines_def Let_def del: append_assoc)
qed

text \<open>What a write does to an assignment, and that the next write finds the file as well-kept.\<close>

lemma upsert_read:
  assumes up: "upsertEnvAssignments contents as = Inr contents'" and d: "distinct (map fst as)"
  shows "map_of as k = None \<Longrightarrow> readEnvAssignment contents' k = readEnvAssignment contents k"
    and "map_of as k = Some v \<Longrightarrow> shadow_free k (split_lines contents) \<Longrightarrow>
      readEnvAssignment contents' k = Some v"
    and "shadow_free k (split_lines contents) \<Longrightarrow> shadow_free k (split_lines contents')"
proof -
  let ?w = "written_lines as (split_lines contents)"
  note good = upsert_written(1) [OF up d]
  obtain nl ls where nl: "nl = [10] \<or> nl = [13, 10]" and c': "contents' = join_with nl ls"
    and ls: "ls = ?w \<or> ls = ?w @ [[]]"
    using upsert_written(2) [OF up d] by blast
  have ne: "?w \<noteq> []" using split_lines_plain(2) [of contents] by (simp add: written_lines_def Let_def)
  have plain: "\<forall>l \<in> set ls. 10 \<notin> set l"
    using ls written_plain [OF good, of "split_lines contents"] split_lines_plain(1) by auto
  have "ls \<noteq> []" using ls ne by auto
  note lines = split_lines_join [OF plain this nl, folded c']
  have a: "map (assigned k) (split_lines contents') = map (assigned k) ls" by (rule lines) simp
  have m: "map managed_key (split_lines contents') = map managed_key ls" by (rule lines) simp
  have read: "readEnvAssignment contents' k = last_some (map (assigned k) ?w)"
    using ls by (auto simp: readEnvAssignment_def read_lines_assigned a last_some_append simp del: map_map)
  show "map_of as k = None \<Longrightarrow> readEnvAssignment contents' k = readEnvAssignment contents k"
    unfolding read using assigned_written(1) [OF good] by (simp add: readEnvAssignment_def read_lines_assigned)
  show "map_of as k = Some v \<Longrightarrow> shadow_free k (split_lines contents) \<Longrightarrow> readEnvAssignment contents' k = Some v"
    using assigned_written(2) [OF good] by (simp add: read)
  assume "shadow_free k (split_lines contents)"
  then have "shadow_free k ?w" by (rule shadow_free_written [OF good])
  then have "shadow_free k ls" using ls by (auto intro: shadow_free_extend)
  then show "shadow_free k (split_lines contents')" using shadow_free_cong [OF a m] by simp
qed

lemma tag_is_env_value: "isValidImageTag t \<Longrightarrow> env_value t"
  by (auto simp: isValidImageTag_def env_value_def list_all_iff safe_char_def env_value_char_def js_def)

lemma tag_keys: "env_key IMAGE_TAG_ENV" "env_key PREVIOUS_IMAGE_TAG_ENV" "IMAGE_TAG_ENV \<noteq> PREVIOUS_IMAGE_TAG_ENV"
  by code_simp+

text \<open>The two assignments of a version, and a file in which nothing shadows them.\<close>

definition pin_assignments :: "jstring \<Rightarrow> jstring \<Rightarrow> (jstring \<times> jstring) list" where
  "pin_assignments tag previous = [(IMAGE_TAG_ENV, tag), (PREVIOUS_IMAGE_TAG_ENV, previous)]"

definition env_file_ok :: "jstring \<Rightarrow> bool" where
  "env_file_ok contents \<longleftrightarrow> shadow_free IMAGE_TAG_ENV (split_lines contents) \<and>
     shadow_free PREVIOUS_IMAGE_TAG_ENV (split_lines contents)"

lemma pin_writes:
  assumes "isValidImageTag tag" and "isValidImageTag previous"
  obtains contents' where "upsertEnvAssignments contents (pin_assignments tag previous) = Inr contents'"
  using assms by (simp add: upsertEnvAssignments_def pin_assignments_def Let_def tag_keys tag_is_env_value)

lemma pinned:
  assumes "upsertEnvAssignments contents (pin_assignments tag previous) = Inr contents'"
    and ok: "env_file_ok contents" and "isValidImageTag tag" and "isValidImageTag previous"
  shows "readTagState contents' = \<lparr>ts_currentTag = tag, ts_previousTag = Some previous\<rparr>"
    and "env_file_ok contents'"
    and "k \<noteq> IMAGE_TAG_ENV \<Longrightarrow> k \<noteq> PREVIOUS_IMAGE_TAG_ENV \<Longrightarrow>
      readEnvAssignment contents' k = readEnvAssignment contents k"
proof -
  have d: "distinct (map fst (pin_assignments tag previous))"
    using tag_keys(3) by (simp add: pin_assignments_def)
  note up = upsert_read [OF assms(1) d]
  have "readEnvAssignment contents' IMAGE_TAG_ENV = Some tag"
    using ok by (intro up(2)) (simp_all add: pin_assignments_def env_file_ok_def)
  moreover have "readEnvAssignment contents' PREVIOUS_IMAGE_TAG_ENV = Some previous"
    using ok tag_keys(3) by (intro up(2)) (simp_all add: pin_assignments_def env_file_ok_def)
  ultimately show "readTagState contents' = \<lparr>ts_currentTag = tag, ts_previousTag = Some previous\<rparr>"
    using assms(3,4) by (simp add: readTagState_def)
  show "env_file_ok contents'" using ok up(3) by (simp add: env_file_ok_def)
  show "k \<noteq> IMAGE_TAG_ENV \<Longrightarrow> k \<noteq> PREVIOUS_IMAGE_TAG_ENV \<Longrightarrow>
      readEnvAssignment contents' k = readEnvAssignment contents k"
    by (rule up(1)) (simp add: pin_assignments_def)
qed

text \<open>
  The version a deployment is pinned to is read back: after the two assignments are written into
  an environment file, with whatever comments, quotes, line ends and other assignments it has, the
  reader finds exactly these two tags, and every other assignment reads as before; and the next write
  finds a file as well kept as this one. The file must have no assignment of a tag that the writer
  does not recognise after one that it does.
\<close>

theorem pin_is_read_back:
  assumes "env_file_ok contents" and "isValidImageTag tag" and "isValidImageTag previous"
  shows "\<exists>contents'. upsertEnvAssignments contents
             [(IMAGE_TAG_ENV, tag), (PREVIOUS_IMAGE_TAG_ENV, previous)] = Inr contents' \<and>
           readTagState contents' = \<lparr>ts_currentTag = tag, ts_previousTag = Some previous\<rparr> \<and>
           (\<forall>k. k \<noteq> IMAGE_TAG_ENV \<and> k \<noteq> PREVIOUS_IMAGE_TAG_ENV \<longrightarrow>
             readEnvAssignment contents' k = readEnvAssignment contents k) \<and>
           env_file_ok contents'"
proof -
  obtain contents' where up: "upsertEnvAssignments contents (pin_assignments tag previous) = Inr contents'"
    using pin_writes [OF assms(2,3)] .
  then show ?thesis using pinned [OF up assms] unfolding pin_assignments_def by blast
qed

definition example_env_file :: jstring where
  "example_env_file = js ''# tags'' @ [13, 10] @ js ''RAKAZO_IMAGE_TAG=local'' @ [13, 10] @
     js ''DB_URL = \"x y\" '' @ [13, 10]"

theorem pin_is_read_back_witness:
  "env_file_ok example_env_file \<and>
   (\<exists>contents'. upsertEnvAssignments example_env_file
      [(IMAGE_TAG_ENV, js ''v2''), (PREVIOUS_IMAGE_TAG_ENV, js ''local'')] = Inr contents' \<and>
    readTagState contents' = \<lparr>ts_currentTag = js ''v2'', ts_previousTag = Some (js ''local'')\<rparr> \<and>
    readEnvAssignment contents' (js ''DB_URL'') = readEnvAssignment example_env_file (js ''DB_URL''))"
proof -
  have ok: "env_file_ok example_env_file" "isValidImageTag (js ''v2'')" "isValidImageTag (js ''local'')"
    by code_simp+
  have "js ''DB_URL'' \<noteq> IMAGE_TAG_ENV \<and> js ''DB_URL'' \<noteq> PREVIOUS_IMAGE_TAG_ENV" by code_simp
  then show ?thesis using pin_is_read_back [OF ok] ok(1) by blast
qed

text \<open>
  An indented assignment is one to the reader, as it is to the container engine, and not to the
  writer: after a managed one it shadows the pin that is written.
\<close>

lemma indented_assignment_shadows_the_pin:
  "map_sum id readTagState (upsertEnvAssignments
     (js ''RAKAZO_IMAGE_TAG=v1'' @ [10] @ js '' RAKAZO_IMAGE_TAG=v1'' @ [10]) (pin_assignments (js ''v2'') (js ''v1''))) =
   Inr \<lparr>ts_currentTag = js ''v1'', ts_previousTag = Some (js ''v1'')\<rparr>"
  by code_simp

end
