(* ===== verification/Updater.thy ===== *)
theory Updater
  imports UpdateEnv SecretsGuard
begin

text \<open>
  The updater beside a deployment, \<open>infra/updater/src\<close>: it checks a request again, reads the
  checkout and the releases, pins the version in the environment file, recreates the services, and
  undoes what it did when a step fails. The commands it runs are a parameter: what each ends with
  may depend on every command run before it. The texts of advice and the times of a run are not
  modelled.
\<close>

subsection \<open>Configuration\<close>

definition DEFAULT_COMPOSE_FILE :: jstring where
  "DEFAULT_COMPOSE_FILE = js ''infra/compose/docker-compose.prod.yml''"
definition MAX_STEP_OUTPUT :: nat where "MAX_STEP_OUTPUT = 8000"

record updater_config =
  ug_deployDir :: jstring
  ug_composeFile :: jstring
  ug_envFile :: jstring
  ug_projectName :: jstring
  ug_image :: jstring
  ug_token :: jstring
  ug_host :: jstring
  ug_port :: int

datatype config_error = BadDeployDir | BadImage jstring | ComposeFileOutside | BadPort
  | BadProject compose_error | BadToken secret_error

definition env_text :: "process_env \<Rightarrow> string \<Rightarrow> jstring \<Rightarrow> jstring" where
  "env_text env name fallback =
     (case env name of None \<Rightarrow> fallback | Some v \<Rightarrow> if trim v = [] then fallback else trim v)"

definition resolveUpdaterConfig ::
    "(jstring \<Rightarrow> int option) \<Rightarrow> process_env \<Rightarrow> config_error + updater_config" where
  "resolveUpdaterConfig number env =
     (let deployDir = env_text env ''RAKAZO_DEPLOY_DIR'' [];
          image_name = env_text env ''RAKAZO_IMAGE'' OFFICIAL_SERVER_IMAGE;
          composeFile = env_text env ''RAKAZO_COMPOSE_FILE'' DEFAULT_COMPOSE_FILE;
          port = (case env ''RAKAZO_UPDATER_PORT'' of None \<Rightarrow> Some 7092 | Some v \<Rightarrow> number v)
      in if deployDir = [] \<or> \<not> prefix (js ''/'') deployDir then Inl BadDeployDir
         else if \<not> isValidImageName image_name then Inl (BadImage image_name)
         else if prefix (js ''/'') composeFile \<or> dotdot \<in> set (split_on 47 composeFile)
         then Inl ComposeFileOutside
         else (case port of
                 None \<Rightarrow> Inl BadPort
               | Some p \<Rightarrow>
                 if p \<le> 0 \<or> p > 65535 then Inl BadPort
                 else (case resolveComposeProjectName env of
                         Inl e \<Rightarrow> Inl (BadProject e)
                       | Inr project \<Rightarrow>
                         (case resolveUpdaterToken env of
                            Inl e \<Rightarrow> Inl (BadToken e)
                          | Inr token \<Rightarrow> Inr
                              \<lparr>ug_deployDir = deployDir, ug_composeFile = posix_join deployDir composeFile,
                               ug_envFile = posix_join deployDir (js ''.env''), ug_projectName = project,
                               ug_image = image_name, ug_token = token,
                               ug_host = env_text env ''RAKAZO_UPDATER_HOST'' (js ''127.0.0.1''),
                               ug_port = p\<rparr>))))"

definition truncateOutput :: "jstring \<Rightarrow> jstring" where
  "truncateOutput value =
     (let t = trim_end value in
      if length t \<le> MAX_STEP_OUTPUT then t else ellipsis @ drop (length t - MAX_STEP_OUTPUT) t)"

subsection \<open>Commands\<close>

text \<open>A command: the program, its arguments, and what is added to its environment.\<close>

type_synonym invocation = "string \<times> jstring list \<times> (string \<times> jstring) list"

record command_end =
  ce_ok :: bool
  ce_exitCode :: "int option"
  ce_output :: jstring

type_synonym runner = "invocation list \<Rightarrow> invocation \<Rightarrow> command_end"

text \<open>The deployment: the environment file, whether there is a checkout, and the commands so far.\<close>

record deployment =
  dp_env :: "jstring option"
  dp_git :: bool
  dp_log :: "invocation list"

text \<open>What can happen to the deployment: how commands end, and whether the file can be written.\<close>

record surroundings =
  su_run :: runner
  su_writable :: "invocation list \<Rightarrow> bool"

definition run_command :: "surroundings \<Rightarrow> invocation \<Rightarrow> deployment \<Rightarrow> command_end \<times> deployment" where
  "run_command su c d = (su_run su (dp_log d) c, d\<lparr>dp_log := dp_log d @ [c]\<rparr>)"

definition git_command :: "surroundings \<Rightarrow> jstring list \<Rightarrow> deployment \<Rightarrow> command_end \<times> deployment" where
  "git_command su as d = run_command su (''git'', as, []) d"

definition writeEnvAssignments ::
    "surroundings \<Rightarrow> (jstring \<times> jstring) list \<Rightarrow> deployment \<Rightarrow> bool \<times> deployment" where
  "writeEnvAssignments su assignments d =
     (case dp_env d of
        None \<Rightarrow> (False, d)
      | Some contents \<Rightarrow>
          (case upsertEnvAssignments contents assignments of
             Inl e \<Rightarrow> (False, d)
           | Inr contents' \<Rightarrow>
               if su_writable su (dp_log d) then (True, d\<lparr>dp_env := Some contents'\<rparr>) else (False, d)))"

text \<open>What a child process sees of the environment: connectivity and the engine, and no secret.\<close>

definition PASSTHROUGH_ENV :: "string list" where
  "PASSTHROUGH_ENV =
     [''PATH'', ''HOME'', ''LANG'', ''LC_ALL'', ''HTTP_PROXY'', ''HTTPS_PROXY'', ''NO_PROXY'', ''http_proxy'',
      ''https_proxy'', ''no_proxy'', ''SSL_CERT_FILE'', ''SSL_CERT_DIR'', ''DOCKER_HOST'', ''DOCKER_CONFIG'',
      ''DOCKER_TLS_VERIFY'', ''DOCKER_CERT_PATH'']"

definition commandEnvironment :: "process_env \<Rightarrow> (string \<times> jstring) list \<Rightarrow> process_env" where
  "commandEnvironment source overrides =
     ((\<lambda>key. if key \<in> set PASSTHROUGH_ENV then source key else None) ++ map_of (rev overrides))
       (''GIT_TERMINAL_PROMPT'' \<mapsto> js ''0'', ''GIT_ASKPASS'' \<mapsto> js ''true'', ''CI'' \<mapsto> js ''1'')"

subsection \<open>The checkout and the remote\<close>

record checkout_state =
  ck_present :: bool
  ck_commit :: "jstring option"
  ck_branch :: "jstring option"
  ck_remoteUrl :: "jstring option"
  ck_dirty :: bool
  ck_dirtyPaths :: "jstring list"

definition ok_output :: "command_end \<Rightarrow> jstring" where
  "ok_output c = (if ce_ok c then ce_output c else [])"

definition readCheckout :: "surroundings \<Rightarrow> deployment \<Rightarrow> checkout_state \<times> deployment" where
  "readCheckout su d =
     (if \<not> dp_git d
      then (\<lparr>ck_present = False, ck_commit = None, ck_branch = None, ck_remoteUrl = None, ck_dirty = False,
             ck_dirtyPaths = []\<rparr>, d)
      else
        let (head, d) = git_command su (words_of [''rev-parse'', ''HEAD'']) d;
            (branch, d) = git_command su (words_of [''rev-parse'', ''--abbrev-ref'', ''HEAD'']) d;
            (remote, d) = git_command su (words_of [''remote'', ''get-url'', ''origin'']) d;
            (status, d) = git_command su gitStatusArgv d;
            (untracked, d) = git_command su gitUntrackedFilesArgv d;
            porcelain = parseGitStatusPorcelain (ok_output status);
            (contentDiffOk, contentChanged, d) =
              (if ce_ok status \<and> \<not> po_clean porcelain
               then let (worktree, d) = git_command su gitWorktreeContentDiffArgv d;
                        (index, d) = git_command su gitIndexContentDiffArgv d
                    in (ce_ok worktree \<and> ce_ok index,
                        parseGitNameOnly (ok_output worktree) @ parseGitNameOnly (ok_output index), d)
               else (True, [], d));
            tracked = resolveTrackedDirtyPaths (po_changed porcelain) contentChanged contentDiffOk
                        (parseGitNameOnly (ok_output untracked));
            stateReadable = (ce_ok status \<and> ce_ok untracked);
            trimmed_output = (\<lambda>c. if ce_ok c then Some (trim (ce_output c)) else None)
        in (\<lparr>ck_present = True, ck_commit = trimmed_output head, ck_branch = trimmed_output branch,
             ck_remoteUrl = trimmed_output remote,
             ck_dirty = (if stateReadable then fst tracked else True),
             ck_dirtyPaths = (if stateReadable then snd tracked
               else [js ''(the updater could not verify the checkout state)''])\<rparr>, d))"

datatype refusal = AlreadyRunning | EnvUnreadable | BadRequest request_error | ReleasesUnreadable
  | NoReleases | BranchUnreadable | NoSuchBranch | NoCheckout | NoRemote | DirtyCheckout
  | CannotRollBack rollback_error

text \<open>A refusal is answered as a bad request, anything else that is thrown as a failure.\<close>

datatype updater_error = Refused refusal | Thrown compose_error

record release_target =
  tt_releaseTag :: jstring
  tt_commit :: jstring
  tt_imageTag :: jstring

definition resolveRelease ::
    "surroundings \<Rightarrow> jstring \<Rightarrow> deployment \<Rightarrow> (updater_error + release_target) \<times> deployment" where
  "resolveRelease su repoUrl d =
     (let (listed, d) = git_command su (words_of [''ls-remote'', ''--tags'', ''--''] @ [repoUrl]) d in
      if \<not> ce_ok listed then (Inl (Refused ReleasesUnreadable), d)
      else (case selectLatestRelease (parseLsRemoteReleases (ce_output listed)) of
              None \<Rightarrow> (Inl (Refused NoReleases), d)
            | Some release \<Rightarrow>
                (case commitImageTag (rr_commit release) of
                   Inl e \<Rightarrow> (Inl (Thrown e), d)
                 | Inr tag \<Rightarrow> (Inr \<lparr>tt_releaseTag = rr_tag release, tt_commit = rr_commit release,
                                    tt_imageTag = tag\<rparr>, d))))"

definition resolveRemoteHead ::
    "surroundings \<Rightarrow> update_request \<Rightarrow> deployment \<Rightarrow> (updater_error + jstring) \<times> deployment" where
  "resolveRemoteHead su request d =
     (let (listed, d) = git_command su
            (words_of [''ls-remote'', ''--heads'', ''--''] @ [uq_repoUrl request, uq_branch request]) d;
          commit = takeWhile (\<lambda>c. \<not> is_ws c) (trim (ce_output listed))
      in if \<not> ce_ok listed then (Inl (Refused BranchUnreadable), d)
         else if \<not> isGitCommit commit then (Inl (Refused NoSuchBranch), d)
         else (Inr commit, d))"

definition upToDateForBuild :: "jstring \<Rightarrow> jstring option \<Rightarrow> jstring \<Rightarrow> compose_error + bool" where
  "upToDateForBuild currentTag commit targetCommit =
     (case commit of
        None \<Rightarrow> Inr False
      | Some c \<Rightarrow> if c \<noteq> targetCommit then Inr False
                  else map_sum id (\<lambda>t. currentTag = t) (forkImageTag c))"

subsection \<open>Running the steps of an update\<close>

datatype restart_state = NotRequired | Recreated | ManualRestart

record step_record =
  sp_id :: string
  sp_label :: jstring
  sp_ok :: bool
  sp_exitCode :: "int option"
  sp_output :: jstring

record update_run =
  un_ok :: bool
  un_fromCommit :: "jstring option"
  un_toCommit :: "jstring option"
  un_fromTag :: jstring
  un_toTag :: "jstring option"
  un_strategy :: update_strategy
  un_repoUrl :: jstring
  un_branch :: jstring
  un_restart :: restart_state
  un_error :: "jstring option"
  un_steps :: "step_record list"

definition step_env :: "updater_config \<Rightarrow> string \<Rightarrow> (string \<times> jstring) list \<Rightarrow> (string \<times> jstring) list" where
  "step_env cfg cmd env =
     (if cmd = ''docker'' then (''COMPOSE_PROJECT_NAME'', ug_projectName cfg) # env else env)"

definition runStep ::
    "surroundings \<Rightarrow> updater_config \<Rightarrow> update_step \<Rightarrow> (string \<times> jstring) list \<Rightarrow> bool \<Rightarrow>
     update_run \<Rightarrow> deployment \<Rightarrow> bool \<times> update_run \<times> deployment" where
  "runStep su cfg step env setError record d =
     (let (result, d) = run_command su (us_command step, us_args step, step_env cfg (us_command step) env) d;
          record = record\<lparr>un_steps := un_steps record @
            [\<lparr>sp_id = us_id step, sp_label = us_label step, sp_ok = ce_ok result,
              sp_exitCode = ce_exitCode result, sp_output = ce_output result\<rparr>]\<rparr>;
          record = (if \<not> ce_ok result \<and> setError
                    then record\<lparr>un_error := Some (us_label step @ js '' failed.'')\<rparr> else record)
      in (ce_ok result, record, d))"

text \<open>
  The commands of git, up to the first that fails, and whether the checkout was touched.
\<close>

fun run_git_steps ::
    "surroundings \<Rightarrow> updater_config \<Rightarrow> update_step list \<Rightarrow> bool \<Rightarrow> update_run \<Rightarrow> deployment \<Rightarrow>
     bool \<times> bool \<times> update_run \<times> deployment" where
  "run_git_steps su cfg [] touched record d = (True, touched, record, d)"
| "run_git_steps su cfg (step # steps) touched record d =
     (case runStep su cfg step [] True record d of
        (ok, record, d) \<Rightarrow>
          if \<not> ok then (False, touched, record, d)
          else run_git_steps su cfg steps
                 (touched \<or> us_id step = ''checkout'' \<or> us_id step = ''merge'') record d)"

definition compose_target_of :: "updater_config \<Rightarrow> compose_target" where
  "compose_target_of cfg =
     \<lparr>tg_composeFile = ug_composeFile cfg, tg_envFiles = [ug_envFile cfg],
      tg_projectName = Some (ug_projectName cfg)\<rparr>"

record update_input =
  ui_repoUrl :: jstring
  ui_branch :: jstring
  ui_strategy :: update_strategy
  ui_fromTag :: jstring
  ui_originalPreviousTag :: "jstring option"
  ui_toTag :: "jstring option"
  ui_fromCommit :: "jstring option"
  ui_fromBranch :: "jstring option"
  ui_toCommit :: "jstring option"
  ui_restoreRemoteUrl :: "jstring option"
  ui_steps :: "update_step list"

definition revert_assignments :: "update_input \<Rightarrow> (jstring \<times> jstring) list" where
  "revert_assignments i =
     [(IMAGE_TAG_ENV, ui_fromTag i),
      (PREVIOUS_IMAGE_TAG_ENV, case ui_originalPreviousTag i of None \<Rightarrow> ui_fromTag i | Some t \<Rightarrow> t)]"

text \<open>A step of the container engine failed: un-pin, and bring back what ran before.\<close>

definition recover_step ::
    "surroundings \<Rightarrow> updater_config \<Rightarrow> update_input \<Rightarrow> update_step \<Rightarrow> update_run \<Rightarrow> deployment \<Rightarrow>
     (compose_error + update_run) \<times> deployment" where
  "recover_step su cfg i step record d =
     (let primaryError = (case un_error record of
            None \<Rightarrow> us_label step @ js '' failed.'' | Some e \<Rightarrow> e);
          (envRestored, d) = writeEnvAssignments su (revert_assignments i) d
      in if us_id step = ''recreate''
         then (case composeUpArgv (compose_target_of cfg) False of
                 Inl e \<Rightarrow> (Inl e, d)
               | Inr up \<Rightarrow>
                   let (recovered, record, d) = runStep su cfg
                         \<lparr>us_id = ''recover'',
                          us_label = js ''Restore the previously running '' @ ui_fromTag i @ js '' image'',
                          us_command = ''docker'', us_args = up\<rparr>
                         [(''RAKAZO_IMAGE_TAG'', ui_fromTag i)] False record d
                   in (Inr (record\<lparr>un_restart := (if recovered then NotRequired else ManualRestart),
                                   un_error := Some primaryError\<rparr>), d))
         else (Inr (record\<lparr>un_error := Some primaryError\<rparr>), d))"

fun run_compose_steps ::
    "surroundings \<Rightarrow> updater_config \<Rightarrow> update_input \<Rightarrow> (string \<times> jstring) list \<Rightarrow> update_step list \<Rightarrow>
     update_run \<Rightarrow> deployment \<Rightarrow> (compose_error + update_run) \<times> deployment" where
  "run_compose_steps su cfg i env [] record d =
     (Inr (record\<lparr>un_ok := True, un_restart := Recreated\<rparr>), d)"
| "run_compose_steps su cfg i env (step # steps) record d =
     (case runStep su cfg step env True record d of
        (ok, record, d) \<Rightarrow>
          if \<not> ok then recover_step su cfg i step record d
          else run_compose_steps su cfg i env steps record d)"

text \<open>Which tag to deploy: the one of a release, or that of the commit which was merged.\<close>

definition target_tag ::
    "surroundings \<Rightarrow> update_input \<Rightarrow> update_run \<Rightarrow> deployment \<Rightarrow>
     (compose_error + jstring option) \<times> update_run \<times> deployment" where
  "target_tag su i record d =
     (case ui_strategy i of
        PullImages \<Rightarrow>
          (Inr (ui_toTag i),
           if ui_toTag i = None then record\<lparr>un_error := Some (js ''Could not resolve a target image tag.'')\<rparr>
           else record, d)
      | BuildImages \<Rightarrow>
          let (head, d) = git_command su (words_of [''rev-parse'', ''HEAD'']) d;
              commit = (if ce_ok head then trim (ce_output head) else [])
          in if \<not> isGitCommit commit
             then (Inr None, record\<lparr>un_error := Some (js ''Could not read the commit to build.'')\<rparr>, d)
             else
               let record = record\<lparr>un_toCommit := Some commit\<rparr> in
               (case forkImageTag commit of
                  Inl e \<Rightarrow> (Inl e, record, d)
                | Inr tag \<Rightarrow> (Inr (Some tag), record\<lparr>un_toTag := Some tag\<rparr>, d)))"

definition deploy ::
    "surroundings \<Rightarrow> updater_config \<Rightarrow> update_input \<Rightarrow> jstring \<Rightarrow> update_run \<Rightarrow> deployment \<Rightarrow>
     (compose_error + update_run) \<times> deployment" where
  "deploy su cfg i toTag record d =
     (case writeEnvAssignments su [(IMAGE_TAG_ENV, toTag), (PREVIOUS_IMAGE_TAG_ENV, ui_fromTag i)] d of
        (written, d) \<Rightarrow>
          if \<not> written
          then (Inr (record\<lparr>un_error :=
                  Some (js ''Could not persist the target image tag in the deployment environment.'')\<rparr>), d)
          else run_compose_steps su cfg i
                 ((''RAKAZO_IMAGE_TAG'', toTag) #
                  (case un_toCommit record of None \<Rightarrow> [] | Some c \<Rightarrow> [(''GIT_SHA'', c)]))
                 (filter (\<lambda>step. us_command step \<noteq> ''git'') (ui_steps i)) record d)"

definition restoreCheckoutArgv :: "jstring option \<Rightarrow> jstring \<Rightarrow> jstring list" where
  "restoreCheckoutArgv fromBranch fromCommit =
     (let detached = words_of [''checkout'', ''--detach''] @ [fromCommit] in
      case fromBranch of
        None \<Rightarrow> detached
      | Some b \<Rightarrow>
          if b = js ''HEAD'' then detached
          else (case normalizeUpdateBranch b of
                  Inl e \<Rightarrow> detached
                | Inr branch \<Rightarrow> words_of [''checkout'', ''-B''] @ [branch, fromCommit]))"

text \<open>What is put back in the end, whether or not something was thrown.\<close>

definition restore_checkout ::
    "surroundings \<Rightarrow> updater_config \<Rightarrow> update_input \<Rightarrow> bool \<Rightarrow> update_run \<Rightarrow> deployment \<Rightarrow>
     update_run \<times> deployment" where
  "restore_checkout su cfg i touched record d =
     (let (record, d) =
        (if \<not> un_ok record \<and> touched \<and> ui_fromCommit i \<noteq> None \<and> isGitCommit (the (ui_fromCommit i))
         then snd (runStep su cfg
                (make_step ''restore-checkout'' ''Restore the previous checkout'' ''git''
                   (restoreCheckoutArgv (ui_fromBranch i) (the (ui_fromCommit i)))) [] False record d)
         else (record, d))
      in if \<not> un_ok record \<and> ui_restoreRemoteUrl i \<noteq> None
         then snd (runStep su cfg
                (make_step ''restore-remote'' ''Restore the previous origin remote'' ''git''
                   (words_of [''remote'', ''set-url'', ''origin''] @ [the (ui_restoreRemoteUrl i)]))
                [] False record d)
         else (record, d))"

definition initial_run :: "update_input \<Rightarrow> update_run" where
  "initial_run i =
     \<lparr>un_ok = False, un_fromCommit = ui_fromCommit i, un_toCommit = ui_toCommit i,
      un_fromTag = ui_fromTag i, un_toTag = ui_toTag i, un_strategy = ui_strategy i,
      un_repoUrl = ui_repoUrl i, un_branch = ui_branch i, un_restart = NotRequired, un_error = None,
      un_steps = []\<rparr>"

definition execute ::
    "surroundings \<Rightarrow> updater_config \<Rightarrow> update_input \<Rightarrow> deployment \<Rightarrow>
     (compose_error + update_run) \<times> deployment" where
  "execute su cfg i d =
     (case run_git_steps su cfg (filter (\<lambda>step. us_command step = ''git'') (ui_steps i)) False (initial_run i) d of
        (ok, touched, record, d) \<Rightarrow>
          let (outcome, record, d) =
            (if \<not> ok then (Inr (), record, d)
             else (case target_tag su i record d of
                     (Inl e, record, d) \<Rightarrow> (Inl e, record, d)
                   | (Inr None, record, d) \<Rightarrow> (Inr (), record, d)
                   | (Inr (Some toTag), record, d) \<Rightarrow>
                       (case deploy su cfg i toTag record d of
                          (Inl e, d) \<Rightarrow> (Inl e, record, d)
                        | (Inr record, d) \<Rightarrow> (Inr (), record, d))));
              (record, d) = restore_checkout su cfg i touched record d
          in (map_sum id (\<lambda>_. record) outcome, d))"

subsection \<open>Applying and rolling back\<close>

definition upToDateRecord ::
    "update_request \<Rightarrow> jstring \<Rightarrow> update_strategy \<Rightarrow> jstring option \<Rightarrow> update_run" where
  "upToDateRecord request tag strategy commit =
     \<lparr>un_ok = True, un_fromCommit = commit, un_toCommit = commit, un_fromTag = tag, un_toTag = Some tag,
      un_strategy = strategy, un_repoUrl = uq_repoUrl request, un_branch = uq_branch request,
      un_restart = NotRequired, un_error = None, un_steps = []\<rparr>"

definition thrown :: "(compose_error + 'a) \<times> 'd \<Rightarrow> (updater_error + 'a) \<times> 'd" where
  "thrown r = (map_sum Thrown id (fst r), snd r)"

definition start_update ::
    "surroundings \<Rightarrow> (jstring \<Rightarrow> url_parts option) \<Rightarrow> (jstring \<Rightarrow> jstring) \<Rightarrow> updater_config \<Rightarrow>
     update_request \<Rightarrow> update_strategy \<Rightarrow> tag_state \<Rightarrow> checkout_state \<Rightarrow> release_target option \<Rightarrow>
     deployment \<Rightarrow> (updater_error + update_run) \<times> deployment" where
  "start_update su parse_url lower cfg request strategy tags checkout target d =
     (let identity = repoIdentity parse_url lower;
          same_remote = (case ck_remoteUrl checkout of
            None \<Rightarrow> False | Some u \<Rightarrow> identity u = identity (uq_repoUrl request));
          plan = (if strategy = PullImages
                  then composeUpdatePlan PullImages (compose_target_of cfg) None None False None
                  else composeUpdatePlan BuildImages (compose_target_of cfg) (Some (uq_repoUrl request))
                         (Some (uq_branch request)) (\<not> same_remote) None)
      in case plan of
           Inl e \<Rightarrow> (Inl (Thrown e), d)
         | Inr steps \<Rightarrow>
             thrown (execute su cfg
               \<lparr>ui_repoUrl = uq_repoUrl request, ui_branch = uq_branch request, ui_strategy = strategy,
                ui_fromTag = ts_currentTag tags, ui_originalPreviousTag = ts_previousTag tags,
                ui_toTag = map_option tt_imageTag target, ui_fromCommit = ck_commit checkout,
                ui_fromBranch = ck_branch checkout, ui_toCommit = map_option tt_commit target,
                ui_restoreRemoteUrl =
                  (if strategy = BuildImages \<and> ck_remoteUrl checkout \<noteq> None \<and> \<not> same_remote
                   then ck_remoteUrl checkout else None),
                ui_steps = steps\<rparr> d))"

definition apply_update ::
    "surroundings \<Rightarrow> (jstring \<Rightarrow> url_parts option) \<Rightarrow> (jstring \<Rightarrow> jstring) \<Rightarrow> updater_config \<Rightarrow>
     update_request \<Rightarrow> deployment \<Rightarrow> (updater_error + update_run) \<times> deployment" where
  "apply_update su parse_url lower cfg request d =
     (case dp_env d of
        None \<Rightarrow> (Inl (Refused EnvUnreadable), d)
      | Some contents \<Rightarrow>
          let tags = readTagState contents; (checkout, d) = readCheckout su d in
          (case chooseUpdateStrategy (uq_official request) of
             BuildImages \<Rightarrow>
               if \<not> ck_present checkout then (Inl (Refused NoCheckout), d)
               else if ck_remoteUrl checkout = None then (Inl (Refused NoRemote), d)
               else if ck_dirty checkout then (Inl (Refused DirtyCheckout), d)
               else (case resolveRemoteHead su request d of
                       (Inl e, d) \<Rightarrow> (Inl e, d)
                     | (Inr remoteHead, d) \<Rightarrow>
                         (case upToDateForBuild (ts_currentTag tags) (ck_commit checkout) remoteHead of
                            Inl e \<Rightarrow> (Inl (Thrown e), d)
                          | Inr True \<Rightarrow>
                              (Inr (upToDateRecord request (ts_currentTag tags) BuildImages (ck_commit checkout)), d)
                          | Inr False \<Rightarrow>
                              start_update su parse_url lower cfg request BuildImages tags checkout None d))
           | PullImages \<Rightarrow>
               (case resolveRelease su (uq_repoUrl request) d of
                  (Inl e, d) \<Rightarrow> (Inl e, d)
                | (Inr target, d) \<Rightarrow>
                    if tt_imageTag target = ts_currentTag tags
                    then (Inr (upToDateRecord request (tt_imageTag target) PullImages (Some (tt_commit target))), d)
                    else start_update su parse_url lower cfg request PullImages tags checkout (Some target) d)))"

definition rollback_update ::
    "surroundings \<Rightarrow> updater_config \<Rightarrow> deployment \<Rightarrow> (updater_error + update_run) \<times> deployment" where
  "rollback_update su cfg d =
     (case dp_env d of
        None \<Rightarrow> (Inl (Refused EnvUnreadable), d)
      | Some contents \<Rightarrow>
          let tags = readTagState contents in
          (case rollbackTarget (Some (ts_currentTag tags)) (ts_previousTag tags) of
             Inl e \<Rightarrow> (Inl (Refused (CannotRollBack e)), d)
           | Inr tag \<Rightarrow>
               let (checkout, d) = readCheckout su d in
               (case composeUpdatePlan PullImages (compose_target_of cfg) None None False None of
                  Inl e \<Rightarrow> (Inl (Thrown e), d)
                | Inr steps \<Rightarrow>
                    thrown (execute su cfg
                      \<lparr>ui_repoUrl = [], ui_branch = [], ui_strategy = PullImages,
                       ui_fromTag = ts_currentTag tags, ui_originalPreviousTag = ts_previousTag tags,
                       ui_toTag = Some tag, ui_fromCommit = ck_commit checkout,
                       ui_fromBranch = ck_branch checkout, ui_toCommit = None, ui_restoreRemoteUrl = None,
                       ui_steps = filter (\<lambda>step. us_id step \<noteq> ''pull'') steps\<rparr> d))))"

text \<open>What an update would do, read without changing anything.\<close>

record update_plan =
  pl_strategy :: update_strategy
  pl_currentTag :: jstring
  pl_previousTag :: "jstring option"
  pl_targetTag :: "jstring option"
  pl_targetCommit :: jstring
  pl_upToDate :: bool
  pl_checkout :: checkout_state

definition plan_update ::
    "surroundings \<Rightarrow> update_request \<Rightarrow> deployment \<Rightarrow> (updater_error + update_plan) \<times> deployment" where
  "plan_update su request d =
     (case dp_env d of
        None \<Rightarrow> (Inl (Refused EnvUnreadable), d)
      | Some contents \<Rightarrow>
          let tags = readTagState contents; (checkout, d) = readCheckout su d in
          (case chooseUpdateStrategy (uq_official request) of
             BuildImages \<Rightarrow>
               (case resolveRemoteHead su request d of
                  (Inl e, d) \<Rightarrow> (Inl e, d)
                | (Inr targetCommit, d) \<Rightarrow>
                    (case upToDateForBuild (ts_currentTag tags) (ck_commit checkout) targetCommit of
                       Inl e \<Rightarrow> (Inl (Thrown e), d)
                     | Inr current \<Rightarrow>
                         (Inr \<lparr>pl_strategy = BuildImages, pl_currentTag = ts_currentTag tags,
                               pl_previousTag = ts_previousTag tags, pl_targetTag = None,
                               pl_targetCommit = targetCommit, pl_upToDate = current,
                               pl_checkout = checkout\<rparr>, d)))
           | PullImages \<Rightarrow>
               (case resolveRelease su (uq_repoUrl request) d of
                  (Inl e, d) \<Rightarrow> (Inl e, d)
                | (Inr target, d) \<Rightarrow>
                    (Inr \<lparr>pl_strategy = PullImages, pl_currentTag = ts_currentTag tags,
                          pl_previousTag = ts_previousTag tags, pl_targetTag = Some (tt_imageTag target),
                          pl_targetCommit = tt_commit target,
                          pl_upToDate = (tt_imageTag target = ts_currentTag tags),
                          pl_checkout = checkout\<rparr>, d))))"

text \<open>The handlers: one update at a time, and the last run is remembered.\<close>

record updater_state =
  uo_running :: bool
  uo_lastRun :: "update_run option"
  uo_deployment :: deployment

datatype updater_request = ApplyRequest "jstring option" "jstring option" | RollbackRequest

definition updater_work ::
    "surroundings \<Rightarrow> (jstring \<Rightarrow> url_parts option) \<Rightarrow> (jstring \<Rightarrow> jstring) \<Rightarrow> updater_config \<Rightarrow>
     updater_request \<Rightarrow> deployment \<Rightarrow> (updater_error + update_run) \<times> deployment" where
  "updater_work su parse_url lower cfg rq d =
     (case rq of
        RollbackRequest \<Rightarrow> rollback_update su cfg d
      | ApplyRequest repoUrl branch \<Rightarrow>
          (case validateUpdateRequest parse_url lower repoUrl branch of
             Inl e \<Rightarrow> (Inl (Refused (BadRequest e)), d)
           | Inr request \<Rightarrow> apply_update su parse_url lower cfg request d))"

definition handle_update ::
    "surroundings \<Rightarrow> (jstring \<Rightarrow> url_parts option) \<Rightarrow> (jstring \<Rightarrow> jstring) \<Rightarrow> updater_config \<Rightarrow>
     updater_request \<Rightarrow> updater_state \<Rightarrow> (updater_error + update_run) \<times> updater_state" where
  "handle_update su parse_url lower cfg rq st =
     (case updater_work su parse_url lower cfg rq (uo_deployment st) of
        (outcome, d) \<Rightarrow>
          if (case outcome of Inl (Refused (BadRequest e)) \<Rightarrow> True | _ \<Rightarrow> False) then (outcome, st)
          else if uo_running st then (Inl (Refused AlreadyRunning), st)
          else (outcome, st\<lparr>uo_deployment := d,
                  uo_lastRun := (case outcome of Inl e \<Rightarrow> uo_lastRun st | Inr r \<Rightarrow> Some r)\<rparr>))"

subsection \<open>A request from the settings\<close>

text \<open>\<open>requestBody\<close> of \<open>apps/api/src/server-update.ts\<close>: absent members stay absent.\<close>

definition requestBody :: "jstring option \<Rightarrow> jstring option \<Rightarrow> jstring option \<times> jstring option" where
  "requestBody repoUrl branch =
     (let given = (\<lambda>v. case v of None \<Rightarrow> None | Some s \<Rightarrow> if trim s = [] then None else Some (trim s))
      in (given repoUrl, given branch))"

text \<open>
  The settings page asks for an update with neither a repository nor a branch; no default is filled
  in on the way, so the updater refuses it.
\<close>

lemma settings_request_is_refused:
  "case requestBody None None of (r, b) \<Rightarrow>
     handle_update su parse_url lower cfg (ApplyRequest r b) st =
       (Inl (Refused (BadRequest RepoUrlMissing)), st)"
  by (simp add: requestBody_def handle_update_def updater_work_def validateUpdateRequest_def)

text \<open>A deployment to run on.\<close>

definition example_updater :: updater_config where
  "example_updater =
     \<lparr>ug_deployDir = js ''/srv'', ug_composeFile = js ''/srv/c.yml'', ug_envFile = js ''/srv/.env'',
      ug_projectName = js ''rakazo'', ug_image = js ''r/i'', ug_token = js ''t'', ug_host = js ''h'', ug_port = 7092\<rparr>"

definition example_update_state :: updater_state where
  "example_update_state =
     \<lparr>uo_running = False, uo_lastRun = None,
      uo_deployment = \<lparr>dp_env = Some (js ''RAKAZO_IMAGE_TAG=v2'' @ [10] @ js ''RAKAZO_IMAGE_TAG_PREVIOUS=v1'' @ [10]),
        dp_git = False, dp_log = []\<rparr>\<rparr>"

definition surroundings_where :: "bool \<Rightarrow> surroundings" where
  "surroundings_where works =
     \<lparr>su_run = (\<lambda>l c. \<lparr>ce_ok = works, ce_exitCode = None, ce_output = []\<rparr>), su_writable = (\<lambda>l. True)\<rparr>"

end
