(* ===== verification/UpdaterCommands.thy ===== *)
theory UpdaterCommands
  imports Updater
begin

text \<open>
  What the updater lets reach a command line. The arguments for the container engine are fixed by the
  configuration; those for git begin with a dash only where the program wrote the option itself.
\<close>

definition option_words :: "string list" where
  "option_words =
     [''--abbrev-ref'', ''--no-optional-locks'', ''-c'', ''--porcelain'', ''--untracked-files=no'',
      ''--name-only'', ''--ignore-cr-at-eol'', ''--cached'', ''--others'', ''--exclude-standard'',
      ''--tags'', ''--heads'', ''--'', ''--ff-only'', ''--detach'', ''-B'']"

definition no_option :: "jstring \<Rightarrow> bool" where
  "no_option a \<longleftrightarrow> \<not> prefix (js ''-'') a \<or> a \<in> set (words_of option_words)"

text \<open>The remote a failed update puts back is the one git reported for the checkout.\<close>

definition own_remote :: "surroundings \<Rightarrow> jstring \<Rightarrow> bool" where
  "own_remote su u \<longleftrightarrow>
     (\<exists>l. u = trim (ce_output (su_run su l (''git'', words_of [''remote'', ''get-url'', ''origin''], []))))"

definition puts_back_remote :: "surroundings \<Rightarrow> jstring list \<Rightarrow> bool" where
  "puts_back_remote su as \<longleftrightarrow>
     (\<exists>u. own_remote su u \<and> as = words_of [''remote'', ''set-url'', ''origin''] @ [u])"

definition engine_arguments :: "updater_config \<Rightarrow> jstring list \<Rightarrow> bool" where
  "engine_arguments cfg as \<longleftrightarrow> composePullArgv (compose_target_of cfg) = Inr as \<or>
     (\<exists>build. composeUpArgv (compose_target_of cfg) build = Inr as)"

definition safe_command :: "surroundings \<Rightarrow> updater_config \<Rightarrow> invocation \<Rightarrow> bool" where
  "safe_command su cfg c \<longleftrightarrow>
     (case c of (cmd, as, env) \<Rightarrow>
        cmd = ''git'' \<and> (list_all no_option as \<or> puts_back_remote su as) \<or>
        cmd = ''docker'' \<and> engine_arguments cfg as)"

definition log_safe :: "surroundings \<Rightarrow> updater_config \<Rightarrow> deployment \<Rightarrow> bool" where
  "log_safe su cfg d \<longleftrightarrow> list_all (safe_command su cfg) (dp_log d)"

definition safe_step :: "surroundings \<Rightarrow> updater_config \<Rightarrow> update_step \<Rightarrow> bool" where
  "safe_step su cfg step \<longleftrightarrow> safe_command su cfg (us_command step, us_args step, [])"

lemma plain_no_option: "plain_argument a \<Longrightarrow> no_option a"
  by (simp add: plain_argument_def no_option_def)

lemma commit_no_option:
  assumes "isGitCommit c" shows "no_option c"
proof -
  have "c \<noteq> [] \<Longrightarrow> hd c \<noteq> 45"
  proof (cases c)
    case (Cons x xs)
    have "x = 45 \<Longrightarrow> trim c = 45 # trim_end xs"
      using trim_end_keeps [of 45 "[]" xs] by (simp add: Cons trim_def trim_start_def is_ws_def)
    moreover have "\<not> hex_char b 45" for b by (simp add: hex_char_def is_digit_def)
    ultimately show ?thesis using assms Cons by (auto simp: isGitCommit_def Let_def)
  qed simp
  then show ?thesis by (cases c) (auto simp: no_option_def js_def)
qed

text \<open>Running a command keeps the log safe if the command is.\<close>

lemma log_run:
  "run_command su c d = (r, d') \<Longrightarrow> log_safe su cfg d \<Longrightarrow> safe_command su cfg c \<Longrightarrow> log_safe su cfg d'"
  by (auto simp: run_command_def log_safe_def)

lemma log_git:
  "git_command su as d = (r, d') \<Longrightarrow> log_safe su cfg d \<Longrightarrow> list_all no_option as \<Longrightarrow> log_safe su cfg d'"
  by (auto simp: git_command_def safe_command_def dest!: log_run)

lemma log_write: "writeEnvAssignments su as d = (ok, d') \<Longrightarrow> log_safe su cfg d' = log_safe su cfg d"
  by (auto simp: writeEnvAssignments_def log_safe_def split: option.splits sum.splits if_splits)

lemma words_safe:
  "list_all (\<lambda>w. w \<in> set option_words \<or> \<not> prefix (js ''-'') (js w)) ws \<Longrightarrow> list_all no_option (words_of ws)"
  by (auto simp: words_of_def list_all_iff no_option_def)

lemma read_arguments_safe:
  "list_all no_option (words_of [''rev-parse'', ''HEAD''])"
  "list_all no_option (words_of [''rev-parse'', ''--abbrev-ref'', ''HEAD''])"
  "list_all no_option (words_of [''remote'', ''get-url'', ''origin''])"
  "list_all no_option gitStatusArgv" "list_all no_option gitUntrackedFilesArgv"
  "list_all no_option gitWorktreeContentDiffArgv" "list_all no_option gitIndexContentDiffArgv"
  "list_all no_option (words_of [''ls-remote'', ''--tags'', ''--''])"
  "list_all no_option (words_of [''ls-remote'', ''--heads'', ''--''])"
  "list_all no_option (words_of [''checkout'', ''--detach''])"
  "list_all no_option (words_of [''checkout'', ''-B''])"
  by (simp_all add: words_safe option_words_def js_def gitStatusArgv_def gitUntrackedFilesArgv_def
      gitWorktreeContentDiffArgv_def gitIndexContentDiffArgv_def)

lemma readCheckout_safe:
  assumes rc: "readCheckout su d = (c, d')" and safe: "log_safe su cfg d"
  shows "log_safe su cfg d'" and "ck_remoteUrl c = Some u \<Longrightarrow> own_remote su u"
proof -
  obtain r1 d1 where 1: "git_command su (words_of [''rev-parse'', ''HEAD'']) d = (r1, d1)" by force
  obtain r2 d2 where 2: "git_command su (words_of [''rev-parse'', ''--abbrev-ref'', ''HEAD'']) d1 = (r2, d2)" by force
  obtain r3 d3 where 3: "git_command su (words_of [''remote'', ''get-url'', ''origin'']) d2 = (r3, d3)" by force
  obtain r4 d4 where 4: "git_command su gitStatusArgv d3 = (r4, d4)" by force
  obtain r5 d5 where 5: "git_command su gitUntrackedFilesArgv d4 = (r5, d5)" by force
  obtain r6 d6 where 6: "git_command su gitWorktreeContentDiffArgv d5 = (r6, d6)" by force
  obtain r7 d7 where 7: "git_command su gitIndexContentDiffArgv d6 = (r7, d7)" by force
  note steps = 1 2 3 4 5 6 7
  have s5: "log_safe su cfg d5"
    using log_git [OF 5 log_git [OF 4 log_git [OF 3 log_git [OF 2 log_git [OF 1 safe]]]]]
    by (simp add: read_arguments_safe)
  then have s7: "log_safe su cfg d7" using log_git [OF 7 log_git [OF 6]] by (simp add: read_arguments_safe)
  show "log_safe su cfg d'"
    using rc safe s5 s7 unfolding readCheckout_def Let_def
    by (cases "dp_git d"; cases "ce_ok r4 \<and> \<not> po_clean (parseGitStatusPorcelain (ok_output r4))")
      (auto simp: steps)
  have "r3 = su_run su (dp_log d2) (''git'', words_of [''remote'', ''get-url'', ''origin''], [])"
    using 3 by (simp add: git_command_def run_command_def)
  then have own: "own_remote su (trim (ce_output r3))" by (auto simp: own_remote_def)
  have "ck_remoteUrl c = None \<or> ck_remoteUrl c = Some (trim (ce_output r3))"
    using rc unfolding readCheckout_def Let_def
    by (cases "dp_git d"; cases "ce_ok r4 \<and> \<not> po_clean (parseGitStatusPorcelain (ok_output r4))")
      (auto simp: steps)
  with own show "ck_remoteUrl c = Some u \<Longrightarrow> own_remote su u" by auto
qed

lemma resolveRelease_log:
  assumes "resolveRelease su u d = (r, d')" and "log_safe su cfg d" and "no_option u"
  shows "log_safe su cfg d'"
  using assms
  by (auto simp: resolveRelease_def Let_def read_arguments_safe split: if_splits prod.splits option.splits sum.splits
      dest!: log_git [where cfg = cfg])

lemma resolveRemoteHead_log:
  assumes "resolveRemoteHead su request d = (r, d')" and "log_safe su cfg d"
    and "no_option (uq_repoUrl request)" and "no_option (uq_branch request)"
  shows "log_safe su cfg d'"
  using assms
  by (auto simp: resolveRemoteHead_def Let_def read_arguments_safe split: if_splits prod.splits
      dest!: log_git [where cfg = cfg])

text \<open>Steps of a run.\<close>

lemma safe_command_env: "safe_command su cfg (cmd, as, env) = safe_command su cfg (cmd, as, env')"
  by (simp add: safe_command_def)

lemma runStep_log:
  assumes "runStep su cfg step env se r d = (ok, r', d')" and "log_safe su cfg d" and "safe_step su cfg step"
  shows "log_safe su cfg d'"
  using assms safe_command_env [of su cfg "us_command step" "us_args step" _ "[]"]
  by (auto simp: runStep_def Let_def safe_step_def run_command_def log_safe_def)

lemma runStep_snd_log:
  "snd (runStep su cfg step env se r d) = (r', d') \<Longrightarrow> log_safe su cfg d \<Longrightarrow> safe_step su cfg step \<Longrightarrow>
   log_safe su cfg d'"
  by (cases "runStep su cfg step env se r d") (auto dest: runStep_log)

lemma run_git_steps_log:
  "run_git_steps su cfg steps t r d = (ok, t', r', d') \<Longrightarrow> log_safe su cfg d \<Longrightarrow>
   list_all (safe_step su cfg) steps \<Longrightarrow> log_safe su cfg d'"
proof (induction steps arbitrary: t r d)
  case (Cons step steps)
  obtain ok1 r1 d1 where s: "runStep su cfg step [] True r d = (ok1, r1, d1)" by (metis prod_cases3)
  have "log_safe su cfg d1" using runStep_log [OF s] Cons.prems by simp
  with Cons s show ?case by (cases ok1) auto
qed simp

lemma recover_log:
  assumes "recover_step su cfg i step r d = (res, d')" and "log_safe su cfg d"
  shows "log_safe su cfg d'"
proof -
  obtain ok d1 where w: "writeEnvAssignments su (revert_assignments i) d = (ok, d1)" by force
  have safe: "log_safe su cfg d1" using log_write [OF w] assms(2) by simp
  show ?thesis
  proof (cases "us_id step = ''recreate'' \<and> (\<exists>up. composeUpArgv (compose_target_of cfg) False = Inr up)")
    case False
    with assms(1) w safe show ?thesis
      by (cases "composeUpArgv (compose_target_of cfg) False"; cases "us_id step = ''recreate''")
        (auto simp: recover_step_def Let_def)
  next
    case True
    then obtain up where up: "composeUpArgv (compose_target_of cfg) False = Inr up" and id: "us_id step = ''recreate''"
      by blast
    let ?step = "\<lparr>us_id = ''recover'', us_label = js ''Restore the previously running '' @ ui_fromTag i @ js '' image'',
      us_command = ''docker'', us_args = up\<rparr>"
    obtain ok2 r2 d2 where run: "runStep su cfg ?step [(''RAKAZO_IMAGE_TAG'', ui_fromTag i)] False r d1 = (ok2, r2, d2)"
      by (metis prod_cases3)
    have "safe_step su cfg ?step" using up by (auto simp: safe_step_def safe_command_def engine_arguments_def)
    with runStep_log [OF run safe] have "log_safe su cfg d2" .
    moreover have "d' = d2" using assms(1) by (simp add: recover_step_def Let_def w id up run)
    ultimately show ?thesis by simp
  qed
qed

lemma run_compose_steps_log:
  "run_compose_steps su cfg i env steps r d = (res, d') \<Longrightarrow> log_safe su cfg d \<Longrightarrow>
   list_all (safe_step su cfg) steps \<Longrightarrow> log_safe su cfg d'"
proof (induction steps arbitrary: r d)
  case (Cons step steps)
  obtain ok1 r1 d1 where s: "runStep su cfg step env True r d = (ok1, r1, d1)" by (metis prod_cases3)
  have "log_safe su cfg d1" using runStep_log [OF s] Cons.prems by simp
  with Cons s show ?case by (cases ok1) (auto intro: recover_log)
qed simp

lemma deploy_log:
  assumes "deploy su cfg i tag r d = (res, d')" and "log_safe su cfg d" and "list_all (safe_step su cfg) (ui_steps i)"
  shows "log_safe su cfg d'"
proof -
  obtain ok d1 where w: "writeEnvAssignments su [(IMAGE_TAG_ENV, tag), (PREVIOUS_IMAGE_TAG_ENV, ui_fromTag i)] d = (ok, d1)"
    by force
  have "log_safe su cfg d1" using log_write [OF w] assms(2) by simp
  moreover have "list_all (safe_step su cfg) (filter (\<lambda>step. us_command step \<noteq> ''git'') (ui_steps i))"
    using assms(3) by (simp add: list_all_iff)
  ultimately show ?thesis
    using assms(1) w run_compose_steps_log by (fastforce simp: deploy_def split: if_splits)
qed

lemma target_tag_log:
  "target_tag su i r d = (t, r', d') \<Longrightarrow> log_safe su cfg d \<Longrightarrow> log_safe su cfg d'"
  by (auto simp: target_tag_def Let_def read_arguments_safe
      split: if_splits prod.splits update_strategy.splits sum.splits dest!: log_git [where cfg = cfg])

lemma restore_arguments_safe:
  assumes "isGitCommit c"
  shows "list_all no_option (restoreCheckoutArgv b c)"
  using commit_no_option [OF assms] normalized_branch_plain plain_no_option
  by (auto simp: restoreCheckoutArgv_def Let_def read_arguments_safe split: option.splits sum.splits)

lemma restore_checkout_log:
  assumes rc: "restore_checkout su cfg i t r d = (r', d')" and "log_safe su cfg d"
    and own: "\<forall>u. ui_restoreRemoteUrl i = Some u \<longrightarrow> own_remote su u"
  shows "log_safe su cfg d'"
proof -
  have checkout: "safe_step su cfg (make_step sid label ''git'' (restoreCheckoutArgv b c))" if "isGitCommit c" for sid label b c
    using restore_arguments_safe [OF that] by (simp add: safe_step_def safe_command_def make_step_def)
  have remote: "safe_step su cfg (make_step sid label ''git'' (words_of [''remote'', ''set-url'', ''origin''] @ [u]))"
    if "ui_restoreRemoteUrl i = Some u" for sid label u
    using own that by (auto simp: safe_step_def safe_command_def make_step_def puts_back_remote_def)
  show ?thesis
    using rc assms(2) checkout remote
    by (auto simp: restore_checkout_def Let_def split: if_splits prod.splits dest!: runStep_snd_log)
qed

lemma execute_log:
  assumes "execute su cfg i d = (res, d')" and "log_safe su cfg d"
    and steps: "list_all (safe_step su cfg) (ui_steps i)"
    and own: "\<forall>u. ui_restoreRemoteUrl i = Some u \<longrightarrow> own_remote su u"
  shows "log_safe su cfg d'"
proof -
  obtain ok t r1 d1 where
    g: "run_git_steps su cfg (filter (\<lambda>step. us_command step = ''git'') (ui_steps i)) False (initial_run i) d = (ok, t, r1, d1)"
    by (metis prod_cases4)
  obtain t2 r2 d2 where tt: "target_tag su i r1 d1 = (t2, r2, d2)" by (metis prod_cases3)
  have "list_all (safe_step su cfg) (filter (\<lambda>step. us_command step = ''git'') (ui_steps i))"
    using steps by (simp add: list_all_iff)
  then have s1: "log_safe su cfg d1" using run_git_steps_log [OF g assms(2)] by simp
  have s2: "log_safe su cfg d2" by (rule target_tag_log [OF tt s1])
  have dep: "log_safe su cfg d3" if "deploy su cfg i tag r2 d2 = (x, d3)" for tag x d3
    using deploy_log [OF that s2 steps] .
  have rest: "log_safe su cfg d4" if "restore_checkout su cfg i t r d3 = (r', d4)" "log_safe su cfg d3" for r d3 r' d4
    using restore_checkout_log [OF that own] .
  show ?thesis
    using assms(1) s1 s2
    by (auto simp: execute_def Let_def g tt split: if_splits prod.splits sum.splits option.splits
        intro: rest dest: dep)
qed

text \<open>The plans have only safe steps.\<close>

lemma plan_safe:
  assumes plan: "composeUpdatePlan st (compose_target_of cfg) url b repoint None = Inr steps"
    and url: "\<forall>u. url = Some u \<longrightarrow> plain_argument u" and b: "\<forall>x. b = Some x \<longrightarrow> plain_argument x"
  shows "list_all (safe_step su cfg) steps"
proof -
  have git: "safe_step su cfg s" if "us_command s = ''git''" "list_all no_option (us_args s)" for s
    using that by (simp add: safe_step_def safe_command_def)
  let ?b = "case b of None \<Rightarrow> js ''main'' | Some x \<Rightarrow> x"
  have main: "no_option (js ''main'')" "no_option (js ''origin'')"
    by (simp_all add: no_option_def js_def)
  have nb: "no_option ?b" using b main by (auto simp: plain_no_option split: option.split)
  have ob: "no_option (js ''origin'' @ js ''/'' @ ?b)" by (simp add: no_option_def js_def)
  have ws: "list_all no_option (words_of [''remote'', ''set-url''])" "list_all no_option (words_of [''fetch''])"
    "list_all no_option (words_of [''checkout''])" "list_all no_option (words_of [''merge'', ''--ff-only''])"
    by (simp_all add: words_safe option_words_def js_def)
  have "safe_step su cfg s" if s: "s \<in> set steps" for s
  proof (cases "us_command s = ''git''")
    case False
    from compose_steps_fixed [OF plan s False] show ?thesis
      unfolding safe_step_def safe_command_def engine_arguments_def by (simp, metis)
  next
    case True
    with plan s have "list_all no_option (us_args s)"
      using ws nb ob main url
      by (auto simp: composeUpdatePlan_def Let_def make_step_def DEFAULT_UPDATE_REMOTE_def plain_no_option truthy_def
          split: update_strategy.splits sum.splits if_splits option.splits)
    with True show ?thesis by (rule git)
  qed
  then show ?thesis by (simp add: list_all_iff)
qed

lemma start_update_log:
  assumes st: "start_update su parse_url lower cfg request strategy tags checkout target d = (res, d')"
    and "log_safe su cfg d" and url: "plain_argument (uq_repoUrl request)" and b: "plain_argument (uq_branch request)"
    and own: "\<forall>u. ck_remoteUrl checkout = Some u \<longrightarrow> own_remote su u"
  shows "log_safe su cfg d'"
proof -
  let ?plan = "\<lambda>repoint. if strategy = PullImages
      then composeUpdatePlan PullImages (compose_target_of cfg) None None False None
      else composeUpdatePlan BuildImages (compose_target_of cfg) (Some (uq_repoUrl request))
             (Some (uq_branch request)) repoint None"
  have steps: "list_all (safe_step su cfg) steps" if "?plan repoint = Inr steps" for repoint steps
    using that url b by (auto split: if_splits intro: plan_safe)
  consider "d' = d" | i repoint where "thrown (execute su cfg i d) = (res, d')" "?plan repoint = Inr (ui_steps i)"
      "\<forall>u. ui_restoreRemoteUrl i = Some u \<longrightarrow> own_remote su u"
    using st own unfolding start_update_def Let_def by (fastforce split: sum.splits if_splits)
  then show ?thesis
  proof cases
    case (2 i repoint)
    from 2(1) obtain x where "execute su cfg i d = (x, d')"
      unfolding thrown_def by (metis prod.collapse snd_conv)
    from execute_log [OF this assms(2) steps [OF 2(2)] 2(3)] show ?thesis .
  qed (use assms(2) in simp)
qed

lemma apply_update_log:
  assumes ap: "apply_update su parse_url lower cfg request d = (res, d')" and "log_safe su cfg d"
    and url: "plain_argument (uq_repoUrl request)" and b: "plain_argument (uq_branch request)"
  shows "log_safe su cfg d'"
proof (cases "dp_env d")
  case None
  with ap assms(2) show ?thesis by (simp add: apply_update_def)
next
  case (Some contents)
  obtain checkout d1 where c: "readCheckout su d = (checkout, d1)" by force
  note rc = readCheckout_safe [OF c assms(2)]
  note st = start_update_log [OF _ _ url b]
  have own: "\<forall>u. ck_remoteUrl checkout = Some u \<longrightarrow> own_remote su u" using rc(2) by blast
  note opts = plain_no_option [OF url] plain_no_option [OF b]
  show ?thesis
    using ap rc(1) unfolding apply_update_def Some Let_def
    by (auto simp: c split: update_strategy.splits if_splits prod.splits sum.splits bool.splits
        dest: resolveRelease_log [OF _ rc(1) opts(1)] resolveRemoteHead_log [OF _ rc(1) opts] st [OF _ _ own])
qed

lemma rollback_update_log:
  assumes rb: "rollback_update su cfg d = (res, d')" and safe: "log_safe su cfg d"
  shows "log_safe su cfg d'"
proof -
  obtain checkout d1 where c: "readCheckout su d = (checkout, d1)" by force
  note rc = readCheckout_safe(1) [OF c safe]
  consider "d' = d \<or> d' = d1" | i steps where "thrown (execute su cfg i d1) = (res, d')"
      "composeUpdatePlan PullImages (compose_target_of cfg) None None False None = Inr steps"
      "ui_steps i = filter (\<lambda>step. us_id step \<noteq> ''pull'') steps" "ui_restoreRemoteUrl i = None"
    using rb unfolding rollback_update_def Let_def by (fastforce simp: c split: option.splits sum.splits)
  then show ?thesis
  proof cases
    case (2 i steps)
    from 2(1) obtain x where ex: "execute su cfg i d1 = (x, d')"
      unfolding thrown_def by (metis prod.collapse snd_conv)
    have "list_all (safe_step su cfg) (ui_steps i)"
      using plan_safe [OF 2(2)] by (simp add: 2(3) list_all_iff)
    from execute_log [OF ex rc this] 2(4) show ?thesis by simp
  qed (use safe rc in auto)
qed

text \<open>
  C33. No part of a request becomes an option of a command: whatever repository and branch a caller
  asks for, and whatever the commands report, each command the updater runs is either one for the
  container engine, whose arguments depend on the configuration alone, or one for git in which every
  argument that begins with a dash is an option the program itself writes, save the one that puts
  back the remote git reported for the checkout. The parser of the platform must give host names and
  ports without white space and control characters.
\<close>

theorem request_adds_no_option:
  assumes "url_parser_ok parse_url"
    and "list_all (safe_command su cfg) (dp_log (uo_deployment st))"
    and "handle_update su parse_url lower cfg rq st = (res, st')"
  shows "list_all (safe_command su cfg) (dp_log (uo_deployment st'))"
proof -
  obtain out d where w: "updater_work su parse_url lower cfg rq (uo_deployment st) = (out, d)" by force
  have safe: "log_safe su cfg (uo_deployment st)" using assms(2) by (simp add: log_safe_def)
  have "log_safe su cfg d"
  proof (cases rq)
    case RollbackRequest
    with w rollback_update_log [OF _ safe] show ?thesis by (simp add: updater_work_def)
  next
    case (ApplyRequest repoUrl branch)
    show ?thesis
    proof (cases "validateUpdateRequest parse_url lower repoUrl branch")
      case (Inl e)
      with w ApplyRequest safe show ?thesis by (simp add: updater_work_def)
    next
      case (Inr request)
      then have "plain_argument (uq_repoUrl request)" "plain_argument (uq_branch request)"
        using normalized_url_plain [OF assms(1)] normalized_branch_plain
        by (auto simp: validateUpdateRequest_def split: option.splits sum.splits)
      from apply_update_log [OF _ safe this] w ApplyRequest Inr show ?thesis
        by (simp add: updater_work_def)
    qed
  qed
  moreover have "st' = st \<or> uo_deployment st' = d"
    using assms(3) w by (auto simp: handle_update_def split: if_splits)
  ultimately show ?thesis using safe by (auto simp: log_safe_def)
qed

theorem request_adds_no_option_witness:
  "case handle_update (surroundings_where False) (\<lambda>_. None) id example_updater
      (ApplyRequest (Some (js ''git@example.org:team/fork'')) (Some (js ''main'')))
      (example_update_state\<lparr>uo_deployment := (uo_deployment example_update_state)\<lparr>dp_git := True\<rparr>\<rparr>) of
     (res, st') \<Rightarrow> length (dp_log (uo_deployment st')) = 5 \<and>
       list_all (safe_command (surroundings_where False) example_updater) (dp_log (uo_deployment st'))"
proof -
  let ?st = "example_update_state\<lparr>uo_deployment := (uo_deployment example_update_state)\<lparr>dp_git := True\<rparr>\<rparr>"
  let ?rq = "ApplyRequest (Some (js ''git@example.org:team/fork'')) (Some (js ''main''))"
  obtain res st' where h: "handle_update (surroundings_where False) (\<lambda>_. None) id example_updater ?rq ?st = (res, st')"
    by force
  obtain request where rq: "validateUpdateRequest (\<lambda>_. None) id (Some (js ''git@example.org:team/fork'')) (Some (js ''main''))
      = Inr request" "chooseUpdateStrategy (uq_official request) = BuildImages"
    by (rule that [of "\<lparr>uq_repoUrl = js ''git@example.org:team/fork'', uq_branch = js ''main'', uq_official = False\<rparr>"])
      code_simp+
  have "dp_log (uo_deployment st') = map (\<lambda>as. (''git'', as, []))
      [words_of [''rev-parse'', ''HEAD''], words_of [''rev-parse'', ''--abbrev-ref'', ''HEAD''],
       words_of [''remote'', ''get-url'', ''origin''], gitStatusArgv, gitUntrackedFilesArgv]"
    using h
    by (auto simp: handle_update_def updater_work_def apply_update_def rq example_update_state_def readCheckout_def
        git_command_def run_command_def surroundings_where_def Let_def)
  then have "length (dp_log (uo_deployment st')) = 5" by simp
  moreover have "url_parser_ok (\<lambda>_. None)" by (simp add: url_parser_ok_def)
  moreover have "list_all (safe_command (surroundings_where False) example_updater) (dp_log (uo_deployment ?st))"
    by (simp add: example_update_state_def)
  ultimately show ?thesis using request_adds_no_option [OF _ _ h] by (simp add: h)
qed

end
