(* ===== verification/UpdaterProps.thy ===== *)
theory UpdaterProps
  imports Updater
begin

text \<open>
  What the updater promises: the version in the environment file follows what was deployed, a run
  that fails puts the old one back, a rollback undoes an update with nothing downloaded, and no
  command takes a part of a request for an option.
\<close>

subsection \<open>The environment file\<close>

lemma run_command_env [simp]: "dp_env (snd (run_command su c d)) = dp_env d"
  by (simp add: run_command_def)

lemma git_command_env: "git_command su as d = (r, d') \<Longrightarrow> dp_env d' = dp_env d"
  by (auto simp: git_command_def run_command_def)

lemma readCheckout_env:
  assumes rc: "readCheckout su d = (c, d')"
  shows "dp_env d' = dp_env d"
proof -
  obtain r1 d1 where 1: "git_command su (words_of [''rev-parse'', ''HEAD'']) d = (r1, d1)" by force
  obtain r2 d2 where 2: "git_command su (words_of [''rev-parse'', ''--abbrev-ref'', ''HEAD'']) d1 = (r2, d2)" by force
  obtain r3 d3 where 3: "git_command su (words_of [''remote'', ''get-url'', ''origin'']) d2 = (r3, d3)" by force
  obtain r4 d4 where 4: "git_command su gitStatusArgv d3 = (r4, d4)" by force
  obtain r5 d5 where 5: "git_command su gitUntrackedFilesArgv d4 = (r5, d5)" by force
  obtain r6 d6 where 6: "git_command su gitWorktreeContentDiffArgv d5 = (r6, d6)" by force
  obtain r7 d7 where 7: "git_command su gitIndexContentDiffArgv d6 = (r7, d7)" by force
  note steps = 1 2 3 4 5 6 7
  have "d' = d \<or> d' = d5 \<or> d' = d7"
    using rc unfolding readCheckout_def Let_def
    by (cases "dp_git d"; cases "ce_ok r4 \<and> \<not> po_clean (parseGitStatusPorcelain (ok_output r4))")
      (auto simp: steps)
  moreover have "dp_env d5 = dp_env d" "dp_env d7 = dp_env d"
    using steps [THEN git_command_env] by simp_all
  ultimately show ?thesis by auto
qed

lemma resolveRelease_env: "resolveRelease su u d = (r, d') \<Longrightarrow> dp_env d' = dp_env d"
  by (auto simp: resolveRelease_def Let_def split: if_splits prod.splits option.splits sum.splits
      dest!: git_command_env)

lemma resolveRemoteHead_env: "resolveRemoteHead su u d = (r, d') \<Longrightarrow> dp_env d' = dp_env d"
  by (auto simp: resolveRemoteHead_def Let_def split: if_splits prod.splits dest!: git_command_env)

lemma runStep_frame:
  "runStep su cfg step env se r d = (ok, r', d') \<Longrightarrow>
   dp_env d' = dp_env d \<and> un_ok r' = un_ok r \<and> un_restart r' = un_restart r \<and>
   un_fromTag r' = un_fromTag r \<and> un_toTag r' = un_toTag r"
  by (auto simp: runStep_def Let_def run_command_def split: if_splits)

lemma runStep_snd_frame:
  "snd (runStep su cfg step env se r d) = (r', d') \<Longrightarrow>
   dp_env d' = dp_env d \<and> un_ok r' = un_ok r \<and> un_restart r' = un_restart r \<and>
   un_fromTag r' = un_fromTag r \<and> un_toTag r' = un_toTag r"
  by (cases "runStep su cfg step env se r d") (auto dest: runStep_frame)

lemma run_git_steps_frame:
  "run_git_steps su cfg steps t r d = (ok, t', r', d') \<Longrightarrow>
   dp_env d' = dp_env d \<and> un_ok r' = un_ok r \<and> un_restart r' = un_restart r \<and>
   un_fromTag r' = un_fromTag r \<and> un_toTag r' = un_toTag r"
proof (induction steps arbitrary: t r d)
  case (Cons step steps)
  obtain ok1 r1 d1 where s: "runStep su cfg step [] True r d = (ok1, r1, d1)" by (metis prod_cases3)
  show ?case
  proof (cases ok1)
    case True
    then have "run_git_steps su cfg steps (t \<or> us_id step = ''checkout'' \<or> us_id step = ''merge'') r1 d1 =
        (ok, t', r', d')"
      using Cons.prems s by simp
    from Cons.IH [OF this] runStep_frame [OF s] show ?thesis by simp
  qed (use Cons.prems s runStep_frame [OF s] in simp)
qed simp

lemma restore_checkout_frame:
  "restore_checkout su cfg i t r d = (r', d') \<Longrightarrow>
   dp_env d' = dp_env d \<and> un_ok r' = un_ok r \<and> un_restart r' = un_restart r \<and>
   un_fromTag r' = un_fromTag r \<and> un_toTag r' = un_toTag r"
  by (auto simp: restore_checkout_def Let_def split: if_splits prod.splits dest!: runStep_snd_frame)

text \<open>A file that pins a version, and otherwise reads as another one does.\<close>

definition pins :: "deployment \<Rightarrow> jstring \<Rightarrow> jstring \<Rightarrow> jstring option \<Rightarrow> bool" where
  "pins d contents tag previous \<longleftrightarrow>
     (\<exists>c. dp_env d = Some c \<and> env_file_ok c \<and>
        readTagState c = \<lparr>ts_currentTag = tag, ts_previousTag = previous\<rparr> \<and>
        (\<forall>k. k \<noteq> IMAGE_TAG_ENV \<and> k \<noteq> PREVIOUS_IMAGE_TAG_ENV \<longrightarrow>
           readEnvAssignment c k = readEnvAssignment contents k))"

definition keeps_pin :: "deployment \<Rightarrow> jstring \<Rightarrow> jstring \<Rightarrow> bool" where
  "keeps_pin d contents tag \<longleftrightarrow> (\<exists>previous. pins d contents tag previous)"

lemma pins_cong: "dp_env d' = dp_env d \<Longrightarrow> pins d' contents tag previous = pins d contents tag previous"
  by (simp add: pins_def)

lemma keeps_cong: "dp_env d' = dp_env d \<Longrightarrow> keeps_pin d' contents tag = keeps_pin d contents tag"
  by (simp add: keeps_pin_def pins_def)

lemma write_pin:
  assumes "pins d contents t0 p0" and "\<forall>l. su_writable su l"
    and tags: "isValidImageTag tag" "isValidImageTag previous"
    and w: "writeEnvAssignments su [(IMAGE_TAG_ENV, tag), (PREVIOUS_IMAGE_TAG_ENV, previous)] d = (ok, d')"
  shows "ok" and "pins d' contents tag (Some previous)"
proof -
  obtain c where c: "dp_env d = Some c" "env_file_ok c"
    "\<forall>k. k \<noteq> IMAGE_TAG_ENV \<and> k \<noteq> PREVIOUS_IMAGE_TAG_ENV \<longrightarrow> readEnvAssignment c k = readEnvAssignment contents k"
    using assms(1) by (auto simp: pins_def)
  obtain c' where c': "upsertEnvAssignments c (pin_assignments tag previous) = Inr c'"
    using pin_writes [OF tags] .
  then have res: "ok" "d' = d\<lparr>dp_env := Some c'\<rparr>"
    using w assms(2) c(1) by (auto simp: writeEnvAssignments_def pin_assignments_def)
  show "ok" by (rule res(1))
  show "pins d' contents tag (Some previous)"
    using pinned [OF c' c(2) tags] c(3) res(2) by (auto simp: pins_def)
qed

lemma valid_tags:
  "isValidImageTag (ts_currentTag (readTagState c))"
  "ts_previousTag (readTagState c) = Some t \<Longrightarrow> isValidImageTag t"
proof -
  have "isValidImageTag DEFAULT_IMAGE_TAG" by code_simp
  then show "isValidImageTag (ts_currentTag (readTagState c))"
    by (simp add: readTagState_def Let_def split: option.split)
  show "ts_previousTag (readTagState c) = Some t \<Longrightarrow> isValidImageTag t"
    by (auto simp: readTagState_def Let_def split: option.splits if_splits)
qed

text \<open>An input of a run whose tags are those of the file.\<close>

definition input_ok :: "update_input \<Rightarrow> bool" where
  "input_ok i \<longleftrightarrow> isValidImageTag (ui_fromTag i) \<and>
     (\<forall>t. ui_originalPreviousTag i = Some t \<longrightarrow> isValidImageTag t) \<and>
     (\<forall>t. ui_toTag i = Some t \<longrightarrow> isValidImageTag t)"

text \<open>The tag a run deploys is one that can be written, and it is recorded.\<close>

lemma target_tag_frame:
  assumes "target_tag su i r d = (t, r', d')"
  shows "dp_env d' = dp_env d \<and> un_ok r' = un_ok r \<and> un_restart r' = un_restart r \<and> un_fromTag r' = un_fromTag r"
    and "input_ok i \<Longrightarrow> un_toTag r = ui_toTag i \<Longrightarrow> t = Inr (Some x) \<Longrightarrow> un_toTag r' = Some x \<and> isValidImageTag x"
  using assms
  by (auto simp: target_tag_def Let_def input_ok_def split: if_splits prod.splits update_strategy.splits sum.splits
      dest!: git_command_env dest: made_tag_valid)

lemma recover_frame:
  assumes w: "writeEnvAssignments su (revert_assignments i) d = (ok, d1)"
    and rec: "recover_step su cfg i step r d = (res, d')"
  shows "dp_env d' = dp_env d1 \<and>
    (\<forall>r'. res = Inr r' \<longrightarrow> un_ok r' = un_ok r \<and> un_fromTag r' = un_fromTag r \<and> un_toTag r' = un_toTag r \<and>
       (un_restart r = NotRequired \<longrightarrow> un_restart r' \<noteq> Recreated))"
proof (cases "us_id step = ''recreate''")
  case True
  note again = True
  show ?thesis
  proof (cases "composeUpArgv (compose_target_of cfg) False")
    case (Inl e)
    with rec w again show ?thesis by (auto simp: recover_step_def)
  next
    case (Inr up)
    let ?step = "\<lparr>us_id = ''recover'', us_label = js ''Restore the previously running '' @ ui_fromTag i @ js '' image'',
      us_command = ''docker'', us_args = up\<rparr>"
    obtain ok2 r2 d2 where run: "runStep su cfg ?step [(''RAKAZO_IMAGE_TAG'', ui_fromTag i)] False r d1 = (ok2, r2, d2)"
      by (metis prod_cases3)
    let ?e = "case un_error r of None \<Rightarrow> us_label step @ js '' failed.'' | Some e \<Rightarrow> e"
    have "(res, d') =
        (Inr (r2\<lparr>un_restart := if ok2 then NotRequired else ManualRestart, un_error := Some ?e\<rparr>), d2)"
      using rec by (simp add: recover_step_def Let_def w again Inr run)
    then show ?thesis using runStep_frame [OF run] by simp
  qed
next
  case False
  then show ?thesis using rec w by (auto simp: recover_step_def)
qed

lemma recover_pin:
  assumes "pins d contents t0 p0" and "\<forall>l. su_writable su l" and "input_ok i" and "un_restart r = NotRequired"
    and rec: "recover_step su cfg i step r d = (res, d')"
  shows "keeps_pin d' contents (ui_fromTag i)"
    and "res = Inr r' \<Longrightarrow> un_restart r' \<noteq> Recreated \<and> un_ok r' = un_ok r \<and>
      un_fromTag r' = un_fromTag r \<and> un_toTag r' = un_toTag r"
proof -
  let ?p = "case ui_originalPreviousTag i of None \<Rightarrow> ui_fromTag i | Some t \<Rightarrow> t"
  have v: "isValidImageTag (ui_fromTag i)" "isValidImageTag ?p"
    using assms(3) by (auto simp: input_ok_def split: option.splits)
  obtain ok d1 where w: "writeEnvAssignments su (revert_assignments i) d = (ok, d1)" by force
  have p1: "pins d1 contents (ui_fromTag i) (Some ?p)"
    using write_pin(2) [OF assms(1,2) v w [unfolded revert_assignments_def]] .
  with recover_frame [OF w rec] show "keeps_pin d' contents (ui_fromTag i)"
    by (auto simp: keeps_pin_def pins_def)
  show "res = Inr r' \<Longrightarrow> un_restart r' \<noteq> Recreated \<and> un_ok r' = un_ok r \<and>
      un_fromTag r' = un_fromTag r \<and> un_toTag r' = un_toTag r"
    using recover_frame [OF w rec] assms(4) by blast
qed

lemma compose_steps_pin:
  assumes "pins d contents tag p0" and "\<forall>l. su_writable su l" and "input_ok i" and "un_restart r = NotRequired"
    and "run_compose_steps su cfg i env steps r d = (res, d')"
  shows "case res of
      Inl e \<Rightarrow> keeps_pin d' contents (ui_fromTag i)
    | Inr r' \<Rightarrow> (un_restart r' = Recreated \<and> pins d' contents tag p0 \<or>
               un_restart r' \<noteq> Recreated \<and> keeps_pin d' contents (ui_fromTag i) \<and> un_ok r' = un_ok r) \<and>
              un_fromTag r' = un_fromTag r \<and> un_toTag r' = un_toTag r"
  using assms
proof (induction steps arbitrary: r d)
  case (Cons step steps)
  obtain ok1 r1 d1 where s: "runStep su cfg step env True r d = (ok1, r1, d1)" by (metis prod_cases3)
  note fr = runStep_frame [OF s]
  have p1: "pins d1 contents tag p0" using Cons.prems(1) fr pins_cong by metis
  have nr: "un_restart r1 = NotRequired" using Cons.prems(4) fr by simp
  show ?case
  proof (cases ok1)
    case True
    with Cons.prems(5) s have "run_compose_steps su cfg i env steps r1 d1 = (res, d')" by simp
    from Cons.IH [OF p1 Cons.prems(2,3) nr this] fr show ?thesis by (auto split: sum.splits)
  next
    case False
    with Cons.prems(5) s have rec: "recover_step su cfg i step r1 d1 = (res, d')" by simp
    show ?thesis
    proof (cases res)
      case (Inl e)
      then show ?thesis using recover_pin(1) [OF p1 Cons.prems(2,3) nr rec] by simp
    next
      case (Inr r')
      then show ?thesis
        using recover_pin(1) [OF p1 Cons.prems(2,3) nr rec] recover_pin(2) [OF p1 Cons.prems(2,3) nr rec Inr] fr
        by simp
    qed
  qed
qed auto

text \<open>What a run leaves in the file: the tag it deployed, or the one that was there.\<close>

definition pin_follows :: "jstring \<Rightarrow> jstring \<Rightarrow> 'e + update_run \<Rightarrow> deployment \<Rightarrow> bool" where
  "pin_follows contents from_tag res d =
     (case res of
        Inl e \<Rightarrow> keeps_pin d contents from_tag
      | Inr r \<Rightarrow> un_fromTag r = from_tag \<and>
          (if un_restart r = Recreated
           then un_ok r \<and> (\<exists>to_tag. un_toTag r = Some to_tag \<and> pins d contents to_tag (Some from_tag))
           else keeps_pin d contents from_tag))"

lemma pin_follows_frame:
  "dp_env d' = dp_env d \<Longrightarrow> pin_follows contents t res d' = pin_follows contents t res d"
  by (simp add: pin_follows_def keeps_pin_def pins_def split: sum.split)

lemma pin_follows_thrown:
  "thrown x = (res, d) \<Longrightarrow> pin_follows contents t (fst x) (snd x) \<Longrightarrow> pin_follows contents t res d"
  by (cases "fst x") (auto simp: thrown_def pin_follows_def)

lemma run_compose_ok:
  "run_compose_steps su cfg i env steps r d = (Inr r', d') \<Longrightarrow> un_restart r = NotRequired \<Longrightarrow>
   un_restart r' = Recreated \<Longrightarrow> un_ok r'"
proof (induction steps arbitrary: r d)
  case (Cons step steps)
  obtain ok1 r1 d1 where s: "runStep su cfg step env True r d = (ok1, r1, d1)" by (metis prod_cases3)
  have nr: "un_restart r1 = NotRequired" using Cons.prems(2) runStep_frame [OF s] by simp
  show ?case
  proof (cases ok1)
    case True
    with Cons s nr show ?thesis by simp
  next
    case False
    with Cons.prems(1) s have rec: "recover_step su cfg i step r1 d1 = (Inr r', d')" by simp
    obtain ok d2 where "writeEnvAssignments su (revert_assignments i) d1 = (ok, d2)" by force
    from recover_frame [OF this rec] nr Cons.prems(3) show ?thesis by simp
  qed
qed auto

lemma deploy_pin:
  assumes p: "pins d contents (ui_fromTag i) p0" and wr: "\<forall>l. su_writable su l" and i: "input_ok i"
    and r: "un_restart r = NotRequired" "un_fromTag r = ui_fromTag i" "un_toTag r = Some tag" "isValidImageTag tag"
    and dep: "deploy su cfg i tag r d = (res, d')"
  shows "pin_follows contents (ui_fromTag i) res d'"
proof -
  obtain ok d1 where w: "writeEnvAssignments su [(IMAGE_TAG_ENV, tag), (PREVIOUS_IMAGE_TAG_ENV, ui_fromTag i)] d = (ok, d1)"
    by force
  have "isValidImageTag (ui_fromTag i)" using i by (simp add: input_ok_def)
  note wp = write_pin [OF p wr r(4) this w]
  let ?env = "(''RAKAZO_IMAGE_TAG'', tag) # (case un_toCommit r of None \<Rightarrow> [] | Some c \<Rightarrow> [(''GIT_SHA'', c)])"
  have run: "run_compose_steps su cfg i ?env (filter (\<lambda>step. us_command step \<noteq> ''git'') (ui_steps i)) r d1 = (res, d')"
    using dep w wp(1) by (simp add: deploy_def)
  note cp = compose_steps_pin [OF wp(2) wr i r(1) run]
  show ?thesis
  proof (cases res)
    case (Inl e)
    with cp show ?thesis by (simp add: pin_follows_def)
  next
    case (Inr r')
    with cp run_compose_ok [OF run [unfolded Inr] r(1)] r show ?thesis by (auto simp: pin_follows_def)
  qed
qed

lemma restore_follows:
  assumes "restore_checkout su cfg i touched r d = (r', d')" and "pin_follows contents t (Inr r :: 'e + update_run) d"
  shows "pin_follows contents t (Inr r' :: 'e + update_run) d'"
  using restore_checkout_frame [OF assms(1)] assms(2) by (auto simp: pin_follows_def keeps_pin_def pins_def)

lemma keeps_follows:
  assumes "keeps_pin d contents t" and "un_fromTag r = t" and "un_restart r \<noteq> Recreated"
  shows "pin_follows contents t (Inr r) d"
  using assms by (simp add: pin_follows_def)

text \<open>A run of the steps, with what is put back in the end.\<close>

definition run_target ::
    "surroundings \<Rightarrow> updater_config \<Rightarrow> update_input \<Rightarrow> bool \<Rightarrow> update_run \<Rightarrow> deployment \<Rightarrow>
     (compose_error + unit) \<times> update_run \<times> deployment" where
  "run_target su cfg i ok record d =
     (if \<not> ok then (Inr (), record, d)
      else (case target_tag su i record d of
              (Inl e, record, d) \<Rightarrow> (Inl e, record, d)
            | (Inr None, record, d) \<Rightarrow> (Inr (), record, d)
            | (Inr (Some toTag), record, d) \<Rightarrow>
                (case deploy su cfg i toTag record d of
                   (Inl e, d) \<Rightarrow> (Inl e, record, d)
                 | (Inr record, d) \<Rightarrow> (Inr (), record, d))))"

lemma execute_parts:
  "execute su cfg i d =
     (case run_git_steps su cfg (filter (\<lambda>step. us_command step = ''git'') (ui_steps i)) False (initial_run i) d of
        (ok, touched, record, d) \<Rightarrow>
          (case run_target su cfg i ok record d of
             (outcome, record, d) \<Rightarrow>
               (case restore_checkout su cfg i touched record d of
                  (record, d) \<Rightarrow> (map_sum id (\<lambda>_. record) outcome, d))))"
  by (simp add: execute_def run_target_def Let_def)

lemma run_target_pin:
  assumes p: "pins d contents (ui_fromTag i) p0" and wr: "\<forall>l. su_writable su l" and i: "input_ok i"
    and r: "un_restart r = NotRequired" "un_fromTag r = ui_fromTag i" "un_toTag r = ui_toTag i"
    and run: "run_target su cfg i ok r d = (outcome, r', d')"
  shows "pin_follows contents (ui_fromTag i) (map_sum id (\<lambda>_. r') outcome) d'"
proof -
  have k: "keeps_pin d contents (ui_fromTag i)" using p by (auto simp: keeps_pin_def)
  obtain t r1 d1 where t: "target_tag su i r d = (t, r1, d1)" by (metis prod_cases3)
  note fr = target_tag_frame(1) [OF t]
  have p1: "pins d1 contents (ui_fromTag i) p0" using p fr pins_cong by metis
  then have k1: "keeps_pin d1 contents (ui_fromTag i)" by (auto simp: keeps_pin_def)
  show ?thesis
  proof (cases "ok \<and> (\<exists>tag. t = Inr (Some tag))")
    case False
    then have "r' = r \<and> d' = d \<or> r' = r1 \<and> d' = d1"
      using run t by (auto simp: run_target_def split: if_splits sum.splits option.splits)
    with k k1 fr r show ?thesis by (cases outcome) (auto simp: pin_follows_def)
  next
    case True
    then obtain tag where ok: ok and tag: "t = Inr (Some tag)" by blast
    obtain res d2 where dep: "deploy su cfg i tag r1 d1 = (res, d2)" by force
    have "un_toTag r1 = Some tag" "isValidImageTag tag"
      using target_tag_frame(2) [OF t i r(3) tag] by simp_all
    then have "pin_follows contents (ui_fromTag i) res d2"
      using deploy_pin [OF p1 wr i _ _ _ _ dep] fr r by simp
    then show ?thesis
      using run ok t tag dep by (cases res) (auto simp: run_target_def pin_follows_def)
  qed
qed

lemma execute_pin:
  assumes p: "pins d contents (ui_fromTag i) p0" and wr: "\<forall>l. su_writable su l" and i: "input_ok i"
    and ex: "execute su cfg i d = (res, d')"
  shows "pin_follows contents (ui_fromTag i) res d'"
proof -
  let ?steps = "filter (\<lambda>step. us_command step = ''git'') (ui_steps i)"
  obtain ok t r1 d1 where g: "run_git_steps su cfg ?steps False (initial_run i) d = (ok, t, r1, d1)"
    by (metis prod_cases4)
  note fr = run_git_steps_frame [OF g]
  obtain outcome r2 d2 where rt: "run_target su cfg i ok r1 d1 = (outcome, r2, d2)" by (metis prod_cases3)
  obtain r3 d3 where rc: "restore_checkout su cfg i t r2 d2 = (r3, d3)" by force
  have "pins d1 contents (ui_fromTag i) p0" using p fr pins_cong by metis
  then have pf: "pin_follows contents (ui_fromTag i) (map_sum id (\<lambda>_. r2) outcome) d2"
    using run_target_pin [OF _ wr i _ _ _ rt] fr by (simp add: initial_run_def)
  have res: "res = map_sum id (\<lambda>_. r3) outcome" "d' = d3"
    using ex by (simp_all add: execute_parts g rt rc)
  show ?thesis
  proof (cases outcome)
    case (Inl e)
    with pf res restore_checkout_frame [OF rc] show ?thesis
      by (simp add: pin_follows_def keeps_pin_def pins_def)
  next
    case (Inr u)
    with pf restore_follows [OF rc] res show ?thesis by simp
  qed
qed

lemma pins_start:
  assumes "dp_env d = Some contents" and "env_file_ok contents"
  shows "pins d contents (ts_currentTag (readTagState contents)) (ts_previousTag (readTagState contents))"
  using assms by (simp add: pins_def)

lemma resolveRelease_tag:
  "resolveRelease su u d = (Inr t, d') \<Longrightarrow> isValidImageTag (tt_imageTag t)"
  by (auto simp: resolveRelease_def Let_def split: if_splits prod.splits option.splits sum.splits
      dest: made_tag_valid(2))

lemma start_update_pin:
  assumes p: "pins d contents (ts_currentTag tags) p0" and wr: "\<forall>l. su_writable su l"
    and tags: "tags = readTagState c" and tgt: "\<forall>t. target = Some t \<longrightarrow> isValidImageTag (tt_imageTag t)"
    and st: "start_update su parse_url lower cfg request strategy tags checkout target d = (res, d')"
  shows "pin_follows contents (ts_currentTag tags) res d'"
proof (cases "\<exists>e. res = Inl (Thrown e) \<and> d' = d")
  case True
  with p show ?thesis by (auto simp: pin_follows_def keeps_pin_def)
next
  case False
  with st obtain i where ex: "thrown (execute su cfg i d) = (res, d')"
    and i: "ui_fromTag i = ts_currentTag tags" "ui_originalPreviousTag i = ts_previousTag tags"
      "ui_toTag i = map_option tt_imageTag target"
    by (fastforce simp: start_update_def Let_def split: sum.splits)
  have "input_ok i" using i tags tgt valid_tags by (auto simp: input_ok_def)
  from execute_pin [OF p [folded i(1)] wr this] have
    "pin_follows contents (ui_fromTag i) (fst (execute su cfg i d)) (snd (execute su cfg i d))"
    by (metis prod.collapse)
  from pin_follows_thrown [OF ex this] i(1) show ?thesis by simp
qed

lemma unchanged_follows:
  assumes "pins d contents (ts_currentTag (readTagState contents)) p0" and "dp_env d' = dp_env d"
  shows "pin_follows contents (ts_currentTag (readTagState contents)) (Inl e) d'"
    and "pin_follows contents (ts_currentTag (readTagState contents))
      (Inr (upToDateRecord request (ts_currentTag (readTagState contents)) strategy commit)) d'"
  using assms by (auto simp: pin_follows_def keeps_pin_def pins_def upToDateRecord_def)

lemma apply_pull_pin:
  assumes p: "pins d contents (ts_currentTag (readTagState contents)) p0" and wr: "\<forall>l. su_writable su l"
    and ap: "(case resolveRelease su (uq_repoUrl request) d of
                (Inl e, d) \<Rightarrow> (Inl e, d)
              | (Inr target, d) \<Rightarrow>
                  if tt_imageTag target = ts_currentTag (readTagState contents)
                  then (Inr (upToDateRecord request (tt_imageTag target) PullImages (Some (tt_commit target))), d)
                  else start_update su parse_url lower cfg request PullImages (readTagState contents) checkout
                         (Some target) d) = (res, d')"
  shows "pin_follows contents (ts_currentTag (readTagState contents)) res d'"
proof -
  obtain t d1 where t: "resolveRelease su (uq_repoUrl request) d = (t, d1)" by force
  have env: "dp_env d1 = dp_env d" by (rule resolveRelease_env [OF t])
  show ?thesis
  proof (cases t)
    case (Inl e)
    with ap t unchanged_follows(1) [OF p env] show ?thesis by auto
  next
    case (Inr target)
    have p1: "pins d1 contents (ts_currentTag (readTagState contents)) p0" using p env pins_cong by metis
    have "isValidImageTag (tt_imageTag target)" by (rule resolveRelease_tag [OF t [unfolded Inr]])
    then show ?thesis
      using ap t Inr unchanged_follows(2) [OF p env] start_update_pin [OF p1 wr refl, where target = "Some target"]
      by (auto split: if_splits)
  qed
qed

lemma apply_build_pin:
  assumes p: "pins d contents (ts_currentTag (readTagState contents)) p0" and wr: "\<forall>l. su_writable su l"
    and ap: "(case resolveRemoteHead su request d of
                (Inl e, d) \<Rightarrow> (Inl e, d)
              | (Inr remoteHead, d) \<Rightarrow>
                  (case upToDateForBuild (ts_currentTag (readTagState contents)) (ck_commit checkout) remoteHead of
                     Inl e \<Rightarrow> (Inl (Thrown e), d)
                   | Inr True \<Rightarrow>
                       (Inr (upToDateRecord request (ts_currentTag (readTagState contents)) BuildImages
                          (ck_commit checkout)), d)
                   | Inr False \<Rightarrow>
                       start_update su parse_url lower cfg request BuildImages (readTagState contents) checkout
                         None d)) = (res, d')"
  shows "pin_follows contents (ts_currentTag (readTagState contents)) res d'"
proof -
  obtain t d1 where t: "resolveRemoteHead su request d = (t, d1)" by force
  have env: "dp_env d1 = dp_env d" by (rule resolveRemoteHead_env [OF t])
  have p1: "pins d1 contents (ts_currentTag (readTagState contents)) p0" using p env pins_cong by metis
  show ?thesis
    using ap t unchanged_follows [OF p env] start_update_pin [OF p1 wr refl, where target = None]
    by (auto split: sum.splits bool.splits)
qed

lemma apply_update_pin:
  assumes d: "dp_env d = Some contents" "env_file_ok contents" and wr: "\<forall>l. su_writable su l"
    and ap: "apply_update su parse_url lower cfg request d = (res, d')"
  shows "pin_follows contents (ts_currentTag (readTagState contents)) res d'"
proof -
  note p = pins_start [OF d]
  obtain checkout d1 where c: "readCheckout su d = (checkout, d1)" by force
  note env = readCheckout_env [OF c]
  have p1: "pins d1 contents (ts_currentTag (readTagState contents)) (ts_previousTag (readTagState contents))"
    using p env pins_cong by metis
  note same = unchanged_follows(1) [OF p env]
  show ?thesis
  proof (cases "chooseUpdateStrategy (uq_official request)")
    case PullImages
    show ?thesis
      using ap apply_pull_pin [OF p1 wr, where request = request and parse_url = parse_url and lower = lower and cfg = cfg and checkout = checkout
            and res = res and d' = d']
        by (simp add: apply_update_def Let_def d c PullImages)
  next
    case BuildImages
    show ?thesis
    proof (cases "ck_present checkout \<and> ck_remoteUrl checkout \<noteq> None \<and> \<not> ck_dirty checkout")
      case True
      then have "ck_present checkout" "(ck_remoteUrl checkout = None) = False" "\<not> ck_dirty checkout" by simp_all
      then show ?thesis
        using ap apply_build_pin [OF p1 wr, where request = request and parse_url = parse_url and lower = lower and cfg = cfg and checkout = checkout
            and res = res and d' = d']
        by (simp add: apply_update_def Let_def d c BuildImages del: not_None_eq)
    next
      case False
      with ap same show ?thesis by (auto simp: apply_update_def Let_def d c BuildImages split: if_splits)
    qed
  qed
qed

lemma rollback_update_pin:
  assumes d: "dp_env d = Some contents" "env_file_ok contents" and wr: "\<forall>l. su_writable su l"
    and rb: "rollback_update su cfg d = (res, d')"
  shows "pin_follows contents (ts_currentTag (readTagState contents)) res d'"
proof -
  let ?tags = "readTagState contents"
  note p = pins_start [OF d]
  obtain checkout d1 where c: "readCheckout su d = (checkout, d1)" by force
  note env = readCheckout_env [OF c]
  have p1: "pins d1 contents (ts_currentTag ?tags) (ts_previousTag ?tags)" using p env pins_cong by metis
  show ?thesis
  proof (cases "\<exists>e. res = Inl e \<and> dp_env d' = dp_env d")
    case True
    with unchanged_follows(1) [OF p] show ?thesis by auto
  next
    case False
    then obtain tag where tag: "rollbackTarget (Some (ts_currentTag ?tags)) (ts_previousTag ?tags) = Inr tag"
      using rb by (cases "rollbackTarget (Some (ts_currentTag ?tags)) (ts_previousTag ?tags)")
        (use d in \<open>auto simp: rollback_update_def\<close>)
    with False obtain steps where "composeUpdatePlan PullImages (compose_target_of cfg) None None False None = Inr steps"
      using rb env by (cases "composeUpdatePlan PullImages (compose_target_of cfg) None None False None")
        (auto simp: rollback_update_def d c)
    note plan = this
    let ?i = "\<lparr>ui_repoUrl = [], ui_branch = [], ui_strategy = PullImages, ui_fromTag = ts_currentTag ?tags,
      ui_originalPreviousTag = ts_previousTag ?tags, ui_toTag = Some tag, ui_fromCommit = ck_commit checkout,
      ui_fromBranch = ck_branch checkout, ui_toCommit = None, ui_restoreRemoteUrl = None,
      ui_steps = filter (\<lambda>step. us_id step \<noteq> ''pull'') steps\<rparr>"
    have "thrown (execute su cfg ?i d1) = (res, d')"
      using rb by (simp add: rollback_update_def Let_def d c tag plan)
    then obtain i where ex: "thrown (execute su cfg i d1) = (res, d')"
      and i: "ui_fromTag i = ts_currentTag ?tags" "ui_originalPreviousTag i = ts_previousTag ?tags"
        "ui_toTag i = Some tag"
      by (rule that) simp_all
    have "isValidImageTag tag"
      using tag by (auto simp: rollbackTarget_def Let_def split: option.splits if_splits)
    then have "input_ok i" using i valid_tags by (auto simp: input_ok_def)
    from execute_pin [OF p1 [folded i(1)] wr this]
    have "pin_follows contents (ui_fromTag i) (fst (execute su cfg i d1)) (snd (execute su cfg i d1))"
      by (metis prod.collapse)
    from pin_follows_thrown [OF ex this] i(1) show ?thesis by simp
  qed
qed

lemma updater_work_pin:
  assumes d: "dp_env d = Some contents" "env_file_ok contents" and wr: "\<forall>l. su_writable su l"
    and w: "updater_work su parse_url lower cfg rq d = (res, d')"
  shows "pin_follows contents (ts_currentTag (readTagState contents)) res d'"
proof (cases rq)
  case RollbackRequest
  with w rollback_update_pin [OF d wr] show ?thesis by (simp add: updater_work_def)
next
  case (ApplyRequest repoUrl branch)
  with w apply_update_pin [OF d wr] unchanged_follows(1) [OF pins_start [OF d] refl] show ?thesis
    by (auto simp: updater_work_def split: sum.splits)
qed

subsection \<open>Rolling back\<close>

lemma project_argv:
  assumes "isValidComposeProjectName (ug_projectName cfg)"
  obtains pull up where "composePullArgv (compose_target_of cfg) = Inr pull"
    and "composeUpArgv (compose_target_of cfg) False = Inr up"
  using assms by (simp add: composePullArgv_def composeUpArgv_def with_base_def composeBase_def compose_target_of_def)

lemma rollback_plan:
  assumes "composePullArgv t = Inr pull" and "composeUpArgv t False = Inr up"
  obtains steps where "composeUpdatePlan PullImages t None None False None = Inr steps"
    and "filter (\<lambda>step. us_id step \<noteq> ''pull'') steps =
      [make_step ''recreate'' ''Recreate the services'' ''docker'' up]"
  using assms by (simp add: composeUpdatePlan_def make_step_def)

lemma execute_recreate:
  assumes i: "ui_steps i = [make_step ''recreate'' label ''docker'' up]" "ui_strategy i = PullImages"
      "ui_toTag i = Some tag" "ui_toCommit i = None" "ui_restoreRemoteUrl i = None"
    and w: "writeEnvAssignments su [(IMAGE_TAG_ENV, tag), (PREVIOUS_IMAGE_TAG_ENV, ui_fromTag i)] d = (True, d2)"
    and ok: "\<forall>l as e. ce_ok (su_run su l (''docker'', as, e))"
  obtains r where "execute su cfg i d = (Inr r, d2\<lparr>dp_log := dp_log d2 @
      [(''docker'', up, [(''COMPOSE_PROJECT_NAME'', ug_projectName cfg), (''RAKAZO_IMAGE_TAG'', tag)])]\<rparr>)"
    and "un_ok r" and "un_restart r = Recreated" and "un_toTag r = Some tag" and "un_fromTag r = ui_fromTag i"
proof (rule that)
  show "execute su cfg i d = (Inr (let r = initial_run i; c = su_run su (dp_log d2)
        (''docker'', up, [(''COMPOSE_PROJECT_NAME'', ug_projectName cfg), (''RAKAZO_IMAGE_TAG'', tag)])
      in r\<lparr>un_ok := True, un_restart := Recreated, un_steps :=
           [\<lparr>sp_id = ''recreate'', sp_label = js label, sp_ok = True, sp_exitCode = ce_exitCode c,
             sp_output = ce_output c\<rparr>]\<rparr>),
      d2\<lparr>dp_log := dp_log d2 @
        [(''docker'', up, [(''COMPOSE_PROJECT_NAME'', ug_projectName cfg), (''RAKAZO_IMAGE_TAG'', tag)])]\<rparr>)"
    using ok
    by (simp add: execute_parts i run_target_def target_tag_def deploy_def w initial_run_def make_step_def
        runStep_def run_command_def step_env_def restore_checkout_def Let_def)
qed (simp_all add: i Let_def initial_run_def)

text \<open>A rollback, when the engine does what it is told: one command, and the tags change places.\<close>

lemma rollback_runs:
  assumes d: "dp_env d = Some contents" "env_file_ok contents"
    and tags: "readTagState contents = \<lparr>ts_currentTag = cur, ts_previousTag = Some prev\<rparr>" and ne: "prev \<noteq> cur"
    and cfg: "isValidComposeProjectName (ug_projectName cfg)" "composeUpArgv (compose_target_of cfg) False = Inr up"
    and su: "\<forall>l. su_writable su l" "\<forall>l as e. ce_ok (su_run su l (''docker'', as, e))"
  obtains r d' c where "rollback_update su cfg d = (Inr r, d')" and "un_ok r" and "un_restart r = Recreated"
    and "dp_env d' = Some c" and "env_file_ok c"
    and "readTagState c = \<lparr>ts_currentTag = prev, ts_previousTag = Some cur\<rparr>"
    and "dp_log d' = dp_log (snd (readCheckout su d)) @
      [(''docker'', up, [(''COMPOSE_PROJECT_NAME'', ug_projectName cfg), (''RAKAZO_IMAGE_TAG'', prev)])]"
proof -
  obtain checkout d1 where c: "readCheckout su d = (checkout, d1)" by force
  have env1: "dp_env d1 = Some contents" using readCheckout_env [OF c] d(1) by simp
  have v: "isValidImageTag prev" "isValidImageTag cur"
    using valid_tags [of contents] by (simp_all add: tags)
  then have target: "rollbackTarget (Some cur) (Some prev) = Inr prev"
    using ne by (auto simp: rollbackTarget_def truthy_def isValidImageTag_def)
  obtain pull where pull: "composePullArgv (compose_target_of cfg) = Inr pull" using project_argv [OF cfg(1)] .
  obtain steps where plan: "composeUpdatePlan PullImages (compose_target_of cfg) None None False None = Inr steps"
    and steps: "filter (\<lambda>step. us_id step \<noteq> ''pull'') steps =
      [make_step ''recreate'' ''Recreate the services'' ''docker'' up]"
    using rollback_plan [OF pull cfg(2)] .
  obtain w d2 where w: "writeEnvAssignments su [(IMAGE_TAG_ENV, prev), (PREVIOUS_IMAGE_TAG_ENV, cur)] d1 = (w, d2)"
    by force
  note pin = write_pin [OF pins_start [OF env1 d(2)] su(1) v w]
  then obtain c' where c': "dp_env d2 = Some c'" "env_file_ok c'"
    "readTagState c' = \<lparr>ts_currentTag = prev, ts_previousTag = Some cur\<rparr>"
    by (auto simp: pins_def)
  have log: "dp_log d2 = dp_log d1"
    using w by (auto simp: writeEnvAssignments_def split: option.splits sum.splits if_splits)
  let ?i = "\<lparr>ui_repoUrl = [], ui_branch = [], ui_strategy = PullImages, ui_fromTag = cur,
    ui_originalPreviousTag = Some prev, ui_toTag = Some prev, ui_fromCommit = ck_commit checkout,
    ui_fromBranch = ck_branch checkout, ui_toCommit = None, ui_restoreRemoteUrl = None,
    ui_steps = [make_step ''recreate'' ''Recreate the services'' ''docker'' up]\<rparr>"
  have w': "writeEnvAssignments su [(IMAGE_TAG_ENV, prev), (PREVIOUS_IMAGE_TAG_ENV, ui_fromTag ?i)] d1 = (True, d2)"
    using w pin(1) by simp
  obtain r where r: "execute su cfg ?i d1 = (Inr r, d2\<lparr>dp_log := dp_log d2 @
      [(''docker'', up, [(''COMPOSE_PROJECT_NAME'', ug_projectName cfg), (''RAKAZO_IMAGE_TAG'', prev)])]\<rparr>)"
    "un_ok r" "un_restart r = Recreated"
    by (rule execute_recreate [where i = ?i, OF _ _ _ _ _ w' su(2)]) simp_all
  have "rollback_update su cfg d = thrown (execute su cfg ?i d1)"
    by (simp add: rollback_update_def d(1) tags target c plan steps)
  with r(1) have "rollback_update su cfg d = (Inr r, d2\<lparr>dp_log := dp_log d2 @
      [(''docker'', up, [(''COMPOSE_PROJECT_NAME'', ug_projectName cfg), (''RAKAZO_IMAGE_TAG'', prev)])]\<rparr>)"
    by (simp add: thrown_def)
  from that [OF this r(2,3) _ c'(2,3)] c c'(1) log show thesis by simp
qed


lemma example_pins:
  obtains contents where "dp_env (uo_deployment example_update_state) = Some contents" and "env_file_ok contents"
    and "readTagState contents = \<lparr>ts_currentTag = js ''v2'', ts_previousTag = Some (js ''v1'')\<rparr>"
  by (rule that [of "the (dp_env (uo_deployment example_update_state))"]) code_simp+




end
