(* ===== verification/UpdaterPlan.thy ===== *)
theory UpdaterPlan
  imports UpdaterProps
begin

text \<open>What the plan of an update says, and what applying the same request then does.\<close>

text \<open>What the steps of a run leave alone in its record.\<close>

definition same_aim :: "update_run \<Rightarrow> update_run \<Rightarrow> bool" where
  "same_aim r r' \<longleftrightarrow> un_strategy r' = un_strategy r \<and> un_toCommit r' = un_toCommit r \<and>
     un_toTag r' = un_toTag r \<and> un_fromTag r' = un_fromTag r"

lemma same_aim_trans: "same_aim a b \<Longrightarrow> same_aim b c \<Longrightarrow> same_aim a c"
  by (simp add: same_aim_def)

lemma same_aim_refl [simp]: "same_aim r r"
  by (simp add: same_aim_def)

lemma runStep_aim: "runStep su cfg step env se r d = (ok, r', d') \<Longrightarrow> same_aim r r'"
  by (auto simp: runStep_def Let_def run_command_def same_aim_def split: if_splits)

lemma runStep_snd_aim: "snd (runStep su cfg step env se r d) = (r', d') \<Longrightarrow> same_aim r r'"
  by (cases "runStep su cfg step env se r d") (auto dest: runStep_aim)

lemma recover_aim:
  assumes "recover_step su cfg i step r d = (Inr r', d')" shows "same_aim r r'"
proof -
  obtain ok d1 where w: "writeEnvAssignments su (revert_assignments i) d = (ok, d1)" by force
  show ?thesis
  proof (cases "us_id step = ''recreate''")
    case False
    with assms w show ?thesis by (auto simp: recover_step_def same_aim_def)
  next
    case True
    note again = True
    show ?thesis
    proof (cases "composeUpArgv (compose_target_of cfg) False")
      case (Inl e)
      with assms w again show ?thesis by (simp add: recover_step_def)
    next
      case (Inr up)
      let ?step = "\<lparr>us_id = ''recover'', us_label = js ''Restore the previously running '' @ ui_fromTag i @ js '' image'',
        us_command = ''docker'', us_args = up\<rparr>"
      obtain ok2 r2 d2 where run: "runStep su cfg ?step [(''RAKAZO_IMAGE_TAG'', ui_fromTag i)] False r d1 = (ok2, r2, d2)"
        by (metis prod_cases3)
      show ?thesis
        using assms runStep_aim [OF run]
        by (auto simp: recover_step_def Let_def w again Inr run same_aim_def)
    qed
  qed
qed

lemma compose_steps_aim:
  "run_compose_steps su cfg i env steps r d = (Inr r', d') \<Longrightarrow> same_aim r r'"
proof (induction steps arbitrary: r d)
  case (Cons step steps)
  obtain ok1 r1 d1 where s: "runStep su cfg step env True r d = (ok1, r1, d1)" by (metis prod_cases3)
  note aim = runStep_aim [OF s]
  show ?case
  proof (cases ok1)
    case True
    with Cons s have "same_aim r1 r'" by simp
    with aim show ?thesis by (rule same_aim_trans)
  next
    case False
    with Cons.prems s have "recover_step su cfg i step r1 d1 = (Inr r', d')" by simp
    from recover_aim [OF this] aim show ?thesis by (blast intro: same_aim_trans)
  qed
qed (auto simp: same_aim_def)

lemma deploy_aim: "deploy su cfg i tag r d = (Inr r', d') \<Longrightarrow> same_aim r r'"
  by (auto simp: deploy_def split: prod.splits if_splits dest: compose_steps_aim) (simp add: same_aim_def)

lemma restore_aim: "restore_checkout su cfg i t r d = (r', d') \<Longrightarrow> same_aim r r'"
  by (auto simp: restore_checkout_def Let_def split: if_splits prod.splits dest!: runStep_snd_aim
      intro: same_aim_trans)

text \<open>A run that pulls deploys what it was asked for, whether it succeeds or not.\<close>

lemma execute_pull_aim:
  assumes ex: "execute su cfg i d = (Inr r, d')" and i: "ui_strategy i = PullImages"
    and steps: "filter (\<lambda>step. us_command step = ''git'') (ui_steps i) = []"
  shows "un_strategy r = PullImages \<and> un_toCommit r = ui_toCommit i \<and> un_toTag r = ui_toTag i \<and>
    un_fromTag r = ui_fromTag i"
proof -
  let ?r = "if ui_toTag i = None then (initial_run i)\<lparr>un_error := Some (js ''Could not resolve a target image tag.'')\<rparr>
    else initial_run i"
  obtain r1 d1 where rc: "restore_checkout su cfg i False r1 d1 = (r, d')"
    and r1: "same_aim ?r r1"
    using ex
    by (cases "ui_toTag i")
      (auto simp: execute_def steps target_tag_def i Let_def split: prod.splits sum.splits dest: deploy_aim)
  from same_aim_trans [OF r1 restore_aim [OF rc]] show ?thesis
    by (auto simp: same_aim_def initial_run_def i split: if_splits)
qed

lemma start_pull_aim:
  assumes st: "start_update su parse_url lower cfg request PullImages tags checkout (Some target) d = (Inr r, d')"
  shows "un_strategy r = PullImages \<and> un_toCommit r = Some (tt_commit target) \<and>
    un_toTag r = Some (tt_imageTag target) \<and> un_fromTag r = ts_currentTag tags"
proof -
  obtain steps where plan: "composeUpdatePlan PullImages (compose_target_of cfg) None None False None = Inr steps"
    using st by (cases "composeUpdatePlan PullImages (compose_target_of cfg) None None False None")
      (auto simp: start_update_def Let_def)
  have "filter (\<lambda>step. us_command step = ''git'') steps = []"
    using plan by (auto simp: composeUpdatePlan_def make_step_def split: sum.splits)
  moreover obtain i where "execute su cfg i d = (Inr r, d')" and i: "ui_strategy i = PullImages" "ui_steps i = steps"
      "ui_toCommit i = Some (tt_commit target)" "ui_toTag i = Some (tt_imageTag target)" "ui_fromTag i = ts_currentTag tags"
    using st unfolding start_update_def Let_def plan
    by (auto simp: thrown_def map_sum_def prod_eq_iff split: sum.splits)
  ultimately show ?thesis using execute_pull_aim by fastforce
qed

lemma run_git_steps_aim:
  "run_git_steps su cfg steps t r d = (ok, t', r', d') \<Longrightarrow> same_aim r r'"
proof (induction steps arbitrary: t r d)
  case (Cons step steps)
  obtain ok1 r1 d1 where s: "runStep su cfg step [] True r d = (ok1, r1, d1)" by (metis prod_cases3)
  with Cons show ?case
    by (cases ok1) (auto intro: runStep_aim same_aim_trans [OF runStep_aim])
qed simp

lemma target_tag_aim:
  "target_tag su i r d = (t, r', d') \<Longrightarrow> un_strategy r' = un_strategy r \<and> un_fromTag r' = un_fromTag r"
  by (auto simp: target_tag_def Let_def split: if_splits prod.splits update_strategy.splits sum.splits)

lemma execute_aim:
  assumes ex: "execute su cfg i d = (Inr r, d')"
  shows "un_strategy r = ui_strategy i \<and> un_fromTag r = ui_fromTag i"
proof -
  obtain ok t r1 d1 where
    g: "run_git_steps su cfg (filter (\<lambda>step. us_command step = ''git'') (ui_steps i)) False (initial_run i) d = (ok, t, r1, d1)"
    by (metis prod_cases4)
  obtain t2 r2 d2 where tt: "target_tag su i r1 d1 = (t2, r2, d2)" by (metis prod_cases3)
  obtain r3 d3 where rc: "restore_checkout su cfg i t r3 d3 = (r, d')"
    and "same_aim r1 r3 \<or> same_aim r2 r3"
    using ex by (auto simp: execute_def g tt Let_def split: if_splits prod.splits sum.splits option.splits
        dest: deploy_aim)
  with run_git_steps_aim [OF g] target_tag_aim [OF tt] restore_aim [OF rc] show ?thesis
    by (auto simp: same_aim_def initial_run_def)
qed

lemma start_aim:
  assumes "start_update su parse_url lower cfg request strategy tags checkout target d = (Inr r, d')"
  shows "un_strategy r = strategy \<and> un_fromTag r = ts_currentTag tags"
proof -
  obtain i where "execute su cfg i d = (Inr r, d')" and "ui_strategy i = strategy" "ui_fromTag i = ts_currentTag tags"
    using assms unfolding start_update_def Let_def
    by (auto simp: thrown_def map_sum_def prod_eq_iff split: sum.splits)
  then show ?thesis using execute_aim by metis
qed


text \<open>A deployment that runs the newest release.\<close>

definition example_commit :: jstring where
  "example_commit = replicate 40 97"

definition current_surroundings :: surroundings where
  "current_surroundings =
     \<lparr>su_run = (\<lambda>l c. \<lparr>ce_ok = True, ce_exitCode = Some 0,
        ce_output = example_commit @ [9] @ js ''refs/tags/v1.0.0''\<rparr>), su_writable = (\<lambda>l. True)\<rparr>"

definition current_deployment :: deployment where
  "current_deployment =
     \<lparr>dp_env = Some (js ''RAKAZO_IMAGE_TAG=sha-'' @ example_commit), dp_git = False, dp_log = []\<rparr>"

definition official_request :: update_request where
  "official_request = \<lparr>uq_repoUrl = OFFICIAL_REPO_URL, uq_branch = js ''main'', uq_official = True\<rparr>"


end
