(* ===== verification/RealtimeFanout.thy ===== *)
theory RealtimeFanout
  imports Prelude "HOL-Library.AList"
begin

text \<open>
  The fan-out of live signals, \<open>packages/adapters/src/realtime.ts\<close>: subscribers by topic, and the
  one connection that listens for the notifications of the database, made when there is a subscriber
  and made again, later and later, when it is lost. One step is what the source does between two
  awaits. The client library is a parameter: a connection is a number, and whether an operation of it
  ends well is chosen by the step. The random part of a delay and the text of an envelope are not
  modelled.
\<close>

subsection \<open>Subscribers\<close>

type_synonym subscriber_map = "(jstring \<times> nat list) list"

definition topic_subscribers :: "jstring \<Rightarrow> subscriber_map \<Rightarrow> nat list" where
  "topic_subscribers topic subs = (case map_of subs topic of None \<Rightarrow> [] | Some s \<Rightarrow> s)"

definition add_subscriber :: "jstring \<Rightarrow> nat \<Rightarrow> subscriber_map \<Rightarrow> subscriber_map" where
  "add_subscriber topic onMessage subs =
     (let current = topic_subscribers topic subs in
      AList.update topic (if onMessage \<in> set current then current else current @ [onMessage]) subs)"

definition remove_subscriber :: "jstring \<Rightarrow> nat \<Rightarrow> subscriber_map \<Rightarrow> subscriber_map" where
  "remove_subscriber topic onMessage subs =
     (case map_of subs topic of
        None \<Rightarrow> subs
      | Some current \<Rightarrow>
          let rest = filter (\<lambda>s. s \<noteq> onMessage) current in
          if rest = [] then AList.delete topic subs else AList.update topic rest subs)"

text \<open>What is handed to subscribers: to whom, and the payload.\<close>

type_synonym deliveries = "(nat \<times> jstring) list"

definition notifySubscribers :: "nat list \<Rightarrow> jstring \<Rightarrow> deliveries" where
  "notifySubscribers subs payload = map (\<lambda>s. (s, payload)) subs"

definition notifySubscribersToCatchUp :: "subscriber_map \<Rightarrow> deliveries" where
  "notifySubscribersToCatchUp subs = concat (map (\<lambda>(topic, ss). notifySubscribers ss []) subs)"

subsection \<open>The connection\<close>

text \<open>How far a call of \<open>connectClient\<close> is; \<open>Settled\<close> until its \<open>finally\<close> has run.\<close>

datatype connect_stage = Connecting nat | Listening nat | Disposing nat | Settled

record fanout =
  fo_subscribers :: subscriber_map
  fo_client :: "nat option"
  fo_connectingClient :: "nat option"
  fo_connecting :: "connect_stage option"
  fo_reconnectTimer :: "nat option"
  fo_reconnectAttempt :: nat
  fo_closed :: bool
  fo_closing :: bool
  fo_made :: nat
  fo_disposed :: "nat list"
  fo_delivered :: deliveries

definition new_fanout :: fanout where
  "new_fanout =
     \<lparr>fo_subscribers = [], fo_client = None, fo_connectingClient = None, fo_connecting = None,
      fo_reconnectTimer = None, fo_reconnectAttempt = 0, fo_closed = False, fo_closing = False,
      fo_made = 0, fo_disposed = [], fo_delivered = []\<rparr>"

definition disposeClient :: "nat \<Rightarrow> fanout \<Rightarrow> fanout" where
  "disposeClient c st = st\<lparr>fo_disposed := fo_disposed st @ [c]\<rparr>"

text \<open>The delay before the random factor, in milliseconds.\<close>

definition reconnect_delay :: "nat \<Rightarrow> nat \<Rightarrow> nat \<Rightarrow> nat" where
  "reconnect_delay baseMs maxMs attempt = min maxMs (baseMs * 2 ^ attempt)"

definition scheduleReconnect :: "nat \<Rightarrow> nat \<Rightarrow> fanout \<Rightarrow> fanout" where
  "scheduleReconnect baseMs maxMs st =
     (if fo_closed st \<or> fo_subscribers st = [] \<or> fo_reconnectTimer st \<noteq> None then st
      else st\<lparr>fo_reconnectAttempt := fo_reconnectAttempt st + 1,
              fo_reconnectTimer := Some (reconnect_delay baseMs maxMs (fo_reconnectAttempt st))\<rparr>)"

text \<open>The first stretch of \<open>connectClient\<close>, up to the first await; the factory may fail.\<close>

definition connect_begin :: "bool \<Rightarrow> fanout \<Rightarrow> fanout" where
  "connect_begin made st =
     (if made
      then st\<lparr>fo_connectingClient := Some (fo_made st), fo_connecting := Some (Connecting (fo_made st)),
              fo_made := fo_made st + 1\<rparr>
      else st\<lparr>fo_connecting := Some Settled\<rparr>)"

definition ensureConnected :: "bool \<Rightarrow> fanout \<Rightarrow> fanout" where
  "ensureConnected made st =
     (if fo_closed st \<or> fo_client st \<noteq> None \<or> fo_subscribers st = [] then st
      else if fo_connecting st = None then connect_begin made st else st)"

text \<open>The connection is made, then listens; then it is taken, unless it is no longer wanted.\<close>

definition connect_connected :: "nat \<Rightarrow> fanout \<Rightarrow> fanout" where
  "connect_connected c st = st\<lparr>fo_connecting := Some (Listening c)\<rparr>"

definition connect_listened :: "nat \<Rightarrow> fanout \<Rightarrow> fanout" where
  "connect_listened c st =
     (if fo_closed st \<or> fo_subscribers st = [] \<or> fo_connectingClient st \<noteq> Some c
      then disposeClient c (st\<lparr>fo_connecting := Some (Disposing c)\<rparr>)
      else st\<lparr>fo_connectingClient := None, fo_client := Some c, fo_reconnectAttempt := 0,
              fo_connecting := Some Settled,
              fo_delivered := fo_delivered st @ notifySubscribersToCatchUp (fo_subscribers st)\<rparr>)"

definition connect_failed :: "nat \<Rightarrow> fanout \<Rightarrow> fanout" where
  "connect_failed c st =
     disposeClient c
       (st\<lparr>fo_connectingClient := (if fo_connectingClient st = Some c then None else fo_connectingClient st),
           fo_connecting := Some (Disposing c)\<rparr>)"

definition connect_disposed :: "fanout \<Rightarrow> fanout" where
  "connect_disposed st = st\<lparr>fo_connecting := Some Settled\<rparr>"

definition connect_finally :: "nat \<Rightarrow> nat \<Rightarrow> fanout \<Rightarrow> fanout" where
  "connect_finally baseMs maxMs st =
     (let st = st\<lparr>fo_connecting := None\<rparr> in
      if \<not> fo_closed st \<and> fo_subscribers st \<noteq> [] \<and> fo_client st = None
      then scheduleReconnect baseMs maxMs st else st)"

definition handleDisconnect :: "nat \<Rightarrow> nat \<Rightarrow> nat \<Rightarrow> fanout \<Rightarrow> fanout" where
  "handleDisconnect baseMs maxMs c st =
     (if Some c = fo_connectingClient st
      then scheduleReconnect baseMs maxMs (disposeClient c (st\<lparr>fo_connectingClient := None\<rparr>))
      else if Some c = fo_client st
      then scheduleReconnect baseMs maxMs (disposeClient c (st\<lparr>fo_client := None\<rparr>))
      else st)"

definition reconnect_fires :: "bool \<Rightarrow> fanout \<Rightarrow> fanout" where
  "reconnect_fires made st = ensureConnected made (st\<lparr>fo_reconnectTimer := None\<rparr>)"

text \<open>A notification: the topic and the payload of its envelope, where they can be read.\<close>

definition handleNotification :: "(jstring \<times> jstring) option \<Rightarrow> fanout \<Rightarrow> fanout" where
  "handleNotification envelope st =
     (case envelope of
        None \<Rightarrow> st
      | Some (topic, payload) \<Rightarrow>
          st\<lparr>fo_delivered := fo_delivered st @
               notifySubscribers (topic_subscribers topic (fo_subscribers st)) payload\<rparr>)"

subsection \<open>The operations\<close>

datatype fanout_error = FanoutClosed

definition subscribe_topic :: "bool \<Rightarrow> jstring \<Rightarrow> nat \<Rightarrow> fanout \<Rightarrow> fanout_error + fanout" where
  "subscribe_topic made topic onMessage st =
     (if fo_closed st then Inl FanoutClosed
      else Inr (ensureConnected made (st\<lparr>fo_subscribers := add_subscriber topic onMessage (fo_subscribers st)\<rparr>)))"

text \<open>What \<open>subscribe\<close> returns; a second call of it does nothing.\<close>

definition unsubscribe :: "bool \<Rightarrow> jstring \<Rightarrow> nat \<Rightarrow> fanout \<Rightarrow> bool \<times> fanout" where
  "unsubscribe subscribed topic onMessage st =
     (False, if \<not> subscribed then st
             else st\<lparr>fo_subscribers := remove_subscriber topic onMessage (fo_subscribers st)\<rparr>)"

text \<open>
  Closing waits for the end of the connection being made before it takes up the one in use; it does
  not wait if there is none being made.
\<close>

definition close_client :: "fanout \<Rightarrow> fanout" where
  "close_client st =
     (case fo_client st of
        None \<Rightarrow> st\<lparr>fo_closing := False\<rparr>
      | Some c \<Rightarrow> disposeClient c (st\<lparr>fo_client := None, fo_closing := False\<rparr>))"

definition close_begin :: "fanout \<Rightarrow> fanout" where
  "close_begin st =
     (if fo_closed st then st
      else let closed = st\<lparr>fo_closed := True, fo_subscribers := [], fo_reconnectTimer := None,
                          fo_connectingClient := None\<rparr>
           in case fo_connectingClient st of
                None \<Rightarrow> close_client closed
              | Some c \<Rightarrow> (disposeClient c closed)\<lparr>fo_closing := True\<rparr>)"

text \<open>The fan-out inside one process.\<close>

record memory_fanout =
  mf_subscribers :: subscriber_map
  mf_closed :: bool

definition memory_publish :: "jstring \<Rightarrow> jstring \<Rightarrow> memory_fanout \<Rightarrow> deliveries" where
  "memory_publish topic payload m =
     (if mf_closed m then [] else notifySubscribers (topic_subscribers topic (mf_subscribers m)) payload)"

definition memory_subscribe :: "jstring \<Rightarrow> nat \<Rightarrow> memory_fanout \<Rightarrow> fanout_error + memory_fanout" where
  "memory_subscribe topic onMessage m =
     (if mf_closed m then Inl FanoutClosed
      else Inr (m\<lparr>mf_subscribers := add_subscriber topic onMessage (mf_subscribers m)\<rparr>))"

definition memory_unsubscribe :: "bool \<Rightarrow> jstring \<Rightarrow> nat \<Rightarrow> memory_fanout \<Rightarrow> bool \<times> memory_fanout" where
  "memory_unsubscribe subscribed topic onMessage m =
     (False, if \<not> subscribed then m
             else m\<lparr>mf_subscribers := remove_subscriber topic onMessage (mf_subscribers m)\<rparr>)"

definition memory_close :: "memory_fanout \<Rightarrow> memory_fanout" where
  "memory_close m = m\<lparr>mf_closed := True, mf_subscribers := []\<rparr>"

subsection \<open>The steps\<close>

inductive fanout_step :: "nat \<Rightarrow> nat \<Rightarrow> fanout \<Rightarrow> fanout \<Rightarrow> bool" for baseMs maxMs where
  subscribes: "subscribe_topic made topic s st = Inr st' \<Longrightarrow> fanout_step baseMs maxMs st st'"
| unsubscribes: "fanout_step baseMs maxMs st (snd (unsubscribe subscribed topic s st))"
| connects: "fo_connecting st = Some (Connecting c) \<Longrightarrow> fanout_step baseMs maxMs st (connect_connected c st)"
| listens: "fo_connecting st = Some (Listening c) \<Longrightarrow> fanout_step baseMs maxMs st (connect_listened c st)"
| fails: "fo_connecting st = Some (Connecting c) \<or> fo_connecting st = Some (Listening c) \<Longrightarrow>
    fanout_step baseMs maxMs st (connect_failed c st)"
| disposed: "fo_connecting st = Some (Disposing c) \<Longrightarrow> fanout_step baseMs maxMs st (connect_disposed st)"
| settles: "fo_connecting st = Some Settled \<Longrightarrow> fanout_step baseMs maxMs st (connect_finally baseMs maxMs st)"
| disconnects: "c < fo_made st \<Longrightarrow> c \<notin> set (fo_disposed st) \<Longrightarrow>
    fanout_step baseMs maxMs st (handleDisconnect baseMs maxMs c st)"
| fires: "fo_reconnectTimer st \<noteq> None \<Longrightarrow> fanout_step baseMs maxMs st (reconnect_fires made st)"
| notified: "c < fo_made st \<Longrightarrow> c \<notin> set (fo_disposed st) \<Longrightarrow>
    fanout_step baseMs maxMs st (handleNotification envelope st)"
| closes: "fanout_step baseMs maxMs st (close_begin st)"
| closing_ends: "fo_closing st \<Longrightarrow> fanout_step baseMs maxMs st (close_client st)"

text \<open>The connection in use, and the one a call of \<open>connectClient\<close> still has to settle.\<close>

fun stage_clients :: "connect_stage option \<Rightarrow> nat set" where
  "stage_clients (Some (Connecting c)) = {c}"
| "stage_clients (Some (Listening c)) = {c}"
| "stage_clients _ = {}"

definition connection_ok :: "fanout \<Rightarrow> bool" where
  "connection_ok st \<longleftrightarrow>
     (fo_client st \<noteq> None \<longrightarrow> stage_clients (fo_connecting st) = {}) \<and>
     set_option (fo_client st) \<inter> set_option (fo_connectingClient st) = {} \<and>
     set_option (fo_client st) \<union> set_option (fo_connectingClient st) \<union> stage_clients (fo_connecting st)
       \<subseteq> {..<fo_made st} \<and>
     {..<fo_made st} - set (fo_disposed st) \<subseteq> set_option (fo_client st) \<union> stage_clients (fo_connecting st)"

definition closing_ok :: "fanout \<Rightarrow> bool" where
  "closing_ok st \<longleftrightarrow>
     (fo_closed st \<longrightarrow> fo_subscribers st = [] \<and> fo_reconnectTimer st = None) \<and>
     (fo_closing st \<longrightarrow> fo_closed st) \<and>
     (fo_closed st \<and> \<not> fo_closing st \<longrightarrow> fo_client st = None)"

definition attended :: "fanout \<Rightarrow> bool" where
  "attended st \<longleftrightarrow> fo_closed st \<or> fo_subscribers st = [] \<or>
     fo_client st \<noteq> None \<or> fo_connecting st \<noteq> None \<or> fo_reconnectTimer st \<noteq> None"

lemmas fanout_defs = disposeClient_def connect_connected_def connect_listened_def connect_failed_def
  connect_disposed_def close_client_def

lemma scheduleReconnect_frame [simp]:
  "fo_subscribers (scheduleReconnect b m st) = fo_subscribers st"
  "fo_client (scheduleReconnect b m st) = fo_client st"
  "fo_connectingClient (scheduleReconnect b m st) = fo_connectingClient st"
  "fo_connecting (scheduleReconnect b m st) = fo_connecting st"
  "fo_closed (scheduleReconnect b m st) = fo_closed st"
  "fo_closing (scheduleReconnect b m st) = fo_closing st"
  "fo_made (scheduleReconnect b m st) = fo_made st"
  "fo_disposed (scheduleReconnect b m st) = fo_disposed st"
  "fo_delivered (scheduleReconnect b m st) = fo_delivered st"
  by (simp_all add: scheduleReconnect_def)

lemma scheduleReconnect_attended: "attended (scheduleReconnect b m st)"
  by (auto simp: scheduleReconnect_def attended_def)

lemma ensureConnected_attended: "attended (ensureConnected made st)"
  by (auto simp: ensureConnected_def connect_begin_def attended_def)

lemma remove_subscriber_Nil [simp]: "remove_subscriber topic s [] = []"
  by (simp add: remove_subscriber_def)

lemma attended_step: "fanout_step b m st st' \<Longrightarrow> closing_ok st \<Longrightarrow> attended st \<Longrightarrow> attended st'"
proof (induction rule: fanout_step.induct)
  case (subscribes made topic s st st')
  then show ?case using ensureConnected_attended by (auto simp: subscribe_topic_def split: if_splits)
next
  case (unsubscribes st subscribed topic s)
  then show ?case by (auto simp: unsubscribe_def attended_def)
next
  case (settles st)
  then show ?case by (auto simp: connect_finally_def Let_def scheduleReconnect_def attended_def)
next
  case (disconnects c st)
  then show ?case using scheduleReconnect_attended by (auto simp: handleDisconnect_def)
next
  case (fires st made)
  then show ?case using ensureConnected_attended by (simp add: reconnect_fires_def)
next
  case (closes st)
  then show ?case by (auto simp: close_begin_def Let_def fanout_defs attended_def split: option.splits)
qed (auto simp: attended_def closing_ok_def fanout_defs handleNotification_def split: option.splits)

lemma closing_step: "fanout_step b m st st' \<Longrightarrow> closing_ok st \<Longrightarrow> closing_ok st'"
proof (induction rule: fanout_step.induct)
  case (closes st)
  then show ?case by (auto simp: close_begin_def Let_def fanout_defs closing_ok_def split: option.splits)
next
  case (disconnects c st)
  then show ?case by (auto simp: handleDisconnect_def closing_ok_def fanout_defs scheduleReconnect_def)
next
  case (settles st)
  then show ?case by (auto simp: connect_finally_def closing_ok_def Let_def scheduleReconnect_def)
qed (auto simp: closing_ok_def fanout_defs handleNotification_def subscribe_topic_def unsubscribe_def
    ensureConnected_def connect_begin_def reconnect_fires_def split: option.splits if_splits)

text \<open>Operations that touch neither the connections nor what is pending.\<close>

lemma connection_ok_cong:
  assumes "fo_client st' = fo_client st" "fo_connectingClient st' = fo_connectingClient st"
    "fo_connecting st' = fo_connecting st" "fo_made st' = fo_made st" "fo_disposed st' = fo_disposed st"
  shows "connection_ok st' = connection_ok st"
  using assms by (simp add: connection_ok_def)

lemma scheduleReconnect_ok [simp]: "connection_ok (scheduleReconnect b m st) = connection_ok st"
  by (rule connection_ok_cong) simp_all

lemma connection_ok_simps [simp]:
  "connection_ok (st\<lparr>fo_subscribers := x\<rparr>) = connection_ok st"
  "connection_ok (st\<lparr>fo_reconnectTimer := t\<rparr>) = connection_ok st"
  "connection_ok (st\<lparr>fo_delivered := l\<rparr>) = connection_ok st"
  "connection_ok (st\<lparr>fo_closing := z\<rparr>) = connection_ok st"
  "connection_ok (st\<lparr>fo_closed := z\<rparr>) = connection_ok st"
  by (simp_all add: connection_ok_def)

lemma ensureConnected_ok: "connection_ok st \<Longrightarrow> connection_ok (ensureConnected made st)"
  by (auto simp: ensureConnected_def connect_begin_def connection_ok_def lessThan_Suc)

lemma dispose_connecting_ok:
  "connection_ok st \<Longrightarrow> connection_ok (disposeClient c (st\<lparr>fo_connectingClient := None\<rparr>))"
  by (auto simp: disposeClient_def connection_ok_def)

lemma dispose_client_ok:
  "connection_ok st \<Longrightarrow> fo_client st = Some c \<Longrightarrow> connection_ok (disposeClient c (st\<lparr>fo_client := None\<rparr>))"
  by (auto simp: disposeClient_def connection_ok_def)

lemma close_client_ok:
  assumes "connection_ok st" shows "connection_ok (close_client st)"
proof (cases "fo_client st")
  case (Some c)
  have "close_client st = (disposeClient c (st\<lparr>fo_client := None\<rparr>))\<lparr>fo_closing := False\<rparr>"
    by (simp add: close_client_def Some disposeClient_def)
  with dispose_client_ok [OF assms Some] show ?thesis by simp
qed (simp add: close_client_def assms)

lemma disconnect_ok: "connection_ok st \<Longrightarrow> connection_ok (handleDisconnect b m c st)"
  by (simp add: handleDisconnect_def dispose_connecting_ok dispose_client_ok)

lemma close_begin_ok:
  assumes "connection_ok st" shows "connection_ok (close_begin st)"
proof -
  let ?closed = "st\<lparr>fo_closed := True, fo_subscribers := [], fo_reconnectTimer := None, fo_connectingClient := None\<rparr>"
  have ok: "connection_ok ?closed" using assms by (auto simp: connection_ok_def)
  have "connection_ok ((disposeClient c ?closed)\<lparr>fo_closing := True\<rparr>)" for c
    using dispose_connecting_ok [OF ok, of c] by simp
  with assms close_client_ok [OF ok] show ?thesis by (simp add: close_begin_def Let_def split: option.split)
qed

lemma connection_step: "fanout_step b m st st' \<Longrightarrow> connection_ok st \<Longrightarrow> connection_ok st'"
proof (induction rule: fanout_step.induct)
  case (subscribes made topic s st st')
  then show ?case by (auto simp: subscribe_topic_def ensureConnected_ok split: if_splits)
next
  case (fires st made)
  then show ?case by (simp add: reconnect_fires_def ensureConnected_ok)
next
  case (settles st)
  then have "connection_ok (st\<lparr>fo_connecting := None\<rparr>)" by (simp add: connection_ok_def)
  then show ?case by (simp add: connect_finally_def Let_def)
next
  case (unsubscribes st subscribed topic s)
  then show ?case by (simp add: unsubscribe_def)
next
  case (notified c st envelope)
  then show ?case by (simp add: handleNotification_def split: option.split)
next
  case (listens st c)
  then show ?case by (auto simp: connect_listened_def connection_ok_def disposeClient_def)
next
  case (fails st c)
  then show ?case by (auto simp: connect_failed_def connection_ok_def disposeClient_def)
next
  case (connects st c)
  then show ?case by (auto simp: connect_connected_def connection_ok_def)
next
  case (disposed st c)
  then show ?case by (simp add: connect_disposed_def connection_ok_def)
qed (simp_all add: close_client_ok close_begin_ok disconnect_ok)

lemma fanout_reachable_ok:
  "(fanout_step b m)\<^sup>*\<^sup>* new_fanout st \<Longrightarrow> attended st \<and> closing_ok st \<and> connection_ok st"
proof (induction rule: rtranclp_induct)
  case base
  show ?case by (simp add: new_fanout_def attended_def closing_ok_def connection_ok_def)
next
  case (step st st')
  then show ?case using attended_step closing_step connection_step by blast
qed

text \<open>Everyone who is subscribed when a connection is taken is told to catch up.\<close>

lemma catch_up_reaches_all:
  assumes "map_of subs topic = Some ss" and "s \<in> set ss"
  shows "(s, []) \<in> set (notifySubscribersToCatchUp subs)"
  using map_of_SomeD [OF assms(1)] assms(2) by (auto simp: notifySubscribersToCatchUp_def notifySubscribers_def)

text \<open>
  C36. A live fan-out is never deaf for good, and leaks no connection: in every state it can reach, as
  long as it is not closed and somebody is subscribed, it has a connection, is making one, or has set
  a timer to try again, however connecting, listening and losing a connection, subscribing,
  unsubscribing and closing fall between each other. At no time is more than one connection open, and
  once it is closed and nothing is pending, none is.
\<close>

theorem fanout_stays_connected:
  assumes "(fanout_step baseMs maxMs)\<^sup>*\<^sup>* new_fanout st"
  shows "(\<not> fo_closed st \<and> fo_subscribers st \<noteq> [] \<longrightarrow>
        fo_client st \<noteq> None \<or> fo_connecting st \<noteq> None \<or> fo_reconnectTimer st \<noteq> None) \<and>
      card {c. c < fo_made st \<and> c \<notin> set (fo_disposed st)} \<le> 1 \<and>
      (fo_closed st \<and> \<not> fo_closing st \<and> fo_connecting st = None \<longrightarrow>
        {c. c < fo_made st \<and> c \<notin> set (fo_disposed st)} = {})"
proof -
  let ?open = "{c. c < fo_made st \<and> c \<notin> set (fo_disposed st)}"
  from fanout_reachable_ok [OF assms] have at: "attended st" and cl: "closing_ok st" and ok: "connection_ok st"
    by simp_all
  have sub: "?open \<subseteq> set_option (fo_client st) \<union> stage_clients (fo_connecting st)"
    using ok by (auto simp: connection_ok_def)
  have "\<exists>x. set_option (fo_client st) \<union> stage_clients (fo_connecting st) \<subseteq> {x}"
    using ok by (cases "fo_client st"; cases "fo_connecting st" rule: stage_clients.cases)
      (auto simp: connection_ok_def)
  then obtain x where "?open \<subseteq> {x}" using sub by blast
  then have one: "card ?open \<le> 1" using card_mono [of "{x}" ?open] by simp
  have "?open = {}" if "fo_closed st \<and> \<not> fo_closing st \<and> fo_connecting st = None"
    using sub that cl by (simp add: closing_ok_def)
  moreover have "\<not> fo_closed st \<and> fo_subscribers st \<noteq> [] \<longrightarrow>
        fo_client st \<noteq> None \<or> fo_connecting st \<noteq> None \<or> fo_reconnectTimer st \<noteq> None"
    using at unfolding attended_def by blast
  ultimately show ?thesis using one by blast
qed

text \<open>A connection that is lost while it is made, and the next one, which is taken.\<close>

definition example_fanout :: fanout where
  "example_fanout =
     (let st1 = projr (subscribe_topic True (js ''t'') 7 new_fanout);
          st2 = handleDisconnect 250 10000 0 (connect_connected 0 st1);
          st3 = connect_finally 250 10000 (connect_disposed (connect_listened 0 st2));
          st4 = connect_connected 1 (reconnect_fires True st3)
      in connect_finally 250 10000 (connect_listened 1 st4))"

lemma example_fanout_state:
  "example_fanout =
     \<lparr>fo_subscribers = [(js ''t'', [7])], fo_client = Some 1, fo_connectingClient = None, fo_connecting = None,
      fo_reconnectTimer = None, fo_reconnectAttempt = 0, fo_closed = False, fo_closing = False, fo_made = 2,
      fo_disposed = [0, 0], fo_delivered = [(7, [])]\<rparr>"
  by code_simp

lemma example_fanout_reached: "(fanout_step 250 10000)\<^sup>*\<^sup>* new_fanout example_fanout"
proof -
  let ?step = "fanout_step 250 10000"
  define st1 where "st1 = projr (subscribe_topic True (js ''t'') 7 new_fanout)"
  define st2 where "st2 = handleDisconnect 250 10000 0 (connect_connected 0 st1)"
  define st3 where "st3 = connect_finally 250 10000 (connect_disposed (connect_listened 0 st2))"
  define st4 where "st4 = connect_connected 1 (reconnect_fires True st3)"
  note defs = st1_def st2_def st3_def st4_def subscribe_topic_def ensureConnected_def connect_begin_def
    new_fanout_def connect_connected_def handleDisconnect_def scheduleReconnect_def disposeClient_def
    connect_listened_def connect_disposed_def connect_finally_def reconnect_fires_def add_subscriber_def
    topic_subscribers_def Let_def
  have s1: "?step new_fanout st1" by (rule subscribes [of True "js ''t''" 7]) (simp add: defs)
  have s2: "?step st1 (connect_connected 0 st1)" by (rule connects) (simp add: defs)
  have s3: "?step (connect_connected 0 st1) st2"
    unfolding st2_def by (rule disconnects) (simp_all add: defs)
  have s4: "?step st2 (connect_listened 0 st2)" by (rule listens) (simp add: defs)
  have s5: "?step (connect_listened 0 st2) (connect_disposed (connect_listened 0 st2))"
    by (rule disposed [of _ 0]) (simp add: defs)
  have s6: "?step (connect_disposed (connect_listened 0 st2)) st3"
    unfolding st3_def by (rule settles) (simp add: connect_disposed_def)
  have s7: "?step st3 (reconnect_fires True st3)" by (rule fires) (simp add: defs)
  have s8: "?step (reconnect_fires True st3) st4"
    unfolding st4_def by (rule connects) (simp add: defs)
  have s9: "?step st4 (connect_listened 1 st4)" by (rule listens) (simp add: defs)
  have s10: "?step (connect_listened 1 st4) (connect_finally 250 10000 (connect_listened 1 st4))"
    by (rule settles) (simp add: defs)
  have last: "connect_finally 250 10000 (connect_listened 1 st4) = example_fanout"
    by (simp add: example_fanout_def Let_def st1_def st2_def st3_def st4_def)
  show ?thesis using converse_rtranclp_into_rtranclp [OF s1 converse_rtranclp_into_rtranclp [OF s2 converse_rtranclp_into_rtranclp [OF s3 converse_rtranclp_into_rtranclp [OF s4 converse_rtranclp_into_rtranclp [OF s5 converse_rtranclp_into_rtranclp [OF s6 converse_rtranclp_into_rtranclp [OF s7 converse_rtranclp_into_rtranclp [OF s8 converse_rtranclp_into_rtranclp [OF s9 r_into_rtranclp [of ?step, OF s10]]]]]]]]]] unfolding last .
qed

theorem fanout_stays_connected_witness:
  "fo_client example_fanout = Some 1 \<and> fo_delivered example_fanout = [(7, [])] \<and>
   card {c. c < fo_made example_fanout \<and> c \<notin> set (fo_disposed example_fanout)} \<le> 1"
  using fanout_stays_connected [OF example_fanout_reached] by (simp add: example_fanout_state)

end
