(* ===== verification/NetworkGuard.thy ===== *)
theory NetworkGuard
  imports UpdateSource Numbers
begin

text \<open>
  Which hosts the program lets itself be sent to: the addresses that count as private
  (\<open>packages/adapters/src/network-address.ts\<close>), the addresses of remote tools and what they resolve
  to (\<open>remote-mcp.ts\<close>), and the servers of compatible models (\<open>openai-compatible-url.ts\<close>). The parser
  of addresses, the lower-casing and the name service are parameters; \<open>isIP\<close> of the platform is
  written out.
\<close>

subsection \<open>Texts of addresses\<close>

definition ipv4_segment :: "jstring \<Rightarrow> bool" where
  "ipv4_segment s \<longleftrightarrow> all_digits s \<and> length s \<le> 3 \<and> (length s = 1 \<or> hd s \<noteq> 48) \<and> digits_value s \<le> 255"

definition is_ipv4 :: "jstring \<Rightarrow> bool" where
  "is_ipv4 s \<longleftrightarrow> length (split_on 46 s) = 4 \<and> list_all ipv4_segment (split_on 46 s)"

definition hex_group :: "jstring \<Rightarrow> bool" where
  "hex_group s \<longleftrightarrow> s \<noteq> [] \<and> length s \<le> 4 \<and> list_all (hex_char True) s"

definition count_groups :: "jstring list \<Rightarrow> nat option" where
  "count_groups parts =
     (if list_all hex_group parts then Some (length parts)
      else if parts \<noteq> [] \<and> list_all hex_group (butlast parts) \<and> is_ipv4 (last parts) then Some (length parts + 1)
      else None)"

text \<open>A text cut at its first double colon.\<close>

fun cut_double :: "jstring \<Rightarrow> (jstring \<times> jstring) option" where
  "cut_double [] = None"
| "cut_double [c] = None"
| "cut_double (c # d # s) =
     (if c = 58 \<and> d = 58 then Some ([], s) else map_option (\<lambda>(l, r). (c # l, r)) (cut_double (d # s)))"

definition colon_parts :: "jstring \<Rightarrow> jstring list" where
  "colon_parts s = (if s = [] then [] else split_on 58 s)"

definition zone_char :: "jchar \<Rightarrow> bool" where
  "zone_char c \<longleftrightarrow> ascii_alnum c \<or> c \<in> set (js ''-.:'')"

definition is_ipv6 :: "jstring \<Rightarrow> bool" where
  "is_ipv6 s \<longleftrightarrow>
     (let a = takeWhile (\<lambda>c. c \<noteq> 37) s; zone = dropWhile (\<lambda>c. c \<noteq> 37) s in
      (zone = [] \<or> (tl zone \<noteq> [] \<and> list_all zone_char (tl zone))) \<and>
      (case cut_double a of
         None \<Rightarrow> count_groups (split_on 58 a) = Some 8
       | Some (l, r) \<Rightarrow>
           list_all hex_group (colon_parts l) \<and>
           (case count_groups (colon_parts r) of None \<Rightarrow> False | Some n \<Rightarrow> length (colon_parts l) + n \<le> 7)))"

definition isIP :: "jstring \<Rightarrow> nat" where
  "isIP s = (if is_ipv4 s then 4 else if is_ipv6 s then 6 else 0)"

text \<open>What \<open>toString(16)\<close> prints, and what \<open>BigInt("0x...")\<close> reads.\<close>

definition hex_digit :: "nat \<Rightarrow> jchar" where
  "hex_digit n = (if n < 10 then digit n else word_of_nat (87 + n))"

fun hexs :: "nat \<Rightarrow> jstring" where
  "hexs n = (if n < 16 then [hex_digit n] else hexs (n div 16) @ [hex_digit (n mod 16)])"

declare hexs.simps [simp del]

definition hex_digit_value :: "jchar \<Rightarrow> nat" where
  "hex_digit_value c =
     (if is_digit c then digit_value c else if 97 \<le> c then unat c - 87 else unat c - 55)"

definition hex_number :: "jstring \<Rightarrow> nat option" where
  "hex_number s =
     (if s \<noteq> [] \<and> list_all (hex_char True) s then Some (foldl (\<lambda>n c. 16 * n + hex_digit_value c) 0 s) else None)"

subsection \<open>Private addresses\<close>

definition strip_brackets :: "jstring \<Rightarrow> jstring" where
  "strip_brackets s =
     (let s = (if prefix (js ''['') s then tl s else s) in if suffix (js '']'') s then butlast s else s)"

text \<open>The address inside \<open>::ffff:a.b.c.d\<close>.\<close>

definition mapped_ipv4 :: "jstring \<Rightarrow> jstring option" where
  "mapped_ipv4 value =
     (let p = js ''::ffff:''; rest = drop (length p) value in
      if prefix p value \<and> length (split_on 46 rest) = 4 \<and> list_all all_digits (split_on 46 rest)
      then Some rest else None)"

definition replaceIpv4Tail :: "jstring \<Rightarrow> jstring \<Rightarrow> jstring option" where
  "replaceIpv4Tail start tail =
     (if isIP tail \<noteq> 4 then None
      else case map digits_value (split_on 46 tail) of
             [a, b, c, d] \<Rightarrow> Some (start @ hexs (a * 256 + b) @ js '':'' @ hexs (c * 256 + d))
           | _ \<Rightarrow> None)"

fun add_groups :: "nat \<Rightarrow> jstring list \<Rightarrow> nat option" where
  "add_groups n [] = Some n"
| "add_groups n (g # gs) =
     (case hex_number (if g = [] then js ''0'' else g) of None \<Rightarrow> None | Some v \<Rightarrow> add_groups (n * 65536 + v) gs)"

definition parseIpv6 :: "jstring \<Rightarrow> nat option" where
  "parseIpv6 value =
     (if isIP value \<noteq> 6 then None
      else
        let dottedTail = rev (takeWhile (\<lambda>c. c \<noteq> 58) (rev value));
            start = take (length value - length dottedTail) value;
            normalized = (if 46 \<in> set dottedTail then replaceIpv4Tail start dottedTail else Some value)
        in case normalized of
             None \<Rightarrow> None
           | Some n \<Rightarrow>
             if n = [] then None
             else
               let (leftValue, rightValue) =
                     (case cut_double n of
                        None \<Rightarrow> (n, [])
                      | Some (l, r) \<Rightarrow> (l, case cut_double r of None \<Rightarrow> r | Some (x, _) \<Rightarrow> x));
                   left = colon_parts leftValue; right = colon_parts rightValue;
                   missing = 8 - int (length left) - int (length right);
                   groups = left @ replicate (nat missing) (js ''0'') @ right
               in if cut_double value = None \<and> missing \<noteq> 0 then None
                  else if length groups \<noteq> 8 then None
                  else add_groups 0 groups)"

definition private_octets :: "nat \<Rightarrow> nat \<Rightarrow> bool" where
  "private_octets a b \<longleftrightarrow>
     a = 0 \<or> a = 10 \<or> a = 127 \<or> (a = 169 \<and> b = 254) \<or> (a = 172 \<and> 16 \<le> b \<and> b \<le> 31) \<or>
     (a = 192 \<and> b = 168) \<or> (a = 100 \<and> 64 \<le> b \<and> b \<le> 127) \<or> (a = 198 \<and> (b = 18 \<or> b = 19)) \<or> a \<ge> 224"

definition isPrivateIpv4Number :: "nat \<Rightarrow> bool" where
  "isPrivateIpv4Number v = private_octets (v div 2 ^ 24 mod 256) (v div 2 ^ 16 mod 256)"

definition first_octets :: "jstring \<Rightarrow> nat \<times> nat" where
  "first_octets ipv4 =
     (let octets = map digits_value (split_on 46 ipv4) in (octets ! 0, octets ! 1))"

definition embedded_ipv4 :: "jstring \<Rightarrow> jstring option" where
  "embedded_ipv4 value =
     (case mapped_ipv4 value of Some m \<Rightarrow> Some m | None \<Rightarrow> if isIP value = 4 then Some value else None)"

definition isPrivateAddress :: "(jstring \<Rightarrow> jstring) \<Rightarrow> jstring \<Rightarrow> bool" where
  "isPrivateAddress lower address =
     (let value = strip_brackets (lower address) in
      case embedded_ipv4 value of
        None \<Rightarrow>
          (case parseIpv6 value of
             None \<Rightarrow> True
           | Some ipv6 \<Rightarrow>
               if ipv6 = 0 \<or> ipv6 = 1 then True
               else if ipv6 div 2 ^ 120 = 255 then True
               else if ipv6 div 2 ^ 118 = 0x3fa \<or> ipv6 div 2 ^ 118 = 0x3fb then True
               else if ipv6 div 2 ^ 121 mod 128 = 126 then True
               else if ipv6 div 2 ^ 32 = 0xffff then isPrivateIpv4Number (ipv6 mod 2 ^ 32)
               else ipv6 div 2 ^ 32 = 0)
      | Some ipv4 \<Rightarrow> (case first_octets ipv4 of (a, b) \<Rightarrow> private_octets a b))"

definition isLinkLocalAddress :: "(jstring \<Rightarrow> jstring) \<Rightarrow> jstring \<Rightarrow> bool" where
  "isLinkLocalAddress lower address =
     (let value = strip_brackets (lower address) in
      case embedded_ipv4 value of
        Some ipv4 \<Rightarrow> first_octets ipv4 = (169, 254)
      | None \<Rightarrow>
          (case parseIpv6 value of
             None \<Rightarrow> False
           | Some ipv6 \<Rightarrow>
               if ipv6 div 2 ^ 32 = 0xffff \<or> ipv6 div 2 ^ 32 = 0
               then ipv6 mod 2 ^ 32 div 2 ^ 24 mod 256 = 169 \<and> ipv6 mod 2 ^ 32 div 2 ^ 16 mod 256 = 254
               else ipv6 div 2 ^ 118 = 0x3fa))"

subsection \<open>Remote tools\<close>

record resolved_address =
  ad_address :: jstring
  ad_family :: nat

datatype guard_error = UrlInvalid | NotHttps | HasCredentials | HasFragment | PrivateHost | PrivateResolved
  | LookupFailed | NotHttp | BlockedHost | PublicBlocked | RedirectNotAllowed

definition ends_in :: "string \<Rightarrow> jstring \<Rightarrow> bool" where
  "ends_in s t = suffix (js s) t"

definition isPrivateHostname :: "(jstring \<Rightarrow> jstring) \<Rightarrow> jstring \<Rightarrow> bool" where
  "isPrivateHostname lower hostname =
     (let normalized = strip_suffix (js ''.'') (lower hostname) in
      normalized = js ''localhost'' \<or> ends_in ''.localhost'' normalized \<or> ends_in ''.local'' normalized \<or>
      ends_in ''.internal'' normalized \<or> normalized = js ''metadata.google.internal'' \<or>
      (isIP normalized \<noteq> 0 \<and> isPrivateAddress lower normalized))"

definition assertPublicAddresses :: "(jstring \<Rightarrow> jstring) \<Rightarrow> resolved_address list \<Rightarrow> bool" where
  "assertPublicAddresses lower addresses \<longleftrightarrow>
     addresses \<noteq> [] \<and> \<not> list_ex (\<lambda>e. isPrivateAddress lower (ad_address e)) addresses"

text \<open>The name service; an address in the place of a name is its own answer.\<close>

type_synonym name_service = "jstring \<Rightarrow> resolved_address list option"

definition assertSafeRemoteUrl ::
    "(jstring \<Rightarrow> url_parts option) \<Rightarrow> (jstring \<Rightarrow> jstring) \<Rightarrow> name_service \<Rightarrow> jstring \<Rightarrow> guard_error + url_parts" where
  "assertSafeRemoteUrl parse_url lower resolve value =
     (case parse_url value of
        None \<Rightarrow> Inl UrlInvalid
      | Some url \<Rightarrow>
          if ur_protocol url \<noteq> js ''https:'' then Inl NotHttps
          else if ur_username url \<noteq> [] \<or> ur_password url \<noteq> [] then Inl HasCredentials
          else if ur_hash url \<noteq> [] then Inl HasFragment
          else
            let hostname = strip_brackets (ur_hostname url) in
            if isPrivateHostname lower hostname then Inl PrivateHost
            else (case resolve hostname of
                    None \<Rightarrow> Inl LookupFailed
                  | Some addresses \<Rightarrow>
                      if assertPublicAddresses lower addresses then Inr url else Inl PrivateResolved))"

text \<open>The look-up a connection makes: the addresses are checked again when they are used.\<close>

datatype lookup_answer = AllAddresses "resolved_address list" | OneAddress resolved_address

definition createAddressCheckedLookup ::
    "name_service \<Rightarrow> (resolved_address list \<Rightarrow> bool) \<Rightarrow> jstring \<Rightarrow> bool \<Rightarrow> nat option \<Rightarrow> guard_error + lookup_answer" where
  "createAddressCheckedLookup resolve validate hostname wantAll family =
     (case resolve hostname of
        None \<Rightarrow> Inl LookupFailed
      | Some addresses \<Rightarrow>
          if \<not> validate addresses then Inl PrivateResolved
          else if wantAll then Inr (AllAddresses addresses)
          else
            let requestedFamily = (case family of None \<Rightarrow> 0 | Some f \<Rightarrow> f) in
            (case (List.find (\<lambda>e. requestedFamily = 0 \<or> ad_family e = requestedFamily) addresses, addresses) of
               (Some e, _) \<Rightarrow> Inr (OneAddress e)
             | (None, e # _) \<Rightarrow> Inr (OneAddress e)
             | (None, []) \<Rightarrow> Inl LookupFailed))"

text \<open>
  The addresses a connection of the platform may go to: an address in the place of a name is used as
  it is, a name is looked up.
\<close>

definition connect_addresses ::
    "(jstring \<Rightarrow> bool \<Rightarrow> nat option \<Rightarrow> guard_error + lookup_answer) \<Rightarrow> jstring \<Rightarrow> bool \<Rightarrow> nat option \<Rightarrow>
     guard_error + jstring list" where
  "connect_addresses look_up hostname wantAll family =
     (if isIP hostname \<noteq> 0 then Inr [hostname]
      else map_sum id (\<lambda>a. case a of AllAddresses es \<Rightarrow> map ad_address es | OneAddress e \<Rightarrow> [ad_address e])
             (look_up hostname wantAll family))"

text \<open>
  A request to a remote tool: the address is checked, the connection is made with the checked look-up,
  in which the names may resolve otherwise than before, and an answer that redirects is refused.
\<close>

definition safe_remote_fetch ::
    "(jstring \<Rightarrow> url_parts option) \<Rightarrow> (jstring \<Rightarrow> jstring) \<Rightarrow> name_service \<Rightarrow> name_service \<Rightarrow> bool \<Rightarrow> nat option \<Rightarrow>
     nat \<Rightarrow> jstring \<Rightarrow> jstring list \<times> (guard_error + url_parts)" where
  "safe_remote_fetch parse_url lower resolve resolve_later wantAll family status input =
     (case assertSafeRemoteUrl parse_url lower resolve input of
        Inl e \<Rightarrow> ([], Inl e)
      | Inr url \<Rightarrow>
          (case connect_addresses (createAddressCheckedLookup resolve_later (assertPublicAddresses lower))
                  (strip_brackets (ur_hostname url)) wantAll family of
             Inl e \<Rightarrow> ([], Inl e)
           | Inr addresses \<Rightarrow>
               (addresses, if 300 \<le> status \<and> status < 400 then Inl RedirectNotAllowed else Inr url)))"

subsection \<open>Servers of compatible models\<close>

definition METADATA_HOSTS :: "jstring list" where
  "METADATA_HOSTS = words_of [''metadata.google.internal'', ''metadata.goog'', ''169.254.169.254'']"

definition strip_trailing_slashes :: "jstring \<Rightarrow> jstring" where
  "strip_trailing_slashes s = rev (dropWhile (\<lambda>c. c = 47) (rev s))"

definition url_origin :: "url_parts \<Rightarrow> jstring" where
  "url_origin u = ur_protocol u @ js ''//'' @ ur_hostname u @ (if ur_port u = [] then [] else js '':'' @ ur_port u)"

definition normalizeOpenAiCompatibleBaseUrl ::
    "(jstring \<Rightarrow> url_parts option) \<Rightarrow> jstring \<Rightarrow> guard_error + jstring" where
  "normalizeOpenAiCompatibleBaseUrl parse_url raw =
     (case parse_url (trim raw) of
        None \<Rightarrow> Inl UrlInvalid
      | Some url \<Rightarrow>
          if ur_protocol url \<noteq> js ''http:'' \<and> ur_protocol url \<noteq> js ''https:'' then Inl NotHttp
          else if ur_username url \<noteq> [] \<or> ur_password url \<noteq> [] then Inl HasCredentials
          else
            let path = strip_trailing_slashes (ur_pathname url)
            in Inr (url_origin url @
                 (if suffix (js ''/v1'') path then path else path @ js ''/v1'')))"

definition normalizeHostname :: "(jstring \<Rightarrow> jstring) \<Rightarrow> jstring \<Rightarrow> jstring" where
  "normalizeHostname lower hostname = strip_suffix (js ''.'') (strip_brackets (lower hostname))"

definition isPrivateOpenAiCompatibleHostname :: "(jstring \<Rightarrow> jstring) \<Rightarrow> jstring \<Rightarrow> bool" where
  "isPrivateOpenAiCompatibleHostname lower hostname =
     (let normalized = normalizeHostname lower hostname in
      if normalized = js ''localhost'' \<or> ends_in ''.localhost'' normalized \<or>
         normalized = js ''host.docker.internal'' then True
      else if normalized \<in> set METADATA_HOSTS then False
      else if isIP normalized = 4 \<or> isIP normalized = 6 then isPrivateAddress lower normalized
      else False)"

definition isBlockedHostname :: "(jstring \<Rightarrow> jstring) \<Rightarrow> jstring \<Rightarrow> bool" where
  "isBlockedHostname lower hostname =
     (let normalized = normalizeHostname lower hostname in
      normalized \<in> set METADATA_HOSTS \<or> (isIP normalized \<noteq> 0 \<and> isLinkLocalAddress lower normalized))"

definition assertAllowedOpenAiCompatibleRequestUrl ::
    "(jstring \<Rightarrow> url_parts option) \<Rightarrow> (jstring \<Rightarrow> jstring) \<Rightarrow> bool \<Rightarrow> jstring \<Rightarrow> guard_error + url_parts" where
  "assertAllowedOpenAiCompatibleRequestUrl parse_url lower allowPublic raw =
     (case parse_url raw of
        None \<Rightarrow> Inl UrlInvalid
      | Some url \<Rightarrow>
          if ur_protocol url \<noteq> js ''http:'' \<and> ur_protocol url \<noteq> js ''https:'' then Inl NotHttp
          else if ur_username url \<noteq> [] \<or> ur_password url \<noteq> [] then Inl HasCredentials
          else
            let hostname = normalizeHostname lower (ur_hostname url) in
            if isBlockedHostname lower hostname then Inl BlockedHost
            else if isPrivateOpenAiCompatibleHostname lower hostname then Inr url
            else if \<not> allowPublic then Inl PublicBlocked
            else Inr url)"

definition assertAllowedOpenAiCompatibleUrl ::
    "(jstring \<Rightarrow> url_parts option) \<Rightarrow> (jstring \<Rightarrow> jstring) \<Rightarrow> bool \<Rightarrow> jstring \<Rightarrow> guard_error + url_parts" where
  "assertAllowedOpenAiCompatibleUrl parse_url lower allowPublic raw =
     (case normalizeOpenAiCompatibleBaseUrl parse_url raw of
        Inl e \<Rightarrow> Inl e
      | Inr normalized \<Rightarrow> assertAllowedOpenAiCompatibleRequestUrl parse_url lower allowPublic normalized)"

end
