(* ===== verification/NetworkProps.thy ===== *)
theory NetworkProps
  imports NetworkGuard
begin

text \<open>
  What the guard of the network promises: an address is judged by its number, however it is spelled,
  and no request leaves for a private address, also when a name resolves to something else later.
\<close>

subsection \<open>Numbers and their texts\<close>

lemma dec_below_1000:
  "100 \<le> n \<Longrightarrow> n < 1000 \<Longrightarrow> dec n = [digit (n div 100), digit (n div 10 mod 10), digit (n mod 10)]"
  by (subst dec.simps) (simp add: dec_below_100 div_mult2_eq [symmetric])

lemma digit_eq_zero: "n < 10 \<Longrightarrow> digit n = 48 \<longleftrightarrow> n = 0"
  using unat_digit [of n] by (auto simp: digit_def)

lemma segment_dec:
  assumes "n < 256" shows "ipv4_segment (dec n)"
proof -
  consider "n < 10" | "10 \<le> n \<and> n < 100" | "100 \<le> n \<and> n < 1000" using assms by linarith
  then have "length (dec n) \<le> 3 \<and> (length (dec n) = 1 \<or> hd (dec n) \<noteq> 48)"
  proof cases
    case 3
    then have "n div 100 < 10 \<and> n div 100 \<noteq> 0" by (simp add: div_eq_0_iff) linarith
    with 3 show ?thesis by (simp add: dec_below_1000 digit_eq_zero)
  next
    case 2
    then have "n div 10 < 10 \<and> n div 10 \<noteq> 0" by (simp add: div_eq_0_iff) linarith
    with 2 show ?thesis by (simp add: dec_below_100 digit_eq_zero)
  qed (simp add: dec_below_10)
  with assms show ?thesis by (simp add: ipv4_segment_def)
qed

lemma dec_plain: "c \<in> set (dec n) \<Longrightarrow> 48 \<le> unat c \<and> unat c \<le> 57"
  using dec_digits [of n] by (auto simp: list_all_iff is_digit_unat)

lemma hex_digit_plain:
  assumes "n < 16"
  shows "unat (hex_digit n) = (if n < 10 then 48 + n else 87 + n)" and "hex_char True (hex_digit n)"
    and "hex_digit_value (hex_digit n) = n"
proof -
  show u: "unat (hex_digit n) = (if n < 10 then 48 + n else 87 + n)"
    using assms by (simp add: hex_digit_def unat_digit unat_of_nat del: of_nat_add of_nat_numeral)
  then show "hex_char True (hex_digit n)" and "hex_digit_value (hex_digit n) = n"
    using assms
    by (auto simp: hex_char_def hex_digit_value_def is_digit_unat digit_value_def word_le_nat_alt split: if_splits)
qed

lemma hexs_plain: "c \<in> set (hexs n) \<Longrightarrow> \<exists>m < 16. c = hex_digit m"
proof (induction n rule: hexs.induct)
  case (1 n)
  have "n mod 16 < 16" by simp
  with 1 show ?case by (subst (asm) hexs.simps) (auto split: if_splits intro: exI [of _ "n mod 16"])
qed

lemma hexs_not_Nil [simp]: "hexs n \<noteq> []"
  by (subst hexs.simps) simp

lemma hexs_fold: "foldl (\<lambda>n c. 16 * n + hex_digit_value c) 0 (hexs n) = n"
proof (induction n rule: hexs.induct)
  case (1 n)
  show ?case
  proof (cases "n < 16")
    case True
    then show ?thesis by (subst hexs.simps) (simp add: hex_digit_plain)
  next
    case False
    have "foldl (\<lambda>n c. 16 * n + hex_digit_value c) 0 (hexs n) = 16 * (n div 16) + n mod 16"
      using 1 [OF False] False by (subst hexs.simps) (simp add: hex_digit_plain)
    then show ?thesis by simp
  qed
qed

lemma hexs_length: "n < 16 ^ k \<Longrightarrow> k > 0 \<Longrightarrow> length (hexs n) \<le> k"
proof (induction n arbitrary: k rule: hexs.induct)
  case (1 n)
  show ?case
  proof (cases "n < 16")
    case True
    with 1 show ?thesis by (subst hexs.simps) simp
  next
    case False
    then obtain j where j: "k = Suc j" "j > 0" using 1(2,3) by (cases k; cases "k - 1") auto
    then have "n div 16 < 16 ^ j" using 1(2) by (simp add: less_mult_imp_div_less mult.commute)
    with 1(1) [OF False this] j False show ?thesis by (subst hexs.simps) simp
  qed
qed

lemma hexs_group:
  assumes "n < 65536"
  shows "hex_group (hexs n)" and "hex_number (hexs n) = Some n"
proof -
  have all: "list_all (hex_char True) (hexs n)" using hexs_plain hex_digit_plain(2) by (fastforce simp: list_all_iff)
  show "hex_number (hexs n) = Some n" using all by (simp add: hex_number_def hexs_fold)
  show "hex_group (hexs n)" using all hexs_length [of n 4] assms by (simp add: hex_group_def)
qed

lemma hexs_chars:
  assumes "c \<in> set (hexs n)"
  shows "(48 \<le> unat c \<and> unat c \<le> 57) \<or> (97 \<le> unat c \<and> unat c \<le> 102)"
proof -
  obtain m where "m < 16" "c = hex_digit m" using hexs_plain [OF assms] by blast
  then show ?thesis using hex_digit_plain(1) [of m] by (cases "m < 10") simp_all
qed

subsection \<open>Three spellings of an address\<close>

definition dotted :: "nat \<Rightarrow> nat \<Rightarrow> nat \<Rightarrow> nat \<Rightarrow> jstring" where
  "dotted a b c d = dec a @ js ''.'' @ dec b @ js ''.'' @ dec c @ js ''.'' @ dec d"

definition mapped_dotted :: "nat \<Rightarrow> nat \<Rightarrow> nat \<Rightarrow> nat \<Rightarrow> jstring" where
  "mapped_dotted a b c d = js ''::ffff:'' @ dotted a b c d"

definition mapped_hex :: "nat \<Rightarrow> nat \<Rightarrow> nat \<Rightarrow> nat \<Rightarrow> jstring" where
  "mapped_hex a b c d = js ''::ffff:'' @ hexs (a * 256 + b) @ js '':'' @ hexs (c * 256 + d)"

definition spellings :: "nat \<Rightarrow> nat \<Rightarrow> nat \<Rightarrow> nat \<Rightarrow> jstring list" where
  "spellings a b c d = [dotted a b c d, mapped_dotted a b c d, mapped_hex a b c d]"

text \<open>Lower-casing leaves a text alone that has no letters outside \<open>a\<close> to \<open>z\<close>.\<close>

definition lower_plain :: "(jstring \<Rightarrow> jstring) \<Rightarrow> bool" where
  "lower_plain lower \<longleftrightarrow>
     (\<forall>s. list_all (\<lambda>c. unat c < 128 \<and> \<not> (65 \<le> unat c \<and> unat c \<le> 90)) s \<longrightarrow> lower s = s)"

definition quiet_char :: "jchar \<Rightarrow> bool" where
  "quiet_char c \<longleftrightarrow> (48 \<le> unat c \<and> unat c \<le> 58) \<or> c = 46 \<or> (97 \<le> unat c \<and> unat c \<le> 102)"

lemma lower_quiet:
  assumes "lower_plain lower" and "\<forall>c \<in> set s. quiet_char c"
  shows "strip_brackets (lower s) = s"
proof -
  have "list_all (\<lambda>c. unat c < 128 \<and> \<not> (65 \<le> unat c \<and> unat c \<le> 90)) s"
    using assms(2) by (auto simp: list_all_iff quiet_char_def)
  then have l: "lower s = s" using assms(1) by (simp add: lower_plain_def)
  have "91 \<notin> set s" "93 \<notin> set s" using assms(2) by (auto simp: quiet_char_def)
  then have "\<not> prefix [91] s" "\<not> suffix [93] s"
    by (auto simp: prefix_def suffix_def)
  then show ?thesis by (simp add: l strip_brackets_def js_def)
qed

lemma colon_chars: "js ''::ffff:'' = [58, 58, 102, 102, 102, 102, 58]" "js ''.'' = [46]" "js '':'' = [58]"
  by (simp_all add: js_def)

lemma dotted_quiet: "\<forall>c \<in> set (dotted a b c d). quiet_char c"
  using dec_plain by (fastforce simp: dotted_def colon_chars quiet_char_def)

lemma spellings_quiet: "t \<in> set (spellings a b c d) \<Longrightarrow> \<forall>x \<in> set t. quiet_char x"
  using dotted_quiet hexs_chars
  by (fastforce simp: spellings_def mapped_dotted_def mapped_hex_def colon_chars quiet_char_def)

lemma dec_no_dot [simp]: "46 \<notin> set (dec n)" "58 \<notin> set (dec n)" "37 \<notin> set (dec n)"
  using dec_plain [of _ n] by fastforce+

lemma hexs_no_dot [simp]: "46 \<notin> set (hexs n)" "58 \<notin> set (hexs n)" "37 \<notin> set (hexs n)"
  using hexs_chars [of _ n] by fastforce+

lemma split_dotted: "split_on 46 (dotted a b c d) = [dec a, dec b, dec c, dec d]"
  by (simp add: dotted_def colon_chars split_on_append split_on_plain)

lemma dotted_ipv4: "a < 256 \<Longrightarrow> b < 256 \<Longrightarrow> c < 256 \<Longrightarrow> d < 256 \<Longrightarrow> is_ipv4 (dotted a b c d)"
  by (simp add: is_ipv4_def split_dotted segment_dec)

lemma embedded_dotted:
  assumes "a < 256" "b < 256" "c < 256" "d < 256"
  shows "embedded_ipv4 (dotted a b c d) = Some (dotted a b c d)"
    and "embedded_ipv4 (mapped_dotted a b c d) = Some (dotted a b c d)"
proof -
  have "hd (dotted a b c d) \<noteq> 58"
    using dec_plain [of "hd (dec a)" a] by (auto simp: dotted_def)
  then have "\<not> prefix (js ''::ffff:'') (dotted a b c d)" by (auto simp: colon_chars prefix_def)
  then show "embedded_ipv4 (dotted a b c d) = Some (dotted a b c d)"
    using dotted_ipv4 [OF assms] by (simp add: embedded_ipv4_def mapped_ipv4_def isIP_def)
  show "embedded_ipv4 (mapped_dotted a b c d) = Some (dotted a b c d)"
    by (simp add: embedded_ipv4_def mapped_ipv4_def mapped_dotted_def split_dotted)
qed

lemma first_dotted: "first_octets (dotted a b c d) = (a, b)"
  by (simp add: first_octets_def split_dotted)

text \<open>The spelling in two groups.\<close>

lemma mapped_hex_chars:
  "mapped_hex a b c d =
     58 # 58 # [102, 102, 102, 102] @ 58 # hexs (a * 256 + b) @ 58 # hexs (c * 256 + d)"
  by (simp add: mapped_hex_def colon_chars)

lemma mapped_hex_parts:
  "colon_parts ([102, 102, 102, 102] @ 58 # hexs m @ 58 # hexs n) = [[102, 102, 102, 102], hexs m, hexs n]"
  by (simp add: colon_parts_def split_on_append split_on_plain)

lemma mapped_hex_cut:
  "cut_double (mapped_hex a b c d) =
     Some ([], [102, 102, 102, 102] @ 58 # hexs (a * 256 + b) @ 58 # hexs (c * 256 + d))"
  by (simp add: mapped_hex_chars)

lemma mapped_hex_ipv6:
  assumes "a < 256" "b < 256" "c < 256" "d < 256"
  shows "isIP (mapped_hex a b c d) = 6" and "embedded_ipv4 (mapped_hex a b c d) = None"
proof -
  let ?v = "mapped_hex a b c d"
  have small: "a * 256 + b < 65536" "c * 256 + d < 65536" using assms by simp_all
  have no: "46 \<notin> set ?v" "37 \<notin> set ?v" by (simp_all add: mapped_hex_chars)
  have "hex_group [102, 102, 102, 102]" by (simp add: hex_group_def hex_char_def)
  moreover have whole: "takeWhile (\<lambda>c. c \<noteq> 37) ?v = ?v" "dropWhile (\<lambda>c. c \<noteq> 37) ?v = []"
    using no(2) by (auto simp: takeWhile_eq_all_conv dropWhile_eq_Nil_conv)
  moreover have "count_groups [[102, 102, 102, 102], hexs (a * 256 + b), hexs (c * 256 + d)] = Some 3"
    using calculation(1) hexs_group(1) [OF small(1)] hexs_group(1) [OF small(2)] by (simp add: count_groups_def)
  ultimately have six: "is_ipv6 ?v"
    unfolding is_ipv6_def Let_def whole mapped_hex_cut
    by (simp only: option.case prod.case mapped_hex_parts) (simp add: colon_parts_def)
  have "\<not> is_ipv4 ?v" using no(1) by (simp add: is_ipv4_def split_on_plain)
  with six show "isIP ?v = 6" by (simp add: isIP_def)
  moreover have "mapped_ipv4 ?v = None"
    by (simp add: mapped_ipv4_def mapped_hex_def split_on_plain colon_chars)
  ultimately show "embedded_ipv4 ?v = None" by (simp add: embedded_ipv4_def)
qed

lemma last_part:
  assumes "(58 :: jchar) \<notin> set t" shows "rev (takeWhile (\<lambda>x. x \<noteq> 58) (rev (p @ 58 # t))) = t"
proof -
  have "takeWhile (\<lambda>x. x \<noteq> 58) (rev t) = rev t" using assms by (auto simp: takeWhile_eq_all_conv)
  then show ?thesis by (simp add: takeWhile_tail del: takeWhile_eq_all_conv)
qed

lemma mapped_hex_tail:
  "rev (takeWhile (\<lambda>x. x \<noteq> 58) (rev (mapped_hex a b c d))) = hexs (c * 256 + d)"
  using last_part [of "hexs (c * 256 + d)" "58 # 58 # [102, 102, 102, 102] @ 58 # hexs (a * 256 + b)"]
  by (simp add: mapped_hex_chars)

lemma mapped_hex_parsed:
  assumes "a < 256" "b < 256" "c < 256" "d < 256"
  shows "parseIpv6 (mapped_hex a b c d) = Some (0xffff * 2 ^ 32 + (((a * 256 + b) * 256 + c) * 256 + d))"
proof -
  let ?v = "mapped_hex a b c d" and ?r = "[102, 102, 102, 102] @ 58 # hexs (a * 256 + b) @ 58 # hexs (c * 256 + d)"
  have small: "a * 256 + b < 65536" "c * 256 + d < 65536" using assms by simp_all
  have ne: "?v \<noteq> []" by (simp add: mapped_hex_chars)
  have "cut_double s = None" if "58 \<notin> set (tl s)" for s
    using that by (induction s rule: cut_double.induct) auto
  then have none: "cut_double (hexs n) = None" for n
    by (metis hexs_no_dot(2) list.set_sel(2) hexs_not_Nil)
  have "cut_double (s @ 58 # t) = map_option (\<lambda>(l, r). (s @ 58 # l, r)) (cut_double t)"
    if "58 \<notin> set s" "s \<noteq> []" "t \<noteq> []" "hd t \<noteq> 58" for s t
    using that
  proof (induction s)
    case (Cons x s)
    show ?case
    proof (cases s)
      case Nil
      obtain y t' where t: "t = y # t'" using Cons.prems(3) by (cases t) auto
      with Nil Cons.prems show ?thesis by (cases "cut_double t") auto
    next
      case (Cons z s')
      with Cons.IH Cons.prems show ?thesis by (cases "cut_double t") auto
    qed
  qed simp
  note cut_one = this
  have hdh: "hd (hexs n) \<noteq> 58" for n using hexs_no_dot(2) [of n] by (metis hd_in_set hexs_not_Nil)
  have "cut_double (hexs (a * 256 + b) @ 58 # hexs (c * 256 + d)) = None"
    by (subst cut_one) (simp_all add: none hdh)
  moreover have "hd (hexs (a * 256 + b) @ 58 # hexs (c * 256 + d)) \<noteq> 58" by (simp add: hdh)
  ultimately have cutr: "cut_double ?r = None"
    by (subst cut_one) simp_all
  have v: "hex_number [102, 102, 102, 102] = Some 0xffff"
    by (simp add: hex_number_def hex_char_def hex_digit_value_def is_digit_def)
  have z: "hex_number (js ''0'') = Some 0" "js ''0'' \<noteq> []" by code_simp+
  have five: "replicate 5 (js ''0'') = [js ''0'', js ''0'', js ''0'', js ''0'', js ''0'']" by (simp add: eval_nat_numeral)
  have groups: "add_groups 0 (replicate 5 (js ''0'') @ [[102, 102, 102, 102], hexs (a * 256 + b), hexs (c * 256 + d)]) =
      Some (0xffff * 2 ^ 32 + (((a * 256 + b) * 256 + c) * 256 + d))"
    unfolding five using hexs_group(2) [OF small(1)] hexs_group(2) [OF small(2)]
    by (simp add: v z)
  define r where "r = ?r"
  have r: "cut_double ?v = Some ([], r)" "cut_double r = None"
    "colon_parts r = [[102, 102, 102, 102], hexs (a * 256 + b), hexs (c * 256 + d)]"
    unfolding r_def by (rule mapped_hex_cut, rule cutr, rule mapped_hex_parts)
  show ?thesis
    unfolding parseIpv6_def Let_def mapped_hex_ipv6(1) [OF assms] mapped_hex_tail
    using ne groups by (simp add: r colon_parts_def [of "[]"])
qed

text \<open>What an address is judged by: the block its number falls into.\<close>

definition ipv4_number :: "nat \<Rightarrow> nat \<Rightarrow> nat \<Rightarrow> nat \<Rightarrow> nat" where
  "ipv4_number a b c d = ((a * 256 + b) * 256 + c) * 256 + d"

definition in_block :: "nat \<Rightarrow> nat \<times> nat \<Rightarrow> bool" where
  "in_block n p = (case p of (base, bits) \<Rightarrow> n div 2 ^ (32 - bits) = base div 2 ^ (32 - bits))"

definition private_blocks :: "(nat \<times> nat) list" where
  "private_blocks =
     [(ipv4_number 0 0 0 0, 8), (ipv4_number 10 0 0 0, 8), (ipv4_number 127 0 0 0, 8),
      (ipv4_number 169 254 0 0, 16), (ipv4_number 172 16 0 0, 12), (ipv4_number 192 168 0 0, 16),
      (ipv4_number 100 64 0 0, 10), (ipv4_number 198 18 0 0, 15), (ipv4_number 224 0 0 0, 3)]"

definition link_local_block :: "nat \<times> nat" where
  "link_local_block = (ipv4_number 169 254 0 0, 16)"

lemma ipv4_number_div:
  assumes "c < 256" "d < 256"
  shows "ipv4_number a b c d div 2 ^ 16 = a * 256 + b"
proof -
  have "c * 256 + d < 2 ^ 16" using assms by simp
  moreover have "ipv4_number a b c d = (a * 256 + b) * 2 ^ 16 + (c * 256 + d)" by (simp add: ipv4_number_def)
  ultimately show ?thesis by simp
qed

lemma ipv4_number_div_more:
  assumes "c < 256" "d < 256"
  shows "ipv4_number a b c d div 2 ^ (16 + k) = (a * 256 + b) div 2 ^ k"
  unfolding power_add by (simp add: div_mult2_eq ipv4_number_div [OF assms, simplified])

lemma base_digits: "q < k \<Longrightarrow> a * k + q = x \<longleftrightarrow> a = x div k \<and> q = x mod (k :: nat)"
  by auto

lemma div_nat_eq_iff: "k > 0 \<Longrightarrow> n div k = m \<longleftrightarrow> k * m \<le> n \<and> n < k * m + (k :: nat)"
  using dividend_less_times_div [of k n] times_div_less_eq_dividend [of k n] div_nat_eqI [of k m n]
  by (auto simp: algebra_simps)

lemma private_octets_blocks:
  assumes "a < 256" "b < 256" "c < 256" "d < 256"
  shows "private_octets a b \<longleftrightarrow> list_ex (in_block (ipv4_number a b c d)) private_blocks"
proof -
  note more = ipv4_number_div_more [OF assms(3,4)]
  have "in_block (ipv4_number a b c d) (base, 16 - k) \<longleftrightarrow> (a * 256 + b) div 2 ^ k = base div 2 ^ (16 + k)"
    if "k \<le> 13" for base k
    using that by (simp add: in_block_def more flip: power_add)
  note blk = this [of 8] this [of 0] this [of 4] this [of 6] this [of 1] this [of 13]
  have parts: "(a * 256 + b) div 2 ^ 8 = a" "(a * 256 + b) div 2 ^ 4 = a * 16 + b div 16"
    "(a * 256 + b) div 2 ^ 6 = a * 4 + b div 64" "(a * 256 + b) div 2 ^ 1 = a * 128 + b div 2"
    "(a * 256 + b) div 2 ^ 13 = a div 32"
  proof -
    show "(a * 256 + b) div 2 ^ 8 = a" using assms(2) by simp
    have "(a * 256 + b) div 256 div 32 = a div 32" using assms(2) by simp
    then show "(a * 256 + b) div 2 ^ 13 = a div 32" by (simp flip: div_mult2_eq)
    show "(a * 256 + b) div 2 ^ 4 = a * 16 + b div 16" using div_mult_self3 [of 16 "a * 16" b] by simp
    show "(a * 256 + b) div 2 ^ 6 = a * 4 + b div 64" using div_mult_self3 [of 64 "a * 4" b] by simp
    show "(a * 256 + b) div 2 ^ 1 = a * 128 + b div 2" using div_mult_self3 [of 2 "a * 128" b] by simp
  qed
  have "b div 16 < 16" "b div 64 < 4" "b div 2 < 128" using assms(2) by simp_all
  note split = this [THEN base_digits] base_digits [OF assms(2)]
  have halves: "a div 32 = 7 \<longleftrightarrow> a \<ge> 224" "b div 16 = 1 \<longleftrightarrow> 16 \<le> b \<and> b \<le> 31"
    "b div 64 = 1 \<longleftrightarrow> 64 \<le> b \<and> b \<le> 127" "b div 2 = 9 \<longleftrightarrow> b = 18 \<or> b = 19"
    using assms(1) by (auto simp: div_nat_eq_iff)
  show ?thesis
    using blk [unfolded parts]
    by (simp add: private_blocks_def ipv4_number_def private_octets_def split halves [unfolded One_nat_def])
qed

lemma link_local_octets:
  assumes "a < 256" "b < 256" "c < 256" "d < 256"
  shows "(a = 169 \<and> b = 254) \<longleftrightarrow> in_block (ipv4_number a b c d) link_local_block"
  using base_digits [OF assms(2), of a 43518] ipv4_number_div [OF assms(3,4), of a b]
  by (simp add: in_block_def link_local_block_def ipv4_number_def)

lemma ipv4_number_octets:
  assumes "a < 256" "b < 256" "c < 256" "d < 256"
  shows "ipv4_number a b c d < 2 ^ 32" and "ipv4_number a b c d div 2 ^ 24 mod 256 = a"
    and "ipv4_number a b c d div 2 ^ 16 mod 256 = b"
proof -
  show "ipv4_number a b c d < 2 ^ 32" using assms by (simp add: ipv4_number_def)
  show "ipv4_number a b c d div 2 ^ 24 mod 256 = a"
    using ipv4_number_div_more [OF assms(3,4), of a b 8] assms(1,2) by simp
  show "ipv4_number a b c d div 2 ^ 16 mod 256 = b"
    using ipv4_number_div [OF assms(3,4), of a b] assms(2) by simp
qed

lemma div_mod_split: "n < k \<Longrightarrow> (q * k + n) div k = q" "n < k \<Longrightarrow> (q * k + n) mod k = (n :: nat)"
  by simp_all

lemma mapped_hex_judged:
  assumes "a < 256" "b < 256" "c < 256" "d < 256" and low: "lower_plain lower"
  shows "isPrivateAddress lower (mapped_hex a b c d) = private_octets a b"
    and "isLinkLocalAddress lower (mapped_hex a b c d) = (a = 169 \<and> b = 254)"
proof -
  let ?v = "mapped_hex a b c d" and ?n = "ipv4_number a b c d"
  have v: "strip_brackets (lower ?v) = ?v"
    using lower_quiet [OF low] spellings_quiet [of ?v a b c d] by (simp add: spellings_def)
  have p: "parseIpv6 ?v = Some (0xffff * 2 ^ 32 + ?n)"
    using mapped_hex_parsed [OF assms(1-4)] by (simp add: ipv4_number_def)
  note n = ipv4_number_octets [OF assms(1-4)]
  have parts: "(0xffff * 2 ^ 32 + ?n) div 2 ^ 32 = 0xffff" "(0xffff * 2 ^ 32 + ?n) mod 2 ^ 32 = ?n"
    using div_mod_split [OF n(1), of "0xffff"] by blast+
  have less: "0xffff * 2 ^ 32 + ?n < 2 ^ 118" and ne: "0xffff * 2 ^ 32 + ?n \<noteq> 0" "0xffff * 2 ^ 32 + ?n \<noteq> 1"
    using n(1) by simp_all
  have zero: "(0xffff * 2 ^ 32 + ?n) div 2 ^ 118 = 0" "(0xffff * 2 ^ 32 + ?n) div 2 ^ 120 = 0"
    "(0xffff * 2 ^ 32 + ?n) div 2 ^ 121 = 0"
    using less by (simp_all add: div_less)
  define m where "m = 0xffff * 2 ^ 32 + ?n"
  note facts = parts [folded m_def] ne [folded m_def] zero [folded m_def] p [folded m_def]
  show "isPrivateAddress lower ?v = private_octets a b"
    unfolding isPrivateAddress_def Let_def v mapped_hex_ipv6(2) [OF assms(1-4)] facts(8)
    by (simp only: option.case facts(1-7) isPrivateIpv4Number_def n) simp
  show "isLinkLocalAddress lower ?v = (a = 169 \<and> b = 254)"
    unfolding isLinkLocalAddress_def Let_def v mapped_hex_ipv6(2) [OF assms(1-4)] facts(8)
    by (simp only: option.case facts(1-7) n) simp
qed

lemma dotted_judged:
  assumes "a < 256" "b < 256" "c < 256" "d < 256" and low: "lower_plain lower"
    and t: "t = dotted a b c d \<or> t = mapped_dotted a b c d"
  shows "isPrivateAddress lower t = private_octets a b" and "isLinkLocalAddress lower t = (a = 169 \<and> b = 254)"
proof -
  have v: "strip_brackets (lower t) = t"
    using lower_quiet [OF low] spellings_quiet [of t a b c d] t by (auto simp: spellings_def)
  have "embedded_ipv4 t = Some (dotted a b c d)" using t embedded_dotted [OF assms(1-4)] by auto
  then show "isPrivateAddress lower t = private_octets a b" and "isLinkLocalAddress lower t = (a = 169 \<and> b = 254)"
    by (simp_all add: isPrivateAddress_def isLinkLocalAddress_def v first_dotted)
qed

lemma spellings_judged:
  assumes "a < 256" "b < 256" "c < 256" "d < 256" "lower_plain lower" "t \<in> set (spellings a b c d)"
  shows "isPrivateAddress lower t \<longleftrightarrow> list_ex (in_block (ipv4_number a b c d)) private_blocks"
    and "isLinkLocalAddress lower t \<longleftrightarrow> in_block (ipv4_number a b c d) link_local_block"
  using assms(6) dotted_judged [OF assms(1-5)] mapped_hex_judged [OF assms(1-5)]
    private_octets_blocks [OF assms(1-4)] link_local_octets [OF assms(1-4)]
  by (auto simp: spellings_def)

text \<open>
  C38. An address is judged by its number and not by its spelling: written with dots, with dots inside
  an address of the sixth version, or there in two groups of hexadecimal digits, an address counts as
  private exactly if its number lies in one of nine blocks, which include the loopback, the private
  and the shared networks, and as link-local exactly if it lies in the block of those.
\<close>

theorem address_judged_by_number:
  assumes "a < 256" and "b < 256" and "c < 256" and "d < 256" and "lower_plain lower"
    and "t \<in> set (spellings a b c d)"
  shows "(isPrivateAddress lower t \<longleftrightarrow> list_ex (in_block (ipv4_number a b c d)) private_blocks) \<and>
    (isLinkLocalAddress lower t \<longleftrightarrow> in_block (ipv4_number a b c d) link_local_block)"
  using spellings_judged [OF assms] by simp

theorem address_judged_by_number_witness:
  "isPrivateAddress id (mapped_hex 169 254 169 254) \<and> isLinkLocalAddress id (mapped_hex 169 254 169 254) \<and>
   \<not> isPrivateAddress id (dotted 8 8 8 8)"
proof -
  have low: "lower_plain id" by (simp add: lower_plain_def)
  have "isPrivateAddress id (mapped_hex 169 254 169 254) \<and> isLinkLocalAddress id (mapped_hex 169 254 169 254)"
    using address_judged_by_number [of 169 254 169 254 id "mapped_hex 169 254 169 254"] low
    by (simp add: spellings_def private_blocks_def link_local_block_def in_block_def ipv4_number_def)
  moreover have "\<not> isPrivateAddress id (dotted 8 8 8 8)"
    using address_judged_by_number [of 8 8 8 8 id "dotted 8 8 8 8"] low
    by (simp add: spellings_def private_blocks_def in_block_def ipv4_number_def)
  ultimately show ?thesis by simp
qed

subsection \<open>No request to a private address\<close>

lemma last_split_on:
  "x \<noteq> c \<Longrightarrow> \<exists>y. last (split_on c (s @ [x])) = y @ [x]"
proof (induction s)
  case (Cons z s)
  then obtain y where y: "last (split_on c (s @ [x])) = y @ [x]" by blast
  obtain p ps where "split_on c (s @ [x]) = p # ps" by (cases "split_on c (s @ [x])") simp_all
  with y show ?case by (cases "ps = []") (simp_all add: exI [of _ "z # y"])
qed simp

lemma cut_double_split: "cut_double s = Some (l, r) \<Longrightarrow> s = l @ [58, 58] @ r"
  by (induction s arbitrary: l rule: cut_double.induct) (auto split: if_splits)

lemma segment_no_dot: "\<not> ipv4_segment []" "\<not> hex_group (y @ [46])"
  by (simp_all add: ipv4_segment_def all_digits_def hex_group_def hex_char_def is_digit_def)

lemma split_on_last: "\<exists>ys. split_on c (s @ [c]) = ys @ [[]] \<and> ys \<noteq> []"
proof (induction s)
  case (Cons z s)
  then obtain ys where ys: "split_on c (s @ [c]) = ys @ [[]]" "ys \<noteq> []" by blast
  obtain q qs where q: "ys = q # qs" using ys(2) by (cases ys) simp_all
  show ?case
  proof (cases "z = c")
    case True
    with ys show ?thesis by (intro exI [of _ "[] # ys"]) simp
  next
    case False
    with ys q show ?thesis by (intro exI [of _ "(z # q) # qs"]) simp
  qed
qed (simp add: exI [of _ "[[]]"])

lemma split_on_end: "[] \<in> set (split_on c (s @ [c]))"
  using split_on_last [of c s] by auto

lemma ipv4_no_dot: "\<not> is_ipv4 (p @ [46])"
proof
  have "[] \<in> set (split_on 46 (p @ [46]))" by (rule split_on_end)
  moreover assume "is_ipv4 (p @ [46])"
  ultimately show False
    using segment_no_dot(1) by (auto simp: is_ipv4_def list_all_iff)
qed

lemma groups_no_dot: "count_groups (split_on 58 (p @ [46])) = None"
proof -
  obtain y where "last (split_on 58 (p @ [46])) = y @ [46 :: jchar]" using last_split_on [of 46 58 p] by auto
  moreover have "last (split_on 58 (p @ [46])) \<in> set (split_on 58 (p @ [46]))" by (rule last_in_set) simp
  ultimately show ?thesis
    using segment_no_dot(2) ipv4_no_dot by (auto simp: count_groups_def list_all_iff)
qed

lemma ip_no_dot:
  assumes "isIP s \<noteq> 0" and "37 \<notin> set s"
  shows "\<not> suffix [46] s"
proof
  assume "suffix [46] s"
  then obtain p where s: "s = p @ [46]" by (auto simp: suffix_def)
  have whole: "takeWhile (\<lambda>c. c \<noteq> 37) s = s" using assms(2) by (auto simp: takeWhile_eq_all_conv)
  from assms(1) s ipv4_no_dot have "is_ipv6 s" by (auto simp: isIP_def split: if_splits)
  then show False
  proof (cases "cut_double s")
    case None
    with \<open>is_ipv6 s\<close> show False by (simp add: is_ipv6_def Let_def whole) (simp add: s groups_no_dot)
  next
    case (Some lr)
    then obtain l r where lr: "cut_double s = Some (l, r)" by (cases lr) auto
    have "s = l @ [58, 58] @ r" using cut_double_split [OF lr] .
    then obtain q where "r = q @ [46]" using s by (cases r rule: rev_cases) auto
    with \<open>is_ipv6 s\<close> lr show False
      by (simp add: is_ipv6_def Let_def whole colon_parts_def groups_no_dot)
  qed
qed

text \<open>
  Hosts as the parser of addresses gives them: lower-case, and without the sign of a zone.
\<close>

definition plain_host :: "(jstring \<Rightarrow> jstring) \<Rightarrow> url_parts \<Rightarrow> bool" where
  "plain_host lower url \<longleftrightarrow>
     (let h = strip_brackets (ur_hostname url) in lower h = h \<and> 37 \<notin> set h)"

lemma literal_is_public:
  assumes "\<not> isPrivateHostname lower h" and "isIP h \<noteq> 0" and "lower h = h" and "37 \<notin> set h"
  shows "\<not> isPrivateAddress lower h"
proof -
  have "strip_suffix (js ''.'') h = h"
    using ip_no_dot [OF assms(2,4)] by (simp add: strip_suffix_def colon_chars)
  with assms show ?thesis by (simp add: isPrivateHostname_def Let_def)
qed

lemma looked_up_is_public:
  assumes "createAddressCheckedLookup later (assertPublicAddresses lower) h all_of family = Inr a"
    and "t \<in> set (case a of AllAddresses es \<Rightarrow> map ad_address es | OneAddress e \<Rightarrow> [ad_address e])"
  shows "\<not> isPrivateAddress lower t"
  using assms
  by (auto simp: createAddressCheckedLookup_def assertPublicAddresses_def list_ex_iff find_Some_iff Let_def
      split: option.splits if_splits list.splits)

lemma connected_is_public:
  assumes "assertSafeRemoteUrl parse_url lower resolve input = Inr url" and "plain_host lower url"
    and "connect_addresses (createAddressCheckedLookup later (assertPublicAddresses lower))
      (strip_brackets (ur_hostname url)) all_of family = Inr addresses" and "t \<in> set addresses"
  shows "\<not> isPrivateAddress lower t"
proof (cases "isIP (strip_brackets (ur_hostname url)) \<noteq> 0")
  case True
  have "\<not> isPrivateHostname lower (strip_brackets (ur_hostname url))"
    using assms(1) by (auto simp: assertSafeRemoteUrl_def Let_def split: option.splits if_splits)
  with literal_is_public [OF this True] True assms(2-4) show ?thesis
    by (auto simp: plain_host_def Let_def connect_addresses_def)
next
  case False
  with assms(3) obtain a where a: "createAddressCheckedLookup later (assertPublicAddresses lower)
      (strip_brackets (ur_hostname url)) all_of family = Inr a"
    and "addresses = (case a of AllAddresses es \<Rightarrow> map ad_address es | OneAddress e \<Rightarrow> [ad_address e])"
    by (cases "createAddressCheckedLookup later (assertPublicAddresses lower)
      (strip_brackets (ur_hostname url)) all_of family") (auto simp: connect_addresses_def)
  with assms(4) show ?thesis using looked_up_is_public [OF a] by simp
qed

text \<open>
  C37. A request to a remote tool leaves only for public addresses, also when its host resolves to
  something else at the moment of the connection than at the check before it: an address the connection
  may go to is not private, so that it is no spelling of an address whose number lies in a private block.
\<close>

theorem remote_connections_are_public:
  assumes "lower_plain lower" and "\<forall>url. parse_url input = Some url \<longrightarrow> plain_host lower url"
    and "safe_remote_fetch parse_url lower resolve resolve_later wantAll family status input = (addresses, result)"
    and "t \<in> set addresses"
  shows "\<not> isPrivateAddress lower t \<and>
    (\<forall>a < 256. \<forall>b < 256. \<forall>c < 256. \<forall>d < 256. t \<in> set (spellings a b c d) \<longrightarrow>
       \<not> list_ex (in_block (ipv4_number a b c d)) private_blocks)"
proof -
  obtain url where url: "assertSafeRemoteUrl parse_url lower resolve input = Inr url"
    and con: "connect_addresses (createAddressCheckedLookup resolve_later (assertPublicAddresses lower))
      (strip_brackets (ur_hostname url)) wantAll family = Inr addresses"
    using assms(3,4) by (auto simp: safe_remote_fetch_def split: sum.splits)
  have "parse_url input = Some url"
    using url by (auto simp: assertSafeRemoteUrl_def Let_def split: option.splits if_splits)
  with assms(2) have "plain_host lower url" by simp
  from connected_is_public [OF url this con assms(4)] show ?thesis
    using spellings_judged(1) [OF _ _ _ _ assms(1)] by blast
qed

text \<open>A host that is public when it is checked, and names the local machine when it is connected to.\<close>

definition moving_service :: "jstring \<Rightarrow> name_service" where
  "moving_service address = (\<lambda>_. Some [\<lparr>ad_address = address, ad_family = 4\<rparr>])"

definition tools_url :: url_parts where
  "tools_url =
     \<lparr>ur_protocol = js ''https:'', ur_username = [], ur_password = [], ur_hostname = js ''tools.example'',
      ur_port = [], ur_pathname = js ''/'', ur_search = [], ur_hash = []\<rparr>"

theorem remote_connections_are_public_witness:
  "safe_remote_fetch (\<lambda>_. Some tools_url) id (moving_service (js ''8.8.8.8'')) (moving_service (js ''8.8.4.4''))
     True None 200 (js ''https://tools.example/'') = ([js ''8.8.4.4''], Inr tools_url) \<and>
   safe_remote_fetch (\<lambda>_. Some tools_url) id (moving_service (js ''8.8.8.8'')) (moving_service (js ''127.0.0.1''))
     True None 200 (js ''https://tools.example/'') = ([], Inl PrivateResolved) \<and>
   \<not> isPrivateAddress id (js ''8.8.4.4'')"
proof -
  have run: "safe_remote_fetch (\<lambda>_. Some tools_url) id (moving_service (js ''8.8.8.8'')) (moving_service (js ''8.8.4.4''))
      True None 200 (js ''https://tools.example/'') = ([js ''8.8.4.4''], Inr tools_url)"
    "safe_remote_fetch (\<lambda>_. Some tools_url) id (moving_service (js ''8.8.8.8'')) (moving_service (js ''127.0.0.1''))
      True None 200 (js ''https://tools.example/'') = ([], Inl PrivateResolved)"
    by code_simp+
  have "plain_host id tools_url" by code_simp
  then have "\<not> isPrivateAddress id (js ''8.8.4.4'')"
    using remote_connections_are_public [OF _ _ run(1)] by (simp add: lower_plain_def)
  with run show ?thesis by simp
qed

end
