(* ===== verification/AgentSkill.thy ===== *)
theory AgentSkill
  imports ApprovalKey TextLines "HOL-Library.AList"
begin

text \<open>
  Skills as files, \<open>packages/core/src/agent-skill.ts\<close>: reading and writing a \<open>SKILL.md\<close> with its front
  matter, and the references to skills that a prompt is expanded by. \<open>number\<close> is what \<open>String\<close> prints of
  \<open>Number\<close> of a text, \<open>leq\<close> the order of \<open>localeCompare\<close>, \<open>lower\<close> is \<open>toLowerCase\<close>, and \<open>canon\<close> the
  folding of one code unit in expressions that ignore case. Values of the front matter are kept in the
  order of their keys; a key \<open>__proto__\<close>, which the language treats apart, is not modelled.
\<close>

subsection \<open>Values\<close>

datatype yaml = YText jstring | YNum jstring | YBool bool | YNull | YList "yaml list"
  | YMap "(jstring \<times> yaml) list"

definition key_start :: "jchar \<Rightarrow> bool" where
  "key_start c \<longleftrightarrow> ascii_lower_letter c \<or> (65 \<le> c \<and> c \<le> 90) \<or> c = 95"

definition key_char :: "jchar \<Rightarrow> bool" where
  "key_char c \<longleftrightarrow> ascii_alnum c \<or> c = 95 \<or> c = 45"

definition is_number_text :: "jstring \<Rightarrow> bool" where
  "is_number_text value =
     (let t = (if prefix (js ''-'') value then tl value else value);
          f = dropWhile is_digit t
      in takeWhile is_digit t \<noteq> [] \<and> (f = [] \<or> (hd f = 46 \<and> all_digits (tl f))))"

definition quoted :: "jchar \<Rightarrow> jstring \<Rightarrow> bool" where
  "quoted q value \<longleftrightarrow> value \<noteq> [] \<and> hd value = q \<and> last value = q"

definition parseYamlScalar :: "(jstring \<Rightarrow> jstring) \<Rightarrow> jstring \<Rightarrow> yaml" where
  "parseYamlScalar number raw =
     (let value = trim raw in
      if quoted 34 value \<or> quoted 39 value then YText (butlast (tl value))
      else if value = js ''true'' then YBool True
      else if value = js ''false'' then YBool False
      else if is_number_text value then YNum (number value)
      else YText value)"

text \<open>\<open>key: value\<close>, and an item of a list; the dot of the expressions stops at a line break.\<close>

definition rest_of_line :: "jstring \<Rightarrow> jstring option" where
  "rest_of_line s =
     (let v = dropWhile is_ws s in if list_ex line_break_char v then None else Some v)"

definition keyed :: "jstring \<Rightarrow> (jstring \<times> jstring) option" where
  "keyed line =
     (let r = dropWhile key_char line in
      if line \<noteq> [] \<and> key_start (hd line) \<and> r \<noteq> [] \<and> hd r = 58
      then map_option (Pair (takeWhile key_char line)) (rest_of_line (tl r)) else None)"

fun list_item :: "jstring \<Rightarrow> jstring option" where
  "list_item (c # d # s) = (if c = 45 \<and> is_ws d then rest_of_line s else None)"
| "list_item _ = None"

subsection \<open>Block scalars\<close>

datatype chomp = Clip | Strip | Keep

record block_header =
  bh_folded :: bool
  bh_chomp :: chomp
  bh_indent :: "nat option"

definition indent_digits :: "jstring \<Rightarrow> bool" where
  "indent_digits s \<longleftrightarrow> all_digits s \<and> hd s \<noteq> 48"

definition chomp_of :: "jchar \<Rightarrow> chomp option" where
  "chomp_of c = (if c = 43 then Some Keep else if c = 45 then Some Strip else None)"

definition parseYamlBlockScalarHeader :: "jstring \<Rightarrow> block_header option" where
  "parseYamlBlockScalarHeader raw =
     (case raw of
        [] \<Rightarrow> None
      | c # r \<Rightarrow>
          let header = (\<lambda>chomp indent. Some \<lparr>bh_folded = (c = 62), bh_chomp = chomp, bh_indent = indent\<rparr>) in
          if c \<noteq> 62 \<and> c \<noteq> 124 then None
          else if r = [] then header Clip None
          else if indent_digits r then header Clip (Some (digits_value r))
          else if chomp_of (last r) \<noteq> None \<and> indent_digits (butlast r)
          then header (the (chomp_of (last r))) (Some (digits_value (butlast r)))
          else if chomp_of (hd r) \<noteq> None \<and> tl r = [] then header (the (chomp_of (hd r))) None
          else if chomp_of (hd r) \<noteq> None \<and> indent_digits (tl r)
          then header (the (chomp_of (hd r))) (Some (digits_value (tl r)))
          else None)"

definition leadingSpaces :: "jstring \<Rightarrow> nat" where
  "leadingSpaces line = length (takeWhile (\<lambda>c. c = 32) line)"

definition block_indent :: "jstring list \<Rightarrow> nat" where
  "block_indent rawLines =
     foldl (\<lambda>indent line.
              if trim line = [] then indent
              else if indent = 0 \<or> leadingSpaces line < indent then leadingSpaces line else indent) 0 rawLines"

definition content_line :: "nat \<Rightarrow> jstring \<Rightarrow> jstring" where
  "content_line indent line =
     (if trim line = [] then []
      else if leadingSpaces line < indent then trim_start line else drop indent line)"

definition flush :: "jstring list \<Rightarrow> jstring list" where
  "flush paragraph = (if paragraph = [] then [] else [join_with [32] paragraph])"

fun fold_lines :: "jstring list \<Rightarrow> jstring list \<Rightarrow> jstring list" where
  "fold_lines paragraph [] = flush paragraph"
| "fold_lines paragraph (l # ls) =
     (if l = [] then flush paragraph @ [] # fold_lines [] ls
      else if hd l = 32 then flush paragraph @ l # fold_lines [] ls
      else fold_lines (paragraph @ [l]) ls)"

definition strip_line_feeds :: "jstring \<Rightarrow> jstring" where
  "strip_line_feeds s = rev (dropWhile (\<lambda>c. c = 10) (rev s))"

definition decodeYamlBlockScalar :: "jstring list \<Rightarrow> block_header \<Rightarrow> jstring" where
  "decodeYamlBlockScalar rawLines header =
     (let indent = (case bh_indent header of None \<Rightarrow> block_indent rawLines | Some n \<Rightarrow> n);
          contentLines = map (content_line indent) rawLines;
          trailingBlanks = length (takeWhile (\<lambda>l. l = []) (rev contentLines));
          content = join_with [10] (if bh_folded header then fold_lines [] contentLines else contentLines);
          stripped = strip_line_feeds content
      in case bh_chomp header of
           Strip \<Rightarrow> stripped
         | Keep \<Rightarrow>
             if trailingBlanks = 0 then (if suffix [10] content then content else content @ [10])
             else stripped @ [10] @ replicate trailingBlanks 10
         | Clip \<Rightarrow> if stripped = [] then [] else stripped @ [10])"

subsection \<open>Reading the front matter\<close>

datatype skill_error = NoFrontmatter | IndentedLine | InvalidLine jstring | NameRequired
  | DescriptionRequired | NameTooLong | DescriptionTooLong

definition indented :: "jstring \<Rightarrow> bool" where
  "indented l \<longleftrightarrow> l \<noteq> [] \<and> is_ws (hd l)"

definition block_line :: "jstring \<Rightarrow> bool" where
  "block_line l \<longleftrightarrow> indented l \<or> trim l = []"

datatype nest = NestEmpty | NestList | NestMap

definition nested_result :: "nest \<Rightarrow> yaml list \<Rightarrow> (jstring \<times> yaml) list \<Rightarrow> yaml" where
  "nested_result mode items entries =
     (case mode of NestList \<Rightarrow> YList items | NestMap \<Rightarrow> YMap entries | NestEmpty \<Rightarrow> YText [])"

fun parse_nested ::
    "(jstring \<Rightarrow> jstring) \<Rightarrow> nest \<Rightarrow> yaml list \<Rightarrow> (jstring \<times> yaml) list \<Rightarrow> jstring list \<Rightarrow> yaml \<times> jstring list" where
  "parse_nested number mode items entries [] = (nested_result mode items entries, [])"
| "parse_nested number mode items entries (l # ls) =
     (let nestedLine = dropWhile is_ws l in
      if \<not> indented l then (nested_result mode items entries, l # ls)
      else (case list_item nestedLine of
              Some v \<Rightarrow> parse_nested number NestList (items @ [parseYamlScalar number v]) entries ls
            | None \<Rightarrow>
                (case keyed nestedLine of
                   Some (k, v) \<Rightarrow>
                     parse_nested number NestMap items (AList.update k (parseYamlScalar number v) entries) ls
                 | None \<Rightarrow> (nested_result mode items entries, l # ls))))"

lemma parse_nested_length: "length (snd (parse_nested number mode items entries ls)) \<le> length ls"
proof (induction ls arbitrary: mode items entries)
  case (Cons l ls)
  from Cons.IH show ?case
    by (auto simp: Let_def le_SucI split: option.splits prod.splits)
qed simp

definition inline_list :: "(jstring \<Rightarrow> jstring) \<Rightarrow> jstring \<Rightarrow> yaml" where
  "inline_list number raw =
     YList (filter (\<lambda>p. p \<noteq> YText [])
       (map (\<lambda>part. parseYamlScalar number (trim part)) (split_on 44 (butlast (tl raw)))))"

function parseSimpleYamlObject ::
    "(jstring \<Rightarrow> jstring) \<Rightarrow> jstring list \<Rightarrow> (jstring \<times> yaml) list \<Rightarrow> skill_error + (jstring \<times> yaml) list" where
  "parseSimpleYamlObject number [] result = Inr result"
| "parseSimpleYamlObject number (line # rest) result =
     (if trim line = [] \<or> prefix (js ''#'') (trim_start line) then parseSimpleYamlObject number rest result
      else if indented line then Inl IndentedLine
      else case keyed line of
             None \<Rightarrow> Inl (InvalidLine line)
           | Some (key, raw) \<Rightarrow>
               (case parseYamlBlockScalarHeader raw of
                  Some header \<Rightarrow>
                    parseSimpleYamlObject number (dropWhile block_line rest)
                      (AList.update key (YText (decodeYamlBlockScalar (takeWhile block_line rest) header)) result)
                | None \<Rightarrow>
                    if raw = [] then
                      parseSimpleYamlObject number (snd (parse_nested number NestEmpty [] [] rest))
                        (AList.update key (fst (parse_nested number NestEmpty [] [] rest)) result)
                    else if hd raw = 91 \<and> last raw = 93 then
                      parseSimpleYamlObject number rest (AList.update key (inline_list number raw) result)
                    else parseSimpleYamlObject number rest
                           (AList.update key (parseYamlScalar number raw) result)))"
  by pat_completeness auto
termination parseSimpleYamlObject
  by (relation "measure (\<lambda>(number, ls, result). length ls)")
    (auto simp: length_dropWhile_le parse_nested_length le_imp_less_Suc)

definition stringifyScalar :: "yaml option \<Rightarrow> jstring" where
  "stringifyScalar v =
     (case v of Some (YText s) \<Rightarrow> s | Some (YNum t) \<Rightarrow> t
      | Some (YBool b) \<Rightarrow> (if b then js ''true'' else js ''false'') | _ \<Rightarrow> [])"

subsection \<open>Reading a file\<close>

definition optional :: "jchar \<Rightarrow> jstring \<Rightarrow> jstring" where
  "optional c s = (if s \<noteq> [] \<and> hd s = c then tl s else s)"

definition strip_line_break :: "jstring \<Rightarrow> jstring" where
  "strip_line_break s =
     (let r = optional 13 s in if r \<noteq> [] \<and> hd r = 10 then tl r else s)"

definition fence_open :: "jstring \<Rightarrow> jstring option" where
  "fence_open s =
     (let r = optional 13 (drop 3 s) in
      if prefix (js ''---'') s \<and> r \<noteq> [] \<and> hd r = 10 then Some (tl r) else None)"

definition fence_close :: "jstring \<Rightarrow> jstring option" where
  "fence_close s =
     (let r = optional 13 s in
      if prefix (10 # js ''---'') r then Some (optional 10 (optional 13 (drop 4 r))) else None)"

fun fence_text :: "jstring \<Rightarrow> (jstring \<times> jstring) option" where
  "fence_text [] = None"
| "fence_text (c # s) =
     (case fence_close (c # s) of
        Some rest \<Rightarrow> Some ([], rest)
      | None \<Rightarrow> map_option (\<lambda>(t, rest). (c # t, rest)) (fence_text s))"

record parsed_skill =
  ps_name :: jstring
  ps_description :: jstring
  ps_body :: jstring
  ps_frontmatter :: "(jstring \<times> yaml) list"

definition check_fields :: "jstring \<Rightarrow> jstring \<Rightarrow> skill_error option" where
  "check_fields name description =
     (if name = [] then Some NameRequired
      else if description = [] then Some DescriptionRequired
      else if length name > 80 then Some NameTooLong
      else if length description > 2000 then Some DescriptionTooLong
      else None)"

definition parseSkillMd :: "(jstring \<Rightarrow> jstring) \<Rightarrow> jstring \<Rightarrow> skill_error + parsed_skill" where
  "parseSkillMd number content =
     (case Option.bind (fence_open (optional 0xFEFF content)) fence_text of
        None \<Rightarrow> Inl NoFrontmatter
      | Some (frontmatterText, after) \<Rightarrow>
          (case parseSimpleYamlObject number (split_lines frontmatterText) [] of
             Inl e \<Rightarrow> Inl e
           | Inr frontmatter \<Rightarrow>
               let name = trim (stringifyScalar (map_of frontmatter (js ''name'')));
                   description = trim (stringifyScalar (map_of frontmatter (js ''description'')))
               in case check_fields name description of
                    Some e \<Rightarrow> Inl e
                  | None \<Rightarrow> Inr \<lparr>ps_name = name, ps_description = description,
                                 ps_body = strip_line_break after, ps_frontmatter = frontmatter\<rparr>))"

subsection \<open>Writing a file\<close>

definition trailing_line_feeds :: "jstring \<Rightarrow> nat" where
  "trailing_line_feeds v = length (takeWhile (\<lambda>c. c = 10) (rev v))"

definition formatYamlBlockScalar :: "jstring \<Rightarrow> jstring \<Rightarrow> jstring" where
  "formatYamlBlockScalar key value =
     (let trailing = trailing_line_feeds value;
          (indicator, lines) =
            (if trailing = 0 then (js ''|-'', split_on 10 value)
             else if trailing = 1 then (js ''|'', split_on 10 (butlast value))
             else (js ''|+'', take (length value - trailing) value # replicate (trailing - 1) []))
      in key @ js '': '' @ indicator @ [10] @ join_with [10] (map (\<lambda>line. js ''  '' @ line) lines))"

definition special_char :: "jchar \<Rightarrow> bool" where
  "special_char c \<longleftrightarrow> c \<in> set (js ''#{}[],&*?|>!%'' @ [64, 96])"

text \<open>\<open>JSON.stringify\<close> of the items that are neither texts nor numbers.\<close>

function yaml_json :: "yaml \<Rightarrow> jstring" where
  "yaml_json (YText s) = json_quote s"
| "yaml_json (YNum t) = t"
| "yaml_json (YBool b) = (if b then js ''true'' else js ''false'')"
| "yaml_json YNull = js ''null''"
| "yaml_json (YList vs) = 91 # commas (map yaml_json vs) @ [93]"
| "yaml_json (YMap es) = 123 # commas (map (\<lambda>(k, v). json_quote k @ 58 # yaml_json v) es) @ [125]"
  by pat_completeness auto

lemma yaml_entry_size: "(k, v) \<in> set es \<Longrightarrow> size v < Suc (size_list (size_prod (\<lambda>x. 0) size) es)"
  by (induction es) auto

lemma yaml_item_size: "v \<in> set vs \<Longrightarrow> size v < Suc (size_list size vs)"
  by (induction vs) auto

termination yaml_json
  by (relation "measure size") (auto simp: yaml_entry_size yaml_item_size)

fun plain_item :: "yaml \<Rightarrow> jstring option" where
  "plain_item (YText s) = Some s"
| "plain_item (YNum t) = Some t"
| "plain_item _ = None"

definition yaml_item :: "yaml \<Rightarrow> jstring" where
  "yaml_item v = (case v of YText s \<Rightarrow> s | _ \<Rightarrow> yaml_json v)"

function formatYamlLine :: "jstring \<Rightarrow> yaml \<Rightarrow> jstring" where
  "formatYamlLine key YNull = key @ js '':''"
| "formatYamlLine key (YText value) =
     (if 10 \<in> set value \<or> contains_sub (js '': '') value then formatYamlBlockScalar key value
      else if value = [] \<or> list_ex special_char value \<or> value \<noteq> trim value
      then key @ js '': '' @ json_quote value
      else key @ js '': '' @ value)"
| "formatYamlLine key (YNum t) = key @ js '': '' @ t"
| "formatYamlLine key (YBool b) = key @ js '': '' @ (if b then js ''true'' else js ''false'')"
| "formatYamlLine key (YList vs) =
     (if list_all (\<lambda>v. plain_item v \<noteq> None) vs
      then key @ js '': ['' @ join_with (js '', '') (map (\<lambda>v. json_quote (the (plain_item v))) vs) @ js '']''
      else key @ js '':'' @ [10] @ join_with [10] (map (\<lambda>v. js ''  - '' @ yaml_item v) vs))"
| "formatYamlLine key (YMap es) =
     (if es = [] then key @ js '':''
      else key @ js '':'' @ [10] @ join_with [10] (map (\<lambda>(k, v). js ''  '' @ formatYamlLine k v) es))"
  by pat_completeness auto
termination formatYamlLine
  by (relation "measure (\<lambda>(key, v). size v)") (auto simp: yaml_entry_size)

text \<open>The keys in order: the name, the description, and the others by the order of the locale.\<close>

definition key_rank :: "jstring \<Rightarrow> nat" where
  "key_rank key = (if key = js ''name'' then 0 else if key = js ''description'' then 1 else 2)"

definition key_le :: "(jstring \<Rightarrow> jstring \<Rightarrow> bool) \<Rightarrow> jstring \<Rightarrow> jstring \<Rightarrow> bool" where
  "key_le leq a b \<longleftrightarrow> key_rank a < key_rank b \<or> (key_rank a = key_rank b \<and> leq a b)"

fun insert_by :: "('a \<Rightarrow> 'a \<Rightarrow> bool) \<Rightarrow> 'a \<Rightarrow> 'a list \<Rightarrow> 'a list" where
  "insert_by le x [] = [x]"
| "insert_by le x (y # ys) = (if le x y then x # y # ys else y # insert_by le x ys)"

definition sort_by :: "('a \<Rightarrow> 'a \<Rightarrow> bool) \<Rightarrow> 'a list \<Rightarrow> 'a list" where
  "sort_by le xs = foldr (insert_by le) xs []"

definition merged_fields ::
    "(jstring \<Rightarrow> jstring \<Rightarrow> bool) \<Rightarrow> jstring \<Rightarrow> jstring \<Rightarrow> (jstring \<times> yaml) list \<Rightarrow> (jstring \<times> yaml) list" where
  "merged_fields leq name description frontmatter =
     sort_by (\<lambda>a b. key_le leq (fst a) (fst b))
       (AList.update (js ''description'') (YText description)
         (AList.update (js ''name'') (YText name) frontmatter))"

definition buildSkillMd ::
    "(jstring \<Rightarrow> jstring \<Rightarrow> bool) \<Rightarrow> jstring \<Rightarrow> jstring \<Rightarrow> jstring \<Rightarrow> (jstring \<times> yaml) list \<Rightarrow> skill_error + jstring" where
  "buildSkillMd leq rawName rawDescription rawBody frontmatter =
     (let name = trim rawName; description = trim rawDescription in
      case check_fields name description of
        Some e \<Rightarrow> Inl e
      | None \<Rightarrow>
          let lines = map (\<lambda>(k, v). formatYamlLine k v) (merged_fields leq name description frontmatter);
              body = strip_line_break rawBody
          in Inr (js ''---'' @ [10] @ join_with [10] lines @ [10] @ js ''---'' @ [10] @
                  (if prefix [10] body then body else 10 # body)))"

subsection \<open>References to skills in a prompt\<close>

record skill_record =
  sk_id :: jstring
  sk_name :: jstring
  sk_description :: jstring
  sk_content :: jstring
  sk_source :: jstring
  sk_readOnly :: bool

definition isSkillReadOnly :: "jstring \<Rightarrow> bool" where
  "isSkillReadOnly source \<longleftrightarrow> source = js ''builtin'' \<or> source = js ''plugin''"

definition formatForcedSkillPrompt :: "jstring \<Rightarrow> jstring \<Rightarrow> jstring option \<Rightarrow> jstring" where
  "formatForcedSkillPrompt name content rest =
     (let trailing = (case rest of None \<Rightarrow> [] | Some r \<Rightarrow> trim r) in
      join_with [10] ([js ''Use skill: '' @ name, [], trim content] @
        (if trailing = [] then [] else [[], trailing])))"

text \<open>\<open>/Name\<close> or \<open>Use skill: Name\<close> at the start; \<open>None\<close> also where the match leaves no name.\<close>

definition force_prefix :: "jstring \<Rightarrow> jstring option" where
  "force_prefix s =
     (if prefix (js ''/'') s then Some (tl s)
      else
        let r = dropWhile is_ws (drop 3 s) in
        if ascii_lower (take 3 s) = js ''use'' \<and> r \<noteq> drop 3 s \<and> ascii_lower (take 6 r) = js ''skill:''
        then Some (dropWhile is_ws (drop 6 r)) else None)"

definition settings_action :: "jstring \<Rightarrow> bool" where
  "settings_action name \<longleftrightarrow>
     (let r = dropWhile is_ws (drop 4 name) in
      ascii_lower (take 4 name) = js ''chat'' \<and> r \<noteq> drop 4 name \<and> ascii_lower (take 8 r) = js ''settings'') \<or>
     ascii_lower (take 9 name) = js ''settings:''"

definition extractForcedSkillName :: "jstring \<Rightarrow> (jstring \<times> jstring) option" where
  "extractForcedSkillName prompt =
     (case force_prefix (trim_start prompt) of
        None \<Rightarrow> None
      | Some s \<Rightarrow>
          let line = takeWhile (\<lambda>c. c \<noteq> 10) s;
              name = trim (dropWhile (\<lambda>c. c = 47) (trim line))
          in if line = [] \<or> list_ex line_break_char line then None
             else if name = [] \<or> length name > 80 then None
             else if settings_action name then None
             else Some (name, trim_start (drop (Suc (length line)) s)))"

definition mention_end :: "jstring \<Rightarrow> bool" where
  "mention_end r \<longleftrightarrow> r = [] \<or> is_ws (hd r) \<or> hd r \<in> set (js '',.)'')"

definition mention_start :: "jchar \<Rightarrow> bool" where
  "mention_start c \<longleftrightarrow> is_ws c \<or> c \<in> set (js ''(,'')"

definition mention_at :: "(jchar \<Rightarrow> jchar) \<Rightarrow> jstring \<Rightarrow> jstring \<Rightarrow> bool" where
  "mention_at canon name s \<longleftrightarrow>
     s \<noteq> [] \<and> hd s = 64 \<and> map canon (take (length name) (tl s)) = map canon name \<and>
     mention_end (drop (length name) (tl s))"

fun has_mention :: "(jchar \<Rightarrow> jchar) \<Rightarrow> jstring \<Rightarrow> bool \<Rightarrow> jstring \<Rightarrow> bool" where
  "has_mention canon name free [] = False"
| "has_mention canon name free (c # s) =
     ((free \<and> mention_at canon name (c # s)) \<or> has_mention canon name (mention_start c) s)"

fun keep_first :: "(jstring \<Rightarrow> jstring) \<Rightarrow> jstring list \<Rightarrow> jstring list \<Rightarrow> jstring list" where
  "keep_first lower seen [] = []"
| "keep_first lower seen (n # ns) =
     (if lower n \<in> set seen then keep_first lower seen ns else n # keep_first lower (lower n # seen) ns)"

text \<open>Without a catalog: an \<open>@\<close> and up to six words, cut before the words that join.\<close>

definition ROUTINE_SKILL_STOP :: "jstring list" where
  "ROUTINE_SKILL_STOP =
     map js [''then'', ''and'', ''or'', ''to'', ''for'', ''with'', ''from'', ''via'', ''before'', ''after'',
             ''please'', ''the'', ''a'', ''an'']"

definition letter :: "jchar \<Rightarrow> bool" where
  "letter c \<longleftrightarrow> key_start c \<and> c \<noteq> 95"

fun more_words :: "nat \<Rightarrow> jstring \<Rightarrow> jstring list" where
  "more_words 0 s = []"
| "more_words (Suc n) s =
     (let sp = takeWhile (\<lambda>c. c = 32) s; r = dropWhile (\<lambda>c. c = 32) s in
      if sp \<noteq> [] \<and> r \<noteq> [] \<and> letter (hd r)
      then (sp @ takeWhile key_char r) # more_words n (dropWhile key_char r) else [])"

definition mentioned_words :: "jstring \<Rightarrow> jstring option" where
  "mentioned_words s =
     (if s = [] \<or> \<not> letter (hd s) then None
      else
        let first = takeWhile key_char s; words = first # more_words 5 (dropWhile key_char s) in
        if mention_end (drop (length (concat words)) s) then Some (concat words)
        else if tl words \<noteq> [] then Some (concat (butlast words)) else None)"

fun raw_mentions :: "nat \<Rightarrow> bool \<Rightarrow> jstring \<Rightarrow> jstring list" where
  "raw_mentions skip free [] = []"
| "raw_mentions skip free (c # s) =
     (if skip > 0 then raw_mentions (skip - 1) False s
      else case (if free \<and> c = 64 then mentioned_words s else None) of
             Some raw \<Rightarrow> raw # raw_mentions (length raw) False s
           | None \<Rightarrow> raw_mentions 0 (mention_start c) s)"

definition drop_stop_words :: "(jstring \<Rightarrow> jstring) \<Rightarrow> jstring list \<Rightarrow> jstring list" where
  "drop_stop_words lower parts =
     hd parts # rev (dropWhile (\<lambda>w. lower w \<in> set ROUTINE_SKILL_STOP) (rev (tl parts)))"

definition mention_name :: "(jstring \<Rightarrow> jstring) \<Rightarrow> jstring \<Rightarrow> jstring" where
  "mention_name lower raw =
     trim (join_with [32] (drop_stop_words lower (filter (\<lambda>w. w \<noteq> []) (split_on 32 (trim raw)))))"

definition extractRoutineSkillMentions ::
    "(jstring \<Rightarrow> jstring) \<Rightarrow> (jchar \<Rightarrow> jchar) \<Rightarrow> jstring \<Rightarrow> jstring list option \<Rightarrow> jstring list" where
  "extractRoutineSkillMentions lower canon prompt knownNames =
     (if knownNames \<noteq> None \<and> the knownNames \<noteq> []
      then keep_first lower []
             (filter (\<lambda>name. has_mention canon name True prompt)
               (sort_by (\<lambda>a b. length b \<le> length a) (the knownNames)))
      else keep_first lower []
             (filter (\<lambda>name. name \<noteq> [] \<and> lower name \<noteq> js ''everyone'')
               (map (mention_name lower) (raw_mentions 0 True prompt))))"

definition findSkillByName :: "(jstring \<Rightarrow> jstring) \<Rightarrow> skill_record list \<Rightarrow> jstring \<Rightarrow> skill_record option" where
  "findSkillByName lower skills name =
     (let needle = lower (trim name) in
      if needle = [] then None else List.find (\<lambda>s. lower (trim (sk_name s)) = needle) skills)"

definition restAlreadyIncludesSkillContent :: "jstring \<Rightarrow> jstring \<Rightarrow> bool" where
  "restAlreadyIncludesSkillContent rest content =
     (let trimmedRest = trim rest; trimmedContent = trim content in
      trimmedContent \<noteq> [] \<and>
      (trimmedRest = trimmedContent \<or> prefix (trimmedContent @ [10]) trimmedRest \<or>
       prefix (trimmedContent @ [13, 10]) trimmedRest))"

fun strip_mentions :: "(jchar \<Rightarrow> jchar) \<Rightarrow> jstring \<Rightarrow> nat \<Rightarrow> bool \<Rightarrow> jstring \<Rightarrow> jstring" where
  "strip_mentions canon name skip free [] = []"
| "strip_mentions canon name skip free (c # s) =
     (if skip > 0 then strip_mentions canon name (skip - 1) False s
      else if free \<and> mention_at canon name (c # s) then strip_mentions canon name (length name) False s
      else c # strip_mentions canon name 0 (mention_start c) s)"

definition emit_blanks :: "jstring \<Rightarrow> jstring" where
  "emit_blanks run = (if length run \<ge> 2 then [32] else run)"

fun collapse_blanks :: "jstring \<Rightarrow> jstring \<Rightarrow> jstring" where
  "collapse_blanks run [] = emit_blanks run"
| "collapse_blanks run (c # s) =
     (if c = 32 \<or> c = 9 then collapse_blanks (run @ [c]) s else emit_blanks run @ c # collapse_blanks [] s)"

definition expand_mentions ::
    "(jstring \<Rightarrow> jstring) \<Rightarrow> (jchar \<Rightarrow> jchar) \<Rightarrow> jstring \<Rightarrow> skill_record list \<Rightarrow> jstring" where
  "expand_mentions lower canon prompt skills =
     (let mentions = extractRoutineSkillMentions lower canon prompt (Some (map sk_name skills));
          found = List.map_filter (findSkillByName lower skills) mentions;
          blocks = map (\<lambda>s. formatForcedSkillPrompt (sk_name s) (sk_content s) None) found;
          remaining = foldl (\<lambda>r s. strip_mentions canon (sk_name s) 0 True r) prompt found;
          rest = trim (collapse_blanks [] remaining)
      in if blocks = [] then prompt
         else join_with [10, 10] (filter (\<lambda>t. t \<noteq> []) (blocks @ [rest])))"

definition expandSkillReferencesInPrompt ::
    "(jstring \<Rightarrow> jstring) \<Rightarrow> (jchar \<Rightarrow> jchar) \<Rightarrow> jstring \<Rightarrow> skill_record list \<Rightarrow> jstring" where
  "expandSkillReferencesInPrompt lower canon prompt skills =
     (case extractForcedSkillName prompt of
        None \<Rightarrow> expand_mentions lower canon prompt skills
      | Some (name, rest) \<Rightarrow>
          (case findSkillByName lower skills name of
             None \<Rightarrow> expand_mentions lower canon prompt skills
           | Some skill \<Rightarrow>
               if restAlreadyIncludesSkillContent rest (sk_content skill) then trim_start prompt
               else formatForcedSkillPrompt (sk_name skill) (sk_content skill) (Some rest)))"

end
