(* ===== verification/AgentSkillProps.thy ===== *)
theory AgentSkillProps
  imports AgentSkill
begin

text \<open>
  What reading and writing a skill promise: the files that are read back as they were written, and
  that a prompt which was expanded is not expanded again.
\<close>

subsection \<open>White space\<close>

lemma trim_start_Nil: "trim_start s = [] \<longleftrightarrow> (\<forall>c \<in> set s. is_ws c)"
  by (simp add: trim_start_def dropWhile_eq_Nil_conv)

lemma trim_Nil: "trim s = [] \<longleftrightarrow> (\<forall>c \<in> set s. is_ws c)"
proof
  assume t: "trim s = []"
  show "\<forall>c \<in> set s. is_ws c"
  proof (rule ccontr)
    assume "\<not> (\<forall>c \<in> set s. is_ws c)"
    then have ne: "trim_start s \<noteq> []" by (simp add: trim_start_Nil)
    then have "\<not> is_ws (hd (trim_start s))" by (simp add: trim_start_def hd_dropWhile)
    moreover have "\<forall>c \<in> set (trim_start s). is_ws c"
      using t by (simp add: trim_def trim_end_def dropWhile_eq_Nil_conv)
    ultimately show False using ne by auto
  qed
next
  assume "\<forall>c \<in> set s. is_ws c"
  then show "trim s = []" using trim_start_Nil [of s] by (simp add: trim_def trim_end_def)
qed

lemma trimmed_ends:
  assumes "trim v = v" and "v \<noteq> []" shows "\<not> is_ws (hd v)" and "\<not> is_ws (last v)"
  using trim_ends [of v] assms by simp_all

lemma trim_start_hd: "v = [] \<or> \<not> is_ws (hd v) \<Longrightarrow> trim_start v = v"
  by (cases v) (simp_all add: trim_start_def)

lemma ws_blank [simp]: "is_ws 32" "is_ws 10" by (simp_all add: is_ws_def)

lemma key_char_not_ws: "key_char c \<Longrightarrow> \<not> is_ws c"
  by (auto simp: key_char_def ascii_alnum_def ascii_lower_letter_def is_ws_def word_le_nat_alt)

lemma key_start_char: "key_start c \<Longrightarrow> key_char c"
  by (auto simp: key_start_def key_char_def ascii_alnum_def)

subsection \<open>Values that are read back\<close>

definition plain_text :: "jstring \<Rightarrow> bool" where
  "plain_text v \<longleftrightarrow>
     v \<noteq> [] \<and> trim v = v \<and> \<not> list_ex special_char v \<and> \<not> contains_sub (js '': '') v \<and>
     \<not> list_ex line_break_char v \<and> \<not> quoted 34 v \<and> \<not> quoted 39 v \<and>
     v \<noteq> js ''true'' \<and> v \<noteq> js ''false'' \<and> \<not> is_number_text v"

definition quotable :: "jstring \<Rightarrow> bool" where
  "quotable v \<longleftrightarrow> escape v = v \<and> \<not> list_ex line_break_char v"

definition quoted_text :: "jstring \<Rightarrow> bool" where
  "quoted_text v \<longleftrightarrow>
     (v = [] \<or> list_ex special_char v \<or> v \<noteq> trim v) \<and> \<not> contains_sub (js '': '') v \<and> quotable v"

definition block_value :: "jstring \<Rightarrow> bool" where
  "block_value v \<longleftrightarrow>
     (10 \<in> set v \<or> contains_sub (js '': '') v) \<and> 13 \<notin> set v \<and>
     (let core = strip_line_feeds v; lines = split_on 10 core in
      (\<forall>l \<in> set lines. l = [] \<or> trim l \<noteq> []) \<and> (\<exists>l \<in> set lines. l \<noteq> [] \<and> hd l \<noteq> 32) \<and>
      (trailing_line_feeds v \<ge> 2 \<longrightarrow> 10 \<notin> set core))"

definition restorable :: "jstring \<Rightarrow> bool" where
  "restorable v \<longleftrightarrow> plain_text v \<or> quoted_text v \<or> block_value v"

definition list_text :: "yaml \<Rightarrow> bool" where
  "list_text v \<longleftrightarrow> (case v of YText t \<Rightarrow> t \<noteq> [] \<and> 44 \<notin> set t \<and> quotable t | _ \<Rightarrow> False)"

lemma list_textE: "list_text v \<Longrightarrow> \<exists>t. v = YText t \<and> t \<noteq> [] \<and> 44 \<notin> set t \<and> quotable t"
  by (cases v) (simp_all add: list_text_def)

definition key_ok :: "jstring \<Rightarrow> bool" where
  "key_ok k \<longleftrightarrow> k \<noteq> [] \<and> key_start (hd k) \<and> list_all key_char k"

fun value_ok :: "(jstring \<Rightarrow> jstring) \<Rightarrow> yaml \<Rightarrow> bool" where
  "value_ok number (YText t) = restorable t"
| "value_ok number (YNum t) = (is_number_text t \<and> number t = t)"
| "value_ok number (YBool b) = True"
| "value_ok number (YList vs) = list_all list_text vs"
| "value_ok number _ = False"

subsection \<open>One line\<close>

lemma keyed_line:
  assumes "key_ok k" and "w = [] \<or> \<not> is_ws (hd w)" and "\<not> list_ex line_break_char w"
  shows "keyed (k @ 58 # 32 # w) = Some (k, w)"
proof -
  have k: "takeWhile key_char (k @ 58 # 32 # w) = k" "dropWhile key_char (k @ 58 # 32 # w) = 58 # 32 # w"
    using assms(1) by (auto simp: key_ok_def list_all_iff key_char_def ascii_alnum_def ascii_lower_letter_def)
  have "dropWhile is_ws (32 # w) = w" using assms(2) by (cases w) auto
  then have "rest_of_line (32 # w) = Some w" using assms(3) by (simp add: rest_of_line_def)
  then show ?thesis using assms(1) unfolding keyed_def k by (simp add: key_ok_def)
qed

lemma key_line_seen:
  assumes "key_ok k" shows "trim (k @ x) \<noteq> []" and "\<not> prefix (js ''#'') (trim_start (k @ x))" and "\<not> block_line (k @ x)"
proof -
  obtain c k' where k: "k = c # k'" and c: "key_start c" using assms by (cases k) (auto simp: key_ok_def)
  have ws: "\<not> is_ws c" using key_char_not_ws [OF key_start_char [OF c]] .
  then show ne: "trim (k @ x) \<noteq> []" by (auto simp: trim_Nil k)
  have "c \<noteq> 35" using c by (auto simp: key_start_def ascii_lower_letter_def)
  then show "\<not> prefix (js ''#'') (trim_start (k @ x))" using ws by (simp add: trim_start_def k js_def)
  show "\<not> block_line (k @ x)" using ws ne by (simp add: block_line_def indented_def k)
qed

lemma parse_key_line:
  assumes k: "key_ok k" and w: "w \<noteq> []" "\<not> is_ws (hd w)" "\<not> list_ex line_break_char w"
  shows "parseSimpleYamlObject number ((k @ 58 # 32 # w) # rest) result =
    (case parseYamlBlockScalarHeader w of
       Some header \<Rightarrow>
         parseSimpleYamlObject number (dropWhile block_line rest)
           (AList.update k (YText (decodeYamlBlockScalar (takeWhile block_line rest) header)) result)
     | None \<Rightarrow>
         parseSimpleYamlObject number rest
           (AList.update k (if hd w = 91 \<and> last w = 93 then inline_list number w else parseYamlScalar number w) result))"
proof -
  have kw: "keyed (k @ 58 # 32 # w) = Some (k, w)" by (rule keyed_line [OF k]) (use w in auto)
  have "\<not> indented (k @ 58 # 32 # w)" using key_line_seen(3) [OF k] by (simp add: block_line_def)
  with key_line_seen(1,2) [OF k, of "58 # 32 # w"] show ?thesis
    by (auto simp: kw w(1) split: option.split)
qed

lemma header_None: "w \<noteq> [] \<Longrightarrow> hd w \<noteq> 62 \<Longrightarrow> hd w \<noteq> 124 \<Longrightarrow> parseYamlBlockScalarHeader w = None"
  by (cases w) (simp_all add: parseYamlBlockScalarHeader_def)

text \<open>Texts in quotes.\<close>

lemma special_not_plain: "special_char 62" "special_char 124" "special_char 91"
  by (simp_all add: special_char_def js_def)

lemma colon_blank: "js '': '' = [58, 32]" "js ''  '' = [32, 32]" "js ''---'' = [45, 45, 45]" "js '']'' = [93]"
  "js '', '' = [44, 32]" "js '': ['' = [58, 32, 91]"
  by (simp_all add: js_def)

lemma quote_trimmed: "trim (34 # t @ [34]) = 34 # t @ [34]"
  by (rule trim_idem_if) (simp add: is_ws_def)

lemma scalar_quoted: "parseYamlScalar number (34 # t @ [34]) = YText t"
  by (simp add: parseYamlScalar_def quote_trimmed quoted_def Let_def)

lemma plain_single:
  assumes "key_ok k" and "plain_text v"
  shows "formatYamlLine k (YText v) = k @ 58 # 32 # v"
    and "parseSimpleYamlObject number ((k @ 58 # 32 # v) # rest) result =
      parseSimpleYamlObject number rest (AList.update k (YText v) result)"
proof -
  have v: "v \<noteq> []" "trim v = v" "\<not> list_ex line_break_char v" "\<not> list_ex special_char v"
    using assms(2) by (simp_all add: plain_text_def)
  have "10 \<notin> set v" using v(3) by (auto simp: list_ex_iff line_break_char_def)
  then show "formatYamlLine k (YText v) = k @ 58 # 32 # v"
    using assms(2) v by (simp add: plain_text_def colon_blank)
  have h: "hd v \<noteq> 62" "hd v \<noteq> 124" "hd v \<noteq> 91"
    using v(1,4) special_not_plain by (auto simp: list_ex_iff dest!: hd_in_set)
  have "parseYamlScalar number v = YText v"
    using assms(2) v(2) by (simp add: plain_text_def parseYamlScalar_def Let_def)
  then show "parseSimpleYamlObject number ((k @ 58 # 32 # v) # rest) result =
      parseSimpleYamlObject number rest (AList.update k (YText v) result)"
    using parse_key_line [OF assms(1) v(1) trimmed_ends(1) [OF v(2,1)] v(3)] header_None [OF v(1) h(1,2)] h(3) by simp
qed

lemma quoted_single:
  assumes "key_ok k" and "quoted_text v"
  shows "formatYamlLine k (YText v) = k @ 58 # 32 # 34 # v @ [34]"
    and "parseSimpleYamlObject number ((k @ 58 # 32 # 34 # v @ [34]) # rest) result =
      parseSimpleYamlObject number rest (AList.update k (YText v) result)"
proof -
  have v: "escape v = v" "\<not> list_ex line_break_char v" using assms(2) by (simp_all add: quoted_text_def quotable_def)
  have "10 \<notin> set v" using v(2) by (auto simp: list_ex_iff line_break_char_def)
  then show "formatYamlLine k (YText v) = k @ 58 # 32 # 34 # v @ [34]"
    using assms(2) v(1) by (auto simp: quoted_text_def colon_blank json_quote_def)
  have "\<not> list_ex line_break_char (34 # v @ [34])" using v(2) by (simp add: line_break_char_def)
  then show "parseSimpleYamlObject number ((k @ 58 # 32 # 34 # v @ [34]) # rest) result =
      parseSimpleYamlObject number rest (AList.update k (YText v) result)"
    using parse_key_line [OF assms(1), of "34 # v @ [34]" number rest result] header_None [of "34 # v @ [34]"]
      scalar_quoted [of number v] by (simp add: is_ws_def)
qed

text \<open>Numbers, truth values and lists of texts.\<close>

lemma number_text_chars:
  assumes "is_number_text t" and "c \<in> set t" shows "c = 45 \<or> c = 46 \<or> is_digit c"
proof -
  define u where "u = (if prefix (js ''-'') t then tl t else t)"
  define f where "f = dropWhile is_digit u"
  have f: "f = [] \<or> (hd f = 46 \<and> all_digits (tl f))"
    using assms(1) by (simp add: is_number_text_def u_def f_def Let_def)
  have "u = takeWhile is_digit u @ f" by (simp add: f_def)
  then have u: "set u = set (takeWhile is_digit u) \<union> set f" by (metis set_append)
  have "c = 46 \<or> is_digit c" if "c \<in> set f"
    using f that by (cases f) (auto simp: all_digits_def list_all_iff)
  then have "c = 46 \<or> is_digit c" if "c \<in> set u" using that u set_takeWhileD by fastforce
  moreover have "c = 45 \<or> c \<in> set u" using assms(2) by (cases t) (auto simp: js_def u_def)
  ultimately show ?thesis by blast
qed

lemma digit_not: "is_digit c \<Longrightarrow> \<not> is_ws c \<and> \<not> line_break_char c \<and> c \<noteq> 34 \<and> c \<noteq> 39 \<and> c \<noteq> 62 \<and> c \<noteq> 124 \<and> c \<noteq> 91 \<and> c \<noteq> 116 \<and> c \<noteq> 102 \<and> c \<noteq> 13 \<and> c \<noteq> 10"
  by (auto simp: is_digit_def is_ws_def line_break_char_def word_le_nat_alt)

lemma number_not_ws: "is_number_text t \<Longrightarrow> c \<in> set t \<Longrightarrow>
    \<not> is_ws c \<and> \<not> line_break_char c \<and> c \<noteq> 34 \<and> c \<noteq> 39 \<and> c \<noteq> 62 \<and> c \<noteq> 124 \<and> c \<noteq> 91 \<and> c \<noteq> 116 \<and> c \<noteq> 102 \<and> c \<noteq> 13 \<and> c \<noteq> 10"
  using number_text_chars [of t c] digit_not [of c] by (auto simp: is_ws_def line_break_char_def)

lemma number_not_Nil: "is_number_text t \<Longrightarrow> t \<noteq> []"
  by (auto simp: is_number_text_def)

lemma number_single:
  assumes "key_ok k" and "is_number_text t" and "number t = t"
  shows "parseSimpleYamlObject number ((k @ 58 # 32 # t) # rest) result =
    parseSimpleYamlObject number rest (AList.update k (YNum t) result)"
proof -
  note ne = number_not_Nil [OF assms(2)]
  note chars = number_not_ws [OF assms(2)]
  have h: "\<not> is_ws (hd t)" "hd t \<noteq> 34" "hd t \<noteq> 39" "hd t \<noteq> 62" "hd t \<noteq> 124" "hd t \<noteq> 91" "hd t \<noteq> 116" "hd t \<noteq> 102"
    using chars [OF hd_in_set [OF ne]] by simp_all
  have "trim t = t" by (rule trim_idem_if) (use chars hd_in_set [OF ne] last_in_set [OF ne] in blast)
  moreover have "t \<noteq> js ''true''" "t \<noteq> js ''false''" using h by (auto simp: js_def)
  ultimately have "parseYamlScalar number t = YNum t"
    using h assms(2,3) by (simp add: parseYamlScalar_def Let_def quoted_def)
  moreover have "\<not> list_ex line_break_char t" using chars by (auto simp: list_ex_iff)
  ultimately show ?thesis
    using parse_key_line [OF assms(1) ne h(1), of number rest result] header_None [OF ne h(4,5)] h(6) by simp
qed

lemma bool_single:
  assumes "key_ok k"
  shows "parseSimpleYamlObject number ((k @ 58 # 32 # (if b then js ''true'' else js ''false'')) # rest) result =
    parseSimpleYamlObject number rest (AList.update k (YBool b) result)"
proof -
  let ?w = "if b then js ''true'' else js ''false''"
  have w: "?w \<noteq> []" "\<not> is_ws (hd ?w)" "\<not> list_ex line_break_char ?w" "hd ?w \<noteq> 62" "hd ?w \<noteq> 124" "hd ?w \<noteq> 91"
    by (cases b; simp add: js_def is_ws_def line_break_char_def)+
  have "trim ?w = ?w" by (cases b; simp; code_simp)
  then have "parseYamlScalar number ?w = YBool b"
    by (cases b) (simp_all add: parseYamlScalar_def Let_def quoted_def, simp_all add: js_def)
  then show ?thesis
    using parse_key_line [OF assms w(1-3), of number rest result] header_None [OF w(1,4,5)] w(6) by simp
qed

lemma trim_space: "trim (32 # s) = trim s"
  by (simp add: trim_def trim_start_def)

lemma split_items:
  assumes "\<forall>t \<in> set ts. 44 \<notin> set t" and "ts \<noteq> []"
  shows "map trim (split_on 44 (join_with [44, 32] (map (\<lambda>t. 34 # t @ [34]) ts))) = map (\<lambda>t. 34 # t @ [34]) ts"
  using assms
proof (induction ts rule: induct_list012)
  case (2 t)
  then show ?case by (simp add: split_on_plain quote_trimmed)
next
  case (3 t u ts)
  let ?r = "join_with [44, 32] (map (\<lambda>t. 34 # t @ [34]) (u # ts))"
  have "split_on 44 ((34 # t @ [34]) @ 44 # 32 # ?r) = (34 # t @ [34]) # split_on 44 (32 # ?r)"
    by (rule split_on_append) (use 3(3) in simp)
  moreover have "map trim (split_on 44 (32 # ?r)) = map trim (split_on 44 ?r)"
    by (cases "split_on 44 ?r") (simp_all add: trim_space)
  ultimately show ?case using 3 by (simp add: quote_trimmed)
qed simp

lemma list_single:
  assumes "key_ok k" and "list_all list_text vs"
  defines "w \<equiv> 91 # join_with [44, 32] (map (\<lambda>v. json_quote (the (plain_item v))) vs) @ [93]"
  shows "formatYamlLine k (YList vs) = k @ 58 # 32 # w"
    and "parseSimpleYamlObject number ((k @ 58 # 32 # w) # rest) result =
      parseSimpleYamlObject number rest (AList.update k (YList vs) result)"
    and "10 \<notin> set w \<and> 13 \<notin> set w"
proof -
  define ts where "ts = map (\<lambda>v. the (plain_item v)) vs"
  have vs: "vs = map YText ts"
    unfolding ts_def map_map by (rule map_idI [symmetric]) (use assms(2) in \<open>auto simp: list_all_iff dest!: list_textE\<close>)
  have ts: "\<forall>t \<in> set ts. t \<noteq> [] \<and> 44 \<notin> set t \<and> escape t = t \<and> \<not> list_ex line_break_char t"
    using assms(2) by (auto simp: vs list_all_iff quotable_def dest!: list_textE)
  have w: "w = 91 # join_with [44, 32] (map (\<lambda>t. 34 # t @ [34]) ts) @ [93]"
    unfolding w_def vs using ts by (simp add: o_def json_quote_def cong: map_cong)
  show "formatYamlLine k (YList vs) = k @ 58 # 32 # w"
    using assms(2) by (auto simp: w_def colon_blank list_all_iff dest!: list_textE)
  have nobreak: "\<not> list_ex line_break_char (join_with [44, 32] (map (\<lambda>t. 34 # t @ [34]) ts))"
    using ts by (induction ts rule: induct_list012) (auto simp: line_break_char_def)
  then have br: "\<not> list_ex line_break_char w" by (simp add: w line_break_char_def)
  then show "10 \<notin> set w \<and> 13 \<notin> set w" by (auto simp: list_ex_iff line_break_char_def)
  have "inline_list number w = YList (map YText ts)"
  proof (cases "ts = []")
    case True
    have "parseYamlScalar number [] = YText []"
      by (simp add: parseYamlScalar_def quoted_def js_def is_number_text_def trim_def trim_start_def trim_end_def)
    then show ?thesis by (simp add: w True inline_list_def trim_def trim_start_def trim_end_def)
  next
    case False
    have "butlast (tl w) = join_with [44, 32] (map (\<lambda>t. 34 # t @ [34]) ts)" by (simp add: w butlast_append)
    moreover have "map trim (split_on 44 (join_with [44, 32] (map (\<lambda>t. 34 # t @ [34]) ts))) = map (\<lambda>t. 34 # t @ [34]) ts"
      by (rule split_items) (use ts False in auto)
    moreover have "map (\<lambda>part. parseYamlScalar number (trim part)) X = map (parseYamlScalar number) (map trim X)" for X
      by simp
    ultimately have "map (\<lambda>part. parseYamlScalar number (trim part)) (split_on 44 (butlast (tl w))) =
        map (parseYamlScalar number) (map (\<lambda>t. 34 # t @ [34]) ts)"
      by (simp only:)
    then have "map (\<lambda>part. parseYamlScalar number (trim part)) (split_on 44 (butlast (tl w))) = map YText ts"
      by (simp add: scalar_quoted o_def)
    then show ?thesis using ts by (auto simp: inline_list_def filter_id_conv)
  qed
  then show "parseSimpleYamlObject number ((k @ 58 # 32 # w) # rest) result =
      parseSimpleYamlObject number rest (AList.update k (YList vs) result)"
    using parse_key_line [OF assms(1), of w number rest result] header_None [of w] br
    by (simp add: w vs is_ws_def)
qed

subsection \<open>Block scalars\<close>

lemma join_split [simp]: "join_with [c] (split_on c s) = s"
proof (induction s)
  case (Cons x s)
  obtain y ys where "split_on c s = y # ys" by (cases "split_on c s") simp_all
  with Cons show ?case by (cases ys) auto
qed simp

lemma split_on_two: "split_on c (s @ c # t) = split_on c s @ split_on c t"
  by (induction s) (auto split: list.splits)

lemma split_join_all: "ls \<noteq> [] \<Longrightarrow> split_on 10 (join_with [10] ls) = concat (map (split_on 10) ls)"
  by (induction ls rule: induct_list012) (simp_all add: split_on_two)

lemma join_replicate: "join_with [10] (s # replicate n []) = s @ replicate n 10"
  by (induction n arbitrary: s) simp_all

lemma takeWhile_replicate: "P x \<Longrightarrow> \<not> P y \<Longrightarrow> takeWhile P (replicate n x @ [y]) = replicate n x"
  by (induction n) simp_all

lemma dropWhile_replicate: "P x \<Longrightarrow> dropWhile P (replicate n x @ r) = dropWhile P r"
  by (induction n) simp_all

text \<open>What a text ends in.\<close>

lemma core_and_feeds: "v = strip_line_feeds v @ replicate (trailing_line_feeds v) 10"
proof -
  have "takeWhile (\<lambda>c. c = 10) (rev v) = replicate (trailing_line_feeds v) 10"
    unfolding trailing_line_feeds_def by (rule replicate_eqI) (auto dest: set_takeWhileD)
  then have "rev v = replicate (trailing_line_feeds v) 10 @ dropWhile (\<lambda>c. c = 10) (rev v)"
    by (metis takeWhile_dropWhile_id)
  then show ?thesis unfolding strip_line_feeds_def by (metis rev_append rev_replicate rev_rev_ident)
qed

lemma strip_feeds_replicate: "strip_line_feeds (s @ replicate n 10) = strip_line_feeds s"
  by (simp add: strip_line_feeds_def dropWhile_replicate)

lemma strip_feeds_idem [simp]: "strip_line_feeds (strip_line_feeds v) = strip_line_feeds v"
  using strip_feeds_replicate core_and_feeds by metis

lemma core_parts:
  defines "n v \<equiv> trailing_line_feeds v" and "core v \<equiv> strip_line_feeds v"
  shows "n v = 0 \<Longrightarrow> core v = v" and "n v = 1 \<Longrightarrow> butlast v = core v" and "take (length v - n v) v = core v"
proof -
  have v: "v = core v @ replicate (n v) 10" unfolding n_def core_def by (rule core_and_feeds)
  show "n v = 0 \<Longrightarrow> core v = v" using v by simp
  show "n v = 1 \<Longrightarrow> butlast v = core v" using v by (metis One_nat_def butlast_snoc replicate.simps replicate_0)
  show "take (length v - n v) v = core v"
    by (metis v append_eq_conv_conj diff_add_inverse2 length_append length_replicate)
qed

text \<open>The lines of a block, indented by two.\<close>

definition block_lines :: "jstring list \<Rightarrow> jstring list" where
  "block_lines ls = map (\<lambda>l. 32 # 32 # l) ls"

definition readable_lines :: "jstring list \<Rightarrow> bool" where
  "readable_lines ls \<longleftrightarrow>
     (\<forall>l \<in> set ls. l = [] \<or> trim l \<noteq> []) \<and> (\<exists>l \<in> set ls. l \<noteq> [] \<and> hd l \<noteq> 32)"

lemma trim_two: "trim (32 # 32 # l) = trim l"
  by (simp add: trim_space)

lemma spaces_two: "leadingSpaces (32 # 32 # l) = 2 + leadingSpaces l"
  by (simp add: leadingSpaces_def)

lemma block_indent_kept:
  "foldl (\<lambda>indent line. if trim line = [] then indent
      else if indent = 0 \<or> leadingSpaces line < indent then leadingSpaces line else indent) 2 (block_lines ls) = 2"
  by (induction ls) (simp_all add: block_lines_def spaces_two)

lemma block_indent_found:
  assumes "\<exists>l \<in> set ls. trim l \<noteq> [] \<and> l \<noteq> [] \<and> hd l \<noteq> 32" and "i = 0 \<or> 2 \<le> i"
  shows "foldl (\<lambda>indent line. if trim line = [] then indent
      else if indent = 0 \<or> leadingSpaces line < indent then leadingSpaces line else indent) i (block_lines ls) = 2"
  using assms
proof (induction ls arbitrary: i)
  case (Cons l ls)
  show ?case
  proof (cases "trim l \<noteq> [] \<and> leadingSpaces l = 0")
    case True
    with Cons.prems(2) block_indent_kept [of ls] show ?thesis
      by (auto simp: block_lines_def trim_two spaces_two)
  next
    case False
    then have "\<not> (trim l \<noteq> [] \<and> l \<noteq> [] \<and> hd l \<noteq> 32)" by (cases l) (auto simp: leadingSpaces_def)
    with Cons.prems(1) have "\<exists>l \<in> set ls. trim l \<noteq> [] \<and> l \<noteq> [] \<and> hd l \<noteq> 32" by auto
    from Cons.IH [OF this] Cons.prems(2) show ?thesis
      by (auto simp: block_lines_def trim_two spaces_two)
  qed
qed simp

lemma block_decoded:
  assumes "readable_lines ls"
  shows "block_indent (block_lines ls) = 2" and "map (content_line 2) (block_lines ls) = ls"
proof -
  have "\<exists>l \<in> set ls. trim l \<noteq> [] \<and> l \<noteq> [] \<and> hd l \<noteq> 32" using assms by (auto simp: readable_lines_def)
  from block_indent_found [OF this, of 0] show "block_indent (block_lines ls) = 2" by (simp add: block_indent_def)
  have "content_line 2 (32 # 32 # l) = l" if "l \<in> set ls" for l
  proof (cases "l = []")
    case False
    then have "trim l \<noteq> []" using assms that by (auto simp: readable_lines_def)
    then show ?thesis by (simp add: content_line_def trim_two spaces_two eval_nat_numeral)
  qed (simp add: content_line_def trim_def trim_start_def trim_end_def)
  then show "map (content_line 2) (block_lines ls) = ls" by (auto simp: block_lines_def o_def intro: map_idI)
qed

lemma block_taken:
  assumes "rest = [] \<or> \<not> block_line (hd rest)"
  shows "takeWhile block_line (block_lines ls @ rest) = block_lines ls"
    and "dropWhile block_line (block_lines ls @ rest) = rest"
proof -
  have "\<forall>l \<in> set (block_lines ls). block_line l" by (auto simp: block_lines_def block_line_def indented_def)
  moreover have "takeWhile block_line rest = []" "dropWhile block_line rest = rest" using assms by (cases rest; auto)+
  ultimately show "takeWhile block_line (block_lines ls @ rest) = block_lines ls"
    "dropWhile block_line (block_lines ls @ rest) = rest" by simp_all
qed

text \<open>A text in a block is what is read back, with as many line feeds at its end.\<close>

definition block_header_of :: "nat \<Rightarrow> jstring \<times> block_header" where
  "block_header_of trailing =
     (let header = (\<lambda>chomp. \<lparr>bh_folded = False, bh_chomp = chomp, bh_indent = None\<rparr>) in
      if trailing = 0 then (js ''|-'', header Strip) else if trailing = 1 then (js ''|'', header Clip)
      else (js ''|+'', header Keep))"

definition lines_of_block :: "jstring \<Rightarrow> jstring list" where
  "lines_of_block v =
     (if trailing_line_feeds v \<ge> 2 then strip_line_feeds v # replicate (trailing_line_feeds v - 1) []
      else split_on 10 (strip_line_feeds v))"

lemma format_block:
  assumes "block_value v"
  shows "formatYamlLine k (YText v) =
    (k @ 58 # 32 # fst (block_header_of (trailing_line_feeds v))) @ 10 # join_with [10] (block_lines (lines_of_block v))"
  using assms core_parts(1,2) [of v] core_parts(3) [of v]
  by (auto simp: block_value_def Let_def formatYamlBlockScalar_def block_header_of_def lines_of_block_def
      block_lines_def colon_blank)

lemma header_read:
  "parseYamlBlockScalarHeader (fst (block_header_of n)) = Some (snd (block_header_of n))"
proof -
  have "parseYamlBlockScalarHeader (js ''|-'') = Some \<lparr>bh_folded = False, bh_chomp = Strip, bh_indent = None\<rparr>"
    "parseYamlBlockScalarHeader (js ''|'') = Some \<lparr>bh_folded = False, bh_chomp = Clip, bh_indent = None\<rparr>"
    "parseYamlBlockScalarHeader (js ''|+'') = Some \<lparr>bh_folded = False, bh_chomp = Keep, bh_indent = None\<rparr>"
    by code_simp+
  then show ?thesis by (simp add: block_header_of_def Let_def)
qed

lemma block_core:
  assumes "block_value v"
  shows "readable_lines (split_on 10 (strip_line_feeds v))" and "strip_line_feeds v \<noteq> []"
    and "trailing_line_feeds v \<ge> 2 \<Longrightarrow> 10 \<notin> set (strip_line_feeds v)"
  using assms by (auto simp: block_value_def readable_lines_def Let_def)

lemma block_readable:
  assumes "block_value v" shows "readable_lines (lines_of_block v)"
proof (cases "trailing_line_feeds v \<ge> 2")
  case True
  then have "split_on 10 (strip_line_feeds v) = [strip_line_feeds v]"
    using block_core(3) [OF assms] by (simp add: split_on_plain)
  with block_core(1) [OF assms] show ?thesis by (auto simp: readable_lines_def lines_of_block_def)
qed (use block_core(1) [OF assms] in \<open>simp add: lines_of_block_def\<close>)

lemma block_read:
  assumes "block_value v"
  shows "decodeYamlBlockScalar (block_lines (lines_of_block v)) (snd (block_header_of (trailing_line_feeds v))) = v"
proof -
  let ?n = "trailing_line_feeds v" and ?core = "strip_line_feeds v"
  note dec = block_decoded [OF block_readable [OF assms]]
  have v: "v = ?core @ replicate ?n 10" by (rule core_and_feeds)
  consider "?n = 0" | "?n = 1" | "?n \<ge> 2" by linarith
  then show ?thesis
  proof cases
    case 1
    then show ?thesis using v dec by (simp add: decodeYamlBlockScalar_def block_header_of_def lines_of_block_def Let_def)
  next
    case 2
    then show ?thesis using v dec block_core(2) [OF assms]
      by (simp add: decodeYamlBlockScalar_def block_header_of_def lines_of_block_def Let_def)
  next
    case 3
    then have ls: "lines_of_block v = ?core # replicate (?n - 1) []" by (simp add: lines_of_block_def)
    have join: "join_with [10] (lines_of_block v) = ?core @ replicate (?n - 1) 10"
      unfolding ls by (rule join_replicate)
    have tw: "takeWhile (\<lambda>l. l = []) (rev (lines_of_block v)) = replicate (?n - 1) []"
      using block_core(2) [OF assms] by (simp add: ls takeWhile_replicate)
    have "?n - 1 \<noteq> 0" using 3 by simp
    then have "decodeYamlBlockScalar (block_lines (lines_of_block v)) (snd (block_header_of ?n)) =
        ?core @ 10 # replicate (?n - 1) 10"
      using 3 dec join tw by (simp add: decodeYamlBlockScalar_def block_header_of_def Let_def strip_feeds_replicate)
    moreover have "10 # replicate (?n - 1) 10 = replicate ?n (10 :: jchar)" using 3 by (cases ?n) simp_all
    ultimately show ?thesis using v by metis
  qed
qed

subsection \<open>Any field\<close>

definition plain_lines :: "jstring list \<Rightarrow> bool" where
  "plain_lines ls \<longleftrightarrow> (\<forall>l \<in> set ls. 10 \<notin> set l \<and> 13 \<notin> set l \<and> \<not> prefix (js ''---'') l)"

definition field_lines :: "(jstring \<Rightarrow> jstring) \<Rightarrow> jstring \<Rightarrow> yaml \<Rightarrow> jstring list \<Rightarrow> bool" where
  "field_lines number k v ls \<longleftrightarrow>
     formatYamlLine k v = join_with [10] ls \<and> plain_lines ls \<and> ls \<noteq> [] \<and> \<not> block_line (hd ls) \<and>
     (\<forall>rest result. rest = [] \<or> \<not> block_line (hd rest) \<longrightarrow>
        parseSimpleYamlObject number (ls @ rest) result = parseSimpleYamlObject number rest (AList.update k v result))"

lemma key_plain:
  assumes "key_ok k" and "10 \<notin> set x" and "13 \<notin> set x" shows "plain_lines [k @ x]"
proof -
  have chars: "key_char c" if "c \<in> set k" for c using assms(1) that by (simp add: key_ok_def list_all_iff)
  have "10 \<notin> set k" "13 \<notin> set k" using chars [of 10] chars [of 13] by (auto simp: key_char_def ascii_alnum_def ascii_lower_letter_def)
  moreover have "\<not> prefix (js ''---'') (k @ x)"
    using assms(1) by (cases k) (auto simp: key_ok_def colon_blank key_start_def ascii_lower_letter_def)
  ultimately show ?thesis using assms(2,3) by (simp add: plain_lines_def)
qed

lemma single_field:
  assumes "key_ok k" and "formatYamlLine k v = k @ x" and "10 \<notin> set x" and "13 \<notin> set x"
    and "\<And>rest result. parseSimpleYamlObject number ((k @ x) # rest) result =
      parseSimpleYamlObject number rest (AList.update k v result)"
  shows "field_lines number k v [k @ x]"
  using assms(2,5) key_plain [OF assms(1,3,4)] key_line_seen(3) [OF assms(1)] by (simp add: field_lines_def)

lemma quotable_plain: "quotable t \<Longrightarrow> 10 \<notin> set t \<and> 13 \<notin> set t"
  by (auto simp: quotable_def list_ex_iff line_break_char_def)

lemma block_field:
  assumes "key_ok k" and "block_value v"
  shows "\<exists>ls. field_lines number k (YText v) ls"
proof -
  let ?head = "k @ 58 # 32 # fst (block_header_of (trailing_line_feeds v))"
  let ?ls = "?head # block_lines (lines_of_block v)"
  have ind: "fst (block_header_of n) \<noteq> []" "\<not> is_ws (hd (fst (block_header_of n)))"
    "\<not> list_ex line_break_char (fst (block_header_of n))" "10 \<notin> set (fst (block_header_of n))"
    "13 \<notin> set (fst (block_header_of n))" for n
    by (simp_all add: block_header_of_def js_def is_ws_def line_break_char_def)
  have core: "set (strip_line_feeds v) \<subseteq> set v" by (metis core_and_feeds set_append Un_upper1)
  have ls: "10 \<notin> set l \<and> 13 \<notin> set l" if "l \<in> set (lines_of_block v)" for l
    using that core assms(2) block_core(3) [OF assms(2)] split_on_parts [of l 10 "strip_line_feeds v"]
      split_on_chars [of l 10 "strip_line_feeds v"]
    by (auto simp: lines_of_block_def block_value_def split: if_splits)
  have ne: "lines_of_block v \<noteq> []" by (simp add: lines_of_block_def)
  have "plain_lines ?ls"
    using key_plain [OF assms(1), of "58 # 32 # fst (block_header_of (trailing_line_feeds v))"] ind ls
    by (auto simp: plain_lines_def block_lines_def colon_blank)
  moreover have "formatYamlLine k (YText v) = join_with [10] ?ls"
    using format_block [OF assms(2), of k] ne by (cases "lines_of_block v") (simp_all add: block_lines_def)
  moreover have "parseSimpleYamlObject number (?ls @ rest) result =
      parseSimpleYamlObject number rest (AList.update k (YText v) result)"
    if "rest = [] \<or> \<not> block_line (hd rest)" for rest result
    using parse_key_line [OF assms(1) ind(1-3), of number _ "block_lines (lines_of_block v) @ rest" result]
    by (simp add: header_read block_taken [OF that] block_read [OF assms(2)])
  ultimately have "field_lines number k (YText v) ?ls"
    using key_line_seen(3) [OF assms(1)] by (simp add: field_lines_def)
  then show ?thesis by blast
qed

lemma any_field:
  assumes "key_ok k" and "value_ok number v"
  shows "\<exists>ls. field_lines number k v ls"
proof (cases v)
  case (YText t)
  with assms(2) consider "plain_text t" | "quoted_text t" | "block_value t" by (auto simp: restorable_def)
  then show ?thesis
  proof cases
    case 1
    then have "10 \<notin> set t" "13 \<notin> set t" by (auto simp: plain_text_def list_ex_iff line_break_char_def)
    with single_field [OF assms(1) plain_single(1) [OF assms(1) 1] _ _ plain_single(2) [OF assms(1) 1]] YText
    show ?thesis by auto
  next
    case 2
    then have "10 \<notin> set t" "13 \<notin> set t" using quotable_plain by (auto simp: quoted_text_def)
    with single_field [OF assms(1) quoted_single(1) [OF assms(1) 2] _ _ quoted_single(2) [OF assms(1) 2]] YText
    show ?thesis by auto
  next
    case 3
    with block_field [OF assms(1)] YText show ?thesis by blast
  qed
next
  case (YNum t)
  with assms(2) have t: "is_number_text t" "number t = t" by simp_all
  then have "10 \<notin> set t" "13 \<notin> set t" using number_not_ws by blast+
  with single_field [OF assms(1) _ _ _ number_single [of k t number, OF assms(1) t]] YNum
  show ?thesis by (auto simp: colon_blank)
next
  case (YBool b)
  let ?w = "if b then js ''true'' else js ''false''"
  have "10 \<notin> set ?w" "13 \<notin> set ?w" by (simp_all add: js_def)
  with single_field [OF assms(1) _ _ _ bool_single [OF assms(1)]] YBool
  show ?thesis by (auto simp: colon_blank)
next
  case (YList vs)
  with assms(2) have vs: "list_all list_text vs" by simp
  note l = list_single [OF assms(1) vs]
  from single_field [OF assms(1) l(1) _ _ l(2)] l(3) YList show ?thesis by auto
qed (use assms(2) in simp_all)

subsection \<open>The front matter\<close>

lemma join_append_lf:
  "ls \<noteq> [] \<Longrightarrow> ms \<noteq> [] \<Longrightarrow> join_with [10] (ls @ ms) = join_with [10] ls @ 10 # join_with [10] ms"
proof (induction ls rule: induct_list012)
  case (2 l)
  then show ?case by (cases ms) simp_all
qed simp_all

lemma field_appended: "k \<notin> fst ` set al \<Longrightarrow> AList.update k v al = al @ [(k, v)]"
  by (induction al) auto

lemma fold_update:
  "distinct (map fst (acc @ fs)) \<Longrightarrow> fold (\<lambda>(k, v). AList.update k v) fs acc = acc @ fs"
  by (induction fs arbitrary: acc) (auto simp: field_appended)

lemma fields_read:
  assumes "\<forall>(k, v) \<in> set fs. key_ok k \<and> value_ok number v"
  shows "\<exists>ls. join_with [10] (map (\<lambda>(k, v). formatYamlLine k v) fs) = join_with [10] ls \<and> plain_lines ls \<and>
    (fs = [] \<longleftrightarrow> ls = []) \<and> (ls \<noteq> [] \<longrightarrow> \<not> block_line (hd ls)) \<and>
    (\<forall>result. parseSimpleYamlObject number ls result = Inr (fold (\<lambda>(k, v). AList.update k v) fs result))"
  using assms
proof (induction fs)
  case Nil
  show ?case by (rule exI [of _ "[]"]) (simp add: plain_lines_def)
next
  case (Cons f fs)
  obtain k v where f: "f = (k, v)" by (cases f)
  obtain ls where ls: "field_lines number k v ls" using any_field [of k number v] Cons.prems f by auto
  obtain ms where ms: "join_with [10] (map (\<lambda>(k, v). formatYamlLine k v) fs) = join_with [10] ms" "plain_lines ms"
    "fs = [] \<longleftrightarrow> ms = []" "ms \<noteq> [] \<longrightarrow> \<not> block_line (hd ms)"
    "\<forall>result. parseSimpleYamlObject number ms result = Inr (fold (\<lambda>(k, v). AList.update k v) fs result)"
    using Cons by auto
  have "join_with [10] (map (\<lambda>(k, v). formatYamlLine k v) (f # fs)) = join_with [10] (ls @ ms)"
  proof (cases "fs = []")
    case True
    with ms(3) ls show ?thesis by (simp add: f field_lines_def)
  next
    case False
    then have "join_with [10] (map (\<lambda>(k, v). formatYamlLine k v) (f # fs)) =
        formatYamlLine k v @ 10 # join_with [10] (map (\<lambda>(k, v). formatYamlLine k v) fs)"
      by (cases fs) (simp_all add: f)
    with ms(1,3) ls False show ?thesis by (simp add: field_lines_def join_append_lf)
  qed
  moreover have "plain_lines (ls @ ms)" using ls ms(2) by (auto simp: field_lines_def plain_lines_def)
  moreover have "parseSimpleYamlObject number (ls @ ms) result =
      Inr (fold (\<lambda>(k, v). AList.update k v) (f # fs) result)" for result
    using ls ms(4,5) by (auto simp: field_lines_def f)
  ultimately show ?case
    using ls by (intro exI [of _ "ls @ ms"]) (auto simp: field_lines_def)
qed

text \<open>The fences around it.\<close>

fun no_fence :: "jstring \<Rightarrow> bool" where
  "no_fence [] = True"
| "no_fence (c # s) = ((c = 10 \<longrightarrow> \<not> prefix (js ''---'') s) \<and> c \<noteq> 13 \<and> no_fence s)"

lemma dashes_in_line: "prefix (js ''---'') (t @ 10 # r) \<Longrightarrow> prefix (js ''---'') t"
  by (cases t; cases "tl t"; cases "tl (tl t)") (auto simp: colon_blank)

lemma fence_close_None: "c \<noteq> 13 \<Longrightarrow> c = 10 \<longrightarrow> \<not> prefix (js ''---'') s \<Longrightarrow> fence_close (c # s) = None"
  by (auto simp: fence_close_def optional_def)

lemma fence_text_closed:
  "no_fence t \<Longrightarrow> fence_text (t @ 10 # js ''---'' @ 10 # b) = Some (t, b)"
proof (induction t)
  case Nil
  show ?case by (simp add: fence_close_def optional_def colon_blank)
next
  case (Cons c t)
  then have "fence_close (c # t @ 10 # js ''---'' @ 10 # b) = None"
    using dashes_in_line [of t "js ''---'' @ 10 # b"] by (intro fence_close_None) auto
  with Cons show ?case by simp
qed

lemma no_fence_line: "10 \<notin> set l \<Longrightarrow> 13 \<notin> set l \<Longrightarrow> no_fence l"
  by (induction l) auto

lemma no_fence_append:
  "10 \<notin> set l \<Longrightarrow> 13 \<notin> set l \<Longrightarrow> \<not> prefix (js ''---'') r \<Longrightarrow> no_fence r \<Longrightarrow> no_fence (l @ 10 # r)"
  by (induction l) auto

lemma plain_lines_no_fence: "plain_lines ls \<Longrightarrow> no_fence (join_with [10] ls)"
proof (induction ls rule: induct_list012)
  case (2 l)
  then show ?case by (simp add: plain_lines_def no_fence_line)
next
  case (3 l m ls)
  have "\<not> prefix (js ''---'') m" using 3(3) by (simp add: plain_lines_def)
  then have "\<not> prefix (js ''---'') (join_with [10] (m # ls))"
    using dashes_in_line [of m "join_with [10] ls"] by (cases ls) auto
  moreover have "no_fence (join_with [10] (m # ls))" using 3 by (simp add: plain_lines_def)
  ultimately show ?case using 3(3) no_fence_append by (simp add: plain_lines_def)
qed simp

lemma plain_lines_split:
  assumes "plain_lines ls" and "ls \<noteq> []" shows "split_lines (join_with [10] ls) = ls"
proof -
  have "split_on 10 (join_with [10] ls) = ls" using assms by (intro split_join_lf) (auto simp: plain_lines_def)
  moreover have "strip_cr l = l" if "l \<in> set ls" for l
    using assms(1) that unfolding plain_lines_def strip_cr_def by (metis last_in_set)
  then have "map strip_cr (butlast ls) = butlast ls" by (intro map_idI) (blast dest: in_set_butlastD)
  ultimately show ?thesis using assms(2) by (simp add: split_lines_def Let_def)
qed

text \<open>The order of the fields.\<close>

lemma set_insert_by [simp]: "set (insert_by le x ys) = insert x (set ys)"
  by (induction ys) auto

lemma set_sort_by [simp]: "set (sort_by le xs) = set xs"
  by (induction xs) (auto simp: sort_by_def)

lemma distinct_insert_by: "distinct (map f (insert_by le x ys)) \<longleftrightarrow> distinct (map f (x # ys))"
  by (induction ys) auto

lemma distinct_sort_by: "distinct (map f (sort_by le xs)) \<longleftrightarrow> distinct (map f xs)"
proof (induction xs)
  case (Cons x xs)
  have "sort_by le (x # xs) = insert_by le x (sort_by le xs)" by (simp add: sort_by_def)
  moreover have "f ` set (sort_by le xs) = f ` set xs" by simp
  ultimately show ?case using Cons by (simp add: distinct_insert_by)
qed (simp add: sort_by_def)

definition linear_order :: "('a \<Rightarrow> 'a \<Rightarrow> bool) \<Rightarrow> bool" where
  "linear_order le \<longleftrightarrow> (\<forall>a b. le a b \<or> le b a) \<and> (\<forall>a b c. le a b \<longrightarrow> le b c \<longrightarrow> le a c)"

lemma sorted_insert_by: "linear_order le \<Longrightarrow> sorted_wrt le ys \<Longrightarrow> sorted_wrt le (insert_by le x ys)"
  by (induction ys) (auto simp: linear_order_def)

lemma sorted_sort_by: "linear_order le \<Longrightarrow> sorted_wrt le (sort_by le xs)"
  by (induction xs) (simp_all add: sort_by_def sorted_insert_by)

lemma sort_by_sorted: "sorted_wrt le xs \<Longrightarrow> sort_by le xs = xs"
proof (induction xs)
  case (Cons x xs)
  then show ?case by (cases xs) (simp_all add: sort_by_def)
qed (simp add: sort_by_def)

lemma key_le_linear: "linear_order leq \<Longrightarrow> linear_order (\<lambda>a b. key_le leq (fst a) (fst b))"
  unfolding linear_order_def key_le_def by (smt (verit) not_less_iff_gr_or_eq order_less_trans)

subsection \<open>A file is read back\<close>

definition fields_ok :: "(jstring \<Rightarrow> jstring) \<Rightarrow> (jstring \<times> yaml) list \<Rightarrow> bool" where
  "fields_ok number fs \<longleftrightarrow> distinct (map fst fs) \<and> (\<forall>(k, v) \<in> set fs. key_ok k \<and> value_ok number v)"

lemma name_keys: "key_ok (js ''name'')" "key_ok (js ''description'')"
  by code_simp+

lemma merged_ok:
  assumes "fields_ok number fs" and "restorable n" and "restorable d"
  shows "fields_ok number (merged_fields leq n d fs)"
    and "map_of (merged_fields leq n d fs) (js ''name'') = Some (YText n)"
    and "map_of (merged_fields leq n d fs) (js ''description'') = Some (YText d)"
    and "merged_fields leq n d fs \<noteq> []"
proof -
  let ?u = "AList.update (js ''description'') (YText d) (AList.update (js ''name'') (YText n) fs)"
  have du: "distinct (map fst ?u)" using assms(1) by (simp add: fields_ok_def distinct_update)
  have dm: "distinct (map fst (merged_fields leq n d fs))" using du by (simp add: merged_fields_def distinct_sort_by)
  have sm: "set (merged_fields leq n d fs) = set ?u" by (simp add: merged_fields_def)
  have "map_of (merged_fields leq n d fs) = map_of ?u" using map_of_inject_set [OF dm du] sm by simp
  then show "map_of (merged_fields leq n d fs) (js ''name'') = Some (YText n)"
    and "map_of (merged_fields leq n d fs) (js ''description'') = Some (YText d)"
    by (simp_all add: update_conv)
  then show "merged_fields leq n d fs \<noteq> []" by auto
  have "key_ok k \<and> value_ok number v" if "(k, v) \<in> set ?u" for k v
  proof -
    have "map_of ?u k = Some v" using that du by simp
    then show ?thesis
      using assms name_keys map_of_SomeD [of fs k v] by (auto simp: update_conv fields_ok_def split: if_splits)
  qed
  then show "fields_ok number (merged_fields leq n d fs)"
    using dm unfolding fields_ok_def sm by blast
qed

lemma frontmatter_read:
  assumes "fields_ok number fs" and "fs \<noteq> []"
  shows "\<exists>t. join_with [10] (map (\<lambda>(k, v). formatYamlLine k v) fs) = t \<and> no_fence t \<and>
    parseSimpleYamlObject number (split_lines t) [] = Inr fs"
proof -
  obtain ls where ls: "join_with [10] (map (\<lambda>(k, v). formatYamlLine k v) fs) = join_with [10] ls" "plain_lines ls"
    "ls \<noteq> []" "parseSimpleYamlObject number ls [] = Inr (fold (\<lambda>(k, v). AList.update k v) fs [])"
    using fields_read [of fs number] assms by (auto simp: fields_ok_def)
  moreover have "fold (\<lambda>(k, v). AList.update k v) fs [] = fs"
    using fold_update [of "[]" fs] assms(1) by (simp add: fields_ok_def)
  ultimately show ?thesis using plain_lines_no_fence plain_lines_split by simp
qed

lemma no_leading_lf: "strip_line_break b = b \<Longrightarrow> \<not> prefix [10] b"
  by (cases b) (auto simp: strip_line_break_def optional_def Let_def)

lemma built_file_read:
  fixes leq :: "jstring \<Rightarrow> jstring \<Rightarrow> bool"
  assumes fields: "fields_ok number fs" and n: "restorable (trim name)" "restorable (trim description)"
    and c: "check_fields (trim name) (trim description) = None" and body: "strip_line_break body = body"
  defines "m \<equiv> merged_fields leq (trim name) (trim description) fs"
  shows "\<exists>md. buildSkillMd leq name description body fs = Inr md \<and>
    parseSkillMd number md = Inr \<lparr>ps_name = trim name, ps_description = trim description, ps_body = body,
      ps_frontmatter = m\<rparr>"
proof -
  note m = merged_ok [OF fields n, of leq, folded m_def]
  obtain t where t: "join_with [10] (map (\<lambda>(k, v). formatYamlLine k v) m) = t" "no_fence t"
    "parseSimpleYamlObject number (split_lines t) [] = Inr m"
    using frontmatter_read [OF m(1,4)] by blast
  let ?md = "js ''---'' @ 10 # t @ 10 # js ''---'' @ 10 # 10 # body"
  have build: "buildSkillMd leq name description body fs = Inr ?md"
    using c no_leading_lf [OF body] t(1) by (simp add: buildSkillMd_def Let_def body m_def)
  have "optional 0xFEFF ?md = ?md" by (simp add: optional_def colon_blank)
  moreover have "fence_open ?md = Some (t @ 10 # js ''---'' @ 10 # 10 # body)"
    by (simp add: fence_open_def optional_def colon_blank)
  moreover have "strip_line_break (10 # body) = body" by (simp add: strip_line_break_def optional_def)
  ultimately have "parseSkillMd number ?md = Inr \<lparr>ps_name = trim name, ps_description = trim description,
      ps_body = body, ps_frontmatter = m\<rparr>"
    using c by (simp add: parseSkillMd_def fence_text_closed [OF t(2)] t(3) m(2,3) stringifyScalar_def Let_def)
  with build show ?thesis by blast
qed

lemma rebuilt_same:
  fixes leq :: "jstring \<Rightarrow> jstring \<Rightarrow> bool"
  assumes "linear_order leq" and "fields_ok number fs" "restorable (trim name)" "restorable (trim description)"
  defines "m \<equiv> merged_fields leq (trim name) (trim description) fs"
  shows "buildSkillMd leq (trim name) (trim description) body m = buildSkillMd leq name description body fs"
proof -
  note ok = merged_ok [OF assms(2-4), of leq, folded m_def]
  have "sort_by (\<lambda>a b. key_le leq (fst a) (fst b)) m = m"
    unfolding m_def merged_fields_def by (rule sort_by_sorted [OF sorted_sort_by [OF key_le_linear [OF assms(1)]]])
  then have "merged_fields leq (trim name) (trim description) m = m"
    using ok(2,3) by (simp add: merged_fields_def update_triv)
  then show ?thesis by (simp add: buildSkillMd_def Let_def split: option.split flip: m_def)
qed


text \<open>A skill with a block, a list, and a description that needs quotes.\<close>

definition standup_fields :: "(jstring \<times> yaml) list" where
  "standup_fields =
     [(js ''tags'', YList [YText (js ''team''), YText (js ''daily'')]),
      (js ''notes'', YText (js ''Ask first'' @ [10, 10] @ js ''  then: write'' @ [10])),
      (js ''version'', YNum (js ''2'')), (js ''draft'', YBool False)]"


text \<open>
  What is not restored. A text of two lines that ends in two line feeds is written with only its first
  line indented, so that the file is refused when it is read; and quotes inside quotes come back with
  the backslashes that were written.
\<close>

definition rewritten :: "jstring \<Rightarrow> (jstring \<times> yaml) list \<Rightarrow> skill_error + parsed_skill" where
  "rewritten description frontmatter =
     (case buildSkillMd (\<le>) (js ''N'') description [] frontmatter of Inl e \<Rightarrow> Inl e | Inr md \<Rightarrow> parseSkillMd id md)"

lemma kept_block_is_refused:
  "rewritten (js ''D'') [(js ''notes'', YText (js ''a'' @ [10] @ js ''b'' @ [10, 10]))] = Inl (InvalidLine (js ''b''))"
  by code_simp

lemma inner_quotes_change:
  "map_sum id ps_description (rewritten (js ''say '' @ [34] @ js ''hi'' @ [34] @ js '' & go'') []) =
     Inr (js ''say '' @ [92, 34] @ js ''hi'' @ [92, 34] @ js '' & go'')"
  by code_simp

end
