(* ===== verification/SkillExpand.thy ===== *)
theory SkillExpand
  imports AgentSkillProps
begin

text \<open>
  Prompts that refer to skills: a prompt in which the references were expanded once, when a routine
  fires, is expanded again when the run starts, and stays as it is.
\<close>

subsection \<open>A prompt that names a skill\<close>

definition good_skill :: "skill_record \<Rightarrow> bool" where
  "good_skill s \<longleftrightarrow>
     sk_name s \<noteq> [] \<and> trim (sk_name s) = sk_name s \<and> hd (sk_name s) \<noteq> 47 \<and> length (sk_name s) \<le> 80 \<and>
     \<not> list_ex line_break_char (sk_name s) \<and> \<not> settings_action (sk_name s) \<and> trim (sk_content s) \<noteq> []"

lemma js_use: "js ''Use skill: '' = [85, 115, 101, 32, 115, 107, 105, 108, 108, 58, 32]"
  by (simp add: js_def)

lemma use_prefix:
  assumes "n = [] \<or> \<not> is_ws (hd n)"
  shows "force_prefix (js ''Use skill: '' @ n) = Some n" and "trim_start (js ''Use skill: '' @ n) = js ''Use skill: '' @ n"
proof -
  have ws: "is_ws 32" "\<not> is_ws 115" "\<not> is_ws 85" by (simp_all add: is_ws_def)
  have "dropWhile is_ws n = n" using assms by (cases n) simp_all
  moreover have "ascii_lower [85, 115, 101] = js ''use''" "ascii_lower [115, 107, 105, 108, 108, 58] = js ''skill:''"
    by code_simp+
  ultimately show "force_prefix (js ''Use skill: '' @ n) = Some n"
    using ws by (simp add: force_prefix_def js_use Let_def) (simp add: js_def)
  show "trim_start (js ''Use skill: '' @ n) = js ''Use skill: '' @ n" using ws by (simp add: js_use trim_start_def)
qed

lemma forced_skill_read:
  assumes "good_skill s"
  shows "extractForcedSkillName (js ''Use skill: '' @ sk_name s @ 10 # r) = Some (sk_name s, trim_start r)"
proof -
  have n: "sk_name s \<noteq> []" "trim (sk_name s) = sk_name s" "hd (sk_name s) \<noteq> 47" "length (sk_name s) \<le> 80"
    "\<not> list_ex line_break_char (sk_name s)" "\<not> settings_action (sk_name s)"
    using assms by (simp_all add: good_skill_def)
  have ws: "\<not> is_ws (hd (sk_name s @ 10 # r))" using trimmed_ends(1) [OF n(2,1)] n(1) by simp
  have "10 \<notin> set (sk_name s)" using n(5) by (auto simp: list_ex_iff line_break_char_def)
  then have line: "takeWhile (\<lambda>c. c \<noteq> 10) (sk_name s @ 10 # r) = sk_name s"
    by (auto simp: takeWhile_tail)
  have "dropWhile (\<lambda>c. c = 47) (sk_name s) = sk_name s" using n(1,3) by (cases "sk_name s") simp_all
  with n ws show ?thesis
    by (simp add: extractForcedSkillName_def use_prefix [of "sk_name s @ 10 # r", OF disjI2] line Let_def)
qed

subsection \<open>A prompt that was expanded\<close>

text \<open>The text begins with the name of a skill and its content, followed by nothing or a new line.\<close>

definition begins_with :: "skill_record \<Rightarrow> jstring \<Rightarrow> bool" where
  "begins_with s p \<longleftrightarrow>
     (\<exists>r. p = js ''Use skill: '' @ sk_name s @ 10 # 10 # trim (sk_content s) @ r \<and> (r = [] \<or> hd r = 10))"

lemma trim_middle:
  assumes "a \<noteq> []" and "trim a = a"
  shows "trim (a @ 10 # t) = a \<or> prefix (a @ [10]) (trim (a @ 10 # t))"
proof (cases "\<forall>c \<in> set t. is_ws c")
  case True
  then have "\<forall>c \<in> set (10 # t). is_ws c" by simp
  from trim_append_ws [OF this, of a] assms(2) show ?thesis by simp
next
  case False
  then obtain pre c post where t: "t = pre @ c # post" "\<not> is_ws c" using split_list by metis
  have "trim_start (a @ 10 # t) = a @ 10 # t"
    using trimmed_ends(1) [OF assms(2,1)] assms(1) by (intro trim_start_hd) simp
  then have "trim (a @ 10 # t) = trim_end ((a @ 10 # pre) @ c # post)" by (simp add: trim_def t)
  also have "\<dots> = (a @ 10 # pre) @ c # trim_end post" by (rule trim_end_keeps [OF t(2)])
  finally show ?thesis by (simp add: prefix_def)
qed

lemma begins_expanded:
  assumes "begins_with s p" and "good_skill s" and "findSkillByName lower skills (sk_name s) = Some s"
  shows "expandSkillReferencesInPrompt lower canon p skills = p"
proof -
  obtain r where p: "p = js ''Use skill: '' @ sk_name s @ 10 # 10 # trim (sk_content s) @ r" and r: "r = [] \<or> hd r = 10"
    using assms(1) by (auto simp: begins_with_def)
  let ?c = "trim (sk_content s)"
  have c: "?c \<noteq> []" "trim ?c = ?c" using assms(2) by (simp_all add: good_skill_def)
  have n: "sk_name s \<noteq> []" "trim (sk_name s) = sk_name s" using assms(2) by (simp_all add: good_skill_def)
  have "trim_start (10 # ?c @ r) = ?c @ r"
    using trimmed_ends(1) [OF c(2,1)] c(1) trim_start_hd [of "?c @ r"] by (simp add: trim_start_def)
  then have forced: "extractForcedSkillName p = Some (sk_name s, ?c @ r)"
    using forced_skill_read [OF assms(2), of "10 # ?c @ r"] by (simp add: p)
  have "restAlreadyIncludesSkillContent (?c @ r) (sk_content s)"
  proof (cases r)
    case Nil
    then show ?thesis using c by (simp add: restAlreadyIncludesSkillContent_def)
  next
    case (Cons x t)
    with r have "r = 10 # t" by simp
    with trim_middle [OF c, of t] c show ?thesis by (auto simp: restAlreadyIncludesSkillContent_def Let_def)
  qed
  moreover have "trim_start p = p"
    using use_prefix(2) [of "sk_name s @ 10 # 10 # ?c @ r"] trimmed_ends(1) [OF n(2,1)] n(1) by (simp add: p)
  ultimately show ?thesis
    using assms(3) by (simp add: expandSkillReferencesInPrompt_def forced)
qed

lemma found_skill:
  assumes "findSkillByName lower skills name = Some s"
  shows "findSkillByName lower skills (sk_name s) = Some s" and "s \<in> set skills"
proof -
  have n: "lower (trim name) \<noteq> []" "List.find (\<lambda>t. lower (trim (sk_name t)) = lower (trim name)) skills = Some s"
    using assms by (auto simp: findSkillByName_def Let_def split: if_splits)
  then have "lower (trim (sk_name s)) = lower (trim name)" "s \<in> set skills"
    by (auto simp: find_Some_iff)
  with n show "findSkillByName lower skills (sk_name s) = Some s" "s \<in> set skills"
    by (simp_all add: findSkillByName_def)
qed

lemma forced_begins: "begins_with s (formatForcedSkillPrompt (sk_name s) (sk_content s) rest)"
  by (auto simp: begins_with_def formatForcedSkillPrompt_def Let_def)

lemma begins_append: "begins_with s p \<Longrightarrow> begins_with s (p @ 10 # t)"
proof -
  assume "begins_with s p"
  then obtain r where "p = js ''Use skill: '' @ sk_name s @ 10 # 10 # trim (sk_content s) @ r" "r = [] \<or> hd r = 10"
    by (auto simp: begins_with_def)
  then show ?thesis unfolding begins_with_def by (intro exI [of _ "r @ 10 # t"]) (cases r; simp)
qed

lemma mentions_begin:
  assumes "expand_mentions lower canon prompt skills \<noteq> prompt"
  shows "\<exists>s name. findSkillByName lower skills name = Some s \<and> begins_with s (expand_mentions lower canon prompt skills)"
proof -
  define found where "found = List.map_filter (findSkillByName lower skills)
    (extractRoutineSkillMentions lower canon prompt (Some (map sk_name skills)))"
  define rest where "rest = trim (collapse_blanks [] (foldl (\<lambda>r s. strip_mentions canon (sk_name s) 0 True r) prompt found))"
  define blocks where "blocks = map (\<lambda>s. formatForcedSkillPrompt (sk_name s) (sk_content s) None) found"
  have e: "expand_mentions lower canon prompt skills =
      (if blocks = [] then prompt else join_with [10, 10] (filter (\<lambda>t. t \<noteq> []) (blocks @ [rest])))"
    by (simp add: expand_mentions_def found_def rest_def blocks_def Let_def)
  with assms obtain s fs where f: "found = s # fs" by (cases found) (simp_all add: blocks_def)
  then have "s \<in> set found" by simp
  then obtain name where name: "findSkillByName lower skills name = Some s"
    by (auto simp: found_def List.map_filter_def)
  let ?b = "formatForcedSkillPrompt (sk_name s) (sk_content s) None"
  have b: "begins_with s ?b" by (rule forced_begins)
  then have "?b \<noteq> []" by (auto simp: begins_with_def js_use)
  then obtain more where "filter (\<lambda>t. t \<noteq> []) (blocks @ [rest]) = ?b # more" "blocks \<noteq> []"
    by (simp add: blocks_def f)
  with e have "expand_mentions lower canon prompt skills = join_with [10, 10] (?b # more)" by simp
  moreover have "begins_with s (join_with [10, 10] (?b # more))"
    using b begins_append [OF b] by (cases more) simp_all
  ultimately show ?thesis using name by auto
qed


definition standup_skill :: skill_record where
  "standup_skill =
     \<lparr>sk_id = js ''s1'', sk_name = js ''Daily standup'', sk_description = js ''D'', sk_content = js ''Ask @Daily standup.'',
      sk_source = js ''user'', sk_readOnly = False\<rparr>"


end
