(* ===== verification/Spec2Isabelle.thy ===== *)
theory Spec2Isabelle
  imports EventFollow SendAnswer ApprovalPolicy LiveMessages Redaction ComputerLease Effects
    RunWorker ApprovalKey BotDelivery ClientThread JobReconciler ThreadSnapshot CompactionRuns
    SandboxScreens DockerStream LifecycleLock SecretsGuard SandboxActions SandboxNetwork
    UpdaterCommands UpdaterPlan RealtimeFanout NetworkProps SkillExpand
begin

text \<open>
  Rakazo, a workspace in which bots work for users on computers of their own: a development
  over its TypeScript sources (\<open>apps/\<close> and \<open>packages/\<close> of the repository).

  \<^bold>\<open>The program.\<close> A user writes to a bot in a thread. The message, a task and a queued run are
  committed together (\<open>packages/db/src/events.ts\<close>); a background job makes a worker claim the
  run under a lease with a fence and carry it out (\<open>packages/adapters/src/executor.ts\<close>). The
  run writes messages and product events, asks for input or approval, hands its computer to
  the user and takes it back, and ends. Clients follow the events of a thread by their
  sequence numbers and fold them into what they show. Actions with effects outside are
  recorded, approved by rules, by a judge or by the user, and executed once. Routines start
  runs on schedules, bots write to each other, and idle computers are put to sleep. A
  reconciler enqueues again what lost its job.

  \<^bold>\<open>Theories and code.\<close>
  \<^item> \<open>Prelude\<close>: strings as 16-bit code units, transactions that roll back, tables as lists of
    rows; the locale \<open>keyed_update\<close> of every row update. \<open>Contracts\<close>: blocks, events and
    payloads of \<open>packages/contracts\<close>. \<open>Db\<close>: the rows of \<open>packages/db/prisma/schema.prisma\<close>
    with the columns the operations use, the unique constraints, and the client operations.
  \<^item> \<open>RunState\<close> (\<open>core/run-state.ts\<close>), \<open>ActionApproval\<close> and \<open>ApprovalPolicy\<close>
    (\<open>core/action-approval.ts\<close>), \<open>ApprovalKey\<close> (\<open>core/approval-effect-key.ts\<close>).
  \<^item> \<open>Messages\<close> (\<open>db/messages.ts\<close>, \<open>appendEventInTransaction\<close>), \<open>ThreadEvents\<close> and
    \<open>ThreadEventsProps\<close> (the transactions of \<open>db/events.ts\<close>), \<open>ThreadClaims\<close>, \<open>SendAnswer\<close>
    and \<open>EventFollow\<close> (what they promise; the follower of \<open>subscribe\<close>).
  \<^item> \<open>LiveMessages\<close> and \<open>Redaction\<close> (\<open>core/events.ts\<close>): live blocks, projection, secrets.
  \<^item> \<open>MessagePages\<close> (\<open>api/thread-message-pages.ts\<close>, \<open>core/message-pages.ts\<close>) and
    \<open>ClientThread\<close> (\<open>web/lib/thread-events.ts\<close>): what a client shows of a thread.
  \<^item> \<open>ComputerControl\<close> (\<open>adapters/computer-control.ts\<close>), \<open>ComputerLease\<close>
    (\<open>adapters/computer-lifecycle.ts\<close>, \<open>computer-idle.ts\<close>), \<open>Effects\<close>
    (\<open>adapters/approval-effect.ts\<close>, the claims of \<open>executor.ts\<close>).
  \<^item> \<open>Numbers\<close>, \<open>Cron\<close> (\<open>core/cron.ts\<close>), \<open>RunWorker\<close> (leases, requeues and routine wakes of
    \<open>adapters/executor.ts\<close>), \<open>JobQueue\<close> (\<open>adapter-kit/background-jobs.ts\<close>, the in-memory queue
    of \<open>adapters/wakeup.ts\<close>), \<open>JobReconciler\<close> (\<open>adapters/job-reconciler.ts\<close>).
  \<^item> \<open>BotDirectory\<close> (\<open>core/bot-messages.ts\<close>) and \<open>BotDelivery\<close> (\<open>adapters/bot-messages.ts\<close>).
  \<^item> \<open>ChatGroups\<close> (\<open>db/groups.ts\<close>), \<open>GroupChat\<close> (\<open>core/group-mentions.ts\<close>,
    \<open>adapters/group-handoff.ts\<close>), \<open>ThreadTarget\<close> and \<open>ThreadSnapshot\<close> (\<open>api/thread-target.ts\<close>,
    \<open>api/computer-status.ts\<close>): groups, who a message wakes, sends, and what a client starts from.
  \<^item> \<open>WorkspacePaths\<close> (\<open>adapters/computer-support.ts\<close>) and \<open>Attachments\<close> (\<open>contracts\<close> and
    \<open>core/attachments.ts\<close>, \<open>adapters/artifacts.ts\<close> and \<open>thread-artifacts.ts\<close>,
    \<open>api/artifacts.ts\<close>) with the locale \<open>artifact_store\<close> of the store's interface.
  \<^item> \<open>HistoryCompaction\<close> and \<open>CompactionRuns\<close> (\<open>adapters/history-compaction.ts\<close>, the history of a
    run in \<open>executor.ts\<close>): plans and commits of summaries, and jobs, clearings and runs together.
  \<^item> \<open>ScreenLease\<close> (\<open>core/screen-lease.ts\<close>, \<open>adapters/computer-screens.ts\<close>), and of the supervisor in
    \<open>infra/sandboxes/supervisor/src\<close>: \<open>SandboxScreens\<close> (the displays of a shared computer),
    \<open>LifecycleLock\<close> (creating and deleting in turn), \<open>SandboxActions\<close> (actions, commands and their
    limits), \<open>SandboxNetwork\<close> (identities and networks), \<open>DockerStream\<close> over \<open>Utf8\<close> (what a command
    wrote). \<open>SecretsGuard\<close> (\<open>core/secrets-guard.ts\<close>): credentials and their comparison.
  \<^item> \<open>UpdateSource\<close> (\<open>core/self-update.ts\<close>), \<open>ComposeUpdate\<close> and \<open>UpdateEnv\<close>
    (\<open>core/compose-update.ts\<close>), \<open>Updater\<close> (\<open>infra/updater/src\<close>): repositories, images, the
    environment file and the updater of a deployment; \<open>UpdaterProps\<close>, \<open>UpdaterCommands\<close> and
    \<open>UpdaterPlan\<close>: what it promises.
  \<^item> \<open>RealtimeFanout\<close> (\<open>adapters/realtime.ts\<close>): subscribers and the connection that listens for the
    signals of the database. \<open>NetworkGuard\<close> (\<open>adapters/network-address.ts\<close>, \<open>remote-mcp.ts\<close>,
    \<open>openai-compatible-url.ts\<close>) and \<open>NetworkProps\<close>: the hosts requests may go to.
  \<^item> \<open>TextLines\<close>: pieces and lines of texts. \<open>AgentSkill\<close> (\<open>core/agent-skill.ts\<close>) and
    \<open>AgentSkillProps\<close>: the files of skills; \<open>SkillExpand\<close>: the references to skills in a prompt.
  \<^item> \<open>Example\<close>: the small database on which the theorems are exercised.

  \<^bold>\<open>State and steps.\<close> A transaction is a function from the database to an error or a value and
  a new database, statement by statement as the source has it; reads before a transaction see
  a database of their own. Interleavings are sequences of such steps: \<open>run_step\<close> in
  \<open>RunWorker\<close>, the steps of \<open>ThreadClaims\<close>, \<open>ComputerLease\<close> and \<open>Effects\<close>, \<open>bot_chain\<close> in
  \<open>BotDelivery\<close>, the inputs of a client in \<open>ClientThread\<close>, the passes in \<open>JobReconciler\<close>,
  \<open>compaction_step\<close> in \<open>CompactionRuns\<close>, \<open>supervisor_step\<close> in \<open>SandboxScreens\<close> and \<open>lock_step\<close> in
  \<open>LifecycleLock\<close>, \<open>fanout_step\<close> in \<open>RealtimeFanout\<close>, one step for each stretch of the source between two awaits.

  \<^bold>\<open>What is shown.\<close> The transactions keep the tables well-formed and follow the table of run
  states, with the one exception that is stated; a worker that lost its lease commits
  nothing; at most one job holds a run when reads are not stale, and the theorem on stale
  reads shows the case in which two do; effects are claimed once, a routine fires once per due
  time, a keyed delivery between bots happens once and their chains end after six; the
  redaction of a stream does not depend on its chunks and leaves no secret; what a client
  shows is a segment of the thread, except after a refresh that skipped more than a page; no
  queued run is forgotten by the reconciler. A send leaves one queued run for each bot it
  wakes, the snapshot the server takes is well-formed for the client, an archived group is at
  rest, an attachment is read back by its owner only, and the paths of a bot stay in the
  workspace. Stopping a thread reads and writes in separate statements; a lemma of
  \<open>ThreadTarget\<close> shows the run that finishes in between. Compaction loses no message and nothing of
  a cleared conversation comes back; the screens assigned on a shared computer never
  collide; a credential opens one service, and the outputs of a command are read
  back as they were sent. The version pinned for a deployment is the one that runs, however an
  update ends, a rollback is undone by a rollback, a plan foretells its update, and no part of
  a request becomes an option of a command. A live fan-out always has a connection, makes one or has
  a timer for the next attempt; a request to a remote tool leaves for public addresses only, and an
  address is judged by its number however it is spelled. A skill file is read back as it was written
  for the values that can be restored; lemmas show two kinds of values that are not; the
  references to skills in a prompt are expanded once.

  \<^bold>\<open>Bounds and termination.\<close> Counters and times are unbounded integers, as the values of the
  language are below \<open>2^53\<close>. Loops are structural or end by a measure: the pages of a thread by
  the messages below the cursor, the passes of a scan by the rows ahead of it. No fuel is used.

  \<^bold>\<open>Parameters.\<close> Code that is not in the repository is an argument: the case conversions and
  \<open>String\<close> of the language on values it does not need to know, the digest of approval keys, the
  cron library and the time-zone check, the encrypting secret store, the calls of computer
  providers, the text of an instant, the letters, numbers and case folding of the expressions
  that find mentions, the summarizer of a history, the container engine, the parser of addresses, the order of a locale, the text of a number, the name service, the client of the database's
  notifications, and the commands of the updater, each of which may end in any way that depends on those before it. Numbers inside JSON are
  integers.

  \<^bold>\<open>Not modelled.\<close> User interfaces, request handlers that only validate and query, the agent
  runtimes, sandbox and connector services, OAuth and authentication, the scripts a supervisor
  runs in a container, the texts of advice and the times of
  an update, the random part of a delay, the database library of the job queue and the advisory lock of the reconciler's leader; the
  columns the client maintains by itself (\<open>@updatedAt\<close>) except where an operation reads them;
  failures between a commit and its notifications, which the sources log and repair later.
\<close>

end
